(* ===== verification/Prelude.thy ===== *)
theory Prelude
  imports Main "HOL-Library.List_Lexorder" "HOL-Library.Char_ord" "HOL-Library.Sublist"
begin

text \<open>
  Shared ground of the development: the exceptions the program raises, results as sums,
  tables as lists of rows with the SQL reading of WHERE, and the few string operations of
  Python the program uses. Strings are lists of characters with code points below 256, ordered
  lexicographically by code point as Python and SQLite (BINARY collation) compare them.
\<close>

named_theorems tables \<open>facts about tables: lists of rows selected and updated by a predicate\<close>
named_theorems results \<open>facts about results: sums with the exception on the left\<close>

section \<open>Exceptions\<close>

text \<open>
  One constructor per exception class that the modelled code raises or lets through. The
  class name and the \<open>reason_code\<close> attribute matter: the service records
  \<open>getattr(exc, "reason_code", type(exc).__name__)\<close>.
\<close>

datatype exn =
    ConflictError string | NotFoundError string | InvalidTransitionError string
  | ExpiredError string | ExecutionDisabledError string
  | StoreConflict string | StoreNotFound string | IdempotencyConflict string | IntegrityError
  | SafetyViolation string | SandboxViolation string | ConfigurationError string
  | ContainerLabError string | ModelAnalysisError string
  | ValueError string | ValidationError | KeyError string | IndexError | TypeError string
  | AssertionError | OverflowError | OSError | AttributeError | RuntimeError
  | StopIteration | EOFError | ZeroDivisionError | SystemExit nat | OperationalError | DatabaseError

fun exn_class_name :: "exn \<Rightarrow> string" where
  "exn_class_name (ConflictError _) = ''ConflictError''"
| "exn_class_name (NotFoundError _) = ''NotFoundError''"
| "exn_class_name (InvalidTransitionError _) = ''InvalidTransitionError''"
| "exn_class_name (ExpiredError _) = ''ExpiredError''"
| "exn_class_name (ExecutionDisabledError _) = ''ExecutionDisabledError''"
| "exn_class_name (StoreConflict _) = ''StoreConflict''"
| "exn_class_name (StoreNotFound _) = ''StoreNotFound''"
| "exn_class_name (IdempotencyConflict _) = ''IdempotencyConflict''"
| "exn_class_name IntegrityError = ''IntegrityError''"
| "exn_class_name (SafetyViolation _) = ''SafetyViolation''"
| "exn_class_name (SandboxViolation _) = ''SandboxViolation''"
| "exn_class_name (ConfigurationError _) = ''ConfigurationError''"
| "exn_class_name (ContainerLabError _) = ''ContainerLabError''"
| "exn_class_name (ModelAnalysisError _) = ''ModelAnalysisError''"
| "exn_class_name (ValueError _) = ''ValueError''"
| "exn_class_name ValidationError = ''ValidationError''"
| "exn_class_name (KeyError _) = ''KeyError''"
| "exn_class_name IndexError = ''IndexError''"
| "exn_class_name (TypeError _) = ''TypeError''"
| "exn_class_name AssertionError = ''AssertionError''"
| "exn_class_name OverflowError = ''OverflowError''"
| "exn_class_name OSError = ''OSError''"
| "exn_class_name AttributeError = ''AttributeError''"
| "exn_class_name RuntimeError = ''RuntimeError''"
| "exn_class_name StopIteration = ''StopIteration''"
| "exn_class_name EOFError = ''EOFError''"
| "exn_class_name ZeroDivisionError = ''ZeroDivisionError''"
| "exn_class_name (SystemExit _) = ''SystemExit''"
| "exn_class_name OperationalError = ''OperationalError''"
| "exn_class_name DatabaseError = ''DatabaseError''"

text \<open>\<open>ContainerLabError\<close> and \<open>ModelAnalysisError\<close> carry a reason code, the others do not.\<close>

fun reason_code :: "exn \<Rightarrow> string" where
  "reason_code (ContainerLabError code) = code"
| "reason_code (ModelAnalysisError code) = code"
| "reason_code e = exn_class_name e"

text \<open>\<open>isinstance(exc, StoreConflict)\<close>: \<open>IdempotencyConflict\<close> is a subclass.\<close>

fun is_store_conflict :: "exn \<Rightarrow> bool" where
  "is_store_conflict (StoreConflict _) = True"
| "is_store_conflict (IdempotencyConflict _) = True"
| "is_store_conflict _ = False"

text \<open>\<open>isinstance(exc, ServiceError)\<close>, the family the HTTP layer turns into a status code.\<close>

fun service_status :: "exn \<Rightarrow> nat option" where
  "service_status (ConflictError _) = Some 409"
| "service_status (NotFoundError _) = Some 404"
| "service_status (InvalidTransitionError _) = Some 409"
| "service_status (ExpiredError _) = Some 409"
| "service_status (ExecutionDisabledError _) = Some 409"
| "service_status _ = None"

text \<open>\<open>str(exc)\<close>, for the classes the service re-raises.\<close>

fun exn_message :: "exn \<Rightarrow> string" where
  "exn_message (StoreConflict m) = m"
| "exn_message (StoreNotFound m) = m"
| "exn_message (IdempotencyConflict m) = m"
| "exn_message (SafetyViolation m) = m"
| "exn_message (ValueError m) = m"
| "exn_message _ = ''''"

section \<open>Results\<close>

text \<open>\<open>bindE m f\<close> continues with \<open>f\<close> unless \<open>m\<close> raised.\<close>

definition bindE :: "'e + 'a \<Rightarrow> ('a \<Rightarrow> 'e + 'b) \<Rightarrow> 'e + 'b" where
  "bindE m f = (case m of Inl e \<Rightarrow> Inl e | Inr x \<Rightarrow> f x)"

lemma bindE_simps [simp, results]:
  "bindE (Inl e) f = Inl e"
  "bindE (Inr x) f = f x"
  by (simp_all add: bindE_def)

lemma bindE_Inr_iff [results]: "bindE m f = Inr y \<longleftrightarrow> (\<exists>x. m = Inr x \<and> f x = Inr y)"
  by (cases m) auto

lemma bindE_Inl_iff [results]:
  "bindE m f = Inl e \<longleftrightarrow> m = Inl e \<or> (\<exists>x. m = Inr x \<and> f x = Inl e)"
  by (cases m) auto

definition is_ok :: "'e + 'a \<Rightarrow> bool" where
  "is_ok m \<longleftrightarrow> (case m of Inl _ \<Rightarrow> False | Inr _ \<Rightarrow> True)"

lemma is_ok_simps [simp, results]: "is_ok (Inr x)" "\<not> is_ok (Inl e)"
  by (simp_all add: is_ok_def)

lemma is_ok_iff [results]: "is_ok m \<longleftrightarrow> (\<exists>x. m = Inr x)"
  by (cases m) auto

text \<open>
  Code that changes state and may raise: the state at the time of the exception is kept, as the
  program keeps what it did before it raised. \<open>catchS\<close> is \<open>try ... except\<close>.
\<close>

type_synonym ('s, 'a) action = "'s \<Rightarrow> (exn + 'a) \<times> 's"

definition returnS :: "'a \<Rightarrow> ('s, 'a) action" where "returnS x s = (Inr x, s)"

definition raiseS :: "exn \<Rightarrow> ('s, 'a) action" where "raiseS e s = (Inl e, s)"

definition bindS :: "('s, 'a) action \<Rightarrow> ('a \<Rightarrow> ('s, 'b) action) \<Rightarrow> ('s, 'b) action" where
  "bindS m f s = (case m s of (Inl e, s') \<Rightarrow> (Inl e, s') | (Inr x, s') \<Rightarrow> f x s')"

definition readS :: "('s \<Rightarrow> exn + 'a) \<Rightarrow> ('s, 'a) action" where "readS g s = (g s, s)"

definition changeS :: "('s \<Rightarrow> exn + 's) \<Rightarrow> ('s, unit) action" where
  "changeS g s = (case g s of Inl e \<Rightarrow> (Inl e, s) | Inr s' \<Rightarrow> (Inr (), s'))"

definition catchS :: "('s, 'a) action \<Rightarrow> (exn \<Rightarrow> ('s, 'a) action) \<Rightarrow> ('s, 'a) action" where
  "catchS m handler s = (case m s of (Inl e, s') \<Rightarrow> handler e s' | (Inr x, s') \<Rightarrow> (Inr x, s'))"

text \<open>\<open>try ... finally\<close>: an exception of the second block replaces the outcome of the first.\<close>

definition finallyS :: "('s, 'a) action \<Rightarrow> ('s, unit) action \<Rightarrow> ('s, 'a) action" where
  "finallyS m cleanup s =
     (case m s of (r, s') \<Rightarrow> (case cleanup s' of (Inl e, s'') \<Rightarrow> (Inl e, s'') | (Inr _, s'') \<Rightarrow> (r, s'')))"

fun eachS :: "('a \<Rightarrow> ('s, unit) action) \<Rightarrow> 'a list \<Rightarrow> ('s, unit) action" where
  "eachS f [] = returnS ()"
| "eachS f (x # xs) = bindS (f x) (\<lambda>_. eachS f xs)"

fun gatherS :: "('a \<Rightarrow> ('s, 'b) action) \<Rightarrow> 'a list \<Rightarrow> ('s, 'b list) action" where
  "gatherS f [] = returnS []"
| "gatherS f (x # xs) = bindS (f x) (\<lambda>y. bindS (gatherS f xs) (\<lambda>ys. returnS (y # ys)))"

text \<open>A relation between the states before and after that every step of an action establishes.\<close>

definition keeps :: "('s \<Rightarrow> 's \<Rightarrow> bool) \<Rightarrow> ('s, 'a) action \<Rightarrow> bool" where
  "keeps R m \<longleftrightarrow> (\<forall>s. R s (snd (m s)))"

named_theorems keeping \<open>rules that an action keeps a relation\<close>

lemma bindS_eq:
  "bindS m f s = (case fst (m s) of Inl e \<Rightarrow> (Inl e, snd (m s)) | Inr x \<Rightarrow> f x (snd (m s)))"
  by (simp add: bindS_def split: prod.splits sum.splits)

lemma bindS_Inr_iff:
  "bindS m f s = (Inr y, s') \<longleftrightarrow> (\<exists>x t. m s = (Inr x, t) \<and> f x t = (Inr y, s'))"
  by (auto simp: bindS_def split: prod.splits sum.splits)

lemma actions_apply [simp]:
  "returnS x s = (Inr x, s)" "raiseS e s = (Inl e, s)" "readS g s = (g s, s)"
  by (simp_all add: returnS_def raiseS_def readS_def)

lemma keeps_bind [keeping]:
  assumes "transp R" and "keeps R m" and "\<And>x. keeps R (f x)"
  shows "keeps R (bindS m f)"
  using assms unfolding keeps_def bindS_eq by (auto split: sum.splits dest: transpD)

lemma keeps_catch [keeping]:
  assumes "transp R" and "keeps R m" and "\<And>e. keeps R (h e)"
  shows "keeps R (catchS m h)"
  unfolding keeps_def
proof
  fix s
  obtain r t where m: "m s = (r, t)" by fastforce
  then have "R s t" using assms(2) by (metis keeps_def snd_conv)
  moreover have "R t (snd (h e t))" for e using assms(3) by (simp add: keeps_def)
  ultimately show "R s (snd (catchS m h s))"
    using assms(1) by (cases r) (auto simp: catchS_def m transp_def)
qed

lemma keeps_pure [keeping]:
  assumes "reflp R"
  shows "keeps R (returnS x)" "keeps R (raiseS e)" "keeps R (readS g)"
  using assms by (simp_all add: keeps_def reflpD)

lemma keeps_change [keeping]:
  assumes "reflp R" and "\<And>s s'. g s = Inr s' \<Longrightarrow> R s s'"
  shows "keeps R (changeS g)"
  using assms by (auto simp: keeps_def changeS_def reflpD split: sum.splits)

lemma keeps_each [keeping]:
  assumes "reflp R" and "transp R" and "\<And>x. x \<in> set xs \<Longrightarrow> keeps R (f x)"
  shows "keeps R (eachS f xs)"
  using assms(3) by (induction xs) (auto intro: keeps_pure keeps_bind assms)

lemma keeps_gather [keeping]:
  assumes "reflp R" and "transp R" and "\<And>x. x \<in> set xs \<Longrightarrow> keeps R (f x)"
  shows "keeps R (gatherS f xs)"
  using assms(3) by (induction xs) (auto intro: keeps_pure keeps_bind assms)


text \<open>
  A triple: started where \<open>P\<close> holds, the action returns with \<open>Q\<close> or raises with \<open>E\<close>.
\<close>

definition triple :: "('s \<Rightarrow> bool) \<Rightarrow> ('s, 'a) action \<Rightarrow> ('a \<Rightarrow> 's \<Rightarrow> bool) \<Rightarrow> (exn \<Rightarrow> 's \<Rightarrow> bool) \<Rightarrow> bool" where
  "triple P m Q E \<longleftrightarrow>
     (\<forall>s t. P s \<longrightarrow> (\<forall>e. m s = (Inl e, t) \<longrightarrow> E e t) \<and> (\<forall>x. m s = (Inr x, t) \<longrightarrow> Q x t))"

lemma triple_Inr: "triple P m Q E \<Longrightarrow> P s \<Longrightarrow> m s = (Inr x, t) \<Longrightarrow> Q x t"
  by (simp add: triple_def)

lemma triple_Inl: "triple P m Q E \<Longrightarrow> P s \<Longrightarrow> m s = (Inl e, t) \<Longrightarrow> E e t"
  by (simp add: triple_def)

lemma bindS_Inl_iff:
  "bindS m f s = (Inl e, s') \<longleftrightarrow> m s = (Inl e, s') \<or> (\<exists>x t. m s = (Inr x, t) \<and> f x t = (Inl e, s'))"
  by (auto simp: bindS_def split: prod.splits sum.splits)

lemma catchS_Inr_iff:
  "catchS m h s = (Inr y, s') \<longleftrightarrow> m s = (Inr y, s') \<or> (\<exists>e t. m s = (Inl e, t) \<and> h e t = (Inr y, s'))"
  by (auto simp: catchS_def split: prod.splits sum.splits)

lemma catchS_Inl_iff:
  "catchS m h s = (Inl e', s') \<longleftrightarrow> (\<exists>e t. m s = (Inl e, t) \<and> h e t = (Inl e', s'))"
  by (auto simp: catchS_def split: prod.splits sum.splits)

lemma triple_bind:
  assumes "triple P m R E" and "\<And>x. triple (R x) (f x) Q E"
  shows "triple P (bindS m f) Q E"
  unfolding triple_def bindS_Inl_iff bindS_Inr_iff
  using assms unfolding triple_def by blast

lemma triple_catch:
  assumes "triple P m Q F" and "\<And>e. triple (F e) (h e) Q E"
  shows "triple P (catchS m h) Q E"
  unfolding triple_def catchS_Inl_iff catchS_Inr_iff
  using assms unfolding triple_def by blast

lemma triple_pure:
  "(\<And>s. P s \<Longrightarrow> Q x s) \<Longrightarrow> triple P (returnS x) Q E"
  "(\<And>s. P s \<Longrightarrow> E e s) \<Longrightarrow> triple P (raiseS e) Q E"
  by (simp_all add: triple_def)

lemma triple_read:
  assumes "\<And>s e. P s \<Longrightarrow> g s = Inl e \<Longrightarrow> E e s" and "\<And>s x. P s \<Longrightarrow> g s = Inr x \<Longrightarrow> Q x s"
  shows "triple P (readS g) Q E"
  using assms by (auto simp: triple_def)

lemma triple_weaken:
  assumes "triple P m Q E" and "\<And>s. P' s \<Longrightarrow> P s" and "\<And>x s. Q x s \<Longrightarrow> Q' x s" and "\<And>e s. E e s \<Longrightarrow> E' e s"
  shows "triple P' m Q' E'"
  using assms unfolding triple_def by blast

section \<open>Tables\<close>

text \<open>
  A table is the list of its rows in insertion (rowid) order. \<open>select_one\<close> is \<open>SELECT ...
  WHERE key = k\<close> followed by \<open>fetchone\<close>; \<open>update_where\<close> is \<open>UPDATE ... SET ... WHERE\<close> and
  \<open>count_where\<close> its \<open>rowcount\<close>.
\<close>

definition select_one :: "('r \<Rightarrow> 'k) \<Rightarrow> 'k \<Rightarrow> 'r list \<Rightarrow> 'r option" where
  "select_one key k rows = find (\<lambda>r. key r = k) rows"

definition update_where :: "('r \<Rightarrow> bool) \<Rightarrow> ('r \<Rightarrow> 'r) \<Rightarrow> 'r list \<Rightarrow> 'r list" where
  "update_where P f rows = map (\<lambda>r. if P r then f r else r) rows"

definition count_where :: "('r \<Rightarrow> bool) \<Rightarrow> 'r list \<Rightarrow> nat" where
  "count_where P rows = length (filter P rows)"

lemma select_one_simps [simp, tables]:
  "select_one key k [] = None"
  "select_one key k (r # rows) = (if key r = k then Some r else select_one key k rows)"
  by (simp_all add: select_one_def)

lemma update_where_simps [simp, tables]:
  "update_where P f [] = []"
  "update_where P f (r # rows) = (if P r then f r else r) # update_where P f rows"
  by (simp_all add: update_where_def)

lemma count_where_simps [simp, tables]:
  "count_where P [] = 0"
  "count_where P (r # rows) = (if P r then Suc (count_where P rows) else count_where P rows)"
  by (simp_all add: count_where_def)

lemma select_one_SomeD [dest, tables]:
  "select_one key k rows = Some r \<Longrightarrow> r \<in> set rows \<and> key r = k"
  by (induction rows) (auto split: if_splits)

lemma select_one_None_iff [tables]: "select_one key k rows = None \<longleftrightarrow> k \<notin> key ` set rows"
  by (induction rows) auto

lemma select_one_append [simp, tables]:
  "select_one key k (rows @ rows') =
     (case select_one key k rows of None \<Rightarrow> select_one key k rows' | Some r \<Rightarrow> Some r)"
  by (induction rows) auto

lemma select_one_distinct [tables]:
  "distinct (map key rows) \<Longrightarrow> r \<in> set rows \<Longrightarrow> select_one key (key r) rows = Some r"
  by (induction rows) force+

lemma select_one_update_where [tables]:
  assumes "\<And>r. P r \<Longrightarrow> key (f r) = key r"
  shows "select_one key k (update_where P f rows) =
    map_option (\<lambda>r. if P r then f r else r) (select_one key k rows)"
  using assms by (induction rows) auto

lemma map_update_where [tables]:
  assumes "\<And>r. P r \<Longrightarrow> key (f r) = key r"
  shows "map key (update_where P f rows) = map key rows"
  using assms by (induction rows) auto

lemma length_update_where [simp, tables]: "length (update_where P f rows) = length rows"
  by (simp add: update_where_def)

lemma set_update_where [tables]:
  "set (update_where P f rows) = f ` {r \<in> set rows. P r} \<union> {r \<in> set rows. \<not> P r}"
  by (induction rows) auto

lemma update_where_none [tables]: "count_where P rows = 0 \<Longrightarrow> update_where P f rows = rows"
  by (induction rows) (auto split: if_splits)

lemma count_where_key [tables]:
  "distinct (map key rows) \<Longrightarrow>
   count_where (\<lambda>r. key r = k \<and> Q r) rows =
     (case select_one key k rows of None \<Rightarrow> 0 | Some r \<Rightarrow> if Q r then 1 else 0)"
proof (induction rows)
  case (Cons r rows)
  have none: "count_where (\<lambda>r. key r = k \<and> Q r) rows = 0" if "k \<notin> key ` set rows"
    using that by (induction rows) auto
  show ?case using Cons none by (auto simp: image_iff)
qed simp

section \<open>Text\<close>

definition code :: "char \<Rightarrow> nat" where "code c = of_char c"

definition char_in :: "char \<Rightarrow> nat \<Rightarrow> nat \<Rightarrow> bool" where
  "char_in c lo hi \<longleftrightarrow> lo \<le> code c \<and> code c \<le> hi"

definition is_digit :: "char \<Rightarrow> bool" where "is_digit c \<longleftrightarrow> char_in c 48 57"

definition is_ascii_lower :: "char \<Rightarrow> bool" where "is_ascii_lower c \<longleftrightarrow> char_in c 97 122"

definition is_ascii_upper :: "char \<Rightarrow> bool" where "is_ascii_upper c \<longleftrightarrow> char_in c 65 90"

definition is_ascii_alnum :: "char \<Rightarrow> bool" where
  "is_ascii_alnum c \<longleftrightarrow> is_digit c \<or> is_ascii_lower c \<or> is_ascii_upper c"

text \<open>\<open>str.isspace\<close> and the regular expression class \<open>\s\<close>, for code points below 256.\<close>

definition is_space :: "char \<Rightarrow> bool" where
  "is_space c \<longleftrightarrow> char_in c 9 13 \<or> char_in c 28 32 \<or> code c = 133 \<or> code c = 160"

text \<open>\<open>str.lower\<close> for code points below 256.\<close>

definition lower_char :: "char \<Rightarrow> char" where
  "lower_char c =
     (if is_ascii_upper c \<or> char_in c 192 214 \<or> char_in c 216 222
      then char_of (code c + 32) else c)"

definition lower :: "string \<Rightarrow> string" where "lower = map lower_char"

text \<open>\<open>needle in text\<close> on strings.\<close>

fun str_in :: "string \<Rightarrow> string \<Rightarrow> bool" where
  "str_in needle [] = (needle = [])"
| "str_in needle (c # text) = (prefix needle (c # text) \<or> str_in needle text)"

lemma str_in_sublist: "str_in needle t \<longleftrightarrow> sublist needle t"
  by (induction t) (auto simp: sublist_Cons_right)

definition strip :: "string \<Rightarrow> string" where
  "strip s = rev (dropWhile is_space (rev (dropWhile is_space s)))"

text \<open>A whole string against a one-character class, with the length limits of a schema field.\<close>

definition bounded_text :: "nat \<Rightarrow> nat \<Rightarrow> string \<Rightarrow> bool" where
  "bounded_text lo hi s \<longleftrightarrow> lo \<le> length s \<and> length s \<le> hi"

text \<open>Decimal notation of numbers, as \<open>str\<close> and \<open>json.dumps\<close> print integers.\<close>

definition digit_char :: "nat \<Rightarrow> char" where "digit_char d = char_of (48 + d)"

fun show_nat :: "nat \<Rightarrow> string" where
  "show_nat n = (if n < 10 then [digit_char n] else show_nat (n div 10) @ [digit_char (n mod 10)])"

declare show_nat.simps [simp del]

definition show_int :: "int \<Rightarrow> string" where
  "show_int i = (if i < 0 then CHR ''-'' # show_nat (nat (- i)) else show_nat (nat i))"

lemma code_digit_char: "d < 10 \<Longrightarrow> code (digit_char d) = 48 + d"
  unfolding code_def digit_char_def of_char_of by (rule mod_less) linarith

lemma digit_char_inj: "d < 10 \<Longrightarrow> e < 10 \<Longrightarrow> digit_char d = digit_char e \<longleftrightarrow> d = e"
  by (metis add_left_cancel code_digit_char)

lemma is_digit_digit_char [simp]: "d < 10 \<Longrightarrow> is_digit (digit_char d)"
  by (simp add: is_digit_def char_in_def code_digit_char)

lemma show_nat_nonempty [simp]: "show_nat n \<noteq> []"
  by (subst show_nat.simps) simp

lemma show_nat_digits: "\<forall>c \<in> set (show_nat n). is_digit c"
proof (induction n rule: show_nat.induct)
  case (1 n)
  then show ?case by (subst show_nat.simps) (auto simp: set_append)
qed

text \<open>Reading the digits back, so that decimal notation is injective.\<close>

definition read_nat :: "string \<Rightarrow> nat" where
  "read_nat s = foldl (\<lambda>n c. 10 * n + (code c - 48)) 0 s"

lemma read_show_nat [simp]: "read_nat (show_nat n) = n"
proof (induction n rule: show_nat.induct)
  case (1 n)
  show ?case
  proof (cases "n < 10")
    case True
    then show ?thesis by (subst show_nat.simps) (simp add: read_nat_def code_digit_char)
  next
    case False
    with 1 have "read_nat (show_nat (n div 10)) = n div 10" by simp
    with False show ?thesis by (subst show_nat.simps) (simp add: read_nat_def code_digit_char)
  qed
qed

lemma show_nat_inj [simp]: "show_nat m = show_nat n \<longleftrightarrow> m = n"
  by (metis read_show_nat)

lemma not_digit_minus: "\<not> is_digit (CHR ''-'')"
  by (simp add: is_digit_def char_in_def code_def)

lemma show_int_nonempty [simp]: "show_int i \<noteq> []"
  by (simp add: show_int_def)

lemma show_int_inj [simp]: "show_int i = show_int j \<longleftrightarrow> i = j"
proof -
  have hd: "show_nat n \<noteq> CHR ''-'' # s" for n s
    using show_nat_digits[of n] not_digit_minus by auto
  show ?thesis by (auto simp: show_int_def hd hd[symmetric] nat_eq_iff split: if_splits)
qed

end
