(* ===== verification/Clock.thy ===== *)
theory Clock
  imports Prelude
begin

text \<open>
  Time as the program keeps it (\<open>clock.py\<close>, and the uses of \<open>datetime\<close> in \<open>service.py\<close>):
  aware UTC datetimes, written to the store as \<open>isoformat()\<close> strings. The store compares these
  strings (\<open>now >= expires_at\<close> in Python, \<open>expires_at <= ?\<close> in SQL), so the order of the
  strings has to be the order of time: \<open>isoformat_le_iff\<close> below. Dates are proleptic Gregorian,
  years 1 to 9999; adding seconds carries through day, month and year and raises
  \<open>OverflowError\<close> beyond year 9999, as Python does.
\<close>

section \<open>UTC datetimes\<close>

record datetime =
  year :: nat
  month :: nat
  day :: nat
  hour :: nat
  minute :: nat
  second :: nat
  microsecond :: nat

definition is_leap :: "nat \<Rightarrow> bool" where
  "is_leap y \<longleftrightarrow> y mod 4 = 0 \<and> (y mod 100 \<noteq> 0 \<or> y mod 400 = 0)"

definition days_in_month :: "nat \<Rightarrow> nat \<Rightarrow> nat" where
  "days_in_month y m =
     (if m = 2 then (if is_leap y then 29 else 28)
      else if m = 4 \<or> m = 6 \<or> m = 9 \<or> m = 11 then 30 else 31)"

definition valid_date :: "nat \<times> nat \<times> nat \<Rightarrow> bool" where
  "valid_date = (\<lambda>(y, m, d). 1 \<le> y \<and> 1 \<le> m \<and> m \<le> 12 \<and> 1 \<le> d \<and> d \<le> days_in_month y m)"

definition date_of :: "datetime \<Rightarrow> nat \<times> nat \<times> nat" where
  "date_of t = (year t, month t, day t)"

definition valid_datetime :: "datetime \<Rightarrow> bool" where
  "valid_datetime t \<longleftrightarrow> valid_date (date_of t) \<and> year t \<le> 9999 \<and>
     hour t < 24 \<and> minute t < 60 \<and> second t < 60 \<and> microsecond t < 1000000"

section \<open>Writing and reading ISO strings\<close>

text \<open>\<open>fixed w n\<close> is \<open>f"{n:0wd}"\<close> for \<open>n < 10 ^ w\<close>.\<close>

fun fixed :: "nat \<Rightarrow> nat \<Rightarrow> string" where
  "fixed 0 n = []"
| "fixed (Suc w) n = fixed w (n div 10) @ [digit_char (n mod 10)]"

definition iso_fraction :: "nat \<Rightarrow> string" where
  "iso_fraction us = (if us = 0 then [] else ''.'' @ fixed 6 us)"

definition isoformat :: "datetime \<Rightarrow> string" where
  "isoformat t =
     fixed 4 (year t) @ ''-'' @ fixed 2 (month t) @ ''-'' @ fixed 2 (day t) @ ''T'' @
     fixed 2 (hour t) @ '':'' @ fixed 2 (minute t) @ '':'' @ fixed 2 (second t) @
     iso_fraction (microsecond t) @ ''+00:00''"

text \<open>
  \<open>datetime.fromisoformat\<close> on the strings the store holds. Other shapes that Python accepts
  never reach the code that calls it.
\<close>

definition fromisoformat :: "string \<Rightarrow> exn + datetime" where
  "fromisoformat s =
     (let t = \<lparr>year = read_nat (take 4 s), month = read_nat (take 2 (drop 5 s)),
               day = read_nat (take 2 (drop 8 s)), hour = read_nat (take 2 (drop 11 s)),
               minute = read_nat (take 2 (drop 14 s)), second = read_nat (take 2 (drop 17 s)),
               microsecond = (if length s = 25 then 0 else read_nat (take 6 (drop 20 s)))\<rparr>
      in if isoformat t = s \<and> valid_datetime t then Inr t
         else Inl (ValueError ''Invalid isoformat string''))"

lemma length_fixed [simp]: "length (fixed w n) = w"
  by (induction w arbitrary: n) simp_all

lemma read_nat_snoc: "read_nat (s @ [c]) = 10 * read_nat s + (code c - 48)"
  by (simp add: read_nat_def)

lemma read_fixed: "n < 10 ^ w \<Longrightarrow> read_nat (fixed w n) = n"
proof (induction w arbitrary: n)
  case 0
  then show ?case by (simp add: read_nat_def)
next
  case (Suc w)
  from Suc.prems have "n div 10 < 10 ^ w" by (simp add: less_mult_imp_div_less mult.commute)
  with Suc.IH show ?case by (simp add: read_nat_snoc code_digit_char)
qed

lemma fixed_inj: "m < 10 ^ w \<Longrightarrow> n < 10 ^ w \<Longrightarrow> fixed w m = fixed w n \<longleftrightarrow> m = n"
  by (metis read_fixed)

text \<open>Blocks of equal length compare one after the other.\<close>

lemma append_less_iff:
  fixes xs ys us vs :: "'a::linorder list"
  assumes "length xs = length ys"
  shows "xs @ us < ys @ vs \<longleftrightarrow> xs < ys \<or> (xs = ys \<and> us < vs)"
  using assms by (induction xs ys rule: list_induct2) auto

lemma append_le_iff:
  fixes xs ys us vs :: "'a::linorder list"
  assumes "length xs = length ys"
  shows "xs @ us \<le> ys @ vs \<longleftrightarrow> xs < ys \<or> (xs = ys \<and> us \<le> vs)"
  using assms by (induction xs ys rule: list_induct2) auto

lemma digit_char_less: "m < 10 \<Longrightarrow> n < 10 \<Longrightarrow> digit_char m < digit_char n \<longleftrightarrow> m < n"
  using code_digit_char[of m] code_digit_char[of n]
  by (simp add: less_char_def code_def)

lemma div_mod_10_less:
  fixes m n :: nat
  shows "m < n \<longleftrightarrow> m div 10 < n div 10 \<or> (m div 10 = n div 10 \<and> m mod 10 < n mod 10)"
  using div_mult_mod_eq[of m 10] div_mult_mod_eq[of n 10] mod_less_divisor[of 10 m]
    mod_less_divisor[of 10 n] by linarith

lemma fixed_less_iff: "m < 10 ^ w \<Longrightarrow> n < 10 ^ w \<Longrightarrow> fixed w m < fixed w n \<longleftrightarrow> m < n"
proof (induction w arbitrary: m n)
  case 0
  then show ?case by simp
next
  case (Suc w)
  from Suc.prems have b: "m div 10 < 10 ^ w" "n div 10 < 10 ^ w"
    by (simp_all add: less_mult_imp_div_less mult.commute)
  have last: "[digit_char (m mod 10)] < [digit_char (n mod 10)] \<longleftrightarrow> m mod 10 < n mod 10"
    by (simp add: digit_char_less)
  have "fixed (Suc w) m < fixed (Suc w) n \<longleftrightarrow>
      fixed w (m div 10) < fixed w (n div 10) \<or>
      (fixed w (m div 10) = fixed w (n div 10) \<and> m mod 10 < n mod 10)"
    by (simp only: fixed.simps last append_less_iff length_fixed)
  then show ?case by (simp only: Suc.IH[OF b] fixed_inj[OF b] div_mod_10_less[of m n])
qed

section \<open>The order of the strings is the order of time\<close>

text \<open>Fields from the most significant; lists of naturals compare lexicographically.\<close>

definition stamp :: "datetime \<Rightarrow> nat list" where
  "stamp t = [year t, month t, day t, hour t, minute t, second t, microsecond t]"

lemma stamp_inj: "stamp a = stamp b \<Longrightarrow> a = b"
  by (simp add: stamp_def)

lemma plus_before_dot: "CHR ''+'' < CHR ''.''"
  by (simp add: less_char_def)

text \<open>A missing fraction sorts before every fraction because the plus sign sorts before the dot.\<close>

lemma iso_fraction_less_iff:
  assumes "u < 1000000" and "v < 1000000"
  shows "iso_fraction u @ ''+00:00'' < iso_fraction v @ ''+00:00'' \<longleftrightarrow> u < v"
proof -
  have lim: "(1000000::nat) = 10 ^ 6" by simp
  note less = fixed_less_iff[of _ 6, folded lim] and inj = fixed_inj[of _ 6, folded lim]
  show ?thesis
  proof (cases "u = 0 \<or> v = 0")
    case True
    then show ?thesis using plus_before_dot by (auto simp: iso_fraction_def)
  next
    case False
    then show ?thesis using assms
      by (simp add: iso_fraction_def append_less_iff less inj del: fixed.simps)
  qed
qed

lemma valid_datetime_limits:
  assumes "valid_datetime t"
  shows "year t < 10 ^ 4" "month t < 10 ^ 2" "day t < 10 ^ 2" "hour t < 10 ^ 2"
    "minute t < 10 ^ 2" "second t < 10 ^ 2" "microsecond t < 1000000"
  using assms
  by (auto simp: valid_datetime_def valid_date_def date_of_def days_in_month_def split: if_splits)

lemma isoformat_less_iff:
  assumes a: "valid_datetime a" and b: "valid_datetime b"
  shows "isoformat a < isoformat b \<longleftrightarrow> stamp a < stamp b"
proof -
  note la = valid_datetime_limits[OF a] and lb = valid_datetime_limits[OF b]
  note less = fixed_less_iff[OF la(1) lb(1)] fixed_less_iff[OF la(2) lb(2)]
    fixed_less_iff[OF la(3) lb(3)] fixed_less_iff[OF la(4) lb(4)] fixed_less_iff[OF la(5) lb(5)]
    fixed_less_iff[OF la(6) lb(6)] iso_fraction_less_iff[OF la(7) lb(7)]
  note inj = fixed_inj[OF la(1) lb(1)] fixed_inj[OF la(2) lb(2)] fixed_inj[OF la(3) lb(3)]
    fixed_inj[OF la(4) lb(4)] fixed_inj[OF la(5) lb(5)] fixed_inj[OF la(6) lb(6)]
  show ?thesis
    by (simp add: isoformat_def append_less_iff less inj stamp_def del: fixed.simps)
qed

lemma isoformat_inj:
  assumes "valid_datetime a" and "valid_datetime b" and "isoformat a = isoformat b"
  shows "a = b"
proof -
  have "\<not> stamp a < stamp b" "\<not> stamp b < stamp a"
    using assms isoformat_less_iff by fastforce+
  then have "stamp a = stamp b" by (meson antisym_conv3)
  then show ?thesis by (rule stamp_inj)
qed

lemma isoformat_le_iff:
  assumes "valid_datetime a" and "valid_datetime b"
  shows "isoformat a \<le> isoformat b \<longleftrightarrow> stamp a \<le> stamp b"
  using isoformat_less_iff[OF assms(2) assms(1)] by (simp add: linorder_not_less[symmetric])

lemma fromisoformat_isoformat:
  assumes v: "valid_datetime t"
  shows "fromisoformat (isoformat t) = Inr t"
proof -
  note l = valid_datetime_limits[OF v]
  have six: "(1000000::nat) = 10 ^ 6" by simp
  note r = read_fixed[OF l(1)] read_fixed[OF l(2)] read_fixed[OF l(3)] read_fixed[OF l(4)]
    read_fixed[OF l(5)] read_fixed[OF l(6)] read_fixed[OF l(7)[unfolded six]]
  show ?thesis
    using v
    by (simp add: fromisoformat_def Let_def r)
       (simp add: isoformat_def iso_fraction_def r valid_datetime_def date_of_def del: fixed.simps)
qed

section \<open>Adding seconds\<close>

text \<open>Days and microseconds since the origin, as \<open>toordinal\<close> and \<open>timedelta\<close> count them.\<close>

definition days_before_year :: "nat \<Rightarrow> nat" where
  "days_before_year y = (y - 1) * 365 + (y - 1) div 4 - (y - 1) div 100 + (y - 1) div 400"

fun days_before_month :: "nat \<Rightarrow> nat \<Rightarrow> nat" where
  "days_before_month y 0 = 0"
| "days_before_month y (Suc m) = (if m = 0 then 0 else days_before_month y m + days_in_month y m)"

definition toordinal :: "nat \<times> nat \<times> nat \<Rightarrow> nat" where
  "toordinal = (\<lambda>(y, m, d). days_before_year y + days_before_month y m + d)"

definition next_day :: "nat \<times> nat \<times> nat \<Rightarrow> nat \<times> nat \<times> nat" where
  "next_day = (\<lambda>(y, m, d).
     if d < days_in_month y m then (y, m, Suc d)
     else if m < 12 then (y, Suc m, 1) else (Suc y, 1, 1))"

definition second_of_day :: "datetime \<Rightarrow> nat" where
  "second_of_day t = hour t * 3600 + minute t * 60 + second t"

definition micros :: "datetime \<Rightarrow> nat" where
  "micros t = (toordinal (date_of t) * 86400 + second_of_day t) * 1000000 + microsecond t"

text \<open>\<open>t + timedelta(seconds=n)\<close>.\<close>

definition add_seconds :: "datetime \<Rightarrow> nat \<Rightarrow> exn + datetime" where
  "add_seconds t n =
     (let s = second_of_day t + n;
          (y, m, d) = (next_day ^^ (s div 86400)) (date_of t);
          r = s mod 86400
      in if y > 9999 then Inl OverflowError
         else Inr \<lparr>year = y, month = m, day = d, hour = r div 3600,
                   minute = r mod 3600 div 60, second = r mod 60, microsecond = microsecond t\<rparr>)"

lemma days_in_month_pos [simp]: "Suc 0 \<le> days_in_month y m"
  by (simp add: days_in_month_def)

lemma next_day_valid: "valid_date t \<Longrightarrow> valid_date (next_day t)"
  by (cases t) (auto simp: valid_date_def next_day_def)

lemma days_before_year_Suc:
  assumes "1 \<le> y"
  shows "days_before_year (Suc y) = days_before_year y + 365 + (if is_leap y then 1 else 0)"
proof -
  obtain n where y: "y = Suc n" using assms by (cases y) auto
  define a b c where abc: "a = n div 4" "b = n div 100" "c = n div 400"
  have step: "y div k = n div k + (if y mod k = 0 then 1 else 0)" for k
    by (simp add: y div_Suc)
  have le: "b \<le> a" unfolding abc by (rule div_le_mono2) simp_all
  have hundred: "y mod 100 = 0 \<Longrightarrow> y mod 4 = 0" "y mod 400 = 0 \<Longrightarrow> y mod 100 = 0"
    using dvd_trans[of 4 100 y] dvd_trans[of 100 400 y] by (simp_all add: mod_eq_0_iff_dvd)
  have before: "days_before_year y = n * 365 + a - b + c"
    by (simp add: days_before_year_def y abc)
  have after: "days_before_year (Suc y) =
      y * 365 + (a + (if y mod 4 = 0 then 1 else 0)) - (b + (if y mod 100 = 0 then 1 else 0)) +
      (c + (if y mod 400 = 0 then 1 else 0))"
    by (simp only: days_before_year_def diff_Suc_1 step abc)
  consider "y mod 400 = 0" "y mod 100 = 0" "y mod 4 = 0"
    | "y mod 400 \<noteq> 0" "y mod 100 = 0" "y mod 4 = 0"
    | "y mod 400 \<noteq> 0" "y mod 100 \<noteq> 0" "y mod 4 = 0"
    | "y mod 400 \<noteq> 0" "y mod 100 \<noteq> 0" "y mod 4 \<noteq> 0"
    using hundred by argo
  moreover have "y * 365 = n * 365 + 365" by (simp add: y)
  ultimately show ?thesis
    by cases (use le in \<open>simp_all add: after before is_leap_def\<close>)
qed

lemma days_before_month_12:
  "days_before_month y 12 + days_in_month y 12 = 365 + (if is_leap y then 1 else 0)"
  by (simp add: numeral_eq_Suc) (simp add: days_in_month_def)

lemma toordinal_next_day: "valid_date t \<Longrightarrow> toordinal (next_day t) = Suc (toordinal t)"
proof -
  assume v: "valid_date t"
  obtain y m d where t: "t = (y, m, d)" by (cases t) auto
  show ?thesis
  proof (cases "d < days_in_month y m")
    case True
    then show ?thesis by (simp add: t next_day_def toordinal_def)
  next
    case False
    with v have d: "d = days_in_month y m" by (simp add: t valid_date_def)
    show ?thesis
    proof (cases "m < 12")
      case True
      with v show ?thesis by (simp add: t next_day_def toordinal_def d valid_date_def)
    next
      case False
      with v have "m = 12" and "1 \<le> y" by (simp_all add: t valid_date_def)
      then show ?thesis
        using days_before_month_12[of y] days_before_year_Suc[of y]
        by (simp add: t next_day_def toordinal_def d)
    qed
  qed
qed

lemma next_day_iter:
  "valid_date t \<Longrightarrow>
   valid_date ((next_day ^^ n) t) \<and> toordinal ((next_day ^^ n) t) = toordinal t + n"
  by (induction n) (auto simp: next_day_valid toordinal_next_day)

lemma second_of_day_split:
  assumes "r < 86400"
  shows "r div 3600 < 24 \<and> r mod 3600 div 60 < 60 \<and> r mod 60 < 60 \<and>
     r div 3600 * 3600 + r mod 3600 div 60 * 60 + r mod 60 = (r::nat)"
proof -
  have "r mod 3600 mod 60 = r mod 60" by (rule mod_mod_cancel) simp
  with div_mult_mod_eq[of "r mod 3600" 60]
  have "r mod 3600 = r mod 3600 div 60 * 60 + r mod 60" by simp
  moreover have "r mod 3600 div 60 < 60" by (rule less_mult_imp_div_less) simp
  moreover have "r div 3600 < 24" using assms by (intro less_mult_imp_div_less) simp
  moreover have "r mod 60 < 60" by simp
  ultimately show ?thesis using div_mult_mod_eq[of r 3600] by linarith
qed

lemma add_seconds_valid_micros:
  assumes v: "valid_datetime t" and ok: "add_seconds t n = Inr u"
  shows "valid_datetime u \<and> micros u = micros t + n * 1000000"
proof -
  let ?s = "second_of_day t + n"
  obtain y m d where ymd: "(next_day ^^ (?s div 86400)) (date_of t) = (y, m, d)"
    by (cases "(next_day ^^ (?s div 86400)) (date_of t)") auto
  have it: "valid_date (y, m, d)" "toordinal (y, m, d) = toordinal (date_of t) + ?s div 86400"
    using v next_day_iter[of "date_of t" "?s div 86400"] by (simp_all add: ymd valid_datetime_def)
  note r = second_of_day_split[of "?s mod 86400", simplified]
  have y: "y \<le> 9999" and u: "u = \<lparr>year = y, month = m, day = d, hour = ?s mod 86400 div 3600,
      minute = ?s mod 86400 mod 3600 div 60, second = ?s mod 86400 mod 60,
      microsecond = microsecond t\<rparr>"
    using ok by (auto simp: add_seconds_def Let_def ymd split: if_splits)
  have us: "microsecond t < 1000000" using v by (simp add: valid_datetime_def)
  have "second_of_day u = ?s mod 86400"
    using r by (simp add: u second_of_day_def)
  moreover have "(toordinal (date_of t) + ?s div 86400) * 86400 + ?s mod 86400 =
      toordinal (date_of t) * 86400 + ?s"
    using div_mult_mod_eq[of ?s 86400] by (simp only: add_mult_distrib)
  ultimately have "micros u = micros t + n * 1000000"
    by (simp only: micros_def) (simp add: u date_of_def it(2)[unfolded u] micros_def)
  moreover have "valid_datetime u"
    using it(1) y us r by (simp add: u valid_datetime_def date_of_def)
  ultimately show ?thesis by blast
qed

section \<open>The order of stamps is the order of time\<close>

lemma lex_mult:
  fixes a b c d k :: nat
  assumes "c < k" and "d < k"
  shows "a * k + c < b * k + d \<longleftrightarrow> a < b \<or> (a = b \<and> c < d)"
proof (cases "a < b")
  case True
  then have "a * k + k \<le> b * k" by (metis Suc_leI mult_Suc mult_le_mono1 add.commute)
  with True assms show ?thesis by linarith
next
  case False
  then have "a = b \<or> b * k + k \<le> a * k"
    by (metis Suc_leI mult_Suc mult_le_mono1 add.commute nat_neq_iff)
  with False assms show ?thesis by auto
qed

lemma lex_mult_eq:
  fixes a b c d k :: nat
  assumes "c < k" and "d < k"
  shows "a * k + c = b * k + d \<longleftrightarrow> a = b \<and> c = d"
  using lex_mult[OF assms, of a b] lex_mult[OF assms(2,1), of b a] by (metis nat_neq_iff)

lemma days_before_month_mono: "1 \<le> m \<Longrightarrow> m \<le> n \<Longrightarrow> days_before_month y m \<le> days_before_month y n"
proof (induction n)
  case (Suc n)
  then show ?case by (cases "m = Suc n") auto
qed simp

lemma days_before_month_less:
  assumes "1 \<le> m" and "m < n"
  shows "days_before_month y m + days_in_month y m \<le> days_before_month y n"
  using days_before_month_mono[of "Suc m" n y] assms by simp

lemma days_before_year_mono: "1 \<le> y \<Longrightarrow> y \<le> z \<Longrightarrow> days_before_year y \<le> days_before_year z"
proof (induction z)
  case (Suc z)
  then show ?case using days_before_year_Suc[of z] by (cases "y = Suc z") auto
qed simp

lemma toordinal_bounds:
  assumes "valid_date (y, m, d)"
  shows "days_before_year y < toordinal (y, m, d) \<and> toordinal (y, m, d) \<le> days_before_year (Suc y)"
proof -
  have v: "1 \<le> y" "1 \<le> m" "m \<le> 12" "1 \<le> d" "d \<le> days_in_month y m"
    using assms by (simp_all add: valid_date_def)
  have "days_before_month y m + d \<le> days_before_month y 12 + days_in_month y 12"
  proof (cases "m = 12")
    case False
    then show ?thesis using days_before_month_less[of m 12 y] v by linarith
  qed (use v in simp)
  then show ?thesis
    using v days_before_month_12[of y] days_before_year_Suc[OF v(1)] by (simp add: toordinal_def)
qed

lemma toordinal_less_iff:
  assumes a: "valid_date (y, m, d)" and b: "valid_date (y', m', d')"
  shows "toordinal (y, m, d) < toordinal (y', m', d') \<longleftrightarrow> [y, m, d] < [y', m', d']"
proof -
  have less: "toordinal (u, v, w) < toordinal (u', v', w')"
    if "valid_date (u, v, w)" "valid_date (u', v', w')" "[u, v, w] < [u', v', w']" for u v w u' v' w'
  proof (cases "u < u'")
    case True
    then have "days_before_year (Suc u) \<le> days_before_year u'" by (intro days_before_year_mono) simp_all
    with toordinal_bounds[OF that(1)] toordinal_bounds[OF that(2)] show ?thesis by linarith
  next
    case False
    with that(3) have u: "u = u'" and vw: "v < v' \<or> (v = v' \<and> w < w')" by auto
    have "days_before_month u v + w < days_before_month u v' + w'"
    proof (cases "v < v'")
      case True
      with that(1,2) days_before_month_less[of v v' u] show ?thesis
        by (simp add: valid_date_def)
    qed (use vw in auto)
    then show ?thesis by (simp add: u toordinal_def)
  qed
  show ?thesis
  proof (cases "[y, m, d] < [y', m', d']")
    case True
    then show ?thesis using less[OF a b] by simp
  next
    case False
    then have "[y', m', d'] < [y, m, d] \<or> (y, m, d) = (y', m', d')"
      by (metis list.inject linorder_neq_iff)
    with False less[OF b a] show ?thesis by auto
  qed
qed

lemma micros_less_iff:
  assumes a: "valid_datetime a" and b: "valid_datetime b"
  shows "micros a < micros b \<longleftrightarrow> stamp a < stamp b"
proof -
  have v: "valid_date (year a, month a, day a)" "valid_date (year b, month b, day b)"
    using a b by (simp_all add: valid_datetime_def date_of_def)
  have l: "hour a < 24" "minute a < 60" "second a < 60" "microsecond a < 1000000"
    "hour b < 24" "minute b < 60" "second b < 60" "microsecond b < 1000000"
    using a b by (simp_all add: valid_datetime_def)
  have sod: "second_of_day t = (hour t * 60 + minute t) * 60 + second t" for t
    by (simp add: second_of_day_def)
  have small: "second_of_day a < 86400" "second_of_day b < 86400"
    using l by (simp_all add: second_of_day_def)
  have s: "second_of_day a < second_of_day b \<longleftrightarrow> [hour a, minute a, second a] < [hour b, minute b, second b]"
    unfolding sod lex_mult[OF l(3,7)] lex_mult[OF l(2,6)] lex_mult_eq[OF l(2,6)] by auto
  have se: "second_of_day a = second_of_day b \<longleftrightarrow> [hour a, minute a, second a] = [hour b, minute b, second b]"
    unfolding sod lex_mult_eq[OF l(3,7)] lex_mult_eq[OF l(2,6)] by auto
  have t: "toordinal (date_of a) < toordinal (date_of b) \<longleftrightarrow> [year a, month a, day a] < [year b, month b, day b]"
    using toordinal_less_iff[OF v] by (simp add: date_of_def)
  have te: "toordinal (date_of a) = toordinal (date_of b) \<longleftrightarrow> [year a, month a, day a] = [year b, month b, day b]"
    using toordinal_less_iff[OF v] toordinal_less_iff[OF v(2,1)]
    by (metis date_of_def linorder_neq_iff list.inject)
  show ?thesis
    unfolding micros_def lex_mult[OF l(4,8)] lex_mult[OF small] lex_mult_eq[OF small] s t se te
    by (auto simp: stamp_def)
qed

section \<open>Deadlines\<close>

text \<open>A time to live of \<open>ttl\<close> seconds has run out: so many microseconds lie between the two instants.\<close>

definition ttl_elapsed :: "datetime \<Rightarrow> nat \<Rightarrow> datetime \<Rightarrow> bool" where
  "ttl_elapsed created ttl now \<longleftrightarrow> micros created + ttl * 1000000 \<le> micros now"

text \<open>A deadline computed as creation time plus the time to live has passed, as its text compares with
  the text of the current time, exactly when the time to live has run out.\<close>

lemma expiry_text_is_time:
  assumes "valid_datetime created" and "valid_datetime now" and "add_seconds created ttl = Inr expires"
  shows "isoformat expires \<le> isoformat now \<longleftrightarrow> ttl_elapsed created ttl now"
proof -
  have u: "valid_datetime expires" "micros expires = micros created + ttl * 1000000"
    using add_seconds_valid_micros[OF assms(1,3)] by simp_all
  have "isoformat expires \<le> isoformat now \<longleftrightarrow> \<not> micros now < micros expires"
    using isoformat_less_iff[OF assms(2) u(1)] micros_less_iff[OF assms(2) u(1)]
    by (simp add: linorder_not_less[symmetric])
  then show ?thesis by (simp add: u(2) not_less ttl_elapsed_def)
qed

definition sample_time :: "nat \<Rightarrow> nat \<Rightarrow> datetime" where
  "sample_time s us = \<lparr>year = 2024, month = 2, day = 28, hour = 23, minute = 59, second = s, microsecond = us\<rparr>"

lemma sample_time_valid: "s < 60 \<Longrightarrow> us < 1000000 \<Longrightarrow> valid_datetime (sample_time s us)"
  by (simp add: valid_datetime_def valid_date_def date_of_def days_in_month_def is_leap_def sample_time_def)

end
