(* ===== verification/Json.thy ===== *)
theory Json
  imports Prelude Complex_Main
begin

text \<open>
  JSON as the program uses it: metadata, stored documents and the canonical text
  \<open>json.dumps(value, sort_keys=True, separators=(",", ":"))\<close> that every digest is taken of
  (\<open>_json\<close> in \<open>storage.py\<close>, \<open>action_hash\<close>, \<open>_canonical_event\<close>, \<open>proposal_digest\<close>). Floats
  are rationals; \<open>float.__repr__\<close> is a parameter of the printer, constrained by
  \<open>float_repr_ok\<close> to what Python documents. The printer is injective on documents
  (\<open>dumps_inj\<close>), so a digest is taken of a text that determines the document.
\<close>

datatype json =
    JNull | JBool bool | JInt int | JFloat rat | JStr string
  | JList "json list" | JObj "(string \<times> json) list"

definition json_get :: "string \<Rightarrow> (string \<times> json) list \<Rightarrow> json option" where
  "json_get k fields = map_of fields k"

definition json_str :: "string option \<Rightarrow> json" where
  "json_str s = (case s of None \<Rightarrow> JNull | Some x \<Rightarrow> JStr x)"

definition json_strs :: "string list \<Rightarrow> json" where "json_strs ss = JList (map JStr ss)"

section \<open>Printing\<close>

definition hex_char :: "nat \<Rightarrow> char" where
  "hex_char d = (if d < 10 then char_of (48 + d) else char_of (87 + d))"

text \<open>One character inside a JSON string, with \<open>ensure_ascii\<close> left on.\<close>

definition esc :: "char \<Rightarrow> string" where
  "esc c =
     (let n = code c in
      if n = 34 then [CHR 0x5C, CHR 0x22]
      else if n = 92 then [CHR 0x5C, CHR 0x5C]
      else if n = 10 then [CHR 0x5C, CHR ''n'']
      else if n = 13 then [CHR 0x5C, CHR ''r'']
      else if n = 9 then [CHR 0x5C, CHR ''t'']
      else if n = 8 then [CHR 0x5C, CHR ''b'']
      else if n = 12 then [CHR 0x5C, CHR ''f'']
      else if 32 \<le> n \<and> n \<le> 126 then [c]
      else [CHR 0x5C, CHR ''u'', CHR ''0'', CHR ''0'', hex_char (n div 16), hex_char (n mod 16)])"

definition quote :: "string \<Rightarrow> string" where
  "quote s = CHR 0x22 # concat (map esc s) @ [CHR 0x22]"

fun commas :: "string list \<Rightarrow> string" where
  "commas [] = []"
| "commas [x] = x"
| "commas (x # y # ys) = x @ CHR '','' # commas (y # ys)"

primrec dumps :: "(rat \<Rightarrow> string) \<Rightarrow> json \<Rightarrow> string" where
  "dumps fr JNull = ''null''"
| "dumps fr (JBool b) = (if b then ''true'' else ''false'')"
| "dumps fr (JInt i) = show_int i"
| "dumps fr (JFloat x) = fr x"
| "dumps fr (JStr s) = quote s"
| "dumps fr (JList js) = CHR ''['' # commas (map (dumps fr) js) @ '']''"
| "dumps fr (JObj kvs) =
     CHR ''{'' # commas (map (\<lambda>(k, s). quote k @ CHR '':'' # s) (map (map_prod id (dumps fr)) kvs)) @ ''}''"

text \<open>\<open>sort_keys=True\<close>: members in the order of their keys, at every level.\<close>

primrec canon :: "json \<Rightarrow> json" where
  "canon JNull = JNull"
| "canon (JBool b) = JBool b"
| "canon (JInt i) = JInt i"
| "canon (JFloat x) = JFloat x"
| "canon (JStr s) = JStr s"
| "canon (JList js) = JList (map canon js)"
| "canon (JObj kvs) = JObj (sort_key fst (map (map_prod id canon) kvs))"

definition json_text :: "(rat \<Rightarrow> string) \<Rightarrow> json \<Rightarrow> string" where
  "json_text fr j = dumps fr (canon j)"

section \<open>The printer is injective\<close>

definition num_char :: "char \<Rightarrow> bool" where
  "num_char c \<longleftrightarrow> is_digit c \<or> c \<in> {CHR ''-'', CHR ''+'', CHR ''.'', CHR ''e''}"

text \<open>What Python documents of \<open>float.__repr__\<close> on finite floats.\<close>

definition float_repr_ok :: "(rat \<Rightarrow> string) \<Rightarrow> bool" where
  "float_repr_ok fr \<longleftrightarrow> inj fr \<and>
     (\<forall>x. (\<forall>c \<in> set (fr x). num_char c) \<and> (\<exists>c \<in> set (fr x). c = CHR ''.'' \<or> c = CHR ''e''))"

definition ends :: "string \<Rightarrow> bool" where
  "ends s \<longleftrightarrow> (case s of [] \<Rightarrow> True | c # _ \<Rightarrow> \<not> num_char c)"

text \<open>A printed item determines itself and what follows it.\<close>

definition decodable :: "('a \<Rightarrow> string) \<Rightarrow> 'a \<Rightarrow> bool" where
  "decodable enc x \<longleftrightarrow>
     (\<forall>y s t. ends s \<longrightarrow> ends t \<longrightarrow> enc x @ s = enc y @ t \<longrightarrow> x = y \<and> s = t)"

definition read_esc :: "string \<Rightarrow> char \<times> string" where
  "read_esc s =
     (case s of
        c # r \<Rightarrow>
          (if c \<noteq> CHR 0x5C then (c, r)
           else (case r of
             d # r' \<Rightarrow>
               (if d = CHR ''u''
                then (char_of ((let h = code (r' ! 2) in if h < 58 then h - 48 else h - 87) * 16 +
                               (let h = code (r' ! 3) in if h < 58 then h - 48 else h - 87)),
                      drop 4 r')
                else if d = CHR ''n'' then (CHR 0x0A, r')
                else if d = CHR ''r'' then (CHR 0x0D, r')
                else if d = CHR ''t'' then (CHR 0x09, r')
                else if d = CHR ''b'' then (CHR 0x08, r')
                else if d = CHR ''f'' then (CHR 0x0C, r')
                else (d, r'))
           | [] \<Rightarrow> (c, [])))
      | [] \<Rightarrow> (CHR 0x00, []))"

lemma code_less: "code c < 256"
  by (simp add: code_def)

lemma char_of_code [simp]: "char_of (code c) = c"
  by (simp add: code_def)

lemma code_char_of: "n < 256 \<Longrightarrow> code (char_of n) = n"
  unfolding code_def of_char_of by (rule mod_less)

lemma hex_char_value:
  assumes "d < 16"
  shows "(let h = code (hex_char d) in if h < 58 then h - 48 else h - 87) = d"
proof (cases "d < 10")
  case True
  then have "code (hex_char d) = 48 + d" by (simp only: hex_char_def if_True) (rule code_char_of, linarith)
  with True show ?thesis by simp
next
  case False
  with assms have "code (hex_char d) = 87 + d"
    by (simp only: hex_char_def if_False) (rule code_char_of, linarith)
  with False show ?thesis by simp
qed

lemma code_eqI: "code c = code d \<Longrightarrow> c = d"
  by (simp add: code_def)

lemma special_code:
  "code c = 34 \<Longrightarrow> c = CHR 0x22" "code c = 92 \<Longrightarrow> c = CHR 0x5C" "code c = 10 \<Longrightarrow> c = CHR 0x0A"
  "code c = 13 \<Longrightarrow> c = CHR 0x0D" "code c = 9 \<Longrightarrow> c = CHR 0x09" "code c = 8 \<Longrightarrow> c = CHR 0x08"
  "code c = 12 \<Longrightarrow> c = CHR 0x0C"
  by (rule code_eqI, simp add: code_def)+

lemma esc_special:
  "esc CHR 0x22 = [CHR 0x5C, CHR 0x22]" "esc CHR 0x5C = [CHR 0x5C, CHR 0x5C]"
  "esc CHR 0x0A = [CHR 0x5C, CHR ''n'']" "esc CHR 0x0D = [CHR 0x5C, CHR ''r'']"
  "esc CHR 0x09 = [CHR 0x5C, CHR ''t'']" "esc CHR 0x08 = [CHR 0x5C, CHR ''b'']"
  "esc CHR 0x0C = [CHR 0x5C, CHR ''f'']"
  by (simp_all add: esc_def code_def)

lemma read_esc_special:
  "read_esc (CHR 0x5C # CHR 0x22 # r) = (CHR 0x22, r)"
  "read_esc (CHR 0x5C # CHR 0x5C # r) = (CHR 0x5C, r)"
  "read_esc (CHR 0x5C # CHR ''n'' # r) = (CHR 0x0A, r)"
  "read_esc (CHR 0x5C # CHR ''r'' # r) = (CHR 0x0D, r)"
  "read_esc (CHR 0x5C # CHR ''t'' # r) = (CHR 0x09, r)"
  "read_esc (CHR 0x5C # CHR ''b'' # r) = (CHR 0x08, r)"
  "read_esc (CHR 0x5C # CHR ''f'' # r) = (CHR 0x0C, r)"
  by (simp_all add: read_esc_def)

lemma read_esc_esc: "read_esc (esc c @ r) = (c, r)"
proof -
  let ?n = "code c"
  consider "?n \<in> {34, 92, 10, 13, 9, 8, 12}"
    | "?n \<notin> {34, 92, 10, 13, 9, 8, 12}" "32 \<le> ?n \<and> ?n \<le> 126"
    | "?n \<notin> {34, 92, 10, 13, 9, 8, 12}" "\<not> (32 \<le> ?n \<and> ?n \<le> 126)"
    by blast
  then show ?thesis
  proof cases
    case 1
    then have "?n = 34 \<or> ?n = 92 \<or> ?n = 10 \<or> ?n = 13 \<or> ?n = 9 \<or> ?n = 8 \<or> ?n = 12" by simp
    then show ?thesis
      by (elim disjE) (drule special_code, simp only: esc_special read_esc_special append.simps)+
  next
    case 2
    moreover have "c \<noteq> CHR 0x5C" using 2 by (auto simp: code_def)
    ultimately show ?thesis by (simp add: esc_def read_esc_def Let_def)
  next
    case 3
    have "?n div 16 < 16" "?n mod 16 < 16" using code_less[of c] by (auto simp: less_mult_imp_div_less)
    note h = hex_char_value[OF this(1)] hex_char_value[OF this(2)]
    have "esc c = [CHR 0x5C, CHR ''u'', CHR ''0'', CHR ''0'', hex_char (?n div 16), hex_char (?n mod 16)]"
      using 3 by (simp add: esc_def Let_def)
    then show ?thesis
      by (simp add: read_esc_def h numeral_eq_Suc[of "num.One"] nth_Cons' del: Let_def)
  qed
qed

lemma esc_not_quote: "esc c @ r \<noteq> CHR 0x22 # t"
proof
  assume *: "esc c @ r = CHR 0x22 # t"
  have "hd (esc c) = CHR 0x5C \<or> (esc c = [c] \<and> code c \<noteq> 34)"
    by (simp add: esc_def Let_def)
  moreover have "esc c \<noteq> []" by (simp add: esc_def Let_def)
  ultimately show False using * by (cases "esc c") (auto simp: code_def)
qed

lemma quoted_inj:
  "concat (map esc s) @ CHR 0x22 # r = concat (map esc t) @ CHR 0x22 # u \<Longrightarrow> s = t \<and> r = u"
proof (induction s arbitrary: t)
  case Nil
  then show ?case using esc_not_quote by (cases t) (auto simp: append_assoc dest: sym)
next
  case (Cons c s)
  show ?case
  proof (cases t)
    case Nil
    with Cons.prems show ?thesis using esc_not_quote by auto
  next
    case (Cons d t')
    with Cons.prems have
      "read_esc (esc c @ concat (map esc s) @ CHR 0x22 # r) =
       read_esc (esc d @ concat (map esc t') @ CHR 0x22 # u)"
      by simp
    then have "c = d" and "concat (map esc s) @ CHR 0x22 # r = concat (map esc t') @ CHR 0x22 # u"
      by (simp_all only: read_esc_esc prod.inject)
    with Cons Cons.IH show ?thesis by blast
  qed
qed

lemma quote_inj: "quote s @ r = quote t @ u \<Longrightarrow> s = t \<and> r = u"
  unfolding quote_def using quoted_inj[of s r t u] by simp

lemma num_prefix_inj:
  assumes "\<forall>c \<in> set w. num_char c" and "\<forall>c \<in> set v. num_char c" and "ends s" and "ends t"
    and "w @ s = v @ t"
  shows "w = v \<and> s = t"
proof -
  have "takeWhile num_char (x @ r) = x" if "\<forall>c \<in> set x. num_char c" and "ends r" for x r
    using that by (induction x) (auto simp: ends_def split: list.splits)
  with assms have "w = v" by metis
  with assms show ?thesis by simp
qed

lemma show_int_num: "c \<in> set (show_int i) \<Longrightarrow> is_digit c \<or> c = CHR ''-''"
  using show_nat_digits by (auto simp: show_int_def split: if_splits)

text \<open>Lists of decodable items, closed by a bracket.\<close>

lemma commas_Cons: "xs \<noteq> [] \<Longrightarrow> commas (x # xs) = x @ CHR '','' # commas xs"
  by (cases xs) simp_all

definition item_list :: "('a \<Rightarrow> string) \<Rightarrow> 'a list \<Rightarrow> string \<Rightarrow> string" where
  "item_list enc xs r = commas (map enc xs) @ r"

lemma items_inj:
  assumes "\<forall>x \<in> set xs. decodable enc x"
    and head: "\<And>x. enc x \<noteq> [] \<and> hd (enc x) \<noteq> cl" and cl: "\<not> num_char cl" "cl \<noteq> CHR '',''"
    and "item_list enc xs (cl # r) = item_list enc ys (cl # t)"
  shows "xs = ys \<and> r = t"
  using assms(1,5)
proof (induction xs arbitrary: ys)
  case Nil
  have "ys = []"
  proof (rule ccontr)
    assume "ys \<noteq> []"
    then obtain y zs where "ys = y # zs" by (cases ys) auto
    with Nil head[of y] show False by (cases zs; cases "enc y") (auto simp: item_list_def)
  qed
  with Nil show ?case by (simp add: item_list_def)
next
  case (Cons x xs)
  have tail: "commas (map enc (z # zs)) @ cl # s = enc z @ (if zs = [] then cl # s else CHR '','' # item_list enc zs (cl # s))"
    for z zs s by (cases zs) (simp_all add: item_list_def)
  obtain y ys' where ys: "ys = y # ys'"
  proof (cases ys)
    case Nil
    with Cons.prems(2) tail[of x xs r] head[of x] show ?thesis
      by (cases "enc x") (auto simp: item_list_def)
  qed
  let ?s = "if xs = [] then cl # r else CHR '','' # item_list enc xs (cl # r)"
  let ?t = "if ys' = [] then cl # t else CHR '','' # item_list enc ys' (cl # t)"
  have "num_char (CHR '','') = False" by (simp add: num_char_def is_digit_def char_in_def code_def)
  with cl have "ends ?s" "ends ?t" by (simp_all add: ends_def)
  moreover have "enc x @ ?s = enc y @ ?t"
    using Cons.prems(2) by (simp only: item_list_def ys tail)
  moreover have "decodable enc x" using Cons.prems(1) by simp
  ultimately have xy: "x = y" "?s = ?t" unfolding decodable_def by blast+
  show ?case
  proof (cases "xs = [] \<or> ys' = []")
    case True
    with xy cl show ?thesis by (auto simp: ys split: if_splits)
  next
    case False
    with xy(2) have "item_list enc xs (cl # r) = item_list enc ys' (cl # t)" by simp
    with Cons.IH[of ys'] Cons.prems(1) xy(1) show ?thesis by (simp add: ys)
  qed
qed

lemma num_facts:
  "num_char (CHR ''-'')" "is_digit c \<Longrightarrow> num_char c" "\<not> num_char (CHR '','')" "\<not> num_char (CHR '']'')"
  "\<not> num_char (CHR ''}'')" "\<not> num_char (CHR '':'')" "\<not> num_char CHR 0x22" "\<not> num_char (CHR ''n'')"
  "\<not> num_char (CHR ''t'')" "\<not> num_char (CHR ''f'')" "\<not> num_char (CHR ''['')" "\<not> num_char (CHR ''{'')"
  by (simp_all add: num_char_def is_digit_def char_in_def code_def)

text \<open>The first character tells the kind of a document, but for the two kinds of number.\<close>

fun kind_char :: "json \<Rightarrow> char option" where
  "kind_char JNull = Some (CHR ''n'')"
| "kind_char (JBool b) = Some (if b then CHR ''t'' else CHR ''f'')"
| "kind_char (JInt _) = None"
| "kind_char (JFloat _) = None"
| "kind_char (JStr _) = Some CHR 0x22"
| "kind_char (JList _) = Some (CHR ''['')"
| "kind_char (JObj _) = Some (CHR ''{'')"

lemma dumps_number:
  assumes "float_repr_ok fr" and "kind_char j = None"
  shows "dumps fr j \<noteq> [] \<and> (\<forall>c \<in> set (dumps fr j). num_char c)"
proof (cases j)
  case (JInt i)
  then show ?thesis using show_int_num[of _ i] num_facts(1,2) by auto
next
  case (JFloat x)
  from assms(1) have "(\<forall>c \<in> set (fr x). num_char c)" "\<exists>c \<in> set (fr x). c = CHR ''.'' \<or> c = CHR ''e''"
    by (simp_all add: float_repr_ok_def)
  with JFloat show ?thesis by (cases "fr x") simp_all
qed (use assms(2) in simp_all)

lemma dumps_head:
  assumes "float_repr_ok fr"
  shows "dumps fr j \<noteq> [] \<and>
    (case kind_char j of Some c \<Rightarrow> hd (dumps fr j) = c | None \<Rightarrow> num_char (hd (dumps fr j)))"
proof (cases "kind_char j")
  case None
  with dumps_number[OF assms None] show ?thesis by auto
next
  case (Some c)
  then show ?thesis by (cases j) (auto simp: quote_def)
qed

lemma dumps_kind:
  assumes ok: "float_repr_ok fr" and eq: "dumps fr j @ s = dumps fr k @ t"
  shows "kind_char j = kind_char k"
proof -
  have hd: "hd (dumps fr j) = hd (dumps fr k)"
    using eq dumps_head[OF ok, of j] dumps_head[OF ok, of k] by (metis hd_append2)
  have no: "\<not> num_char c" if "kind_char l = Some c" for l c
    using that num_facts by (cases l) (auto split: if_splits)
  show ?thesis
    using hd dumps_head[OF ok, of j] dumps_head[OF ok, of k] no[of j] no[of k]
    by (auto split: option.splits)
qed

lemma dumps_numbers_inj:
  assumes ok: "float_repr_ok fr" and n: "kind_char j = None" "kind_char k = None"
    and eq: "dumps fr j = dumps fr k"
  shows "j = k"
proof -
  have dot: "c \<notin> set (show_int i)" if "c = CHR ''.'' \<or> c = CHR ''e''" for c i
    using that show_int_num[of c i] by (auto simp: is_digit_def char_in_def code_def)
  have float: "show_int i \<noteq> fr x" for i x
    using ok dot unfolding float_repr_ok_def by metis
  from ok have inj: "fr x = fr y \<Longrightarrow> x = y" for x y by (auto simp: float_repr_ok_def dest: injD)
  from n eq show ?thesis
    by (cases j; cases k) (auto simp: float float[symmetric] dest: inj)
qed

lemma dumps_number_decodable:
  assumes ok: "float_repr_ok fr" and n: "kind_char j = None"
  shows "decodable (dumps fr) j"
  unfolding decodable_def
proof (intro allI impI)
  fix k s t assume e: "ends s" "ends t" and eq: "dumps fr j @ s = dumps fr k @ t"
  from dumps_kind[OF ok eq] n have nk: "kind_char k = None" by simp
  have "dumps fr j = dumps fr k \<and> s = t"
    using num_prefix_inj[OF _ _ e eq] dumps_number[OF ok n] dumps_number[OF ok nk] by blast
  with dumps_numbers_inj[OF ok n nk] show "j = k \<and> s = t" by blast
qed

definition member_text :: "(rat \<Rightarrow> string) \<Rightarrow> string \<times> json \<Rightarrow> string" where
  "member_text fr = (\<lambda>(k, v). quote k @ CHR '':'' # dumps fr v)"

lemma dumps_JObj:
  "dumps fr (JObj kvs) = CHR ''{'' # item_list (member_text fr) kvs ''}''"
proof -
  have "map (\<lambda>(k, s). quote k @ CHR '':'' # s) (map (map_prod id (dumps fr)) kvs) = map (member_text fr) kvs"
    by (induction kvs) (auto simp: member_text_def)
  then show ?thesis by (simp only: dumps.simps item_list_def)
qed

lemma dumps_JList: "dumps fr (JList js) = CHR ''['' # item_list (dumps fr) js '']''"
  by (simp add: item_list_def)

lemma item_list_append: "item_list enc xs r @ s = item_list enc xs (r @ s)"
  by (simp add: item_list_def)

lemma dumps_decodable:
  assumes ok: "float_repr_ok fr"
  shows "decodable (dumps fr) j"
proof (induction j)
  case (JList js)
  show ?case unfolding decodable_def
  proof (intro allI impI)
    fix k s t assume "ends s" "ends t" and eq: "dumps fr (JList js) @ s = dumps fr k @ t"
    from dumps_kind[OF ok eq] obtain ks where k: "k = JList ks" by (cases k) (auto split: if_splits)
    have items: "item_list (dumps fr) js (CHR '']'' # s) = item_list (dumps fr) ks (CHR '']'' # t)"
      using eq by (simp add: k dumps_JList item_list_append del: dumps.simps)
    have head: "dumps fr x \<noteq> [] \<and> hd (dumps fr x) \<noteq> CHR '']''" for x
      using dumps_head[OF ok, of x] num_facts(4) by (cases x) auto
    have "js = ks \<and> s = t"
      by (rule items_inj[OF _ head num_facts(4) _ items]) (use JList in auto)
    then show "JList js = k \<and> s = t" by (simp add: k)
  qed
next
  case (JObj kvs)
  show ?case unfolding decodable_def
  proof (intro allI impI)
    fix k s t assume "ends s" "ends t" and eq: "dumps fr (JObj kvs) @ s = dumps fr k @ t"
    from dumps_kind[OF ok eq] obtain ks where k: "k = JObj ks" by (cases k) (auto split: if_splits)
    have items: "item_list (member_text fr) kvs (CHR ''}'' # s) = item_list (member_text fr) ks (CHR ''}'' # t)"
      using eq by (simp add: k dumps_JObj item_list_append del: dumps.simps)
    have head: "member_text fr x \<noteq> [] \<and> hd (member_text fr x) \<noteq> CHR ''}''" for x
      by (cases x) (simp add: member_text_def quote_def)
    have "decodable (member_text fr) x" if x: "x \<in> set kvs" for x
      unfolding decodable_def
    proof (intro allI impI)
      fix y s t assume e: "ends s" "ends t" and eq: "member_text fr x @ s = member_text fr y @ t"
      obtain a v b w where xy: "x = (a, v)" "y = (b, w)" by (cases x; cases y)
      from eq have "quote a @ CHR '':'' # (dumps fr v @ s) = quote b @ CHR '':'' # (dumps fr w @ t)"
        by (simp add: xy member_text_def)
      from quote_inj[OF this] have ab: "a = b" and vw: "dumps fr v @ s = dumps fr w @ t" by auto
      from JObj[OF x, of v] have "decodable (dumps fr) v" by (simp add: xy)
      with e vw have "v = w \<and> s = t" unfolding decodable_def by blast
      with ab show "x = y \<and> s = t" by (simp add: xy)
    qed
    then have all: "\<forall>x \<in> set kvs. decodable (member_text fr) x" by blast
    have "kvs = ks \<and> s = t"
      by (rule items_inj[OF all head num_facts(5) _ items]) simp
    then show "JObj kvs = k \<and> s = t" by (simp add: k)
  qed
next
  case (JStr x)
  show ?case unfolding decodable_def
  proof (intro allI impI)
    fix k s t assume "ends s" "ends t" and eq: "dumps fr (JStr x) @ s = dumps fr k @ t"
    from dumps_kind[OF ok eq] obtain y where k: "k = JStr y" by (cases k) (auto split: if_splits)
    with eq quote_inj[of x s y t] show "JStr x = k \<and> s = t" by simp
  qed
next
  case (JBool b)
  show ?case unfolding decodable_def
  proof (intro allI impI)
    fix k s t assume "ends s" "ends t" and eq: "dumps fr (JBool b) @ s = dumps fr k @ t"
    from dumps_kind[OF ok eq] have "k = JBool b" by (cases k) (auto split: if_splits)
    with eq show "JBool b = k \<and> s = t" by simp
  qed
next
  case JNull
  show ?case unfolding decodable_def
  proof (intro allI impI)
    fix k s t assume "ends s" "ends t" and eq: "dumps fr JNull @ s = dumps fr k @ t"
    from dumps_kind[OF ok eq] have "k = JNull" by (cases k) (auto split: if_splits)
    with eq show "JNull = k \<and> s = t" by simp
  qed
next
  case (JInt i)
  show ?case using dumps_number_decodable[OF ok, of "JInt i"] by simp
next
  case (JFloat x)
  show ?case using dumps_number_decodable[OF ok, of "JFloat x"] by simp
qed

lemma dumps_inj: "float_repr_ok fr \<Longrightarrow> dumps fr j = dumps fr k \<Longrightarrow> j = k"
  using dumps_decodable[of fr j] unfolding decodable_def
  by (metis append.right_neutral ends_def list.simps(4))

text \<open>
  An instance of the float printer, numerator and denominator around a dot, on which everything
  that assumes \<open>float_repr_ok\<close> can be evaluated.
\<close>

definition fraction_text :: "rat \<Rightarrow> string" where
  "fraction_text x = show_int (fst (quotient_of x)) @ ''.'' @ show_int (snd (quotient_of x))"

lemma show_int_no_dot: "CHR ''.'' \<notin> set (show_int i)"
  using show_int_num[of "CHR ''.''" i] by (auto simp: is_digit_def char_in_def code_def)

lemma split_at_unique:
  "x \<notin> set as \<Longrightarrow> x \<notin> set bs \<Longrightarrow> as @ x # cs = bs @ x # ds \<longleftrightarrow> as = bs \<and> cs = ds"
proof (induction as arbitrary: bs)
  case Nil
  then show ?case by (cases bs) auto
next
  case (Cons a as)
  then show ?case by (cases bs) auto
qed

lemma fraction_text_ok: "float_repr_ok fraction_text"
  unfolding float_repr_ok_def
proof (intro conjI allI)
  show "inj fraction_text"
  proof (rule injI)
    fix x y assume "fraction_text x = fraction_text y"
    then have "quotient_of x = quotient_of y"
      by (simp add: fraction_text_def split_at_unique show_int_no_dot prod_eq_iff)
    then show "x = y" by (simp add: quotient_of_inject)
  qed
  fix x
  show "\<forall>c \<in> set (fraction_text x). num_char c"
    using show_int_num num_facts(1,2) by (auto simp: fraction_text_def num_char_def)
  show "\<exists>c \<in> set (fraction_text x). c = CHR ''.'' \<or> c = CHR ''e''"
    by (simp add: fraction_text_def)
qed

text \<open>Sorting the members twice changes nothing; sorting keeps what a document says.\<close>

lemma canon_idem [simp]: "canon (canon j) = canon j"
proof (induction j)
  case (JList js)
  then show ?case by simp
next
  case (JObj kvs)
  have "map (map_prod id canon) (sort_key fst (map (map_prod id canon) kvs)) =
      sort_key fst (map (map_prod id canon) kvs)"
    by (rule map_idI) (use JObj in \<open>force simp: map_prod_def\<close>)
  then show ?case by (simp add: sort_key_id_if_sorted)
qed simp_all

text \<open>Equal canonical texts come from documents that agree up to the order of members.\<close>

lemma json_text_inj:
  "float_repr_ok fr \<Longrightarrow> json_text fr j = json_text fr k \<Longrightarrow> canon j = canon k"
  unfolding json_text_def by (rule dumps_inj)

end
