(* ===== verification/Schemas.thy ===== *)
theory Schemas
  imports Clock Json
begin

text \<open>
  The validated data of \<open>schemas.py\<close>: the enumerations with the strings they are stored as, one
  record per pydantic model, the checks its fields and validators impose (\<open>check_*\<close>, which raise
  \<open>ValidationError\<close>), the JSON document \<open>model_dump(mode="json")\<close> writes (\<open>*_json\<close>) and, for the
  two documents the store reads back, \<open>model_validate\<close> (\<open>*_of_json\<close>). Confidence and percentages
  are rationals. The JSON form of an aware datetime is pydantic's: the parameter \<open>dj\<close>.
\<close>

section \<open>Enumerations\<close>

datatype scenario =
    DISK_EXHAUSTION | RUNAWAY_CPU | MEMORY_OOM | RESTARTING_SERVICE | LOG_STORM | WORKER_CONCURRENCY

datatype scenario_kind = SYNTHETIC_MARKER | CONTAINER_FAULT

datatype event_source = LOCAL_SIMULATION

datatype run_state =
    RECEIVED | INVESTIGATING | ASSESSED | PROPOSED | APPROVED | REJECTED | EXPIRED | EXECUTING
  | SUCCEEDED | FAILED

datatype proposal_state =
    P_PROPOSED | P_APPROVED | P_REJECTED | P_EXPIRED | P_SUPERSEDED | P_EXECUTING | P_SUCCEEDED
  | P_FAILED

datatype decision = APPROVE | REJECT | REVISE

primrec scenario_value :: "scenario \<Rightarrow> string" where
  "scenario_value DISK_EXHAUSTION = ''disk-exhaustion''"
| "scenario_value RUNAWAY_CPU = ''runaway-cpu''"
| "scenario_value MEMORY_OOM = ''memory-oom''"
| "scenario_value RESTARTING_SERVICE = ''restarting-service''"
| "scenario_value LOG_STORM = ''log-storm''"
| "scenario_value WORKER_CONCURRENCY = ''worker-concurrency''"

primrec kind_value :: "scenario_kind \<Rightarrow> string" where
  "kind_value SYNTHETIC_MARKER = ''synthetic_marker''"
| "kind_value CONTAINER_FAULT = ''container_fault''"

primrec source_value :: "event_source \<Rightarrow> string" where
  "source_value LOCAL_SIMULATION = ''local_simulation''"

primrec run_state_value :: "run_state \<Rightarrow> string" where
  "run_state_value RECEIVED = ''received''"
| "run_state_value INVESTIGATING = ''investigating''"
| "run_state_value ASSESSED = ''assessed''"
| "run_state_value PROPOSED = ''proposed''"
| "run_state_value APPROVED = ''approved''"
| "run_state_value REJECTED = ''rejected''"
| "run_state_value EXPIRED = ''expired''"
| "run_state_value EXECUTING = ''executing''"
| "run_state_value SUCCEEDED = ''succeeded''"
| "run_state_value FAILED = ''failed''"

primrec proposal_state_value :: "proposal_state \<Rightarrow> string" where
  "proposal_state_value P_PROPOSED = ''proposed''"
| "proposal_state_value P_APPROVED = ''approved''"
| "proposal_state_value P_REJECTED = ''rejected''"
| "proposal_state_value P_EXPIRED = ''expired''"
| "proposal_state_value P_SUPERSEDED = ''superseded''"
| "proposal_state_value P_EXECUTING = ''executing''"
| "proposal_state_value P_SUCCEEDED = ''succeeded''"
| "proposal_state_value P_FAILED = ''failed''"

primrec decision_value :: "decision \<Rightarrow> string" where
  "decision_value APPROVE = ''approve''"
| "decision_value REJECT = ''reject''"
| "decision_value REVISE = ''revise''"

text \<open>The values are pairwise different, so that a stored string names one member.\<close>

lemma scenario_value_inj [simp]: "scenario_value a = scenario_value b \<longleftrightarrow> a = b"
  by (cases a; cases b) simp_all

lemma kind_value_inj [simp]: "kind_value a = kind_value b \<longleftrightarrow> a = b"
  by (cases a; cases b) simp_all

lemma run_state_value_inj [simp]: "run_state_value a = run_state_value b \<longleftrightarrow> a = b"
  by (cases a; cases b) simp_all

lemma proposal_state_value_inj [simp]:
  "proposal_state_value a = proposal_state_value b \<longleftrightarrow> a = b"
  by (cases a; cases b) simp_all

section \<open>Field patterns\<close>

text \<open>\<open>^[A-Za-z0-9_.:-]+$\<close>, \<open>^[a-z0-9_-]+$\<close>, \<open>^[a-z0-9][a-z0-9_.-]+$\<close> and \<open>^[a-z][a-z0-9_]*$\<close>.\<close>

definition token_char :: "char \<Rightarrow> bool" where
  "token_char c \<longleftrightarrow> is_ascii_alnum c \<or> c \<in> {CHR ''_'', CHR ''.'', CHR '':'', CHR ''-''}"

definition matches_token :: "string \<Rightarrow> bool" where
  "matches_token s \<longleftrightarrow> s \<noteq> [] \<and> list_all token_char s"

definition target_char :: "char \<Rightarrow> bool" where
  "target_char c \<longleftrightarrow> is_ascii_lower c \<or> is_digit c \<or> c \<in> {CHR ''_'', CHR ''-''}"

definition matches_target :: "string \<Rightarrow> bool" where
  "matches_target s \<longleftrightarrow> s \<noteq> [] \<and> list_all target_char s"

definition matches_capability_id :: "string \<Rightarrow> bool" where
  "matches_capability_id s \<longleftrightarrow>
     (case s of
        [] \<Rightarrow> False
      | c # r \<Rightarrow> (is_ascii_lower c \<or> is_digit c) \<and> r \<noteq> [] \<and>
          list_all (\<lambda>d. target_char d \<or> d = CHR ''.'') r)"

definition matches_parameter_name :: "string \<Rightarrow> bool" where
  "matches_parameter_name s \<longleftrightarrow>
     (case s of
        [] \<Rightarrow> False
      | c # r \<Rightarrow> is_ascii_lower c \<and> list_all (\<lambda>d. is_ascii_lower d \<or> is_digit d \<or> d = CHR ''_'') r)"

abbreviation short_text :: "string \<Rightarrow> bool" where "short_text s \<equiv> length s \<le> 500"

section \<open>Events\<close>

record event_context_field =
  ctx_key :: string
  ctx_value :: string

record event_payload =
  pl_scenario :: scenario
  pl_summary :: "string option"
  pl_log_lines :: "string list"
  pl_context :: "event_context_field list"

text \<open>An observed time: the local datetime and its offset from UTC in minutes, if it has one.\<close>

record observed =
  local_time :: datetime
  utcoffset :: "int option"

record event_request =
  ev_idempotency_key :: string
  ev_source :: event_source
  ev_observed_at :: observed
  ev_event_type :: string
  ev_payload :: event_payload
  ev_trace_id :: "string option"

definition valid_context_field :: "event_context_field \<Rightarrow> bool" where
  "valid_context_field f \<longleftrightarrow>
     bounded_text 1 64 (ctx_key f) \<and> matches_token (ctx_key f) \<and> short_text (ctx_value f)"

definition valid_payload :: "event_payload \<Rightarrow> bool" where
  "valid_payload p \<longleftrightarrow>
     (case pl_summary p of None \<Rightarrow> True | Some s \<Rightarrow> short_text s) \<and>
     length (pl_log_lines p) \<le> 20 \<and> list_all (\<lambda>l. short_text l) (pl_log_lines p) \<and>
     length (pl_context p) \<le> 20 \<and> list_all valid_context_field (pl_context p)"

definition context_field_json :: "event_context_field \<Rightarrow> json" where
  "context_field_json f = JObj [(''key'', JStr (ctx_key f)), (''value'', JStr (ctx_value f))]"

definition payload_json :: "event_payload \<Rightarrow> json" where
  "payload_json p =
     JObj [(''scenario'', JStr (scenario_value (pl_scenario p))),
           (''summary'', json_str (pl_summary p)),
           (''log_lines'', json_strs (pl_log_lines p)),
           (''context'', JList (map context_field_json (pl_context p)))]"

definition event_json :: "(observed \<Rightarrow> string) \<Rightarrow> event_request \<Rightarrow> json" where
  "event_json dj e =
     JObj [(''idempotency_key'', JStr (ev_idempotency_key e)),
           (''source'', JStr (source_value (ev_source e))),
           (''observed_at'', JStr (dj (ev_observed_at e))),
           (''event_type'', JStr (ev_event_type e)),
           (''payload'', payload_json (ev_payload e)),
           (''trace_id'', json_str (ev_trace_id e))]"

text \<open>\<open>EventRequest(...)\<close>: field limits, the timezone validator, the 16384-byte model validator.\<close>

definition valid_event_fields :: "event_request \<Rightarrow> bool" where
  "valid_event_fields e \<longleftrightarrow>
     bounded_text 1 128 (ev_idempotency_key e) \<and> matches_token (ev_idempotency_key e) \<and>
     ev_event_type e = ''incident.detected'' \<and> valid_payload (ev_payload e) \<and>
     (case ev_trace_id e of None \<Rightarrow> True | Some t \<Rightarrow> length t \<le> 128 \<and> matches_token t)"

definition observed_at_must_be_timezone_aware :: "observed \<Rightarrow> bool" where
  "observed_at_must_be_timezone_aware t \<longleftrightarrow> utcoffset t \<noteq> None"

definition payload_must_be_bounded ::
    "(observed \<Rightarrow> string) \<Rightarrow> (rat \<Rightarrow> string) \<Rightarrow> event_request \<Rightarrow> bool" where
  "payload_must_be_bounded dj fr e \<longleftrightarrow> length (dumps fr (event_json dj e)) \<le> 16384"

definition check_event ::
    "(observed \<Rightarrow> string) \<Rightarrow> (rat \<Rightarrow> string) \<Rightarrow> event_request \<Rightarrow> exn + event_request" where
  "check_event dj fr e =
     (if valid_event_fields e \<and> observed_at_must_be_timezone_aware (ev_observed_at e) \<and>
         payload_must_be_bounded dj fr e
      then Inr e else Inl ValidationError)"

section \<open>Evidence and assessments\<close>

record telemetry_evidence =
  te_scenario :: scenario
  te_scenario_kind :: scenario_kind
  rotation_failed :: bool
  free_bytes :: int
  log_growth_bytes_per_minute :: int
  affected_file_count :: int
  cpu_percent :: rat
  memory_percent :: rat
  oom_kill_detected :: bool
  log_storm_detected :: bool
  temp_file_count :: int
  runaway_process_detected :: bool
  service_state :: "string option"
  restart_count :: int
  worker_concurrency :: "int option"
  safe_worker_concurrency :: "int option"
  signals :: "string list"
  fault_injection :: "string option"

definition percent :: "rat \<Rightarrow> bool" where "percent x \<longleftrightarrow> 0 \<le> x \<and> x \<le> 100"

definition non_negative :: "int option \<Rightarrow> bool" where
  "non_negative n = (case n of None \<Rightarrow> True | Some i \<Rightarrow> 0 \<le> i)"

definition check_evidence :: "telemetry_evidence \<Rightarrow> exn + telemetry_evidence" where
  "check_evidence e =
     (if 0 \<le> free_bytes e \<and> 0 \<le> log_growth_bytes_per_minute e \<and> 0 \<le> affected_file_count e \<and>
         percent (cpu_percent e) \<and> percent (memory_percent e) \<and> 0 \<le> temp_file_count e \<and>
         0 \<le> restart_count e \<and> non_negative (worker_concurrency e) \<and>
         non_negative (safe_worker_concurrency e)
      then Inr e else Inl ValidationError)"

record model_assessment =
  ma_summary :: string
  ma_severity :: string
  ma_confidence :: rat
  ma_evidence_refs :: "string list"
  ma_action_id :: string

definition unit_interval :: "rat \<Rightarrow> bool" where "unit_interval x \<longleftrightarrow> 0 \<le> x \<and> x \<le> 1"

definition valid_assessment :: "model_assessment \<Rightarrow> bool" where
  "valid_assessment a \<longleftrightarrow>
     bounded_text 1 2000 (ma_summary a) \<and>
     ma_severity a \<in> {''low'', ''medium'', ''high'', ''critical''} \<and>
     unit_interval (ma_confidence a) \<and>
     length (ma_evidence_refs a) \<le> 20 \<and> list_all (\<lambda>s. short_text s) (ma_evidence_refs a) \<and>
     bounded_text 1 128 (ma_action_id a)"

definition check_assessment :: "model_assessment \<Rightarrow> exn + model_assessment" where
  "check_assessment a = (if valid_assessment a then Inr a else Inl ValidationError)"

definition assessment_json :: "model_assessment \<Rightarrow> json" where
  "assessment_json a =
     JObj [(''summary'', JStr (ma_summary a)), (''severity'', JStr (ma_severity a)),
           (''confidence'', JFloat (ma_confidence a)),
           (''evidence_refs'', json_strs (ma_evidence_refs a)),
           (''action_id'', JStr (ma_action_id a))]"

section \<open>Remediation options\<close>

record capability_binding =
  cb_capability_id :: string
  cb_version :: int
  cb_content_digest :: string

record remediation_option =
  ro_action_id :: string
  ro_title :: string
  ro_evidence :: "string list"
  ro_confidence :: rat
  ro_impact :: string
  ro_risk :: string
  ro_action_preview :: string
  ro_parameters :: "(string \<times> json) list option"
  ro_target_id :: "string option"
  ro_capability :: "capability_binding option"

definition valid_capability_binding :: "capability_binding \<Rightarrow> bool" where
  "valid_capability_binding c \<longleftrightarrow>
     bounded_text 3 128 (cb_capability_id c) \<and> matches_capability_id (cb_capability_id c) \<and>
     1 \<le> cb_version c \<and> length (cb_content_digest c) = 64"

definition bounded_parameter :: "string \<times> json \<Rightarrow> bool" where
  "bounded_parameter = (\<lambda>(key, item).
     bounded_text 1 64 key \<and> matches_parameter_name key \<and>
     (case item of
        JInt i \<Rightarrow> - (2 ^ 31) \<le> i \<and> i < 2 ^ 31
      | JStr s \<Rightarrow> bounded_text 1 128 s
      | _ \<Rightarrow> False))"

definition parameters_must_be_bounded :: "(string \<times> json) list option \<Rightarrow> bool" where
  "parameters_must_be_bounded ps \<longleftrightarrow>
     (case ps of None \<Rightarrow> True | Some kvs \<Rightarrow> length kvs \<le> 4 \<and> list_all bounded_parameter kvs)"

definition valid_option :: "remediation_option \<Rightarrow> bool" where
  "valid_option opt \<longleftrightarrow>
     unit_interval (ro_confidence opt) \<and> parameters_must_be_bounded (ro_parameters opt) \<and>
     (case ro_target_id opt of None \<Rightarrow> True | Some t \<Rightarrow> length t \<le> 128 \<and> matches_target t) \<and>
     (case ro_capability opt of None \<Rightarrow> True | Some c \<Rightarrow> valid_capability_binding c)"

definition check_option :: "remediation_option \<Rightarrow> exn + remediation_option" where
  "check_option opt = (if valid_option opt then Inr opt else Inl ValidationError)"

definition capability_json :: "capability_binding option \<Rightarrow> json" where
  "capability_json c =
     (case c of
        None \<Rightarrow> JNull
      | Some b \<Rightarrow> JObj [(''capability_id'', JStr (cb_capability_id b)),
                       (''version'', JInt (cb_version b)),
                       (''content_digest'', JStr (cb_content_digest b))])"

definition option_json :: "remediation_option \<Rightarrow> json" where
  "option_json opt =
     JObj [(''action_id'', JStr (ro_action_id opt)), (''title'', JStr (ro_title opt)),
           (''evidence'', json_strs (ro_evidence opt)),
           (''confidence'', JFloat (ro_confidence opt)),
           (''impact'', JStr (ro_impact opt)), (''risk'', JStr (ro_risk opt)),
           (''action_preview'', JStr (ro_action_preview opt)),
           (''parameters'', (case ro_parameters opt of None \<Rightarrow> JNull | Some kvs \<Rightarrow> JObj kvs)),
           (''target_id'', json_str (ro_target_id opt)),
           (''capability'', capability_json (ro_capability opt))]"

section \<open>Reading the stored documents back\<close>

text \<open>
  \<open>model_validate\<close> on a stored document: members are looked up by name, unknown members are
  refused (\<open>extra="forbid"\<close>), a member of another JSON kind is refused. Of pydantic's lax coercions an
  integer or a boolean for a float is modelled; a numeric string for a number, which pydantic would
  convert and \<open>model_dump\<close> never writes, is refused here.
\<close>

definition get_str :: "string \<Rightarrow> (string \<times> json) list \<Rightarrow> exn + string" where
  "get_str k kvs = (case map_of kvs k of Some (JStr s) \<Rightarrow> Inr s | _ \<Rightarrow> Inl ValidationError)"

definition get_opt_str :: "string \<Rightarrow> (string \<times> json) list \<Rightarrow> exn + string option" where
  "get_opt_str k kvs =
     (case map_of kvs k of
        Some (JStr s) \<Rightarrow> Inr (Some s) | Some JNull \<Rightarrow> Inr None | None \<Rightarrow> Inr None
      | _ \<Rightarrow> Inl ValidationError)"

definition get_float :: "string \<Rightarrow> (string \<times> json) list \<Rightarrow> exn + rat" where
  "get_float k kvs =
     (case map_of kvs k of
        Some (JFloat x) \<Rightarrow> Inr x | Some (JInt i) \<Rightarrow> Inr (of_int i)
      | Some (JBool b) \<Rightarrow> Inr (if b then 1 else 0) | _ \<Rightarrow> Inl ValidationError)"

definition get_int :: "string \<Rightarrow> (string \<times> json) list \<Rightarrow> exn + int" where
  "get_int k kvs = (case map_of kvs k of Some (JInt i) \<Rightarrow> Inr i | _ \<Rightarrow> Inl ValidationError)"

fun strings_of :: "json list \<Rightarrow> exn + string list" where
  "strings_of [] = Inr []"
| "strings_of (JStr s # js) = bindE (strings_of js) (\<lambda>ss. Inr (s # ss))"
| "strings_of (_ # js) = Inl ValidationError"

definition get_strs :: "string \<Rightarrow> (string \<times> json) list \<Rightarrow> exn + string list" where
  "get_strs k kvs =
     (case map_of kvs k of Some (JList js) \<Rightarrow> strings_of js | _ \<Rightarrow> Inl ValidationError)"

text \<open>A field with \<open>default_factory=list\<close> may be missing.\<close>

definition get_strs_default :: "string \<Rightarrow> (string \<times> json) list \<Rightarrow> exn + string list" where
  "get_strs_default k kvs = (case map_of kvs k of None \<Rightarrow> Inr [] | Some j \<Rightarrow> get_strs k kvs)"

definition only_keys :: "string list \<Rightarrow> (string \<times> json) list \<Rightarrow> bool" where
  "only_keys ks kvs \<longleftrightarrow> list_all (\<lambda>kv. fst kv \<in> set ks) kvs"

definition assessment_of_json :: "json \<Rightarrow> exn + model_assessment" where
  "assessment_of_json j =
     (case j of
        JObj kvs \<Rightarrow>
          if \<not> only_keys [''summary'', ''severity'', ''confidence'', ''evidence_refs'', ''action_id''] kvs
          then Inl ValidationError
          else
            bindE (get_str ''summary'' kvs) (\<lambda>summary.
            bindE (get_str ''severity'' kvs) (\<lambda>severity.
            bindE (get_float ''confidence'' kvs) (\<lambda>confidence.
            bindE (get_strs_default ''evidence_refs'' kvs) (\<lambda>refs.
            bindE (get_str ''action_id'' kvs) (\<lambda>action_id.
              check_assessment \<lparr>ma_summary = summary, ma_severity = severity,
                ma_confidence = confidence, ma_evidence_refs = refs, ma_action_id = action_id\<rparr>)))))
      | _ \<Rightarrow> Inl ValidationError)"

definition capability_of_json :: "json option \<Rightarrow> exn + capability_binding option" where
  "capability_of_json j =
     (case j of
        Some (JObj kvs) \<Rightarrow>
          if \<not> only_keys [''capability_id'', ''version'', ''content_digest''] kvs
          then Inl ValidationError
          else
            bindE (get_str ''capability_id'' kvs) (\<lambda>i.
            bindE (get_int ''version'' kvs) (\<lambda>v.
            bindE (get_str ''content_digest'' kvs) (\<lambda>d.
              Inr (Some \<lparr>cb_capability_id = i, cb_version = v, cb_content_digest = d\<rparr>))))
      | Some JNull \<Rightarrow> Inr None
      | None \<Rightarrow> Inr None
      | _ \<Rightarrow> Inl ValidationError)"

definition option_of_json :: "json \<Rightarrow> exn + remediation_option" where
  "option_of_json j =
     (case j of
        JObj kvs \<Rightarrow>
          if \<not> only_keys [''action_id'', ''title'', ''evidence'', ''confidence'', ''impact'', ''risk'',
                ''action_preview'', ''parameters'', ''target_id'', ''capability''] kvs
          then Inl ValidationError
          else
            bindE (get_str ''action_id'' kvs) (\<lambda>action_id.
            bindE (get_str ''title'' kvs) (\<lambda>title.
            bindE (get_strs ''evidence'' kvs) (\<lambda>evidence.
            bindE (get_float ''confidence'' kvs) (\<lambda>confidence.
            bindE (get_str ''impact'' kvs) (\<lambda>impact.
            bindE (get_str ''risk'' kvs) (\<lambda>risk.
            bindE (get_str ''action_preview'' kvs) (\<lambda>preview.
            bindE (case map_of kvs ''parameters'' of
                     Some (JObj ps) \<Rightarrow> Inr (Some ps) | Some JNull \<Rightarrow> Inr None | None \<Rightarrow> Inr None
                   | _ \<Rightarrow> Inl ValidationError) (\<lambda>parameters.
            bindE (get_opt_str ''target_id'' kvs) (\<lambda>target.
            bindE (capability_of_json (map_of kvs ''capability'')) (\<lambda>capability.
              check_option \<lparr>ro_action_id = action_id, ro_title = title, ro_evidence = evidence,
                ro_confidence = confidence, ro_impact = impact, ro_risk = risk,
                ro_action_preview = preview, ro_parameters = parameters, ro_target_id = target,
                ro_capability = capability\<rparr>))))))))))
      | _ \<Rightarrow> Inl ValidationError)"

section \<open>Stored documents read back as they were written\<close>

text \<open>The store writes with sorted keys, so parameters come back in the order of their names.\<close>

definition stored_parameters :: "(string \<times> json) list option \<Rightarrow> (string \<times> json) list option" where
  "stored_parameters = map_option (\<lambda>kvs. sort_key fst (map (map_prod id canon) kvs))"

definition stored_option :: "remediation_option \<Rightarrow> remediation_option" where
  "stored_option opt = opt\<lparr>ro_parameters := stored_parameters (ro_parameters opt)\<rparr>"

lemma map_of_map_prod: "map_of (map (map_prod id f) kvs) k = map_option f (map_of kvs k)"
  by (induction kvs) auto

lemma map_of_sort_key:
  assumes "distinct (map fst kvs)"
  shows "map_of (sort_key fst kvs) = map_of kvs"
proof -
  have "distinct kvs" using assms by (simp add: distinct_map)
  then have "distinct (sort_key fst kvs)" by simp
  with assms have "distinct (map fst (sort_key fst kvs))" by (simp add: distinct_map)
  then show ?thesis by (intro map_of_inject_set[THEN iffD2]) (use assms in auto)
qed

lemma map_of_canon_fields:
  assumes "distinct (map fst kvs)"
  shows "map_of (sort_key fst (map (map_prod id canon) kvs)) k = map_option canon (map_of kvs k)"
proof -
  have "distinct (map fst (map (map_prod id canon) kvs))" using assms by (simp add: comp_def)
  then show ?thesis by (simp add: map_of_sort_key map_of_map_prod)
qed

lemma canon_json_strs [simp]: "canon (json_strs ss) = json_strs ss"
  by (simp add: json_strs_def)

lemma canon_json_str [simp]: "canon (json_str s) = json_str s"
  by (simp add: json_str_def split: option.split)

lemma strings_of_map [simp]: "strings_of (map JStr ss) = Inr ss"
  by (induction ss) simp_all

lemma only_keys_simps [simp]:
  "only_keys ks []" "only_keys ks (kv # kvs) \<longleftrightarrow> fst kv \<in> set ks \<and> only_keys ks kvs"
  by (simp_all add: only_keys_def)

lemma only_keys_canon: "only_keys ks (sort_key fst (map (map_prod id canon) kvs)) = only_keys ks kvs"
  by (auto simp: only_keys_def list_all_iff)

lemmas get_defs = get_str_def get_opt_str_def get_float_def get_int_def get_strs_def get_strs_default_def

lemma assessment_of_canon:
  assumes "valid_assessment a"
  shows "assessment_of_json (canon (assessment_json a)) = Inr a"
proof -
  let ?kvs = "[(''summary'', JStr (ma_summary a)), (''severity'', JStr (ma_severity a)),
           (''confidence'', JFloat (ma_confidence a)),
           (''evidence_refs'', json_strs (ma_evidence_refs a)),
           (''action_id'', JStr (ma_action_id a))]"
  have look: "map_of (sort_key fst (map (map_prod id canon) ?kvs)) k = map_option canon (map_of ?kvs k)"
    for k by (rule map_of_canon_fields) simp
  have strs: "(case json_strs ss of JList js \<Rightarrow> strings_of js | _ \<Rightarrow> Inl ValidationError) = Inr ss"
    for ss by (simp add: json_strs_def)
  show ?thesis using assms
    by (simp add: assessment_of_json_def assessment_json_def only_keys_canon get_defs look strs
        check_assessment_def del: list.map) (cases a; simp)
qed

lemma capability_of_canon:
  "capability_of_json (Some (canon (capability_json c))) = Inr c"
proof (cases c)
  case (Some b)
  let ?kvs = "[(''capability_id'', JStr (cb_capability_id b)), (''version'', JInt (cb_version b)),
               (''content_digest'', JStr (cb_content_digest b))]"
  have look: "map_of (sort_key fst (map (map_prod id canon) ?kvs)) k = map_option canon (map_of ?kvs k)"
    for k by (rule map_of_canon_fields) simp
  show ?thesis
    by (simp add: Some capability_of_json_def capability_json_def only_keys_canon get_defs look
        del: list.map)
qed (simp add: capability_of_json_def capability_json_def)

lemma bounded_parameters_stored:
  "parameters_must_be_bounded (stored_parameters ps) = parameters_must_be_bounded ps"
proof (cases ps)
  case (Some kvs)
  have "bounded_parameter (k, canon v) = bounded_parameter (k, v)" for k v
    by (cases v) (simp_all add: bounded_parameter_def)
  then show ?thesis
    by (auto simp: Some parameters_must_be_bounded_def stored_parameters_def list_all_iff)
qed (simp add: stored_parameters_def)

lemma valid_stored_option [simp]: "valid_option (stored_option opt) = valid_option opt"
  by (simp add: valid_option_def stored_option_def bounded_parameters_stored)

lemma option_of_canon:
  assumes "valid_option opt"
  shows "option_of_json (canon (option_json opt)) = Inr (stored_option opt)"
proof -
  let ?kvs = "[(''action_id'', JStr (ro_action_id opt)), (''title'', JStr (ro_title opt)),
           (''evidence'', json_strs (ro_evidence opt)),
           (''confidence'', JFloat (ro_confidence opt)),
           (''impact'', JStr (ro_impact opt)), (''risk'', JStr (ro_risk opt)),
           (''action_preview'', JStr (ro_action_preview opt)),
           (''parameters'', (case ro_parameters opt of None \<Rightarrow> JNull | Some kvs \<Rightarrow> JObj kvs)),
           (''target_id'', json_str (ro_target_id opt)),
           (''capability'', capability_json (ro_capability opt))]"
  have look: "map_of (sort_key fst (map (map_prod id canon) ?kvs)) k = map_option canon (map_of ?kvs k)"
    for k by (rule map_of_canon_fields) simp
  have strs: "(case json_strs ss of JList js \<Rightarrow> strings_of js | _ \<Rightarrow> Inl ValidationError) = Inr ss"
    for ss by (simp add: json_strs_def)
  have params: "(case Some (canon (case ro_parameters opt of None \<Rightarrow> JNull | Some kvs \<Rightarrow> JObj kvs)) of
      Some (JObj ps) \<Rightarrow> Inr (Some ps) | Some JNull \<Rightarrow> Inr None | None \<Rightarrow> Inr None
      | _ \<Rightarrow> Inl ValidationError) = Inr (stored_parameters (ro_parameters opt))"
    by (simp add: stored_parameters_def split: option.split)
  have target: "(case Some (json_str t) of
        Some (JStr s) \<Rightarrow> Inr (Some s) | Some JNull \<Rightarrow> Inr None | None \<Rightarrow> Inr None
      | _ \<Rightarrow> Inl ValidationError) = Inr t" for t
    by (simp add: json_str_def split: option.split)
  have "only_keys [''action_id'', ''title'', ''evidence'', ''confidence'', ''impact'', ''risk'',
                ''action_preview'', ''parameters'', ''target_id'', ''capability'']
          (sort_key fst (map (map_prod id canon) ?kvs))"
    by (simp add: only_keys_canon del: list.map)
  then have "option_of_json (canon (option_json opt)) = check_option (stored_option opt)"
    by (simp add: option_of_json_def option_json_def look get_defs strs params[simplified]
        target[simplified] capability_of_canon stored_option_def del: list.map)
       (cases opt; simp)
  with assms show ?thesis by (simp add: check_option_def)
qed

end
