(* ===== verification/Regex.thy ===== *)
theory Regex
  imports Prelude
begin

text \<open>
  Python's \<open>re\<close> as far as the redaction patterns of \<open>security.py\<close> use it: a backtracking matcher
  that lists the matches at a position in the order in which the engine tries them (greedy
  repetition first takes as much as it can), and \<open>Pattern.sub\<close>, which replaces the first match at
  every position from left to right. A position is the character before it, the text after it and
  the groups captured so far.
\<close>

record position =
  behind :: "char option"
  ahead :: string
  groups :: "(nat \<times> string) list"

datatype regex =
    Eps
  | Sat "char \<Rightarrow> bool"
  | Seq regex regex
  | Alt regex regex
  | Star regex
  | Group nat regex
  | Backref nat
  | WordBoundary
  | NotBehind "char \<Rightarrow> bool"
  | NotAhead regex

text \<open>The class \<open>\w\<close> for code points below 256.\<close>

definition word_char :: "char \<Rightarrow> bool" where
  "word_char c \<longleftrightarrow> is_ascii_alnum c \<or> c = CHR ''_'' \<or> code c \<in> {170, 178, 179, 181, 185, 186} \<or>
     char_in c 188 190 \<or> char_in c 192 214 \<or> char_in c 216 246 \<or> char_in c 248 255"

definition at_word_boundary :: "position \<Rightarrow> bool" where
  "at_word_boundary p \<longleftrightarrow>
     (case behind p of None \<Rightarrow> False | Some c \<Rightarrow> word_char c) \<noteq>
     (case ahead p of [] \<Rightarrow> False | c # _ \<Rightarrow> word_char c)"

text \<open>Go past the first \<open>n\<close> characters.\<close>

definition advance :: "nat \<Rightarrow> position \<Rightarrow> position" where
  "advance n p =
     p\<lparr>behind := (if n = 0 then behind p else Some (last (take n (ahead p)))), ahead := drop n (ahead p)\<rparr>"

definition consumed :: "position \<Rightarrow> position \<Rightarrow> string" where
  "consumed p q = take (length (ahead p) - length (ahead q)) (ahead p)"

text \<open>Greedy repetition; the engine leaves the loop after an iteration that consumes nothing.\<close>

function star_matches :: "(position \<Rightarrow> position list) \<Rightarrow> position \<Rightarrow> position list" where
  "star_matches f p =
     concat (map (star_matches f) (filter (\<lambda>q. length (ahead q) < length (ahead p)) (f p))) @ [p]"
  by pat_completeness auto
termination by (relation "measure (\<lambda>(f, p). length (ahead p))") auto

declare star_matches.simps [simp del]

primrec matches :: "regex \<Rightarrow> position \<Rightarrow> position list" where
  "matches Eps p = [p]"
| "matches (Sat P) p = (case ahead p of [] \<Rightarrow> [] | c # _ \<Rightarrow> if P c then [advance 1 p] else [])"
| "matches (Seq r s) p = concat (map (matches s) (matches r p))"
| "matches (Alt r s) p = matches r p @ matches s p"
| "matches (Star r) p = star_matches (matches r) p"
| "matches (Group g r) p = map (\<lambda>q. q\<lparr>groups := (g, consumed p q) # groups q\<rparr>) (matches r p)"
| "matches (Backref g) p =
     (case map_of (groups p) g of
        None \<Rightarrow> []
      | Some s \<Rightarrow> if prefix s (ahead p) then [advance (length s) p] else [])"
| "matches WordBoundary p = (if at_word_boundary p then [p] else [])"
| "matches (NotBehind P) p = (case behind p of None \<Rightarrow> [p] | Some c \<Rightarrow> if P c then [] else [p])"
| "matches (NotAhead r) p = (if matches r p = [] then [p] else [])"

text \<open>\<open>pattern.sub(f, text)\<close> for a pattern that does not match the empty string.\<close>

function sub_from :: "regex \<Rightarrow> (string \<Rightarrow> position \<Rightarrow> string) \<Rightarrow> char option \<Rightarrow> string \<Rightarrow> string" where
  "sub_from r f prev [] = []"
| "sub_from r f prev (c # cs) =
     (let p = \<lparr>behind = prev, ahead = c # cs, groups = []\<rparr> in
      case matches r p of
        [] \<Rightarrow> c # sub_from r f (Some c) cs
      | q # _ \<Rightarrow>
          if length (ahead q) < length (c # cs)
          then f (consumed p q) q @ sub_from r f (behind q) (ahead q)
          else c # sub_from r f (Some c) cs)"
  by pat_completeness auto
termination by (relation "measure (\<lambda>(r, f, prev, s). length s)") auto

definition sub :: "regex \<Rightarrow> (string \<Rightarrow> position \<Rightarrow> string) \<Rightarrow> string \<Rightarrow> string" where
  "sub r f s = sub_from r f None s"

section \<open>Derived patterns\<close>

definition Opt :: "regex \<Rightarrow> regex" where "Opt r = Alt r Eps"

definition Plus :: "regex \<Rightarrow> regex" where "Plus r = Seq r (Star r)"

primrec Rep :: "nat \<Rightarrow> regex \<Rightarrow> regex" where
  "Rep 0 r = Eps"
| "Rep (Suc n) r = Seq r (Rep n r)"

text \<open>A literal, and a literal in lower case matched without regard to case (ASCII letters only).\<close>

primrec Lit :: "string \<Rightarrow> regex" where
  "Lit [] = Eps"
| "Lit (c # cs) = Seq (Sat (\<lambda>d. d = c)) (Lit cs)"

primrec LitCI :: "string \<Rightarrow> regex" where
  "LitCI [] = Eps"
| "LitCI (c # cs) = Seq (Sat (\<lambda>d. lower_char d = c)) (LitCI cs)"

primrec Alts :: "regex \<Rightarrow> regex list \<Rightarrow> regex" where
  "Alts r [] = r"
| "Alts r (s # rs) = Alt r (Alts s rs)"

primrec Seqs :: "regex list \<Rightarrow> regex" where
  "Seqs [] = Eps"
| "Seqs (r # rs) = Seq r (Seqs rs)"

section \<open>What every match is\<close>

text \<open>A match ends at a later position of the same text.\<close>

lemma star_matches_suffix:
  assumes "\<And>p q. q \<in> set (f p) \<Longrightarrow> suffix (ahead q) (ahead p)"
    and "q \<in> set (star_matches f p)"
  shows "suffix (ahead q) (ahead p)"
  using assms(2)
proof (induction "length (ahead p)" arbitrary: p rule: less_induct)
  case less
  from less.prems have "q = p \<or> (\<exists>p'. p' \<in> set (f p) \<and> length (ahead p') < length (ahead p) \<and>
      q \<in> set (star_matches f p'))"
    by (subst (asm) star_matches.simps) auto
  then show ?case
  proof
    assume "\<exists>p'. p' \<in> set (f p) \<and> length (ahead p') < length (ahead p) \<and> q \<in> set (star_matches f p')"
    then obtain p' where p': "p' \<in> set (f p)" "length (ahead p') < length (ahead p)"
        "q \<in> set (star_matches f p')" by blast
    from less.hyps[OF p'(2,3)] assms(1)[OF p'(1)] show ?thesis by (rule suffix_order.trans)
  qed simp
qed

lemma matches_suffix: "q \<in> set (matches r p) \<Longrightarrow> suffix (ahead q) (ahead p)"
proof (induction r arbitrary: p q)
  case (Sat P)
  then show ?case by (auto simp: advance_def suffix_drop split: list.splits if_splits)
next
  case (Seq r s)
  then obtain m where "m \<in> set (matches r p)" "q \<in> set (matches s m)" by auto
  with Seq.IH show ?case by (metis suffix_order.trans)
next
  case (Star r)
  from Star.prems show ?case by (auto intro: star_matches_suffix[OF Star.IH])
next
  case (Backref g)
  then show ?case by (auto simp: advance_def suffix_drop split: option.splits if_splits)
qed (auto split: if_splits option.splits)

text \<open>
  \<open>needs C r\<close>: every match of \<open>r\<close> goes past a character of the class \<open>C\<close>. A text without such a
  character is left as it is.
\<close>

primrec needs :: "(char \<Rightarrow> bool) \<Rightarrow> regex \<Rightarrow> bool" where
  "needs C Eps = False"
| "needs C (Sat P) = (\<forall>c. P c \<longrightarrow> C c)"
| "needs C (Seq r s) = (needs C r \<or> needs C s)"
| "needs C (Alt r s) = (needs C r \<and> needs C s)"
| "needs C (Star r) = False"
| "needs C (Group g r) = needs C r"
| "needs C (Backref g) = False"
| "needs C WordBoundary = False"
| "needs C (NotBehind P) = False"
| "needs C (NotAhead r) = False"

lemma needs_match:
  "needs C r \<Longrightarrow> q \<in> set (matches r p) \<Longrightarrow> \<exists>c \<in> set (ahead p). C c"
proof (induction r arbitrary: p q)
  case (Sat P)
  then show ?case by (cases "ahead p") (auto split: if_splits)
next
  case (Seq r s)
  from Seq.prems obtain m where m: "m \<in> set (matches r p)" "q \<in> set (matches s m)" by auto
  have "set (ahead m) \<subseteq> set (ahead p)" by (rule set_mono_suffix[OF matches_suffix[OF m(1)]])
  moreover have "(\<exists>c \<in> set (ahead p). C c) \<or> (\<exists>c \<in> set (ahead m). C c)"
    using Seq.IH(1)[OF _ m(1)] Seq.IH(2)[OF _ m(2)] Seq.prems(1) by auto
  ultimately show ?case by blast
qed auto

lemma sub_from_unchanged:
  assumes "needs C r"
  shows "\<forall>c \<in> set s. \<not> C c \<Longrightarrow> sub_from r f prev s = s"
proof (induction s arbitrary: prev)
  case (Cons c cs)
  let ?p = "\<lparr>behind = prev, ahead = c # cs, groups = []\<rparr>"
  have "matches r ?p = []"
    using needs_match[OF assms, of _ ?p] Cons.prems by (cases "matches r ?p") auto
  with Cons show ?case by (simp add: Let_def)
qed simp

lemma sub_unchanged: "needs C r \<Longrightarrow> \<forall>c \<in> set s. \<not> C c \<Longrightarrow> sub r f s = s"
  by (simp add: sub_def sub_from_unchanged)

end
