(* ===== verification/Security.thy ===== *)
theory Security
  imports Schemas Regex
begin

text \<open>
  \<open>security.py\<close>: redaction of text, metadata and events, and the HTTP access middleware. The
  patterns are those of the source, over code points below 256; the standard library's
  \<open>ipaddress\<close> is modelled for the IPv4 dotted quads the redaction hands it. The middleware is a
  function from the request's scope to a verdict, and a body limiter around the application,
  which is a parameter: a process that asks for the next message or answers.
\<close>

section \<open>Patterns\<close>

definition word_id :: "char \<Rightarrow> bool" where
  "word_id c \<longleftrightarrow> is_ascii_alnum c \<or> c = CHR ''_''"

definition Space :: regex where "Space = Sat is_space"

definition ApiKey :: regex where
  "ApiKey = Seqs [LitCI ''api'', Opt (Sat (\<lambda>c. c = CHR ''_'' \<or> c = CHR ''-'')), LitCI ''key'']"

definition CredentialWord :: regex where
  "CredentialWord = Alts ApiKey (map LitCI [''authorization'', ''bearer'', ''credential'',
     ''password'', ''secret'', ''token'', ''username'', ''user''])"

definition ASSIGNMENT_PATTERN :: regex where
  "ASSIGNMENT_PATTERN = Seqs [WordBoundary, Group 1 CredentialWord, Star Space,
     Sat (\<lambda>c. c = CHR '':'' \<or> c = CHR ''=''), Star Space,
     Plus (Sat (\<lambda>c. \<not> is_space c \<and> c \<noteq> CHR '','' \<and> c \<noteq> CHR '';''))]"

definition quote_char :: "char \<Rightarrow> bool" where
  "quote_char c \<longleftrightarrow> c = CHR 0x22 \<or> c = CHR 0x27"

definition not_newline :: "char \<Rightarrow> bool" where "not_newline c \<longleftrightarrow> c \<noteq> CHR 0x0A"

definition JSON_CREDENTIAL_PATTERN :: regex where
  "JSON_CREDENTIAL_PATTERN = Seqs [
     Group 1 (Seqs [Sat quote_char, CredentialWord, Sat quote_char, Star Space,
       Sat (\<lambda>c. c = CHR '':''), Star Space]),
     Group 2 (Sat quote_char),
     Star (Alt (Seq (Sat (\<lambda>c. c = CHR 0x5C)) (Sat not_newline))
               (Seq (NotAhead (Backref 2)) (Sat not_newline))),
     Backref 2]"

definition BEARER_PATTERN :: regex where
  "BEARER_PATTERN = Seqs [WordBoundary, LitCI ''bearer'', Plus Space,
     Plus (Sat (\<lambda>c. is_ascii_alnum c \<or> c \<in> set ''._~+/=-''))]"

definition UNIX_HOME_PATTERN :: regex where
  "UNIX_HOME_PATTERN = Seqs [NotBehind word_id, Sat (\<lambda>c. c = CHR ''/''),
     Alt (Lit ''Users'') (Lit ''home''), Sat (\<lambda>c. c = CHR ''/''),
     Plus (Sat (\<lambda>c. c \<noteq> CHR ''/'' \<and> \<not> is_space c)),
     Opt (Seq (Sat (\<lambda>c. c = CHR ''/'')) (Star (Sat (\<lambda>c. \<not> is_space c))))]"

definition WINDOWS_HOME_PATTERN :: regex where
  "WINDOWS_HOME_PATTERN = Seqs [WordBoundary, Sat (\<lambda>c. is_ascii_lower c \<or> is_ascii_upper c),
     Sat (\<lambda>c. c = CHR '':''), Sat (\<lambda>c. c = CHR 0x5C), LitCI ''users'', Sat (\<lambda>c. c = CHR 0x5C),
     Plus (Sat (\<lambda>c. \<not> is_space c \<and> c \<noteq> CHR 0x5C)),
     Opt (Seq (Sat (\<lambda>c. c = CHR 0x5C)) (Star (Sat (\<lambda>c. \<not> is_space c))))]"

definition Digits1to3 :: regex where
  "Digits1to3 = Seq (Sat is_digit) (Opt (Seq (Sat is_digit) (Opt (Sat is_digit))))"

definition IPV4_PATTERN :: regex where
  "IPV4_PATTERN = Seqs [NotBehind is_digit, Rep 3 (Seq Digits1to3 (Sat (\<lambda>c. c = CHR ''.''))),
     Digits1to3, NotAhead (Sat is_digit)]"

section \<open>Redaction\<close>

text \<open>\<open>ipaddress.ip_address\<close> on dotted quads: no octet above 255, no leading zero.\<close>

fun split_dots :: "string \<Rightarrow> string list" where
  "split_dots [] = [[]]"
| "split_dots (c # cs) =
     (if c = CHR ''.'' then [] # split_dots cs
      else (case split_dots cs of [] \<Rightarrow> [[c]] | w # ws \<Rightarrow> (c # w) # ws))"

definition octet_ok :: "string \<Rightarrow> bool" where
  "octet_ok s \<longleftrightarrow> s \<noteq> [] \<and> list_all is_digit s \<and> length s \<le> 3 \<and>
     (s = ''0'' \<or> hd s \<noteq> CHR ''0'') \<and> read_nat s \<le> 255"

definition ipv4_address :: "string \<Rightarrow> exn + nat" where
  "ipv4_address s =
     (let os = split_dots s in
      if length os = 4 \<and> list_all octet_ok os
      then Inr (foldl (\<lambda>n w. 256 * n + read_nat w) 0 os)
      else Inl (ValueError ''does not appear to be an IPv4 or IPv6 address''))"

definition in_network :: "nat \<Rightarrow> nat \<times> nat \<times> nat \<times> nat \<Rightarrow> nat \<Rightarrow> bool" where
  "in_network address net bits =
     (case net of (a, b, c, d) \<Rightarrow>
        address div 2 ^ (32 - bits) = (((a * 256 + b) * 256 + c) * 256 + d) div 2 ^ (32 - bits))"

definition ipv4_is_private :: "nat \<Rightarrow> bool" where
  "ipv4_is_private x \<longleftrightarrow>
     list_ex (\<lambda>(net, bits). in_network x net bits)
       [((0, 0, 0, 0), 8), ((10, 0, 0, 0), 8), ((127, 0, 0, 0), 8), ((169, 254, 0, 0), 16),
        ((172, 16, 0, 0), 12), ((192, 0, 0, 0), 24), ((192, 0, 0, 170), 31), ((192, 0, 2, 0), 24),
        ((192, 168, 0, 0), 16), ((198, 18, 0, 0), 15), ((198, 51, 100, 0), 24),
        ((203, 0, 113, 0), 24), ((240, 0, 0, 0), 4), ((255, 255, 255, 255), 32)] \<and>
     \<not> in_network x (192, 0, 0, 9) 32 \<and> \<not> in_network x (192, 0, 0, 10) 32"

definition ipv4_is_loopback :: "nat \<Rightarrow> bool" where
  "ipv4_is_loopback x = in_network x (127, 0, 0, 0) 8"

definition ipv4_is_link_local :: "nat \<Rightarrow> bool" where
  "ipv4_is_link_local x = in_network x (169, 254, 0, 0) 16"

definition redact_ip :: "string \<Rightarrow> string" where
  "redact_ip m =
     (case ipv4_address m of
        Inl _ \<Rightarrow> m
      | Inr x \<Rightarrow>
          if ipv4_is_private x \<or> ipv4_is_loopback x \<or> ipv4_is_link_local x
          then ''[REDACTED_IP]'' else m)"

definition SENSITIVE_KEY_PARTS :: "string list" where
  "SENSITIVE_KEY_PARTS = [''api_key'', ''api-key'', ''apikey'', ''authorization'', ''credential'',
     ''password'', ''secret'', ''token'', ''username'', ''user'']"

definition is_sensitive_key :: "string \<Rightarrow> bool" where
  "is_sensitive_key key =
     (let lowered = lower key in
      if lowered \<in> set [''token_count'', ''input_tokens'', ''output_tokens'', ''total_tokens''] then False
      else list_ex (\<lambda>part. str_in part lowered) SENSITIVE_KEY_PARTS)"

definition group_text :: "position \<Rightarrow> nat \<Rightarrow> string" where
  "group_text q g = (case map_of (groups q) g of None \<Rightarrow> [] | Some s \<Rightarrow> s)"

definition sanitize_text :: "string \<Rightarrow> string" where
  "sanitize_text value =
     (let s1 = sub BEARER_PATTERN (\<lambda>_ _. ''Bearer [REDACTED]'') value;
          s2 = sub JSON_CREDENTIAL_PATTERN
                 (\<lambda>_ q. group_text q 1 @ group_text q 2 @ ''[REDACTED]'' @ group_text q 2) s1;
          s3 = sub ASSIGNMENT_PATTERN (\<lambda>_ _. ''[REDACTED_CREDENTIAL]'') s2;
          s4 = sub UNIX_HOME_PATTERN (\<lambda>_ _. ''[REDACTED_PATH]'') s3;
          s5 = sub WINDOWS_HOME_PATTERN (\<lambda>_ _. ''[REDACTED_PATH]'') s4;
          s6 = sub IPV4_PATTERN (\<lambda>m _. redact_ip m) s5
      in take 500 s6)"

lemma json_size_member: "kv \<in> set kvs \<Longrightarrow> size (snd kv) < size (JObj kvs)"
proof (induction kvs)
  case (Cons x kvs)
  then show ?case by (cases x) (auto simp: less_Suc_eq)
qed simp

lemma json_size_item: "j \<in> set js \<Longrightarrow> size j < size (JList js)"
  by (induction js) auto

text \<open>\<open>sanitize(value, key)\<close>; a list hands its key on to its first twenty items.\<close>

function sanitize :: "string \<Rightarrow> json \<Rightarrow> json" where
  "sanitize key value =
     (if is_sensitive_key key then JStr ''[REDACTED]''
      else case value of
        JObj kvs \<Rightarrow> JObj (map (\<lambda>kv. (fst kv, sanitize (fst kv) (snd kv))) kvs)
      | JList js \<Rightarrow> JList (map (sanitize key) (take 20 js))
      | JStr s \<Rightarrow> JStr (sanitize_text s)
      | _ \<Rightarrow> value)"
  by pat_completeness auto

termination
proof (relation "measure (\<lambda>(k, v). size v)", goal_cases)
  case (2 key v js j)
  then have "j \<in> set js" by (auto dest: in_set_takeD)
  with 2 show ?case using json_size_item by simp
next
  case (3 key v kvs kv)
  then show ?case using json_size_member by (simp add: case_prod_unfold)
qed simp

declare sanitize.simps [simp del]

definition safe_metadata :: "(string \<times> json) list \<Rightarrow> json" where
  "safe_metadata metadata = sanitize [] (JObj metadata)"

definition sanitize_event :: "event_request \<Rightarrow> exn + event_request" where
  "sanitize_event e =
     (let p = ev_payload e;
          context = map (\<lambda>f. \<lparr>ctx_key = ctx_key f,
            ctx_value = (if is_sensitive_key (ctx_key f) then ''[REDACTED]''
                         else sanitize_text (ctx_value f))\<rparr>) (pl_context p);
          payload = \<lparr>pl_scenario = pl_scenario p,
            pl_summary = (case pl_summary p of
                None \<Rightarrow> None
              | Some s \<Rightarrow> if s = [] then None else Some (sanitize_text s)),
            pl_log_lines = map sanitize_text (pl_log_lines p),
            pl_context = context\<rparr>
      in if list_all valid_context_field context \<and> valid_payload payload
         then Inr (e\<lparr>ev_payload := payload\<rparr>) else Inl ValidationError)"

section \<open>The access middleware\<close>

definition MAX_HTTP_BODY_BYTES :: nat where "MAX_HTTP_BODY_BYTES = 16384"

definition MUTATING_ENDPOINTS :: "(string \<times> string) list" where
  "MUTATING_ENDPOINTS = [(''POST'', ''/events''), (''POST'', ''/maintenance/expire'')]"

definition MUTATING_PREFIXES :: "string list" where "MUTATING_PREFIXES = [''/proposals/'']"

record access_policy =
  ap_bearer_token :: "string option"
  ap_loopback_only :: bool
  ap_actor :: string

text \<open>An ASGI scope; header names and values are bytes, written as characters.\<close>

record http_scope =
  sc_type :: string
  sc_method :: "string option"
  sc_path :: "string option"
  sc_headers :: "(string \<times> string) list"

definition upper_char :: "char \<Rightarrow> char" where
  "upper_char c = (if is_ascii_lower c then char_of (code c - 32) else c)"

definition ascii_lower :: "string \<Rightarrow> string" where
  "ascii_lower = map (\<lambda>c. if is_ascii_upper c then lower_char c else c)"

definition scope_method :: "http_scope \<Rightarrow> string" where
  "scope_method sc = map upper_char (case sc_method sc of None \<Rightarrow> ''GET'' | Some m \<Rightarrow> m)"

definition scope_path :: "http_scope \<Rightarrow> string" where
  "scope_path sc = (case sc_path sc of None \<Rightarrow> '''' | Some p \<Rightarrow> p)"

text \<open>The dictionary of headers: a later header of the same name wins.\<close>

definition header :: "http_scope \<Rightarrow> string \<Rightarrow> string option" where
  "header sc name = map_of (rev (map (\<lambda>(k, v). (ascii_lower k, v)) (sc_headers sc))) name"

definition requires_authentication :: "access_policy \<Rightarrow> string \<Rightarrow> string \<Rightarrow> bool" where
  "requires_authentication pol meth path \<longleftrightarrow>
     (meth, path) \<in> set MUTATING_ENDPOINTS \<or>
     (meth = ''POST'' \<and> list_ex (\<lambda>x. prefix x path) MUTATING_PREFIXES) \<or>
     \<not> ap_loopback_only pol"

text \<open>\<open>str.partition(" ")\<close>.\<close>

definition partition_space :: "string \<Rightarrow> string \<times> string \<times> string" where
  "partition_space s =
     (let a = takeWhile (\<lambda>c. c \<noteq> CHR '' '') s; r = dropWhile (\<lambda>c. c \<noteq> CHR '' '') s
      in (a, take 1 r, drop 1 r))"

definition is_ascii :: "string \<Rightarrow> bool" where "is_ascii s \<longleftrightarrow> list_all (\<lambda>c. code c < 128) s"

text \<open>\<open>hmac.compare_digest\<close> on two strings.\<close>

definition compare_digest :: "string \<Rightarrow> string \<Rightarrow> exn + bool" where
  "compare_digest a b =
     (if is_ascii a \<and> is_ascii b then Inr (a = b)
      else Inl (TypeError ''comparing strings with non-ASCII characters is not supported''))"

text \<open>\<open>int(...)\<close> on bytes: surrounding whitespace, a sign, digits with single underscores between.\<close>

fun digit_groups :: "string \<Rightarrow> bool" where
  "digit_groups [] = False"
| "digit_groups [c] = is_digit c"
| "digit_groups (c # d # s) =
     (is_digit c \<and> (if d = CHR ''_'' then digit_groups s else digit_groups (d # s)))"

definition byte_space :: "char \<Rightarrow> bool" where "byte_space c \<longleftrightarrow> char_in c 9 13 \<or> code c = 32"

definition int_of_bytes :: "string \<Rightarrow> exn + int" where
  "int_of_bytes s =
     (let t = rev (dropWhile byte_space (rev (dropWhile byte_space s)));
          neg = (t \<noteq> [] \<and> hd t = CHR ''-'');
          u = (if t \<noteq> [] \<and> (hd t = CHR ''-'' \<or> hd t = CHR ''+'') then tl t else t);
          ds = filter is_digit u
      in if digit_groups u \<and> length ds \<le> 4300
         then Inr (if neg then - int (read_nat ds) else int (read_nat ds))
         else Inl (ValueError ''invalid literal for int()''))"

datatype verdict =
    Respond nat string
  | Proceed string
  | Crash exn

definition authenticate :: "access_policy \<Rightarrow> http_scope \<Rightarrow> verdict" where
  "authenticate pol sc =
     (if requires_authentication pol (scope_method sc) (scope_path sc) then
        (case ap_bearer_token pol of
           None \<Rightarrow> Respond 503 ''mutating API is disabled until a bearer token is configured''
         | Some secret \<Rightarrow>
             if secret = [] then Respond 503 ''mutating API is disabled until a bearer token is configured''
             else
               (let (scheme, separator, candidate) =
                      partition_space (case header sc ''authorization'' of None \<Rightarrow> [] | Some v \<Rightarrow> v)
                in if separator = [] \<or> lower scheme \<noteq> ''bearer''
                   then Respond 401 ''missing or invalid bearer token''
                   else (case compare_digest candidate secret of
                       Inl e \<Rightarrow> Crash e
                     | Inr ok \<Rightarrow> if ok then Proceed (ap_actor pol)
                                else Respond 401 ''missing or invalid bearer token'')))
      else Proceed ''loopback-read-only'')"

text \<open>The application: it answers, raises, or waits for the next message.\<close>

datatype message = HttpRequest string | OtherMessage string

datatype 'r app_process = Answer 'r | AppRaise exn | Receive "message \<Rightarrow> 'r app_process"

datatype 'r reply = Status nat string | Replied 'r | Raised exn | Waiting

fun body_length :: "message \<Rightarrow> nat" where
  "body_length (HttpRequest body) = length body"
| "body_length (OtherMessage _) = 0"

fun run_app :: "'r app_process \<Rightarrow> message list \<Rightarrow> 'r reply \<times> message list" where
  "run_app (Answer r) ms = (Replied r, [])"
| "run_app (AppRaise e) ms = (Raised e, [])"
| "run_app (Receive k) [] = (Waiting, [])"
| "run_app (Receive k) (m # ms) = apsnd (\<lambda>seen. m # seen) (run_app (k m) ms)"

text \<open>\<open>limited_receive\<close>: the message that exceeds the limit raises instead of being delivered.\<close>

fun run_limited :: "nat \<Rightarrow> 'r app_process \<Rightarrow> message list \<Rightarrow> 'r reply \<times> message list" where
  "run_limited used (Answer r) ms = (Replied r, [])"
| "run_limited used (AppRaise e) ms = (Raised e, [])"
| "run_limited used (Receive k) [] = (Waiting, [])"
| "run_limited used (Receive k) (m # ms) =
     (if used + body_length m > MAX_HTTP_BODY_BYTES
      then (Status 413 ''request body exceeds 16384 bytes'', [])
      else apsnd (\<lambda>seen. m # seen) (run_limited (used + body_length m) (k m) ms))"

definition declared_size :: "http_scope \<Rightarrow> int" where
  "declared_size sc =
     (case int_of_bytes (case header sc ''content-length'' of None \<Rightarrow> ''0'' | Some v \<Rightarrow> v) of
        Inl _ \<Rightarrow> int MAX_HTTP_BODY_BYTES + 1
      | Inr n \<Rightarrow> n)"

text \<open>
  \<open>HTTPAccessMiddleware.__call__\<close>. The application gets the actor put into the scope (none for a
  scope that is not HTTP); the second result lists the messages it received.
\<close>

definition middleware ::
    "access_policy \<Rightarrow> (string option \<Rightarrow> http_scope \<Rightarrow> 'r app_process) \<Rightarrow> http_scope \<Rightarrow> message list
       \<Rightarrow> 'r reply \<times> message list"
where
  "middleware pol app sc ms =
     (if sc_type sc \<noteq> ''http'' then run_app (app None sc) ms
      else case authenticate pol sc of
        Respond status detail \<Rightarrow> (Status status detail, [])
      | Crash e \<Rightarrow> (Raised e, [])
      | Proceed actor \<Rightarrow>
          if scope_method sc = ''POST'' \<and> scope_path sc = ''/events'' then
            if declared_size sc > int MAX_HTTP_BODY_BYTES
            then (Status 413 ''request body exceeds 16384 bytes'', [])
            else run_limited 0 (app (Some actor) sc) ms
          else run_app (app (Some actor) sc) ms)"

section \<open>Lemmas\<close>

lemma length_sanitize_text: "length (sanitize_text s) \<le> 500"
  by (simp add: sanitize_text_def Let_def)

text \<open>The characters without which no pattern matches.\<close>

definition redaction_trigger :: "char \<Rightarrow> bool" where
  "redaction_trigger c \<longleftrightarrow> is_space c \<or> quote_char c \<or> c \<in> set '':=/.''"

lemma needs_trigger:
  "needs redaction_trigger BEARER_PATTERN" "needs redaction_trigger JSON_CREDENTIAL_PATTERN"
  "needs redaction_trigger ASSIGNMENT_PATTERN" "needs redaction_trigger UNIX_HOME_PATTERN"
  "needs redaction_trigger WINDOWS_HOME_PATTERN" "needs redaction_trigger IPV4_PATTERN"
  by (simp_all add: BEARER_PATTERN_def JSON_CREDENTIAL_PATTERN_def ASSIGNMENT_PATTERN_def
      UNIX_HOME_PATTERN_def WINDOWS_HOME_PATTERN_def IPV4_PATTERN_def Plus_def Space_def
      redaction_trigger_def numeral_eq_Suc)

lemma sanitize_text_plain:
  assumes "\<forall>c \<in> set s. \<not> redaction_trigger c"
  shows "sanitize_text s = take 500 s"
  by (simp add: sanitize_text_def Let_def sub_unchanged[OF needs_trigger(1) assms]
      sub_unchanged[OF needs_trigger(2) assms] sub_unchanged[OF needs_trigger(3) assms]
      sub_unchanged[OF needs_trigger(4) assms] sub_unchanged[OF needs_trigger(5) assms]
      sub_unchanged[OF needs_trigger(6) assms])

lemma run_limited_bounded:
  "used \<le> MAX_HTTP_BODY_BYTES \<Longrightarrow>
   used + sum_list (map body_length (snd (run_limited used p ms))) \<le> MAX_HTTP_BODY_BYTES"
  by (induction used p ms rule: run_limited.induct) (auto simp: add.assoc)

lemma run_limited_transparent:
  "used + sum_list (map body_length ms) \<le> MAX_HTTP_BODY_BYTES \<Longrightarrow> run_limited used p ms = run_app p ms"
  by (induction used p ms rule: run_limited.induct) auto

text \<open>What a sanitised document may look like, at every depth.\<close>

function clean :: "string \<Rightarrow> json \<Rightarrow> bool" where
  "clean key w \<longleftrightarrow>
     (if is_sensitive_key key then w = JStr ''[REDACTED]''
      else case w of
        JObj kvs \<Rightarrow> list_all (\<lambda>kv. clean (fst kv) (snd kv)) kvs
      | JList js \<Rightarrow> length js \<le> 20 \<and> list_all (clean key) js
      | JStr s \<Rightarrow> length s \<le> 500
      | _ \<Rightarrow> True)"
  by pat_completeness auto

termination
proof (relation "measure (\<lambda>(k, v). size v)", goal_cases)
  case (2 key v js j)
  then show ?case using json_size_item by simp
next
  case (3 key v kvs kv)
  then show ?case using json_size_member by (simp add: case_prod_unfold)
qed simp

declare clean.simps [simp del]

lemma clean_sanitize: "clean key (sanitize key v)"
proof (induction key v rule: sanitize.induct)
  case (1 key v)
  then show ?case
    by (subst sanitize.simps, subst clean.simps)
       (auto simp: list_all_iff length_sanitize_text split: json.split)
qed

section \<open>Properties\<close>

text \<open>C20: Whatever metadata the store is handed, what it writes is clean: at every depth a value
  under a sensitive key is the redaction mark, lists have at most 20 items and strings at most 500
  characters.\<close>

theorem safe_metadata_clean: "clean [] (safe_metadata metadata)"
  unfolding safe_metadata_def by (rule clean_sanitize)

text \<open>Redaction changes a text only if it contains whitespace, a quotation mark, a colon, an
  equals sign, a slash or a dot; any other text is only cut at 500 characters. Identifiers, states
  and digests pass unchanged.\<close>

theorem sanitize_text_unchanged:
  assumes "\<forall>c \<in> set s. \<not> redaction_trigger c" and "length s \<le> 500"
  shows "sanitize_text s = s"
  using sanitize_text_plain[OF assms(1)] assms(2) by simp

theorem sanitize_text_unchanged_witness: "sanitize_text ''state_transition'' = ''state_transition''"
  by (rule sanitize_text_unchanged) code_simp+

text \<open>What the header of a request must say where authentication is required.\<close>

definition bears_token :: "string option \<Rightarrow> http_scope \<Rightarrow> bool" where
  "bears_token token sc \<longleftrightarrow>
     (\<exists>v scheme secret. token = Some secret \<and> secret \<noteq> [] \<and> header sc ''authorization'' = Some v \<and>
        partition_space v = (scheme, '' '', secret) \<and> lower scheme = ''bearer'')"

lemma partition_space_separator: "partition_space v = (a, sep, b) \<Longrightarrow> sep \<noteq> [] \<Longrightarrow> sep = '' ''"
  by (cases "dropWhile (\<lambda>c. c \<noteq> CHR '' '') v") (auto simp: partition_space_def Let_def dropWhile_eq_Cons_conv)

lemma authenticate_Proceed:
  assumes "authenticate pol sc = Proceed actor" and "requires_authentication pol (scope_method sc) (scope_path sc)"
  shows "bears_token (ap_bearer_token pol) sc \<and> actor = ap_actor pol"
proof -
  obtain secret where secret: "ap_bearer_token pol = Some secret" "secret \<noteq> []"
    using assms by (cases "ap_bearer_token pol") (auto simp: authenticate_def split: if_splits)
  obtain a sep b where p: "partition_space (case header sc ''authorization'' of None \<Rightarrow> [] | Some v \<Rightarrow> v) = (a, sep, b)"
    by (rule prod_cases3)
  have ok: "sep \<noteq> []" "lower a = ''bearer''" "compare_digest b secret = Inr True" "actor = ap_actor pol"
    using assms secret p by (auto simp: authenticate_def split: if_splits sum.splits)
  obtain v where v: "header sc ''authorization'' = Some v"
    using p ok(1) by (cases "header sc ''authorization''") (auto simp: partition_space_def)
  then have "partition_space v = (a, '' '', secret)"
    using p ok(1,3) partition_space_separator by (auto simp: compare_digest_def split: if_splits)
  then show ?thesis using secret v ok unfolding bears_token_def by blast
qed

lemma authenticate_exhaust:
  "authenticate pol sc \<in> range Proceed \<union>
     {Respond 503 ''mutating API is disabled until a bearer token is configured'', Respond 401 ''missing or invalid bearer token'',
      Crash (TypeError ''comparing strings with non-ASCII characters is not supported'')}"
  unfolding authenticate_def compare_digest_def by (simp split: option.split prod.split sum.split)

text \<open>A request that changes state reaches the application only with the configured bearer
  token: otherwise the answer is 503, 401 or the TypeError of \<open>compare_digest\<close>, whatever the
  application is, and the application receives nothing.\<close>

theorem mutation_needs_token:
  assumes "sc_type sc = ''http''"
    and "requires_authentication pol (scope_method sc) (scope_path sc)"
    and "\<nexists>v scheme secret. ap_bearer_token pol = Some secret \<and> secret \<noteq> [] \<and>
      header sc ''authorization'' = Some v \<and> partition_space v = (scheme, '' '', secret) \<and>
      lower scheme = ''bearer''"
  shows "fst (middleware pol app sc ms) \<in>
      {Status 503 ''mutating API is disabled until a bearer token is configured'',
       Status 401 ''missing or invalid bearer token'',
       Raised (TypeError ''comparing strings with non-ASCII characters is not supported'')} \<and>
    snd (middleware pol app sc ms) = []"
proof -
  have "authenticate pol sc \<noteq> Proceed actor" for actor
    using authenticate_Proceed[of pol sc actor] assms(2,3) unfolding bears_token_def by blast
  then show ?thesis using authenticate_exhaust[of pol sc] assms(1) by (auto simp: middleware_def)
qed

definition sample_policy :: access_policy where
  "sample_policy = \<lparr>ap_bearer_token = Some ''s3'', ap_loopback_only = True, ap_actor = ''operator''\<rparr>"

definition sample_scope :: "string \<Rightarrow> http_scope" where
  "sample_scope authorization =
     \<lparr>sc_type = ''http'', sc_method = Some ''post'', sc_path = Some ''/events'',
      sc_headers = [(''Authorization'', authorization)]\<rparr>"

theorem mutation_needs_token_witness:
  "snd (middleware sample_policy (\<lambda>_ _. Receive (\<lambda>_. Answer ())) (sample_scope ''Bearer s4'') [HttpRequest ''x'']) = [] \<and>
   middleware sample_policy (\<lambda>_ _. Receive (\<lambda>_. Answer ())) (sample_scope ''Bearer s3'') [HttpRequest ''x''] =
     (Replied (), [HttpRequest ''x''])"
proof
  have p: "partition_space ''Bearer s4'' = (''Bearer'', '' '', ''s4'')" by code_simp
  have h: "header (sample_scope ''Bearer s4'') ''authorization'' = Some ''Bearer s4''" by code_simp
  have t: "sc_type (sample_scope ''Bearer s4'') = ''http''" by (simp add: sample_scope_def)
  have r: "requires_authentication sample_policy (scope_method (sample_scope ''Bearer s4''))
      (scope_path (sample_scope ''Bearer s4''))" by code_simp
  have n: "\<nexists>v scheme secret. ap_bearer_token sample_policy = Some secret \<and> secret \<noteq> [] \<and>
      header (sample_scope ''Bearer s4'') ''authorization'' = Some v \<and>
      partition_space v = (scheme, '' '', secret) \<and> lower scheme = ''bearer''"
    by (simp add: p h sample_policy_def)
  show "snd (middleware sample_policy (\<lambda>_ _. Receive (\<lambda>_. Answer ())) (sample_scope ''Bearer s4'') [HttpRequest ''x'']) = []"
    using mutation_needs_token[OF t r n] by blast
  show "middleware sample_policy (\<lambda>_ _. Receive (\<lambda>_. Answer ())) (sample_scope ''Bearer s3'') [HttpRequest ''x''] =
     (Replied (), [HttpRequest ''x''])"
    by code_simp
qed

text \<open>C21: The application behind \<open>POST /events\<close> never receives more than 16384 bytes of body, and
  a request that declares and sends no more than that is handled as if there were no limit.\<close>

theorem event_body_bounded:
  assumes "sc_type sc = ''http''" and "scope_method sc = ''POST''" and "scope_path sc = ''/events''"
  shows "sum_list (map body_length (snd (middleware pol app sc ms))) \<le> 16384 \<and>
    (authenticate pol sc = Proceed actor \<and> declared_size sc \<le> 16384 \<and>
      sum_list (map body_length ms) \<le> 16384 \<longrightarrow>
      middleware pol app sc ms = run_app (app (Some actor) sc) ms)"
  using assms run_limited_bounded[of 0] run_limited_transparent[of 0 ms]
  by (auto simp: middleware_def MAX_HTTP_BODY_BYTES_def split: verdict.split)

theorem event_body_bounded_witness:
  "sum_list (map body_length (snd (middleware sample_policy (\<lambda>_ _. Receive (\<lambda>_. Answer ()))
     (sample_scope ''Bearer s3'') [HttpRequest ''xyz'']))) \<le> 16384 \<and>
   middleware sample_policy (\<lambda>_ _. Receive (\<lambda>_. Answer ())) (sample_scope ''Bearer s3'') [HttpRequest ''xyz''] =
     run_app (Receive (\<lambda>_. Answer ())) [HttpRequest ''xyz'']"
proof
  have a: "sc_type (sample_scope ''Bearer s3'') = ''http''"
      "scope_method (sample_scope ''Bearer s3'') = ''POST''"
      "scope_path (sample_scope ''Bearer s3'') = ''/events''"
      "authenticate sample_policy (sample_scope ''Bearer s3'') = Proceed ''operator''"
      "declared_size (sample_scope ''Bearer s3'') = 0"
    by code_simp+
  show "sum_list (map body_length (snd (middleware sample_policy (\<lambda>_ _. Receive (\<lambda>_. Answer ()))
     (sample_scope ''Bearer s3'') [HttpRequest ''xyz'']))) \<le> 16384"
    by (rule event_body_bounded[OF a(1-3), THEN conjunct1])
  show "middleware sample_policy (\<lambda>_ _. Receive (\<lambda>_. Answer ())) (sample_scope ''Bearer s3'') [HttpRequest ''xyz''] =
     run_app (Receive (\<lambda>_. Answer ())) [HttpRequest ''xyz'']"
    by (rule event_body_bounded[OF a(1-3), THEN conjunct2, rule_format]) (simp add: a(4,5))
qed

end
