(* ===== verification/Storage.thy ===== *)
theory Storage
  imports Security
begin

text \<open>
  \<open>storage.py\<close>: the tables of the SQLite store and its operations. An operation is a transaction:
  a body from the database to a result and a new database, whose changes are dropped when it
  raises. Rows are kept in insertion order; timestamps are the ISO strings the code stores and
  compares; a stored JSON text is the document with sorted keys (\<open>json.loads\<close> of what \<open>_json\<close>
  wrote). PRIMARY KEY, UNIQUE and REFERENCES are checked where rows are inserted.
\<close>

record run_row =
  r_id :: string
  r_key :: string
  r_payload_hash :: string
  r_event :: json
  r_trace_id :: string
  r_state :: run_state
  r_created_at :: string
  r_updated_at :: string

record proposal_row =
  p_id :: string
  p_run_id :: string
  p_revision :: int
  p_status :: proposal_state
  p_scenario :: scenario
  p_kind :: scenario_kind
  p_assessment :: json
  p_option :: json
  p_action_hash :: string
  p_expires_at :: string
  p_created_at :: string
  p_approved_hash :: "string option"

record audit_row =
  a_id :: nat
  a_trace_id :: string
  a_run_id :: string
  a_proposal_id :: "string option"
  a_event_type :: string
  a_metadata :: json
  a_occurred_at :: string

record db =
  runs :: "run_row list"
  proposals :: "proposal_row list"
  audit :: "audit_row list"
  next_audit :: nat

text \<open>The tables after the schema is created; \<open>AUTOINCREMENT\<close> counts from 1.\<close>

definition empty_db :: db where
  "empty_db = \<lparr>runs = [], proposals = [], audit = [], next_audit = 1\<rparr>"

text \<open>\<open>_transaction\<close>: commit on success, roll back and re-raise otherwise.\<close>

definition transaction :: "(db \<Rightarrow> exn + ('a \<times> db)) \<Rightarrow> db \<Rightarrow> (exn + 'a) \<times> db" where
  "transaction body d =
     (case body d of Inl e \<Rightarrow> (Inl e, d) | Inr (x, d') \<Rightarrow> (Inr x, d'))"

section \<open>Rows\<close>

definition find_run :: "string \<Rightarrow> db \<Rightarrow> run_row option" where
  "find_run k d = select_one r_id k (runs d)"

definition find_proposal :: "string \<Rightarrow> db \<Rightarrow> proposal_row option" where
  "find_proposal k d = select_one p_id k (proposals d)"

text \<open>\<open>UPDATE ... WHERE id = ? AND state = ?\<close> with its row count.\<close>

definition run_at :: "string \<Rightarrow> run_state \<Rightarrow> run_row \<Rightarrow> bool" where
  "run_at k s r \<longleftrightarrow> r_id r = k \<and> r_state r = s"

definition set_run_state :: "string \<Rightarrow> run_state \<Rightarrow> run_state \<Rightarrow> string \<Rightarrow> db \<Rightarrow> nat \<times> db" where
  "set_run_state k expected new_state now d =
     (count_where (run_at k expected) (runs d),
      d\<lparr>runs := update_where (run_at k expected)
                  (\<lambda>r. r\<lparr>r_state := new_state, r_updated_at := now\<rparr>) (runs d)\<rparr>)"

definition proposal_at :: "string \<Rightarrow> proposal_state \<Rightarrow> proposal_row \<Rightarrow> bool" where
  "proposal_at k s p \<longleftrightarrow> p_id p = k \<and> p_status p = s"

definition update_proposal ::
    "string \<Rightarrow> proposal_state \<Rightarrow> (proposal_row \<Rightarrow> proposal_row) \<Rightarrow> db \<Rightarrow> nat \<times> db" where
  "update_proposal k expected f d =
     (count_where (proposal_at k expected) (proposals d),
      d\<lparr>proposals := update_where (proposal_at k expected) f (proposals d)\<rparr>)"

record audit_entry =
  e_trace_id :: string
  e_run_id :: string
  e_proposal_id :: "string option"
  e_event_type :: string
  e_metadata :: "(string \<times> json) list"
  e_occurred_at :: string

definition insert_audit :: "audit_entry \<Rightarrow> db \<Rightarrow> exn + db" where
  "insert_audit e d =
     (if find_run (e_run_id e) d = None then Inl IntegrityError
      else Inr (d\<lparr>audit := audit d @
        [\<lparr>a_id = next_audit d, a_trace_id = e_trace_id e, a_run_id = e_run_id e,
          a_proposal_id = e_proposal_id e, a_event_type = e_event_type e,
          a_metadata = canon (safe_metadata (e_metadata e)), a_occurred_at = e_occurred_at e\<rparr>],
        next_audit := Suc (next_audit d)\<rparr>))"

text \<open>The entry every change of a run's state writes.\<close>

definition state_transition ::
    "string \<Rightarrow> string \<Rightarrow> string option \<Rightarrow> run_state \<Rightarrow> run_state \<Rightarrow> string \<Rightarrow> string \<Rightarrow> string \<Rightarrow> audit_entry"
where
  "state_transition trace_id run_id proposal_id from_state to_state reason actor now =
     \<lparr>e_trace_id = trace_id, e_run_id = run_id, e_proposal_id = proposal_id,
      e_event_type = ''state_transition'',
      e_metadata = [(''from'', JStr (run_state_value from_state)),
        (''to'', JStr (run_state_value to_state)), (''reason'', JStr reason), (''actor'', JStr actor)],
      e_occurred_at = now\<rparr>"

section \<open>Runs\<close>

text \<open>
  \<open>create_or_get_run\<close>: the row is inserted, or the run with the same idempotency key is returned
  when its payload hash is the same. The flag says whether the run is new.
\<close>

definition create_or_get_run_body ::
    "run_row \<Rightarrow> audit_entry \<Rightarrow> db \<Rightarrow> exn + ((run_row \<times> bool) \<times> db)" where
  "create_or_get_run_body row entry d =
     (if find_run (r_id row) d \<noteq> None \<or> select_one r_key (r_key row) (runs d) \<noteq> None
      then (case select_one r_key (r_key row) (runs d) of
              None \<Rightarrow> Inl IntegrityError
            | Some existing \<Rightarrow>
                if r_payload_hash existing \<noteq> r_payload_hash row
                then Inl (IdempotencyConflict ''idempotency key belongs to a different normalized event'')
                else Inr ((existing, False), d))
      else bindE (insert_audit entry (d\<lparr>runs := runs d @ [row\<lparr>r_event := canon (r_event row)\<rparr>]\<rparr>))
             (\<lambda>d'. Inr ((row, True), d')))"

definition create_or_get_run ::
    "run_row \<Rightarrow> audit_entry \<Rightarrow> db \<Rightarrow> (exn + (run_row \<times> bool)) \<times> db" where
  "create_or_get_run row entry = transaction (create_or_get_run_body row entry)"

definition transition_run_body ::
    "string \<Rightarrow> run_state \<Rightarrow> run_state \<Rightarrow> string \<Rightarrow> string \<Rightarrow> string \<Rightarrow> string \<Rightarrow> string option \<Rightarrow> db \<Rightarrow> exn + (unit \<times> db)"
where
  "transition_run_body run_id expected new_state now trace_id reason actor proposal_id d =
     (let (updated, d1) = set_run_state run_id expected new_state now d in
      if updated \<noteq> 1
      then Inl (StoreConflict (''run is not in expected state '' @ run_state_value expected))
      else bindE (insert_audit (state_transition trace_id run_id proposal_id expected new_state reason actor now) d1)
             (\<lambda>d2. Inr ((), d2)))"

definition transition_run ::
    "string \<Rightarrow> run_state \<Rightarrow> run_state \<Rightarrow> string \<Rightarrow> string \<Rightarrow> string \<Rightarrow> string \<Rightarrow> string option \<Rightarrow> db \<Rightarrow> (exn + unit) \<times> db"
where
  "transition_run run_id expected new_state now trace_id reason actor proposal_id =
     transaction (transition_run_body run_id expected new_state now trace_id reason actor proposal_id)"

section \<open>Proposals\<close>

text \<open>The dictionary of a new proposal, without its run and status.\<close>

record proposal_draft =
  np_id :: string
  np_revision :: int
  np_scenario :: scenario
  np_kind :: scenario_kind
  np_assessment :: json
  np_option :: json
  np_action_hash :: string
  np_expires_at :: string
  np_created_at :: string

definition insert_proposal :: "proposal_draft \<Rightarrow> string \<Rightarrow> proposal_state \<Rightarrow> db \<Rightarrow> exn + db" where
  "insert_proposal n run_id status d =
     (if find_proposal (np_id n) d \<noteq> None \<or>
         list_ex (\<lambda>p. p_run_id p = run_id \<and> p_revision p = np_revision n) (proposals d) \<or>
         find_run run_id d = None
      then Inl IntegrityError
      else Inr (d\<lparr>proposals := proposals d @
        [\<lparr>p_id = np_id n, p_run_id = run_id, p_revision = np_revision n, p_status = status,
          p_scenario = np_scenario n, p_kind = np_kind n, p_assessment = canon (np_assessment n),
          p_option = canon (np_option n), p_action_hash = np_action_hash n,
          p_expires_at = np_expires_at n, p_created_at = np_created_at n, p_approved_hash = None\<rparr>]\<rparr>))"

text \<open>\<open>row["option"]["action_id"]\<close>.\<close>

definition option_action_id :: "json \<Rightarrow> exn + json" where
  "option_action_id j =
     (case j of
        JObj kvs \<Rightarrow> (case map_of kvs ''action_id'' of None \<Rightarrow> Inl (KeyError ''action_id'') | Some v \<Rightarrow> Inr v)
      | _ \<Rightarrow> Inl (TypeError ''not subscriptable''))"

definition create_proposal_body ::
    "proposal_draft \<Rightarrow> string \<Rightarrow> proposal_state \<Rightarrow> string \<Rightarrow> string \<Rightarrow> string \<Rightarrow> int \<Rightarrow> db \<Rightarrow> exn + (unit \<times> db)"
where
  "create_proposal_body n run_id status now trace_id actor latency_ms d =
     bindE (insert_proposal n run_id status d) (\<lambda>d1.
     (let (updated, d2) = set_run_state run_id ASSESSED PROPOSED now d1 in
      if updated \<noteq> 1 then Inl (StoreConflict ''run is not assessed'')
      else
        bindE (insert_audit (state_transition trace_id run_id (Some (np_id n)) ASSESSED PROPOSED
                 ''remediation proposal created'' actor now) d2) (\<lambda>d3.
        bindE (option_action_id (np_option n)) (\<lambda>action_id.
        bindE (insert_audit
                 \<lparr>e_trace_id = trace_id, e_run_id = run_id, e_proposal_id = Some (np_id n),
                  e_event_type = ''proposal_created'',
                  e_metadata = [(''revision'', JInt (np_revision n)),
                    (''scenario'', JStr (scenario_value (np_scenario n))),
                    (''scenario_kind'', JStr (kind_value (np_kind n))),
                    (''action_id'', action_id), (''action_hash'', JStr (np_action_hash n)),
                    (''expires_at'', JStr (np_expires_at n)),
                    (''event_to_proposal_latency_ms'', JInt latency_ms), (''actor'', JStr actor)],
                  e_occurred_at = now\<rparr> d3) (\<lambda>d4. Inr ((), d4))))))"

definition create_proposal_and_transition ::
    "proposal_draft \<Rightarrow> string \<Rightarrow> proposal_state \<Rightarrow> string \<Rightarrow> string \<Rightarrow> string \<Rightarrow> int \<Rightarrow> db \<Rightarrow> (exn + unit) \<times> db"
where
  "create_proposal_and_transition n run_id status now trace_id actor latency_ms =
     transaction (create_proposal_body n run_id status now trace_id actor latency_ms)"

text \<open>\<open>_expire_locked\<close>, inside the transaction of its caller.\<close>

definition expire_locked ::
    "proposal_row \<Rightarrow> run_row \<Rightarrow> string \<Rightarrow> string \<Rightarrow> string \<Rightarrow> db \<Rightarrow> exn + db" where
  "expire_locked p r now actor reason d =
     (if p_status p \<notin> {P_PROPOSED, P_APPROVED}
      then Inl (StoreConflict ''proposal cannot expire from its current state'')
      else
        let (proposal_updated, d1) =
              update_proposal (p_id p) (p_status p) (\<lambda>q. q\<lparr>p_status := P_EXPIRED\<rparr>) d;
            (run_updated, d2) = set_run_state (r_id r) (r_state r) EXPIRED now d1
        in if proposal_updated \<noteq> 1 \<or> run_updated \<noteq> 1
           then Inl (StoreConflict ''proposal expiration lost a concurrent update'')
           else
             bindE (insert_audit (state_transition (r_trace_id r) (r_id r) (Some (p_id p))
                      (r_state r) EXPIRED reason actor now) d2) (\<lambda>d3.
             insert_audit
               \<lparr>e_trace_id = r_trace_id r, e_run_id = r_id r, e_proposal_id = Some (p_id p),
                e_event_type = ''proposal_expired'',
                e_metadata = [(''revision'', JInt (p_revision p)), (''reason'', JStr reason),
                  (''retained'', JBool True), (''actor'', JStr actor)],
                e_occurred_at = now\<rparr> d3))"

text \<open>The branch of \<open>decide_proposal\<close> that replaces the proposal by a new revision.\<close>

definition revise_locked ::
    "proposal_row \<Rightarrow> run_row \<Rightarrow> int \<Rightarrow> string \<Rightarrow> string \<Rightarrow> proposal_draft option \<Rightarrow> db
       \<Rightarrow> exn + ((string \<times> string) \<times> db)"
where
  "revise_locked p r revision now actor new_proposal d =
     (case new_proposal of
        None \<Rightarrow> Inl (ValueError ''revision requires a replacement proposal'')
      | Some n \<Rightarrow>
          let (updated, d1) =
                update_proposal (p_id p) P_PROPOSED (\<lambda>q. q\<lparr>p_status := P_SUPERSEDED\<rparr>) d
          in if updated \<noteq> 1 then Inl (StoreConflict ''proposal revision lost a concurrent decision'')
             else
               bindE (insert_proposal n (p_run_id p) P_PROPOSED d1) (\<lambda>d2.
               (let (_, d3) = set_run_state (p_run_id p) PROPOSED PROPOSED now d2 in
                bindE (insert_audit
                  \<lparr>e_trace_id = r_trace_id r, e_run_id = p_run_id p, e_proposal_id = Some (np_id n),
                   e_event_type = ''proposal_revised'',
                   e_metadata = [(''from_revision'', JInt revision),
                     (''to_revision'', JInt (np_revision n)),
                     (''action_hash'', JStr (np_action_hash n)), (''actor'', JStr actor)],
                   e_occurred_at = now\<rparr> d3) (\<lambda>d4.
                Inr ((p_run_id p, ''revised''), d4)))))"

text \<open>The branch of \<open>decide_proposal\<close> that approves or rejects.\<close>

definition settle_locked ::
    "proposal_row \<Rightarrow> run_row \<Rightarrow> int \<Rightarrow> string \<Rightarrow> decision \<Rightarrow> string \<Rightarrow> string \<Rightarrow> rat \<Rightarrow> db
       \<Rightarrow> exn + ((string \<times> string) \<times> db)"
where
  "settle_locked p r revision digest dec now actor approval_wait d =
     (let approved = (dec = APPROVE);
          status = (if approved then P_APPROVED else P_REJECTED);
          state = (if approved then APPROVED else REJECTED);
          (updated, d1) = update_proposal (p_id p) P_PROPOSED
            (\<lambda>q. q\<lparr>p_status := status, p_approved_hash := (if approved then Some digest else None)\<rparr>) d
      in if updated \<noteq> 1 then Inl (StoreConflict ''proposal decision lost a concurrent update'')
         else
           let (run_updated, d2) = set_run_state (p_run_id p) PROPOSED state now d1
           in if run_updated \<noteq> 1 then Inl (StoreConflict ''run decision lost a concurrent update'')
              else
                bindE (insert_audit (state_transition (r_trace_id r) (p_run_id p) (Some (p_id p))
                         PROPOSED state (''human decision: '' @ decision_value dec) actor now) d2) (\<lambda>d3.
                bindE (insert_audit
                  \<lparr>e_trace_id = r_trace_id r, e_run_id = p_run_id p, e_proposal_id = Some (p_id p),
                   e_event_type = ''approval_decision'',
                   e_metadata = [(''decision'', JStr (decision_value dec)), (''revision'', JInt revision),
                     (''action_hash'', JStr digest), (''approval_wait_seconds'', JFloat approval_wait),
                     (''actor'', JStr actor)],
                   e_occurred_at = now\<rparr> d3) (\<lambda>d4.
                Inr ((p_run_id p, run_state_value state), d4))))"

definition decide_proposal_body ::
    "string \<Rightarrow> int \<Rightarrow> string \<Rightarrow> decision \<Rightarrow> string \<Rightarrow> string \<Rightarrow> rat \<Rightarrow> proposal_draft option \<Rightarrow> db
       \<Rightarrow> exn + ((string \<times> string) \<times> db)"
where
  "decide_proposal_body proposal_id revision digest dec now actor approval_wait new_proposal d =
     (case find_proposal proposal_id d of
        None \<Rightarrow> Inl (StoreNotFound ''proposal not found'')
      | Some p \<Rightarrow>
          (case find_run (p_run_id p) d of
             None \<Rightarrow> Inl AssertionError
           | Some r \<Rightarrow>
               if p_revision p \<noteq> revision \<or> p_action_hash p \<noteq> digest
               then Inl (StoreConflict ''decision does not bind to the current revision and action hash'')
               else if p_status p \<noteq> P_PROPOSED \<or> r_state r \<noteq> PROPOSED
               then Inl (StoreConflict (''proposal is '' @ proposal_state_value (p_status p) @ '', not proposed''))
               else if p_expires_at p \<le> now
               then bindE (expire_locked p r now actor ''approval_ttl_elapsed'' d)
                      (\<lambda>d'. Inr ((p_run_id p, ''expired''), d'))
               else if dec = REVISE then revise_locked p r revision now actor new_proposal d
               else settle_locked p r revision digest dec now actor approval_wait d))"

definition decide_proposal ::
    "string \<Rightarrow> int \<Rightarrow> string \<Rightarrow> decision \<Rightarrow> string \<Rightarrow> string \<Rightarrow> rat \<Rightarrow> proposal_draft option \<Rightarrow> db
       \<Rightarrow> (exn + (string \<times> string)) \<times> db"
where
  "decide_proposal proposal_id revision digest dec now actor approval_wait new_proposal =
     transaction (decide_proposal_body proposal_id revision digest dec now actor approval_wait new_proposal)"

text \<open>\<open>claim_execution\<close> returns the claim and the proposal as it was before the claim.\<close>

datatype claim = Claim_expired | Claimed proposal_row

definition claim_execution_body ::
    "string \<Rightarrow> string \<Rightarrow> string \<Rightarrow> string \<Rightarrow> db \<Rightarrow> exn + (claim \<times> db)" where
  "claim_execution_body proposal_id expected_digest now actor d =
     (case find_proposal proposal_id d of
        None \<Rightarrow> Inl (StoreNotFound ''proposal not found'')
      | Some p \<Rightarrow>
          (case find_run (p_run_id p) d of
             None \<Rightarrow> Inl AssertionError
           | Some r \<Rightarrow>
               if p_status p \<noteq> P_APPROVED \<or> r_state r \<noteq> APPROVED
               then Inl (StoreConflict ''only an approved proposal can enter execution'')
               else if p_action_hash p \<noteq> expected_digest \<or> p_approved_hash p \<noteq> Some expected_digest
               then Inl (StoreConflict ''approved action hash does not match the proposal'')
               else if p_expires_at p \<le> now
               then bindE (expire_locked p r now actor ''expired_before_execution'' d)
                      (\<lambda>d'. Inr (Claim_expired, d'))
               else
                 let (proposal_updated, d1) = update_proposal proposal_id P_APPROVED
                       (\<lambda>q. q\<lparr>p_status := P_EXECUTING\<rparr>) d;
                     (run_updated, d2) = set_run_state (p_run_id p) APPROVED EXECUTING now d1
                 in if proposal_updated \<noteq> 1 \<or> run_updated \<noteq> 1
                    then Inl (StoreConflict ''proposal execution claim lost a concurrent update'')
                    else bindE (insert_audit (state_transition (r_trace_id r) (p_run_id p)
                                  (Some proposal_id) APPROVED EXECUTING
                                  ''execution atomically claimed'' actor now) d2)
                           (\<lambda>d3. Inr (Claimed p, d3))))"

definition claim_execution ::
    "string \<Rightarrow> string \<Rightarrow> string \<Rightarrow> string \<Rightarrow> db \<Rightarrow> (exn + claim) \<times> db" where
  "claim_execution proposal_id expected_digest now actor =
     transaction (claim_execution_body proposal_id expected_digest now actor)"

definition finalize_execution_body ::
    "string \<Rightarrow> bool \<Rightarrow> string \<Rightarrow> string \<Rightarrow> (string \<times> json) list \<Rightarrow> db \<Rightarrow> exn + (string \<times> db)" where
  "finalize_execution_body proposal_id success now actor result_metadata d =
     (let status = (if success then P_SUCCEEDED else P_FAILED);
          state = (if success then SUCCEEDED else FAILED)
      in case find_proposal proposal_id d of
        None \<Rightarrow> Inl (StoreNotFound ''proposal not found'')
      | Some p \<Rightarrow>
          (case find_run (p_run_id p) d of
             None \<Rightarrow> Inl AssertionError
           | Some r \<Rightarrow>
               let (proposal_updated, d1) = update_proposal proposal_id P_EXECUTING
                     (\<lambda>q. q\<lparr>p_status := status\<rparr>) d;
                   (run_updated, d2) = set_run_state (p_run_id p) EXECUTING state now d1
               in if proposal_updated \<noteq> 1 \<or> run_updated \<noteq> 1
                  then Inl (StoreConflict ''execution finalization lost its claim'')
                  else
                    bindE (insert_audit (state_transition (r_trace_id r) (p_run_id p)
                             (Some proposal_id) EXECUTING state
                             (if success then ''remediation completed'' else ''remediation failed'')
                             actor now) d2) (\<lambda>d3.
                    bindE (insert_audit
                      \<lparr>e_trace_id = r_trace_id r, e_run_id = p_run_id p,
                       e_proposal_id = Some proposal_id, e_event_type = ''execution_result'',
                       e_metadata = filter (\<lambda>kv. fst kv \<noteq> ''actor'') result_metadata @
                         [(''actor'', JStr actor)],
                       e_occurred_at = now\<rparr> d3) (\<lambda>d4.
                    Inr (p_run_id p, d4)))))"

definition finalize_execution ::
    "string \<Rightarrow> bool \<Rightarrow> string \<Rightarrow> string \<Rightarrow> (string \<times> json) list \<Rightarrow> db \<Rightarrow> (exn + string) \<times> db" where
  "finalize_execution proposal_id success now actor result_metadata =
     transaction (finalize_execution_body proposal_id success now actor result_metadata)"

section \<open>Expiry and failure\<close>

definition is_due :: "string \<Rightarrow> proposal_row \<Rightarrow> bool" where
  "is_due now p \<longleftrightarrow> p_status p \<in> {P_PROPOSED, P_APPROVED} \<and> p_expires_at p \<le> now"

text \<open>The loop over the rows selected before it started.\<close>

fun expire_loop :: "string \<Rightarrow> string \<Rightarrow> proposal_row list \<Rightarrow> nat \<Rightarrow> db \<Rightarrow> exn + (nat \<times> db)" where
  "expire_loop now actor [] count d = Inr (count, d)"
| "expire_loop now actor (p # ps) count d =
     (case find_run (p_run_id p) d of
        None \<Rightarrow> expire_loop now actor ps count d
      | Some r \<Rightarrow>
          if r_state r \<notin> {PROPOSED, APPROVED} then expire_loop now actor ps count d
          else bindE (expire_locked p r now actor ''ttl_elapsed'' d)
                 (\<lambda>d'. expire_loop now actor ps (Suc count) d'))"

definition expire_due :: "string \<Rightarrow> string \<Rightarrow> db \<Rightarrow> (exn + nat) \<times> db" where
  "expire_due now actor =
     transaction (\<lambda>d. expire_loop now actor (sort_key p_created_at (filter (is_due now) (proposals d))) 0 d)"

definition terminal :: "run_state \<Rightarrow> bool" where
  "terminal s \<longleftrightarrow> s \<in> {SUCCEEDED, FAILED, REJECTED, EXPIRED}"

definition fail_run_body :: "string \<Rightarrow> string \<Rightarrow> string \<Rightarrow> string \<Rightarrow> db \<Rightarrow> exn + (unit \<times> db)" where
  "fail_run_body run_id now actor reason d =
     (case find_run run_id d of
        None \<Rightarrow> Inr ((), d)
      | Some r \<Rightarrow>
          if terminal (r_state r) then Inr ((), d)
          else
            let (_, d1) = set_run_state run_id (r_state r) FAILED now d in
            bindE (insert_audit (state_transition (r_trace_id r) run_id None (r_state r) FAILED
                     ''workflow exception'' actor now) d1) (\<lambda>d2.
            bindE (insert_audit
              \<lparr>e_trace_id = r_trace_id r, e_run_id = run_id, e_proposal_id = None,
               e_event_type = ''run_failed'',
               e_metadata = [(''failure_reason_code'', JStr reason), (''actor'', JStr actor)],
               e_occurred_at = now\<rparr> d2) (\<lambda>d3. Inr ((), d3))))"

definition fail_run :: "string \<Rightarrow> string \<Rightarrow> string \<Rightarrow> string \<Rightarrow> db \<Rightarrow> (exn + unit) \<times> db" where
  "fail_run run_id now actor reason = transaction (fail_run_body run_id now actor reason)"

definition create_audit :: "audit_entry \<Rightarrow> db \<Rightarrow> (exn + unit) \<times> db" where
  "create_audit entry = transaction (\<lambda>d. bindE (insert_audit entry d) (\<lambda>d'. Inr ((), d')))"

section \<open>Queries\<close>

definition find_by_idempotency :: "string \<Rightarrow> db \<Rightarrow> run_row option" where
  "find_by_idempotency k d = select_one r_key k (runs d)"

text \<open>\<open>ORDER BY revision DESC LIMIT 1\<close>.\<close>

definition latest_proposal :: "string \<Rightarrow> db \<Rightarrow> proposal_row option" where
  "latest_proposal run_id d =
     (case sort_key (\<lambda>p. - p_revision p) (filter (\<lambda>p. p_run_id p = run_id) (proposals d)) of
        [] \<Rightarrow> None | p # _ \<Rightarrow> Some p)"

definition list_audit :: "string \<Rightarrow> db \<Rightarrow> audit_row list" where
  "list_audit run_id d = sort_key a_id (filter (\<lambda>a. a_run_id a = run_id) (audit d))"

end
