(* ===== verification/StoreInvariant.thy ===== *)
theory StoreInvariant
  imports Storage
begin

text \<open>
  The invariant of the store. Keys are unique and references resolve; the proposals of a run are
  its revisions 1, 2, ..., all superseded but the last, whose status is the run's state; an
  approved hash is the hash of the row; audit identifiers count from 1; and the state of every run
  is where the \<open>state_transition\<close> rows of its audit trail lead from \<open>received\<close> along the edges of
  the lifecycle. Every operation preserves it.
\<close>

section \<open>Lifecycle\<close>

fun edge :: "run_state \<Rightarrow> run_state \<Rightarrow> bool" where
  "edge RECEIVED t = (t \<in> {INVESTIGATING, FAILED})"
| "edge INVESTIGATING t = (t \<in> {ASSESSED, FAILED})"
| "edge ASSESSED t = (t \<in> {PROPOSED, FAILED})"
| "edge PROPOSED t = (t \<in> {APPROVED, REJECTED, EXPIRED, FAILED})"
| "edge APPROVED t = (t \<in> {EXECUTING, EXPIRED, FAILED})"
| "edge EXECUTING t = (t \<in> {SUCCEEDED, FAILED})"
| "edge _ t = False"

lemma terminal_no_edge: "terminal s \<longleftrightarrow> (\<forall>t. \<not> edge s t)"
  by (cases s) (auto simp: terminal_def)

text \<open>The status of the live proposal of a run in a given state.\<close>

fun status_fits :: "proposal_state \<Rightarrow> run_state \<Rightarrow> bool" where
  "status_fits P_PROPOSED s = (s \<in> {PROPOSED, FAILED})"
| "status_fits P_APPROVED s = (s \<in> {APPROVED, FAILED})"
| "status_fits P_EXECUTING s = (s \<in> {EXECUTING, FAILED})"
| "status_fits P_REJECTED s = (s = REJECTED)"
| "status_fits P_EXPIRED s = (s = EXPIRED)"
| "status_fits P_SUCCEEDED s = (s = SUCCEEDED)"
| "status_fits P_FAILED s = (s = FAILED)"
| "status_fits P_SUPERSEDED s = False"

definition proposals_of :: "string \<Rightarrow> proposal_row list \<Rightarrow> proposal_row list" where
  "proposals_of k ps = filter (\<lambda>p. p_run_id p = k) ps"

definition coherent :: "run_state \<Rightarrow> proposal_row list \<Rightarrow> bool" where
  "coherent s ps \<longleftrightarrow>
     (if ps = [] then s \<in> {RECEIVED, INVESTIGATING, ASSESSED, FAILED}
      else list_all (\<lambda>p. p_status p = P_SUPERSEDED) (butlast ps) \<and>
        status_fits (p_status (last ps)) s \<and> map p_revision ps = [1..int (length ps)])"

definition approved_ok :: "proposal_row \<Rightarrow> bool" where
  "approved_ok p \<longleftrightarrow>
     (case p_approved_hash p of
        None \<Rightarrow> p_status p \<in> {P_PROPOSED, P_REJECTED, P_EXPIRED, P_SUPERSEDED}
      | Some h \<Rightarrow> h = p_action_hash p \<and>
          p_status p \<in> {P_APPROVED, P_EXECUTING, P_SUCCEEDED, P_FAILED, P_EXPIRED})"

section \<open>The trail\<close>

definition transition_of :: "audit_row \<Rightarrow> json option \<times> json option" where
  "transition_of a =
     (case a_metadata a of JObj kvs \<Rightarrow> (map_of kvs ''from'', map_of kvs ''to'') | _ \<Rightarrow> (None, None))"

definition trail :: "string \<Rightarrow> audit_row list \<Rightarrow> (json option \<times> json option) list" where
  "trail k as =
     map transition_of (filter (\<lambda>a. a_run_id a = k \<and> a_event_type a = ''state_transition'') as)"

definition state_json :: "run_state \<Rightarrow> json option" where
  "state_json s = Some (JStr (run_state_value s))"

fun follows :: "run_state \<Rightarrow> (json option \<times> json option) list \<Rightarrow> run_state \<Rightarrow> bool" where
  "follows s [] t = (s = t)"
| "follows s ((f, g) # xs) t =
     (f = state_json s \<and> (\<exists>u. g = state_json u \<and> edge s u \<and> follows u xs t))"

section \<open>The invariant\<close>

definition keys_ok :: "db \<Rightarrow> bool" where
  "keys_ok d \<longleftrightarrow> distinct (map r_id (runs d)) \<and> distinct (map r_key (runs d)) \<and>
     distinct (map p_id (proposals d)) \<and> p_run_id ` set (proposals d) \<subseteq> r_id ` set (runs d)"

definition links_ok :: "db \<Rightarrow> bool" where
  "links_ok d \<longleftrightarrow>
     (\<forall>r \<in> set (runs d). coherent (r_state r) (proposals_of (r_id r) (proposals d))) \<and>
     (\<forall>p \<in> set (proposals d). approved_ok p)"

definition audit_ok :: "db \<Rightarrow> bool" where
  "audit_ok d \<longleftrightarrow> map a_id (audit d) = [1..<next_audit d] \<and> 1 \<le> next_audit d \<and>
     a_run_id ` set (audit d) \<subseteq> r_id ` set (runs d) \<and>
     (\<forall>r \<in> set (runs d). follows RECEIVED (trail (r_id r) (audit d)) (r_state r))"

definition db_inv :: "db \<Rightarrow> bool" where
  "db_inv d \<longleftrightarrow> keys_ok d \<and> links_ok d \<and> audit_ok d"

lemma db_inv_empty: "db_inv empty_db"
  by (simp add: db_inv_def keys_ok_def links_ok_def audit_ok_def empty_db_def)

lemma state_json_inj [simp]: "state_json s = state_json t \<longleftrightarrow> s = t"
  by (simp add: state_json_def)

lemma follows_append: "follows s (xs @ ys) t \<longleftrightarrow> (\<exists>u. follows s xs u \<and> follows u ys t)"
  by (induction s xs t rule: follows.induct) auto

lemma follows_unique: "follows s xs t \<Longrightarrow> follows s xs u \<Longrightarrow> t = u"
  by (induction s xs t rule: follows.induct) auto

section \<open>What the primitives do\<close>

definition add_audit :: "audit_entry \<Rightarrow> db \<Rightarrow> db" where
  "add_audit e d = d\<lparr>audit := audit d @
        [\<lparr>a_id = next_audit d, a_trace_id = e_trace_id e, a_run_id = e_run_id e,
          a_proposal_id = e_proposal_id e, a_event_type = e_event_type e,
          a_metadata = canon (safe_metadata (e_metadata e)), a_occurred_at = e_occurred_at e\<rparr>],
        next_audit := Suc (next_audit d)\<rparr>"

lemma insert_audit_eq:
  "insert_audit e d = (if find_run (e_run_id e) d = None then Inl IntegrityError else Inr (add_audit e d))"
  by (simp add: insert_audit_def add_audit_def)

definition put_run :: "string \<Rightarrow> run_state \<Rightarrow> run_state \<Rightarrow> string \<Rightarrow> db \<Rightarrow> db" where
  "put_run k s s' now d = snd (set_run_state k s s' now d)"

definition put_proposals :: "proposal_row list \<Rightarrow> db \<Rightarrow> db" where
  "put_proposals ps d = d\<lparr>proposals := ps\<rparr>"

definition changed :: "proposal_row \<Rightarrow> (proposal_row \<Rightarrow> proposal_row) \<Rightarrow> db \<Rightarrow> proposal_row list" where
  "changed p f d = update_where (proposal_at (p_id p) (p_status p)) f (proposals d)"

lemma db_fields [simp]:
  "runs (add_audit e d) = runs d" "proposals (add_audit e d) = proposals d"
  "next_audit (add_audit e d) = Suc (next_audit d)"
  "runs (put_proposals ps d) = runs d" "proposals (put_proposals ps d) = ps"
  "audit (put_proposals ps d) = audit d" "next_audit (put_proposals ps d) = next_audit d"
  "proposals (put_run k s s' now d) = proposals d" "audit (put_run k s s' now d) = audit d"
  "next_audit (put_run k s s' now d) = next_audit d"
  by (simp_all add: add_audit_def put_proposals_def put_run_def set_run_state_def)

lemma find_run_fields [simp]:
  "find_run k (add_audit e d) = find_run k d" "find_run k (put_proposals ps d) = find_run k d"
  by (simp_all add: find_run_def)

lemma runs_put_run:
  "runs (put_run k s s' now d) =
     update_where (run_at k s) (\<lambda>r. r\<lparr>r_state := s', r_updated_at := now\<rparr>) (runs d)"
  by (simp add: put_run_def set_run_state_def)

lemma r_id_put_run [simp]: "map r_id (runs (put_run k s s' now d)) = map r_id (runs d)"
  by (simp add: runs_put_run map_update_where)

lemma r_key_put_run [simp]: "map r_key (runs (put_run k s s' now d)) = map r_key (runs d)"
  by (simp add: runs_put_run map_update_where)

lemma r_ids_put_run [simp]: "r_id ` set (runs (put_run k s s' now d)) = r_id ` set (runs d)"
  by (metis list.set_map r_id_put_run)

lemma find_run_put_run:
  "find_run j (put_run k s s' now d) =
     map_option (\<lambda>r. if run_at k s r then r\<lparr>r_state := s', r_updated_at := now\<rparr> else r) (find_run j d)"
  by (simp add: find_run_def runs_put_run select_one_update_where)

lemma find_run_SomeD: "find_run k d = Some r \<Longrightarrow> r \<in> set (runs d) \<and> r_id r = k"
  by (auto simp: find_run_def)

lemma find_proposal_SomeD: "find_proposal k d = Some p \<Longrightarrow> p \<in> set (proposals d) \<and> p_id p = k"
  by (auto simp: find_proposal_def)

lemma find_run_None_iff: "find_run k d = None \<longleftrightarrow> k \<notin> r_id ` set (runs d)"
  by (simp add: find_run_def select_one_None_iff)

lemma find_proposal_None_iff: "find_proposal k d = None \<longleftrightarrow> k \<notin> p_id ` set (proposals d)"
  by (simp add: find_proposal_def select_one_None_iff)

lemma find_run_in: "keys_ok d \<Longrightarrow> r \<in> set (runs d) \<Longrightarrow> find_run (r_id r) d = Some r"
  by (simp add: find_run_def keys_ok_def select_one_distinct)

lemma find_proposal_in: "keys_ok d \<Longrightarrow> p \<in> set (proposals d) \<Longrightarrow> find_proposal (p_id p) d = Some p"
  by (simp add: find_proposal_def keys_ok_def select_one_distinct)

lemma find_run_of_proposal:
  assumes "keys_ok d" and "p \<in> set (proposals d)"
  obtains r where "find_run (p_run_id p) d = Some r"
  using assms by (cases "find_run (p_run_id p) d") (auto simp: find_run_None_iff keys_ok_def)

lemma keys_ok_ids: "keys_ok d \<Longrightarrow> p \<in> set (proposals d) \<Longrightarrow> q \<in> set (proposals d) \<Longrightarrow> p_id p = p_id q \<Longrightarrow> p = q"
  by (metis find_proposal_in option.inject)

lemma count_run:
  assumes "keys_ok d"
  shows "fst (set_run_state k s s' now d) =
    (case find_run k d of None \<Rightarrow> 0 | Some r \<Rightarrow> if r_state r = s then 1 else 0)"
  using assms
  by (simp add: set_run_state_def run_at_def[abs_def] find_run_def keys_ok_def count_where_key)

lemma count_proposal:
  assumes "keys_ok d"
  shows "fst (update_proposal k s f d) =
    (case find_proposal k d of None \<Rightarrow> 0 | Some p \<Rightarrow> if p_status p = s then 1 else 0)"
  using assms
  by (simp add: update_proposal_def proposal_at_def[abs_def] find_proposal_def keys_ok_def count_where_key)

text \<open>Reading the pair of a row count and the updated tables.\<close>

lemma case_set_run_state:
  "(case set_run_state k s s' now d of (n, d1) \<Rightarrow> F n d1) =
     F (fst (set_run_state k s s' now d)) (put_run k s s' now d)"
  by (simp add: put_run_def case_prod_unfold)

lemma case_update_proposal:
  "(case update_proposal (p_id p) (p_status p) f d of (n, d1) \<Rightarrow> F n d1) =
     F (fst (update_proposal (p_id p) (p_status p) f d)) (put_proposals (changed p f d) d)"
  by (simp add: update_proposal_def put_proposals_def changed_def)

section \<open>The transition rows\<close>

lemma sanitize_state [simp]: "sanitize_text (run_state_value s) = run_state_value s"
proof -
  have "list_all (\<lambda>t. list_all (\<lambda>c. \<not> redaction_trigger c) (run_state_value t))
      [RECEIVED, INVESTIGATING, ASSESSED, PROPOSED, APPROVED, REJECTED, EXPIRED, EXECUTING, SUCCEEDED, FAILED]"
    by code_simp
  then have "\<forall>c \<in> set (run_state_value s). \<not> redaction_trigger c"
    by (cases s) (simp_all only: list.pred_inject list_all_iff[symmetric])
  moreover have "length (run_state_value s) \<le> 500" by (cases s) simp_all
  ultimately show ?thesis using sanitize_text_plain by simp
qed

lemma plain_keys:
  "\<not> is_sensitive_key []" "\<not> is_sensitive_key ''from''" "\<not> is_sensitive_key ''to''"
  "\<not> is_sensitive_key ''reason''" "\<not> is_sensitive_key ''actor''"
  by code_simp+

lemma transition_metadata:
  "canon (safe_metadata (e_metadata (state_transition tr k pid s t reason actor now))) =
     JObj (sort_key fst (map (map_prod id canon)
       [(''from'', JStr (run_state_value s)), (''to'', JStr (run_state_value t)),
        (''reason'', JStr (sanitize_text reason)), (''actor'', JStr (sanitize_text actor))]))"
  by (simp add: safe_metadata_def state_transition_def sanitize.simps plain_keys del: sort_key_simps)

lemma state_transition_fields [simp]:
  "e_run_id (state_transition tr k pid s t reason actor now) = k"
  "e_event_type (state_transition tr k pid s t reason actor now) = ''state_transition''"
  "e_trace_id (state_transition tr k pid s t reason actor now) = tr"
  "e_proposal_id (state_transition tr k pid s t reason actor now) = pid"
  by (simp_all add: state_transition_def)

lemma trail_append [simp]: "trail k (as @ bs) = trail k as @ trail k bs"
  by (simp add: trail_def)

lemma trail_transition:
  "trail j (audit (add_audit (state_transition tr k pid s t reason actor now) d)) =
     trail j (audit d) @ (if j = k then [(state_json s, state_json t)] else [])"
proof -
  let ?kvs = "[(''from'', JStr (run_state_value s)), (''to'', JStr (run_state_value t)),
        (''reason'', JStr (sanitize_text reason)), (''actor'', JStr (sanitize_text actor))]"
  have look: "map_of (sort_key fst (map (map_prod id canon) ?kvs)) x = map_option canon (map_of ?kvs x)"
    for x by (rule map_of_canon_fields) simp
  have "transition_of a = (state_json s, state_json t)"
    if "a_metadata a = JObj (sort_key fst (map (map_prod id canon) ?kvs))" for a
    unfolding transition_of_def that json.case look by (simp add: state_json_def)
  then show ?thesis by (simp add: add_audit_def trail_def transition_metadata)
qed

lemma trail_note:
  "e_event_type e \<noteq> ''state_transition'' \<Longrightarrow> trail j (audit (add_audit e d)) = trail j (audit d)"
  by (simp add: add_audit_def trail_def)

section \<open>Preservation by the primitives\<close>

lemma keys_ok_simps [simp]:
  "keys_ok (add_audit e d) = keys_ok d" "keys_ok (put_run k s s' now d) = keys_ok d"
  by (simp_all add: keys_ok_def)

lemma audit_ids_snoc:
  "map a_id (audit d) = [1..<next_audit d] \<Longrightarrow> 1 \<le> next_audit d \<Longrightarrow>
   map a_id (audit (add_audit e d)) = [1..<next_audit (add_audit e d)]"
  by (simp add: add_audit_def)

lemma a_run_ids_add [simp]:
  "a_run_id ` set (audit (add_audit e d)) = insert (e_run_id e) (a_run_id ` set (audit d))"
  by (auto simp: add_audit_def)

text \<open>A row of another kind is only noted.\<close>

lemma note_inv:
  assumes "db_inv d" and "find_run (e_run_id e) d \<noteq> None" and "e_event_type e \<noteq> ''state_transition''"
  shows "db_inv (add_audit e d)"
  using assms audit_ids_snoc[of d e]
  by (auto simp: db_inv_def links_ok_def audit_ok_def trail_note find_run_None_iff)

text \<open>What new proposals must satisfy for a run to move to a state.\<close>

definition fits :: "string \<Rightarrow> run_state \<Rightarrow> proposal_row list \<Rightarrow> db \<Rightarrow> bool" where
  "fits k s ps d \<longleftrightarrow>
     distinct (map p_id ps) \<and> p_run_id ` set ps \<subseteq> r_id ` set (runs d) \<and> (\<forall>p \<in> set ps. approved_ok p) \<and>
     coherent s (proposals_of k ps) \<and>
     (\<forall>j. j \<noteq> k \<longrightarrow> proposals_of j ps = proposals_of j (proposals d))"

lemma put_run_member:
  assumes "keys_ok d" and "find_run k d = Some r" and "q \<in> set (runs (put_run k (r_state r) s' now d))"
  shows "(q = r\<lparr>r_state := s', r_updated_at := now\<rparr>) \<or> (q \<in> set (runs d) \<and> r_id q \<noteq> k)"
proof -
  from assms(3) obtain q' where q': "q' \<in> set (runs d)"
    "q = (if run_at k (r_state r) q' then q'\<lparr>r_state := s', r_updated_at := now\<rparr> else q')"
    by (auto simp: runs_put_run update_where_def)
  show ?thesis
  proof (cases "r_id q' = k")
    case True
    with assms(1,2) q'(1) find_run_in[of d q'] have "q' = r" by simp
    with q'(2) True show ?thesis by (simp add: run_at_def)
  next
    case False
    with q' show ?thesis by (simp add: run_at_def)
  qed
qed

lemma moved_links:
  assumes "keys_ok d" and "links_ok d" and "find_run k d = Some r" and "fits k s' ps d"
  shows "links_ok (put_run k (r_state r) s' now (put_proposals ps d))"
  unfolding links_ok_def
proof (intro conjI ballI)
  fix q assume "q \<in> set (runs (put_run k (r_state r) s' now (put_proposals ps d)))"
  moreover have "runs (put_run k (r_state r) s' now (put_proposals ps d)) = runs (put_run k (r_state r) s' now d)"
    by (simp add: runs_put_run)
  ultimately have "(q = r\<lparr>r_state := s', r_updated_at := now\<rparr>) \<or> (q \<in> set (runs d) \<and> r_id q \<noteq> k)"
    using put_run_member[OF assms(1,3)] by simp
  moreover have "r_id r = k" using find_run_SomeD[OF assms(3)] by simp
  ultimately show "coherent (r_state q)
      (proposals_of (r_id q) (proposals (put_run k (r_state r) s' now (put_proposals ps d))))"
    using assms(2,4) by (auto simp: links_ok_def fits_def)
qed (use assms(4) in \<open>auto simp: fits_def\<close>)

lemma moved_keys:
  "keys_ok d \<Longrightarrow> fits k s ps d \<Longrightarrow> keys_ok (put_proposals ps d)"
  by (simp add: keys_ok_def fits_def)

text \<open>A run moves along an edge and the move is written to its trail.\<close>

lemma moved_inv:
  assumes inv: "db_inv d" and r: "find_run k d = Some r" and e: "edge (r_state r) s'"
    and f: "fits k s' ps d"
  shows "db_inv (add_audit (state_transition tr k pid (r_state r) s' reason actor now')
           (put_run k (r_state r) s' now (put_proposals ps d)))"
    (is "db_inv ?d")
proof -
  let ?e = "state_transition tr k pid (r_state r) s' reason actor now'"
  let ?m = "put_run k (r_state r) s' now (put_proposals ps d)"
  have k: "keys_ok d" "links_ok d" "audit_ok d" using inv by (simp_all add: db_inv_def)
  have rk: "r \<in> set (runs d)" "r_id r = k" using find_run_SomeD[OF r] by simp_all
  have "keys_ok ?d" using moved_keys[OF k(1) f] by simp
  moreover have "links_ok ?d" using moved_links[OF k(1,2) r f] by (simp add: links_ok_def)
  moreover have "audit_ok ?d"
    unfolding audit_ok_def
  proof (intro conjI ballI)
    show "map a_id (audit ?d) = [1..<next_audit ?d]"
      by (rule audit_ids_snoc) (use k(3) in \<open>simp_all add: audit_ok_def\<close>)
    show "1 \<le> next_audit ?d" by simp
    show "a_run_id ` set (audit ?d) \<subseteq> r_id ` set (runs ?d)"
      using k(3) rk by (auto simp: audit_ok_def)
  next
    fix q assume "q \<in> set (runs ?d)"
    then have "q \<in> set (runs (put_run k (r_state r) s' now d))" by (simp add: runs_put_run)
    from put_run_member[OF k(1) r this]
    show "follows RECEIVED (trail (r_id q) (audit ?d)) (r_state q)"
    proof
      assume q: "q = r\<lparr>r_state := s', r_updated_at := now\<rparr>"
      have "follows RECEIVED (trail k (audit d)) (r_state r)" using k(3) rk by (auto simp: audit_ok_def)
      then show ?thesis using e by (auto simp: q rk trail_transition follows_append)
    next
      assume "q \<in> set (runs d) \<and> r_id q \<noteq> k"
      then show ?thesis using k(3) by (simp add: trail_transition audit_ok_def)
    qed
  qed
  ultimately show ?thesis by (simp add: db_inv_def)
qed

text \<open>A run that keeps its state while its proposals change.\<close>

lemma kept_inv:
  assumes inv: "db_inv d" and r: "find_run k d = Some r" and f: "fits k (r_state r) ps d"
  shows "db_inv (put_run k (r_state r) (r_state r) now (put_proposals ps d))" (is "db_inv ?d")
proof -
  have k: "keys_ok d" "links_ok d" "audit_ok d" using inv by (simp_all add: db_inv_def)
  have rk: "r \<in> set (runs d)" "r_id r = k" using find_run_SomeD[OF r] by simp_all
  have "follows RECEIVED (trail (r_id q) (audit d)) (r_state q)" if "q \<in> set (runs ?d)" for q
  proof -
    from that have "q \<in> set (runs (put_run k (r_state r) (r_state r) now d))" by (simp add: runs_put_run)
    from put_run_member[OF k(1) r this] show ?thesis using k(3) rk by (auto simp: audit_ok_def)
  qed
  then have "audit_ok ?d" using k(3) by (simp add: audit_ok_def)
  moreover have "keys_ok ?d" using moved_keys[OF k(1) f] by simp
  moreover have "links_ok ?d" by (rule moved_links[OF k(1,2) r f])
  ultimately show ?thesis by (simp add: db_inv_def)
qed

section \<open>Changing and adding proposals\<close>

lemma proposals_of_append [simp]: "proposals_of k (ps @ qs) = proposals_of k ps @ proposals_of k qs"
  by (simp add: proposals_of_def)

lemma proposals_of_single [simp]: "proposals_of k [p] = (if p_run_id p = k then [p] else [])"
  by (simp add: proposals_of_def)

lemma live_last:
  assumes "coherent s ps" and "p \<in> set ps" and "p_status p \<noteq> P_SUPERSEDED"
  shows "ps = butlast ps @ [p] \<and> p \<notin> set (butlast ps) \<and> status_fits (p_status p) s"
proof (cases ps rule: rev_cases)
  case (snoc os q)
  have os: "list_all (\<lambda>p. p_status p = P_SUPERSEDED) os" and q: "status_fits (p_status q) s"
    using assms(1) by (simp_all add: coherent_def snoc)
  from os assms(3) have p: "p \<notin> set os" by (auto simp: list_all_iff)
  with assms(2) have "q = p" by (simp add: snoc)
  with p q show ?thesis by (simp add: snoc)
qed (use assms(2) in simp)

lemma changed_eq:
  assumes "keys_ok d" and "p \<in> set (proposals d)"
  shows "changed p f d = map (\<lambda>q. if q = p then f p else q) (proposals d)"
  using assms keys_ok_ids[OF assms(1) _ assms(2)]
  by (auto simp: changed_def update_where_def proposal_at_def)

lemma live_fits:
  assumes "db_inv d" and "p \<in> set (proposals d)" and "find_run (p_run_id p) d = Some r"
  shows "coherent (r_state r) (proposals_of (p_run_id p) (proposals d))"
    and "p_status p \<noteq> P_SUPERSEDED \<Longrightarrow> status_fits (p_status p) (r_state r)"
proof -
  show c: "coherent (r_state r) (proposals_of (p_run_id p) (proposals d))"
    using assms(1) find_run_SomeD[OF assms(3)] by (auto simp: db_inv_def links_ok_def)
  assume "p_status p \<noteq> P_SUPERSEDED"
  with live_last[OF c, of p] assms(2) show "status_fits (p_status p) (r_state r)"
    by (simp add: proposals_of_def)
qed

lemma proposals_of_map:
  assumes "p_run_id (f p) = p_run_id p"
  shows "proposals_of j (map (\<lambda>q. if q = p then f p else q) ps) =
    map (\<lambda>q. if q = p then f p else q) (proposals_of j ps)"
  using assms by (induction ps) (auto simp: proposals_of_def)

lemma fits_changed:
  assumes inv: "db_inv d" and p: "p \<in> set (proposals d)" and r: "find_run (p_run_id p) d = Some r"
    and live: "p_status p \<noteq> P_SUPERSEDED"
    and f: "p_id (f p) = p_id p" "p_run_id (f p) = p_run_id p" "p_revision (f p) = p_revision p"
    and s: "status_fits (p_status (f p)) s'" and a: "approved_ok (f p)"
  shows "fits (p_run_id p) s' (changed p f d) d"
proof -
  let ?g = "\<lambda>q. if q = p then f p else q"
  let ?k = "p_run_id p"
  have k: "keys_ok d" "links_ok d" using inv by (simp_all add: db_inv_def)
  note ch = changed_eq[OF k(1) p, of f]
  note of = proposals_of_map[of f p, OF f(2)]
  have other: "map ?g (proposals_of j (proposals d)) = proposals_of j (proposals d)" if "j \<noteq> ?k" for j
    using that by (auto simp: proposals_of_def intro: map_idI)
  let ?ps = "proposals_of ?k (proposals d)"
  have c: "coherent (r_state r) ?ps" by (rule live_fits(1)[OF inv p r])
  have "p \<in> set ?ps" using p by (simp add: proposals_of_def)
  note last = live_last[OF c this live]
  then have "map ?g ?ps = map ?g (butlast ?ps @ [p])" by (rule conjunct1[THEN arg_cong])
  then have "map ?g ?ps = map ?g (butlast ?ps) @ [f p]" by simp
  moreover have "map ?g (butlast ?ps) = butlast ?ps" using last by (intro map_idI) auto
  ultimately have new: "map ?g ?ps = butlast ?ps @ [f p]" by simp
  have rev: "map p_revision (butlast ?ps @ [p]) = [1..int (length (butlast ?ps @ [p]))]"
    and old: "list_all (\<lambda>p. p_status p = P_SUPERSEDED) (butlast ?ps)"
    using c last by (auto simp: coherent_def split: if_splits)
  have "coherent s' (map ?g ?ps)"
    using rev old s f(3) unfolding new by (simp add: coherent_def)
  moreover have "map p_id (map ?g (proposals d)) = map p_id (proposals d)" using f(1) by simp
  then have "distinct (map p_id (map ?g (proposals d)))" using k(1) unfolding keys_ok_def by metis
  moreover have "p_run_id ` set (map ?g (proposals d)) \<subseteq> p_run_id ` set (proposals d)"
    using f(2) p by auto
  then have "p_run_id ` set (map ?g (proposals d)) \<subseteq> r_id ` set (runs d)"
    by (rule subset_trans) (use k(1) in \<open>simp add: keys_ok_def\<close>)
  moreover have "\<forall>q \<in> set (map ?g (proposals d)). approved_ok q"
    using k(2) a by (auto simp: links_ok_def)
  ultimately show ?thesis unfolding fits_def ch of using other by blast
qed

text \<open>A new proposal of the run, after the ones already there.\<close>

definition new_row :: "proposal_draft \<Rightarrow> string \<Rightarrow> proposal_state \<Rightarrow> proposal_row" where
  "new_row n k s =
     \<lparr>p_id = np_id n, p_run_id = k, p_revision = np_revision n, p_status = s,
      p_scenario = np_scenario n, p_kind = np_kind n, p_assessment = canon (np_assessment n),
      p_option = canon (np_option n), p_action_hash = np_action_hash n,
      p_expires_at = np_expires_at n, p_created_at = np_created_at n, p_approved_hash = None\<rparr>"

lemma insert_proposal_Inr:
  "insert_proposal n k s d = Inr d' \<longleftrightarrow>
     np_id n \<notin> p_id ` set (proposals d) \<and> k \<in> r_id ` set (runs d) \<and>
     (\<forall>p \<in> set (proposals d). \<not> (p_run_id p = k \<and> p_revision p = np_revision n)) \<and>
     d' = put_proposals (proposals d @ [new_row n k s]) d"
  by (auto simp: insert_proposal_def find_proposal_None_iff find_run_None_iff list_ex_iff
      put_proposals_def new_row_def split: if_splits)

lemma coherent_extend:
  assumes "\<forall>p \<in> set ps. p_status p = P_SUPERSEDED" and "map p_revision ps = [1..int (length ps)]"
    and "p_revision q = int (length ps) + 1" and "status_fits (p_status q) s"
  shows "coherent s (ps @ [q])"
proof -
  have "[1..int (length ps) + 1] = [1..int (length ps)] @ [int (length ps) + 1]"
    by (simp add: upto_rec2)
  with assms show ?thesis by (simp add: coherent_def list_all_iff add.commute)
qed

lemma coherent_revisions:
  assumes "coherent s (ps @ [p])"
  shows "map p_revision (ps @ [p]) = [1..int (length (ps @ [p]))] \<and> p_revision p = int (length ps) + 1"
proof -
  have *: "map p_revision (ps @ [p]) = [1..int (length (ps @ [p]))]"
    using assms by (simp add: coherent_def)
  have "[1..int (length ps) + 1] = [1..int (length ps)] @ [int (length ps) + 1]"
    by (simp add: upto_rec2)
  with * show ?thesis by (simp add: add.commute)
qed

section \<open>Preservation by the operations\<close>

lemma put_proposals_same [simp]: "put_proposals (proposals d) d = d"
  by (simp add: put_proposals_def)

lemma fits_same:
  assumes inv: "db_inv d" and r: "find_run k d = Some r"
    and s: "(\<forall>t. status_fits t (r_state r) \<longrightarrow> status_fits t s')"
      "r_state r \<in> {RECEIVED, INVESTIGATING, ASSESSED, FAILED} \<longrightarrow> s' \<in> {RECEIVED, INVESTIGATING, ASSESSED, FAILED}"
  shows "fits k s' (proposals d) d"
proof -
  have "coherent (r_state r) (proposals_of k (proposals d))"
    using inv find_run_SomeD[OF r] by (auto simp: db_inv_def links_ok_def)
  with s have "coherent s' (proposals_of k (proposals d))"
    by (auto simp: coherent_def split: if_splits)
  with inv show ?thesis by (auto simp: fits_def db_inv_def keys_ok_def links_ok_def)
qed

lemma transition_run_body_inv:
  assumes inv: "db_inv d" and ok: "transition_run_body k s s' now tr reason actor pid d = Inr (u, d')"
    and e: "(s, s') \<in> {(RECEIVED, INVESTIGATING), (INVESTIGATING, ASSESSED)}"
  shows "db_inv d'"
proof -
  have k: "keys_ok d" using inv by (simp add: db_inv_def)
  from ok obtain r where r: "find_run k d = Some r" "r_state r = s"
    by (auto simp: transition_run_body_def case_set_run_state count_run[OF k]
        split: option.splits if_splits)
  have d': "d' = add_audit (state_transition tr k pid s s' reason actor now) (put_run k s s' now d)"
    using ok r by (simp add: transition_run_body_def case_set_run_state
        count_run[OF k] insert_audit_eq find_run_put_run)
  have "fits k s' (proposals d) d"
    by (rule fits_same[OF inv r(1)]) (use e r(2) in \<open>auto elim!: status_fits.elims\<close>)
  from moved_inv[OF inv r(1) _ this] e r(2) show ?thesis by (auto simp: d')
qed

lemma fail_run_body_inv:
  assumes inv: "db_inv d" and ok: "fail_run_body k now actor reason d = Inr (u, d')"
  shows "db_inv d'"
proof (cases "d' = d")
  case False
  with ok obtain r where r: "find_run k d = Some r" "\<not> terminal (r_state r)"
    by (auto simp: fail_run_body_def split: option.splits if_splits)
  let ?m = "add_audit (state_transition (r_trace_id r) k None (r_state r) FAILED ''workflow exception'' actor now)
              (put_run k (r_state r) FAILED now d)"
  have d': "d' = add_audit
      \<lparr>e_trace_id = r_trace_id r, e_run_id = k, e_proposal_id = None, e_event_type = ''run_failed'',
       e_metadata = [(''failure_reason_code'', JStr reason), (''actor'', JStr actor)],
       e_occurred_at = now\<rparr> ?m"
    using ok r by (simp add: fail_run_body_def case_set_run_state insert_audit_eq
        find_run_put_run)
  have "status_fits t (r_state r) \<longrightarrow> status_fits t FAILED" for t
    using r(2) by (cases t; cases "r_state r") (auto simp: terminal_def)
  then have f: "fits k FAILED (proposals d) d" by (intro fits_same[OF inv r(1)]) auto
  have "edge (r_state r) FAILED" using r(2) by (cases "r_state r") (auto simp: terminal_def)
  from moved_inv[OF inv r(1) this f] have "db_inv ?m" by simp
  then show ?thesis unfolding d' by (rule note_inv) (simp_all add: find_run_put_run r)
qed (use inv in simp)

lemma create_or_get_run_body_inv:
  assumes inv: "db_inv d" and ok: "create_or_get_run_body row e d = Inr (x, d')"
    and row: "r_state row = RECEIVED" "e_run_id e = r_id row" "e_event_type e \<noteq> ''state_transition''"
  shows "db_inv d'"
proof (cases "d' = d")
  case False
  let ?row = "row\<lparr>r_event := canon (r_event row)\<rparr>"
  let ?m = "d\<lparr>runs := runs d @ [?row]\<rparr>"
  from ok False have new: "find_run (r_id row) d = None" "select_one r_key (r_key row) (runs d) = None"
    by (auto simp: create_or_get_run_body_def split: option.splits if_splits)
  have there: "find_run (r_id row) ?m \<noteq> None" using new(1) by (simp add: find_run_def)
  have d': "d' = add_audit e ?m"
    using ok new there row(2) by (auto simp: create_or_get_run_body_def insert_audit_eq)
  have fresh: "r_id row \<notin> r_id ` set (runs d)" "r_key row \<notin> r_key ` set (runs d)"
    using new by (simp_all add: find_run_None_iff select_one_None_iff)
  have k: "p_run_id ` set (proposals d) \<subseteq> r_id ` set (runs d)" "a_run_id ` set (audit d) \<subseteq> r_id ` set (runs d)"
    using inv unfolding db_inv_def keys_ok_def audit_ok_def by blast+
  from k(1) fresh(1) have "\<forall>p \<in> set (proposals d). p_run_id p \<noteq> r_id row" by (metis image_subset_iff)
  moreover from k(2) fresh(1) have "\<forall>a \<in> set (audit d). a_run_id a \<noteq> r_id row" by (metis image_subset_iff)
  ultimately have none: "proposals_of (r_id row) (proposals d) = []" "trail (r_id row) (audit d) = []"
    by (simp_all add: proposals_of_def trail_def)
  have "keys_ok ?m" using inv fresh by (auto simp: db_inv_def keys_ok_def)
  moreover have "links_ok ?m" using inv none row(1) by (auto simp: db_inv_def links_ok_def coherent_def)
  moreover have "audit_ok ?m" using inv none row(1) by (auto simp: db_inv_def audit_ok_def)
  ultimately have "db_inv ?m" by (simp add: db_inv_def)
  then show ?thesis unfolding d' by (rule note_inv) (use there row in simp_all)
qed (use inv in simp)

lemma create_audit_inv:
  assumes "db_inv d" and "insert_audit e d = Inr d'" and "e_event_type e \<noteq> ''state_transition''"
  shows "db_inv d'"
  using assms note_inv[of d e] by (auto simp: insert_audit_eq split: if_splits)

section \<open>Expiry\<close>

lemma fst_set_run_put [simp]:
  "fst (set_run_state k s s' now (put_proposals ps d)) = fst (set_run_state k s s' now d)"
  by (simp add: set_run_state_def put_proposals_def)

lemma count_live:
  assumes "keys_ok d" and "p \<in> set (proposals d)"
  shows "fst (update_proposal (p_id p) (p_status p) f d) = 1"
  using assms by (simp add: count_proposal find_proposal_in)

lemma count_current:
  assumes "keys_ok d" and "find_run k d = Some r"
  shows "fst (set_run_state k (r_state r) s' now d) = 1"
  using assms by (simp add: count_run)

text \<open>One proposal changes and its run follows: the shape of every decision, claim and expiry.\<close>

definition move_both ::
    "proposal_row \<Rightarrow> run_row \<Rightarrow> (proposal_row \<Rightarrow> proposal_row) \<Rightarrow> run_state \<Rightarrow> string \<Rightarrow> string \<Rightarrow> string \<Rightarrow> db \<Rightarrow> db"
where
  "move_both p r f s' reason actor now d =
     add_audit (state_transition (r_trace_id r) (p_run_id p) (Some (p_id p)) (r_state r) s' reason actor now)
       (put_run (p_run_id p) (r_state r) s' now (put_proposals (changed p f d) d))"

lemma move_both_inv:
  assumes "db_inv d" and "p \<in> set (proposals d)" and "find_run (p_run_id p) d = Some r"
    and "p_status p \<noteq> P_SUPERSEDED"
    and "p_id (f p) = p_id p" "p_run_id (f p) = p_run_id p" "p_revision (f p) = p_revision p"
    and "status_fits (p_status (f p)) s'" and "approved_ok (f p)" and "edge (r_state r) s'"
  shows "db_inv (move_both p r f s' reason actor now d)"
  unfolding move_both_def
  by (rule moved_inv[OF assms(1,3,10)]) (rule fits_changed[where f = f, OF assms(1-9)])

lemma move_both_fields [simp]:
  "proposals (move_both p r f s' reason actor now d) = changed p f d"
  "runs (move_both p r f s' reason actor now d) = runs (put_run (p_run_id p) (r_state r) s' now d)"
  "find_run k (move_both p r f s' reason actor now d) = find_run k (put_run (p_run_id p) (r_state r) s' now d)"
  by (simp_all add: move_both_def runs_put_run find_run_put_run)

lemma find_run_moved:
  assumes "find_run k d = Some r"
  shows "find_run k (put_run k (r_state r) s' now d) = Some (r\<lparr>r_state := s', r_updated_at := now\<rparr>)"
    and "find_run j (put_run k (r_state r) s' now d) \<noteq> None \<longleftrightarrow> find_run j d \<noteq> None"
    and "j \<noteq> k \<Longrightarrow> find_run j (put_run k s s' now d) = find_run j d"
proof -
  show "find_run k (put_run k (r_state r) s' now d) = Some (r\<lparr>r_state := s', r_updated_at := now\<rparr>)"
    using assms find_run_SomeD[OF assms] by (simp add: find_run_put_run run_at_def)
  show "find_run j (put_run k (r_state r) s' now d) \<noteq> None \<longleftrightarrow> find_run j d \<noteq> None"
    by (simp add: find_run_put_run)
  assume "j \<noteq> k"
  then show "find_run j (put_run k s s' now d) = find_run j d"
    by (cases "find_run j d") (auto simp: find_run_put_run run_at_def dest: find_run_SomeD)
qed

definition expire_row :: "proposal_row \<Rightarrow> proposal_row" where
  "expire_row q = q\<lparr>p_status := P_EXPIRED\<rparr>"

definition expired_db :: "proposal_row \<Rightarrow> run_row \<Rightarrow> string \<Rightarrow> string \<Rightarrow> string \<Rightarrow> db \<Rightarrow> db" where
  "expired_db p r now actor reason d =
     add_audit
       \<lparr>e_trace_id = r_trace_id r, e_run_id = r_id r, e_proposal_id = Some (p_id p),
        e_event_type = ''proposal_expired'',
        e_metadata = [(''revision'', JInt (p_revision p)), (''reason'', JStr reason),
          (''retained'', JBool True), (''actor'', JStr actor)],
        e_occurred_at = now\<rparr>
       (move_both p r expire_row EXPIRED reason actor now d)"

text \<open>Under the invariant \<open>_expire_locked\<close> never raises on a live proposal of a waiting run.\<close>

lemma expire_locked_eq:
  assumes inv: "db_inv d" and p: "p \<in> set (proposals d)" and r: "find_run (p_run_id p) d = Some r"
    and s: "p_status p \<in> {P_PROPOSED, P_APPROVED}"
  shows "expire_locked p r now actor reason d = Inr (expired_db p r now actor reason d)"
proof -
  have k: "keys_ok d" using inv by (simp add: db_inv_def)
  have rid: "r_id r = p_run_id p" using find_run_SomeD[OF r] by simp
  show ?thesis
    using s r
    by (simp add: expire_locked_def Let_def case_update_proposal case_set_run_state count_live[OF k p]
        rid count_current[OF k r] insert_audit_eq find_run_moved(2)[OF r] find_run_put_run
        expired_db_def move_both_def expire_row_def[abs_def])
qed

lemma expired_db_inv:
  assumes inv: "db_inv d" and p: "p \<in> set (proposals d)" and r: "find_run (p_run_id p) d = Some r"
    and s: "p_status p \<in> {P_PROPOSED, P_APPROVED}" and rs: "r_state r \<in> {PROPOSED, APPROVED}"
  shows "db_inv (expired_db p r now actor reason d)"
  unfolding expired_db_def
proof (rule note_inv)
  have "approved_ok p" using inv p by (auto simp: db_inv_def links_ok_def)
  then have "approved_ok (expire_row p)" by (auto simp: approved_ok_def expire_row_def split: option.splits)
  with s rs show "db_inv (move_both p r expire_row EXPIRED reason actor now d)"
    by (intro move_both_inv[OF inv p r]) (auto simp: expire_row_def)
  show "find_run (e_run_id
      \<lparr>e_trace_id = r_trace_id r, e_run_id = r_id r, e_proposal_id = Some (p_id p),
        e_event_type = ''proposal_expired'',
        e_metadata = [(''revision'', JInt (p_revision p)), (''reason'', JStr reason),
          (''retained'', JBool True), (''actor'', JStr actor)],
        e_occurred_at = now\<rparr>) (move_both p r expire_row EXPIRED reason actor now d) \<noteq> None"
    using r find_run_SomeD[OF r] by (simp add: find_run_put_run)
qed simp

lemma expired_db_fields [simp]:
  "proposals (expired_db p r now actor reason d) = changed p expire_row d"
  "find_run k (expired_db p r now actor reason d) = find_run k (put_run (p_run_id p) (r_state r) EXPIRED now d)"
  by (simp_all add: expired_db_def)

definition waiting :: "db \<Rightarrow> proposal_row \<Rightarrow> bool" where
  "waiting d q \<longleftrightarrow> (case find_run (p_run_id q) d of None \<Rightarrow> False | Some r \<Rightarrow> r_state r \<in> {PROPOSED, APPROVED})"

text \<open>A run has one live proposal, so expiring one leaves the others of the list waiting.\<close>

lemma one_live:
  assumes "db_inv d" and "p \<in> set (proposals d)" and "q \<in> set (proposals d)" and "p_run_id p = p_run_id q"
    and "p_status p \<noteq> P_SUPERSEDED" and "p_status q \<noteq> P_SUPERSEDED"
  shows "p = q"
proof -
  have "keys_ok d" using assms(1) by (simp add: db_inv_def)
  then obtain r where r: "find_run (p_run_id p) d = Some r"
    using assms(2) by (rule find_run_of_proposal)
  note c = live_fits(1)[OF assms(1,2) r]
  have "p \<in> set (proposals_of (p_run_id p) (proposals d))" "q \<in> set (proposals_of (p_run_id p) (proposals d))"
    using assms by (simp_all add: proposals_of_def)
  from live_last[OF c this(1) assms(5)] live_last[OF c this(2) assms(6)] show ?thesis
    by (metis last_snoc)
qed

lemma waiting_expired:
  assumes "db_inv d" and "p \<in> set (proposals d)" and "q \<in> set (proposals d)" and "q \<noteq> p"
    and "p_status p \<noteq> P_SUPERSEDED" and "p_status q \<noteq> P_SUPERSEDED"
    and "find_run (p_run_id p) d = Some r"
  shows "waiting (expired_db p r now actor reason d) q = waiting d q"
proof -
  have "p_run_id q \<noteq> p_run_id p" using one_live[OF assms(1,2,3)] assms by metis
  then show ?thesis by (simp add: waiting_def find_run_moved(3)[OF assms(7)])
qed

lemma expire_loop_total:
  "db_inv d \<Longrightarrow> set ps \<subseteq> set (proposals d) \<Longrightarrow> distinct ps \<Longrightarrow> \<forall>p \<in> set ps. is_due now p \<Longrightarrow>
   \<exists>d'. expire_loop now actor ps n d = Inr (n + length (filter (waiting d) ps), d') \<and> db_inv d' \<and>
     proposals d' = map (\<lambda>q. if q \<in> set ps \<and> waiting d q then expire_row q else q) (proposals d)"
proof (induction ps arbitrary: n d)
  case Nil
  then show ?case by simp
next
  case (Cons p ps)
  have k: "keys_ok d" using Cons.prems(1) by (simp add: db_inv_def)
  have p: "p \<in> set (proposals d)" and s: "p_status p \<in> {P_PROPOSED, P_APPROVED}"
    using Cons.prems by (auto simp: is_due_def)
  obtain r where r: "find_run (p_run_id p) d = Some r" using find_run_of_proposal[OF k p] .
  show ?case
  proof (cases "waiting d p")
    case False
    then have "expire_loop now actor (p # ps) n d = expire_loop now actor ps n d"
      by (simp add: waiting_def r)
    moreover from Cons.IH[of d n] Cons.prems obtain d' where
      "expire_loop now actor ps n d = Inr (n + length (filter (waiting d) ps), d')" "db_inv d'"
      "proposals d' = map (\<lambda>q. if q \<in> set ps \<and> waiting d q then expire_row q else q) (proposals d)"
      by auto
    moreover have "(q \<in> set (p # ps) \<and> waiting d q) = (q \<in> set ps \<and> waiting d q)" for q
      using False by auto
    ultimately show ?thesis using False by simp
  next
    case True
    then have rs: "r_state r \<in> {PROPOSED, APPROVED}" by (simp add: waiting_def r)
    let ?e = "expired_db p r now actor ''ttl_elapsed'' d"
    have step: "expire_loop now actor (p # ps) n d = expire_loop now actor ps (Suc n) ?e"
      using rs by (simp add: r expire_locked_eq[OF Cons.prems(1) p r s])
    have inv: "db_inv ?e" by (rule expired_db_inv[OF Cons.prems(1) p r s rs])
    have props: "proposals ?e = map (\<lambda>q. if q = p then expire_row p else q) (proposals d)"
      by (simp add: changed_eq[OF k p])
    have ne: "p \<notin> set ps" using Cons.prems(3) by simp
    have sub: "set ps \<subseteq> set (proposals ?e)"
    proof
      fix q assume "q \<in> set ps"
      moreover from this have "q \<noteq> p" using ne by auto
      ultimately show "q \<in> set (proposals ?e)" using Cons.prems(2) unfolding props by auto
    qed
    have w: "waiting ?e q = waiting d q" if "q \<in> set ps" for q
    proof (rule waiting_expired[OF Cons.prems(1) p _ _ _ _ r])
      show "q \<in> set (proposals d)" "q \<noteq> p" using that ne Cons.prems(2) by auto
      show "p_status p \<noteq> P_SUPERSEDED" "p_status q \<noteq> P_SUPERSEDED"
        using s Cons.prems(4) that by (auto simp: is_due_def)
    qed
    have fl: "filter (waiting ?e) ps = filter (waiting d) ps" by (rule filter_cong) (simp_all add: w)
    from Cons.IH[OF inv sub, of "Suc n"] Cons.prems obtain d' where d':
      "expire_loop now actor ps (Suc n) ?e = Inr (Suc n + length (filter (waiting ?e) ps), d')" "db_inv d'"
      "proposals d' = map (\<lambda>q. if q \<in> set ps \<and> waiting ?e q then expire_row q else q) (proposals ?e)"
      by auto
    have not_again: "expire_row p \<notin> set ps"
      using Cons.prems(4) by (auto simp: is_due_def expire_row_def)
    have "proposals d' = map (\<lambda>q. if q \<in> set (p # ps) \<and> waiting d q then expire_row q else q) (proposals d)"
      unfolding d'(3) props using w True ne not_again by auto
    with d'(1,2) True show ?thesis unfolding step fl by simp
  qed
qed

section \<open>Decisions\<close>

definition settled_row :: "decision \<Rightarrow> string \<Rightarrow> proposal_row \<Rightarrow> proposal_row" where
  "settled_row dec digest q =
     q\<lparr>p_status := (if dec = APPROVE then P_APPROVED else P_REJECTED),
       p_approved_hash := (if dec = APPROVE then Some digest else None)\<rparr>"

definition settled_state :: "decision \<Rightarrow> run_state" where
  "settled_state dec = (if dec = APPROVE then APPROVED else REJECTED)"

definition settled_db ::
    "proposal_row \<Rightarrow> run_row \<Rightarrow> decision \<Rightarrow> string \<Rightarrow> string \<Rightarrow> rat \<Rightarrow> db \<Rightarrow> db" where
  "settled_db p r dec now actor approval_wait d =
     add_audit
       \<lparr>e_trace_id = r_trace_id r, e_run_id = p_run_id p, e_proposal_id = Some (p_id p),
        e_event_type = ''approval_decision'',
        e_metadata = [(''decision'', JStr (decision_value dec)), (''revision'', JInt (p_revision p)),
          (''action_hash'', JStr (p_action_hash p)), (''approval_wait_seconds'', JFloat approval_wait),
          (''actor'', JStr actor)],
        e_occurred_at = now\<rparr>
       (move_both p r (settled_row dec (p_action_hash p)) (settled_state dec)
          (''human decision: '' @ decision_value dec) actor now d)"

lemma settle_locked_eq:
  assumes inv: "db_inv d" and p: "p \<in> set (proposals d)" and r: "find_run (p_run_id p) d = Some r"
    and s: "p_status p = P_PROPOSED" "r_state r = PROPOSED"
  shows "settle_locked p r (p_revision p) (p_action_hash p) dec now actor w d =
    Inr ((p_run_id p, run_state_value (settled_state dec)), settled_db p r dec now actor w d)"
proof -
  have k: "keys_ok d" using inv by (simp add: db_inv_def)
  note case_p = case_update_proposal[where p = p, unfolded s(1)]
  note cl = count_live[OF k p, unfolded s(1)] and cc = count_current[OF k r, unfolded s(2)]
  show ?thesis
    by (simp add: settle_locked_def Let_def case_p case_set_run_state cl cc insert_audit_eq
        find_run_put_run r settled_db_def move_both_def settled_row_def[abs_def] settled_state_def s)
qed

lemma settled_db_inv:
  assumes inv: "db_inv d" and p: "p \<in> set (proposals d)" and r: "find_run (p_run_id p) d = Some r"
    and s: "p_status p = P_PROPOSED" "r_state r = PROPOSED"
  shows "db_inv (settled_db p r dec now actor w d)"
  unfolding settled_db_def
proof (rule note_inv)
  have "approved_ok (settled_row dec (p_action_hash p) p)"
    by (simp add: approved_ok_def settled_row_def)
  with s show "db_inv (move_both p r (settled_row dec (p_action_hash p)) (settled_state dec)
          (''human decision: '' @ decision_value dec) actor now d)"
    by (intro move_both_inv[OF inv p r]) (auto simp: settled_row_def settled_state_def)
qed (simp_all add: find_run_put_run r)

definition supersede_row :: "proposal_row \<Rightarrow> proposal_row" where
  "supersede_row q = q\<lparr>p_status := P_SUPERSEDED\<rparr>"

definition revised_db ::
    "proposal_row \<Rightarrow> run_row \<Rightarrow> proposal_draft \<Rightarrow> string \<Rightarrow> string \<Rightarrow> db \<Rightarrow> db" where
  "revised_db p r n now actor d =
     add_audit
       \<lparr>e_trace_id = r_trace_id r, e_run_id = p_run_id p, e_proposal_id = Some (np_id n),
        e_event_type = ''proposal_revised'',
        e_metadata = [(''from_revision'', JInt (p_revision p)), (''to_revision'', JInt (np_revision n)),
          (''action_hash'', JStr (np_action_hash n)), (''actor'', JStr actor)],
        e_occurred_at = now\<rparr>
       (put_run (p_run_id p) PROPOSED PROPOSED now
          (put_proposals (changed p supersede_row d @ [new_row n (p_run_id p) P_PROPOSED]) d))"

lemma put_proposals_twice [simp]: "put_proposals qs (put_proposals ps d) = put_proposals qs d"
  by (simp add: put_proposals_def)

lemma changed_ids:
  assumes "\<And>q. p_id (f q) = p_id q"
  shows "p_id ` set (changed p f d) = p_id ` set (proposals d)"
proof -
  have "map p_id (changed p f d) = map p_id (proposals d)"
    unfolding changed_def by (rule map_update_where) (simp add: assms)
  then show ?thesis by (metis list.set_map)
qed

lemma revise_fits:
  assumes inv: "db_inv d" and p: "p \<in> set (proposals d)" and r: "find_run (p_run_id p) d = Some r"
    and s: "p_status p = P_PROPOSED" "r_state r = PROPOSED"
    and n: "np_id n \<notin> p_id ` set (proposals d)" "np_revision n = p_revision p + 1"
  shows "fits (p_run_id p) (r_state r) (changed p supersede_row d @ [new_row n (p_run_id p) P_PROPOSED]) d"
proof -
  let ?k = "p_run_id p" and ?q = "new_row n (p_run_id p) P_PROPOSED"
  have k: "keys_ok d" "links_ok d" using inv by (simp_all add: db_inv_def)
  have ids: "distinct (map p_id (changed p supersede_row d))"
    "p_run_id ` set (changed p supersede_row d) \<subseteq> r_id ` set (runs d)"
  proof -
    have "map p_id (changed p supersede_row d) = map p_id (proposals d)"
      "map p_run_id (changed p supersede_row d) = map p_run_id (proposals d)"
      unfolding changed_def by (rule map_update_where, simp add: supersede_row_def)+
    with k(1) show "distinct (map p_id (changed p supersede_row d))"
      "p_run_id ` set (changed p supersede_row d) \<subseteq> r_id ` set (runs d)"
      unfolding keys_ok_def by (metis, metis list.set_map)
  qed
  have ok: "approved_ok p" using k(2) p by (simp add: links_ok_def)
  then have "approved_ok (supersede_row p)"
    using s by (auto simp: approved_ok_def supersede_row_def split: option.splits)
  then have all_ok: "\<forall>q \<in> set (changed p supersede_row d). approved_ok q"
    using k(2) by (auto simp: changed_eq[OF k(1) p] links_ok_def)
  have c: "coherent (r_state r) (proposals_of ?k (proposals d))" by (rule live_fits(1)[OF inv p r])
  have "p \<in> set (proposals_of ?k (proposals d))" using p by (simp add: proposals_of_def)
  from live_last[OF c this] s obtain os where os: "proposals_of ?k (proposals d) = os @ [p]" "p \<notin> set os"
    by (metis proposal_state.distinct(7))
  have pc: "proposals_of j (changed p supersede_row d) =
      map (\<lambda>q. if q = p then supersede_row p else q) (proposals_of j (proposals d))" for j
    unfolding changed_eq[OF k(1) p] by (rule proposals_of_map) (simp add: supersede_row_def)
  have mine: "proposals_of ?k (changed p supersede_row d) = os @ [supersede_row p]"
    using os by (auto simp: pc intro: map_idI)
  have other: "proposals_of j (changed p supersede_row d) = proposals_of j (proposals d)" if "j \<noteq> ?k" for j
    using that unfolding pc by (intro map_idI) (auto simp: proposals_of_def)
  have "coherent (r_state r) (os @ [p])" using c os by simp
  note rev = coherent_revisions[OF this, THEN conjunct1] coherent_revisions[OF this, THEN conjunct2]
  have "list_all (\<lambda>p. p_status p = P_SUPERSEDED) os" using c os by (simp add: coherent_def)
  then have "coherent (r_state r) ((os @ [supersede_row p]) @ [?q])"
  proof (intro coherent_extend)
    show "map p_revision (os @ [supersede_row p]) = [1..int (length (os @ [supersede_row p]))]"
      using rev(1) by (simp add: supersede_row_def)
  qed (use rev(2) n(2) s in \<open>auto simp: supersede_row_def new_row_def list_all_iff\<close>)
  moreover have "np_id n \<notin> p_id ` set (changed p supersede_row d)"
    using n(1) changed_ids[of supersede_row] by (simp add: supersede_row_def)
  moreover have "approved_ok ?q" by (simp add: approved_ok_def new_row_def)
  moreover have "?k \<in> r_id ` set (runs d)" using find_run_SomeD[OF r] by force
  ultimately show ?thesis
    using ids all_ok other unfolding fits_def by (auto simp: mine new_row_def)
qed

end
