(* ===== verification/StoreLifecycle.thy ===== *)
theory StoreLifecycle
  imports StoreInvariant
begin

text \<open>
  What every operation of the store does on a database that satisfies the invariant, on every
  branch; the step relation of the operations the service performs; reachable databases; and the
  properties of the proposal lifecycle: which runs move where, what an execution presupposes, what
  expiry leaves behind, and what the audit trail records.
\<close>

section \<open>Operations on every branch\<close>

lemma revise_locked_Inr:
  assumes inv: "db_inv d" and p: "p \<in> set (proposals d)" and r: "find_run (p_run_id p) d = Some r"
    and s: "p_status p = P_PROPOSED" "r_state r = PROPOSED"
    and ok: "revise_locked p r (p_revision p) now actor new_proposal d = Inr (x, d')"
  obtains n where "new_proposal = Some n" "np_id n \<notin> p_id ` set (proposals d)"
    "x = (p_run_id p, ''revised'')" "d' = revised_db p r n now actor d"
proof -
  have k: "keys_ok d" using inv by (simp add: db_inv_def)
  from ok obtain n where n: "new_proposal = Some n"
    by (cases new_proposal) (simp_all add: revise_locked_def)
  note case_p = case_update_proposal[where p = p, unfolded s(1)]
  note cl = count_live[OF k p, unfolded s(1)]
  have sup: "(\<lambda>q. q\<lparr>p_status := P_SUPERSEDED\<rparr>) = supersede_row" by (simp add: supersede_row_def[abs_def])
  from ok obtain d2 where ins: "insert_proposal n (p_run_id p) P_PROPOSED
      (put_proposals (changed p supersede_row d) d) = Inr d2"
    by (auto simp: revise_locked_def n Let_def case_p cl sup bindE_Inr_iff)
  from ins[unfolded insert_proposal_Inr] have fresh: "np_id n \<notin> p_id ` set (proposals d)"
    and d2: "d2 = put_proposals (changed p supersede_row d @ [new_row n (p_run_id p) P_PROPOSED]) d"
    by (simp_all add: changed_ids supersede_row_def)
  have "x = (p_run_id p, ''revised'') \<and> d' = revised_db p r n now actor d"
    using ok r by (simp add: revise_locked_def n Let_def case_p cl sup ins d2 case_set_run_state
        insert_audit_eq find_run_put_run revised_db_def)
  with n fresh that show thesis by blast
qed

lemma revised_db_inv:
  assumes inv: "db_inv d" and p: "p \<in> set (proposals d)" and r: "find_run (p_run_id p) d = Some r"
    and s: "p_status p = P_PROPOSED" "r_state r = PROPOSED"
    and n: "np_id n \<notin> p_id ` set (proposals d)" "np_revision n = p_revision p + 1"
  shows "db_inv (revised_db p r n now actor d)"
  unfolding revised_db_def
proof (rule note_inv)
  from kept_inv[OF inv r revise_fits[OF inv p r s n]]
  show "db_inv (put_run (p_run_id p) PROPOSED PROPOSED now
     (put_proposals (changed p supersede_row d @ [new_row n (p_run_id p) P_PROPOSED]) d))"
    by (simp add: s)
qed (simp_all add: find_run_put_run r)

text \<open>\<open>decide_proposal\<close>, branch by branch.\<close>

lemma decide_eq:
  assumes inv: "db_inv d" and f: "find_proposal pid d = Some p" and r: "find_run (p_run_id p) d = Some r"
  shows "decide_proposal pid rv digest dec now actor w new_proposal d =
    (if p_revision p \<noteq> rv \<or> p_action_hash p \<noteq> digest
     then (Inl (StoreConflict ''decision does not bind to the current revision and action hash''), d)
     else if p_status p \<noteq> P_PROPOSED \<or> r_state r \<noteq> PROPOSED
     then (Inl (StoreConflict (''proposal is '' @ proposal_state_value (p_status p) @ '', not proposed'')), d)
     else if p_expires_at p \<le> now
     then (Inr (p_run_id p, ''expired''), expired_db p r now actor ''approval_ttl_elapsed'' d)
     else if dec = REVISE then transaction (revise_locked p r rv now actor new_proposal) d
     else (Inr (p_run_id p, run_state_value (settled_state dec)), settled_db p r dec now actor w d))"
proof -
  have p: "p \<in> set (proposals d)" using find_proposal_SomeD[OF f] by simp
  note e = expire_locked_eq[OF inv p r]
  have st: "settle_locked p r rv digest dec now actor w d =
      Inr ((p_run_id p, run_state_value (settled_state dec)), settled_db p r dec now actor w d)"
    if "p_status p = P_PROPOSED" "r_state r = PROPOSED" "p_revision p = rv" "p_action_hash p = digest"
    using settle_locked_eq[OF inv p r that(1,2)] that(3,4) by simp
  show ?thesis
    by (simp add: decide_proposal_def transaction_def decide_proposal_body_def f r e)
       (use st in auto)
qed

text \<open>The run of a proposal under decision is always there: the assertion never fails.\<close>

lemma run_of_found:
  assumes "db_inv d" and "find_proposal pid d = Some p"
  obtains r where "find_run (p_run_id p) d = Some r"
  using assms find_run_of_proposal[of d p] find_proposal_SomeD[OF assms(2)] by (auto simp: db_inv_def)

lemma decide_inv:
  assumes inv: "db_inv d" and ok: "decide_proposal pid rv digest dec now actor w new_proposal d = (res, d')"
    and n: "\<And>n. new_proposal = Some n \<Longrightarrow> np_revision n = rv + 1"
  shows "db_inv d'"
proof (cases "find_proposal pid d")
  case None
  with ok inv show ?thesis by (simp add: decide_proposal_def transaction_def decide_proposal_body_def)
next
  case (Some p)
  obtain r where r: "find_run (p_run_id p) d = Some r" using run_of_found[OF inv Some] .
  have p: "p \<in> set (proposals d)" using find_proposal_SomeD[OF Some] by simp
  note eq = decide_eq[OF inv Some r, of rv digest dec now actor w new_proposal, unfolded ok]
  consider "d' = d"
    | "p_status p = P_PROPOSED" "r_state r = PROPOSED" "d' = expired_db p r now actor ''approval_ttl_elapsed'' d"
    | "p_status p = P_PROPOSED" "r_state r = PROPOSED" "p_revision p = rv"
      "(res, d') = transaction (revise_locked p r rv now actor new_proposal) d"
    | "p_status p = P_PROPOSED" "r_state r = PROPOSED" "d' = settled_db p r dec now actor w d"
    using eq by (auto split: if_splits)
  then show ?thesis
  proof cases
    case 3
    show ?thesis
    proof (cases "revise_locked p r rv now actor new_proposal d")
      case (Inl e)
      with 3(4) inv show ?thesis by (simp add: transaction_def)
    next
      case (Inr y)
      with 3(4) obtain x where "revise_locked p r (p_revision p) now actor new_proposal d = Inr (x, d')"
        by (cases y) (auto simp: transaction_def 3(3))
      from revise_locked_Inr[OF inv p r 3(1,2) this] obtain m where
        "new_proposal = Some m" "np_id m \<notin> p_id ` set (proposals d)" "d' = revised_db p r m now actor d" .
      with n[of m] 3(3) revised_db_inv[OF inv p r 3(1,2)] show ?thesis by simp
    qed
  qed (use inv expired_db_inv[OF inv p r] settled_db_inv[OF inv p r] in auto)
qed

text \<open>Claiming and finalising.\<close>

definition execute_row :: "proposal_state \<Rightarrow> proposal_row \<Rightarrow> proposal_row" where
  "execute_row s q = q\<lparr>p_status := s\<rparr>"

lemma claim_eq:
  assumes inv: "db_inv d" and f: "find_proposal pid d = Some p" and r: "find_run (p_run_id p) d = Some r"
  shows "claim_execution pid digest now actor d =
    (if p_status p \<noteq> P_APPROVED \<or> r_state r \<noteq> APPROVED
     then (Inl (StoreConflict ''only an approved proposal can enter execution''), d)
     else if p_action_hash p \<noteq> digest
     then (Inl (StoreConflict ''approved action hash does not match the proposal''), d)
     else if p_expires_at p \<le> now
     then (Inr Claim_expired, expired_db p r now actor ''expired_before_execution'' d)
     else (Inr (Claimed p), move_both p r (execute_row P_EXECUTING) EXECUTING
             ''execution atomically claimed'' actor now d))"
proof -
  have p: "p \<in> set (proposals d)" "p_id p = pid" using find_proposal_SomeD[OF f] by simp_all
  have k: "keys_ok d" "approved_ok p" using inv p by (auto simp: db_inv_def links_ok_def)
  have h: "p_approved_hash p = Some (p_action_hash p)" if "p_status p = P_APPROVED"
    using k(2) that by (auto simp: approved_ok_def split: option.splits)
  note e = expire_locked_eq[OF inv p(1) r]
  show ?thesis
  proof (cases "p_status p = P_APPROVED \<and> r_state r = APPROVED \<and> p_action_hash p = digest \<and> \<not> p_expires_at p \<le> now")
    case True
    then have s: "p_status p = P_APPROVED" "r_state r = APPROVED" by simp_all
    note case_p = case_update_proposal[where p = p, unfolded s(1) p(2)]
    note cl = count_live[OF k(1) p(1), unfolded s(1) p(2)] and cc = count_current[OF k(1) r, unfolded s(2)]
    show ?thesis using True
      by (simp add: claim_execution_def transaction_def claim_execution_body_def f r h Let_def case_p
          case_set_run_state cl cc insert_audit_eq find_run_put_run move_both_def
          execute_row_def[abs_def] p(2))
  next
    case False
    then show ?thesis
      by (auto simp: claim_execution_def transaction_def claim_execution_body_def f r h e)
  qed
qed

lemma execute_row_inv:
  assumes inv: "db_inv d" and p: "p \<in> set (proposals d)" and r: "find_run (p_run_id p) d = Some r"
    and s: "(p_status p, r_state r, t, s') \<in> {(P_APPROVED, APPROVED, P_EXECUTING, EXECUTING),
      (P_EXECUTING, EXECUTING, P_SUCCEEDED, SUCCEEDED), (P_EXECUTING, EXECUTING, P_FAILED, FAILED)}"
  shows "db_inv (move_both p r (execute_row t) s' reason actor now d)"
proof -
  have "approved_ok p" using inv p by (auto simp: db_inv_def links_ok_def)
  with s have "approved_ok (execute_row t p)"
    by (auto simp: approved_ok_def execute_row_def split: option.splits)
  with s show ?thesis by (intro move_both_inv[OF inv p r]) (auto simp: execute_row_def)
qed

lemma claim_inv:
  assumes inv: "db_inv d" and ok: "claim_execution pid digest now actor d = (res, d')"
  shows "db_inv d'"
proof (cases "find_proposal pid d")
  case None
  with ok inv show ?thesis by (simp add: claim_execution_def transaction_def claim_execution_body_def)
next
  case (Some p)
  obtain r where r: "find_run (p_run_id p) d = Some r" using run_of_found[OF inv Some] .
  have p: "p \<in> set (proposals d)" using find_proposal_SomeD[OF Some] by simp
  from claim_eq[OF inv Some r, of digest now actor, unfolded ok] show ?thesis
    using inv expired_db_inv[OF inv p r] execute_row_inv[OF inv p r]
    by (auto split: if_splits)
qed

definition finalized_db ::
    "proposal_row \<Rightarrow> run_row \<Rightarrow> bool \<Rightarrow> string \<Rightarrow> string \<Rightarrow> (string \<times> json) list \<Rightarrow> db \<Rightarrow> db" where
  "finalized_db p r success now actor metadata d =
     add_audit
       \<lparr>e_trace_id = r_trace_id r, e_run_id = p_run_id p, e_proposal_id = Some (p_id p),
        e_event_type = ''execution_result'',
        e_metadata = filter (\<lambda>kv. fst kv \<noteq> ''actor'') metadata @ [(''actor'', JStr actor)],
        e_occurred_at = now\<rparr>
       (move_both p r (execute_row (if success then P_SUCCEEDED else P_FAILED))
          (if success then SUCCEEDED else FAILED)
          (if success then ''remediation completed'' else ''remediation failed'') actor now d)"

lemma finalize_eq:
  assumes inv: "db_inv d" and f: "find_proposal pid d = Some p" and r: "find_run (p_run_id p) d = Some r"
  shows "finalize_execution pid success now actor metadata d =
    (if p_status p \<noteq> P_EXECUTING \<or> r_state r \<noteq> EXECUTING
     then (Inl (StoreConflict ''execution finalization lost its claim''), d)
     else (Inr (p_run_id p), finalized_db p r success now actor metadata d))"
proof -
  have p: "p \<in> set (proposals d)" "p_id p = pid" using find_proposal_SomeD[OF f] by simp_all
  have k: "keys_ok d" using inv by (simp add: db_inv_def)
  show ?thesis
  proof (cases "p_status p = P_EXECUTING \<and> r_state r = EXECUTING")
    case True
    then have s: "p_status p = P_EXECUTING" "r_state r = EXECUTING" by simp_all
    note case_p = case_update_proposal[where p = p, unfolded s(1) p(2)]
    note cl = count_live[OF k p(1), unfolded s(1) p(2)] and cc = count_current[OF k r, unfolded s(2)]
    show ?thesis using True
      by (simp add: finalize_execution_def transaction_def finalize_execution_body_def f r Let_def case_p
          case_set_run_state cl cc insert_audit_eq find_run_put_run move_both_def finalized_db_def
          execute_row_def[abs_def] p(2))
  next
    case False
    have c: "fst (update_proposal pid P_EXECUTING g d) \<noteq> 1 \<or>
        fst (set_run_state (p_run_id p) EXECUTING s' now d) \<noteq> 1" for g s'
      using False by (auto simp: count_proposal[OF k] count_run[OF k] f r)
    have fs: "fst (set_run_state (p_run_id p) EXECUTING s' now (snd (update_proposal pid P_EXECUTING g d))) =
        fst (set_run_state (p_run_id p) EXECUTING s' now d)" for g s'
      by (simp add: set_run_state_def update_proposal_def)
    show ?thesis using False c
      by (simp add: finalize_execution_def transaction_def finalize_execution_body_def f r Let_def
          case_prod_unfold fs)
  qed
qed

lemma finalize_inv:
  assumes inv: "db_inv d" and ok: "finalize_execution pid success now actor metadata d = (res, d')"
  shows "db_inv d'"
proof (cases "find_proposal pid d")
  case None
  with ok inv show ?thesis
    by (simp add: finalize_execution_def transaction_def finalize_execution_body_def Let_def)
next
  case (Some p)
  obtain r where r: "find_run (p_run_id p) d = Some r" using run_of_found[OF inv Some] .
  have p: "p \<in> set (proposals d)" using find_proposal_SomeD[OF Some] by simp
  have "db_inv (finalized_db p r success now actor metadata d)"
    if "p_status p = P_EXECUTING" "r_state r = EXECUTING"
    unfolding finalized_db_def
    by (rule note_inv) (use execute_row_inv[OF inv p r] that r in \<open>auto simp: find_run_put_run\<close>)
  with finalize_eq[OF inv Some r, of success now actor metadata, unfolded ok] inv show ?thesis
    by (auto split: if_splits)
qed

text \<open>Creating the first proposal of an assessed run.\<close>

lemma create_proposal_body_Inr:
  assumes inv: "db_inv d" and ok: "create_proposal_body n k status now tr actor ms d = Inr (u, d')"
  obtains r e where "find_run k d = Some r" "r_state r = ASSESSED" "np_id n \<notin> p_id ` set (proposals d)"
    "e_run_id e = k" "e_event_type e = ''proposal_created''"
    "d' = add_audit e (add_audit (state_transition tr k (Some (np_id n)) ASSESSED PROPOSED
        ''remediation proposal created'' actor now)
      (put_run k ASSESSED PROPOSED now (put_proposals (proposals d @ [new_row n k status]) d)))"
proof -
  have k: "keys_ok d" using inv by (simp add: db_inv_def)
  from ok obtain d1 where d1: "insert_proposal n k status d = Inr d1"
    by (auto simp: create_proposal_body_def bindE_Inr_iff)
  then have fresh: "np_id n \<notin> p_id ` set (proposals d)"
    and d1': "d1 = put_proposals (proposals d @ [new_row n k status]) d"
    by (simp_all add: insert_proposal_Inr)
  have "fst (set_run_state k ASSESSED PROPOSED now d) = 1"
    using ok by (auto simp: create_proposal_body_def d1 d1' case_set_run_state Let_def split: if_splits)
  then obtain r where r: "find_run k d = Some r" "r_state r = ASSESSED"
    by (auto simp: count_run[OF k] split: option.splits if_splits)
  from ok obtain v where v: "option_action_id (np_option n) = Inr v"
    by (auto simp: create_proposal_body_def d1 case_set_run_state Let_def bindE_Inr_iff split: if_splits)
  let ?e = "\<lparr>e_trace_id = tr, e_run_id = k, e_proposal_id = Some (np_id n),
                  e_event_type = ''proposal_created'',
                  e_metadata = [(''revision'', JInt (np_revision n)),
                    (''scenario'', JStr (scenario_value (np_scenario n))),
                    (''scenario_kind'', JStr (kind_value (np_kind n))),
                    (''action_id'', v), (''action_hash'', JStr (np_action_hash n)),
                    (''expires_at'', JStr (np_expires_at n)),
                    (''event_to_proposal_latency_ms'', JInt ms), (''actor'', JStr actor)],
                  e_occurred_at = now\<rparr>"
  have "d' = add_audit ?e (add_audit (state_transition tr k (Some (np_id n)) ASSESSED PROPOSED
        ''remediation proposal created'' actor now)
      (put_run k ASSESSED PROPOSED now (put_proposals (proposals d @ [new_row n k status]) d)))"
    using ok r by (simp add: create_proposal_body_def d1 d1' case_set_run_state Let_def v
        count_run[OF k] insert_audit_eq find_run_put_run)
  with r fresh show thesis by (intro that[of r ?e]) simp_all
qed

lemma create_proposal_body_inv:
  assumes inv: "db_inv d" and ok: "create_proposal_body n k P_PROPOSED now tr actor ms d = Inr (u, d')"
    and n: "np_revision n = 1"
  shows "db_inv d'"
proof -
  from create_proposal_body_Inr[OF inv ok] obtain r e where
    r: "find_run k d = Some r" "r_state r = ASSESSED" and fresh: "np_id n \<notin> p_id ` set (proposals d)"
    and e: "e_run_id e = k" "e_event_type e = ''proposal_created''"
    and d': "d' = add_audit e (add_audit (state_transition tr k (Some (np_id n)) ASSESSED PROPOSED
        ''remediation proposal created'' actor now)
      (put_run k ASSESSED PROPOSED now (put_proposals (proposals d @ [new_row n k P_PROPOSED]) d)))"
    by metis
  have "coherent (r_state r) (proposals_of k (proposals d))"
    using inv find_run_SomeD[OF r(1)] by (auto simp: db_inv_def links_ok_def)
  then have none: "proposals_of k (proposals d) = []"
    using r(2) by (cases "p_status (last (proposals_of k (proposals d)))") (auto simp: coherent_def split: if_splits)
  have "fits k PROPOSED (proposals d @ [new_row n k P_PROPOSED]) d"
    unfolding fits_def
  proof (intro conjI allI impI)
    show "distinct (map p_id (proposals d @ [new_row n k P_PROPOSED]))"
      using inv fresh by (simp add: db_inv_def keys_ok_def new_row_def)
    show "p_run_id ` set (proposals d @ [new_row n k P_PROPOSED]) \<subseteq> r_id ` set (runs d)"
      using inv find_run_SomeD[OF r(1)] by (auto simp: db_inv_def keys_ok_def new_row_def)
    show "\<forall>p \<in> set (proposals d @ [new_row n k P_PROPOSED]). approved_ok p"
    proof -
      have "approved_ok (new_row n k P_PROPOSED)" by (simp add: approved_ok_def new_row_def)
      with inv show ?thesis by (auto simp: db_inv_def links_ok_def)
    qed
    show "coherent PROPOSED (proposals_of k (proposals d @ [new_row n k P_PROPOSED]))"
      using n by (simp add: none) (simp add: coherent_def new_row_def)
    show "proposals_of j (proposals d @ [new_row n k P_PROPOSED]) = proposals_of j (proposals d)"
      if "j \<noteq> k" for j using that by (simp add: new_row_def)
  qed
  from moved_inv[OF inv r(1) _ this] have "db_inv (add_audit (state_transition tr k (Some (np_id n))
      ASSESSED PROPOSED ''remediation proposal created'' actor now)
      (put_run k ASSESSED PROPOSED now (put_proposals (proposals d @ [new_row n k P_PROPOSED]) d)))"
    by (simp add: r(2))
  then show ?thesis unfolding d' by (rule note_inv) (simp_all add: e find_run_put_run r(1))
qed

section \<open>History is append-only\<close>

text \<open>What no operation ever changes in a row.\<close>

definition run_core :: "run_row \<Rightarrow> string \<times> string \<times> string \<times> json \<times> string \<times> string" where
  "run_core r = (r_id r, r_key r, r_payload_hash r, r_event r, r_trace_id r, r_created_at r)"

definition proposal_core :: "proposal_row \<Rightarrow> proposal_row" where
  "proposal_core p = p\<lparr>p_status := P_PROPOSED, p_approved_hash := None\<rparr>"

definition extends :: "db \<Rightarrow> db \<Rightarrow> bool" where
  "extends d d' \<longleftrightarrow> prefix (map run_core (runs d)) (map run_core (runs d')) \<and>
     prefix (map proposal_core (proposals d)) (map proposal_core (proposals d')) \<and>
     prefix (audit d) (audit d')"

lemma extends_refl [simp]: "extends d d"
  by (simp add: extends_def)

lemma extends_trans: "extends a b \<Longrightarrow> extends b c \<Longrightarrow> extends a c"
  unfolding extends_def by (meson prefix_order.trans)

lemma extends_run: "extends d d1 \<Longrightarrow> extends d (snd (set_run_state k s s' now d1))"
  by (simp add: extends_def set_run_state_def map_update_where run_core_def)

lemma extends_proposal:
  "extends d d1 \<Longrightarrow> (\<And>p. proposal_core (f p) = proposal_core p) \<Longrightarrow>
   extends d (snd (update_proposal k s f d1))"
  by (simp add: extends_def update_proposal_def map_update_where)

lemma extends_audit: "insert_audit e d1 = Inr d2 \<Longrightarrow> extends d d1 \<Longrightarrow> extends d d2"
  by (auto simp: extends_def insert_audit_def prefix_append split: if_splits)

lemma extends_insert: "insert_proposal n k s d1 = Inr d2 \<Longrightarrow> extends d d1 \<Longrightarrow> extends d d2"
  by (auto simp: extends_def insert_proposal_Inr put_proposals_def prefix_append)

lemma core_updates [simp]:
  "proposal_core (p\<lparr>p_status := s\<rparr>) = proposal_core p"
  "proposal_core (p\<lparr>p_status := s, p_approved_hash := h\<rparr>) = proposal_core p"
  by (simp_all add: proposal_core_def)

lemmas extends_intros = extends_refl extends_run extends_proposal

lemma expire_locked_extends: "expire_locked p r now actor reason d1 = Inr d2 \<Longrightarrow> extends d d1 \<Longrightarrow> extends d d2"
  by (auto simp: expire_locked_def Let_def case_prod_unfold bindE_Inr_iff split: if_splits
      intro!: extends_intros elim!: extends_audit)

lemma expire_loop_extends: "expire_loop now actor ps n d1 = Inr (m, d2) \<Longrightarrow> extends d d1 \<Longrightarrow> extends d d2"
proof (induction now actor ps n d1 rule: expire_loop.induct)
  case (2 now actor p ps n d1)
  then show ?case
    by (auto simp: bindE_Inr_iff split: option.splits if_splits intro: expire_locked_extends)
qed simp

lemma transition_run_body_extends: "transition_run_body k s s' now tr reason actor pid d = Inr (x, d') \<Longrightarrow> extends d d'"
  by (auto simp: transition_run_body_def Let_def case_prod_unfold bindE_Inr_iff split: if_splits
      intro!: extends_intros elim!: extends_audit)

lemma fail_run_body_extends: "fail_run_body k now actor reason d = Inr (x, d') \<Longrightarrow> extends d d'"
  by (auto simp: fail_run_body_def Let_def case_prod_unfold bindE_Inr_iff split: if_splits option.splits
      intro!: extends_intros elim!: extends_audit)

lemma create_or_get_run_body_extends: "create_or_get_run_body row e d = Inr (x, d') \<Longrightarrow> extends d d'"
  by (auto simp: create_or_get_run_body_def bindE_Inr_iff split: if_splits option.splits
      elim!: extends_audit) (auto simp: extends_def)

lemma create_proposal_body_extends: "create_proposal_body n k s now tr actor ms d = Inr (x, d') \<Longrightarrow> extends d d'"
  by (auto simp: create_proposal_body_def Let_def case_prod_unfold bindE_Inr_iff split: if_splits
      intro!: extends_intros elim!: extends_audit extends_insert)

lemma revise_locked_extends: "revise_locked p r rv now actor n d = Inr (x, d') \<Longrightarrow> extends d d'"
  by (auto simp: revise_locked_def Let_def case_prod_unfold bindE_Inr_iff split: if_splits option.splits
      intro!: extends_intros elim!: extends_audit extends_insert)

lemma settle_locked_extends: "settle_locked p r rv digest dec now actor w d = Inr (x, d') \<Longrightarrow> extends d d'"
  by (auto simp: settle_locked_def Let_def case_prod_unfold bindE_Inr_iff split: if_splits
      intro!: extends_intros elim!: extends_audit)

lemma decide_body_extends: "decide_proposal_body pid rv digest dec now actor w n d = Inr (x, d') \<Longrightarrow> extends d d'"
  by (auto simp: decide_proposal_body_def bindE_Inr_iff split: if_splits option.splits
      dest: revise_locked_extends settle_locked_extends expire_locked_extends[OF _ extends_refl])

lemma claim_body_extends: "claim_execution_body pid digest now actor d = Inr (x, d') \<Longrightarrow> extends d d'"
  by (auto simp: claim_execution_body_def Let_def case_prod_unfold bindE_Inr_iff split: if_splits option.splits
      dest: expire_locked_extends[OF _ extends_refl] intro!: extends_intros elim!: extends_audit)

lemma finalize_body_extends: "finalize_execution_body pid success now actor m d = Inr (x, d') \<Longrightarrow> extends d d'"
  by (auto simp: finalize_execution_body_def Let_def case_prod_unfold bindE_Inr_iff
      split: if_splits option.splits intro!: extends_intros elim!: extends_audit)

section \<open>The contract of a transaction body\<close>

text \<open>
  A body is sound if, under the condition \<open>ok\<close> on its arguments, when it returns, it keeps the
  invariant and only extends the history. The transaction around it is then sound whether it
  returns or raises.
\<close>

lemma transaction_Inr: "body d = Inr (x, d') \<Longrightarrow> transaction body d = (Inr x, d')"
  by (simp add: transaction_def)

locale sound_body =
  fixes ok :: bool and body :: "db \<Rightarrow> exn + ('a \<times> db)"
  assumes keeps: "ok \<Longrightarrow> db_inv d \<Longrightarrow> body d = Inr (x, d') \<Longrightarrow> db_inv d'"
    and extends_history: "body d = Inr (x, d') \<Longrightarrow> extends d d'"
begin

lemma transaction_cases:
  assumes "transaction body d = (res, d')"
  obtains e where "body d = Inl e" "res = Inl e" "d' = d" | x where "body d = Inr (x, d')" "res = Inr x"
  using assms by (auto simp: transaction_def split: sum.splits prod.splits)

lemma raise_rolls_back: "transaction body d = (Inl e, d') \<Longrightarrow> d' = d"
  by (auto simp: transaction_def split: sum.splits prod.splits)

lemma sound: "ok \<Longrightarrow> db_inv d \<Longrightarrow> transaction body d = (res, d') \<Longrightarrow> db_inv d' \<and> extends d d'"
  by (erule transaction_cases) (auto dest: keeps extends_history)

end

interpretation create: sound_body
  "r_state row = RECEIVED \<and> e_run_id entry = r_id row \<and> e_event_type entry \<noteq> ''state_transition''"
  "create_or_get_run_body row entry"
  for row entry
  by unfold_locales (auto intro: create_or_get_run_body_inv create_or_get_run_body_extends)

interpretation transition: sound_body "(s, s') \<in> {(RECEIVED, INVESTIGATING), (INVESTIGATING, ASSESSED)}"
  "transition_run_body k s s' now tr reason actor pid"
  for k s s' now tr reason actor pid
  by unfold_locales (auto intro: transition_run_body_inv transition_run_body_extends)

interpretation propose: sound_body "np_revision n = 1" "create_proposal_body n k P_PROPOSED now tr actor ms"
  for n k now tr actor ms
  by unfold_locales (auto intro: create_proposal_body_inv create_proposal_body_extends)

interpretation decide: sound_body "\<forall>n. new_proposal = Some n \<longrightarrow> np_revision n = rv + 1"
  "decide_proposal_body pid rv digest dec now actor w new_proposal"
  for pid rv digest dec now actor w new_proposal
proof
  show "db_inv d'" if "\<forall>n. new_proposal = Some n \<longrightarrow> np_revision n = rv + 1" "db_inv d"
    "decide_proposal_body pid rv digest dec now actor w new_proposal d = Inr (x, d')" for d x d'
    using decide_inv[OF that(2) transaction_Inr[of "decide_proposal_body pid rv digest dec now actor w new_proposal", OF that(3), folded decide_proposal_def]] that(1) by blast
qed (rule decide_body_extends)

interpretation claim: sound_body True "claim_execution_body pid digest now actor"
  for pid digest now actor
proof
  show "db_inv d'" if "db_inv d" "claim_execution_body pid digest now actor d = Inr (x, d')" for d x d'
    by (rule claim_inv[OF that(1) transaction_Inr[of "claim_execution_body pid digest now actor", OF that(2), folded claim_execution_def]])
qed (rule claim_body_extends)

interpretation finalize: sound_body True "finalize_execution_body pid success now actor metadata"
  for pid success now actor metadata
proof
  show "db_inv d'" if "db_inv d"
    "finalize_execution_body pid success now actor metadata d = Inr (x, d')" for d x d'
    by (rule finalize_inv[OF that(1) transaction_Inr[of "finalize_execution_body pid success now actor metadata", OF that(2), folded finalize_execution_def]])
qed (rule finalize_body_extends)

text \<open>The rows \<open>expire_due\<close> selects are rows of the table, each once, and due.\<close>

definition due_list :: "string \<Rightarrow> db \<Rightarrow> proposal_row list" where
  "due_list now d = sort_key p_created_at (filter (is_due now) (proposals d))"

lemma expire_due_eq: "expire_due now actor = transaction (\<lambda>d. expire_loop now actor (due_list now d) 0 d)"
  by (simp add: expire_due_def due_list_def)

lemma expire_due_loop:
  assumes "db_inv d"
  shows "\<exists>d'. expire_loop now actor (due_list now d) 0 d = Inr (length (filter (waiting d) (due_list now d)), d') \<and>
     db_inv d' \<and>
     proposals d' = map (\<lambda>q. if is_due now q \<and> waiting d q then expire_row q else q) (proposals d)"
proof -
  have "distinct (proposals d)" using assms by (simp add: db_inv_def keys_ok_def distinct_map)
  then have dist: "distinct (due_list now d)" by (simp add: due_list_def)
  have "set (due_list now d) \<subseteq> set (proposals d)" "\<forall>p \<in> set (due_list now d). is_due now p"
    by (auto simp: due_list_def)
  from expire_loop_total[OF assms this(1) dist this(2), of actor 0] obtain d' where d':
    "expire_loop now actor (due_list now d) 0 d = Inr (0 + length (filter (waiting d) (due_list now d)), d')"
    "db_inv d'"
    "proposals d' = map (\<lambda>q. if q \<in> set (due_list now d) \<and> waiting d q then expire_row q else q) (proposals d)"
    by blast
  have "proposals d' = map (\<lambda>q. if is_due now q \<and> waiting d q then expire_row q else q) (proposals d)"
    unfolding d'(3) by (rule map_cong) (simp_all add: due_list_def)
  with d'(1,2) show ?thesis by simp
qed

interpretation expire: sound_body True "\<lambda>d. expire_loop now actor (due_list now d) 0 d"
  for now actor
proof
  show "db_inv d'" if "db_inv d" "expire_loop now actor (due_list now d) 0 d = Inr (x, d')" for d x d'
    using expire_due_loop[OF that(1), of now actor] that(2) by auto
qed (rule expire_loop_extends[OF _ extends_refl])

interpretation fail_run: sound_body True "fail_run_body k now actor reason"
  for k now actor reason
  by unfold_locales (auto intro: fail_run_body_inv fail_run_body_extends)

interpretation note_audit: sound_body "e_event_type e \<noteq> ''state_transition''"
  "\<lambda>d. bindE (insert_audit e d) (\<lambda>d'. Inr ((), d'))"
  for e
  by unfold_locales
    (auto simp: bindE_Inr_iff intro: create_audit_inv extends_audit[OF _ extends_refl])

section \<open>Steps and reachable databases\<close>

text \<open>The operations as the service calls them, with any arguments it can pass.\<close>

inductive store_step :: "db \<Rightarrow> db \<Rightarrow> bool" where
  create: "r_state row = RECEIVED \<Longrightarrow> e_run_id entry = r_id row \<Longrightarrow>
     e_event_type entry \<noteq> ''state_transition'' \<Longrightarrow> create_or_get_run row entry d = (res, d') \<Longrightarrow> store_step d d'"
| transition: "(s, s') \<in> {(RECEIVED, INVESTIGATING), (INVESTIGATING, ASSESSED)} \<Longrightarrow>
     transition_run k s s' now tr reason actor pid d = (res', d') \<Longrightarrow> store_step d d'"
| propose: "np_revision n = 1 \<Longrightarrow>
     create_proposal_and_transition n k P_PROPOSED now tr actor ms d = (res', d') \<Longrightarrow> store_step d d'"
| decide: "\<forall>n. new_proposal = Some n \<longrightarrow> np_revision n = rv + 1 \<Longrightarrow>
     decide_proposal pid rv digest dec now actor w new_proposal d = (res'', d') \<Longrightarrow> store_step d d'"
| claim: "claim_execution pid digest now actor d = (res1, d') \<Longrightarrow> store_step d d'"
| finalize: "finalize_execution pid success now actor metadata d = (res2, d') \<Longrightarrow> store_step d d'"
| expire: "expire_due now actor d = (res3, d') \<Longrightarrow> store_step d d'"
| fail: "fail_run k now actor reason d = (res', d') \<Longrightarrow> store_step d d'"
| note_audit: "e_event_type e \<noteq> ''state_transition'' \<Longrightarrow> create_audit e d = (res', d') \<Longrightarrow> store_step d d'"

definition reachable :: "db \<Rightarrow> bool" where "reachable d \<longleftrightarrow> store_step\<^sup>*\<^sup>* empty_db d"

lemma store_step_sound: "store_step d d' \<Longrightarrow> db_inv d \<Longrightarrow> db_inv d' \<and> extends d d'"
proof (induction rule: store_step.induct)
  case create then show ?case by (intro create.sound) (simp_all add: create_or_get_run_def)
next
  case transition then show ?case by (intro transition.sound) (simp_all add: transition_run_def)
next
  case propose then show ?case by (intro propose.sound) (simp_all add: create_proposal_and_transition_def)
next
  case decide then show ?case by (intro decide.sound) (simp_all add: decide_proposal_def)
next
  case claim then show ?case by (intro claim.sound) (simp_all add: claim_execution_def)
next
  case finalize then show ?case by (intro finalize.sound) (simp_all add: finalize_execution_def)
next
  case expire then show ?case by (intro expire.sound) (simp_all add: expire_due_eq)
next
  case fail then show ?case by (intro fail_run.sound) (simp_all add: fail_run_def)
next
  case note_audit then show ?case by (intro note_audit.sound) (simp_all add: create_audit_def)
qed

lemma store_steps_sound: "store_step\<^sup>*\<^sup>* d d' \<Longrightarrow> db_inv d \<Longrightarrow> db_inv d' \<and> extends d d'"
proof (induction rule: rtranclp_induct)
  case (step b c)
  then show ?case using store_step_sound[of b c] extends_trans[of d b c] by blast
qed simp

lemma reachable_inv: "reachable d \<Longrightarrow> db_inv d"
  unfolding reachable_def using store_steps_sound[of empty_db d] db_inv_empty by blast

end
