(* ===== verification/StoreProperties.thy ===== *)
theory StoreProperties
  imports StoreLifecycle
begin

text \<open>
  The properties of the store over all databases the service's operations can reach, each with a
  witness on a small history: run \<open>r1\<close> received, assessed, proposed, approved and claimed.
\<close>

section \<open>A sample history\<close>

definition sample_row :: run_row where
  "sample_row = \<lparr>r_id = ''r1'', r_key = ''k1'', r_payload_hash = ''h'', r_event = JNull,
     r_trace_id = ''t'', r_state = RECEIVED, r_created_at = ''1'', r_updated_at = ''1''\<rparr>"

definition sample_entry :: audit_entry where
  "sample_entry = \<lparr>e_trace_id = ''t'', e_run_id = ''r1'', e_proposal_id = None,
     e_event_type = ''event_received'', e_metadata = [], e_occurred_at = ''1''\<rparr>"

definition sample_draft :: "string \<Rightarrow> int \<Rightarrow> proposal_draft" where
  "sample_draft i n = \<lparr>np_id = i, np_revision = n, np_scenario = MEMORY_OOM, np_kind = SYNTHETIC_MARKER,
     np_assessment = JNull, np_option = JObj [(''action_id'', JStr ''a'')], np_action_hash = ''x'',
     np_expires_at = ''7'', np_created_at = ''3''\<rparr>"

definition sample_created :: db where
  "sample_created = snd (create_or_get_run sample_row sample_entry empty_db)"

definition sample_assessed :: db where
  "sample_assessed =
     snd (transition_run ''r1'' INVESTIGATING ASSESSED ''2'' ''t'' ''v'' ''u'' None
       (snd (transition_run ''r1'' RECEIVED INVESTIGATING ''2'' ''t'' ''v'' ''u'' None sample_created)))"

definition sample_proposed :: db where
  "sample_proposed =
     snd (create_proposal_and_transition (sample_draft ''p1'' 1) ''r1'' P_PROPOSED ''3'' ''t'' ''u'' 5 sample_assessed)"

definition sample_approved :: db where
  "sample_approved = snd (decide_proposal ''p1'' 1 ''x'' APPROVE ''4'' ''u'' 1 None sample_proposed)"

definition sample_executing :: db where
  "sample_executing = snd (claim_execution ''p1'' ''x'' ''5'' ''u'' sample_approved)"

lemmas store_simps = transaction_def find_run_def find_proposal_def set_run_state_def update_proposal_def
  run_at_def proposal_at_def insert_audit_def insert_proposal_def state_transition_def
  create_or_get_run_def create_or_get_run_body_def transition_run_def transition_run_body_def
  create_proposal_and_transition_def create_proposal_body_def decide_proposal_def
  decide_proposal_body_def settle_locked_def claim_execution_def claim_execution_body_def
  option_action_id_def

definition sample_run_in :: "run_state \<Rightarrow> string \<Rightarrow> run_row" where
  "sample_run_in s now = sample_row\<lparr>r_state := s, r_updated_at := now\<rparr>"

definition sample_proposal_in :: "proposal_state \<Rightarrow> string option \<Rightarrow> proposal_row" where
  "sample_proposal_in s h = (new_row (sample_draft ''p1'' 1) ''r1'' s)\<lparr>p_approved_hash := h\<rparr>"

lemmas sample_simps = sample_row_def sample_entry_def sample_draft_def sample_run_in_def
  sample_proposal_in_def new_row_def

lemma sample_created_tables:
  "runs sample_created = [sample_run_in RECEIVED ''1'']" "proposals sample_created = []"
  by (simp_all add: sample_created_def empty_db_def store_simps sample_simps)

lemma sample_assessed_tables:
  "runs sample_assessed = [sample_run_in ASSESSED ''2'']" "proposals sample_assessed = []"
  by (simp_all add: sample_assessed_def sample_created_tables store_simps sample_simps)

lemma sample_proposed_tables:
  "runs sample_proposed = [sample_run_in PROPOSED ''3'']"
  "proposals sample_proposed = [sample_proposal_in P_PROPOSED None]"
  by (simp_all add: sample_proposed_def sample_assessed_tables store_simps sample_simps)

lemma sample_approved_tables:
  "runs sample_approved = [sample_run_in APPROVED ''4'']"
  "proposals sample_approved = [sample_proposal_in P_APPROVED (Some ''x'')]"
  by (simp_all add: sample_approved_def sample_proposed_tables store_simps sample_simps)

lemma sample_executing_tables:
  "runs sample_executing = [sample_run_in EXECUTING ''5'']"
  "proposals sample_executing = [sample_proposal_in P_EXECUTING (Some ''x'')]"
  by (simp_all add: sample_executing_def sample_approved_tables store_simps sample_simps)

lemma reachable_step: "reachable d \<Longrightarrow> store_step d d' \<Longrightarrow> reachable d'"
  unfolding reachable_def by (rule rtranclp.rtrancl_into_rtrancl)

lemmas store_step_snd =
  store_step.create[OF _ _ _ surjective_pairing] store_step.transition[OF _ surjective_pairing]
  store_step.propose[OF _ surjective_pairing] store_step.decide[OF _ surjective_pairing]
  store_step.claim[OF surjective_pairing] store_step.finalize[OF surjective_pairing]
  store_step.expire[OF surjective_pairing] store_step.fail[OF surjective_pairing]
  store_step.note_audit[OF _ surjective_pairing]

lemma step_created: "store_step empty_db sample_created"
  unfolding sample_created_def by (rule store_step_snd) (simp_all add: sample_row_def sample_entry_def)

lemma steps_assessed: "store_step\<^sup>*\<^sup>* sample_created sample_assessed"
  unfolding sample_assessed_def
  by (rule rtranclp.rtrancl_into_rtrancl[OF r_into_rtranclp]; rule store_step_snd(2)) simp_all

lemma step_proposed: "store_step sample_assessed sample_proposed"
  unfolding sample_proposed_def by (rule store_step_snd) (simp add: sample_draft_def)

lemma step_approved: "store_step sample_proposed sample_approved"
  unfolding sample_approved_def by (rule store_step_snd) simp

lemma step_executing: "store_step sample_approved sample_executing"
  unfolding sample_executing_def by (rule store_step_snd)

lemma sample_reachable:
  "reachable sample_created" "reachable sample_assessed" "reachable sample_proposed"
  "reachable sample_approved" "reachable sample_executing"
proof -
  show c: "reachable sample_created" using step_created by (simp add: reachable_def r_into_rtranclp)
  then show a: "reachable sample_assessed"
    unfolding reachable_def using steps_assessed by (rule rtranclp_trans)
  then show p: "reachable sample_proposed" using step_proposed by (rule reachable_step)
  then show q: "reachable sample_approved" using step_approved by (rule reachable_step)
  then show "reachable sample_executing" using step_executing by (rule reachable_step)
qed

section \<open>Consequences of the invariant\<close>

lemma follows_path: "follows s xs t \<Longrightarrow> edge\<^sup>*\<^sup>* s t"
  by (induction s xs t rule: follows.induct) (auto intro: converse_rtranclp_into_rtranclp)

lemma prefix_map_member:
  assumes "prefix (map f xs) (map f ys)" and "x \<in> set xs"
  obtains y where "y \<in> set ys" "f y = f x"
proof -
  from assms have "f x \<in> set (map f ys)" using set_mono_prefix by fastforce
  then show thesis using that by auto
qed

lemma run_later:
  assumes inv: "db_inv d" "db_inv d'" and e: "extends d d'" and r: "find_run k d = Some r"
  shows "\<exists>r'. find_run k d' = Some r' \<and> run_core r' = run_core r \<and> edge\<^sup>*\<^sup>* (r_state r) (r_state r')"
proof -
  have rk: "r \<in> set (runs d)" "r_id r = k" using find_run_SomeD[OF r] by simp_all
  have "prefix (map run_core (runs d)) (map run_core (runs d'))" using e by (simp add: extends_def)
  from prefix_map_member[OF this rk(1)] obtain r' where r': "r' \<in> set (runs d')" "run_core r' = run_core r" .
  then have id: "r_id r' = k" using rk(2) by (simp add: run_core_def)
  then have f: "find_run k d' = Some r'" using find_run_in[of d' r'] r'(1) inv(2) by (simp add: db_inv_def)
  from e obtain es where es: "audit d' = audit d @ es" by (auto simp: extends_def prefix_def)
  have "follows RECEIVED (trail k (audit d)) (r_state r)" "follows RECEIVED (trail k (audit d')) (r_state r')"
    using inv rk r'(1) id by (auto simp: db_inv_def audit_ok_def)
  then have "follows (r_state r) (trail k es) (r_state r')"
    unfolding es trail_append follows_append using follows_unique by blast
  with f r'(2) show ?thesis using follows_path by blast
qed

lemma terminal_stays: "edge\<^sup>*\<^sup>* s t \<Longrightarrow> terminal s \<Longrightarrow> t = s"
  by (induction rule: converse_rtranclp_induct) (auto simp: terminal_no_edge)

lemma proposal_later:
  assumes inv: "db_inv d" "db_inv d'" and e: "extends d d'" and p: "find_proposal k d = Some p"
  shows "\<exists>p'. find_proposal k d' = Some p' \<and> proposal_core p' = proposal_core p"
proof -
  have pk: "p \<in> set (proposals d)" "p_id p = k" using find_proposal_SomeD[OF p] by simp_all
  have "prefix (map proposal_core (proposals d)) (map proposal_core (proposals d'))"
    using e by (simp add: extends_def)
  from prefix_map_member[OF this pk(1)] obtain p' where
    p': "p' \<in> set (proposals d')" "proposal_core p' = proposal_core p" .
  have "p_id p' = p_id (proposal_core p')" by (simp add: proposal_core_def)
  also have "\<dots> = k" using p'(2) pk(2) by (simp add: proposal_core_def)
  finally show ?thesis using find_proposal_in[of d' p'] p' inv(2) by (auto simp: db_inv_def)
qed

lemma core_run_id: "proposal_core p = proposal_core q \<Longrightarrow> p_run_id p = p_run_id q \<and> p_action_hash p = p_action_hash q"
  by (cases p; cases q) (simp add: proposal_core_def)

lemma executing_later: "edge\<^sup>*\<^sup>* s t \<Longrightarrow> s \<in> {EXECUTING, SUCCEEDED, FAILED} \<Longrightarrow> t \<in> {EXECUTING, SUCCEEDED, FAILED}"
  by (induction rule: rtranclp_induct) auto

lemma sort_key_snoc_first:
  fixes f :: "'a \<Rightarrow> 'b::linorder"
  assumes "\<forall>y \<in> set ys. f x < f y"
  shows "sort_key f (ys @ [x]) = x # sort_key f ys"
  using assms by (induction ys) auto

section \<open>Properties\<close>

text \<open>C10: Every database the operations can reach satisfies the store's invariant: unique keys,
  resolved references, one live proposal per run whose status is the run's state, approved hashes
  equal to the row's hash, contiguous audit identifiers, and run states that their audit trails lead to.\<close>

theorem reachable_db_inv:
  assumes "reachable d"
  shows "db_inv d"
  using assms by (rule reachable_inv)

theorem reachable_db_inv_witness: "db_inv sample_executing"
  by (rule reachable_db_inv[OF sample_reachable(5)])

text \<open>C1: A run never disappears, its identity, key, payload and trace never change, and its state
  only moves along the edges of the lifecycle; a terminal run keeps its state.\<close>

theorem run_lifecycle:
  assumes "reachable d" and "store_step\<^sup>*\<^sup>* d d'" and "find_run k d = Some r"
  shows "\<exists>r'. find_run k d' = Some r' \<and> run_core r' = run_core r \<and>
    edge\<^sup>*\<^sup>* (r_state r) (r_state r') \<and> (terminal (r_state r) \<longrightarrow> r_state r' = r_state r)"
proof -
  have inv: "db_inv d" using assms(1) by (rule reachable_inv)
  with store_steps_sound[OF assms(2)] have "db_inv d'" "extends d d'" by blast+
  from run_later[OF inv this assms(3)] show ?thesis using terminal_stays by blast
qed

theorem run_lifecycle_witness:
  "\<exists>r'. find_run ''r1'' sample_executing = Some r' \<and> edge\<^sup>*\<^sup>* PROPOSED (r_state r')"
proof -
  have r: "find_run ''r1'' sample_proposed = Some (sample_run_in PROPOSED ''3'')"
    by (simp add: find_run_def sample_proposed_tables sample_simps)
  have "store_step\<^sup>*\<^sup>* sample_proposed sample_executing" using step_approved step_executing by auto
  from run_lifecycle[OF sample_reachable(3) this r] show ?thesis by (auto simp: sample_run_in_def)
qed

text \<open>History is append-only: no operation removes or reorders a run, a proposal or an audit
  row, and of a proposal only the status and the approved hash can ever change.\<close>

theorem history_append_only:
  assumes "reachable d" and "store_step\<^sup>*\<^sup>* d d'"
  shows "prefix (audit d) (audit d') \<and>
    prefix (map run_core (runs d)) (map run_core (runs d')) \<and>
    prefix (map proposal_core (proposals d)) (map proposal_core (proposals d'))"
  using store_steps_sound[OF assms(2) reachable_inv[OF assms(1)]] by (simp add: extends_def)

theorem history_append_only_witness: "prefix (audit sample_proposed) (audit sample_executing)"
proof -
  have "store_step\<^sup>*\<^sup>* sample_proposed sample_executing" using step_approved step_executing by auto
  from history_append_only[OF sample_reachable(3) this] show ?thesis by blast
qed

text \<open>C11: The audit trail of a run determines its state: replaying its \<open>state_transition\<close> rows from
  \<open>received\<close> follows lifecycle edges and ends in the state the run has, and in no other.\<close>

theorem trail_determines_state:
  assumes "reachable d" and "r \<in> set (runs d)"
  shows "follows RECEIVED (trail (r_id r) (audit d)) s \<longleftrightarrow> s = r_state r"
proof -
  have "follows RECEIVED (trail (r_id r) (audit d)) (r_state r)"
    using reachable_inv[OF assms(1)] assms(2) by (simp add: db_inv_def audit_ok_def)
  then show ?thesis using follows_unique by blast
qed

theorem trail_determines_state_witness:
  "follows RECEIVED (trail ''r1'' (audit sample_approved)) APPROVED"
  using trail_determines_state[OF sample_reachable(4), of "sample_run_in APPROVED ''4''" APPROVED]
  by (simp add: sample_approved_tables sample_simps)

text \<open>C12: \<open>decide_proposal\<close> on every branch: it binds to the current revision and digest, refuses a
  proposal or run that is not proposed, expires a due proposal instead of deciding it, and
  otherwise approves or rejects exactly as asked or hands on to the revision.\<close>

theorem decide_proposal_exactly:
  assumes "reachable d" and "find_proposal pid d = Some p"
  shows "\<exists>r. find_run (p_run_id p) d = Some r \<and>
    decide_proposal pid rv digest dec now actor w new_proposal d =
    (if p_revision p \<noteq> rv \<or> p_action_hash p \<noteq> digest
     then (Inl (StoreConflict ''decision does not bind to the current revision and action hash''), d)
     else if p_status p \<noteq> P_PROPOSED \<or> r_state r \<noteq> PROPOSED
     then (Inl (StoreConflict (''proposal is '' @ proposal_state_value (p_status p) @ '', not proposed'')), d)
     else if p_expires_at p \<le> now
     then (Inr (p_run_id p, ''expired''), expired_db p r now actor ''approval_ttl_elapsed'' d)
     else if dec = REVISE then transaction (revise_locked p r rv now actor new_proposal) d
     else (Inr (p_run_id p, run_state_value (settled_state dec)), settled_db p r dec now actor w d))"
proof -
  have inv: "db_inv d" using assms(1) by (rule reachable_inv)
  obtain r where r: "find_run (p_run_id p) d = Some r" using run_of_found[OF inv assms(2)] .
  with decide_eq[OF inv assms(2) r] show ?thesis by blast
qed

theorem decide_proposal_exactly_witness:
  "fst (decide_proposal ''p1'' 1 ''y'' APPROVE ''4'' ''u'' 1 None sample_proposed) =
     Inl (StoreConflict ''decision does not bind to the current revision and action hash'')"
proof -
  have "find_proposal ''p1'' sample_proposed = Some (sample_proposal_in P_PROPOSED None)"
    by (simp add: find_proposal_def sample_proposed_tables sample_simps)
  from decide_proposal_exactly[OF sample_reachable(3) this, of 1 "''y''" APPROVE "''4''" "''u''" 1 None]
  show ?thesis by (auto simp: sample_simps)
qed

lemma claimed_facts:
  assumes "reachable d" and "claim_execution pid digest now actor d = (Inr (Claimed p), d')"
  shows "find_proposal pid d = Some p \<and> p_status p = P_APPROVED \<and> p_approved_hash p = Some digest \<and>
    p_action_hash p = digest \<and> now < p_expires_at p \<and>
    (\<exists>r. find_run (p_run_id p) d = Some r \<and> r_state r = APPROVED \<and>
      find_run (p_run_id p) d' = Some (r\<lparr>r_state := EXECUTING, r_updated_at := now\<rparr>) \<and>
      find_proposal pid d' = Some (p\<lparr>p_status := P_EXECUTING\<rparr>))"
proof -
  have inv: "db_inv d" using assms(1) by (rule reachable_inv)
  obtain q where q: "find_proposal pid d = Some q"
    using assms(2) by (cases "find_proposal pid d")
      (simp_all add: claim_execution_def transaction_def claim_execution_body_def)
  obtain r where r: "find_run (p_run_id q) d = Some r" using run_of_found[OF inv q] .
  have qd: "q \<in> set (proposals d)" "p_id q = pid" using find_proposal_SomeD[OF q] by simp_all
  have k: "keys_ok d" "approved_ok q" using inv qd by (auto simp: db_inv_def links_ok_def)
  from claim_eq[OF inv q r, of digest now actor, unfolded assms(2)]
  have c: "p_status q = P_APPROVED" "r_state r = APPROVED" "p_action_hash q = digest" "now < p_expires_at q"
    "p = q" and d': "d' = move_both q r (execute_row P_EXECUTING) EXECUTING ''execution atomically claimed'' actor now d"
    by (auto split: if_splits)
  have "execute_row P_EXECUTING q \<in> set (proposals d')"
    using qd(1) by (auto simp: d' changed_eq[OF k(1) qd(1)])
  moreover have "keys_ok d'" using claim_inv[OF inv assms(2)] by (simp add: db_inv_def)
  ultimately have "find_proposal (p_id (execute_row P_EXECUTING q)) d' = Some (execute_row P_EXECUTING q)"
    by (rule find_proposal_in[rotated])
  then have "find_proposal pid d' = Some (p\<lparr>p_status := P_EXECUTING\<rparr>)"
    by (simp add: qd(2) c(5) execute_row_def)
  moreover have "find_run (p_run_id q) d' = Some (r\<lparr>r_state := EXECUTING, r_updated_at := now\<rparr>)"
    using find_run_moved(1)[OF r, of EXECUTING now] by (simp add: d')
  moreover have "p_approved_hash q = Some digest"
    using k(2) c by (auto simp: approved_ok_def split: option.splits)
  ultimately show ?thesis using q r c by auto
qed

text \<open>C9: Execution presupposes approval: a claim succeeds only on a proposal whose status is
  approved, whose approved hash and action hash are the digest presented and which has not
  expired, with its run approved; afterwards proposal and run are executing.\<close>

theorem claim_needs_approval:
  assumes "reachable d" and "claim_execution pid digest now actor d = (Inr (Claimed p), d')"
  shows "find_proposal pid d = Some p \<and> p_status p = P_APPROVED \<and> p_approved_hash p = Some digest \<and>
    p_action_hash p = digest \<and> now < p_expires_at p \<and>
    (\<exists>r. find_run (p_run_id p) d = Some r \<and> r_state r = APPROVED \<and>
      find_run (p_run_id p) d' = Some (r\<lparr>r_state := EXECUTING, r_updated_at := now\<rparr>) \<and>
      find_proposal pid d' = Some (p\<lparr>p_status := P_EXECUTING\<rparr>))"
  using assms by (rule claimed_facts)

lemma sample_claim:
  "claim_execution ''p1'' ''x'' ''5'' ''u'' sample_approved =
     (Inr (Claimed (sample_proposal_in P_APPROVED (Some ''x''))), sample_executing)"
  unfolding sample_executing_def
  by (simp add: prod_eq_iff) (simp add: sample_approved_tables store_simps sample_simps)

theorem claim_needs_approval_witness:
  "find_proposal ''p1'' sample_executing = Some (sample_proposal_in P_EXECUTING (Some ''x''))"
  using claim_needs_approval[OF sample_reachable(4) sample_claim] by (auto simp: sample_proposal_in_def new_row_def)

text \<open>C8: A proposal is executed at most once: after a successful claim no later claim of the same
  proposal succeeds, whatever happened in between.\<close>

theorem claimed_at_most_once:
  assumes "reachable d" and "claim_execution pid digest now actor d = (Inr (Claimed p), d1)"
    and "store_step\<^sup>*\<^sup>* d1 d2"
  shows "fst (claim_execution pid digest' now' actor' d2) \<noteq> Inr (Claimed p')"
proof
  assume again: "fst (claim_execution pid digest' now' actor' d2) = Inr (Claimed p')"
  have inv: "db_inv d" using assms(1) by (rule reachable_inv)
  then have inv1: "db_inv d1" using claim_inv[OF inv assms(2)] by simp
  with store_steps_sound[OF assms(3)] have inv2: "db_inv d2" and e: "extends d1 d2" by blast+
  obtain q where q: "find_proposal pid d = Some q"
    using assms(2) by (cases "find_proposal pid d")
      (simp_all add: claim_execution_def transaction_def claim_execution_body_def)
  obtain r where r: "find_run (p_run_id q) d = Some r" using run_of_found[OF inv q] .
  from claim_eq[OF inv q r, of digest now actor, unfolded assms(2)]
  have d1: "d1 = move_both q r (execute_row P_EXECUTING) EXECUTING ''execution atomically claimed'' actor now d"
    by (auto split: if_splits)
  have r1: "find_run (p_run_id q) d1 = Some (r\<lparr>r_state := EXECUTING, r_updated_at := now\<rparr>)"
    using find_run_moved(1)[OF r, of EXECUTING now] by (simp add: d1)
  have e0: "extends d d1"
    using claim.sound[OF TrueI inv, of pid digest now actor] assms(2) by (auto simp: claim_execution_def)
  from proposal_later[OF inv inv2 extends_trans[OF e0 e] q] obtain q2 where
    q2: "find_proposal pid d2 = Some q2" "p_run_id q2 = p_run_id q"
    using core_run_id by blast
  from run_later[OF inv1 inv2 e r1] obtain r2 where
    r2: "find_run (p_run_id q2) d2 = Some r2" "edge\<^sup>*\<^sup>* EXECUTING (r_state r2)"
    by (auto simp: q2(2))
  have "r_state r2 \<noteq> APPROVED" using executing_later[OF r2(2)] by auto
  with again claim_eq[OF inv2 q2(1) r2(1), of digest' now' actor'] show False
    by (auto split: if_splits)
qed

theorem claimed_at_most_once_witness:
  "\<forall>p'. fst (claim_execution ''p1'' ''x'' ''6'' ''u'' sample_executing) \<noteq> Inr (Claimed p')"
  by (intro allI claimed_at_most_once[OF sample_reachable(4) sample_claim rtranclp.rtrancl_refl])

lemma expire_due_settles:
  assumes "reachable d"
  shows "\<exists>d'. expire_due now actor d = (Inr (length (filter (\<lambda>q. is_due now q \<and> waiting d q) (proposals d))), d') \<and>
    proposals d' = map (\<lambda>q. if is_due now q \<and> waiting d q then q\<lparr>p_status := P_EXPIRED\<rparr> else q) (proposals d) \<and>
    (\<forall>q \<in> set (proposals d'). is_due now q \<longrightarrow>
       (\<exists>r. find_run (p_run_id q) d = Some r \<and> r_state r = FAILED))"
proof -
  have inv: "db_inv d" using assms by (rule reachable_inv)
  from expire_due_loop[OF inv, of now actor] obtain d' where
    loop: "expire_loop now actor (due_list now d) 0 d = Inr (length (filter (waiting d) (due_list now d)), d')"
    and ps: "proposals d' = map (\<lambda>q. if is_due now q \<and> waiting d q then expire_row q else q) (proposals d)"
    by blast
  have "length (filter (waiting d) (due_list now d)) = length (filter (\<lambda>q. is_due now q \<and> waiting d q) (proposals d))"
    by (simp add: due_list_def filter_sort conj_commute)
  then have "expire_due now actor d = (Inr (length (filter (\<lambda>q. is_due now q \<and> waiting d q) (proposals d))), d')"
    by (simp add: expire_due_eq transaction_def loop)
  moreover have "\<exists>r. find_run (p_run_id q) d = Some r \<and> r_state r = FAILED"
    if q: "q \<in> set (proposals d')" "is_due now q" for q
  proof -
    have qd: "q \<in> set (proposals d)" "\<not> waiting d q"
      using q by (auto simp: ps is_due_def expire_row_def split: if_splits)
    obtain r where r: "find_run (p_run_id q) d = Some r"
      using find_run_of_proposal[of d q] inv qd(1) by (auto simp: db_inv_def)
    have "p_status q \<noteq> P_SUPERSEDED" using q(2) by (auto simp: is_due_def)
    from live_fits(2)[OF inv qd(1) r this] have "r_state r = FAILED"
      using q(2) qd(2) r by (auto simp: is_due_def waiting_def)
    with r show ?thesis by blast
  qed
  ultimately show ?thesis using ps unfolding expire_row_def by blast
qed

text \<open>C13: Apart from failures of SQLite, which are outside the model of the store, \<open>expire_due\<close> never raises; it counts exactly the due proposals of waiting runs, changes
  nothing else, and leaves no due proposal behind except on runs that have failed.\<close>

theorem expire_due_complete:
  assumes "reachable d"
  shows "\<exists>d'. expire_due now actor d = (Inr (length (filter (\<lambda>q. is_due now q \<and> waiting d q) (proposals d))), d') \<and>
    proposals d' = map (\<lambda>q. if is_due now q \<and> waiting d q then q\<lparr>p_status := P_EXPIRED\<rparr> else q) (proposals d) \<and>
    (\<forall>q \<in> set (proposals d'). is_due now q \<longrightarrow>
       (\<exists>r. find_run (p_run_id q) d = Some r \<and> r_state r = FAILED))"
  using expire_due_settles[OF assms] .

theorem expire_due_complete_witness:
  "fst (expire_due ''8'' ''system'' sample_proposed) = Inr 1 \<and> fst (expire_due ''4'' ''system'' sample_proposed) = Inr 0"
proof -
  have "is_due ''8'' (sample_proposal_in P_PROPOSED None)" "\<not> is_due ''4'' (sample_proposal_in P_PROPOSED None)"
    by (simp_all add: is_due_def sample_simps less_char_def)
  moreover have "waiting sample_proposed (sample_proposal_in P_PROPOSED None)"
    by (simp add: waiting_def find_run_def sample_proposed_tables sample_simps)
  ultimately show ?thesis
    using expire_due_complete[OF sample_reachable(3), of "''8''" "''system''"]
      expire_due_complete[OF sample_reachable(3), of "''4''" "''system''"]
    by (auto simp: sample_proposed_tables)
qed


text \<open>A proposal that lives thirty seconds, approved: it is claimed up to the last microsecond.\<close>

definition timed_draft :: proposal_draft where
  "timed_draft = (sample_draft ''p1'' 1)\<lparr>np_created_at := isoformat (sample_time 0 0),
     np_expires_at := isoformat (sample_time 30 0)\<rparr>"

definition timed_proposed :: db where
  "timed_proposed =
     snd (create_proposal_and_transition timed_draft ''r1'' P_PROPOSED ''3'' ''t'' ''u'' 5 sample_assessed)"

definition timed_row :: proposal_row where
  "timed_row = new_row timed_draft ''r1'' P_PROPOSED"

lemma timed_tables: "runs timed_proposed = [sample_run_in PROPOSED ''3'']" "proposals timed_proposed = [timed_row]"
  by (simp_all add: timed_proposed_def timed_draft_def timed_row_def sample_assessed_tables store_simps sample_simps)

lemma timed_reachable: "reachable timed_proposed"
proof -
  have "store_step sample_assessed timed_proposed"
    unfolding timed_proposed_def by (rule store_step_snd) (simp add: timed_draft_def sample_draft_def)
  with sample_reachable(2) show ?thesis by (rule reachable_step)
qed

lemma thirty_seconds: "add_seconds (sample_time 0 0) 30 = Inr (sample_time 30 0)"
  by (simp add: add_seconds_def sample_time_def second_of_day_def date_of_def)


text \<open>The latest proposal of a run is its one live proposal: it has the highest revision, its
  status is the run's state, and all earlier revisions are superseded.\<close>

theorem latest_proposal_live:
  assumes "reachable d" and "find_run k d = Some r" and "proposals_of k (proposals d) \<noteq> []"
  shows "\<exists>p. latest_proposal k d = Some p \<and> status_fits (p_status p) (r_state r) \<and>
    p_revision p = int (length (proposals_of k (proposals d))) \<and>
    (\<forall>q \<in> set (proposals_of k (proposals d)). q = p \<or> (p_status q = P_SUPERSEDED \<and> p_revision q < p_revision p))"
proof -
  have "db_inv d" using assms(1) by (rule reachable_inv)
  then have c: "coherent (r_state r) (proposals_of k (proposals d))"
    using find_run_SomeD[OF assms(2)] by (auto simp: db_inv_def links_ok_def)
  obtain os p where os: "proposals_of k (proposals d) = os @ [p]" using assms(3) by (metis rev_exhaust)
  note rev = coherent_revisions[OF c[unfolded os]]
  have lower: "p_revision q < p_revision p" if "q \<in> set os" for q
  proof -
    have "map p_revision os = [1..int (length os)]"
      using rev by (simp add: upto_rec2)
    then have "p_revision q \<in> set [1..int (length os)]" using that by (metis image_eqI list.set_map)
    with rev show ?thesis by simp
  qed
  have "sort_key (\<lambda>p. - p_revision p) (os @ [p]) = p # sort_key (\<lambda>p. - p_revision p) os"
    using lower by (simp add: sort_key_snoc_first)
  then have "latest_proposal k d = Some p"
    using os by (simp add: latest_proposal_def proposals_of_def)
  moreover have "\<forall>q \<in> set os. p_status q = P_SUPERSEDED" "status_fits (p_status p) (r_state r)"
    using c by (simp_all add: os coherent_def list_all_iff)
  ultimately show ?thesis using lower rev by (auto simp: os)
qed

theorem latest_proposal_live_witness:
  "\<exists>p. latest_proposal ''r1'' sample_approved = Some p \<and> status_fits (p_status p) APPROVED"
proof -
  have r: "find_run ''r1'' sample_approved = Some (sample_run_in APPROVED ''4'')"
    by (simp add: find_run_def sample_approved_tables sample_simps)
  have "proposals_of ''r1'' (proposals sample_approved) \<noteq> []"
    by (simp add: sample_approved_tables sample_simps)
  from latest_proposal_live[OF sample_reachable(4) r this] show ?thesis
    by (auto simp: sample_run_in_def)
qed

text \<open>Creating a run is idempotent for ever: once an event is stored, submitting its key again,
  with whatever new identifier and at any later time, returns that run unchanged when the payload
  hash is the same and raises \<open>IdempotencyConflict\<close> otherwise, and writes nothing.\<close>

theorem create_idempotent:
  assumes "reachable d" and "create_or_get_run row e d = (Inr (row, True), d1)"
    and "r_state row = RECEIVED" and "e_run_id e = r_id row" and "e_event_type e \<noteq> ''state_transition''"
    and "store_step\<^sup>*\<^sup>* d1 d2" and "r_key row' = r_key row"
  shows "\<exists>r. find_run (r_id row) d2 = Some r \<and>
    create_or_get_run row' e' d2 =
      (if r_payload_hash row' = r_payload_hash row then (Inr (r, False), d2)
       else (Inl (IdempotencyConflict ''idempotency key belongs to a different normalized event''), d2))"
proof -
  have inv: "db_inv d" using assms(1) by (rule reachable_inv)
  have "db_inv d1 \<and> extends d d1"
    by (rule create.sound[OF _ inv assms(2)[unfolded create_or_get_run_def]]) (use assms in simp)
  then have inv1: "db_inv d1" by blast
  with store_steps_sound[OF assms(6)] have inv2: "db_inv d2" "extends d1 d2" by blast+
  have "find_run (r_id row) d1 \<noteq> None \<and> r_payload_hash (the (find_run (r_id row) d1)) = r_payload_hash row \<and>
      r_key (the (find_run (r_id row) d1)) = r_key row"
    using assms(2) by (auto simp: create_or_get_run_def transaction_def create_or_get_run_body_def
        bindE_Inr_iff insert_audit_eq find_run_def split: sum.splits option.splits if_splits)
  then obtain r1 where r1: "find_run (r_id row) d1 = Some r1" "r_payload_hash r1 = r_payload_hash row"
      "r_key r1 = r_key row" by auto
  from run_later[OF inv1 inv2 r1(1)] obtain r where r: "find_run (r_id row) d2 = Some r"
      "run_core r = run_core r1" by blast
  then have core: "r_payload_hash r = r_payload_hash row" "r_key r = r_key row'"
    using r1 assms(7) by (simp_all add: run_core_def)
  have "select_one r_key (r_key r) (runs d2) = Some r"
    by (rule select_one_distinct) (use inv2 find_run_SomeD[OF r(1)] in \<open>simp_all add: db_inv_def keys_ok_def\<close>)
  then have "create_or_get_run row' e' d2 =
      (if r_payload_hash row' = r_payload_hash row then (Inr (r, False), d2)
       else (Inl (IdempotencyConflict ''idempotency key belongs to a different normalized event''), d2))"
    by (simp add: create_or_get_run_def transaction_def create_or_get_run_body_def core[symmetric])
  with r(1) show ?thesis by blast
qed

theorem create_idempotent_witness:
  "\<exists>r. create_or_get_run (sample_row\<lparr>r_id := ''r2''\<rparr>) sample_entry sample_assessed = (Inr (r, False), sample_assessed)"
proof -
  have c: "create_or_get_run sample_row sample_entry empty_db = (Inr (sample_row, True), sample_created)"
    unfolding sample_created_def
    by (simp add: prod_eq_iff) (simp add: empty_db_def store_simps sample_simps)
  have "reachable empty_db" by (simp add: reachable_def)
  from create_idempotent[OF this c _ _ _ steps_assessed, of "sample_row\<lparr>r_id := ''r2''\<rparr>" sample_entry]
  show ?thesis by (simp add: sample_row_def sample_entry_def) blast
qed

text \<open>\<open>fail_run\<close> never raises, and afterwards the run, if it exists, is in a terminal state.\<close>

theorem fail_run_terminal:
  assumes "reachable d"
  shows "\<exists>d'. fail_run k now actor reason d = (Inr (), d') \<and>
    (find_run k d = None \<longrightarrow> d' = d) \<and>
    (\<forall>r. find_run k d = Some r \<longrightarrow> (\<exists>r'. find_run k d' = Some r' \<and>
       r_state r' = (if terminal (r_state r) then r_state r else FAILED)))"
proof (cases "find_run k d")
  case None
  then show ?thesis by (simp add: fail_run_def transaction_def fail_run_body_def)
next
  case (Some r)
  then show ?thesis
    using find_run_moved(1)[OF Some, of FAILED now]
    by (simp add: fail_run_def transaction_def fail_run_body_def Let_def case_set_run_state
        insert_audit_eq)
qed

theorem fail_run_terminal_witness:
  "\<exists>d'. fail_run ''r1'' ''6'' ''u'' ''OSError'' sample_executing = (Inr (), d') \<and>
     (\<exists>r'. find_run ''r1'' d' = Some r' \<and> r_state r' = FAILED)"
proof -
  have "find_run ''r1'' sample_executing = Some (sample_run_in EXECUTING ''5'')"
    by (simp add: find_run_def sample_executing_tables sample_simps)
  with fail_run_terminal[OF sample_reachable(5), of "''r1''" "''6''" "''u''" "''OSError''"]
  show ?thesis by (auto simp: sample_run_in_def terminal_def)
qed

end
