(* ===== verification/Policy.thy ===== *)
theory Policy
  imports Schemas
begin

text \<open>
  \<open>policy.py\<close>: the table of allowed actions, which scenario and evidence kind authorise which
  action, the construction of a remediation option from a model's assessment and an
  application-chosen binding, and the action digest an approval binds to. SHA-256 is the
  parameter \<open>sha\<close>, from text to its hexadecimal digest; the float printer is \<open>fr\<close>.
\<close>

record action_definition =
  ad_title :: string
  ad_impact :: string
  ad_risk :: string
  ad_preview :: string
  ad_requires_parameters :: bool
  ad_requires_capability :: bool
  ad_parameter_minimum :: int
  ad_parameter_maximum :: int
  ad_parameter_target_key :: string

text \<open>An action without parameters: the optional entries are absent and never read.\<close>

definition plain_action :: "string \<Rightarrow> string \<Rightarrow> string \<Rightarrow> string \<Rightarrow> action_definition" where
  "plain_action title impact risk preview =
     \<lparr>ad_title = title, ad_impact = impact, ad_risk = risk, ad_preview = preview,
      ad_requires_parameters = False, ad_requires_capability = False,
      ad_parameter_minimum = 0, ad_parameter_maximum = 0, ad_parameter_target_key = ''''\<rparr>"

definition ALLOWED_ACTIONS :: "(string \<times> action_definition) list" where
  "ALLOWED_ACTIONS =
    [(''cleanup_rotated_logs'', plain_action
        ''Clean up rotated logs''
        ''Reclaims disposable-sandbox disk space by deleting known rotated-log artifacts.''
        ''Low: fixed-scope deletion inside the disposable incident sandbox only.''
        ''Delete matching rotated-log artifacts from the configured disposable sandbox.''),
     (''stop_runaway_process'', plain_action
        ''Clear the runaway-CPU marker fixture''
        ''Clears the fixed synthetic marker used to exercise the CPU incident workflow.''
        ''Low: fixed-scope marker removal inside the disposable incident sandbox only.''
        ''Remove the fixed runaway-CPU marker; no real process is stopped.''),
     (''restart_disposable_service'', plain_action
        ''Reset the restart-loop marker fixture''
        ''Clears the fixed restart-loop marker and writes a synthetic healthy marker.''
        ''Low: fixed-scope marker changes inside the disposable incident sandbox only.''
        ''Reset synthetic service markers; no real service is restarted.''),
     (''restart_unhealthy_container_service'', plain_action
        ''Restart the unhealthy disposable service''
        ''Restarts the exact owned disposable service container and verifies its bounded health check.''
        ''Low: one internally created container target; no host or caller-selected service is reachable.''
        ''Restart the owned disposable service once and wait for its health status to become healthy.''),
     (''stop_memory_hog'', plain_action
        ''Clear the memory-pressure marker fixture''
        ''Clears the fixed marker used to exercise the memory-pressure workflow.''
        ''Low: fixed-scope marker removal inside the disposable incident sandbox only.''
        ''Remove the memory-pressure marker; no real process memory is reclaimed.''),
     (''cleanup_log_storm_temp_files'', plain_action
        ''Clean up log-storm temporary files''
        ''Reclaims disposable-sandbox space from fixed log-storm and temporary-file artifacts.''
        ''Low: fixed-scope storm artifacts inside the disposable incident sandbox only.''
        ''Delete fixed log-storm and temporary-file artifacts from the disposable sandbox.''),
     (''reduce_worker_concurrency'',
        \<lparr>ad_title = ''Reduce worker concurrency'',
         ad_impact = ''Lowers the owned disposable worker's concurrency to the approved bound and verifies recovery.'',
         ad_risk = ''Low: one owned disposable worker target; concrete values are chosen by application code and bound by approval.'',
         ad_preview = ''Set the owned worker's concurrency to the approved target and verify its health check recovers.'',
         ad_requires_parameters = True, ad_requires_capability = True,
         ad_parameter_minimum = 1, ad_parameter_maximum = 8,
         ad_parameter_target_key = ''target_concurrency''\<rparr>)]"

definition SCENARIO_KIND_ACTIONS :: "((scenario \<times> scenario_kind) \<times> string list) list" where
  "SCENARIO_KIND_ACTIONS =
    [((DISK_EXHAUSTION, SYNTHETIC_MARKER), [''cleanup_rotated_logs'']),
     ((RUNAWAY_CPU, SYNTHETIC_MARKER), [''stop_runaway_process'']),
     ((MEMORY_OOM, SYNTHETIC_MARKER), [''stop_memory_hog'']),
     ((RESTARTING_SERVICE, SYNTHETIC_MARKER), [''restart_disposable_service'']),
     ((RESTARTING_SERVICE, CONTAINER_FAULT), [''restart_unhealthy_container_service'']),
     ((LOG_STORM, SYNTHETIC_MARKER), [''cleanup_log_storm_temp_files'']),
     ((WORKER_CONCURRENCY, SYNTHETIC_MARKER), [''reduce_worker_concurrency''])]"

definition allowed_actions :: "scenario \<Rightarrow> scenario_kind \<Rightarrow> exn + string list" where
  "allowed_actions s k =
     (case map_of SCENARIO_KIND_ACTIONS (s, k) of
        None \<Rightarrow> Inl (SafetyViolation (''scenario '' @ scenario_value s @
                  '' does not support evidence kind '' @ kind_value k))
      | Some actions \<Rightarrow> Inr actions)"

definition validate_scenario_action :: "scenario \<Rightarrow> scenario_kind \<Rightarrow> string \<Rightarrow> exn + unit" where
  "validate_scenario_action s k action_id =
     bindE (allowed_actions s k) (\<lambda>actions.
       if action_id \<notin> set actions
       then Inl (SafetyViolation (''action '' @ action_id @ '' is not authorized for scenario '' @
              scenario_value s @ '' and evidence kind '' @ kind_value k))
       else Inr ())"

text \<open>Application-chosen concrete binding for an option, never model-supplied.\<close>

record option_binding =
  ob_parameters :: "(string \<times> json) list option"
  ob_target_id :: "string option"
  ob_capability :: "capability_binding option"

definition validate_action_parameters ::
    "string \<Rightarrow> action_definition \<Rightarrow> (string \<times> json) list option \<Rightarrow> exn + unit" where
  "validate_action_parameters action_id d parameters =
     (case parameters of
        None \<Rightarrow> Inl (SafetyViolation (''action '' @ action_id @ '' requires concrete application-chosen parameters''))
      | Some kvs \<Rightarrow>
          if set (map fst kvs) \<noteq> {ad_parameter_target_key d}
          then Inl (SafetyViolation (''action '' @ action_id @ '' requires exactly the approved parameter key''))
          else (case map_of kvs (ad_parameter_target_key d) of
              Some (JInt v) \<Rightarrow>
                if ad_parameter_minimum d \<le> v \<and> v \<le> ad_parameter_maximum d then Inr ()
                else Inl (SafetyViolation (''action '' @ action_id @ '' target parameter is outside approved bounds''))
            | _ \<Rightarrow> Inl (SafetyViolation (''action '' @ action_id @ '' target parameter must be an integer''))))"

definition validate_action_capability ::
    "string \<Rightarrow> capability_binding option \<Rightarrow> exn + unit" where
  "validate_action_capability action_id capability =
     (case capability of
        None \<Rightarrow> Inl (SafetyViolation (''action '' @ action_id @ '' requires a promoted capability binding''))
      | Some c \<Rightarrow>
          if cb_capability_id c \<noteq> ''reduce_worker_concurrency''
          then Inl (SafetyViolation (''action '' @ action_id @ '' is not authorized by capability '' @ cb_capability_id c))
          else Inr ())"

definition target_id_bounded :: "string option \<Rightarrow> bool" where
  "target_id_bounded t \<longleftrightarrow>
     (case t of None \<Rightarrow> True | Some s \<Rightarrow> matches_target s \<and> bounded_text 1 128 s)"

definition build_option ::
    "scenario \<Rightarrow> scenario_kind \<Rightarrow> model_assessment \<Rightarrow> option_binding option \<Rightarrow> exn + remediation_option"
where
  "build_option s k a b =
     (case map_of ALLOWED_ACTIONS (ma_action_id a) of
        None \<Rightarrow> Inl (SafetyViolation (''model selected an action outside the allowlist: '' @ ma_action_id a))
      | Some d \<Rightarrow>
          let parameters = (case b of None \<Rightarrow> None | Some x \<Rightarrow> ob_parameters x);
              target_id = (case b of None \<Rightarrow> None | Some x \<Rightarrow> ob_target_id x);
              capability = (case b of None \<Rightarrow> None | Some x \<Rightarrow> ob_capability x)
          in
            bindE (validate_scenario_action s k (ma_action_id a)) (\<lambda>_.
            bindE (if ad_requires_parameters d
                   then validate_action_parameters (ma_action_id a) d parameters else Inr ()) (\<lambda>_.
            bindE (if ad_requires_capability d
                   then validate_action_capability (ma_action_id a) capability else Inr ()) (\<lambda>_.
            if \<not> target_id_bounded target_id
            then Inl (SafetyViolation ''action target identifier is not bounded'')
            else check_option
              \<lparr>ro_action_id = ma_action_id a, ro_title = ad_title d, ro_evidence = ma_evidence_refs a,
               ro_confidence = ma_confidence a, ro_impact = ad_impact d, ro_risk = ad_risk d,
               ro_action_preview = ad_preview d, ro_parameters = parameters,
               ro_target_id = target_id, ro_capability = capability\<rparr>))))"

definition action_document :: "int \<Rightarrow> scenario \<Rightarrow> scenario_kind \<Rightarrow> remediation_option \<Rightarrow> json" where
  "action_document revision s k opt =
     JObj [(''revision'', JInt revision), (''scenario'', JStr (scenario_value s)),
           (''scenario_kind'', JStr (kind_value k)), (''option'', option_json opt)]"

definition action_hash ::
    "(string \<Rightarrow> string) \<Rightarrow> (rat \<Rightarrow> string) \<Rightarrow> int \<Rightarrow> scenario \<Rightarrow> scenario_kind \<Rightarrow> remediation_option \<Rightarrow> string"
where
  "action_hash sha fr revision s k opt = sha (json_text fr (action_document revision s k opt))"

section \<open>Lemmas\<close>

lemma validate_scenario_action_iff:
  "validate_scenario_action s k action_id = Inr () \<longleftrightarrow>
     (\<exists>actions. allowed_actions s k = Inr actions \<and> action_id \<in> set actions)"
  by (cases "allowed_actions s k") (simp_all add: validate_scenario_action_def)

lemma map_of_ALLOWED_ACTIONS_requires:
  assumes "map_of ALLOWED_ACTIONS a = Some d"
  shows "ad_requires_parameters d = (a = ''reduce_worker_concurrency'') \<and>
    ad_requires_capability d = (a = ''reduce_worker_concurrency'') \<and>
    (a = ''reduce_worker_concurrency'' \<longrightarrow> ad_parameter_minimum d = 1 \<and> ad_parameter_maximum d = 8 \<and>
       ad_parameter_target_key d = ''target_concurrency'')"
  using assms by (auto simp: ALLOWED_ACTIONS_def plain_action_def split: if_splits)

lemma validate_action_parameters_ok:
  "validate_action_parameters a d ps = Inr () \<longleftrightarrow>
     (\<exists>kvs v. ps = Some kvs \<and> set (map fst kvs) = {ad_parameter_target_key d} \<and>
        map_of kvs (ad_parameter_target_key d) = Some (JInt v) \<and>
        ad_parameter_minimum d \<le> v \<and> v \<le> ad_parameter_maximum d)"
  by (auto simp: validate_action_parameters_def split: option.splits json.splits if_splits)

lemma validate_action_capability_ok:
  "validate_action_capability a c = Inr () \<longleftrightarrow>
     (\<exists>b. c = Some b \<and> cb_capability_id b = ''reduce_worker_concurrency'')"
  by (auto simp: validate_action_capability_def split: option.splits)

text \<open>What a successful construction says, in one place.\<close>

definition option_authorised ::
    "scenario \<Rightarrow> scenario_kind \<Rightarrow> remediation_option \<Rightarrow> bool" where
  "option_authorised s k opt \<longleftrightarrow>
     (\<exists>actions d. allowed_actions s k = Inr actions \<and> ro_action_id opt \<in> set actions \<and>
        map_of ALLOWED_ACTIONS (ro_action_id opt) = Some d \<and>
        ro_title opt = ad_title d \<and> ro_impact opt = ad_impact d \<and> ro_risk opt = ad_risk d \<and>
        ro_action_preview opt = ad_preview d) \<and>
     valid_option opt \<and>
     (ro_action_id opt = ''reduce_worker_concurrency'' \<longrightarrow>
        (\<exists>kvs v c. ro_parameters opt = Some kvs \<and> set (map fst kvs) = {''target_concurrency''} \<and>
           map_of kvs ''target_concurrency'' = Some (JInt v) \<and> 1 \<le> v \<and> v \<le> 8 \<and>
           ro_capability opt = Some c \<and> cb_capability_id c = ''reduce_worker_concurrency''))"

definition bound :: "(option_binding \<Rightarrow> 'a option) \<Rightarrow> option_binding option \<Rightarrow> 'a option" where
  "bound f b = Option.bind b f"

lemma target_bounded_if_valid: "valid_option opt \<Longrightarrow> target_id_bounded (ro_target_id opt)"
  by (auto simp: valid_option_def target_id_bounded_def bounded_text_def matches_target_def
      Suc_le_eq split: option.splits)

lemma build_option_Inr_iff:
  "build_option s k a b = Inr opt \<longleftrightarrow>
     option_authorised s k opt \<and> ro_action_id opt = ma_action_id a \<and>
     ro_evidence opt = ma_evidence_refs a \<and> ro_confidence opt = ma_confidence a \<and>
     ro_parameters opt = bound ob_parameters b \<and> ro_target_id opt = bound ob_target_id b \<and>
     ro_capability opt = bound ob_capability b"
proof (cases "map_of ALLOWED_ACTIONS (ma_action_id a)")
  case None
  then show ?thesis by (auto simp: build_option_def option_authorised_def)
next
  case (Some d)
  have b: "(case b of None \<Rightarrow> None | Some x \<Rightarrow> f x) = bound f b" for f :: "option_binding \<Rightarrow> 'x option"
    by (cases b) (simp_all add: bound_def)
  have unit: "m = Inr u \<longleftrightarrow> m = Inr ()" for m :: "exn + unit" and u by simp
  let ?o = "\<lparr>ro_action_id = ma_action_id a, ro_title = ad_title d, ro_evidence = ma_evidence_refs a,
               ro_confidence = ma_confidence a, ro_impact = ad_impact d, ro_risk = ad_risk d,
               ro_action_preview = ad_preview d, ro_parameters = bound ob_parameters b,
               ro_target_id = bound ob_target_id b, ro_capability = bound ob_capability b\<rparr>"
  have l: "build_option s k a b = Inr opt \<longleftrightarrow>
      validate_scenario_action s k (ma_action_id a) = Inr () \<and>
      (ad_requires_parameters d \<longrightarrow>
         validate_action_parameters (ma_action_id a) d (bound ob_parameters b) = Inr ()) \<and>
      (ad_requires_capability d \<longrightarrow>
         validate_action_capability (ma_action_id a) (bound ob_capability b) = Inr ()) \<and>
      target_id_bounded (bound ob_target_id b) \<and> valid_option ?o \<and> ?o = opt"
    by (simp add: build_option_def Some b Let_def bindE_Inr_iff check_option_def)
  note req = map_of_ALLOWED_ACTIONS_requires[OF Some]
  note ok = validate_scenario_action_iff validate_action_parameters_ok validate_action_capability_ok
  show ?thesis
  proof
    assume "build_option s k a b = Inr opt"
    note facts = this[unfolded l ok]
    then have opt: "opt = ?o" by simp
    show "option_authorised s k opt \<and> ro_action_id opt = ma_action_id a \<and>
        ro_evidence opt = ma_evidence_refs a \<and> ro_confidence opt = ma_confidence a \<and>
        ro_parameters opt = bound ob_parameters b \<and> ro_target_id opt = bound ob_target_id b \<and>
        ro_capability opt = bound ob_capability b"
      using facts req Some unfolding opt option_authorised_def by simp
  next
    assume r: "option_authorised s k opt \<and> ro_action_id opt = ma_action_id a \<and>
        ro_evidence opt = ma_evidence_refs a \<and> ro_confidence opt = ma_confidence a \<and>
        ro_parameters opt = bound ob_parameters b \<and> ro_target_id opt = bound ob_target_id b \<and>
        ro_capability opt = bound ob_capability b"
    from r Some have texts: "ro_title opt = ad_title d" "ro_impact opt = ad_impact d"
        "ro_risk opt = ad_risk d" "ro_action_preview opt = ad_preview d"
      unfolding option_authorised_def by (metis option.inject)+
    with r have "?o = opt" by (cases opt) simp
    moreover have "target_id_bounded (bound ob_target_id b)"
      using r target_bounded_if_valid[of opt] by (simp add: option_authorised_def)
    moreover have "\<exists>actions. allowed_actions s k = Inr actions \<and> ma_action_id a \<in> set actions"
      using r unfolding option_authorised_def by metis
    moreover have "valid_option opt" using r by (simp add: option_authorised_def)
    moreover have "(\<exists>kvs v. bound ob_parameters b = Some kvs \<and>
          set (map fst kvs) = {ad_parameter_target_key d} \<and>
          map_of kvs (ad_parameter_target_key d) = Some (JInt v) \<and>
          ad_parameter_minimum d \<le> v \<and> v \<le> ad_parameter_maximum d) \<and>
        (\<exists>c. bound ob_capability b = Some c \<and> cb_capability_id c = ''reduce_worker_concurrency'')"
      if q: "ma_action_id a = ''reduce_worker_concurrency''"
    proof -
      from r q obtain kvs v c where "bound ob_parameters b = Some kvs"
          "set (map fst kvs) = {''target_concurrency''}"
          "map_of kvs ''target_concurrency'' = Some (JInt v)" "1 \<le> v" "v \<le> 8"
          "bound ob_capability b = Some c" "cb_capability_id c = ''reduce_worker_concurrency''"
        unfolding option_authorised_def by metis
      with req q show ?thesis by simp
    qed
    ultimately show "build_option s k a b = Inr opt"
      unfolding l ok using req by simp
  qed
qed

lemma action_document_inj:
  assumes "canon (action_document r s k opt) = canon (action_document r' s' k' opt')"
  shows "r = r' \<and> s = s' \<and> k = k' \<and> canon (option_json opt) = canon (option_json opt')"
proof -
  let ?f = "\<lambda>r s k opt. [(''revision'', JInt r), (''scenario'', JStr (scenario_value s)),
           (''scenario_kind'', JStr (kind_value k)), (''option'', option_json opt)]"
  have look: "map_of (sort_key fst (map (map_prod id canon) (?f r s k opt))) x =
      map_option canon (map_of (?f r s k opt) x)" for r s k opt x
    by (rule map_of_canon_fields) simp
  have eq: "map_option canon (map_of (?f r s k opt) x) = map_option canon (map_of (?f r' s' k' opt') x)" for x
    using assms unfolding action_document_def canon.simps json.inject look[symmetric] by simp
  from eq[of "''revision''"] eq[of "''scenario''"] eq[of "''scenario_kind''"] eq[of "''option''"]
  show ?thesis by simp
qed

lemma action_hash_stored [simp]:
  "action_hash sha fr r s k (stored_option opt) = action_hash sha fr r s k opt"
proof -
  have "canon (option_json (stored_option opt)) = canon (option_json opt)"
  proof (cases "ro_parameters opt")
    case (Some kvs)
    have "canon (JObj (sort_key fst (map (map_prod id canon) kvs))) = canon (JObj kvs)"
      using canon_idem[of "JObj kvs"] by simp
    then show ?thesis
      by (simp add: option_json_def stored_option_def stored_parameters_def Some)
  qed (simp add: option_json_def stored_option_def stored_parameters_def)
  then show ?thesis by (simp add: action_hash_def json_text_def action_document_def)
qed

section \<open>Properties\<close>

text \<open>Every action is authorised for exactly one pair of scenario and evidence kind, and
  every authorised action is an entry of the allowlist.\<close>

theorem action_authorised_once:
  assumes "validate_scenario_action s k a = Inr ()"
  shows "a \<in> set (map fst ALLOWED_ACTIONS) \<and>
    (\<forall>s' k'. validate_scenario_action s' k' a = Inr () \<longleftrightarrow> s' = s \<and> k' = k)"
proof -
  have all: "\<exists>acts. map_of SCENARIO_KIND_ACTIONS (s, k) = Some acts \<and> a \<in> set acts"
    using assms by (auto simp: validate_scenario_action_iff allowed_actions_def split: option.splits)
  have "validate_scenario_action s' k' a = Inr () \<longleftrightarrow> s' = s \<and> k' = k" for s' k'
    using all
    by (cases s; cases k; cases s'; cases k')
       (auto simp: validate_scenario_action_def allowed_actions_def SCENARIO_KIND_ACTIONS_def)
  moreover have "a \<in> set (map fst ALLOWED_ACTIONS)"
    using all by (cases s; cases k) (auto simp: SCENARIO_KIND_ACTIONS_def ALLOWED_ACTIONS_def)
  ultimately show ?thesis by blast
qed

theorem action_authorised_once_witness:
  "\<not> validate_scenario_action LOG_STORM SYNTHETIC_MARKER ''stop_memory_hog'' = Inr ()"
  using action_authorised_once[of MEMORY_OOM SYNTHETIC_MARKER "''stop_memory_hog''"]
  by (simp add: validate_scenario_action_def allowed_actions_def SCENARIO_KIND_ACTIONS_def)

text \<open>C15: An option is built exactly when the allowlist and the scenario's evidence kind authorise
  the model's action, its texts are the table's, its fields are valid and, for the capability
  action, its one parameter lies in 1..8 and the promoted capability of that name is bound; it
  then carries the assessment's evidence and confidence and the application's binding.\<close>

theorem build_option_exactly:
  "build_option s k a b = Inr opt \<longleftrightarrow>
     option_authorised s k opt \<and> ro_action_id opt = ma_action_id a \<and>
     ro_evidence opt = ma_evidence_refs a \<and> ro_confidence opt = ma_confidence a \<and>
     ro_parameters opt = bound ob_parameters b \<and> ro_target_id opt = bound ob_target_id b \<and>
     ro_capability opt = bound ob_capability b"
  by (rule build_option_Inr_iff)

text \<open>C14: The action digest binds: two valid options with the same digest agree on revision,
  scenario, evidence kind and the option itself, up to the order of the parameters, unless the two
  canonical texts are a SHA-256 collision.\<close>

theorem action_hash_binds:
  assumes "float_repr_ok fr" and "valid_option opt" and "valid_option opt'"
    and "action_hash sha fr r s k opt = action_hash sha fr r' s' k' opt'"
    and "json_text fr (action_document r s k opt) = json_text fr (action_document r' s' k' opt') \<or>
      sha (json_text fr (action_document r s k opt)) \<noteq> sha (json_text fr (action_document r' s' k' opt'))"
  shows "r = r' \<and> s = s' \<and> k = k' \<and> stored_option opt = stored_option opt'"
proof -
  have "json_text fr (action_document r s k opt) = json_text fr (action_document r' s' k' opt')"
    using assms(4,5) by (simp add: action_hash_def)
  from action_document_inj[OF json_text_inj[OF assms(1) this]]
  have "r = r' \<and> s = s' \<and> k = k'" and "canon (option_json opt) = canon (option_json opt')" by blast+
  moreover from this(2) have "stored_option opt = stored_option opt'"
    using option_of_canon[OF assms(2)] option_of_canon[OF assms(3)] by simp
  ultimately show ?thesis by blast
qed

definition sample_option :: "int \<Rightarrow> remediation_option" where
  "sample_option n =
     \<lparr>ro_action_id = ''reduce_worker_concurrency'', ro_title = ''Reduce worker concurrency'',
      ro_evidence = [], ro_confidence = 1/2, ro_impact = '''', ro_risk = '''', ro_action_preview = '''',
      ro_parameters = Some [(''target_concurrency'', JInt n)], ro_target_id = None,
      ro_capability = None\<rparr>"

theorem action_hash_binds_witness:
  "action_hash id fraction_text 1 WORKER_CONCURRENCY SYNTHETIC_MARKER (sample_option 2) \<noteq>
   action_hash id fraction_text 1 WORKER_CONCURRENCY SYNTHETIC_MARKER (sample_option 3)"
proof
  assume eq: "action_hash id fraction_text 1 WORKER_CONCURRENCY SYNTHETIC_MARKER (sample_option 2) =
    action_hash id fraction_text 1 WORKER_CONCURRENCY SYNTHETIC_MARKER (sample_option 3)"
  have valid: "valid_option (sample_option 2)" "valid_option (sample_option 3)" by code_simp+
  from action_hash_binds[OF fraction_text_ok valid eq]
  show False by (simp add: sample_option_def stored_option_def stored_parameters_def)
qed

end
