(* ===== verification/Telemetry.thy ===== *)
theory Telemetry
  imports Schemas
begin

text \<open>
  \<open>telemetry.py\<close>: the collectors that turn an accepted event into evidence. The synthetic ones are
  constants per scenario, routed by the scenario of the event; the one for the disposable container
  service reads a snapshot of its target, which may raise. A collector owes the service evidence
  that validates, for the scenario of the event (\<open>telemetry_collector\<close>).
\<close>

section \<open>The defaults of \<open>TelemetryEvidence\<close>\<close>

definition evidence_defaults :: "scenario \<Rightarrow> scenario_kind \<Rightarrow> bool \<Rightarrow> int \<Rightarrow> int \<Rightarrow> int \<Rightarrow> telemetry_evidence" where
  "evidence_defaults s k rotation bytes growth files =
     \<lparr>te_scenario = s, te_scenario_kind = k, rotation_failed = rotation, free_bytes = bytes,
      log_growth_bytes_per_minute = growth, affected_file_count = files, cpu_percent = 0,
      memory_percent = 0, oom_kill_detected = False, log_storm_detected = False,
      temp_file_count = 0, runaway_process_detected = False, service_state = None,
      restart_count = 0, worker_concurrency = None, safe_worker_concurrency = None,
      signals = [], fault_injection = None\<rparr>"

section \<open>Synthetic collectors\<close>

definition synthetic_disk_exhaustion :: telemetry_evidence where
  "synthetic_disk_exhaustion = (evidence_defaults DISK_EXHAUSTION SYNTHETIC_MARKER True 4096 8388608 12)
     \<lparr>signals := [''rotation_error'', ''low_free_space'', ''rapid_log_growth''],
      fault_injection := Some ''ENOSPC''\<rparr>"

definition synthetic_runaway_cpu :: telemetry_evidence where
  "synthetic_runaway_cpu = (evidence_defaults RUNAWAY_CPU SYNTHETIC_MARKER False 1048576 0 0)
     \<lparr>cpu_percent := 997 / 10, runaway_process_detected := True,
      signals := [''sustained_high_cpu'', ''runaway_process''], fault_injection := Some ''CPU_PRESSURE''\<rparr>"

definition synthetic_restarting_service :: telemetry_evidence where
  "synthetic_restarting_service = (evidence_defaults RESTARTING_SERVICE SYNTHETIC_MARKER False 1048576 0 0)
     \<lparr>service_state := Some ''restarting'', restart_count := 9,
      signals := [''service_unhealthy'', ''restart_loop'', ''crash_backoff''],
      fault_injection := Some ''RESTART_LOOP''\<rparr>"

definition synthetic_memory_oom :: telemetry_evidence where
  "synthetic_memory_oom = (evidence_defaults MEMORY_OOM SYNTHETIC_MARKER False 1048576 0 0)
     \<lparr>memory_percent := 992 / 10, oom_kill_detected := True,
      signals := [''memory_pressure'', ''oom_kill'', ''allocation_failures''],
      fault_injection := Some ''OOM_PRESSURE''\<rparr>"

definition synthetic_log_storm :: telemetry_evidence where
  "synthetic_log_storm = (evidence_defaults LOG_STORM SYNTHETIC_MARKER False 65536 67108864 128)
     \<lparr>log_storm_detected := True, temp_file_count := 24,
      signals := [''rapid_log_growth'', ''temp_file_growth'', ''rotation_backlog''],
      fault_injection := Some ''LOG_STORM''\<rparr>"

definition synthetic_worker_concurrency :: telemetry_evidence where
  "synthetic_worker_concurrency = (evidence_defaults WORKER_CONCURRENCY SYNTHETIC_MARKER False 1048576 0 0)
     \<lparr>memory_percent := 96, oom_kill_detected := True, worker_concurrency := Some 12,
      safe_worker_concurrency := Some 4,
      signals := [''memory_pressure'', ''worker_concurrency_increased'', ''concurrency_correlated_oom'', ''oom_kill''],
      fault_injection := Some ''WORKER_CONCURRENCY_PRESSURE''\<rparr>"

definition adapters :: "(scenario \<times> telemetry_evidence) list" where
  "adapters =
    [(DISK_EXHAUSTION, synthetic_disk_exhaustion), (RUNAWAY_CPU, synthetic_runaway_cpu),
     (RESTARTING_SERVICE, synthetic_restarting_service), (MEMORY_OOM, synthetic_memory_oom),
     (LOG_STORM, synthetic_log_storm), (WORKER_CONCURRENCY, synthetic_worker_concurrency)]"

text \<open>\<open>ScenarioTelemetryCollector.collect\<close>; an adapter validates the evidence it builds.\<close>

definition scenario_collect :: "event_request \<Rightarrow> exn + telemetry_evidence" where
  "scenario_collect e =
     (case map_of adapters (pl_scenario (ev_payload e)) of
        None \<Rightarrow> Inl (ValueError (''unsupported synthetic scenario: '' @ scenario_value (pl_scenario (ev_payload e))))
      | Some ev \<Rightarrow> check_evidence ev)"

section \<open>The container service\<close>

record container_snapshot =
  cs_container_id :: string
  cs_runtime_status :: string
  cs_health_status :: string
  cs_boot_count :: int

definition container_evidence :: "container_snapshot \<Rightarrow> telemetry_evidence" where
  "container_evidence s = (evidence_defaults RESTARTING_SERVICE CONTAINER_FAULT False 1048576 0 0)
     \<lparr>service_state := Some (cs_health_status s), restart_count := max 0 (cs_boot_count s - 1),
      signals := [''container_healthcheck_failed'', ''service_unhealthy''],
      fault_injection := Some ''DISPOSABLE_SERVICE_HTTP_503''\<rparr>"

text \<open>\<open>ContainerServiceTelemetry.collect\<close>, over the target's \<open>snapshot\<close>.\<close>

definition container_collect ::
    "('w \<Rightarrow> (exn + container_snapshot) \<times> 'w) \<Rightarrow> event_request \<Rightarrow> 'w \<Rightarrow> (exn + telemetry_evidence) \<times> 'w"
where
  "container_collect snapshot e w =
     (if pl_scenario (ev_payload e) \<noteq> RESTARTING_SERVICE
      then (Inl (ContainerLabError ''unsupported_container_lab_scenario''), w)
      else case snapshot w of
        (Inl x, w') \<Rightarrow> (Inl x, w')
      | (Inr s, w') \<Rightarrow>
          if cs_health_status s \<noteq> ''unhealthy''
          then (Inl (ContainerLabError ''target_not_unhealthy''), w')
          else (check_evidence (container_evidence s), w'))"

section \<open>What a collector owes the service\<close>

definition valid_evidence :: "telemetry_evidence \<Rightarrow> bool" where
  "valid_evidence ev \<longleftrightarrow> check_evidence ev = Inr ev"

locale telemetry_collector =
  fixes collect :: "event_request \<Rightarrow> 'w \<Rightarrow> (exn + telemetry_evidence) \<times> 'w"
  assumes collected_valid: "collect e w = (Inr ev, w') \<Longrightarrow> valid_evidence ev"
    and collected_scenario: "collect e w = (Inr ev, w') \<Longrightarrow> te_scenario ev = pl_scenario (ev_payload e)"
begin

lemma collected_bounded:
  assumes "collect e w = (Inr ev, w')"
  shows "0 \<le> free_bytes ev \<and> percent (cpu_percent ev) \<and> percent (memory_percent ev) \<and> 0 \<le> restart_count ev"
  using collected_valid[OF assms] by (auto simp: valid_evidence_def check_evidence_def split: if_splits)

end

lemma check_evidence_Inr: "check_evidence ev = Inr x \<Longrightarrow> x = ev \<and> valid_evidence ev"
  by (simp add: valid_evidence_def check_evidence_def split: if_splits)

lemma adapters_scenario: "map_of adapters s = Some ev \<Longrightarrow> te_scenario ev = s"
  by (cases s) (auto simp: adapters_def synthetic_disk_exhaustion_def synthetic_runaway_cpu_def
      synthetic_restarting_service_def synthetic_memory_oom_def synthetic_log_storm_def
      synthetic_worker_concurrency_def evidence_defaults_def)

interpretation synthetic: telemetry_collector "\<lambda>e (w::'w). (scenario_collect e, w)"
  by unfold_locales
    (auto simp: scenario_collect_def dest: check_evidence_Inr adapters_scenario split: option.splits)

interpretation container: telemetry_collector "container_collect snapshot"
  for snapshot :: "'w \<Rightarrow> (exn + container_snapshot) \<times> 'w"
  by unfold_locales
    (auto simp: container_collect_def container_evidence_def evidence_defaults_def
      dest: check_evidence_Inr split: if_splits prod.splits sum.splits)

section \<open>Properties\<close>

lemma adapters_total: "\<exists>ev. map_of adapters s = Some ev \<and> valid_evidence ev \<and> te_scenario_kind ev = SYNTHETIC_MARKER"
  by (cases s) (simp_all add: adapters_def synthetic_disk_exhaustion_def synthetic_runaway_cpu_def
      synthetic_restarting_service_def synthetic_memory_oom_def synthetic_log_storm_def
      synthetic_worker_concurrency_def evidence_defaults_def valid_evidence_def check_evidence_def
      percent_def non_negative_def)

end
