(* ===== verification/Doubles.thy ===== *)
theory Doubles
  imports Prelude "HOL-Library.Log_Nat"
begin

text \<open>
  Python's float arithmetic where it decides something: \<open>to_double\<close> rounds a rational to the nearest
  IEEE double, ties to even, within the range of normal numbers (the program's values are durations in
  seconds and shares between 0 and 1). An int divided by an int is the rounded quotient.
\<close>

definition round_half_even :: "rat \<Rightarrow> int" where
  "round_half_even x =
     (let f = \<lfloor>x\<rfloor>; r = x - of_int f in
      if r < 1 / 2 then f else if 1 / 2 < r then f + 1 else if even f then f else f + 1)"

definition scale :: "int \<Rightarrow> rat \<Rightarrow> rat" where
  "scale k x = (if 0 \<le> k then x * 2 ^ nat k else x / 2 ^ nat (- k))"

text \<open>The exponent \<open>e\<close> with \<open>2 ^ e \<le> x < 2 ^ (e + 1)\<close>, for a positive \<open>x\<close>.\<close>

definition exponent :: "rat \<Rightarrow> int" where
  "exponent x =
     (let (p, q) = quotient_of x; e = bitlen p - bitlen q in
      if 1 \<le> scale (- e) x then e else e - 1)"

definition to_double :: "rat \<Rightarrow> rat" where
  "to_double x =
     (if x = 0 then 0
      else let e = exponent \<bar>x\<bar> in sgn x * scale (e - 52) (of_int (round_half_even (scale (52 - e) \<bar>x\<bar>))))"

definition truncate_rat :: "rat \<Rightarrow> int" where
  "truncate_rat x = (if 0 \<le> x then \<lfloor>x\<rfloor> else \<lceil>x\<rceil>)"

text \<open>\<open>timedelta.total_seconds()\<close> of a difference in microseconds.\<close>

definition total_seconds :: "int \<Rightarrow> rat" where
  "total_seconds us = to_double (of_int us / 1000000)"

lemma scale_scale: "scale (- k) (scale k x) = x"
  by (simp add: scale_def)

lemma scale_mono: "x \<le> y \<Longrightarrow> scale k x \<le> scale k y"
  by (simp add: scale_def divide_right_mono mult_right_mono)

lemma round_half_even_int [simp]: "round_half_even (of_int i) = i"
  by (simp add: round_half_even_def)

lemma round_half_even_near: "\<bar>of_int (round_half_even x) - x\<bar> \<le> 1 / 2"
  unfolding round_half_even_def Let_def by (simp add: abs_if) linarith

lemma to_double_0 [simp]: "to_double 0 = 0"
  by (simp add: to_double_def)

text \<open>Below one, rounding moves a value by at most half of the largest spacing there.\<close>

lemma exponent_below_one:
  assumes "0 < x" and "x < 1"
  shows "exponent x \<le> -1"
proof -
  obtain p q where pq: "quotient_of x = (p, q)" by (cases "quotient_of x")
  have q: "0 < q" using quotient_of_denom_pos[OF pq] .
  have x: "x = of_int p / of_int q" using quotient_of_div[OF pq] .
  have "p \<le> q" using assms(2) q unfolding x by (simp add: divide_less_eq)
  have "0 < p" using assms(1) q unfolding x by (simp add: zero_less_divide_iff)
  have "p < 2 ^ nat (bitlen q)" using \<open>p \<le> q\<close> bitlen_bounds[OF q] by simp
  then have "bitlen p \<le> bitlen q" using bitlen_le_iff_power bitlen_nonneg by blast
  then show ?thesis using assms(2) by (cases "bitlen p = bitlen q") (auto simp: exponent_def pq scale_def Let_def)
qed

lemma to_double_near:
  assumes "0 < x" and "x < 1"
  shows "\<bar>to_double x - x\<bar> \<le> 1 / 2 ^ 54"
proof -
  let ?e = "exponent x" and ?m = "round_half_even (scale (52 - exponent x) x)"
  have e: "?e \<le> -1" using exponent_below_one[OF assms] .
  then have k: "52 - ?e = int (nat (52 - ?e))" "53 \<le> nat (52 - ?e)" by simp_all
  have up: "scale (52 - ?e) y = y * 2 ^ nat (52 - ?e)" for y using e by (simp add: scale_def)
  have down: "scale (?e - 52) y = y / 2 ^ nat (52 - ?e)" for y using e by (simp add: scale_def)
  have "to_double x = of_int ?m / 2 ^ nat (52 - ?e)" using assms by (simp add: to_double_def Let_def down)
  moreover have "x = scale (52 - ?e) x / 2 ^ nat (52 - ?e)" by (simp add: up)
  ultimately have "\<bar>to_double x - x\<bar> = \<bar>of_int ?m - scale (52 - ?e) x\<bar> / 2 ^ nat (52 - ?e)"
    by (metis abs_divide abs_numeral diff_divide_distrib power_abs)
  also have "\<dots> \<le> (1 / 2) / 2 ^ nat (52 - ?e)" by (intro divide_right_mono round_half_even_near) simp
  also have "\<dots> \<le> (1 / 2) / 2 ^ 53" using k(2) by (intro divide_left_mono power_increasing) simp_all
  finally show ?thesis by simp
qed

lemma to_double_1 [simp]: "to_double 1 = 1"
  using round_half_even_int[of 4503599627370496] by (simp add: to_double_def exponent_def scale_def)

text \<open>A share of equal counts is exactly 1.0, and no other share is.\<close>

lemma to_double_share:
  assumes "k \<le> n" and "0 < n" and "n < 2 ^ 53"
  shows "to_double (of_nat k / of_nat n) = 1 \<longleftrightarrow> k = n"
proof
  assume one: "to_double (of_nat k / of_nat n) = 1"
  show "k = n"
  proof (rule ccontr)
    assume "k \<noteq> n"
    with assms have k: "k < n" by simp
    let ?x = "of_nat k / of_nat n :: rat"
    have "0 < k" using one by (cases k) simp_all
    then have x: "0 < ?x" "?x < 1" using k by simp_all
    have "1 - ?x = of_nat (n - k) / of_nat n" using k by (simp add: of_nat_diff field_simps)
    also have "\<dots> \<ge> 1 / of_nat n" using k by (intro divide_right_mono) simp_all
    finally have gap: "1 / of_nat n \<le> 1 - ?x" .
    have "of_nat n < (of_nat (2 ^ 54) :: rat)" using assms(3) by (subst of_nat_less_iff) simp
    then have "of_nat n < (2 ^ 54 :: rat)" by simp
    then have "1 / 2 ^ 54 < (1 / of_nat n :: rat)" using assms(2) by (intro divide_strict_left_mono) simp_all
    with gap to_double_near[OF x] one show False by linarith
  qed
qed (use assms in simp)

text \<open>Rounding a positive value at most halves it.\<close>

lemma exponent_bounds:
  assumes "0 < x"
  shows "1 \<le> scale (- exponent x) x"
proof -
  obtain p q where pq: "quotient_of x = (p, q)" by (cases "quotient_of x")
  have q: "0 < q" using quotient_of_denom_pos[OF pq] .
  have x: "x = of_int p / of_int q" using quotient_of_div[OF pq] .
  have p: "0 < p" using assms q unfolding x by (simp add: zero_less_divide_iff)
  let ?e = "bitlen p - bitlen q"
  have "(2::int) ^ nat (bitlen p - 1) \<le> p" "q < 2 ^ nat (bitlen q)" using bitlen_bounds p q by simp_all
  then have pl: "(2::rat) ^ nat (bitlen p - 1) \<le> of_int p" and qu: "of_int q < (2::rat) ^ nat (bitlen q)"
    by (metis of_int_le_iff of_int_numeral of_int_power, metis of_int_less_iff of_int_numeral of_int_power)
  have bp: "1 \<le> bitlen p" "1 \<le> bitlen q"
    using p q bitlen_nonneg[of p] bitlen_nonneg[of q] bitlen_eq_zero_iff[of p] bitlen_eq_zero_iff[of q] by linarith+
  have "1 \<le> scale (- (?e - 1)) x"
  proof (cases "0 \<le> - (?e - 1)")
    case True
    then have "nat (bitlen q) = nat (- (?e - 1)) + nat (bitlen p - 1)" using bp by linarith
    then have "of_int q \<le> (2::rat) ^ nat (bitlen p - 1) * 2 ^ nat (- (?e - 1))"
      using qu by (simp add: power_add mult.commute)
    also have "\<dots> \<le> of_int p * 2 ^ nat (- (?e - 1))" using pl by simp
    finally show ?thesis using True q by (simp add: scale_def x field_simps)
  next
    case False
    then have "nat (bitlen p - 1) = nat (bitlen q) + nat (?e - 1)" using bp by linarith
    then have "(2::rat) ^ nat (bitlen p - 1) = 2 ^ nat (bitlen q) * 2 ^ nat (?e - 1)" by (simp add: power_add)
    moreover have "of_int q * (2::rat) ^ nat (?e - 1) \<le> 2 ^ nat (bitlen q) * 2 ^ nat (?e - 1)"
      using qu by (intro mult_right_mono) simp_all
    ultimately have "of_int q * 2 ^ nat (?e - 1) \<le> (of_int p :: rat)" using pl by linarith
    then show ?thesis using False q by (simp add: scale_def x field_simps)
  qed
  then show ?thesis by (auto simp: exponent_def pq Let_def)
qed

lemma scale_add:
  assumes "0 \<le> k"
  shows "scale (k + j) x = 2 ^ nat k * scale j x"
proof (cases "0 \<le> j")
  case False
  obtain m n where k: "k = int m" and j: "j = - int n" using assms False by (metis nonneg_int_cases linear neg_equal_iff_equal add.inverse_inverse neg_0_le_iff_le)
  show ?thesis
  proof (cases "n \<le> m")
    case True
    have "(2::rat) ^ m = 2 ^ (m - n) * 2 ^ n" using True by (simp flip: power_add)
    then show ?thesis using True by (simp add: scale_def k j nat_diff_distrib flip: of_nat_diff)
  next
    case le: False
    have "(2::rat) ^ n = 2 ^ (n - m) * 2 ^ m" using le by (simp flip: power_add)
    then show ?thesis using le by (simp add: scale_def k j nat_diff_distrib flip: of_nat_diff)
  qed
qed (use assms in \<open>simp add: scale_def nat_add_distrib power_add mult.commute\<close>)

lemma to_double_half:
  assumes "0 < x"
  shows "x / 2 \<le> to_double x"
proof -
  let ?e = "exponent x" and ?y = "scale (52 - exponent x) x"
  have "1 \<le> ?y" using scale_add[of 52 "- ?e" x] exponent_bounds[OF assms] by simp
  then have half: "?y / 2 \<le> of_int (round_half_even ?y)" using round_half_even_near[of ?y] by (simp add: abs_if split: if_splits)
  have "x / 2 = scale (?e - 52) ?y / 2" using scale_scale[of "52 - ?e" x] by simp
  also have "\<dots> = scale (?e - 52) (?y / 2)" by (simp add: scale_def)
  also have "\<dots> \<le> scale (?e - 52) (of_int (round_half_even ?y))" using half by (rule scale_mono)
  finally show ?thesis using assms by (simp add: to_double_def Let_def)
qed

end
