(* ===== verification/Analyzer.thy ===== *)
theory Analyzer
  imports Policy Telemetry Doubles
begin

text \<open>
  \<open>model.py\<close>: the analyzers. \<open>FakeAnalyzer\<close> is a function of the evidence. The live one sends the
  evidence to a model server, reads the reply and retries within a bound: the server is the
  parameter \<open>send\<close>, from the system prompt, the user document and the world to an outcome;
  \<open>json.loads\<close> is the parameter \<open>loads\<close> (\<open>None\<close>: it raised), the monotonic clock \<open>clock\<close>, in
  milliseconds. A JSON text whose document is not an assessment is refused by \<open>assessment_of_json\<close>
  (which also refuses a confidence written as a string, where pydantic would read the number).
\<close>

record model_result =
  mr_assessment :: model_assessment
  mr_latency_ms :: int
  mr_token_count :: int
  mr_retry_count :: nat

section \<open>\<open>FakeAnalyzer\<close>\<close>

definition fake_summary :: "telemetry_evidence \<Rightarrow> string" where
  "fake_summary ev =
     (if te_scenario_kind ev = CONTAINER_FAULT
      then ''A real owned disposable service container is unhealthy and requires one bounded restart.''
      else case te_scenario ev of
        RUNAWAY_CPU \<Rightarrow> ''Synthetic marker evidence represents a sustained high-CPU incident for workflow testing.''
      | RESTARTING_SERVICE \<Rightarrow> ''Synthetic marker evidence represents a repeatedly restarting service for workflow testing.''
      | MEMORY_OOM \<Rightarrow> ''Synthetic marker evidence represents critical memory pressure and an OOM condition for workflow testing.''
      | LOG_STORM \<Rightarrow> ''Synthetic marker evidence represents rapid log and temporary-file growth for workflow testing.''
      | WORKER_CONCURRENCY \<Rightarrow> ''Synthetic marker evidence represents worker memory pressure from elevated concurrency for workflow testing.''
      | DISK_EXHAUSTION \<Rightarrow> ''Synthetic marker evidence represents failed rotation and critically low disk space for workflow testing.'')"

text \<open>\<open>next(iter(...))\<close> of the set of allowed actions.\<close>

definition fake_action_id :: "telemetry_evidence \<Rightarrow> exn + string" where
  "fake_action_id ev =
     bindE (allowed_actions (te_scenario ev) (te_scenario_kind ev)) (\<lambda>actions.
       case actions of [] \<Rightarrow> Inl (ValueError ''StopIteration'') | a # _ \<Rightarrow> Inr a)"

definition fake_analyze :: "telemetry_evidence \<Rightarrow> exn + model_result" where
  "fake_analyze ev =
     bindE (fake_action_id ev) (\<lambda>action.
     bindE (check_assessment
       \<lparr>ma_summary = fake_summary ev, ma_severity = ''high'',
        ma_confidence = (if prefix ''failed-log'' (scenario_value (te_scenario ev)) then 98 / 100 else 97 / 100),
        ma_evidence_refs = signals ev, ma_action_id = action\<rparr>) (\<lambda>a.
     Inr \<lparr>mr_assessment = a, mr_latency_ms = 0, mr_token_count = 0, mr_retry_count = 0\<rparr>))"

section \<open>Reading the reply of a live model\<close>

text \<open>\<open>value[key]\<close> and \<open>value[0]\<close> on a decoded document.\<close>

definition item_at_key :: "string \<Rightarrow> json \<Rightarrow> exn + json" where
  "item_at_key k j =
     (case j of
        JObj kvs \<Rightarrow> (case map_of kvs k of None \<Rightarrow> Inl (KeyError k) | Some v \<Rightarrow> Inr v)
      | _ \<Rightarrow> Inl (TypeError ''indices must be integers''))"

definition first_item :: "json \<Rightarrow> exn + json" where
  "first_item j =
     (case j of
        JList [] \<Rightarrow> Inl IndexError
      | JList (x # _) \<Rightarrow> Inr x
      | JStr [] \<Rightarrow> Inl IndexError
      | JStr (c # _) \<Rightarrow> Inr (JStr [c])
      | JObj _ \<Rightarrow> Inl (KeyError ''0'')
      | _ \<Rightarrow> Inl (TypeError ''not subscriptable''))"

text \<open>The texts of the parts of a structured content; \<open>join\<close> refuses what is not a string.\<close>

fun part_texts :: "json list \<Rightarrow> exn + string" where
  "part_texts [] = Inr []"
| "part_texts (JObj kvs # ps) =
     (case map_of kvs ''text'' of
        None \<Rightarrow> part_texts ps
      | Some (JStr s) \<Rightarrow> bindE (part_texts ps) (\<lambda>t. Inr (s @ t))
      | Some _ \<Rightarrow> Inl (TypeError ''expected str instance''))"
| "part_texts (_ # ps) = part_texts ps"

text \<open>
  \<open>str(content)\<close>: Python's text of anything but a string is no JSON object with the five keys of an
  assessment, and validation refuses it.
\<close>

definition content_text :: "json \<Rightarrow> exn + string" where
  "content_text j =
     (case j of
        JStr s \<Rightarrow> Inr s
      | JList ps \<Rightarrow> part_texts ps
      | _ \<Rightarrow> Inl ValidationError)"

text \<open>\<open>s.split("\n", 1)[1]\<close> and \<open>s.rsplit("```", 1)[0]\<close>.\<close>

definition after_newline :: "string \<Rightarrow> exn + string" where
  "after_newline s =
     (case dropWhile (\<lambda>c. c \<noteq> CHR 0x0A) s of [] \<Rightarrow> Inl IndexError | _ # t \<Rightarrow> Inr t)"

definition fence :: string where "fence = [CHR 0x60, CHR 0x60, CHR 0x60]"

fun before_last_fence :: "string \<Rightarrow> string" where
  "before_last_fence [] = []"
| "before_last_fence (c # s) =
     (if str_in fence s then c # before_last_fence s
      else if prefix fence (c # s) then [] else c # s)"

definition unfenced :: "string \<Rightarrow> exn + string" where
  "unfenced s =
     (if prefix fence s then bindE (after_newline s) (\<lambda>t. Inr (strip (before_last_fence t))) else Inr s)"

text \<open>\<open>int(...)\<close> of a decoded value that is not falsy.\<close>

fun digits_grouped :: "string \<Rightarrow> bool" where
  "digits_grouped [] = False"
| "digits_grouped [c] = is_digit c"
| "digits_grouped (c # d # s) =
     (is_digit c \<and> (if d = CHR ''_'' then (case s of [] \<Rightarrow> False | e # t \<Rightarrow> digits_grouped (e # t)) else digits_grouped (d # s)))"

definition int_of_text :: "string \<Rightarrow> exn + int" where
  "int_of_text s =
     (let t = strip s;
          (negative, ds) = (case t of
              c # r \<Rightarrow> if c = CHR ''-'' then (True, r) else if c = CHR ''+'' then (False, r) else (False, t)
            | [] \<Rightarrow> (False, []))
      in if digits_grouped ds
         then Inr ((if negative then -1 else 1) * int (read_nat (filter is_digit ds)))
         else Inl (ValueError ''invalid literal for int()''))"

definition token_count :: "json option \<Rightarrow> exn + int" where
  "token_count usage =
     (case usage of
        None \<Rightarrow> Inr 0
      | Some JNull \<Rightarrow> Inr 0
      | Some (JBool False) \<Rightarrow> Inr 0
      | Some (JInt i) \<Rightarrow> if i = 0 then Inr 0 else Inl AttributeError
      | Some (JFloat x) \<Rightarrow> if x = 0 then Inr 0 else Inl AttributeError
      | Some (JStr s) \<Rightarrow> if s = [] then Inr 0 else Inl AttributeError
      | Some (JList js) \<Rightarrow> if js = [] then Inr 0 else Inl AttributeError
      | Some (JBool True) \<Rightarrow> Inl AttributeError
      | Some (JObj kvs) \<Rightarrow>
          (case map_of kvs ''total_tokens'' of
             None \<Rightarrow> Inr 0
           | Some JNull \<Rightarrow> Inr 0
           | Some (JBool b) \<Rightarrow> Inr (if b then 1 else 0)
           | Some (JInt i) \<Rightarrow> Inr i
           | Some (JFloat x) \<Rightarrow> Inr (truncate_rat x)
           | Some (JStr s) \<Rightarrow> if s = [] then Inr 0 else int_of_text s
           | Some (JList js) \<Rightarrow> if js = [] then Inr 0 else Inl (TypeError ''int() argument'')
           | Some (JObj kvs') \<Rightarrow> if kvs' = [] then Inr 0 else Inl (TypeError ''int() argument'')))"

definition MAX_MODEL_RESPONSE_BYTES :: nat where "MAX_MODEL_RESPONSE_BYTES = 65536"

definition decode_json :: "(string \<Rightarrow> json option) \<Rightarrow> string \<Rightarrow> exn + json" where
  "decode_json loads s = (case loads s of None \<Rightarrow> Inl (ValueError ''invalid JSON'') | Some j \<Rightarrow> Inr j)"

definition read_reply :: "(string \<Rightarrow> json option) \<Rightarrow> string \<Rightarrow> exn + (model_assessment \<times> int)" where
  "read_reply loads raw_body =
     (if length raw_body > MAX_MODEL_RESPONSE_BYTES
      then Inl (ModelAnalysisError ''model_response_too_large'')
      else
        bindE (decode_json loads raw_body) (\<lambda>body.
        bindE (item_at_key ''choices'' body) (\<lambda>choices.
        bindE (first_item choices) (\<lambda>choice.
        bindE (item_at_key ''message'' choice) (\<lambda>message.
        bindE (item_at_key ''content'' message) (\<lambda>content.
        bindE (content_text content) (\<lambda>raw.
        let stripped = strip raw in
        if stripped = [] then Inl (ValueError ''empty_model_response'')
        else
          bindE (unfenced stripped) (\<lambda>document.
          bindE (decode_json loads document) (\<lambda>j.
          bindE (assessment_of_json j) (\<lambda>a.
          bindE (token_count (case body of JObj kvs \<Rightarrow> map_of kvs ''usage'' | _ \<Rightarrow> None)) (\<lambda>tokens.
          Inr (a, tokens))))))))))))"

section \<open>The bounded retry loop\<close>

datatype http_outcome = Replied string | HTTPError int | URLError | Timed_out | Send_raised exn

text \<open>\<open>except (KeyError, TypeError, ValueError, JSONDecodeError)\<close>; pydantic's error is a \<open>ValueError\<close>.\<close>

fun is_schema_error :: "exn \<Rightarrow> bool" where
  "is_schema_error (KeyError _) = True"
| "is_schema_error (TypeError _) = True"
| "is_schema_error (ValueError _) = True"
| "is_schema_error ValidationError = True"
| "is_schema_error _ = False"

definition is_transient :: "int \<Rightarrow> bool" where
  "is_transient c \<longleftrightarrow> c \<in> {408, 409, 425, 429} \<or> 500 \<le> c"

record 'w model_server =
  ms_send :: "bool \<Rightarrow> 'w \<Rightarrow> http_outcome \<times> 'w"
  ms_clock :: "'w \<Rightarrow> int \<times> 'w"
  ms_loads :: "string \<Rightarrow> json option"

text \<open>The flag of \<open>ms_send\<close> is whether the request carries the repair instruction.\<close>

fun live_loop :: "'w model_server \<Rightarrow> int \<Rightarrow> string \<Rightarrow> nat list \<Rightarrow> 'w \<Rightarrow> (exn + model_result) \<times> 'w" where
  "live_loop m started reason [] w = (Inl (ModelAnalysisError reason), w)"
| "live_loop m started reason (retry # rest) w =
     (case ms_send m (retry \<noteq> 0) w of
        (HTTPError c, w') \<Rightarrow>
          if is_transient c then live_loop m started ''model_transient_http'' rest w'
          else (Inl (ModelAnalysisError ''model_provider_rejected''), w')
      | (URLError, w') \<Rightarrow> live_loop m started ''model_transport_failure'' rest w'
      | (Timed_out, w') \<Rightarrow> live_loop m started ''model_timeout'' rest w'
      | (Send_raised e, w') \<Rightarrow>
          if is_schema_error e then live_loop m started ''model_schema_validation_failure'' rest w'
          else (Inl e, w')
      | (Replied raw, w') \<Rightarrow>
          (case read_reply (ms_loads m) raw of
             Inl e \<Rightarrow>
               if is_schema_error e then live_loop m started ''model_schema_validation_failure'' rest w'
               else (Inl e, w')
           | Inr (a, tokens) \<Rightarrow>
               (let (finished, w'') = ms_clock m w' in
                (Inr \<lparr>mr_assessment = a, mr_latency_ms = finished - started, mr_token_count = tokens,
                      mr_retry_count = retry\<rparr>, w''))))"

definition live_analyze ::
    "(string list \<Rightarrow> telemetry_evidence \<Rightarrow> string option \<Rightarrow> 'w model_server) \<Rightarrow> int \<Rightarrow>
     telemetry_evidence \<Rightarrow> string option \<Rightarrow> 'w \<Rightarrow> (exn + model_result) \<times> 'w"
where
  "live_analyze server max_retries ev revision_note w =
     (case allowed_actions (te_scenario ev) (te_scenario_kind ev) of
        Inl e \<Rightarrow> (Inl e, w)
      | Inr permitted \<Rightarrow>
          (let m = server (sort permitted) ev revision_note; (started, w') = ms_clock m w in
           live_loop m started ''model_analysis_failed'' [0..<nat (max_retries + 1)] w'))"

section \<open>What an analyzer owes the service\<close>

locale analyzer =
  fixes analyze :: "telemetry_evidence \<Rightarrow> string option \<Rightarrow> 'w \<Rightarrow> (exn + model_result) \<times> 'w"
  assumes analysed_valid: "analyze ev note w = (Inr r, w') \<Longrightarrow> valid_assessment (mr_assessment r)"
begin

lemma analysed_readable:
  assumes "analyze ev note w = (Inr r, w')"
  shows "assessment_of_json (canon (assessment_json (mr_assessment r))) = Inr (mr_assessment r)"
  using assessment_of_canon analysed_valid[OF assms] by (simp add: check_assessment_def)

end

lemma fake_analyze_valid: "fake_analyze ev = Inr r \<Longrightarrow> valid_assessment (mr_assessment r)"
  by (auto simp: fake_analyze_def check_assessment_def results split: if_splits)

lemma assessment_of_json_valid: "assessment_of_json j = Inr a \<Longrightarrow> valid_assessment a"
  by (auto simp: assessment_of_json_def check_assessment_def results split: json.splits if_splits)

lemma read_reply_valid: "read_reply loads raw = Inr (a, tokens) \<Longrightarrow> valid_assessment a"
  by (auto simp: read_reply_def Let_def results dest: assessment_of_json_valid split: if_splits)

lemma live_loop_Inr:
  "live_loop m started reason retries w = (Inr r, w') \<Longrightarrow>
   valid_assessment (mr_assessment r) \<and> mr_retry_count r \<in> set retries"
  by (induction m started reason retries w rule: live_loop.induct)
    (auto dest: read_reply_valid split: prod.splits http_outcome.splits sum.splits if_splits)

interpretation fake: analyzer "\<lambda>ev note (w::'w). (fake_analyze ev, w)"
  by unfold_locales (auto dest: fake_analyze_valid)

interpretation live: analyzer "live_analyze server max_retries"
  for server :: "string list \<Rightarrow> telemetry_evidence \<Rightarrow> string option \<Rightarrow> 'w model_server" and max_retries :: int
  by unfold_locales
    (auto simp: live_analyze_def Let_def dest: live_loop_Inr split: prod.splits sum.splits)

section \<open>Properties\<close>

lemma fake_summary_bounded: "bounded_text 1 2000 (fake_summary ev)"
  by (cases "te_scenario ev") (simp_all add: fake_summary_def bounded_text_def)

definition fake_result :: "telemetry_evidence \<Rightarrow> string \<Rightarrow> model_result" where
  "fake_result ev action =
     \<lparr>mr_assessment = \<lparr>ma_summary = fake_summary ev, ma_severity = ''high'', ma_confidence = 97 / 100,
        ma_evidence_refs = signals ev, ma_action_id = action\<rparr>,
      mr_latency_ms = 0, mr_token_count = 0, mr_retry_count = 0\<rparr>"

lemma never_failed_log: "\<not> prefix ''failed-log'' (scenario_value s)"
  by (cases s) simp_all

lemma fake_analyze_eq:
  assumes "allowed_actions (te_scenario ev) (te_scenario_kind ev) = Inr (action # others)"
    and "bounded_text 1 128 action" and "length (signals ev) \<le> 20" and "list_all (\<lambda>s. short_text s) (signals ev)"
  shows "fake_analyze ev = Inr (fake_result ev action) \<and> valid_assessment (mr_assessment (fake_result ev action))"
  using assms
  by (simp add: fake_analyze_def fake_action_id_def never_failed_log check_assessment_def
      valid_assessment_def unit_interval_def fake_summary_bounded[simplified] fake_result_def)

definition synthetic_action :: "scenario \<Rightarrow> string" where
  "synthetic_action s = (case map_of SCENARIO_KIND_ACTIONS (s, SYNTHETIC_MARKER) of Some (a # _) \<Rightarrow> a | _ \<Rightarrow> [])"

lemma synthetic_action_allowed:
  "allowed_actions s SYNTHETIC_MARKER = Inr [synthetic_action s]" "bounded_text 1 128 (synthetic_action s)"
  by (cases s; simp add: synthetic_action_def allowed_actions_def SCENARIO_KIND_ACTIONS_def bounded_text_def)+

lemma adapters_signals:
  "map_of adapters s = Some ev \<Longrightarrow> length (signals ev) \<le> 20 \<and> list_all (\<lambda>x. short_text x) (signals ev)"
  by (cases s) (auto simp: adapters_def synthetic_disk_exhaustion_def synthetic_runaway_cpu_def
      synthetic_restarting_service_def synthetic_memory_oom_def synthetic_log_storm_def
      synthetic_worker_concurrency_def)

lemma fake_on_synthetic:
  assumes "map_of adapters s = Some ev" and "te_scenario_kind ev = SYNTHETIC_MARKER"
  shows "\<exists>r. fake_analyze ev = Inr r \<and> valid_assessment (mr_assessment r) \<and>
    ma_confidence (mr_assessment r) = 97 / 100 \<and>
    validate_scenario_action s SYNTHETIC_MARKER (ma_action_id (mr_assessment r)) = Inr ()"
proof -
  have "allowed_actions (te_scenario ev) (te_scenario_kind ev) = Inr [synthetic_action s]"
    using adapters_scenario[OF assms(1)] assms(2) synthetic_action_allowed by simp
  from fake_analyze_eq[OF this synthetic_action_allowed(2)] adapters_signals[OF assms(1)]
  show ?thesis by (auto simp: fake_result_def validate_scenario_action_def synthetic_action_allowed)
qed

text \<open>Every event is analysed without a model: the collector routes its scenario to evidence that
  validates, and the fake analyzer answers with a valid assessment whose action the policy authorises
  for that scenario, always with confidence 0.97 (the 0.98 branch is never taken).\<close>

theorem fake_analysis_authorised:
  "\<exists>ev r. scenario_collect e = Inr ev \<and> valid_evidence ev \<and> fake_analyze ev = Inr r \<and>
     valid_assessment (mr_assessment r) \<and> ma_confidence (mr_assessment r) = 97 / 100 \<and>
     validate_scenario_action (pl_scenario (ev_payload e)) SYNTHETIC_MARKER
       (ma_action_id (mr_assessment r)) = Inr ()"
proof -
  obtain ev where ev: "map_of adapters (pl_scenario (ev_payload e)) = Some ev" "valid_evidence ev"
    "te_scenario_kind ev = SYNTHETIC_MARKER"
    using adapters_total by blast
  then have "scenario_collect e = Inr ev" by (simp add: scenario_collect_def valid_evidence_def)
  with ev fake_on_synthetic[OF ev(1,3)] show ?thesis by blast
qed

text \<open>The server, counting the requests it gets.\<close>

definition counted :: "'w model_server \<Rightarrow> ('w \<times> nat) model_server" where
  "counted m =
     \<lparr>ms_send = (\<lambda>repair (w, n). case ms_send m repair w of (out, w') \<Rightarrow> (out, (w', Suc n))),
      ms_clock = (\<lambda>(w, n). case ms_clock m w of (t, w') \<Rightarrow> (t, (w', n))),
      ms_loads = ms_loads m\<rparr>"

definition model_reasons :: "string list" where
  "model_reasons = [''model_response_too_large'', ''model_transient_http'', ''model_provider_rejected'',
     ''model_transport_failure'', ''model_timeout'', ''model_schema_validation_failure'', ''model_analysis_failed'']"

text \<open>What reading a reply can raise.\<close>

definition reply_error :: "exn \<Rightarrow> bool" where
  "reply_error e \<longleftrightarrow> is_schema_error e \<or> e = ModelAnalysisError ''model_response_too_large'' \<or>
     e = IndexError \<or> e = AttributeError"

lemma reply_error_simps [simp]:
  "reply_error (ValueError m)" "reply_error ValidationError" "reply_error (KeyError m)"
  "reply_error (TypeError m)" "reply_error IndexError" "reply_error AttributeError"
  "reply_error (ModelAnalysisError ''model_response_too_large'')"
  by (simp_all add: reply_error_def)

lemma bindE_reply_error:
  assumes "bindE m f = Inl e" and "m = Inl e \<Longrightarrow> reply_error e" and "\<And>x. f x = Inl e \<Longrightarrow> reply_error e"
  shows "reply_error e"
  using assms by (auto simp: results)

lemma reply_steps:
  "decode_json loads s = Inl e \<Longrightarrow> reply_error e" "item_at_key k j = Inl e \<Longrightarrow> reply_error e"
  "first_item j = Inl e \<Longrightarrow> reply_error e" "unfenced s = Inl e \<Longrightarrow> reply_error e"
  "token_count usage = Inl e \<Longrightarrow> reply_error e"
  by (auto simp: decode_json_def item_at_key_def first_item_def unfenced_def
      after_newline_def token_count_def int_of_text_def Let_def results
      split: option.splits json.splits list.splits if_splits char.splits prod.splits bool.splits)

lemma content_steps: "part_texts ps = Inl e \<Longrightarrow> reply_error e"
  by (induction ps rule: part_texts.induct) (auto simp: results split: option.splits json.splits)

lemma content_text_steps: "content_text j = Inl e \<Longrightarrow> reply_error e"
  by (auto simp: content_text_def dest: content_steps split: json.splits)

lemma get_fields_error:
  "get_str k kvs = Inl e \<Longrightarrow> reply_error e" "get_float k kvs = Inl e \<Longrightarrow> reply_error e"
  "get_strs k kvs = Inl e \<Longrightarrow> reply_error e" "get_strs_default k kvs = Inl e \<Longrightarrow> reply_error e"
proof -
  have "strings_of js = Inl e \<Longrightarrow> reply_error e" for js
    by (induction js rule: strings_of.induct) (auto simp: results)
  then show "get_strs k kvs = Inl e \<Longrightarrow> reply_error e" "get_strs_default k kvs = Inl e \<Longrightarrow> reply_error e"
    by (auto simp: get_strs_def get_strs_default_def split: option.splits json.splits)
qed (auto simp: get_str_def get_float_def split: option.splits json.splits)

lemma assessment_of_json_error: "assessment_of_json j = Inl e \<Longrightarrow> reply_error e"
  by (auto simp: assessment_of_json_def check_assessment_def split: json.splits if_splits
      elim!: bindE_reply_error dest: get_fields_error)

lemma read_reply_error: "read_reply loads raw = Inl e \<Longrightarrow> reply_error e"
  unfolding read_reply_def Let_def
  by (auto split: if_splits elim!: bindE_reply_error dest: reply_steps content_text_steps assessment_of_json_error)

definition sends_quietly :: "'w model_server \<Rightarrow> bool" where
  "sends_quietly m \<longleftrightarrow> (\<forall>repair w x. fst (ms_send m repair w) \<noteq> Send_raised x)"

definition analysis_error :: "exn \<Rightarrow> bool" where
  "analysis_error e \<longleftrightarrow> (\<exists>c \<in> set model_reasons. e = ModelAnalysisError c) \<or> e = IndexError \<or> e = AttributeError"

lemma analysis_error_reason: "c \<in> set model_reasons \<Longrightarrow> analysis_error (ModelAnalysisError c)"
  by (simp add: analysis_error_def)

lemma reply_error_escapes: "reply_error e \<Longrightarrow> \<not> is_schema_error e \<Longrightarrow> analysis_error e"
  by (auto simp: reply_error_def analysis_error_def model_reasons_def)

lemma live_loop_Inl:
  assumes "sends_quietly m" and "live_loop m started reason retries w = (Inl e, w')"
    and "reason \<in> set model_reasons"
  shows "analysis_error e"
  using assms(2,3)
proof (induction retries arbitrary: reason w)
  case Nil
  then show ?case by (auto intro: analysis_error_reason)
next
  case (Cons retry rest)
  obtain out v where s: "ms_send m (0 < retry) w = (out, v)" by fastforce
  note loop = Cons.prems(1)[simplified, unfolded s, simplified]
  have next_try: "analysis_error e" if "live_loop m started c rest v = (Inl e, w')"
    "c \<in> {''model_transient_http'', ''model_transport_failure'', ''model_timeout'', ''model_schema_validation_failure''}" for c
  proof (rule Cons.IH[OF that(1)])
    show "c \<in> set model_reasons" using that(2) by (auto simp: model_reasons_def)
  qed
  show ?case
  proof (cases out)
    case (Replied raw)
    show ?thesis
    proof (cases "read_reply (ms_loads m) raw")
      case (Inl x)
      with loop Replied next_try reply_error_escapes[OF read_reply_error[OF Inl]] show ?thesis
        by (auto split: if_splits)
    next
      case (Inr at)
      with loop Replied show ?thesis by (auto split: prod.splits)
    qed
  next
    case (HTTPError c)
    then show ?thesis
      using loop next_try by (auto split: if_splits intro: analysis_error_reason simp: model_reasons_def)
  next
    case (Send_raised x)
    with assms(1) s show ?thesis by (metis sends_quietly_def fst_conv)
  qed (use loop next_try in auto)
qed

text \<open>The retries are the indices of a range, and request number \<open>i\<close> is retry \<open>i\<close>.\<close>

lemma live_loop_requests:
  assumes "live_loop (counted m) started reason [i..<k] (w, i) = (res, (w', n))" and "i \<le> k"
  shows "n \<le> k \<and> (case res of Inr r \<Rightarrow> n = Suc (mr_retry_count r) | Inl e \<Rightarrow> True)"
  using assms
proof (induction "k - i" arbitrary: i reason w)
  case (Suc d)
  then have range: "[i..<k] = i # [Suc i..<k]" and "Suc i \<le> k" "d = k - Suc i" by (simp_all add: upt_rec)
  obtain out v where s: "ms_send m (0 < i) w = (out, v)" by fastforce
  then have sent: "ms_send (counted m) (0 < i) (w, i) = (out, (v, Suc i))" by (simp add: counted_def)
  note loop = Suc.prems(1)[unfolded range, simplified, unfolded sent, simplified]
  have next_try: "n \<le> k \<and> (case res of Inr r \<Rightarrow> n = Suc (mr_retry_count r) | Inl e \<Rightarrow> True)"
    if "live_loop (counted m) started c [Suc i..<k] (v, Suc i) = (res, (w', n))" for c
    using Suc.hyps(1)[OF \<open>d = k - Suc i\<close> that \<open>Suc i \<le> k\<close>] .
  show ?case
  proof (cases out)
    case (Replied raw)
    show ?thesis
    proof (cases "read_reply (ms_loads (counted m)) raw")
      case (Inl x)
      with loop Replied next_try \<open>Suc i \<le> k\<close> show ?thesis by (auto split: if_splits)
    next
      case (Inr at)
      have "snd (snd (ms_clock (counted m) (v, Suc i))) = Suc i" by (simp add: counted_def split_beta)
      with loop Replied Inr \<open>Suc i \<le> k\<close> show ?thesis by (auto split: prod.splits)
    qed
  qed (use loop next_try \<open>Suc i \<le> k\<close> in \<open>auto split: if_splits\<close>)
qed auto

text \<open>C25: However a live analysis ends, the model server was asked at most once more than the configured
  number of retries (the counter of the wrapped server), and not at all when the policy has no action
  for the scenario. One that returns was validated: its assessment satisfies every limit of the
  schema, the retry it reports is one the configuration allows, and the requests sent are exactly the
  first one and that many retries.\<close>

theorem live_analysis_bounded:
  assumes "live_analyze (\<lambda>permitted ev note. counted (server permitted ev note)) max_retries ev note (w, 0) =
    (res, (w', n))"
  shows "int n \<le> max 0 (max_retries + 1) \<and>
    (case allowed_actions (te_scenario ev) (te_scenario_kind ev) of
       Inl e \<Rightarrow> res = Inl e \<and> n = 0
     | Inr permitted \<Rightarrow>
         (case res of
            Inl e \<Rightarrow> True
          | Inr r \<Rightarrow> valid_assessment (mr_assessment r) \<and> int (mr_retry_count r) \<le> max_retries \<and>
              n = Suc (mr_retry_count r)))"
proof (cases "allowed_actions (te_scenario ev) (te_scenario_kind ev)")
  case (Inl e)
  with assms show ?thesis by (simp add: live_analyze_def)
next
  case (Inr permitted)
  let ?m = "counted (server (sort permitted) ev note)" and ?k = "nat (max_retries + 1)"
  obtain started v where c: "ms_clock ?m (w, 0) = (started, (v, 0))"
    by (simp add: counted_def split_beta)
  then have l: "live_loop ?m started ''model_analysis_failed'' [0..<?k] (v, 0) = (res, (w', n))"
    using assms Inr by (simp add: live_analyze_def)
  from live_loop_requests[OF this] have "n \<le> ?k" "case res of Inr r \<Rightarrow> n = Suc (mr_retry_count r) | Inl e \<Rightarrow> True"
    by simp_all
  moreover have "valid_assessment (mr_assessment r) \<and> mr_retry_count r < ?k" if "res = Inr r" for r
    using live_loop_Inr l that by fastforce
  ultimately show ?thesis using Inr by (auto split: sum.splits)
qed

text \<open>A server that answers every request with one document, and a table for \<open>json.loads\<close>.\<close>

definition sample_reply :: json where
  "sample_reply = JObj [(''choices'', JList [JObj [(''message'', JObj [(''content'', JStr ''a'')])]]),
     (''usage'', JObj [(''total_tokens'', JInt 7)])]"

definition sample_assessment :: model_assessment where
  "sample_assessment = \<lparr>ma_summary = ''s'', ma_severity = ''low'', ma_confidence = 1 / 2,
     ma_evidence_refs = [], ma_action_id = ''stop_memory_hog''\<rparr>"

definition sample_loads :: "string \<Rightarrow> json option" where
  "sample_loads s = (if s = ''reply'' then Some sample_reply
     else if s = ''none'' then Some (JObj [(''choices'', JList [])])
     else if s = ''a'' then Some (assessment_json sample_assessment) else None)"

text \<open>It fails once with status 503, then replies.\<close>

definition flaky_server :: "nat model_server" where
  "flaky_server = \<lparr>ms_send = (\<lambda>repair n. (if n = 0 then HTTPError 503 else Replied ''reply'', Suc n)),
     ms_clock = (\<lambda>n. (5, n)), ms_loads = sample_loads\<rparr>"

definition empty_server :: "nat model_server" where
  "empty_server = flaky_server\<lparr>ms_send := (\<lambda>repair n. (Replied ''none'', Suc n))\<rparr>"

lemma read_sample_reply: "read_reply sample_loads ''reply'' = Inr (sample_assessment, 7)"
proof -
  have v: "valid_assessment sample_assessment"
    by (simp add: sample_assessment_def valid_assessment_def bounded_text_def unit_interval_def)
  have d: "assessment_of_json (assessment_json sample_assessment) = Inr sample_assessment"
    using v by (simp add: assessment_of_json_def assessment_json_def only_keys_def get_defs
        check_assessment_def sample_assessment_def json_strs_def)
  show ?thesis
    using d by (simp add: read_reply_def MAX_MODEL_RESPONSE_BYTES_def decode_json_def sample_loads_def
        sample_reply_def item_at_key_def first_item_def content_text_def strip_def is_space_def char_in_def
        code_def unfenced_def fence_def token_count_def)
qed

text \<open>A reply after one retry, and a server that never answers: three requests, then the error.\<close>

definition silent_server :: "nat model_server" where
  "silent_server = flaky_server\<lparr>ms_send := (\<lambda>repair n. (Timed_out, Suc n))\<rparr>"

theorem live_analysis_bounded_witness:
  "valid_assessment sample_assessment \<and> int 1 \<le> 2 \<and> (2::nat) = Suc 1 \<and> int 3 \<le> max 0 (2 + 1)"
proof -
  have p: "allowed_actions (te_scenario synthetic_memory_oom) (te_scenario_kind synthetic_memory_oom) = Inr [''stop_memory_hog'']"
    by (simp add: synthetic_memory_oom_def evidence_defaults_def allowed_actions_def SCENARIO_KIND_ACTIONS_def)
  have range: "[0..<nat (2 + 1)] = [0, 1, 2]" by (simp add: upt_rec)
  then have "live_analyze (\<lambda>permitted ev note. counted flaky_server) 2 synthetic_memory_oom None (0, 0) =
    (Inr \<lparr>mr_assessment = sample_assessment, mr_latency_ms = 0, mr_token_count = 7, mr_retry_count = 1\<rparr>, (2, 2))"
    by (simp add: live_analyze_def p counted_def flaky_server_def is_transient_def read_sample_reply)
  from live_analysis_bounded[OF this] have "valid_assessment sample_assessment \<and> int 1 \<le> 2 \<and> (2::nat) = Suc 1"
    by (simp add: p)
  moreover from range have "live_analyze (\<lambda>permitted ev note. counted silent_server) 2 synthetic_memory_oom None (0, 0) =
    (Inl (ModelAnalysisError ''model_timeout''), (3, 3))"
    by (simp add: live_analyze_def p counted_def silent_server_def flaky_server_def)
  from live_analysis_bounded[OF this] have "int 3 \<le> max 0 (2 + 1)" by simp
  ultimately show ?thesis by blast
qed

text \<open>With a transport that fails only in the ways the loop catches, a failed live analysis raises
  \<open>ModelAnalysisError\<close> with one of seven reason codes; the exceptions are the policy's refusal before
  any request, and \<open>IndexError\<close> and \<open>AttributeError\<close>, which a reply with an empty list of choices, an
  unterminated code fence or a malformed usage member lets escape.\<close>

theorem live_failure_reasons:
  assumes "\<And>permitted ev note. sends_quietly (server permitted ev note)"
    and "live_analyze server max_retries ev note w = (Inl e, w')"
  shows "allowed_actions (te_scenario ev) (te_scenario_kind ev) = Inl e \<or>
    (\<exists>c \<in> set model_reasons. e = ModelAnalysisError c) \<or> e = IndexError \<or> e = AttributeError"
proof (cases "allowed_actions (te_scenario ev) (te_scenario_kind ev)")
  case (Inr permitted)
  obtain started v where "ms_clock (server (sort permitted) ev note) w = (started, v)" by fastforce
  with assms(2) Inr have l: "live_loop (server (sort permitted) ev note) started ''model_analysis_failed''
      [0..<nat (max_retries + 1)] v = (Inl e, w')"
    by (simp add: live_analyze_def)
  have "''model_analysis_failed'' \<in> set model_reasons" by (simp add: model_reasons_def)
  from live_loop_Inl[OF assms(1) l this] show ?thesis by (auto simp: analysis_error_def)
qed (use assms(2) in \<open>simp add: live_analyze_def\<close>)

lemma empty_server_escape:
  "live_analyze (\<lambda>permitted ev note. empty_server) 2 synthetic_memory_oom None 0 = (Inl IndexError, 1)"
proof -
  have p: "allowed_actions (te_scenario synthetic_memory_oom) (te_scenario_kind synthetic_memory_oom) = Inr [''stop_memory_hog'']"
    by (simp add: synthetic_memory_oom_def evidence_defaults_def allowed_actions_def SCENARIO_KIND_ACTIONS_def)
  have "[0..<nat (2 + 1)] = [0, 1, 2]" by (simp add: upt_rec)
  then show ?thesis
    by (simp add: live_analyze_def p empty_server_def flaky_server_def read_reply_def
        MAX_MODEL_RESPONSE_BYTES_def decode_json_def sample_loads_def item_at_key_def first_item_def)
qed

theorem live_failure_reasons_witness:
  "live_analyze (\<lambda>permitted ev note. empty_server) 2 synthetic_memory_oom None 0 = (Inl IndexError, 1) \<and>
   (allowed_actions MEMORY_OOM SYNTHETIC_MARKER = Inl IndexError \<or>
    (\<exists>c \<in> set model_reasons. IndexError = ModelAnalysisError c) \<or> IndexError = IndexError \<or> IndexError = AttributeError)"
  using live_failure_reasons[OF _ empty_server_escape] empty_server_escape
  by (simp add: sends_quietly_def empty_server_def flaky_server_def)

end
