(* ===== verification/Sandbox.thy ===== *)
theory Sandbox
  imports Prelude
begin

text \<open>
  \<open>sandbox.py\<close>: the disposable execution directory. The file system is a table from absolute paths,
  lists of components below the anchor, to directories (owner, mode), regular files and symbolic
  links (to absolute paths); looking a path up follows at most 40 links, as the kernel does. What
  the module asks of the process (its user, the temporary, home, working and package directories)
  is the record \<open>host\<close>; an operation the operating system refuses raises \<open>OSError\<close>.
\<close>

type_synonym path = "string list"

datatype entry = Directory nat nat | Regular string | Symlink "string list"

type_synonym files = "(string list \<times> entry) list"

record host =
  h_tmp :: path
  h_home :: path
  h_cwd :: path
  h_package :: path
  h_euid :: nat
  h_dir_mode :: nat
  h_refuses :: "path \<Rightarrow> bool"

record sandbox =
  sb_root :: path
  sb_token :: string

section \<open>Looking paths up\<close>

text \<open>\<open>Path.resolve(strict=False)\<close>: \<open>None\<close> when the links never end.\<close>

function follow :: "nat \<Rightarrow> files \<Rightarrow> path \<Rightarrow> path \<Rightarrow> path option" where
  "follow n f acc [] = Some acc"
| "follow n f acc (c # cs) =
     (case map_of f (acc @ [c]) of
        Some (Symlink t) \<Rightarrow> (case n of 0 \<Rightarrow> None | Suc m \<Rightarrow> follow m f [] (t @ cs))
      | _ \<Rightarrow> follow n f (acc @ [c]) cs)"
  by pat_completeness auto
termination by (relation "measures [\<lambda>(n, _, _, _). n, \<lambda>(_, _, _, cs). length cs]") auto

definition resolve :: "files \<Rightarrow> path \<Rightarrow> path option" where
  "resolve f p = follow 40 f [] p"

definition entry_at :: "files \<Rightarrow> path \<Rightarrow> entry option" where
  "entry_at f p = (if p = [] then Some (Directory 0 493) else map_of f p)"

definition stat :: "files \<Rightarrow> path \<Rightarrow> entry option" where
  "stat f p = (case resolve f p of None \<Rightarrow> None | Some q \<Rightarrow> entry_at f q)"

definition lstat :: "files \<Rightarrow> path \<Rightarrow> entry option" where
  "lstat f p =
     (if p = [] then entry_at f [] else
      case resolve f (butlast p) of None \<Rightarrow> None | Some q \<Rightarrow> entry_at f (q @ [last p]))"

definition path_exists :: "files \<Rightarrow> path \<Rightarrow> bool" where "path_exists f p \<longleftrightarrow> stat f p \<noteq> None"

definition is_dir :: "files \<Rightarrow> path \<Rightarrow> bool" where
  "is_dir f p \<longleftrightarrow> (case stat f p of Some (Directory _ _) \<Rightarrow> True | _ \<Rightarrow> False)"

definition is_file :: "files \<Rightarrow> path \<Rightarrow> bool" where
  "is_file f p \<longleftrightarrow> (case stat f p of Some (Regular _) \<Rightarrow> True | _ \<Rightarrow> False)"

definition is_symlink :: "files \<Rightarrow> path \<Rightarrow> bool" where
  "is_symlink f p \<longleftrightarrow> (case lstat f p of Some (Symlink _) \<Rightarrow> True | _ \<Rightarrow> False)"

text \<open>\<open>_contains_symlink\<close>: a link whose target does not exist is not counted.\<close>

definition contains_symlink :: "files \<Rightarrow> path \<Rightarrow> bool" where
  "contains_symlink f p \<longleftrightarrow>
     list_ex (\<lambda>n. path_exists f (take n p) \<and> is_symlink f (take n p)) [1..<Suc (length p)]"

text \<open>The parts of a path text.\<close>

fun split_slash :: "string \<Rightarrow> string \<Rightarrow> string list" where
  "split_slash acc [] = [rev acc]"
| "split_slash acc (c # s) = (if c = CHR ''/'' then rev acc # split_slash [] s else split_slash (c # acc) s)"

definition path_parts :: "string \<Rightarrow> path" where
  "path_parts s = filter (\<lambda>p. p \<noteq> [] \<and> p \<noteq> ''.'') (split_slash [] s)"

definition is_absolute :: "string \<Rightarrow> bool" where "is_absolute s \<longleftrightarrow> prefix ''/'' s"

section \<open>Validation\<close>

definition MARKER_NAME :: string where "MARKER_NAME = ''.incident-agent-sandbox''"

definition unsafe_root :: "host \<Rightarrow> path \<Rightarrow> bool" where
  "unsafe_root h root \<longleftrightarrow> root \<in> {[], h_tmp h, h_home h, h_cwd h, h_package h} \<or> butlast root = root"

definition owner_of :: "files \<Rightarrow> path \<Rightarrow> nat option" where
  "owner_of f p = (case stat f p of Some (Directory u _) \<Rightarrow> Some u | _ \<Rightarrow> None)"

definition marker_ok :: "sandbox \<Rightarrow> files \<Rightarrow> bool" where
  "marker_ok sb f \<longleftrightarrow>
     (let marker = sb_root sb @ [MARKER_NAME] in
      is_file f marker \<and> \<not> is_symlink f marker \<and> stat f marker = Some (Regular (sb_token sb)))"

definition validate :: "host \<Rightarrow> sandbox \<Rightarrow> files \<Rightarrow> exn + unit" where
  "validate h sb f =
     (let root = sb_root sb in
      if unsafe_root h root then Inl (SandboxViolation ''sandbox root is not disposable'')
      else if \<not> path_exists f root \<or> \<not> is_dir f root \<or> is_symlink f root
      then Inl (SandboxViolation ''sandbox root is missing or invalid'')
      else if resolve f root \<noteq> Some root \<or> contains_symlink f root
      then Inl (SandboxViolation ''sandbox root may not contain symlinks'')
      else if owner_of f root \<noteq> Some (h_euid h)
      then Inl (SandboxViolation ''sandbox root is not owned by the current process user'')
      else if \<not> marker_ok sb f
      then Inl (SandboxViolation ''sandbox ownership marker is missing or invalid'')
      else Inr ())"

definition resolve_child :: "host \<Rightarrow> sandbox \<Rightarrow> string \<Rightarrow> files \<Rightarrow> exn + path" where
  "resolve_child h sb relative f =
     bindE (validate h sb f) (\<lambda>_.
     if is_absolute relative \<or> ''..'' \<in> set (path_parts relative)
     then Inl (SandboxViolation ''sandbox child path traversal is not allowed'')
     else
       let candidate = sb_root sb @ path_parts relative in
       if contains_symlink f candidate
       then Inl (SandboxViolation ''sandbox child path may not contain symlinks'')
       else case resolve f candidate of
         None \<Rightarrow> Inl RuntimeError
       | Some resolved \<Rightarrow>
           if prefix (sb_root sb) resolved then Inr resolved
           else Inl (SandboxViolation ''sandbox child escaped root''))"

section \<open>Changing files\<close>

definition put_entry :: "path \<Rightarrow> entry \<Rightarrow> files \<Rightarrow> files" where
  "put_entry p e f = (p, e) # filter (\<lambda>(q, _). q \<noteq> p) f"

text \<open>\<open>unlink\<close> of a path whose parent is resolved: a link is removed, not what it names.\<close>

definition unlink :: "host \<Rightarrow> path \<Rightarrow> files \<Rightarrow> exn + files" where
  "unlink h p f =
     (case map_of f p of
        None \<Rightarrow> Inl OSError
      | Some (Directory _ _) \<Rightarrow> Inl OSError
      | Some _ \<Rightarrow> if h_refuses h p then Inl OSError else Inr (filter (\<lambda>(q, _). q \<noteq> p) f))"

text \<open>\<open>mkdir(parents=True, exist_ok=True)\<close> on a resolved path, from the anchor down.\<close>

fun mkdir_from :: "host \<Rightarrow> path \<Rightarrow> path \<Rightarrow> files \<Rightarrow> (exn + unit) \<times> files" where
  "mkdir_from h acc [] f = (Inr (), f)"
| "mkdir_from h acc (c # cs) f =
     (case map_of f (acc @ [c]) of
        Some (Directory _ _) \<Rightarrow> mkdir_from h (acc @ [c]) cs f
      | Some _ \<Rightarrow> (Inl OSError, f)
      | None \<Rightarrow>
          if h_refuses h (acc @ [c]) then (Inl OSError, f)
          else mkdir_from h (acc @ [c]) cs (put_entry (acc @ [c]) (Directory (h_euid h) (h_dir_mode h)) f))"

definition mkdir_parents :: "host \<Rightarrow> path \<Rightarrow> files \<Rightarrow> (exn + unit) \<times> files" where
  "mkdir_parents h p f = mkdir_from h [] p f"

definition iterdir :: "files \<Rightarrow> path \<Rightarrow> path list" where
  "iterdir f p = map fst (filter (\<lambda>(q, _). q \<noteq> [] \<and> butlast q = p) f)"

text \<open>\<open>write_text\<close> opens the path, following links, and creates or truncates the file it denotes.\<close>

definition write_text :: "host \<Rightarrow> path \<Rightarrow> string \<Rightarrow> files \<Rightarrow> exn + files" where
  "write_text h p s f =
     (case resolve f p of
        None \<Rightarrow> Inl OSError
      | Some q \<Rightarrow>
          if q = [] \<or> h_refuses h q then Inl OSError
          else case (entry_at f q, entry_at f (butlast q)) of
            (Some (Directory _ _), _) \<Rightarrow> Inl OSError
          | (_, Some (Directory _ _)) \<Rightarrow> Inr (put_entry q (Regular s) f)
          | _ \<Rightarrow> Inl OSError)"

definition chmod :: "host \<Rightarrow> path \<Rightarrow> nat \<Rightarrow> files \<Rightarrow> exn + files" where
  "chmod h p m f =
     (case resolve f p of
        None \<Rightarrow> Inl OSError
      | Some q \<Rightarrow>
          if h_refuses h q then Inl OSError
          else case entry_at f q of
            None \<Rightarrow> Inl OSError
          | Some (Directory u _) \<Rightarrow> Inr (if q = [] then f else put_entry q (Directory u m) f)
          | Some _ \<Rightarrow> Inr f)"

section \<open>The operations of the sandbox\<close>

text \<open>\<open>create_test_fixture\<close>, with the random token it writes into the marker.\<close>

definition absolute :: "host \<Rightarrow> string \<Rightarrow> path" where
  "absolute h s = (if is_absolute s then path_parts s else h_cwd h @ path_parts s)"

definition make_directory :: "host \<Rightarrow> path \<Rightarrow> files \<Rightarrow> exn + files" where
  "make_directory h p f =
     (case entry_at f (butlast p) of
        Some (Directory _ _) \<Rightarrow> if h_refuses h p then Inl OSError else Inr (put_entry p (Directory (h_euid h) 448) f)
      | _ \<Rightarrow> Inl OSError)"

definition create_test_fixture :: "host \<Rightarrow> string \<Rightarrow> string \<Rightarrow> (files, sandbox) action" where
  "create_test_fixture h token requested =
     bindS (readS (\<lambda>f.
       if ''..'' \<in> set (path_parts requested) then Inl (SandboxViolation ''sandbox path traversal is not allowed'')
       else if contains_symlink f (absolute h requested)
       then Inl (SandboxViolation ''sandbox path may not contain symlinks'')
       else case resolve f (absolute h requested) of
         None \<Rightarrow> Inl RuntimeError
       | Some resolved \<Rightarrow>
           if unsafe_root h resolved then Inl (SandboxViolation ''sandbox root is not disposable'')
           else if path_exists f resolved \<and> (\<not> is_dir f resolved \<or> iterdir f resolved \<noteq> [])
           then Inl (SandboxViolation ''test sandbox must be an empty directory'')
           else Inr resolved)) (\<lambda>resolved.
     bindS (\<lambda>f. if path_exists f resolved then (Inr (), f) else changeS (make_directory h resolved) f) (\<lambda>_.
     bindS (changeS (chmod h resolved 448)) (\<lambda>_.
     bindS (changeS (write_text h (resolved @ [MARKER_NAME]) token)) (\<lambda>_.
     bindS (changeS (chmod h (resolved @ [MARKER_NAME]) 384)) (\<lambda>_.
     bindS (readS (validate h \<lparr>sb_root = resolved, sb_token = token\<rparr>)) (\<lambda>_.
     returnS \<lparr>sb_root = resolved, sb_token = token\<rparr>))))))"

text \<open>
  \<open>create_runtime\<close>: a private temporary directory under a random name and a random token. The temporary
  directory of the host is given resolved; \<open>mkdtemp\<close> never reuses a name.
\<close>

definition runtime_root :: "host \<Rightarrow> string \<Rightarrow> path" where
  "runtime_root h name = h_tmp h @ [''incident-agent-'' @ name]"

definition create_runtime :: "host \<Rightarrow> string \<Rightarrow> string \<Rightarrow> (files, sandbox) action" where
  "create_runtime h name token =
     (let root = runtime_root h name in
      bindS (changeS (\<lambda>f. if map_of f root \<noteq> None then Inl OSError else make_directory h root f)) (\<lambda>_.
      bindS (changeS (chmod h root 448)) (\<lambda>_.
      bindS (changeS (write_text h (root @ [MARKER_NAME]) token)) (\<lambda>_.
      bindS (changeS (chmod h (root @ [MARKER_NAME]) 384)) (\<lambda>_.
      bindS (readS (validate h \<lparr>sb_root = root, sb_token = token\<rparr>)) (\<lambda>_.
      returnS \<lparr>sb_root = root, sb_token = token\<rparr>))))))"

text \<open>\<open>TemporaryDirectory.cleanup\<close>: the tree below the root, deepest first; a refusal stops it.\<close>

definition remove_entry :: "host \<Rightarrow> path \<Rightarrow> (files, unit) action" where
  "remove_entry h p = changeS (\<lambda>f. if h_refuses h p then Inl OSError else Inr (filter (\<lambda>(q, _). q \<noteq> p) f))"

definition remove_tree :: "host \<Rightarrow> path \<Rightarrow> (files, unit) action" where
  "remove_tree h base f =
     eachS (remove_entry h) (rev (sort_key length (filter (prefix base) (map fst f)))) f"

definition prepare_container_access :: "host \<Rightarrow> sandbox \<Rightarrow> string list \<Rightarrow> (files, unit) action" where
  "prepare_container_access h sb relatives =
     bindS (readS (validate h sb)) (\<lambda>_.
     bindS (gatherS (\<lambda>r. bindS (readS (resolve_child h sb r)) (\<lambda>d.
              bindS (mkdir_parents h d) (\<lambda>_. returnS d))) relatives) (\<lambda>ds.
     bindS (changeS (chmod h (sb_root sb) 457)) (\<lambda>_.
     eachS (\<lambda>d. changeS (chmod h d 511)) ds)))"

text \<open>Deepest directories first; \<open>sorted(..., reverse=True)\<close> keeps the order of equals.\<close>

definition close_directory :: "host \<Rightarrow> path \<Rightarrow> (files, unit) action" where
  "close_directory h p f =
     (if is_dir f p \<and> \<not> is_symlink f p then changeS (chmod h p 448) f else (Inr (), f))"

definition restore_owner_access :: "host \<Rightarrow> sandbox \<Rightarrow> string list \<Rightarrow> (files, unit) action" where
  "restore_owner_access h sb relatives =
     bindS (eachS (\<lambda>r. close_directory h (sb_root sb @ path_parts r))
       (rev (sort_key (\<lambda>r. length (path_parts r)) (rev relatives)))) (\<lambda>_.
     bindS (close_directory h (sb_root sb)) (\<lambda>_.
     readS (validate h sb)))"

section \<open>Paths without links\<close>

definition no_links :: "files \<Rightarrow> path \<Rightarrow> bool" where
  "no_links f p \<longleftrightarrow> (\<forall>q t. prefix q p \<longrightarrow> map_of f q \<noteq> Some (Symlink t) \<or> q = [])"

lemma no_links_Nil [simp]: "no_links f []"
  by (simp add: no_links_def)

lemma no_links_snoc: "no_links f (p @ [c]) \<longleftrightarrow> no_links f p \<and> (\<forall>t. map_of f (p @ [c]) \<noteq> Some (Symlink t))"
  by (auto simp: no_links_def)

lemma follow_no_links:
  "follow n f acc cs = Some q \<Longrightarrow> no_links f acc \<Longrightarrow> no_links f q"
proof (induction n f acc cs rule: follow.induct)
  case (2 n f acc c cs)
  show ?case
  proof (cases "\<exists>t. map_of f (acc @ [c]) = Some (Symlink t)")
    case True
    with 2 show ?thesis by (auto split: nat.splits)
  next
    case False
    with 2 show ?thesis by (auto simp: no_links_snoc split: option.splits entry.splits)
  qed
qed simp

lemma resolve_no_links: "resolve f p = Some q \<Longrightarrow> no_links f q"
  unfolding resolve_def using follow_no_links no_links_Nil by blast

lemma follow_plain: "no_links f (acc @ cs) \<Longrightarrow> follow n f acc (cs @ ds) = follow n f (acc @ cs) ds"
proof (induction cs arbitrary: acc)
  case (Cons c cs)
  then have "map_of f (acc @ [c]) \<noteq> Some (Symlink t)" for t
    unfolding no_links_def by (metis Nil_is_append_conv not_Cons_self2 prefix_def append.assoc append_Cons append_Nil)
  then show ?case using Cons.IH[of "acc @ [c]"] Cons.prems by (simp split: option.splits entry.splits)
qed simp

lemma resolve_plain: "no_links f p \<Longrightarrow> resolve f p = Some p"
  using follow_plain[of f "[]" p 40 "[]"] by (simp add: resolve_def)

lemma stat_plain: "no_links f p \<Longrightarrow> stat f p = entry_at f p"
  by (simp add: stat_def resolve_plain)

lemma no_links_prefix: "no_links f p \<Longrightarrow> prefix q p \<Longrightarrow> no_links f q"
  unfolding no_links_def by (meson prefix_order.trans)

lemma lstat_plain:
  assumes "no_links f p"
  shows "lstat f p = entry_at f p"
proof (cases "p = []")
  case False
  then have "butlast p @ [last p] = p" by simp
  moreover have "no_links f (butlast p)" using no_links_prefix[OF assms prefixeq_butlast] .
  ultimately show ?thesis using False by (simp add: lstat_def resolve_plain)
qed (simp add: lstat_def)

section \<open>Confinement\<close>

text \<open>Two states of the file system that agree outside a directory.\<close>

definition same_outside :: "path \<Rightarrow> files \<Rightarrow> files \<Rightarrow> bool" where
  "same_outside root f f' \<longleftrightarrow> (\<forall>p. \<not> prefix root p \<longrightarrow> map_of f' p = map_of f p)"

lemma same_outside_refl: "reflp (same_outside root)" and same_outside_trans: "transp (same_outside root)"
  by (auto simp: same_outside_def reflp_def transp_def)

lemma map_of_remove: "map_of (filter (\<lambda>(q, _). q \<noteq> p) f) r = (if r = p then None else map_of f r)"
  by (induction f) auto

lemma map_of_put_entry [simp]: "map_of (put_entry p e f) r = (if r = p then Some e else map_of f r)"
  by (simp add: put_entry_def map_of_remove)

lemma same_outside_put: "prefix root p \<Longrightarrow> same_outside root f (put_entry p e f)"
  by (auto simp: same_outside_def)

lemma same_outside_unlink: "prefix root p \<Longrightarrow> unlink h p f = Inr f' \<Longrightarrow> same_outside root f f'"
  by (auto simp: same_outside_def unlink_def map_of_remove split: if_splits option.splits entry.splits)

lemma unsafe_root_nonempty: "\<not> unsafe_root h root \<Longrightarrow> root \<noteq> []"
  by (auto simp: unsafe_root_def)

text \<open>What a validated sandbox is.\<close>

lemma validate_Inr:
  assumes "validate h sb f = Inr u"
  shows "sb_root sb \<noteq> []" "no_links f (sb_root sb)" "resolve f (sb_root sb) = Some (sb_root sb)"
    "\<exists>m. map_of f (sb_root sb) = Some (Directory (h_euid h) m)"
    "\<not> unsafe_root h (sb_root sb)"
    "map_of f (sb_root sb @ [MARKER_NAME]) = Some (Regular (sb_token sb))"
proof -
  have v: "\<not> unsafe_root h (sb_root sb)" "resolve f (sb_root sb) = Some (sb_root sb)"
    "owner_of f (sb_root sb) = Some (h_euid h)" "marker_ok sb f"
    using assms by (auto simp: validate_def Let_def split: if_splits)
  then show "sb_root sb \<noteq> []" "\<not> unsafe_root h (sb_root sb)" "resolve f (sb_root sb) = Some (sb_root sb)"
    using unsafe_root_nonempty by simp_all
  show n: "no_links f (sb_root sb)" using resolve_no_links[OF v(2)] .
  show "\<exists>m. map_of f (sb_root sb) = Some (Directory (h_euid h) m)"
    using v(3) \<open>sb_root sb \<noteq> []\<close>
    by (auto simp: owner_of_def stat_plain[OF n] entry_at_def split: option.splits entry.splits)
  have "\<not> is_symlink f (sb_root sb @ [MARKER_NAME])" and st: "stat f (sb_root sb @ [MARKER_NAME]) = Some (Regular (sb_token sb))"
    using v(4) by (auto simp: marker_ok_def Let_def)
  then have "no_links f (sb_root sb @ [MARKER_NAME])"
    using n by (auto simp: no_links_snoc is_symlink_def lstat_def resolve_plain entry_at_def)
  then show "map_of f (sb_root sb @ [MARKER_NAME]) = Some (Regular (sb_token sb))"
    using st by (simp add: stat_plain entry_at_def)
qed

lemma resolve_child_Inr:
  assumes "resolve_child h sb relative f = Inr p"
  shows "validate h sb f = Inr ()" "prefix (sb_root sb) p" "no_links f p"
    "resolve f (sb_root sb @ path_parts relative) = Some p"
  using assms resolve_no_links
  by (auto simp: resolve_child_def Let_def bindE_Inr_iff split: if_splits option.splits)

text \<open>One entry per path, with a directory above it.\<close>

definition files_ok :: "files \<Rightarrow> bool" where
  "files_ok f \<longleftrightarrow> distinct (map fst f) \<and>
     (\<forall>p \<in> set (map fst f). p \<noteq> [] \<and> (butlast p = [] \<or> (\<exists>u m. map_of f (butlast p) = Some (Directory u m))))"

lemma files_ok_ancestors:
  assumes "files_ok f" and "map_of f p \<noteq> None" and "strict_prefix q p" and "q \<noteq> []"
  shows "\<exists>u m. map_of f q = Some (Directory u m)"
  using assms(2,3)
proof (induction p rule: rev_induct)
  case (snoc c p)
  then have "(p @ [c]) \<in> set (map fst f)" by (metis domIff dom_map_of_conv_image_fst list.set_map)
  then have b: "p = [] \<or> (\<exists>u m. map_of f p = Some (Directory u m))"
    using assms(1) unfolding files_ok_def by (metis butlast_snoc)
  have qp: "prefix q p" using snoc.prems(2) by (metis prefix_snoc strict_prefix_def)
  show ?case
  proof (cases "q = p")
    case True
    with b assms(4) show ?thesis by simp
  next
    case False
    with qp have "strict_prefix q p" by (simp add: strict_prefix_def)
    moreover have "p \<noteq> []" using calculation by auto
    ultimately show ?thesis using snoc.IH b by auto
  qed
qed simp

lemma mkdir_from_inside:
  assumes "prefix root (acc @ [c])"
  shows "same_outside root f (snd (mkdir_from h acc (c # cs) f))"
  using assms
proof (induction cs arbitrary: acc c f)
  case Nil
  then show ?case by (auto simp: same_outside_put same_outside_refl[THEN reflpD] split: option.splits entry.splits)
next
  case (Cons d cs)
  have p: "prefix root ((acc @ [c]) @ [d])" using Cons.prems by (rule prefix_prefix)
  note ih = Cons.IH[OF p]
  show ?case
  proof (cases "map_of f (acc @ [c])")
    case None
    have "same_outside root f (put_entry (acc @ [c]) (Directory (h_euid h) (h_dir_mode h)) f)"
      using Cons.prems by (rule same_outside_put)
    from transpD[OF same_outside_trans this ih] None show ?thesis
      using reflpD[OF same_outside_refl] by simp
  next
    case (Some e)
    then show ?thesis using ih[of f] reflpD[OF same_outside_refl] by (cases e) simp_all
  qed
qed

text \<open>Directories that exist are passed over.\<close>

lemma mkdir_from_existing:
  assumes ok: "files_ok f" and root: "map_of f root = Some (Directory u m)" and "prefix qs root"
  shows "mkdir_from h [] (qs @ rest) f = mkdir_from h qs rest f"
  using assms(3)
proof (induction qs arbitrary: rest rule: rev_induct)
  case (snoc c qs)
  have "\<exists>u m. map_of f (qs @ [c]) = Some (Directory u m)"
    using files_ok_ancestors[OF ok, of root "qs @ [c]"] root snoc.prems
    by (cases "qs @ [c] = root") (auto simp: strict_prefix_def)
  moreover have "prefix qs root" using snoc.prems by (metis prefix_snocD prefix_order.less_imp_le)
  ultimately show ?case using snoc.IH[of "c # rest"] by auto
qed simp

text \<open>Making directories at a path below an existing directory changes nothing outside it.\<close>

lemma mkdir_parents_inside:
  assumes ok: "files_ok f" and root: "map_of f root = Some (Directory u m)" and p: "prefix root p"
  shows "same_outside root f (snd (mkdir_parents h p f))"
proof -
  obtain rest where rest: "p = root @ rest" using p by (auto simp: prefix_def)
  have e: "mkdir_parents h p f = mkdir_from h root rest f"
    unfolding mkdir_parents_def rest by (rule mkdir_from_existing[OF ok root]) simp
  show ?thesis
  proof (cases rest)
    case (Cons c cs)
    show ?thesis unfolding e Cons by (rule mkdir_from_inside) simp
  qed (simp add: e same_outside_refl[THEN reflpD])
qed

section \<open>Links are never made\<close>

definition no_new_links :: "files \<Rightarrow> files \<Rightarrow> bool" where
  "no_new_links f f' \<longleftrightarrow> (\<forall>p t. map_of f' p = Some (Symlink t) \<longrightarrow> map_of f p = Some (Symlink t))"

lemma no_new_links_refl [simp]: "no_new_links f f"
  by (simp add: no_new_links_def)

lemma no_new_links_trans: "no_new_links f g \<Longrightarrow> no_new_links g k \<Longrightarrow> no_new_links f k"
  by (simp add: no_new_links_def)

lemma no_links_mono: "no_links f p \<Longrightarrow> no_new_links f f' \<Longrightarrow> no_links f' p"
  unfolding no_links_def no_new_links_def by blast

lemma mkdir_from_links: "no_new_links f (snd (mkdir_from h acc cs f))"
proof (induction cs arbitrary: acc f)
  case (Cons c cs)
  have put: "no_new_links f (put_entry p (Directory u m) f)" for p u m by (simp add: no_new_links_def)
  show ?case
  proof (cases "map_of f (acc @ [c])")
    case None
    then show ?thesis using no_new_links_trans[OF put Cons.IH] by simp
  next
    case (Some e)
    then show ?thesis using Cons.IH by (cases e) auto
  qed
qed simp

lemma unlink_Inr:
  "unlink h p f = Inr f' \<longleftrightarrow>
   f' = filter (\<lambda>(q, _). q \<noteq> p) f \<and> \<not> h_refuses h p \<and>
   (\<exists>e. map_of f p = Some e \<and> (\<forall>u m. e \<noteq> Directory u m))"
  by (auto simp: unlink_def split: option.splits entry.splits)

lemma unlink_links: "unlink h p f = Inr f' \<Longrightarrow> no_new_links f f'"
  by (auto simp: unlink_Inr no_new_links_def map_of_remove)

text \<open>No link anywhere in the sandbox.\<close>

definition link_free :: "path \<Rightarrow> files \<Rightarrow> bool" where
  "link_free root f \<longleftrightarrow> (\<forall>p t. prefix root p \<longrightarrow> map_of f p \<noteq> Some (Symlink t))"

lemma link_free_mono: "link_free root f \<Longrightarrow> no_new_links f f' \<Longrightarrow> link_free root f'"
  unfolding link_free_def no_new_links_def by blast

lemma link_free_below:
  assumes "no_links f root" and "link_free root f" and "prefix root p"
  shows "no_links f p"
proof -
  have "prefix q root \<or> prefix root q" if "prefix q p" for q
    using prefix_same_cases[OF that assms(3)] .
  then show ?thesis using assms(1,2) unfolding no_links_def link_free_def by blast
qed

end
