(* ===== verification/Executor.thy ===== *)
theory Executor
  imports Sandbox Schemas
begin

text \<open>
  \<open>executor.py\<close>: the adapters that carry out an approved option. Here are the disabled one, the one
  that works on the files of the disposable sandbox, and the one that runs a fixed script in a
  container over the same sandbox; the worker and service adapters are in \<open>Activation\<close> and
  \<open>ContainerLab\<close>. The container engine is the parameter \<open>run\<close>: from a command and the files to an
  outcome and the files after it.
\<close>

record execution_result =
  xr_success :: bool
  xr_message :: string
  xr_deleted_count :: int
  xr_failure_reason_code :: "string option"
  xr_service_restarted :: bool
  xr_health_before :: "string option"
  xr_health_after :: "string option"
  xr_attempts :: int
  xr_latency_ms :: int
  xr_boot_count :: int
  xr_diagnostic :: "string option"

definition execution_succeeded :: "string \<Rightarrow> execution_result" where
  "execution_succeeded message =
     \<lparr>xr_success = True, xr_message = message, xr_deleted_count = 0, xr_failure_reason_code = None,
      xr_service_restarted = False, xr_health_before = None, xr_health_after = None, xr_attempts = 0,
      xr_latency_ms = 0, xr_boot_count = 0, xr_diagnostic = None\<rparr>"

definition execution_failed :: "string \<Rightarrow> string \<Rightarrow> execution_result" where
  "execution_failed message reason =
     (execution_succeeded message)\<lparr>xr_success := False, xr_failure_reason_code := Some reason\<rparr>"

definition disabled_execute :: "remediation_option \<Rightarrow> ('w, execution_result) action" where
  "disabled_execute opt = returnS (execution_failed ''remediation execution is disabled'' ''execution_disabled'')"

section \<open>The filesystem adapter\<close>

text \<open>\<open>Path.suffix\<close>.\<close>

definition path_suffix :: "string \<Rightarrow> string" where
  "path_suffix name =
     (let extension = rev (takeWhile (\<lambda>c. c \<noteq> CHR ''.'') (rev name)) in
      if length extension = 0 \<or> length name \<le> Suc (length extension) then [] else CHR ''.'' # extension)"

text \<open>The loops over \<open>iterdir\<close>, whose listing is taken before the first removal.\<close>

fun remove_matching :: "host \<Rightarrow> string list \<Rightarrow> path list \<Rightarrow> int \<Rightarrow> (files, int) action" where
  "remove_matching h exts [] deleted f = (Inr deleted, f)"
| "remove_matching h exts (q # qs) deleted f =
     (if is_file f q \<and> path_suffix (last q) \<in> set exts
      then (case unlink h q f of
              Inl e \<Rightarrow> (Inl e, f)
            | Inr f' \<Rightarrow> remove_matching h exts qs (deleted + 1) f')
      else remove_matching h exts qs deleted f)"

definition remove_in :: "host \<Rightarrow> string list \<Rightarrow> path \<Rightarrow> int \<Rightarrow> (files, int) action" where
  "remove_in h exts target deleted f = remove_matching h exts (iterdir f target) deleted f"

definition cleanup_rotated_logs :: "host \<Rightarrow> sandbox \<Rightarrow> (files, execution_result) action" where
  "cleanup_rotated_logs h sb =
     bindS (readS (resolve_child h sb ''logs'')) (\<lambda>target.
     bindS (mkdir_parents h target) (\<lambda>_.
     bindS (remove_in h [''.rotated'', ''.gz''] target 0) (\<lambda>deleted.
     returnS ((execution_succeeded ''rotated log cleanup completed'')\<lparr>xr_deleted_count := deleted\<rparr>))))"

definition clear_marker :: "host \<Rightarrow> sandbox \<Rightarrow> string \<Rightarrow> string \<Rightarrow> (files, execution_result) action" where
  "clear_marker h sb relative message =
     bindS (readS (resolve_child h sb relative)) (\<lambda>marker f.
     let deleted = (if is_file f marker then 1 else 0) in
     bindS (if is_file f marker then changeS (unlink h marker) else returnS ()) (\<lambda>_.
     returnS ((execution_succeeded message)\<lparr>xr_deleted_count := deleted\<rparr>)) f)"

fun storm_loop :: "host \<Rightarrow> sandbox \<Rightarrow> (string \<times> string list) list \<Rightarrow> int \<Rightarrow> (files, int) action" where
  "storm_loop h sb [] deleted = returnS deleted"
| "storm_loop h sb ((relative_root, exts) # rest) deleted =
     bindS (readS (resolve_child h sb relative_root)) (\<lambda>target f.
     if \<not> is_dir f target then storm_loop h sb rest deleted f
     else bindS (remove_in h exts target deleted) (\<lambda>n. storm_loop h sb rest n) f)"

definition cleanup_log_storm :: "host \<Rightarrow> sandbox \<Rightarrow> (files, execution_result) action" where
  "cleanup_log_storm h sb =
     bindS (storm_loop h sb [(''logs/storm'', [''.storm'']), (''tmp'', [''.tmp''])] 0) (\<lambda>deleted.
     returnS ((execution_succeeded ''log-storm temporary-file cleanup completed'')\<lparr>xr_deleted_count := deleted\<rparr>))"

definition restart_fixture :: "host \<Rightarrow> sandbox \<Rightarrow> (files, execution_result) action" where
  "restart_fixture h sb =
     bindS (readS (resolve_child h sb ''services'')) (\<lambda>services.
     bindS (mkdir_parents h services) (\<lambda>_.
     bindS (\<lambda>f. if path_exists f (services @ [''restart_loop.marker''])
                then changeS (unlink h (services @ [''restart_loop.marker''])) f else returnS () f) (\<lambda>_.
     bindS (changeS (write_text h (services @ [''healthy.marker'']) ''healthy'')) (\<lambda>_.
     returnS ((execution_succeeded ''restart-loop marker fixture reset'')\<lparr>xr_deleted_count := 1\<rparr>)))))"

definition FILESYSTEM_ACTIONS :: "string list" where
  "FILESYSTEM_ACTIONS = [''cleanup_rotated_logs'', ''stop_runaway_process'', ''restart_disposable_service'',
     ''stop_memory_hog'', ''cleanup_log_storm_temp_files'']"

definition unauthorized :: execution_result where
  "unauthorized = execution_failed ''action is not authorized'' ''unauthorized_action''"

definition filesystem_action :: "host \<Rightarrow> sandbox \<Rightarrow> string \<Rightarrow> (files, execution_result) action" where
  "filesystem_action h sb action_id =
     bindS (readS (validate h sb)) (\<lambda>_.
     if action_id = ''cleanup_rotated_logs'' then cleanup_rotated_logs h sb
     else if action_id = ''stop_runaway_process''
     then clear_marker h sb ''processes/runaway_cpu.marker'' ''runaway-CPU marker fixture cleared''
     else if action_id = ''stop_memory_hog''
     then clear_marker h sb ''memory/memory_hog.marker'' ''memory-pressure marker fixture cleared''
     else if action_id = ''cleanup_log_storm_temp_files'' then cleanup_log_storm h sb
     else restart_fixture h sb)"

definition filesystem_execute :: "host \<Rightarrow> sandbox \<Rightarrow> remediation_option \<Rightarrow> (files, execution_result) action" where
  "filesystem_execute h sb opt =
     (if ro_action_id opt \<notin> set FILESYSTEM_ACTIONS then returnS unauthorized
      else catchS (filesystem_action h sb (ro_action_id opt)) (\<lambda>e.
        case e of
          SandboxViolation _ \<Rightarrow> returnS (execution_failed ''sandbox validation failed'' ''unsafe_sandbox_root'')
        | OSError \<Rightarrow> returnS (execution_failed ''cleanup failed'' ''filesystem_error'')
        | _ \<Rightarrow> raiseS e))"

section \<open>The container adapter\<close>

definition hex_digit :: "char \<Rightarrow> bool" where
  "hex_digit c \<longleftrightarrow> is_digit c \<or> char_in c 97 102"

text \<open>\<open>re.fullmatch(".+@sha256:[0-9a-f]{64}", image)\<close>.\<close>

definition image_pinned :: "string \<Rightarrow> bool" where
  "image_pinned img \<longleftrightarrow>
     (let n = length img - 72; name = take n img; rest = drop n img in
      72 < length img \<and> CHR 0x0A \<notin> set name \<and> take 8 rest = ''@sha256:'' \<and> list_all hex_digit (drop 8 rest))"

datatype run_outcome = Completed int string string | Run_timed_out | Run_os_error

record container_executor =
  ce_image :: string
  ce_engine :: "string option"
  ce_run :: "string list \<Rightarrow> files \<Rightarrow> run_outcome \<times> files"

text \<open>The constructor; \<open>found\<close> is the engine on the search path, if any.\<close>

definition new_container_executor ::
    "string \<Rightarrow> string option \<Rightarrow> string option \<Rightarrow> (string list \<Rightarrow> files \<Rightarrow> run_outcome \<times> files) \<Rightarrow> exn + container_executor"
where
  "new_container_executor img engine found run =
     (if \<not> image_pinned img then Inl (ValueError ''container image must be pinned by sha256 digest'')
      else Inr \<lparr>ce_image = img,
        ce_engine = (case engine of None \<Rightarrow> found | Some [] \<Rightarrow> found | Some e \<Rightarrow> Some e),
        ce_run = run\<rparr>)"

text \<open>The fixed scripts, line by line.\<close>

definition text_lines :: "string list \<Rightarrow> string" where
  "text_lines ls = concat (map (\<lambda>l. l @ [CHR 0x0A]) ls)"

definition script_rotated :: string where
  "script_rotated = text_lines
     ['''',
      ''from pathlib import Path'',
      '''',
      ''root = Path('/incident-sandbox/logs')'',
      ''root.mkdir(parents=True, exist_ok=True)'',
      ''deleted = 0'',
      ''for candidate in root.iterdir():'',
      ''    if candidate.is_file() and candidate.suffix in {'.rotated', '.gz'}:'',
      ''        candidate.unlink()'',
      ''        deleted += 1'',
      ''print(f'cleanup_rotated_logs deleted={deleted}')'']"

definition script_runaway :: string where
  "script_runaway = text_lines
     ['''',
      ''from pathlib import Path'',
      '''',
      ''marker = Path('/incident-sandbox/processes/runaway_cpu.marker')'',
      ''deleted = int(marker.is_file())'',
      ''if marker.is_file():'',
      ''    marker.unlink()'',
      ''print(f'stop_runaway_process deleted={deleted}')'']"

definition script_restart :: string where
  "script_restart = text_lines
     ['''',
      ''from pathlib import Path'',
      '''',
      ''root = Path('/incident-sandbox/services')'',
      ''root.mkdir(parents=True, exist_ok=True)'',
      ''loop_marker = root / 'restart_loop.marker'' @ [CHR 0x27],
      ''deleted = int(loop_marker.is_file())'',
      ''if loop_marker.is_file():'',
      ''    loop_marker.unlink()'',
      ''(root / 'healthy.marker').write_text('healthy')'',
      ''print(f'restart_disposable_service deleted={deleted}')'']"

definition script_memory :: string where
  "script_memory = text_lines
     ['''',
      ''from pathlib import Path'',
      '''',
      ''marker = Path('/incident-sandbox/memory/memory_hog.marker')'',
      ''deleted = int(marker.is_file())'',
      ''if marker.is_file():'',
      ''    marker.unlink()'',
      ''print(f'stop_memory_hog deleted={deleted}')'']"

definition script_storm :: string where
  "script_storm = text_lines
     ['''',
      ''from pathlib import Path'',
      '''',
      ''deleted = 0'',
      ''for relative_root, suffixes in ('',
      ''    ('logs/storm', {'.storm'}),'',
      ''    ('tmp', {'.tmp'}),'',
      ''):'',
      ''    root = Path('/incident-sandbox') / relative_root'',
      ''    if not root.is_dir():'',
      ''        continue'',
      ''    for candidate in root.iterdir():'',
      ''        if candidate.is_file() and candidate.suffix in suffixes:'',
      ''            candidate.unlink()'',
      ''            deleted += 1'',
      ''print(f'cleanup_log_storm_temp_files deleted={deleted}')'']"

definition CONTAINER_ACTION_SCRIPTS :: "(string \<times> string) list" where
  "CONTAINER_ACTION_SCRIPTS =
    [(''cleanup_rotated_logs'', script_rotated),
     (''stop_runaway_process'', script_runaway),
     (''restart_disposable_service'', script_restart),
     (''stop_memory_hog'', script_memory),
     (''cleanup_log_storm_temp_files'', script_storm)]"

definition CONTAINER_ACTION_DIRECTORIES :: "(string \<times> string list) list" where
  "CONTAINER_ACTION_DIRECTORIES =
    [(''cleanup_rotated_logs'', [''logs'']), (''stop_runaway_process'', [''processes'']),
     (''restart_disposable_service'', [''services'']), (''stop_memory_hog'', [''memory'']),
     (''cleanup_log_storm_temp_files'', [''logs'', ''logs/storm'', ''tmp''])]"

text \<open>\<open>str(path)\<close>.\<close>

definition show_path :: "path \<Rightarrow> string" where
  "show_path p = (if p = [] then ''/'' else concat (map (\<lambda>c. CHR ''/'' # c) p))"

definition container_user :: "nat \<Rightarrow> nat \<Rightarrow> string" where
  "container_user uid gid =
     show_nat (if uid \<noteq> 0 then uid else 65532) @ '':'' @ show_nat (if uid \<noteq> 0 then gid else 65532)"

definition container_command ::
    "container_executor \<Rightarrow> string \<Rightarrow> string \<Rightarrow> nat \<Rightarrow> nat \<Rightarrow> path \<Rightarrow> string \<Rightarrow> string list"
where
  "container_command ce engine name uid gid base script =
     [engine, ''run'', ''--rm'', ''--pull=missing'', ''--name'', name, ''--network=none'', ''--read-only'',
      ''--cpus=0.5'', ''--memory=128m'', ''--memory-swap=128m'', ''--pids-limit=64'', ''--cap-drop=ALL'',
      ''--security-opt=no-new-privileges'', ''--user'', container_user uid gid, ''--mount'',
      ''type=bind,src='' @ show_path base @ '',dst=/incident-sandbox'',
      ''--tmpfs'', ''/tmp:rw,noexec,nosuid,size=16m'', ce_image ce, ''python'', ''-c'', script]"

text \<open>\<open>re.search("deleted=(\d+)", stdout)\<close>.\<close>

fun find_deleted :: "string \<Rightarrow> nat option" where
  "find_deleted [] = None"
| "find_deleted (c # s) =
     (let rest = drop 8 (c # s); digits = takeWhile is_digit rest in
      if prefix ''deleted='' (c # s) \<and> digits \<noteq> [] then Some (read_nat digits) else find_deleted s)"

text \<open>\<open>str.replace\<close> of a non-empty needle.\<close>

function replace_all :: "string \<Rightarrow> string \<Rightarrow> string \<Rightarrow> string" where
  "replace_all needle new [] = []"
| "replace_all needle new (c # s) =
     (if needle \<noteq> [] \<and> prefix needle (c # s) then new @ replace_all needle new (drop (length needle) (c # s))
      else c # replace_all needle new s)"
  by pat_completeness auto
termination by (relation "measure (\<lambda>(_, _, s). length s)") auto

definition container_result :: "path \<Rightarrow> int \<Rightarrow> string \<Rightarrow> string \<Rightarrow> execution_result" where
  "container_result base returncode stdout stderr =
     (if returncode \<noteq> 0 then
        let diagnostic = take 512 (strip (replace_all (show_path base) ''<sandbox>''
              (if stderr \<noteq> [] then stderr else stdout)))
        in (execution_failed ''container cleanup failed'' ''container_exit_nonzero'')
             \<lparr>xr_diagnostic := Some (if diagnostic \<noteq> [] then diagnostic
                else ''container exited without diagnostic output'')\<rparr>
      else (execution_succeeded ''container cleanup completed'')
             \<lparr>xr_deleted_count := (case find_deleted stdout of None \<Rightarrow> 0 | Some n \<Rightarrow> int n)\<rparr>)"

text \<open>The \<open>try\<close> block, with its handlers: what the method returns unless its \<open>finally\<close> block does.\<close>

definition container_try ::
    "host \<Rightarrow> sandbox \<Rightarrow> container_executor \<Rightarrow> string \<Rightarrow> string \<Rightarrow> nat \<Rightarrow> string \<Rightarrow> string list \<Rightarrow> (files, execution_result) action"
where
  "container_try h sb ce engine name gid script directories =
     catchS
       (bindS (readS (validate h sb)) (\<lambda>_.
        bindS (prepare_container_access h sb directories) (\<lambda>_ f.
        case ce_run ce (container_command ce engine name (h_euid h) gid (sb_root sb) script) f of
          (Completed returncode stdout stderr, f') \<Rightarrow> (Inr (container_result (sb_root sb) returncode stdout stderr), f')
        | (Run_timed_out, f') \<Rightarrow> (Inr (execution_failed ''container cleanup timed out'' ''execution_timeout''), f')
        | (Run_os_error, f') \<Rightarrow> (Inl OSError, f'))))
       (\<lambda>e. case e of
          SandboxViolation _ \<Rightarrow> returnS (execution_failed ''sandbox validation failed'' ''unsafe_sandbox_root'')
        | OSError \<Rightarrow> returnS (execution_failed ''container execution failed'' ''container_runtime_error'')
        | _ \<Rightarrow> raiseS e)"

definition container_execute ::
    "host \<Rightarrow> sandbox \<Rightarrow> container_executor \<Rightarrow> string \<Rightarrow> nat \<Rightarrow> remediation_option \<Rightarrow> (files, execution_result) action"
where
  "container_execute h sb ce name gid opt f =
     (case map_of CONTAINER_ACTION_SCRIPTS (ro_action_id opt) of
        None \<Rightarrow> (Inr unauthorized, f)
      | Some script \<Rightarrow>
          (case ce_engine ce of
             None \<Rightarrow> (Inr (execution_failed ''container engine unavailable'' ''container_engine_unavailable''), f)
           | Some engine \<Rightarrow>
               (let directories = (case map_of CONTAINER_ACTION_DIRECTORIES (ro_action_id opt) of None \<Rightarrow> [] | Some ds \<Rightarrow> ds);
                    (result, f1) = container_try h sb ce engine name gid script directories f;
                    f2 = snd (ce_run ce [engine, ''rm'', ''-f'', name] f1)
                in if path_exists f2 (sb_root sb)
                   then (case restore_owner_access h sb directories f2 of
                           (Inl (SandboxViolation _), f3) \<Rightarrow>
                             (Inr (execution_failed ''sandbox permissions could not be restored'' ''sandbox_permission_restore_failed''), f3)
                         | (Inl OSError, f3) \<Rightarrow>
                             (Inr (execution_failed ''sandbox permissions could not be restored'' ''sandbox_permission_restore_failed''), f3)
                         | (Inl e, f3) \<Rightarrow> (Inl e, f3)
                         | (Inr _, f3) \<Rightarrow> (result, f3))
                   else (result, f2))))"

section \<open>The filesystem adapter stays inside its sandbox\<close>

lemma inside_bind:
  assumes "same_outside r f (snd (m f))" and "\<And>x t. m f = (Inr x, t) \<Longrightarrow> same_outside r t (snd (g x t))"
  shows "same_outside r f (snd (bindS m g f))"
proof (cases "m f")
  case (Pair y t)
  with assms transpD[OF same_outside_trans] show ?thesis by (cases y) (auto simp: bindS_def)
qed

lemma inside_refl [simp]: "same_outside r f f"
  by (simp add: same_outside_def)

lemma inside_change:
  "(\<And>f'. c f = Inr f' \<Longrightarrow> same_outside r f f') \<Longrightarrow> same_outside r f (snd (changeS c f))"
  by (auto simp: changeS_def split: sum.splits)

lemma remove_matching_inside:
  "list_all (prefix r) qs \<Longrightarrow> same_outside r f (snd (remove_matching h exts qs n f))"
proof (induction h exts qs n f rule: remove_matching.induct)
  case (2 h exts q qs n f)
  then show ?case
    using transpD[OF same_outside_trans same_outside_unlink] by (auto split: sum.splits)
qed simp

lemma iterdir_inside: "prefix r p \<Longrightarrow> list_all (prefix r) (iterdir f p)"
  unfolding iterdir_def list_all_iff by (auto simp: prefix_append[of r p, symmetric]) (metis append_butlast_last_id prefix_prefix)

lemma remove_in_inside: "prefix r p \<Longrightarrow> same_outside r f (snd (remove_in h exts p n f))"
  unfolding remove_in_def by (intro remove_matching_inside iterdir_inside)

lemma mkdir_child_inside:
  assumes "files_ok f" and "resolve_child h sb relative f = Inr p"
  shows "same_outside (sb_root sb) f (snd (mkdir_parents h p f))"
  using mkdir_parents_inside[OF assms(1)] validate_Inr(4)[OF resolve_child_Inr(1)[OF assms(2)]]
    resolve_child_Inr(2)[OF assms(2)] by blast

lemma cleanup_inside:
  assumes "files_ok f"
  shows "same_outside (sb_root sb) f (snd (cleanup_rotated_logs h sb f))"
  unfolding cleanup_rotated_logs_def
  by (intro inside_bind; simp add: mkdir_child_inside[OF assms] remove_in_inside resolve_child_Inr)

lemma clear_marker_inside: "same_outside (sb_root sb) f (snd (clear_marker h sb relative message f))"
proof -
  have "same_outside (sb_root sb) f (snd (changeS (unlink h p) f))" if "resolve_child h sb relative f = Inr p" for p
    by (rule inside_change) (rule same_outside_unlink[OF resolve_child_Inr(2)[OF that]])
  then show ?thesis
    unfolding clear_marker_def Let_def
    by (intro inside_bind; simp)
qed

lemma storm_loop_inside: "same_outside (sb_root sb) f (snd (storm_loop h sb roots n f))"
proof (induction h sb roots n arbitrary: f rule: storm_loop.induct)
  case (2 h sb relative exts rest n)
  then show ?case
    by (auto intro!: inside_bind remove_in_inside dest: resolve_child_Inr)
qed simp

lemma storm_inside: "same_outside (sb_root sb) f (snd (cleanup_log_storm h sb f))"
  unfolding cleanup_log_storm_def by (intro inside_bind storm_loop_inside) simp

lemma restart_inside:
  assumes ok: "files_ok f" and lf: "link_free (sb_root sb) f"
  shows "same_outside (sb_root sb) f (snd (restart_fixture h sb f))"
proof (cases "resolve_child h sb ''services'' f")
  case (Inr p)
  let ?loop = "p @ [''restart_loop.marker'']" and ?marker = "p @ [''healthy.marker'']"
  note child = resolve_child_Inr[OF Inr]
  have below: "prefix (sb_root sb) ?loop" "prefix (sb_root sb) ?marker"
    using child(2) by (simp_all add: prefix_prefix)
  define f1 where "f1 = snd (mkdir_parents h p f)"
  have f1: "same_outside (sb_root sb) f f1" "no_new_links f f1"
    using mkdir_child_inside[OF ok Inr] mkdir_from_links by (simp_all add: f1_def mkdir_parents_def)
  define clear where "clear = (\<lambda>f. if path_exists f ?loop then changeS (unlink h ?loop) f else returnS () f)"
  have cl: "same_outside (sb_root sb) g (snd (clear g)) \<and> no_new_links g (snd (clear g))" for g
    using same_outside_unlink[OF below(1), of h g] unlink_links[of h ?loop g]
    by (auto simp: clear_def changeS_def split: sum.splits)
  have wr: "same_outside (sb_root sb) g (snd (changeS (write_text h ?marker ''healthy'') g))" if "no_new_links f g" for g
  proof (rule inside_change)
    fix g' assume w: "write_text h ?marker ''healthy'' g = Inr g'"
    have "no_links g ?marker"
      using link_free_below[OF no_links_mono[OF validate_Inr(2)[OF child(1)] that] link_free_mono[OF lf that] below(2)] .
    then show "same_outside (sb_root sb) g g'"
      using w same_outside_put[OF below(2)]
      by (auto simp: write_text_def resolve_plain split: option.splits entry.splits if_splits)
  qed
  have "same_outside (sb_root sb) f1 (snd (bindS clear (\<lambda>_. bindS (changeS (write_text h ?marker ''healthy'')) (\<lambda>_. returnS x)) f1))"
    for x :: execution_result
  proof (rule inside_bind)
    fix u t assume "clear f1 = (Inr u, t)"
    then have "no_new_links f t" using cl[of f1] f1(2) no_new_links_trans by force
    from wr[OF this] show "same_outside (sb_root sb) t
        (snd (bindS (changeS (write_text h ?marker ''healthy'')) (\<lambda>_. returnS x) t))"
      by (intro inside_bind) simp_all
  qed (use cl in blast)
  then show ?thesis
    unfolding restart_fixture_def bindS_eq[of "readS _"] using Inr f1(1)
    by (auto simp: bindS_eq[of "mkdir_parents h p"] f1_def clear_def split: sum.splits
        intro: transpD[OF same_outside_trans])
qed (simp add: restart_fixture_def bindS_def)

text \<open>C23: The filesystem adapter never changes a file outside its sandbox, whatever option it is given
  and however far it gets before an error: below the files of a well-formed file system, provided the
  sandbox holds no symbolic link when the service fixture is reset (the other actions need no such
  premise).\<close>

theorem executor_confined:
  assumes "files_ok f" and "ro_action_id opt = ''restart_disposable_service'' \<longrightarrow> link_free (sb_root sb) f"
    and "\<not> prefix (sb_root sb) p"
  shows "map_of (snd (filesystem_execute h sb opt f)) p = map_of f p"
proof -
  have lf: "ro_action_id opt \<in> set FILESYSTEM_ACTIONS \<Longrightarrow> ro_action_id opt \<noteq> ''cleanup_rotated_logs'' \<Longrightarrow>
      ro_action_id opt \<noteq> ''stop_runaway_process'' \<Longrightarrow> ro_action_id opt \<noteq> ''stop_memory_hog'' \<Longrightarrow>
      ro_action_id opt \<noteq> ''cleanup_log_storm_temp_files'' \<Longrightarrow> link_free (sb_root sb) f"
    using assms(2) by (auto simp: FILESYSTEM_ACTIONS_def)
  have body: "same_outside (sb_root sb) f (snd (filesystem_action h sb (ro_action_id opt) f))"
    if "ro_action_id opt \<in> set FILESYSTEM_ACTIONS"
    unfolding filesystem_action_def
    by (rule inside_bind)
      (use cleanup_inside[OF assms(1)] clear_marker_inside storm_inside restart_inside[OF assms(1)] lf that in auto)
  have "same_outside (sb_root sb) f (snd (filesystem_execute h sb opt f))"
    using body by (auto simp: filesystem_execute_def catchS_def split: prod.splits sum.splits exn.splits)
  with assms(3) show ?thesis by (simp add: same_outside_def)
qed

section \<open>A sample sandbox\<close>

definition sample_host :: host where
  "sample_host = \<lparr>h_tmp = [''tmp''], h_home = [''home''], h_cwd = [''work''], h_package = [''lib''],
     h_euid = 7, h_dir_mode = 493, h_refuses = (\<lambda>p. False)\<rparr>"

definition sample_sandbox :: sandbox where
  "sample_sandbox = \<lparr>sb_root = [''s''], sb_token = ''t''\<rparr>"

definition sample_files :: files where
  "sample_files =
    [([''s''], Directory 7 448), ([''s'', MARKER_NAME], Regular ''t''),
     ([''s'', ''logs''], Directory 7 448), ([''s'', ''logs'', ''a.rotated''], Regular ''x''),
     ([''s'', ''logs'', ''b.log''], Regular ''y''), ([''etc''], Regular ''z'')]"

text \<open>The same with a link planted at the marker of the service fixture.\<close>

definition linked_files :: files where
  "linked_files = sample_files @
    [([''s'', ''services''], Directory 7 448), ([''s'', ''services'', ''healthy.marker''], Symlink [''etc''])]"

definition sample_option :: "string \<Rightarrow> remediation_option" where
  "sample_option action =
     \<lparr>ro_action_id = action, ro_title = [], ro_evidence = [], ro_confidence = 1, ro_impact = [], ro_risk = [],
      ro_action_preview = [], ro_parameters = None, ro_target_id = None, ro_capability = None\<rparr>"

lemmas sample_file_simps = sample_files_def linked_files_def sample_host_def sample_sandbox_def sample_option_def
  MARKER_NAME_def resolve_def stat_def lstat_def entry_at_def path_exists_def is_dir_def is_file_def
  is_symlink_def contains_symlink_def upt_rec path_parts_def is_absolute_def

lemma sample_files_ok: "files_ok sample_files" "files_ok linked_files"
  by (simp_all add: files_ok_def sample_file_simps)

lemma sample_valid: "validate sample_host sample_sandbox sample_files = Inr ()"
  "validate sample_host sample_sandbox linked_files = Inr ()"
  by (simp_all add: validate_def Let_def unsafe_root_def owner_of_def marker_ok_def sample_file_simps)

lemma sample_children:
  "resolve_child sample_host sample_sandbox ''logs'' sample_files = Inr [''s'', ''logs'']"
  "resolve_child sample_host sample_sandbox ''services'' linked_files = Inr [''s'', ''services'']"
  by (simp_all add: resolve_child_def sample_valid) (simp_all add: sample_file_simps)

theorem executor_confined_witness:
  "map_of (snd (filesystem_execute sample_host sample_sandbox (sample_option ''cleanup_rotated_logs'') sample_files)) [''etc''] =
     Some (Regular ''z'')"
proof -
  have "\<not> prefix (sb_root sample_sandbox) [''etc'']" by (simp add: sample_sandbox_def)
  from executor_confined[OF sample_files_ok(1) _ this, of "sample_option ''cleanup_rotated_logs''"]
  show ?thesis by (simp add: sample_option_def sample_files_def)
qed

text \<open>The premise of confinement is needed: a symbolic link planted at \<open>services/healthy.marker\<close>
  passes every validation of the sandbox, and resetting the service fixture reports success and
  overwrites the file outside the sandbox that the link names.\<close>

theorem restart_writes_through_link:
  "validate sample_host sample_sandbox linked_files = Inr () \<and>
   \<not> prefix (sb_root sample_sandbox) [''etc''] \<and>
   map_of linked_files [''etc''] = Some (Regular ''z'') \<and>
   (case filesystem_execute sample_host sample_sandbox (sample_option ''restart_disposable_service'') linked_files of
      (Inr r, f') \<Rightarrow> xr_success r \<and> map_of f' [''etc''] = Some (Regular ''healthy'')
    | (Inl e, f') \<Rightarrow> False)"
proof -
  have mk: "mkdir_parents sample_host [''s'', ''services''] linked_files = (Inr (), linked_files)"
    by (simp add: mkdir_parents_def sample_file_simps)
  have lp: "path_exists linked_files [''s'', ''services'', ''restart_loop.marker''] = False"
    by (simp add: sample_file_simps)
  have wr: "write_text sample_host [''s'', ''services'', ''healthy.marker''] ''healthy'' linked_files =
      Inr (put_entry [''etc''] (Regular ''healthy'') linked_files)"
    by (simp add: write_text_def sample_file_simps)
  have "restart_fixture sample_host sample_sandbox linked_files =
      (Inr ((execution_succeeded ''restart-loop marker fixture reset'')\<lparr>xr_deleted_count := 1\<rparr>),
       put_entry [''etc''] (Regular ''healthy'') linked_files)"
    by (simp add: restart_fixture_def bindS_def sample_children mk lp changeS_def wr)
  then show ?thesis
    by (simp add: sample_valid filesystem_execute_def filesystem_action_def bindS_def catchS_def
        sample_option_def FILESYSTEM_ACTIONS_def execution_succeeded_def)
      (simp add: sample_file_simps)
qed

section \<open>What the log cleanup removes\<close>

definition regular_at :: "files \<Rightarrow> path \<Rightarrow> bool" where
  "regular_at f p \<longleftrightarrow> (case map_of f p of Some (Regular _) \<Rightarrow> True | _ \<Rightarrow> False)"

lemma is_file_plain: "no_links f p \<Longrightarrow> p \<noteq> [] \<Longrightarrow> is_file f p = regular_at f p"
  by (simp add: is_file_def stat_plain entry_at_def regular_at_def)

lemma remove_matching_exact:
  assumes "remove_matching h exts qs n f = (Inr m, f')" and "distinct qs"
    and "\<forall>q \<in> set qs. no_links f q \<and> q \<noteq> []"
  shows "m = n + int (length (filter (\<lambda>q. regular_at f q \<and> path_suffix (last q) \<in> set exts) qs)) \<and>
    (\<forall>p. map_of f' p =
       (if p \<in> set qs \<and> regular_at f p \<and> path_suffix (last p) \<in> set exts then None else map_of f p))"
  using assms
proof (induction qs arbitrary: n f)
  case (Cons q qs)
  have isf: "is_file f q = regular_at f q" using Cons.prems(3) by (simp add: is_file_plain)
  show ?case
  proof (cases "regular_at f q \<and> path_suffix (last q) \<in> set exts")
    case True
    then obtain g where u: "unlink h q f = Inr g" and rest: "remove_matching h exts qs (n + 1) g = (Inr m, f')"
      using Cons.prems(1) isf by (auto split: sum.splits)
    have g: "map_of g p = (if p = q then None else map_of f p)" for p
      using u by (auto simp: unlink_Inr map_of_remove)
    have links: "\<forall>p \<in> set qs. no_links g p \<and> p \<noteq> []"
      using Cons.prems(3) no_links_mono[OF _ unlink_links[OF u]] by simp
    have reg: "regular_at g p = regular_at f p" if "p \<noteq> q" for p using that by (simp add: regular_at_def g)
    have "filter (\<lambda>p. regular_at g p \<and> path_suffix (last p) \<in> set exts) qs =
        filter (\<lambda>p. regular_at f p \<and> path_suffix (last p) \<in> set exts) qs"
      using Cons.prems(2) reg by (intro filter_cong refl) (metis distinct.simps(2))
    with Cons.IH[OF rest _ links] Cons.prems(2) True show ?thesis
      by (auto simp: g reg)
  next
    case False
    with Cons.prems isf have "remove_matching h exts qs n f = (Inr m, f')" by auto
    with Cons.IH[OF this] Cons.prems(2,3) False show ?thesis by auto
  qed
qed simp

lemma mkdir_existing:
  assumes "files_ok f" and "map_of f p = Some (Directory u m)"
  shows "mkdir_parents h p f = (Inr (), f)"
  using mkdir_from_existing[OF assms, of p h "[]"] by (simp add: mkdir_parents_def)

definition rotated_log :: "path \<Rightarrow> files \<Rightarrow> path \<Rightarrow> bool" where
  "rotated_log base f p \<longleftrightarrow>
     butlast p = base @ [''logs''] \<and> regular_at f p \<and> path_suffix (last p) \<in> {''.rotated'', ''.gz''}"

lemma iterdir_set: "set (iterdir f p) = {q \<in> fst ` set f. q \<noteq> [] \<and> butlast q = p}"
  by (force simp: iterdir_def)

lemma iterdir_distinct: "distinct (map fst f) \<Longrightarrow> distinct (iterdir f p)"
  unfolding iterdir_def by (rule distinct_map_filter)

text \<open>C24: The log cleanup does exactly what its action promises: on a sandbox without links that has its \<open>logs\<close> directory,
  when it reports success the regular files directly under \<open>logs\<close> with suffix \<open>.rotated\<close> or \<open>.gz\<close> are gone,
  every other path is as it was, and the reported count is the number of files removed.\<close>

theorem cleanup_exact:
  assumes "files_ok f" and "link_free (sb_root sb) f"
    and "map_of f (sb_root sb @ [''logs'']) = Some (Directory u m)"
    and "ro_action_id opt = ''cleanup_rotated_logs''"
    and "filesystem_execute h sb opt f = (Inr r, f')" and "xr_success r"
  shows "xr_deleted_count r = int (card {p. rotated_log (sb_root sb) f p}) \<and>
    map_of f' p = (if rotated_log (sb_root sb) f p then None else map_of f p)"
proof -
  let ?logs = "sb_root sb @ [''logs'']"
  have run: "cleanup_rotated_logs h sb f = (Inr r, f')" and v: "validate h sb f = Inr ()"
    using assms(4,5,6)
    by (auto simp: filesystem_execute_def FILESYSTEM_ACTIONS_def catchS_def filesystem_action_def bindS_def
        execution_failed_def execution_succeeded_def split: prod.splits sum.splits exn.splits)
  have nl: "no_links f p" if "prefix (sb_root sb) p" for p
    using link_free_below[OF validate_Inr(2)[OF v] assms(2) that] .
  have parts: "path_parts ''logs'' = [''logs'']" by (simp add: path_parts_def)
  obtain p1 where c: "resolve_child h sb ''logs'' f = Inr p1"
    using run by (auto simp: cleanup_rotated_logs_def bindS_Inr_iff)
  have "p1 = ?logs" using resolve_child_Inr(4)[OF c] resolve_plain[OF nl[of ?logs]] by (simp add: parts)
  then have rm: "\<exists>n. remove_matching h [''.rotated'', ''.gz''] (iterdir f ?logs) 0 f = (Inr n, f') \<and> xr_deleted_count r = n"
    using run c mkdir_existing[OF assms(1,3)]
    by (auto simp: cleanup_rotated_logs_def bindS_Inr_iff remove_in_def execution_succeeded_def)
  have ls: "q \<in> set (iterdir f ?logs) \<Longrightarrow> no_links f q \<and> q \<noteq> []" for q
    using iterdir_inside[of "sb_root sb" ?logs f] nl by (auto simp: list_all_iff iterdir_set)
  have dist: "distinct (iterdir f ?logs)" using assms(1) by (intro iterdir_distinct) (simp add: files_ok_def)
  have listed: "rotated_log (sb_root sb) f q \<longleftrightarrow>
      q \<in> set (iterdir f ?logs) \<and> regular_at f q \<and> path_suffix (last q) \<in> {''.rotated'', ''.gz''}" for q
  proof -
    have "q \<in> fst ` set f" if "regular_at f q"
      using that by (cases "map_of f q") (auto simp: regular_at_def dest!: map_of_SomeD intro: rev_image_eqI)
    moreover have "q \<noteq> []" if "butlast q = ?logs" using that by auto
    ultimately show ?thesis by (auto simp: rotated_log_def iterdir_set)
  qed
  have "{q. rotated_log (sb_root sb) f q} =
      set (filter (\<lambda>q. regular_at f q \<and> path_suffix (last q) \<in> set [''.rotated'', ''.gz'']) (iterdir f ?logs))"
    by (auto simp: listed)
  then have card: "card {q. rotated_log (sb_root sb) f q} =
      length (filter (\<lambda>q. regular_at f q \<and> path_suffix (last q) \<in> set [''.rotated'', ''.gz'']) (iterdir f ?logs))"
    using distinct_card[OF distinct_filter[OF dist]] by (simp only:)
  from rm obtain n where n: "remove_matching h [''.rotated'', ''.gz''] (iterdir f ?logs) 0 f = (Inr n, f')"
    "xr_deleted_count r = n" by blast
  have "xr_deleted_count r = int (card {q. rotated_log (sb_root sb) f q})"
    using remove_matching_exact[OF n(1) dist] ls n(2) unfolding card by simp
  moreover have "map_of f' p = (if rotated_log (sb_root sb) f p then None else map_of f p)"
    using remove_matching_exact[OF n(1) dist] ls unfolding listed by simp
  ultimately show ?thesis ..
qed

theorem cleanup_exact_witness:
  "map_of (snd (filesystem_execute sample_host sample_sandbox (sample_option ''cleanup_rotated_logs'') sample_files))
     [''s'', ''logs'', ''a.rotated''] = None"
proof -
  have lf: "link_free (sb_root sample_sandbox) sample_files"
    by (auto simp: link_free_def sample_file_simps)
  have mk: "mkdir_parents sample_host [''s'', ''logs''] sample_files = (Inr (), sample_files)"
    by (simp add: mkdir_parents_def sample_file_simps)
  have it: "iterdir sample_files [''s'', ''logs''] = [[''s'', ''logs'', ''a.rotated''], [''s'', ''logs'', ''b.log'']]"
    by (simp add: iterdir_def sample_files_def MARKER_NAME_def)
  have suffixes: "path_suffix ''a.rotated'' = ''.rotated''" "path_suffix ''b.log'' = ''.log''"
    by (simp_all add: path_suffix_def Let_def)
  have "\<exists>f'. filesystem_execute sample_host sample_sandbox (sample_option ''cleanup_rotated_logs'') sample_files =
      (Inr ((execution_succeeded ''rotated log cleanup completed'')\<lparr>xr_deleted_count := 1\<rparr>), f')"
    by (simp add: filesystem_execute_def FILESYSTEM_ACTIONS_def sample_option_def filesystem_action_def bindS_def
        catchS_def sample_valid cleanup_rotated_logs_def sample_children mk remove_in_def it suffixes unlink_def)
      (simp add: sample_file_simps suffixes)
  then obtain f' where run: "filesystem_execute sample_host sample_sandbox (sample_option ''cleanup_rotated_logs'') sample_files =
      (Inr ((execution_succeeded ''rotated log cleanup completed'')\<lparr>xr_deleted_count := 1\<rparr>), f')" by blast
  have "rotated_log (sb_root sample_sandbox) sample_files [''s'', ''logs'', ''a.rotated'']"
    by (simp add: rotated_log_def suffixes regular_at_def sample_files_def sample_sandbox_def MARKER_NAME_def)
  moreover have "map_of sample_files (sb_root sample_sandbox @ [''logs'']) = Some (Directory 7 448)"
    by (simp add: sample_files_def sample_sandbox_def MARKER_NAME_def)
  ultimately have "map_of f' [''s'', ''logs'', ''a.rotated''] = None"
    using cleanup_exact[OF sample_files_ok(1) lf _ _ run, of 7 448 "[''s'', ''logs'', ''a.rotated'']"]
    by (simp add: execution_succeeded_def sample_option_def)
  then show ?thesis by (simp add: run)
qed

section \<open>What an adapter owes the service\<close>

definition reasoned :: "execution_result \<Rightarrow> bool" where
  "reasoned r \<longleftrightarrow> (xr_success r \<longleftrightarrow> xr_failure_reason_code r = None)"

lemma reasoned_simps [simp]:
  "reasoned (execution_succeeded m)" "reasoned (execution_failed m c)"
  "reasoned ((execution_succeeded m)\<lparr>xr_deleted_count := n\<rparr>)"
  "reasoned ((execution_failed m c)\<lparr>xr_diagnostic := d\<rparr>)" "reasoned unauthorized"
  by (simp_all add: reasoned_def execution_succeeded_def execution_failed_def unauthorized_def)

locale remediation_executor =
  fixes execute :: "remediation_option \<Rightarrow> ('w, execution_result) action" and actions :: "string set"
  assumes refuses: "ro_action_id opt \<notin> actions \<Longrightarrow> \<exists>r. execute opt w = (Inr r, w) \<and> \<not> xr_success r"
    and gives_reason: "execute opt w = (Inr r, w') \<Longrightarrow> reasoned r"
begin

lemma success_authorised: "execute opt w = (Inr r, w') \<Longrightarrow> xr_success r \<Longrightarrow> ro_action_id opt \<in> actions"
  using refuses[of opt w] by fastforce

lemma change_authorised: "snd (execute opt w) \<noteq> w \<Longrightarrow> ro_action_id opt \<in> actions"
  using refuses[of opt w] by fastforce

lemma failure_reason:
  "execute opt w = (Inr r, w') \<Longrightarrow> \<not> xr_success r \<Longrightarrow> \<exists>c. xr_failure_reason_code r = Some c"
  using gives_reason by (auto simp: reasoned_def)

end

interpretation disabled: remediation_executor disabled_execute "{}"
  by unfold_locales (simp_all add: disabled_execute_def, auto simp: execution_failed_def)

lemma filesystem_action_reasoned: "filesystem_action h sb a f = (Inr r, f') \<Longrightarrow> reasoned r"
  by (auto simp: filesystem_action_def cleanup_rotated_logs_def clear_marker_def cleanup_log_storm_def
      restart_fixture_def bindS_Inr_iff Let_def split: if_splits)

interpretation filesystem: remediation_executor "filesystem_execute h sb" "set FILESYSTEM_ACTIONS"
  for h sb
proof
  show "reasoned r" if "filesystem_execute h sb opt f = (Inr r, f')" for opt f r f'
    using that
    by (auto simp: filesystem_execute_def catchS_def dest: filesystem_action_reasoned
        split: if_splits prod.splits sum.splits exn.splits)
qed (simp add: filesystem_execute_def unauthorized_def execution_failed_def)

lemma container_result_reasoned: "reasoned (container_result base c out err)"
  by (simp add: container_result_def Let_def)

lemma container_try_reasoned: "container_try h sb ce engine name gid script ds f = (Inr r, f') \<Longrightarrow> reasoned r"
  by (auto simp: container_try_def catchS_def bindS_def container_result_reasoned
      split: prod.splits sum.splits exn.splits run_outcome.splits)

interpretation container: remediation_executor "\<lambda>opt. container_execute h sb ce name gid opt"
  "set (map fst CONTAINER_ACTION_SCRIPTS)"
  for h sb ce name gid
proof
  show "reasoned r" if "container_execute h sb ce name gid opt f = (Inr r, f')" for opt f r f'
    using that
    by (auto simp: container_execute_def Let_def dest: container_try_reasoned
        split: option.splits prod.splits if_splits sum.splits exn.splits)
  show "\<exists>r. container_execute h sb ce name gid opt f = (Inr r, f) \<and> \<not> xr_success r"
    if "ro_action_id opt \<notin> set (map fst CONTAINER_ACTION_SCRIPTS)" for opt f
  proof -
    have "map_of CONTAINER_ACTION_SCRIPTS (ro_action_id opt) = None" using that by (simp add: map_of_eq_None_iff)
    then show ?thesis by (simp add: container_execute_def unauthorized_def execution_failed_def)
  qed
qed

section \<open>Access around a container run\<close>

lemma close_directory_root:
  assumes close: "close_directory h p f = (Inr u, f')" and val: "validate h sb f' = Inr ()" and p: "p = sb_root sb"
  shows "map_of f' p = Some (Directory (h_euid h) 448)"
proof -
  note v = validate_Inr[OF val, folded p]
  obtain m where m: "map_of f' p = Some (Directory (h_euid h) m)" using v(4) by blast
  have at: "is_dir f' p \<and> \<not> is_symlink f' p"
    using m v(1) by (simp add: is_dir_def is_symlink_def stat_plain[OF v(2)] lstat_plain[OF v(2)] entry_at_def)
  have "is_dir f p \<and> \<not> is_symlink f p"
  proof (rule ccontr)
    assume "\<not> ?thesis"
    with close have "f' = f" by (simp add: close_directory_def)
    with at \<open>\<not> ?thesis\<close> show False by simp
  qed
  then have c: "chmod h p 448 f = Inr f'" using close by (simp add: close_directory_def changeS_def split: sum.splits)
  obtain q where q: "resolve f p = Some q" using c by (auto simp: chmod_def split: option.splits)
  obtain o0 m0 where d: "entry_at f q = Some (Directory o0 m0)"
    using \<open>is_dir f p \<and> \<not> is_symlink f p\<close> q by (auto simp: is_dir_def stat_def split: option.splits entry.splits)
  have f': "f' = (if q = [] then f else put_entry q (Directory o0 448) f)"
    using c q d by (auto simp: chmod_def split: if_splits)
  have "no_new_links f' f" using d by (auto simp: f' no_new_links_def entry_at_def)
  then have "q = p" using resolve_plain[OF no_links_mono[OF v(2)]] q by simp
  with m v(1) show ?thesis by (simp add: f')
qed

text \<open>Whatever a container run did, an adapter that does not report an access failure has put the
  access of the sandbox root back: it is a directory of the process user with mode 0700, and the
  sandbox validates. (The engine may remove the root; then there is nothing to restore.)\<close>

theorem container_access_restored:
  assumes "container_execute h sb ce name gid opt f = (Inr r, f')" and "path_exists f' (sb_root sb)"
    and "\<forall>c \<in> {''unauthorized_action'', ''container_engine_unavailable'', ''sandbox_permission_restore_failed''}.
      xr_failure_reason_code r \<noteq> Some c"
  shows "validate h sb f' = Inr () \<and> map_of f' (sb_root sb) = Some (Directory (h_euid h) 448)"
proof -
  obtain script where s: "map_of CONTAINER_ACTION_SCRIPTS (ro_action_id opt) = Some script"
    using assms(1,3) by (auto simp: container_execute_def unauthorized_def execution_failed_def split: option.splits)
  obtain engine where e: "ce_engine ce = Some engine"
    using assms(1,3) s by (auto simp: container_execute_def execution_failed_def split: option.splits)
  obtain ds f2 where r: "restore_owner_access h sb ds f2 = (Inr (), f')"
    using assms s e
    by (auto simp: container_execute_def Let_def execution_failed_def split: prod.splits if_splits sum.splits exn.splits)
  then obtain f3 where c: "close_directory h (sb_root sb) f3 = (Inr (), f')" and v: "validate h sb f' = Inr ()"
    by (auto simp: restore_owner_access_def bindS_Inr_iff)
  with close_directory_root[OF c v refl] show ?thesis by simp
qed

text \<open>An engine that reports success, prints a count and leaves the files alone.\<close>

definition idle_engine :: container_executor where
  "idle_engine = \<lparr>ce_image = [], ce_engine = Some ''podman'',
     ce_run = (\<lambda>command f. (Completed 0 ''cleanup_rotated_logs deleted=3'' [], f))\<rparr>"

lemma idle_engine_fields [simp]:
  "ce_engine idle_engine = Some ''podman''"
  "ce_run idle_engine command f = (Completed 0 ''cleanup_rotated_logs deleted=3'' [], f)"
  by (simp_all add: idle_engine_def)

lemma idle_execute:
  "container_execute h sb idle_engine name gid (sample_option ''cleanup_rotated_logs'') f =
     (case container_try h sb idle_engine ''podman'' name gid script_rotated [''logs''] f of
        (result, f1) \<Rightarrow>
          if path_exists f1 (sb_root sb)
          then (case restore_owner_access h sb [''logs''] f1 of
                  (Inl (SandboxViolation _), f3) \<Rightarrow>
                    (Inr (execution_failed ''sandbox permissions could not be restored'' ''sandbox_permission_restore_failed''), f3)
                | (Inl OSError, f3) \<Rightarrow>
                    (Inr (execution_failed ''sandbox permissions could not be restored'' ''sandbox_permission_restore_failed''), f3)
                | (Inl e, f3) \<Rightarrow> (Inl e, f3)
                | (Inr _, f3) \<Rightarrow> (result, f3))
          else (result, f1))"
proof -
  have "map_of CONTAINER_ACTION_SCRIPTS ''cleanup_rotated_logs'' = Some script_rotated"
    "map_of CONTAINER_ACTION_DIRECTORIES ''cleanup_rotated_logs'' = Some [''logs'']"
    by (simp_all add: CONTAINER_ACTION_SCRIPTS_def CONTAINER_ACTION_DIRECTORIES_def)
  then show ?thesis by (simp add: container_execute_def sample_option_def Let_def)
qed

lemma sample_access:
  "prepare_container_access sample_host sample_sandbox [''logs''] sample_files =
     (Inr (), put_entry [''s'', ''logs''] (Directory 7 511) (put_entry [''s''] (Directory 7 457) sample_files))"
proof -
  have mk: "mkdir_parents sample_host [''s'', ''logs''] sample_files = (Inr (), sample_files)"
    by (simp add: mkdir_parents_def sample_file_simps)
  have c1: "chmod sample_host [''s''] 457 sample_files = Inr (put_entry [''s''] (Directory 7 457) sample_files)"
    by (simp add: chmod_def sample_file_simps)
  have c2: "chmod sample_host [''s'', ''logs''] 511 (put_entry [''s''] (Directory 7 457) sample_files) =
      Inr (put_entry [''s'', ''logs''] (Directory 7 511) (put_entry [''s''] (Directory 7 457) sample_files))"
    by (simp add: chmod_def sample_file_simps)
  show ?thesis
    by (simp add: prepare_container_access_def bindS_def sample_valid sample_children mk changeS_def
        sample_sandbox_def c1 c2)
      (use sample_valid sample_children c1 c2 in \<open>simp add: sample_sandbox_def changeS_def mk bindS_def\<close>)
qed

definition opened_files :: files where
  "opened_files = put_entry [''s'', ''logs''] (Directory 7 511) (put_entry [''s''] (Directory 7 457) sample_files)"

definition closed_files :: files where
  "closed_files = put_entry [''s''] (Directory 7 448) (put_entry [''s'', ''logs''] (Directory 7 448) opened_files)"

lemma sample_restore: "restore_owner_access sample_host sample_sandbox [''logs''] opened_files = (Inr (), closed_files)"
proof -
  have c1: "close_directory sample_host [''s'', ''logs''] opened_files =
      (Inr (), put_entry [''s'', ''logs''] (Directory 7 448) opened_files)"
    by (simp add: close_directory_def changeS_def chmod_def opened_files_def sample_file_simps)
  have c2: "close_directory sample_host [''s''] (put_entry [''s'', ''logs''] (Directory 7 448) opened_files) =
      (Inr (), closed_files)"
    by (simp add: close_directory_def changeS_def chmod_def closed_files_def opened_files_def sample_file_simps)
  have v: "validate sample_host sample_sandbox closed_files = Inr ()"
    by (simp add: validate_def Let_def unsafe_root_def owner_of_def marker_ok_def closed_files_def
        opened_files_def sample_file_simps)
  have parts: "path_parts ''logs'' = [''logs'']" by (simp add: path_parts_def)
  have root: "sb_root sample_sandbox = [''s'']" by (simp add: sample_sandbox_def)
  show ?thesis by (simp add: restore_owner_access_def bindS_def root parts c1 c2 v)
qed

lemma sample_container_run:
  "container_execute sample_host sample_sandbox idle_engine ''n'' 7 (sample_option ''cleanup_rotated_logs'') sample_files =
     (Inr ((execution_succeeded ''container cleanup completed'')\<lparr>xr_deleted_count := 3\<rparr>), closed_files)"
proof -
  have t: "container_try sample_host sample_sandbox idle_engine ''podman'' ''n'' 7 script_rotated [''logs''] sample_files =
      (Inr ((execution_succeeded ''container cleanup completed'')\<lparr>xr_deleted_count := 3\<rparr>), opened_files)"
    by (simp add: container_try_def catchS_def bindS_def sample_valid sample_access idle_engine_def opened_files_def
        container_result_def read_nat_def code_def is_digit_def char_in_def Let_def)
  have "path_exists opened_files [''s'']" by (simp add: opened_files_def sample_file_simps)
  moreover have "sb_root sample_sandbox = [''s'']" by (simp add: sample_sandbox_def)
  ultimately show ?thesis by (simp add: idle_execute t sample_restore)
qed

theorem container_access_restored_witness:
  "map_of closed_files (sb_root sample_sandbox) = Some (Directory 7 448)"
proof -
  have "path_exists closed_files (sb_root sample_sandbox)"
    by (simp add: closed_files_def opened_files_def sample_file_simps)
  from container_access_restored[OF sample_container_run this]
  show ?thesis by (simp add: execution_succeeded_def sample_host_def)
qed

text \<open>The reason code \<open>unsafe_sandbox_root\<close> is masked: on a sandbox whose ownership marker is gone the
  container adapter, which refuses to run, reports that permissions could not be restored, because the
  clean-up of the same call fails the same validation.\<close>

theorem container_masks_unsafe_root:
  "validate sample_host sample_sandbox [([''s''], Directory 7 448)] =
     Inl (SandboxViolation ''sandbox ownership marker is missing or invalid'') \<and>
   container_execute sample_host sample_sandbox idle_engine ''n'' 7 (sample_option ''cleanup_rotated_logs'')
     [([''s''], Directory 7 448)] =
     (Inr (execution_failed ''sandbox permissions could not be restored'' ''sandbox_permission_restore_failed''),
      [([''s''], Directory 7 448)])"
proof -
  let ?f = "[([''s''], Directory 7 448)]"
  have v: "validate sample_host sample_sandbox ?f = Inl (SandboxViolation ''sandbox ownership marker is missing or invalid'')"
    by (simp add: validate_def Let_def unsafe_root_def owner_of_def marker_ok_def sample_file_simps)
  have t: "container_try sample_host sample_sandbox idle_engine ''podman'' ''n'' 7 script_rotated [''logs''] ?f =
      (Inr (execution_failed ''sandbox validation failed'' ''unsafe_sandbox_root''), ?f)"
    by (simp add: container_try_def catchS_def bindS_def v)
  have parts: "path_parts ''logs'' = [''logs'']" by (simp add: path_parts_def)
  have root: "sb_root sample_sandbox = [''s'']" by (simp add: sample_sandbox_def)
  have c: "close_directory sample_host [''s'', ''logs''] ?f = (Inr (), ?f)"
    "close_directory sample_host [''s''] ?f = (Inr (), ?f)"
    by (simp_all add: close_directory_def changeS_def chmod_def put_entry_def sample_file_simps)
  have r: "restore_owner_access sample_host sample_sandbox [''logs''] ?f =
      (Inl (SandboxViolation ''sandbox ownership marker is missing or invalid''), ?f)"
    by (simp add: restore_owner_access_def bindS_def root parts c v)
  have "path_exists ?f [''s'']" by (simp add: sample_file_simps)
  with v t r root show ?thesis by (simp add: idle_execute)
qed

end
