(* ===== verification/Service.thy ===== *)
theory Service
  imports StoreProperties Analyzer Executor "HOL-Library.AList"
begin

text \<open>
  \<open>service.py\<close>: the incident service over the store and its collaborators. The state of an action is
  the database and the world of the collaborators; the clock, the \<open>uuid4\<close> source, the telemetry
  collector, the analyzer, the executor and the option binding act on the world only. An action that
  raises keeps what its transactions committed. Spans and metrics write to no table and are left out.
\<close>

record 'w service_env =
  se_now :: "'w \<Rightarrow> datetime \<times> 'w"
  se_uuid :: "'w \<Rightarrow> string \<times> 'w"
  se_collect :: "event_request \<Rightarrow> 'w \<Rightarrow> (exn + telemetry_evidence) \<times> 'w"
  se_analyze :: "telemetry_evidence \<Rightarrow> string option \<Rightarrow> 'w \<Rightarrow> (exn + model_result) \<times> 'w"
  se_execute :: "remediation_option \<Rightarrow> ('w, execution_result) action"
  se_binding :: "(scenario \<Rightarrow> scenario_kind \<Rightarrow> string \<Rightarrow> ('w, option_binding option) action) option"
  se_ttl :: nat
  se_execution_enabled :: bool
  se_sha :: "string \<Rightarrow> string"
  se_repr :: "rat \<Rightarrow> string"
  se_time_json :: "observed \<Rightarrow> string"

definition storeS :: "(db \<Rightarrow> (exn + 'a) \<times> db) \<Rightarrow> (db \<times> 'w, 'a) action" where
  "storeS oper = (\<lambda>(d, w). case oper d of (r, d') \<Rightarrow> (r, (d', w)))"

definition worldS :: "('w \<Rightarrow> (exn + 'a) \<times> 'w) \<Rightarrow> (db \<times> 'w, 'a) action" where
  "worldS m = (\<lambda>(d, w). case m w of (r, w') \<Rightarrow> (r, (d, w')))"

definition nowS :: "'w service_env \<Rightarrow> (db \<times> 'w, datetime) action" where
  "nowS env = worldS (\<lambda>w. case se_now env w of (t, w') \<Rightarrow> (Inr t, w'))"

definition uuidS :: "'w service_env \<Rightarrow> (db \<times> 'w, string) action" where
  "uuidS env = worldS (\<lambda>w. case se_uuid env w of (i, w') \<Rightarrow> (Inr i, w'))"

definition digest_of :: "'w service_env \<Rightarrow> int \<Rightarrow> scenario \<Rightarrow> scenario_kind \<Rightarrow> remediation_option \<Rightarrow> string" where
  "digest_of env = action_hash (se_sha env) (se_repr env)"

section \<open>Reading a run\<close>

record proposal_view =
  pv_id :: string
  pv_run_id :: string
  pv_revision :: int
  pv_status :: proposal_state
  pv_scenario :: scenario
  pv_kind :: scenario_kind
  pv_assessment :: model_assessment
  pv_option :: remediation_option
  pv_action_hash :: string
  pv_expires_at :: datetime
  pv_created_at :: datetime
  pv_approved_hash :: "string option"

record audit_view =
  av_id :: nat
  av_trace_id :: string
  av_run_id :: string
  av_proposal_id :: "string option"
  av_event_type :: string
  av_metadata :: json
  av_occurred_at :: datetime

record run_view =
  rv_id :: string
  rv_trace_id :: string
  rv_key :: string
  rv_state :: run_state
  rv_created_at :: datetime
  rv_updated_at :: datetime
  rv_proposal :: "proposal_view option"
  rv_audit :: "audit_view list"
  rv_duplicate :: bool

text \<open>A pydantic \<open>datetime\<close> field given the stored string.\<close>

definition field_time :: "string \<Rightarrow> exn + datetime" where
  "field_time s = (case fromisoformat s of Inl _ \<Rightarrow> Inl ValidationError | Inr t \<Rightarrow> Inr t)"

definition view_proposal :: "proposal_row \<Rightarrow> exn + proposal_view" where
  "view_proposal p =
     bindE (assessment_of_json (p_assessment p)) (\<lambda>assessment.
     bindE (option_of_json (p_option p)) (\<lambda>opt.
     bindE (field_time (p_expires_at p)) (\<lambda>expires.
     bindE (field_time (p_created_at p)) (\<lambda>created.
       Inr \<lparr>pv_id = p_id p, pv_run_id = p_run_id p, pv_revision = p_revision p, pv_status = p_status p,
         pv_scenario = p_scenario p, pv_kind = p_kind p, pv_assessment = assessment, pv_option = opt,
         pv_action_hash = p_action_hash p, pv_expires_at = expires, pv_created_at = created,
         pv_approved_hash = p_approved_hash p\<rparr>))))"

definition view_audit :: "audit_row \<Rightarrow> exn + audit_view" where
  "view_audit a =
     bindE (field_time (a_occurred_at a)) (\<lambda>occurred.
       Inr \<lparr>av_id = a_id a, av_trace_id = a_trace_id a, av_run_id = a_run_id a, av_proposal_id = a_proposal_id a,
         av_event_type = a_event_type a, av_metadata = a_metadata a, av_occurred_at = occurred\<rparr>)"

fun view_audits :: "audit_row list \<Rightarrow> exn + audit_view list" where
  "view_audits [] = Inr []"
| "view_audits (a # as) = bindE (view_audit a) (\<lambda>v. bindE (view_audits as) (\<lambda>vs. Inr (v # vs)))"

definition get_run :: "string \<Rightarrow> bool \<Rightarrow> db \<Rightarrow> exn + run_view" where
  "get_run run_id duplicate d =
     (case find_run run_id d of
        None \<Rightarrow> Inl (NotFoundError ''run not found'')
      | Some r \<Rightarrow>
          bindE (field_time (r_created_at r)) (\<lambda>created.
          bindE (field_time (r_updated_at r)) (\<lambda>updated.
          bindE (case latest_proposal run_id d of
                   None \<Rightarrow> Inr None
                 | Some p \<Rightarrow> bindE (view_proposal p) (\<lambda>v. Inr (Some v))) (\<lambda>proposal.
          bindE (view_audits (list_audit run_id d)) (\<lambda>entries.
            Inr \<lparr>rv_id = r_id r, rv_trace_id = r_trace_id r, rv_key = r_key r, rv_state = r_state r,
              rv_created_at = created, rv_updated_at = updated, rv_proposal = proposal,
              rv_audit = entries, rv_duplicate = duplicate\<rparr>)))))"

definition get_runS :: "string \<Rightarrow> bool \<Rightarrow> (db \<times> 'w, run_view) action" where
  "get_runS run_id duplicate = readS (\<lambda>(d, w). get_run run_id duplicate d)"

section \<open>Audit entries\<close>

definition object_items :: "json \<Rightarrow> (string \<times> json) list" where
  "object_items j = (case j of JObj kvs \<Rightarrow> kvs | _ \<Rightarrow> [])"

text \<open>\<open>details = dict(metadata); details["actor"] = actor\<close>.\<close>

definition with_actor :: "(string \<times> json) list \<Rightarrow> string \<Rightarrow> (string \<times> json) list" where
  "with_actor metadata actor = AList.update ''actor'' (JStr actor) metadata"

definition audit_event ::
    "'w service_env \<Rightarrow> string \<Rightarrow> string \<Rightarrow> string \<Rightarrow> (string \<times> json) list \<Rightarrow> string \<Rightarrow> string option
       \<Rightarrow> (db \<times> 'w, unit) action"
where
  "audit_event env run_id trace_id event_type metadata actor proposal_id =
     bindS (nowS env) (\<lambda>now.
       storeS (create_audit \<lparr>e_trace_id = trace_id, e_run_id = run_id, e_proposal_id = proposal_id,
         e_event_type = event_type, e_metadata = object_items (safe_metadata (with_actor metadata actor)),
         e_occurred_at = isoformat now\<rparr>))"

text \<open>\<open>run = self.store.get_run(run_id)\<close>, raising when there is none.\<close>

definition required_run :: "string \<Rightarrow> (db \<times> 'w, run_row) action" where
  "required_run run_id =
     readS (\<lambda>(d, w). case find_run run_id d of None \<Rightarrow> Inl (NotFoundError ''run not found'') | Some r \<Rightarrow> Inr r)"

definition DIAGNOSTIC_TOOLS :: "string list" where
  "DIAGNOSTIC_TOOLS = [''check_site_health'', ''inspect_resources'', ''inspect_recent_changes'', ''inspect_recent_logs'']"

definition record_diagnostic_tools ::
    "'w service_env \<Rightarrow> string \<Rightarrow> string list \<Rightarrow> string \<Rightarrow> (db \<times> 'w, unit) action" where
  "record_diagnostic_tools env run_id tool_names actor =
     bindS (required_run run_id) (\<lambda>r.
       eachS (\<lambda>tool.
         if tool \<notin> set DIAGNOSTIC_TOOLS then raiseS (ValueError ''unknown diagnostic tool'')
         else audit_event env run_id (r_trace_id r) ''diagnostic_tool_called''
           [(''tool'', JStr tool), (''result'', JStr ''completed'')] actor None) tool_names)"

definition record_recovery_verification ::
    "'w service_env \<Rightarrow> string \<Rightarrow> string \<Rightarrow> bool \<Rightarrow> string \<Rightarrow> (db \<times> 'w, unit) action" where
  "record_recovery_verification env run_id proposal_id healthy actor =
     bindS (required_run run_id) (\<lambda>r.
       audit_event env run_id (r_trace_id r) ''recovery_verified''
         [(''result'', JStr (if healthy then ''healthy'' else ''unhealthy''))] actor (Some proposal_id))"

definition record_capability_activation ::
    "'w service_env \<Rightarrow> string \<Rightarrow> string \<Rightarrow> string \<Rightarrow> int \<Rightarrow> string \<Rightarrow> bool \<Rightarrow> string \<Rightarrow> (db \<times> 'w, unit) action"
where
  "record_capability_activation env run_id proposal_id capability_id capability_version outcome rollback_applied actor =
     bindS (required_run run_id) (\<lambda>r.
       if capability_id \<notin> fst ` set ALLOWED_ACTIONS then raiseS (ValueError ''unknown capability identifier'')
       else if outcome \<notin> {''succeeded'', ''failed'', ''rollback_applied''}
       then raiseS (ValueError ''capability activation outcome is not bounded'')
       else audit_event env run_id (r_trace_id r) ''capability_activated''
         [(''capability_id'', JStr capability_id), (''capability_version'', JInt capability_version),
          (''outcome'', JStr outcome), (''rollback_applied'', JBool rollback_applied)] actor (Some proposal_id))"

definition map_store_error :: "exn \<Rightarrow> exn" where
  "map_store_error e =
     (case e of StoreNotFound m \<Rightarrow> NotFoundError m | _ \<Rightarrow> InvalidTransitionError (exn_message e))"

fun is_not_found :: "exn \<Rightarrow> bool" where
  "is_not_found (StoreNotFound _) = True"
| "is_not_found _ = False"

text \<open>\<open>except (StoreConflict, StoreNotFound) as exc: raise self._map_store_error(exc)\<close>.\<close>

definition mapping_errors :: "('s, 'a) action \<Rightarrow> ('s, 'a) action" where
  "mapping_errors m =
     catchS m (\<lambda>e. raiseS (if is_store_conflict e \<or> is_not_found e then map_store_error e else e))"

definition resolve_option_binding ::
    "'w service_env \<Rightarrow> scenario \<Rightarrow> scenario_kind \<Rightarrow> string \<Rightarrow> (db \<times> 'w, option_binding option) action" where
  "resolve_option_binding env s k action_id =
     (case se_binding env of None \<Rightarrow> returnS None | Some binding \<Rightarrow> worldS (binding s k action_id))"

section \<open>Starting a run\<close>

text \<open>\<open>_canonical_event\<close>: the event without its key and trace.\<close>

definition canonical_event :: "'w service_env \<Rightarrow> event_request \<Rightarrow> string" where
  "canonical_event env e =
     json_text (se_repr env)
       (JObj [(''source'', JStr (source_value (ev_source e))),
              (''observed_at'', JStr (se_time_json env (ev_observed_at e))),
              (''event_type'', JStr (ev_event_type e)),
              (''payload'', payload_json (ev_payload e))])"

definition received_run ::
    "'w service_env \<Rightarrow> string \<Rightarrow> string \<Rightarrow> event_request \<Rightarrow> datetime \<Rightarrow> run_row" where
  "received_run env run_id trace_id e now =
     \<lparr>r_id = run_id, r_key = ev_idempotency_key e, r_payload_hash = se_sha env (canonical_event env e),
      r_event = event_json (se_time_json env) e, r_trace_id = trace_id, r_state = RECEIVED,
      r_created_at = isoformat now, r_updated_at = isoformat now\<rparr>"

definition received_audit ::
    "'w service_env \<Rightarrow> string \<Rightarrow> string \<Rightarrow> event_request \<Rightarrow> datetime \<Rightarrow> string \<Rightarrow> audit_entry" where
  "received_audit env run_id trace_id e now actor =
     \<lparr>e_trace_id = trace_id, e_run_id = run_id, e_proposal_id = None, e_event_type = ''event_received'',
      e_metadata = [(''event_type'', JStr (ev_event_type e)), (''source'', JStr (source_value (ev_source e))),
        (''payload_hash'', JStr (se_sha env (canonical_event env e))), (''actor'', JStr actor)],
      e_occurred_at = isoformat now\<rparr>"

definition telemetry_metadata :: "telemetry_evidence \<Rightarrow> (string \<times> json) list" where
  "telemetry_metadata ev =
     [(''scenario'', JStr (scenario_value (te_scenario ev))),
      (''scenario_kind'', JStr (kind_value (te_scenario_kind ev))),
      (''free_bytes'', JInt (free_bytes ev)), (''affected_file_count'', JInt (affected_file_count ev)),
      (''cpu_percent'', JFloat (cpu_percent ev)), (''memory_percent'', JFloat (memory_percent ev)),
      (''oom_kill_detected'', JBool (oom_kill_detected ev)),
      (''log_storm_detected'', JBool (log_storm_detected ev)),
      (''temp_file_count'', JInt (temp_file_count ev)),
      (''runaway_process_detected'', JBool (runaway_process_detected ev)),
      (''service_state'', json_str (service_state ev)), (''restart_count'', JInt (restart_count ev)),
      (''fault_injection'', json_str (fault_injection ev))]"

definition model_metadata :: "model_result \<Rightarrow> (string \<times> json) list" where
  "model_metadata r =
     [(''latency_ms'', JInt (mr_latency_ms r)), (''token_count'', JInt (mr_token_count r)),
      (''retry_count'', JInt (int (mr_retry_count r)))]"

definition elapsed :: "datetime \<Rightarrow> datetime \<Rightarrow> int" where
  "elapsed later earlier = int (micros later) - int (micros earlier)"

text \<open>\<open>int((created_at - now).total_seconds() * 1000)\<close>, in doubles.\<close>

definition latency_ms :: "datetime \<Rightarrow> datetime \<Rightarrow> int" where
  "latency_ms later earlier = truncate_rat (to_double (total_seconds (elapsed later earlier) * 1000))"

definition draft_proposal ::
    "'w service_env \<Rightarrow> string \<Rightarrow> int \<Rightarrow> scenario \<Rightarrow> scenario_kind \<Rightarrow> model_assessment \<Rightarrow> remediation_option
       \<Rightarrow> datetime \<Rightarrow> datetime \<Rightarrow> proposal_draft"
where
  "draft_proposal env i revision s k assessment opt expires created =
     \<lparr>np_id = i, np_revision = revision, np_scenario = s, np_kind = k,
      np_assessment = assessment_json assessment, np_option = option_json opt,
      np_action_hash = digest_of env revision s k opt,
      np_expires_at = isoformat expires, np_created_at = isoformat created\<rparr>"

text \<open>From the accepted event to its first proposal: the body of the \<open>try\<close>.\<close>

definition assess ::
    "'w service_env \<Rightarrow> string \<Rightarrow> string \<Rightarrow> event_request \<Rightarrow> string
       \<Rightarrow> (db \<times> 'w, telemetry_evidence \<times> model_result) action"
where
  "assess env run_id trace_id e actor =
     bindS (nowS env) (\<lambda>t1.
     bindS (storeS (transition_run run_id RECEIVED INVESTIGATING (isoformat t1) trace_id ''event accepted'' actor None)) (\<lambda>_.
     bindS (worldS (se_collect env e)) (\<lambda>evidence.
     bindS (audit_event env run_id trace_id ''telemetry_collected'' (telemetry_metadata evidence) actor None) (\<lambda>_.
     bindS (worldS (se_analyze env evidence None)) (\<lambda>result.
     bindS (audit_event env run_id trace_id ''model_completed'' (model_metadata result) actor None) (\<lambda>_.
     bindS (nowS env) (\<lambda>t2.
     bindS (storeS (transition_run run_id INVESTIGATING ASSESSED (isoformat t2) trace_id
              ''structured assessment validated'' actor None)) (\<lambda>_.
     returnS (evidence, result)))))))))"

definition propose ::
    "'w service_env \<Rightarrow> string \<Rightarrow> string \<Rightarrow> string \<Rightarrow> datetime \<Rightarrow> telemetry_evidence \<Rightarrow> model_result
       \<Rightarrow> (db \<times> 'w, unit) action"
where
  "propose env run_id trace_id actor now evidence result =
     bindS (resolve_option_binding env (te_scenario evidence) (te_scenario_kind evidence)
              (ma_action_id (mr_assessment result))) (\<lambda>binding.
     bindS (readS (\<lambda>_. build_option (te_scenario evidence) (te_scenario_kind evidence) (mr_assessment result) binding)) (\<lambda>opt.
     bindS (uuidS env) (\<lambda>proposal_id.
     bindS (nowS env) (\<lambda>created.
     bindS (readS (\<lambda>_. add_seconds created (se_ttl env))) (\<lambda>expires.
     storeS (create_proposal_and_transition
       (draft_proposal env proposal_id 1 (te_scenario evidence) (te_scenario_kind evidence)
          (mr_assessment result) opt expires created)
       run_id P_PROPOSED (isoformat created) trace_id actor (latency_ms created now)))))))"

text \<open>\<open>except Exception\<close>: the run is failed, then the exception goes on.\<close>

definition fail_and_raise :: "'w service_env \<Rightarrow> string \<Rightarrow> string \<Rightarrow> exn \<Rightarrow> (db \<times> 'w, 'a) action" where
  "fail_and_raise env run_id actor e =
     bindS (nowS env) (\<lambda>t.
     bindS (storeS (fail_run run_id (isoformat t) actor (reason_code e))) (\<lambda>_.
     raiseS (if is_store_conflict e then ConflictError (exn_message e) else e)))"

definition start_event ::
    "'w service_env \<Rightarrow> event_request \<Rightarrow> string \<Rightarrow> (db \<times> 'w, run_view) action" where
  "start_event env event actor =
     bindS (readS (\<lambda>_. sanitize_event event)) (\<lambda>e.
     bindS (nowS env) (\<lambda>now.
     bindS (uuidS env) (\<lambda>run_id.
     bindS (case ev_trace_id e of
              None \<Rightarrow> uuidS env
            | Some t \<Rightarrow> if t = [] then uuidS env else returnS t) (\<lambda>trace_id.
     bindS (catchS (storeS (create_or_get_run (received_run env run_id trace_id e now)
                              (received_audit env run_id trace_id e now actor)))
              (\<lambda>x. case x of IdempotencyConflict m \<Rightarrow> raiseS (ConflictError m) | _ \<Rightarrow> raiseS x)) (\<lambda>(stored, created).
     if \<not> created then get_runS (r_id stored) True
     else
       bindS (catchS (bindS (assess env run_id trace_id e actor) (\<lambda>(evidence, result).
                        propose env run_id trace_id actor now evidence result))
                (fail_and_raise env run_id actor)) (\<lambda>_.
       get_runS run_id False))))))"

section \<open>Decisions\<close>

record decision_request =
  dr_decision :: decision
  dr_revision :: int
  dr_action_hash :: string
  dr_note :: "string option"

definition valid_decision_request :: "decision_request \<Rightarrow> bool" where
  "valid_decision_request q \<longleftrightarrow> 1 \<le> dr_revision q \<and> length (dr_action_hash q) = 64 \<and>
     (case dr_note q of None \<Rightarrow> True | Some n \<Rightarrow> length n \<le> 1000)"

definition required_proposal :: "string \<Rightarrow> (db \<times> 'w, proposal_row) action" where
  "required_proposal proposal_id =
     readS (\<lambda>(d, w). case find_proposal proposal_id d of
       None \<Rightarrow> Inl (NotFoundError ''proposal not found'') | Some p \<Rightarrow> Inr p)"

text \<open>The option of a stored proposal, its authority and its digest checked again.\<close>

definition checked_option :: "'w service_env \<Rightarrow> proposal_row \<Rightarrow> exn + remediation_option" where
  "checked_option env p =
     bindE (option_of_json (p_option p)) (\<lambda>opt.
     bindE (case validate_scenario_action (p_scenario p) (p_kind p) (ro_action_id opt) of
              Inl (SafetyViolation m) \<Rightarrow> Inl (ConflictError m) | r \<Rightarrow> r) (\<lambda>_.
     if digest_of env (p_revision p) (p_scenario p) (p_kind p) opt \<noteq> p_action_hash p
     then Inl (ConflictError ''stored proposal action digest is invalid'')
     else Inr opt))"

text \<open>\<open>model_copy(update=...)\<close> does not validate: the summary may outgrow its limit.\<close>

definition annotated :: "string option \<Rightarrow> model_assessment \<Rightarrow> model_assessment" where
  "annotated note assessment =
     (case note of
        None \<Rightarrow> assessment
      | Some n \<Rightarrow>
          if n = [] then assessment
          else assessment\<lparr>ma_summary := ma_summary assessment @ '' Revision requested: '' @ sanitize_text n\<rparr>)"

definition revised_draft ::
    "'w service_env \<Rightarrow> proposal_row \<Rightarrow> string option \<Rightarrow> datetime \<Rightarrow> (db \<times> 'w, proposal_draft) action" where
  "revised_draft env p note now =
     bindS (readS (\<lambda>_. assessment_of_json (p_assessment p))) (\<lambda>stored.
     let assessment = annotated note stored in
     bindS (resolve_option_binding env (p_scenario p) (p_kind p) (ma_action_id assessment)) (\<lambda>binding.
     bindS (readS (\<lambda>_. build_option (p_scenario p) (p_kind p) assessment binding)) (\<lambda>opt.
     bindS (readS (\<lambda>_. add_seconds now (se_ttl env))) (\<lambda>expires.
     bindS (uuidS env) (\<lambda>i.
     returnS (draft_proposal env i (p_revision p + 1) (p_scenario p) (p_kind p) assessment opt expires now))))))"

definition settle_decision ::
    "string \<Rightarrow> decision_request \<Rightarrow> string \<Rightarrow> datetime \<Rightarrow> datetime \<Rightarrow> proposal_draft option
       \<Rightarrow> (db \<times> 'w, run_view) action"
where
  "settle_decision proposal_id request actor now created new_proposal =
     bindS (mapping_errors (storeS (decide_proposal proposal_id (dr_revision request) (dr_action_hash request)
              (dr_decision request) (isoformat now) actor (max 0 (total_seconds (elapsed now created))) new_proposal)))
       (\<lambda>(run_id, outcome).
     if outcome = ''expired'' then raiseS (ExpiredError ''proposal has expired and was retained'')
     else get_runS run_id False)"

definition decide ::
    "'w service_env \<Rightarrow> string \<Rightarrow> decision_request \<Rightarrow> string \<Rightarrow> (db \<times> 'w, run_view) action" where
  "decide env proposal_id request actor =
     bindS (required_proposal proposal_id) (\<lambda>p.
     bindS (readS (\<lambda>_. checked_option env p)) (\<lambda>_.
     bindS (nowS env) (\<lambda>now.
     bindS (if dr_decision request = REVISE
            then bindS (revised_draft env p (dr_note request) now) (\<lambda>n. returnS (Some n))
            else returnS None) (\<lambda>new_proposal.
     bindS (readS (\<lambda>_. fromisoformat (p_created_at p))) (\<lambda>created.
     settle_decision proposal_id request actor now created new_proposal)))))"

section \<open>Execution and expiry\<close>

definition result_metadata :: "execution_result \<Rightarrow> (string \<times> json) list" where
  "result_metadata r =
     [(''success'', JBool (xr_success r)), (''deleted_count'', JInt (xr_deleted_count r)),
      (''failure_reason_code'', json_str (xr_failure_reason_code r)),
      (''service_restarted'', JBool (xr_service_restarted r)),
      (''health_before'', json_str (xr_health_before r)), (''health_after'', json_str (xr_health_after r)),
      (''attempts'', JInt (xr_attempts r)), (''latency_ms'', JInt (xr_latency_ms r)),
      (''boot_count'', JInt (xr_boot_count r))]"

definition run_tool ::
    "'w service_env \<Rightarrow> string \<Rightarrow> remediation_option \<Rightarrow> string \<Rightarrow> (db \<times> 'w, unit) action" where
  "run_tool env proposal_id opt actor =
     bindS (worldS (se_execute env opt)) (\<lambda>result.
     bindS (nowS env) (\<lambda>t.
     bindS (storeS (finalize_execution proposal_id (xr_success result) (isoformat t) actor (result_metadata result))) (\<lambda>_.
     returnS ())))"

definition record_failure ::
    "'w service_env \<Rightarrow> string \<Rightarrow> string \<Rightarrow> exn \<Rightarrow> (db \<times> 'w, unit) action" where
  "record_failure env proposal_id actor e =
     bindS (nowS env) (\<lambda>t.
     bindS (storeS (finalize_execution proposal_id False (isoformat t) actor
              [(''success'', JBool False), (''failure_reason_code'', JStr (reason_code e))])) (\<lambda>_.
     returnS ()))"

definition execute ::
    "'w service_env \<Rightarrow> string \<Rightarrow> string \<Rightarrow> (db \<times> 'w, run_view) action" where
  "execute env proposal_id actor =
     (if \<not> se_execution_enabled env
      then raiseS (ExecutionDisabledError ''remediation execution is disabled by configuration'')
      else
        bindS (required_proposal proposal_id) (\<lambda>p.
        bindS (readS (\<lambda>_. checked_option env p)) (\<lambda>opt.
        bindS (nowS env) (\<lambda>t.
        bindS (mapping_errors (storeS (claim_execution proposal_id
                 (digest_of env (p_revision p) (p_scenario p) (p_kind p) opt) (isoformat t) actor))) (\<lambda>outcome.
        case outcome of
          Claim_expired \<Rightarrow> raiseS (ExpiredError ''proposal expired before execution and was retained'')
        | Claimed claimed \<Rightarrow>
            bindS (readS (\<lambda>(d, w). case find_run (p_run_id claimed) d of None \<Rightarrow> Inl AssertionError | Some r \<Rightarrow> Inr r)) (\<lambda>r.
            bindS (audit_event env (r_id r) (r_trace_id r) ''tool_call''
                     [(''tool'', JStr ''remediation_executor''), (''action_id'', JStr (ro_action_id opt)),
                      (''scenario'', JStr (scenario_value (p_scenario p))),
                      (''scenario_kind'', JStr (kind_value (p_kind p)))] actor (Some proposal_id)) (\<lambda>_.
            bindS (catchS (run_tool env proposal_id opt actor) (record_failure env proposal_id actor)) (\<lambda>_.
            get_runS (p_run_id claimed) False))))))))"

definition expire_due_proposals ::
    "'w service_env \<Rightarrow> string \<Rightarrow> (db \<times> 'w, nat) action" where
  "expire_due_proposals env actor =
     bindS (nowS env) (\<lambda>t.
     catchS (storeS (expire_due (isoformat t) actor))
       (\<lambda>e. raiseS (if is_store_conflict e then ConflictError (exn_message e) else e)))"

section \<open>The service as a client of the store\<close>

text \<open>
  \<open>stores\<close> relates two states when the database moved by operations of the store only. Every action
  of the service establishes it, whatever its collaborators do.
\<close>

definition stores :: "db \<times> 'w \<Rightarrow> db \<times> 'w \<Rightarrow> bool" where
  "stores s t \<longleftrightarrow> (reachable (fst s) \<longrightarrow> store_step\<^sup>*\<^sup>* (fst s) (fst t))"

lemma reachable_steps: "reachable d \<Longrightarrow> store_step\<^sup>*\<^sup>* d d' \<Longrightarrow> reachable d'"
  unfolding reachable_def by (rule rtranclp_trans)

lemma stores_preorder: "reflp stores" "transp stores"
  by (auto simp: stores_def reflp_def transp_def intro: reachable_steps rtranclp_trans)

lemma keeps_store: "(\<And>d. reachable d \<Longrightarrow> store_step\<^sup>*\<^sup>* d (snd (oper d))) \<Longrightarrow> keeps stores (storeS oper)"
  by (auto simp: keeps_def stores_def storeS_def split: prod.splits)
     (metis snd_conv)

lemma keeps_world: "keeps stores (worldS m)"
  by (auto simp: keeps_def stores_def worldS_def split: prod.splits)

lemma keeps_clock: "keeps stores (nowS env)" "keeps stores (uuidS env)"
  by (simp_all add: nowS_def uuidS_def keeps_world)

lemmas store_moves = keeps_pure[OF stores_preorder(1)] keeps_bind[OF stores_preorder(2)]
  keeps_catch[OF stores_preorder(2)] keeps_each[OF stores_preorder] keeps_world keeps_clock

lemma keeps_note:
  "e_event_type e \<noteq> ''state_transition'' \<Longrightarrow> keeps stores (storeS (create_audit e))"
  by (intro keeps_store r_into_rtranclp) (rule store_step_snd)

lemma keeps_operations:
  "(s, s') \<in> {(RECEIVED, INVESTIGATING), (INVESTIGATING, ASSESSED)} \<Longrightarrow>
     keeps stores (storeS (transition_run k s s' now tr reason actor source))"
  "np_revision n = 1 \<Longrightarrow> keeps stores (storeS (create_proposal_and_transition n k P_PROPOSED now tr actor ms))"
  "keeps stores (storeS (claim_execution pid digest now actor))"
  "keeps stores (storeS (finalize_execution pid success now actor metadata))"
  "keeps stores (storeS (expire_due now actor))"
  "keeps stores (storeS (fail_run k now actor reason))"
  "r_state row = RECEIVED \<Longrightarrow> e_run_id entry = r_id row \<Longrightarrow> e_event_type entry \<noteq> ''state_transition'' \<Longrightarrow>
     keeps stores (storeS (create_or_get_run row entry))"
  by (intro keeps_store r_into_rtranclp, erule store_step_snd)
     (intro keeps_store r_into_rtranclp, (rule store_step_snd; assumption?))+

lemma keeps_audit: "event_type \<noteq> ''state_transition'' \<Longrightarrow> keeps stores (audit_event env k tr event_type m actor pid)"
  unfolding audit_event_def by (intro store_moves keeps_note) simp

lemma keeps_records:
  "keeps stores (record_diagnostic_tools env k tools actor)"
  "keeps stores (record_recovery_verification env k pid healthy actor)"
  "keeps stores (record_capability_activation env k pid i v outcome rollback actor)"
  unfolding record_diagnostic_tools_def record_recovery_verification_def record_capability_activation_def
    required_run_def
  by (auto intro!: store_moves keeps_audit)

lemma keeps_get_run: "keeps stores (get_runS k dup)"
  unfolding get_runS_def by (intro store_moves)

lemma keeps_start: "keeps stores (start_event env event actor)"
  unfolding start_event_def assess_def propose_def fail_and_raise_def resolve_option_binding_def
  by (auto intro!: store_moves keeps_operations keeps_audit keeps_get_run
      simp: received_run_def received_audit_def draft_proposal_def split: option.split exn.split prod.split)

lemma keeps_execute: "keeps stores (execute env pid actor)"
  unfolding execute_def required_proposal_def mapping_errors_def run_tool_def record_failure_def
  by (auto intro!: store_moves keeps_operations keeps_audit keeps_get_run split: claim.split)

lemma keeps_expire: "keeps stores (expire_due_proposals env actor)"
  unfolding expire_due_proposals_def by (intro store_moves keeps_operations)

text \<open>Reads and calls of the collaborators leave the database as it is.\<close>

definition quiet :: "db \<times> 'w \<Rightarrow> db \<times> 'w \<Rightarrow> bool" where
  "quiet s t \<longleftrightarrow> fst t = fst s"

lemma quiet_preorder: "reflp quiet" "transp quiet"
  by (auto simp: quiet_def reflp_def transp_def)

lemma quiet_world: "keeps quiet (worldS m)"
  by (auto simp: keeps_def quiet_def worldS_def split: prod.splits)

lemma quiet_clock: "keeps quiet (nowS env)" "keeps quiet (uuidS env)"
  by (simp_all add: nowS_def uuidS_def quiet_world)

lemmas quiet_moves = keeps_pure[OF quiet_preorder(1)] keeps_bind[OF quiet_preorder(2)] quiet_world quiet_clock

lemma quiet_resolve: "keeps quiet (resolve_option_binding env sc k a)"
  unfolding resolve_option_binding_def by (auto intro!: quiet_moves split: option.split)

lemma quiet_draft: "keeps quiet (revised_draft env p note now)"
  unfolding revised_draft_def Let_def by (intro quiet_moves quiet_resolve)

lemma quiet_bind:
  fixes m :: "(db \<times> 'a, 'b) action"
  assumes "keeps quiet m" and "\<And>e s. fst s = d \<Longrightarrow> E e s"
    and "\<And>x s t. fst s = d \<Longrightarrow> m s = (Inr x, t) \<Longrightarrow> triple (\<lambda>s. fst s = d) (f x) Q E"
  shows "triple (\<lambda>s. fst s = d) (bindS m f) Q E"
  unfolding triple_def bindS_Inl_iff bindS_Inr_iff
proof (intro allI impI conjI)
  fix s t :: "db \<times> 'a" assume s: "fst s = d"
  have q: "m s = (r, u) \<Longrightarrow> fst u = d" for r u using assms(1) s unfolding keeps_def quiet_def by (metis snd_conv)
  show "E e t" if "m s = (Inl e, t) \<or> (\<exists>x u. m s = (Inr x, u) \<and> f x u = (Inl e, t))" for e
    using that assms(2,3)[OF s] q unfolding triple_def by (metis assms(2))
  show "Q y t" if "\<exists>x u. m s = (Inr x, u) \<and> f x u = (Inr y, t)" for y
    using that assms(3)[OF s] q unfolding triple_def by metis
qed

lemma revised_draft_revision: "revised_draft env p note now s = (Inr n, t) \<Longrightarrow> np_revision n = p_revision p + 1"
  by (auto simp: revised_draft_def Let_def bindS_Inr_iff draft_proposal_def)

lemma decide_steps:
  assumes "reachable d" and p: "find_proposal pid d = Some p"
    and n: "\<And>n. new_proposal = Some n \<Longrightarrow> np_revision n = p_revision p + 1"
  shows "store_step\<^sup>*\<^sup>* d (snd (decide_proposal pid rv digest dec now actor wait new_proposal d))"
proof (cases "rv = p_revision p")
  case True
  then show ?thesis using n by (intro r_into_rtranclp store_step_snd(4)) simp
next
  case False
  have inv: "db_inv d" using assms(1) by (rule reachable_inv)
  obtain r where "find_run (p_run_id p) d = Some r" using run_of_found[OF inv p] .
  from decide_eq[OF inv p this] False show ?thesis by simp
qed

lemma triple_store:
  assumes "\<And>d e d'. P d \<Longrightarrow> oper d = (Inl e, d') \<Longrightarrow> E e d'" and "\<And>d x d'. P d \<Longrightarrow> oper d = (Inr x, d') \<Longrightarrow> Q x d'"
  shows "triple (\<lambda>s. P (fst s)) (storeS oper) (\<lambda>x t. Q x (fst t)) (\<lambda>e t. E e (fst t))"
  using assms by (auto simp: triple_def storeS_def split: prod.splits)

lemma required_proposal_Inr: "required_proposal pid s = (Inr p, t) \<Longrightarrow> find_proposal pid (fst s) = Some p"
  by (auto simp: required_proposal_def split: option.splits prod.splits)

lemma settle_decision_triple:
  assumes "reachable d" and "find_proposal pid d = Some p"
    and "\<And>n. new = Some n \<Longrightarrow> np_revision n = p_revision p + 1"
  shows "triple (\<lambda>s. fst s = d) (settle_decision pid request actor now created new)
    (\<lambda>_ t. store_step\<^sup>*\<^sup>* d (fst t)) (\<lambda>_ t. store_step\<^sup>*\<^sup>* d (fst t))"
proof -
  let ?E = "\<lambda>_ t. store_step\<^sup>*\<^sup>* d (fst t)" and ?oper = "\<lambda>w. decide_proposal pid (dr_revision request)
      (dr_action_hash request) (dr_decision request) (isoformat now) actor w new"
  have "store_step\<^sup>*\<^sup>* d (snd (?oper w d))" for w
    using decide_steps[OF assms(1,2)] assms(3) by blast
  then have s: "triple (\<lambda>s. fst s = d) (storeS (?oper w)) ?E ?E" for w
    by (intro triple_store) (metis snd_conv)+
  have "triple (\<lambda>s. fst s = d) (mapping_errors (storeS (?oper w))) ?E ?E" for w
    unfolding mapping_errors_def by (rule triple_catch[OF s]) (auto simp: triple_def)
  then show ?thesis unfolding settle_decision_def
    by (rule triple_bind) (auto simp: triple_def get_runS_def split: if_splits)
qed

lemma decide_triple:
  assumes d: "reachable d"
  shows "triple (\<lambda>s. fst s = d) (decide env pid request actor)
    (\<lambda>_ t. store_step\<^sup>*\<^sup>* d (fst t)) (\<lambda>_ t. store_step\<^sup>*\<^sup>* d (fst t))"
  unfolding decide_def
proof (intro quiet_bind)
  fix p new u v now created and s t :: "db \<times> 'a"
  assume "fst s = d" "required_proposal pid s = (Inr p, t)"
  then have p: "find_proposal pid d = Some p" using required_proposal_Inr by blast
  assume "(if dr_decision request = REVISE
            then bindS (revised_draft env p (dr_note request) now) (\<lambda>n. returnS (Some n))
            else returnS None) u = (Inr new, v)"
  then have "new = Some n \<Longrightarrow> np_revision n = p_revision p + 1" for n
    by (auto simp: bindS_Inr_iff dest: revised_draft_revision split: if_splits)
  then show "triple (\<lambda>s. fst s = d) (settle_decision pid request actor now created new)
    (\<lambda>_ t. store_step\<^sup>*\<^sup>* d (fst t)) (\<lambda>_ t. store_step\<^sup>*\<^sup>* d (fst t))"
    by (rule settle_decision_triple[OF d p])
qed (auto intro!: quiet_moves quiet_draft simp: required_proposal_def)

inductive service_step :: "'w service_env \<Rightarrow> db \<times> 'w \<Rightarrow> db \<times> 'w \<Rightarrow> bool" for env where
  started: "service_step env s (snd (start_event env event actor s))"
| decided: "service_step env s (snd (decide env pid request actor s))"
| executed: "service_step env s (snd (execute env pid actor s))"
| swept: "service_step env s (snd (expire_due_proposals env actor s))"
| tools: "service_step env s (snd (record_diagnostic_tools env k names actor s))"
| verified: "service_step env s (snd (record_recovery_verification env k pid healthy actor s))"
| activated: "service_step env s (snd (record_capability_activation env k pid i v outcome rollback actor s))"

lemma keeps_decide: "keeps stores (decide env pid request actor)"
  unfolding keeps_def stores_def
proof (intro allI impI)
  fix s :: "db \<times> 'a"
  assume d: "reachable (fst s)"
  obtain r t where eq: "decide env pid request actor s = (r, t)" by (cases "decide env pid request actor s")
  show "store_step\<^sup>*\<^sup>* (fst s) (fst (snd (decide env pid request actor s)))"
    using triple_Inl[OF decide_triple[OF d] refl] triple_Inr[OF decide_triple[OF d] refl] eq
    by (cases r) auto
qed

lemma service_step_stores: "service_step env s t \<Longrightarrow> stores s t"
  by (cases rule: service_step.cases, assumption)
    (auto simp: keeps_start[unfolded keeps_def] keeps_decide[unfolded keeps_def] keeps_execute[unfolded keeps_def]
      keeps_expire[unfolded keeps_def] keeps_records[unfolded keeps_def])

section \<open>No run is left between\<close>

text \<open>
  \<open>newest d0 k S d\<close>: since \<open>d0\<close> the database gained one run, \<open>k\<close>, in a state of \<open>S\<close>, and only proposals
  of that run.
\<close>

definition newest :: "db \<Rightarrow> string \<Rightarrow> run_state set \<Rightarrow> db \<Rightarrow> bool" where
  "newest d0 k S d \<longleftrightarrow> reachable d \<and> k \<notin> r_id ` set (runs d0) \<and>
     (\<exists>r ps. runs d = runs d0 @ [r] \<and> r_id r = k \<and> r_state r \<in> S \<and> proposals d = proposals d0 @ ps)"

lemma newest_find: "newest d0 k S d \<Longrightarrow> \<exists>r. find_run k d = Some r \<and> r_state r \<in> S"
  by (clarsimp simp: newest_def find_run_def) (use select_one_None_iff[of r_id k "runs d0"] in simp)

lemma update_where_miss: "(\<And>r. r \<in> set rows \<Longrightarrow> \<not> P r) \<Longrightarrow> update_where P f rows = rows"
  by (induction rows) auto

lemma update_where_append [simp]: "update_where P f (xs @ ys) = update_where P f xs @ update_where P f ys"
  by (simp add: update_where_def)

lemma newest_put_run:
  assumes "newest d0 k {s} d" and "reachable d'" and "runs d' = runs (put_run k s s' now d)"
    and "\<exists>ps. proposals d' = proposals d @ ps"
  shows "newest d0 k {s'} d'"
proof -
  obtain r ps where r: "runs d = runs d0 @ [r]" "r_id r = k" "r_state r = s" "proposals d = proposals d0 @ ps"
    and k: "k \<notin> r_id ` set (runs d0)" using assms(1) by (auto simp: newest_def)
  have "q \<in> set (runs d0) \<Longrightarrow> r_id q \<noteq> k" for q using k by blast
  then have "update_where (run_at k s) f (runs d0) = runs d0" for f by (intro update_where_miss) (simp add: run_at_def)
  then have "runs d' = runs d0 @ [r\<lparr>r_state := s', r_updated_at := now\<rparr>]"
    unfolding assms(3) runs_put_run r(1) update_where_append using r(2,3) by (simp add: run_at_def)
  with assms(2,4) k r(2,4) show ?thesis by (auto simp: newest_def)
qed

lemma newest_subset: "newest d0 k S d \<Longrightarrow> S \<subseteq> T \<Longrightarrow> newest d0 k T d"
  unfolding newest_def by blast

lemma newest_transition:
  assumes n: "newest d0 k {s} d" and e: "(s, s') \<in> {(RECEIVED, INVESTIGATING), (INVESTIGATING, ASSESSED)}"
    and t: "transition_run k s s' now tr reason actor source d = (res, d')"
  shows "res = Inr () \<and> newest d0 k {s'} d'"
proof -
  have d: "reachable d" using n by (simp add: newest_def)
  have k: "keys_ok d" using reachable_inv[OF d] by (simp add: db_inv_def)
  obtain r where r: "find_run k d = Some r" "r_state r = s" using newest_find[OF n] by auto
  have eq: "transition_run k s s' now tr reason actor source d =
      (Inr (), add_audit (state_transition tr k source s s' reason actor now) (put_run k s s' now d))"
    by (simp add: transition_run_def transaction_def transition_run_body_def case_set_run_state
        count_run[OF k] r insert_audit_eq find_run_put_run)
  have "reachable d'" using reachable_step[OF d store_step.transition[OF e t]] .
  then show ?thesis using eq t newest_put_run[OF n, of d' s' now] by auto
qed

lemma newest_note:
  assumes n: "newest d0 k S d" and e: "e_run_id e = k" "e_event_type e \<noteq> ''state_transition''"
    and c: "create_audit e d = (res, d')"
  shows "res = Inr () \<and> newest d0 k S d'"
proof -
  have "reachable d'" using n reachable_step[OF _ store_step.note_audit[OF e(2) c]] by (simp add: newest_def)
  moreover have "create_audit e d = (Inr (), add_audit e d)"
    using newest_find[OF n] e(1) by (auto simp: create_audit_def transaction_def insert_audit_eq)
  ultimately show ?thesis using n c by (auto simp: newest_def)
qed

lemma newest_propose:
  assumes n: "newest d0 k {ASSESSED} d" and rev: "np_revision np = 1"
    and c: "create_proposal_and_transition np k P_PROPOSED now tr actor ms d = (res, d')"
  shows "newest d0 k {if is_ok res then PROPOSED else ASSESSED} d'"
proof (cases res)
  case (Inl e)
  then have "d' = d"
    using c by (auto simp: create_proposal_and_transition_def transaction_def split: sum.splits)
  with n Inl show ?thesis by simp
next
  case (Inr u)
  have d: "reachable d" using n by (simp add: newest_def)
  have "create_proposal_body np k P_PROPOSED now tr actor ms d = Inr (u, d')"
    using c Inr by (auto simp: create_proposal_and_transition_def transaction_def split: sum.splits)
  from create_proposal_body_Inr[OF reachable_inv[OF d] this] obtain r e where
    d': "d' = add_audit e (add_audit (state_transition tr k (Some (np_id np)) ASSESSED PROPOSED
        ''remediation proposal created'' actor now)
      (put_run k ASSESSED PROPOSED now (put_proposals (proposals d @ [new_row np k P_PROPOSED]) d)))"
    by metis
  have "runs d' = runs (put_run k ASSESSED PROPOSED now d)" by (simp add: d' runs_put_run)
  moreover have "reachable d'" by (rule reachable_step[OF d store_step.propose[OF rev c]])
  ultimately have "newest d0 k {PROPOSED} d'" using newest_put_run[OF n, of d' PROPOSED now] by (simp add: d')
  with Inr show ?thesis by simp
qed

lemma newest_fail:
  assumes n: "newest d0 k {s} d" and s: "\<not> terminal s" and f: "fail_run k now actor reason d = (res, d')"
  shows "res = Inr () \<and> newest d0 k {FAILED} d'"
proof -
  have d: "reachable d" using n by (simp add: newest_def)
  obtain r where r: "find_run k d = Some r" "r_state r = s" using newest_find[OF n] by auto
  have eq: "fst (fail_run k now actor reason d) = Inr () \<and> runs (snd (fail_run k now actor reason d)) = runs (put_run k s FAILED now d) \<and>
      proposals (snd (fail_run k now actor reason d)) = proposals d"
    using s r by (simp add: fail_run_def transaction_def fail_run_body_def Let_def case_set_run_state insert_audit_eq
        find_run_put_run)
  have "reachable d'" by (rule reachable_step[OF d store_step.fail[OF f]])
  then show ?thesis using eq f newest_put_run[OF n, of d' FAILED now] by simp
qed

lemma newest_create:
  assumes d: "reachable d0" and row: "r_state row = RECEIVED" "e_run_id e = r_id row" "e_event_type e \<noteq> ''state_transition''"
    and c: "create_or_get_run row e d0 = (Inr (stored, created), d)"
  shows "if created then newest d0 (r_id row) {RECEIVED} d \<and> stored = row else d = d0"
proof (cases created)
  case True
  then have new: "find_run (r_id row) d0 = None" "stored = row" "runs d = runs d0 @ [row\<lparr>r_event := canon (r_event row)\<rparr>]"
      "proposals d = proposals d0"
    using c row(2) by (auto simp: create_or_get_run_def transaction_def create_or_get_run_body_def results
        insert_audit_eq split: sum.splits option.splits if_splits prod.splits)
  have "reachable d" by (rule reachable_step[OF d store_step.create[OF row c]])
  with new True row(1) show ?thesis by (simp add: newest_def find_run_None_iff)
next
  case False
  then show ?thesis using c by (auto simp: create_or_get_run_def transaction_def create_or_get_run_body_def results
        split: sum.splits option.splits if_splits prod.splits)
qed

lemma triple_quiet:
  assumes "keeps quiet m"
  shows "triple (\<lambda>s. P (fst s)) m (\<lambda>_ s. P (fst s)) (\<lambda>_ s. P (fst s))"
  using assms unfolding triple_def keeps_def quiet_def by (metis snd_conv)

text \<open>Where a run is while it is being assessed.\<close>

definition assessing :: "db \<Rightarrow> string \<Rightarrow> db \<Rightarrow> bool" where
  "assessing d0 k d \<longleftrightarrow> (\<exists>s. \<not> terminal s \<and> newest d0 k {s} d)"

lemma assessingI: "newest d0 k {s} d \<Longrightarrow> \<not> terminal s \<Longrightarrow> assessing d0 k d"
  by (auto simp: assessing_def)

lemma newest_quiet:
  assumes "keeps quiet m" and "\<not> terminal s"
  shows "triple (\<lambda>t. newest d0 k {s} (fst t)) m (\<lambda>_ t. newest d0 k {s} (fst t)) (\<lambda>_ t. assessing d0 k (fst t))"
  by (rule triple_weaken[OF triple_quiet[OF assms(1), of "newest d0 k {s}"]])
    (use assms(2) assessingI in \<open>blast+\<close>)

lemma triple_clock: "triple (\<lambda>s. P (fst s)) (nowS env) (\<lambda>_ s. P (fst s)) E"
  by (auto simp: nowS_def worldS_def triple_def split: prod.splits)

lemma newest_audit:
  assumes "event_type \<noteq> ''state_transition''" and "\<not> terminal s"
  shows "triple (\<lambda>t. newest d0 k {s} (fst t)) (audit_event env k tr event_type m actor pid)
    (\<lambda>_ t. newest d0 k {s} (fst t)) (\<lambda>_ t. assessing d0 k (fst t))"
  unfolding audit_event_def
proof (rule triple_bind[OF newest_quiet[OF quiet_clock(1) assms(2)]])
  fix t
  let ?e = "\<lparr>e_trace_id = tr, e_run_id = k, e_proposal_id = pid, e_event_type = event_type,
      e_metadata = object_items (safe_metadata (with_actor m actor)), e_occurred_at = isoformat t\<rparr>"
  have "newest d0 k {s} d \<Longrightarrow> create_audit ?e d = (res, d') \<Longrightarrow> res = Inr () \<and> newest d0 k {s} d'" for d res d'
    using newest_note[of d0 k "{s}" d ?e res d'] assms(1) by simp
  then show "triple (\<lambda>t. newest d0 k {s} (fst t)) (storeS (create_audit ?e))
      (\<lambda>_ t. newest d0 k {s} (fst t)) (\<lambda>_ t. assessing d0 k (fst t))"
    by (intro triple_store) blast+
qed

lemma newest_move:
  assumes "(s, s') \<in> {(RECEIVED, INVESTIGATING), (INVESTIGATING, ASSESSED)}"
  shows "triple (\<lambda>t. newest d0 k {s} (fst t)) (storeS (transition_run k s s' now tr reason actor source))
    (\<lambda>_ t. newest d0 k {s'} (fst t)) (\<lambda>_ t. assessing d0 k (fst t))"
  by (rule triple_store) (use newest_transition[OF _ assms] in fastforce)+

lemma working_states [simp]: "\<not> terminal RECEIVED" "\<not> terminal INVESTIGATING" "\<not> terminal ASSESSED"
  by (simp_all add: terminal_def)

lemma assess_triple:
  "triple (\<lambda>t. newest d0 k {RECEIVED} (fst t)) (assess env k tr e actor)
    (\<lambda>_ t. newest d0 k {ASSESSED} (fst t)) (\<lambda>_ t. assessing d0 k (fst t))"
  unfolding assess_def
  by (intro triple_bind[OF newest_quiet[OF quiet_clock(1)]] triple_bind[OF newest_quiet[OF quiet_world]]
      triple_bind[OF newest_move] triple_bind[OF newest_audit] triple_pure) simp_all

lemma propose_triple:
  "triple (\<lambda>t. newest d0 k {ASSESSED} (fst t)) (propose env k tr actor now evidence result)
    (\<lambda>_ t. newest d0 k {PROPOSED} (fst t)) (\<lambda>_ t. assessing d0 k (fst t))"
proof -
  have store: "triple (\<lambda>t. newest d0 k {ASSESSED} (fst t)) (storeS (create_proposal_and_transition n k P_PROPOSED t tr actor ms))
      (\<lambda>_ t. newest d0 k {PROPOSED} (fst t)) (\<lambda>_ t. assessing d0 k (fst t))" if "np_revision n = 1" for n t ms
    by (rule triple_store) (use newest_propose[OF _ that] in \<open>fastforce intro: assessingI\<close>)+
  show ?thesis
    unfolding propose_def
    by (intro triple_bind[OF newest_quiet] quiet_resolve quiet_clock quiet_moves store) (simp_all add: draft_proposal_def)
qed

lemma fail_triple:
  "triple (\<lambda>t. assessing d0 k (fst t)) (fail_and_raise env k actor e)
    (\<lambda>_ t. False) (\<lambda>_ t. newest d0 k {FAILED} (fst t))"
  unfolding fail_and_raise_def
proof (rule triple_bind[OF triple_clock])
  fix t
  show "triple (\<lambda>t. assessing d0 k (fst t)) (bindS (storeS (fail_run k (isoformat t) actor (reason_code e)))
      (\<lambda>_. raiseS (if is_store_conflict e then ConflictError (exn_message e) else e)))
      (\<lambda>_ t. False) (\<lambda>_ t. newest d0 k {FAILED} (fst t))"
    by (rule triple_bind[where R = "\<lambda>_ t. newest d0 k {FAILED} (fst t)"], rule triple_store)
      (auto simp: assessing_def triple_def dest: newest_fail)
qed

lemma start_triple:
  assumes d: "reachable d"
  shows "triple (\<lambda>s. fst s = d) (start_event env event actor)
    (\<lambda>v t. fst t = d \<or> (\<exists>k. newest d k {PROPOSED} (fst t) \<and> get_run k False (fst t) = Inr v))
    (\<lambda>_ t. fst t = d \<or> (\<exists>k. newest d k {FAILED, PROPOSED} (fst t)))"
proof -
  let ?Q = "\<lambda>v t. fst t = d \<or> (\<exists>k. newest d k {PROPOSED} (fst t) \<and> get_run k False (fst t) = Inr v)"
  let ?E = "\<lambda>_ t. fst t = d \<or> (\<exists>k. newest d k {FAILED, PROPOSED} (fst t))"
  have work: "triple (\<lambda>t. newest d k {RECEIVED} (fst t))
      (bindS (catchS (bindS (assess env k tr e actor) (\<lambda>(evidence, result). propose env k tr actor now evidence result))
         (fail_and_raise env k actor)) (\<lambda>_. get_runS k False)) ?Q ?E" for k tr e now
  proof (rule triple_bind[where R = "\<lambda>_ t. newest d k {PROPOSED} (fst t)"])
    show "triple (\<lambda>t. newest d k {RECEIVED} (fst t))
      (catchS (bindS (assess env k tr e actor) (\<lambda>(evidence, result). propose env k tr actor now evidence result))
         (fail_and_raise env k actor)) (\<lambda>_ t. newest d k {PROPOSED} (fst t)) ?E"
    proof (rule triple_catch)
      show "triple (\<lambda>t. newest d k {RECEIVED} (fst t))
        (bindS (assess env k tr e actor) (\<lambda>(evidence, result). propose env k tr actor now evidence result))
        (\<lambda>_ t. newest d k {PROPOSED} (fst t)) (\<lambda>_ t. assessing d k (fst t))"
        by (rule triple_bind[OF assess_triple]) (simp add: case_prod_unfold propose_triple)
      fix x
      show "triple (\<lambda>t. assessing d k (fst t)) (fail_and_raise env k actor x) (\<lambda>_ t. newest d k {PROPOSED} (fst t)) ?E"
        by (rule triple_weaken[OF fail_triple]) (auto intro: newest_subset)
    qed
    show "triple (\<lambda>t. newest d k {PROPOSED} (fst t)) (get_runS k False) ?Q ?E"
      unfolding get_runS_def by (rule triple_read) (auto intro: newest_subset)
  qed
  have create: "triple (\<lambda>s. fst s = d) (catchS (storeS (create_or_get_run (received_run env k tr e now) (received_audit env k tr e now actor)))
      (\<lambda>x. case x of IdempotencyConflict m \<Rightarrow> raiseS (ConflictError m) | _ \<Rightarrow> raiseS x))
      (\<lambda>r t. if snd r then newest d k {RECEIVED} (fst t) else fst t = d) ?E" for k tr e now
  proof (rule triple_catch[where F = "\<lambda>_ t. fst t = d"], rule triple_store)
    let ?o = "create_or_get_run (received_run env k tr e now) (received_audit env k tr e now actor)"
    show "?o d' = (Inl x, d'') \<Longrightarrow> d'' = d" if "d' = d" for x d' d''
      using that by (auto simp: create_or_get_run_def transaction_def split: sum.splits)
    show "if snd r then newest d k {RECEIVED} d'' else d'' = d" if "d' = d" "?o d' = (Inr r, d'')" for r d' d''
      using newest_create[OF d, of "received_run env k tr e now" "received_audit env k tr e now actor" "fst r" "snd r" d''] that
      by (auto simp: received_run_def received_audit_def split: if_splits)
    show "triple (\<lambda>t. fst t = d) (case x of IdempotencyConflict m \<Rightarrow> raiseS (ConflictError m) | _ \<Rightarrow> raiseS x)
        (\<lambda>r t. if snd r then newest d k {RECEIVED} (fst t) else fst t = d) ?E" for x
      by (auto simp: triple_def split: exn.split)
  qed
  have rest: "triple (\<lambda>t. if snd r then newest d k {RECEIVED} (fst t) else fst t = d)
      (case r of (stored, created) \<Rightarrow> if \<not> created then get_runS (r_id stored) True
     else
       bindS (catchS (bindS (assess env k tr e actor) (\<lambda>(evidence, result).
                        propose env k tr actor now evidence result))
                (fail_and_raise env k actor)) (\<lambda>_.
       get_runS k False)) ?Q ?E" for r :: "run_row \<times> bool" and k tr e now
    using work by (cases r) (auto simp: triple_def get_runS_def)
  show ?thesis
    unfolding start_event_def
    by (intro quiet_bind triple_bind[OF create] rest)
      (auto intro!: quiet_moves split: option.split)
qed

section \<open>What execution does\<close>

lemma find_proposal_move:
  assumes k: "keys_ok d" and p: "find_proposal pid d = Some p"
    and m: "keys_ok (move_both p r (execute_row s) s' reason actor now d)"
  shows "find_proposal pid (move_both p r (execute_row s) s' reason actor now d) = Some (execute_row s p)"
proof -
  have pd: "p \<in> set (proposals d)" "p_id p = pid" using find_proposal_SomeD[OF p] by simp_all
  have "execute_row s p \<in> set (proposals (move_both p r (execute_row s) s' reason actor now d))"
    using pd(1) by (auto simp: changed_eq[OF k pd(1)])
  from find_proposal_in[OF m this] show ?thesis using pd(2) by (simp add: execute_row_def)
qed

text \<open>A claimed proposal: it and its run are executing.\<close>

definition executing :: "string \<Rightarrow> proposal_row \<Rightarrow> db \<Rightarrow> bool" where
  "executing pid p d \<longleftrightarrow> reachable d \<and> find_proposal pid d = Some p \<and> p_status p = P_EXECUTING \<and>
     (\<exists>r. find_run (p_run_id p) d = Some r \<and> r_state r = EXECUTING)"

definition executed :: "string \<Rightarrow> proposal_row \<Rightarrow> bool \<Rightarrow> db \<Rightarrow> bool" where
  "executed pid p success d \<longleftrightarrow> reachable d \<and>
     find_proposal pid d = Some (p\<lparr>p_status := (if success then P_SUCCEEDED else P_FAILED)\<rparr>) \<and>
     (\<exists>r. find_run (p_run_id p) d = Some r \<and> r_state r = (if success then SUCCEEDED else FAILED))"

lemma executing_finalize:
  assumes e: "executing pid p d" and f: "finalize_execution pid success now actor metadata d = (res, d')"
  shows "res = Inr (p_run_id p) \<and> executed pid p success d'"
proof -
  have d: "reachable d" "find_proposal pid d = Some p" "p_status p = P_EXECUTING" using e by (simp_all add: executing_def)
  obtain r where r: "find_run (p_run_id p) d = Some r" "r_state r = EXECUTING" using e by (auto simp: executing_def)
  have inv: "db_inv d" by (rule reachable_inv[OF d(1)])
  from finalize_eq[OF inv d(2) r(1), of success now actor metadata] d(3) r(2) f
  have res: "res = Inr (p_run_id p)" and d': "d' = finalized_db p r success now actor metadata d" by auto
  have d'_inv: "reachable d'" using reachable_step[OF d(1) store_step.finalize[OF f]] .
  let ?m = "move_both p r (execute_row (if success then P_SUCCEEDED else P_FAILED)) (if success then SUCCEEDED else FAILED)
          (if success then ''remediation completed'' else ''remediation failed'') actor now d"
  have "keys_ok d" using inv by (simp add: db_inv_def)
  moreover have "keys_ok ?m" using reachable_inv[OF d'_inv] by (simp add: d' finalized_db_def db_inv_def keys_ok_def)
  ultimately have "find_proposal pid ?m = Some (execute_row (if success then P_SUCCEEDED else P_FAILED) p)"
    using find_proposal_move[OF _ d(2)] by blast
  moreover have "find_proposal pid d' = find_proposal pid ?m" by (simp add: d' finalized_db_def find_proposal_def)
  moreover have "find_run (p_run_id p) d' = find_run (p_run_id p) ?m" by (simp add: d' finalized_db_def)
  ultimately show ?thesis
    using res d'_inv find_run_moved(1)[OF r(1)] by (simp add: executed_def execute_row_def)
qed

lemma executing_note:
  assumes e: "executing pid p d" and a: "e_run_id a = p_run_id p" "e_event_type a \<noteq> ''state_transition''"
    and c: "create_audit a d = (res, d')"
  shows "res = Inr () \<and> executing pid p d'"
proof -
  have "reachable d'" using e reachable_step[OF _ store_step.note_audit[OF a(2) c]] by (simp add: executing_def)
  moreover have "create_audit a d = (Inr (), add_audit a d)"
    using e a(1) by (auto simp: executing_def create_audit_def transaction_def insert_audit_eq)
  ultimately show ?thesis using e c by (auto simp: executing_def find_proposal_def)
qed

lemma claim_executing:
  assumes d: "reachable d" and c: "claim_execution pid digest now actor d = (Inr (Claimed p), d')"
  shows "executing pid (p\<lparr>p_status := P_EXECUTING\<rparr>) d'"
  using claimed_facts[OF d c] reachable_step[OF d store_step.claim[OF c]]
  by (auto simp: executing_def)

definition tool_succeeded :: "exn + execution_result \<Rightarrow> bool" where
  "tool_succeeded out = (case out of Inl _ \<Rightarrow> False | Inr r \<Rightarrow> xr_success r)"

lemma run_tool_settles:
  assumes "executing pid p d"
  shows "\<exists>d' w'. catchS (run_tool env pid opt actor) (record_failure env pid actor) (d, w) = (Inr (), (d', w')) \<and>
    executed pid p (tool_succeeded (fst (se_execute env opt w))) d'"
proof -
  obtain out w1 where x: "se_execute env opt w = (out, w1)" by (cases "se_execute env opt w")
  obtain t w2 where t: "se_now env w1 = (t, w2)" by (cases "se_now env w1")
  have fin: "\<exists>d'. finalize_execution pid ok (isoformat t) actor m d = (Inr (p_run_id p), d') \<and> executed pid p ok d'" for ok m
    using executing_finalize[OF assms surjective_pairing] by (metis surjective_pairing)
  show ?thesis
  proof (cases out)
    case (Inl e)
    then show ?thesis
      using fin[of False "[(''success'', JBool False), (''failure_reason_code'', JStr (reason_code e))]"]
      by (auto simp: catchS_def run_tool_def record_failure_def bindS_def worldS_def nowS_def storeS_def x t tool_succeeded_def)
  next
    case (Inr r)
    then show ?thesis
      using fin[of "xr_success r" "result_metadata r"]
      by (auto simp: catchS_def run_tool_def bindS_def worldS_def nowS_def storeS_def x t tool_succeeded_def)
  qed
qed

lemma execute_claimed:
  assumes d: "reachable d" and on: "se_execution_enabled env" and p: "find_proposal pid d = Some p"
    and opt: "checked_option env p = Inr opt"
    and c: "claim_execution pid (digest_of env (p_revision p) (p_scenario p) (p_kind p) opt)
      (isoformat (fst (se_now env w))) actor d = (Inr (Claimed q), d1)"
  shows "q = p \<and> (\<exists>d' w'. execute env pid actor (d, w) = (get_run (p_run_id p) False d', (d', w')) \<and>
    executed pid p (tool_succeeded (fst (se_execute env opt (snd (se_now env (snd (se_now env w))))))) d')"
proof -
  have qp: "q = p" using claimed_facts[OF d c] p by simp
  let ?p = "p\<lparr>p_status := P_EXECUTING\<rparr>"
  have e1: "executing pid ?p d1" using claim_executing[OF d c] qp by simp
  then obtain r where r: "find_run (p_run_id p) d1 = Some r" by (auto simp: executing_def)
  have rid: "r_id r = p_run_id p" using find_run_SomeD[OF r] by simp
  obtain t1 w1 where t1: "se_now env w = (t1, w1)" by (cases "se_now env w")
  obtain t2 w2 where t2: "se_now env w1 = (t2, w2)" by (cases "se_now env w1")
  let ?a = "\<lparr>e_trace_id = r_trace_id r, e_run_id = r_id r, e_proposal_id = Some pid, e_event_type = ''tool_call'',
     e_metadata = object_items (safe_metadata (with_actor [(''tool'', JStr ''remediation_executor''), (''action_id'', JStr (ro_action_id opt)),
                      (''scenario'', JStr (scenario_value (p_scenario p))),
                      (''scenario_kind'', JStr (kind_value (p_kind p)))] actor)), e_occurred_at = isoformat t2\<rparr>"
  obtain res d2 where a: "create_audit ?a d1 = (res, d2)" by (cases "create_audit ?a d1")
  have e2: "res = Inr () \<and> executing pid ?p d2" by (rule executing_note[OF e1 _ _ a]) (simp_all add: rid)
  from run_tool_settles[of pid ?p d2 env opt actor w2] e2 obtain d' w' where
    run: "catchS (run_tool env pid opt actor) (record_failure env pid actor) (d2, w2) = (Inr (), (d', w'))"
    and ex: "executed pid ?p (tool_succeeded (fst (se_execute env opt w2))) d'" by blast
  have "mapping_errors (storeS (claim_execution pid (digest_of env (p_revision p) (p_scenario p) (p_kind p) opt)
      (isoformat t1) actor)) (d, w1) = (Inr (Claimed p), (d1, w1))"
    using c by (simp add: mapping_errors_def catchS_def storeS_def t1 qp)
  then have "execute env pid actor (d, w) = (get_run (p_run_id p) False d', (d', w'))"
    using on p opt r a e2 run
    by (simp add: execute_def bindS_def required_proposal_def nowS_def worldS_def t1 t2
        storeS_def audit_event_def get_runS_def)
  moreover have "executed pid p ok d' \<longleftrightarrow> executed pid ?p ok d'" for ok by (simp add: executed_def)
  ultimately show ?thesis using qp ex t1 t2 by simp
qed


text \<open>The executor is an argument of nothing else.\<close>

lemma env_execute [simp]:
  "nowS (env\<lparr>se_execute := f\<rparr>) = nowS env" "checked_option (env\<lparr>se_execute := f\<rparr>) = checked_option env"
  "audit_event (env\<lparr>se_execute := f\<rparr>) = audit_event env"
  "record_failure (env\<lparr>se_execute := f\<rparr>) = record_failure env"
  "digest_of (env\<lparr>se_execute := f\<rparr>) = digest_of env"
  by (intro ext; simp add: nowS_def checked_option_def audit_event_def record_failure_def digest_of_def)+

lemma run_tool_cong:
  "f opt = se_execute env opt \<Longrightarrow> run_tool (env\<lparr>se_execute := f\<rparr>) pid opt actor = run_tool env pid opt actor"
  by (simp add: run_tool_def)

lemma bindS_step: "m s = (Inr x, t) \<Longrightarrow> bindS m f s = f x t"
  by (simp add: bindS_def)

lemma claimed_row:
  assumes "claim_execution pid digest now actor d = (Inr (Claimed q), d')"
  shows "find_proposal pid d = Some q \<and> p_status q = P_APPROVED \<and> p_approved_hash q = Some digest \<and> \<not> p_expires_at q \<le> now"
  using assms
  by (auto simp: claim_execution_def transaction_def claim_execution_body_def results Let_def
      split: option.splits if_splits sum.splits prod.splits)

lemma execute_only_approved:
  assumes "\<And>p opt. find_proposal pid d = Some p \<Longrightarrow> p_status p = P_APPROVED \<Longrightarrow>
    isoformat (fst (se_now env w)) < p_expires_at p \<Longrightarrow> option_of_json (p_option p) = Inr opt \<Longrightarrow>
    validate_scenario_action (p_scenario p) (p_kind p) (ro_action_id opt) = Inr () \<Longrightarrow>
    p_approved_hash p = Some (digest_of env (p_revision p) (p_scenario p) (p_kind p) opt) \<Longrightarrow>
    f opt = se_execute env opt"
  shows "execute (env\<lparr>se_execute := f\<rparr>) pid actor (d, w) = execute env pid actor (d, w)"
proof (cases "se_execution_enabled env")
  case on: True
  show ?thesis
  proof (cases "find_proposal pid d")
    case (Some p)
    show ?thesis
    proof (cases "checked_option env p")
      case (Inr opt)
      then have opt: "option_of_json (p_option p) = Inr opt"
        "validate_scenario_action (p_scenario p) (p_kind p) (ro_action_id opt) = Inr ()"
        by (auto simp: checked_option_def results split: if_splits exn.splits sum.splits)
      obtain t w1 where t: "se_now env w = (t, w1)" by (cases "se_now env w")
      let ?claim = "claim_execution pid (digest_of env (p_revision p) (p_scenario p) (p_kind p) opt) (isoformat t) actor"
      have same: "run_tool (env\<lparr>se_execute := f\<rparr>) pid opt actor = run_tool env pid opt actor"
        if "?claim d = (Inr (Claimed q), d')" for q d'
        using claimed_row[OF that] Some opt t by (intro run_tool_cong assms[OF Some]) (auto simp: not_le)
      obtain res d1 where c: "?claim d = (res, d1)" by (cases "?claim d")
      show ?thesis
      proof (cases "\<exists>q. res = Inr (Claimed q)")
        case True
        then obtain q where q: "res = Inr (Claimed q)" by blast
        have steps: "required_proposal pid (d, w) = (Inr p, (d, w))" "nowS env (d, w) = (Inr t, (d, w1))"
          "mapping_errors (storeS ?claim) (d, w1) = (Inr (Claimed q), (d1, w1))"
          using Some t c q by (simp_all add: required_proposal_def nowS_def worldS_def mapping_errors_def catchS_def storeS_def)
        show ?thesis using on Inr same[of q d1] c q by (simp add: execute_def steps bindS_step)
      next
        case False
        then consider e where "res = Inl e" | "res = Inr Claim_expired"
          by (cases res) (auto, metis claim.exhaust)
        then show ?thesis
          using on Some Inr c t
          by cases (simp_all add: execute_def bindS_def required_proposal_def nowS_def worldS_def mapping_errors_def
              catchS_def storeS_def)
      qed
    qed (use on Some in \<open>simp add: execute_def bindS_def required_proposal_def\<close>)
  qed (use on in \<open>simp add: execute_def bindS_def required_proposal_def\<close>)
qed (simp add: execute_def)

text \<open>C2: The executor acts only on what was approved: two services that differ in their executors give
  the same answer and the same effects, unless the stored proposal is approved and unexpired and its option
  is authorised for its scenario and hashes to the approved hash - and then it matters only what the
  executors do with exactly that option. No invariant of the database is assumed.\<close>

theorem executed_is_approved:
  assumes "\<And>p opt. find_proposal pid d = Some p \<Longrightarrow> p_status p = P_APPROVED \<Longrightarrow>
    isoformat (fst (se_now env w)) < p_expires_at p \<Longrightarrow> option_of_json (p_option p) = Inr opt \<Longrightarrow>
    validate_scenario_action (p_scenario p) (p_kind p) (ro_action_id opt) = Inr () \<Longrightarrow>
    p_approved_hash p = Some (digest_of env (p_revision p) (p_scenario p) (p_kind p) opt) \<Longrightarrow>
    f opt = se_execute env opt"
  shows "execute (env\<lparr>se_execute := f\<rparr>) pid actor (d, w) = execute env pid actor (d, w)"
  by (rule execute_only_approved[OF assms])

text \<open>C6: Starting an event leaves no run between: at most one run is added, existing rows stay as they are,
  and whatever the collector, the analyzer or the clock did - any exception included - the new run ends
  proposed, or failed; it is proposed whenever a view is returned.\<close>

theorem start_event_settles:
  assumes "reachable d" and "start_event env event actor (d, w) = (res, (d', w'))"
  shows "\<exists>new. runs d' = runs d @ new \<and> length new \<le> 1 \<and> prefix (proposals d) (proposals d') \<and>
    (\<forall>r \<in> set new. r_state r \<in> {PROPOSED, FAILED} \<and> (is_ok res \<longrightarrow> r_state r = PROPOSED))"
proof -
  note triple = start_triple[OF assms(1), of env event actor]
  have "d' = d \<or> (\<exists>k. newest d k (if is_ok res then {PROPOSED} else {FAILED, PROPOSED}) d')"
    using triple_Inl[OF triple, of "(d, w)"] triple_Inr[OF triple, of "(d, w)"] assms(2) by (cases res) auto
  then show ?thesis by (auto simp: newest_def split: if_splits)
qed

text \<open>C7: The service only ever changes the database through the store's operations: every sequence of
  service calls, whatever the collaborators do and whichever calls raise, is a sequence of store steps, so
  every property of the store's histories is a property of the service.\<close>

theorem service_refines_store:
  assumes "reachable d" and "(service_step env)\<^sup>*\<^sup>* (d, w) (d', w')"
  shows "store_step\<^sup>*\<^sup>* d d'"
proof -
  have "stores (d, w) (d', w')"
    using assms(2)
  proof (induction rule: rtranclp_induct)
    case (step s t)
    then show ?case using service_step_stores stores_preorder(2) by (metis transpD)
  qed (simp add: stores_def)
  with assms(1) show ?thesis by (simp add: stores_def)
qed

definition raises_only :: "'e \<Rightarrow> 'e + 'a \<Rightarrow> bool" where
  "raises_only x m \<longleftrightarrow> (\<forall>e. m = Inl e \<longrightarrow> e = x)"

lemma raises_only_intros:
  "raises_only x (Inl x)" "raises_only x (Inr y)"
  "raises_only x m \<Longrightarrow> (\<And>y. raises_only x (f y)) \<Longrightarrow> raises_only x (bindE m f)"
  "(b \<Longrightarrow> raises_only x m) \<Longrightarrow> (\<not> b \<Longrightarrow> raises_only x n) \<Longrightarrow> raises_only x (if b then m else n)"
  by (auto simp: raises_only_def bindE_Inl_iff)

lemma strings_of_raises: "raises_only ValidationError (strings_of js)"
  by (induction js rule: strings_of.induct) (auto intro!: raises_only_intros)

lemma get_raises:
  "raises_only ValidationError (get_str k kvs)" "raises_only ValidationError (get_opt_str k kvs)"
  "raises_only ValidationError (get_float k kvs)" "raises_only ValidationError (get_int k kvs)"
  "raises_only ValidationError (get_strs k kvs)" "raises_only ValidationError (get_strs_default k kvs)"
  by (auto simp: get_defs raises_only_def strings_of_raises[unfolded raises_only_def] split: option.splits json.splits)

lemma capability_of_json_raises: "raises_only ValidationError (capability_of_json c)"
proof (cases c)
  case (Some j)
  show ?thesis unfolding Some
    by (cases j) (simp_all add: capability_of_json_def raises_only_intros get_raises)
qed (simp add: capability_of_json_def raises_only_intros)

lemma parameters_of_json_raises:
  "raises_only ValidationError (case m of Some (JObj ps) \<Rightarrow> Inr (Some ps) | Some JNull \<Rightarrow> Inr None
     | None \<Rightarrow> Inr None | _ \<Rightarrow> Inl ValidationError)"
  by (auto simp: raises_only_def split: option.splits json.splits)

lemma option_of_json_raises: "raises_only ValidationError (option_of_json j)"
proof (cases j)
  case (JObj kvs)
  show ?thesis
    unfolding option_of_json_def check_option_def JObj json.case
    by (intro raises_only_intros get_raises capability_of_json_raises parameters_of_json_raises)
qed (simp_all add: option_of_json_def raises_only_intros)

text \<open>C22: A stored proposal whose option was altered behind the program is refused: if its option no longer
  hashes to the stored digest, neither a decision nor an execution goes through, and nothing is written.\<close>

theorem tampered_proposal_refused:
  assumes "find_proposal pid d = Some p" and "se_execution_enabled env"
    and "\<And>opt. option_of_json (p_option p) = Inr opt \<Longrightarrow>
      digest_of env (p_revision p) (p_scenario p) (p_kind p) opt \<noteq> p_action_hash p"
  shows "\<exists>e. decide env pid request actor (d, w) = (Inl e, (d, w)) \<and> execute env pid actor (d, w) = (Inl e, (d, w)) \<and>
    service_status e \<in> {Some 409, None}"
proof -
  have "\<exists>e. checked_option env p = Inl e \<and> service_status e \<in> {Some 409, None}"
  proof (cases "option_of_json (p_option p)")
    case (Inl e)
    then have "e = ValidationError" using option_of_json_raises by (simp add: raises_only_def)
    with Inl show ?thesis by (simp add: checked_option_def)
  next
    case (Inr opt)
    then show ?thesis
      using assms(3)[OF Inr]
      by (cases "validate_scenario_action (p_scenario p) (p_kind p) (ro_action_id opt)")
        (auto simp: checked_option_def validate_scenario_action_def allowed_actions_def split: option.splits if_splits)
  qed
  then show ?thesis
    using assms(1,2) by (auto simp: decide_def execute_def bindS_def required_proposal_def)
qed

lemma start_event_known:
  assumes "sanitize_event event = Inr e" and "select_one r_key (ev_idempotency_key e) (runs d) = Some r"
  shows "\<exists>w'. start_event (env\<lparr>se_collect := collect, se_analyze := analyze\<rparr>) event actor (d, w) =
    (if r_payload_hash r = se_sha env (canonical_event env e) then get_run (r_id r) True d
     else Inl (ConflictError ''idempotency key belongs to a different normalized event''), (d, w'))"
proof -
  obtain t w1 where t: "se_now env w = (t, w1)" by (cases "se_now env w")
  obtain i w2 where i: "se_uuid env w1 = (i, w2)" by (cases "se_uuid env w1")
  obtain j w3 where j: "se_uuid env w2 = (j, w3)" by (cases "se_uuid env w2")
  show ?thesis
    using assms(2)
    by (auto simp: start_event_def assms(1) bindS_def nowS_def uuidS_def worldS_def t i j storeS_def catchS_def
        create_or_get_run_def transaction_def create_or_get_run_body_def received_run_def get_runS_def canonical_event_def
        split: option.splits)
qed

text \<open>Submitting an event again is idempotent: a key that is stored answers with the stored run, marked
  as a duplicate, when the sanitised event has the same digest, and with a conflict otherwise; nothing is
  written and neither the collector nor the analyzer is called.\<close>

theorem resubmission_idempotent:
  assumes "sanitize_event event = Inr e" and "select_one r_key (ev_idempotency_key e) (runs d) = Some r"
  shows "\<exists>w'. start_event (env\<lparr>se_collect := collect, se_analyze := analyze\<rparr>) event actor (d, w) =
    (if r_payload_hash r = se_sha env (canonical_event env e) then get_run (r_id r) True d
     else Inl (ConflictError ''idempotency key belongs to a different normalized event''), (d, w'))"
  using start_event_known[OF assms] .

text \<open>C27: What is drafted is what is read back. Once a proposal the service drafted from a validated
  assessment and the option policy built from it is stored, then after whatever the store did since,
  its view has the same assessment, the same option (its parameters in the order of their names), the
  same two instants, revision and digest; and the option passes the checks that precede a decision and
  an execution, the digest included.\<close>

theorem proposal_reads_back:
  assumes "reachable d" and "valid_assessment a" and "build_option s k a binding = Inr opt"
    and "valid_datetime created" and "add_seconds created ttl = Inr expires"
    and "create_proposal_and_transition (draft_proposal env i 1 s k a opt expires created) run_id P_PROPOSED
      now trace_id actor ms d = (Inr (), d1)"
    and "store_step\<^sup>*\<^sup>* d1 d2"
  shows "\<exists>p. find_proposal i d2 = Some p \<and>
    view_proposal p = Inr \<lparr>pv_id = i, pv_run_id = run_id, pv_revision = 1, pv_status = p_status p,
      pv_scenario = s, pv_kind = k, pv_assessment = a, pv_option = stored_option opt,
      pv_action_hash = digest_of env 1 s k opt, pv_expires_at = expires, pv_created_at = created,
      pv_approved_hash = p_approved_hash p\<rparr> \<and>
    checked_option env p = Inr (stored_option opt)"
proof -
  let ?n = "draft_proposal env i 1 s k a opt expires created"
  have inv: "db_inv d" using assms(1) by (rule reachable_inv)
  have step: "store_step d d1" by (rule store_step.propose[OF _ assms(6)]) (simp add: draft_proposal_def)
  then have inv1: "db_inv d1" using store_step_sound inv by blast
  with store_steps_sound[OF assms(7)] have inv2: "db_inv d2" "extends d1 d2" by blast+
  have body: "create_proposal_body ?n run_id P_PROPOSED now trace_id actor ms d = Inr ((), d1)"
    using assms(6) by (auto simp: create_proposal_and_transition_def transaction_def split: sum.splits prod.splits)
  have "new_row ?n run_id P_PROPOSED \<in> set (proposals d1)"
    by (rule create_proposal_body_Inr[OF inv body]) simp
  then have "find_proposal i d1 = Some (new_row ?n run_id P_PROPOSED)"
    using find_proposal_in[of d1 "new_row ?n run_id P_PROPOSED"] inv1
    by (simp add: db_inv_def new_row_def draft_proposal_def)
  from proposal_later[OF inv1 inv2 this] obtain p where p: "find_proposal i d2 = Some p"
    and core: "proposal_core p = proposal_core (new_row ?n run_id P_PROPOSED)" by blast
  from core have row: "p_id p = i" "p_run_id p = run_id" "p_revision p = 1" "p_scenario p = s" "p_kind p = k"
    "p_assessment p = canon (assessment_json a)" "p_option p = canon (option_json opt)"
    "p_action_hash p = digest_of env 1 s k opt" "p_expires_at p = isoformat expires" "p_created_at p = isoformat created"
    by (cases p; simp add: proposal_core_def new_row_def draft_proposal_def)+
  have auth: "option_authorised s k opt" using assms(3) by (simp add: build_option_Inr_iff)
  then have v: "valid_option opt" by (simp add: option_authorised_def)
  have allowed: "validate_scenario_action s k (ro_action_id opt) = Inr ()"
    using auth by (auto simp: option_authorised_def validate_scenario_action_iff)
  have times: "field_time (isoformat t) = Inr t" if "valid_datetime t" for t
    using that by (simp add: field_time_def fromisoformat_isoformat)
  have "valid_datetime expires" using add_seconds_valid_micros[OF assms(4,5)] by blast
  then have "view_proposal p = Inr \<lparr>pv_id = i, pv_run_id = run_id, pv_revision = 1, pv_status = p_status p,
      pv_scenario = s, pv_kind = k, pv_assessment = a, pv_option = stored_option opt,
      pv_action_hash = digest_of env 1 s k opt, pv_expires_at = expires, pv_created_at = created,
      pv_approved_hash = p_approved_hash p\<rparr>"
    using assms(2,4) v by (simp add: view_proposal_def row assessment_of_canon option_of_canon times)
  moreover have "ro_action_id (stored_option opt) = ro_action_id opt" by (simp add: stored_option_def)
  with v allowed have "checked_option env p = Inr (stored_option opt)"
    by (simp add: checked_option_def row option_of_canon digest_of_def)
  ultimately show ?thesis using p by blast
qed

section \<open>Witnesses\<close>

text \<open>A service on the offline collaborators; its world counts the calls of the clock and of \<open>uuid4\<close>.\<close>

definition sample_env :: "nat service_env" where
  "sample_env =
     \<lparr>se_now = (\<lambda>n. (sample_time 5 0, Suc n)), se_uuid = (\<lambda>n. (''u'' @ replicate n CHR ''1'', Suc n)),
      se_collect = (\<lambda>e n. (scenario_collect e, n)), se_analyze = (\<lambda>ev note n. (fake_analyze ev, n)),
      se_execute = (\<lambda>opt n. (Inr (execution_succeeded ''done''), n)), se_binding = None, se_ttl = 900,
      se_execution_enabled = True, se_sha = (\<lambda>_. ''x''), se_repr = fraction_text, se_time_json = (\<lambda>_. [])\<rparr>"

definition broken_execute :: "remediation_option \<Rightarrow> (nat, execution_result) action" where
  "broken_execute opt n = (Inl (TypeError ''broken''), n)"

definition service_option :: remediation_option where
  "service_option = sample_option ''stop_memory_hog''"

text \<open>The sample history with a proposal that parses.\<close>

definition service_draft :: proposal_draft where
  "service_draft = (sample_draft ''p1'' 1)\<lparr>np_option := option_json service_option\<rparr>"

definition service_proposed :: db where
  "service_proposed =
     snd (create_proposal_and_transition service_draft ''r1'' P_PROPOSED ''3'' ''t'' ''u'' 5 sample_assessed)"

definition service_approved :: db where
  "service_approved = snd (decide_proposal ''p1'' 1 ''x'' APPROVE ''4'' ''u'' 1 None service_proposed)"

definition service_row :: "proposal_state \<Rightarrow> string option \<Rightarrow> proposal_row" where
  "service_row s h = (new_row service_draft ''r1'' s)\<lparr>p_approved_hash := h\<rparr>"

lemma option_json_action: "option_action_id (option_json opt) = Inr (JStr (ro_action_id opt))"
  by (simp add: option_action_id_def option_json_def)

lemma service_tables:
  "runs service_proposed = [sample_run_in PROPOSED ''3'']" "proposals service_proposed = [service_row P_PROPOSED None]"
  "runs service_approved = [sample_run_in APPROVED ''4'']"
  "proposals service_approved = [service_row P_APPROVED (Some ''x'')]"
proof -
  show p: "runs service_proposed = [sample_run_in PROPOSED ''3'']"
    "proposals service_proposed = [service_row P_PROPOSED None]"
    by (simp_all add: service_proposed_def sample_assessed_tables store_simps sample_simps service_draft_def
        service_row_def option_json_action[unfolded option_action_id_def])
  show "runs service_approved = [sample_run_in APPROVED ''4'']"
    "proposals service_approved = [service_row P_APPROVED (Some ''x'')]"
    by (simp_all add: service_approved_def p store_simps sample_simps service_draft_def service_row_def)
qed

lemma service_reachable: "reachable service_proposed" "reachable service_approved"
proof -
  have "store_step sample_assessed service_proposed"
    unfolding service_proposed_def by (rule store_step_snd) (simp add: service_draft_def sample_draft_def)
  then show p: "reachable service_proposed" using reachable_step[OF sample_reachable(2)] by blast
  have "store_step service_proposed service_approved"
    unfolding service_approved_def by (rule store_step_snd) simp
  then show "reachable service_approved" using reachable_step[OF p] by blast
qed

lemma service_checked: "checked_option sample_env (service_row s h) = Inr service_option"
proof -
  have v: "valid_option service_option"
    by (simp add: service_option_def sample_option_def valid_option_def unit_interval_def parameters_must_be_bounded_def)
  have o1: "p_option (service_row s h) = canon (option_json service_option)" "p_scenario (service_row s h) = MEMORY_OOM"
      "p_kind (service_row s h) = SYNTHETIC_MARKER" "p_action_hash (service_row s h) = ''x''"
    by (simp_all add: service_row_def new_row_def service_draft_def sample_draft_def)
  have "stored_option service_option = service_option"
    by (simp add: stored_option_def stored_parameters_def service_option_def sample_option_def)
  then have "option_of_json (p_option (service_row s h)) = Inr service_option" using option_of_canon[OF v] o1 by simp
  moreover have "validate_scenario_action MEMORY_OOM SYNTHETIC_MARKER (ro_action_id service_option) = Inr ()"
    by (simp add: validate_scenario_action_def allowed_actions_def SCENARIO_KIND_ACTIONS_def service_option_def sample_option_def)
  moreover have "digest_of sample_env r sc k opt = ''x''" for r sc k opt
    by (simp add: digest_of_def action_hash_def sample_env_def)
  ultimately show ?thesis by (simp add: checked_option_def o1)
qed

lemma sample_now: "fst (se_now sample_env n) = sample_time 5 0" "snd (se_now sample_env n) = Suc n"
  by (simp_all add: sample_env_def)

lemma fixed_four: "\<exists>rest. fixed 4 n = digit_char (n div 10 div 10 div 10 mod 10) # rest"
proof -
  have "(4::nat) = Suc (Suc (Suc (Suc 0)))" by simp
  then show ?thesis by (simp only: fixed.simps) simp
qed

lemma sample_before: "isoformat (sample_time 5 0) < ''7''"
proof -
  obtain rest where "fixed 4 2024 = digit_char 2 # rest" using fixed_four[of 2024] by auto
  then have "\<exists>rest. isoformat (sample_time 5 0) = digit_char 2 # rest" by (simp add: isoformat_def sample_time_def)
  moreover have "digit_char 2 < CHR ''7''" by (simp add: digit_char_def less_char_def)
  ultimately show ?thesis by auto
qed


theorem executed_is_approved_witness:
  "execute (sample_env\<lparr>se_execute := broken_execute\<rparr>) ''p1'' ''u'' (service_proposed, 0) =
   execute sample_env ''p1'' ''u'' (service_proposed, 0)"
  by (rule executed_is_approved)
    (auto simp: find_proposal_def service_tables service_row_def new_row_def service_draft_def sample_draft_def)

definition sample_event :: event_request where
  "sample_event = \<lparr>ev_idempotency_key = ''k1'', ev_source = LOCAL_SIMULATION,
     ev_observed_at = \<lparr>local_time = sample_time 1 0, utcoffset = Some 0\<rparr>, ev_event_type = ''incident.detected'',
     ev_payload = \<lparr>pl_scenario = MEMORY_OOM, pl_summary = None, pl_log_lines = [], pl_context = []\<rparr>,
     ev_trace_id = None\<rparr>"

theorem start_event_settles_witness:
  "list_all (\<lambda>r. r_state r \<in> {PROPOSED, FAILED}) (runs (fst (snd (start_event sample_env sample_event ''u'' (empty_db, 0)))))"
proof -
  obtain res d' w' where s: "start_event sample_env sample_event ''u'' (empty_db, 0) = (res, (d', w'))"
    by (cases "start_event sample_env sample_event ''u'' (empty_db, 0)") auto
  have "reachable empty_db" by (simp add: reachable_def)
  from start_event_settles[OF this s] have "\<forall>r \<in> set (runs d'). r_state r \<in> {PROPOSED, FAILED}"
    by (auto simp: empty_db_def)
  then show ?thesis unfolding s fst_conv snd_conv list_all_iff .
qed

theorem service_refines_store_witness:
  "store_step\<^sup>*\<^sup>* service_approved (fst (snd (execute sample_env ''p1'' ''u'' (service_approved, 0))))"
proof -
  have "(service_step sample_env)\<^sup>*\<^sup>* (service_approved, 0) (snd (execute sample_env ''p1'' ''u'' (service_approved, 0)))"
    by (intro r_into_rtranclp service_step.executed)
  then show ?thesis using service_refines_store[OF service_reachable(2)] by (metis prod.collapse)
qed

theorem tampered_proposal_refused_witness:
  "\<exists>e. execute (sample_env\<lparr>se_sha := \<lambda>_. ''y''\<rparr>) ''p1'' ''u'' (service_approved, 0) = (Inl e, (service_approved, 0))"
proof -
  have p: "find_proposal ''p1'' service_approved = Some (service_row P_APPROVED (Some ''x''))"
    by (simp add: find_proposal_def service_tables service_row_def new_row_def service_draft_def sample_draft_def)
  have "p_action_hash (service_row P_APPROVED (Some ''x'')) = ''x''"
    by (simp add: service_row_def new_row_def service_draft_def sample_draft_def)
  with tampered_proposal_refused[OF p, of "sample_env\<lparr>se_sha := \<lambda>_. ''y''\<rparr>" undefined "''u''" 0]
  show ?thesis by (auto simp: digest_of_def action_hash_def sample_env_def)
qed

text \<open>The service's own draft for the sample assessment, swept after its deadline.\<close>

definition drafted_option :: remediation_option where
  "drafted_option = (case build_option MEMORY_OOM SYNTHETIC_MARKER sample_assessment None of Inr opt \<Rightarrow> opt | Inl _ \<Rightarrow> service_option)"

definition drafted :: "(exn + unit) \<times> db" where
  "drafted = create_proposal_and_transition
     (draft_proposal sample_env ''p1'' 1 MEMORY_OOM SYNTHETIC_MARKER sample_assessment drafted_option (sample_time 30 0) (sample_time 0 0))
     ''r1'' P_PROPOSED ''3'' ''t'' ''u'' 5 sample_assessed"

theorem proposal_reads_back_witness:
  "\<exists>p. find_proposal ''p1'' (snd (expire_due ''9'' ''u'' (snd drafted))) = Some p \<and>
     map_sum id pv_assessment (view_proposal p) = Inr sample_assessment \<and>
     map_sum id pv_expires_at (view_proposal p) = Inr (sample_time 30 0) \<and>
     checked_option sample_env p = Inr (stored_option drafted_option)"
proof -
  have a: "valid_assessment sample_assessment"
    by (simp add: sample_assessment_def valid_assessment_def bounded_text_def unit_interval_def)
  have "is_ok (build_option MEMORY_OOM SYNTHETIC_MARKER sample_assessment None)"
    by (simp add: build_option_def ALLOWED_ACTIONS_def sample_assessment_def validate_scenario_action_def allowed_actions_def
        SCENARIO_KIND_ACTIONS_def target_id_bounded_def check_option_def valid_option_def unit_interval_def
        parameters_must_be_bounded_def plain_action_def is_ok_iff)
  then have o: "build_option MEMORY_OOM SYNTHETIC_MARKER sample_assessment None = Inr drafted_option"
    by (auto simp: is_ok_iff drafted_option_def)
  have "fst drafted = Inr ()"
    by (simp add: drafted_def sample_assessed_tables store_simps sample_simps draft_proposal_def
        option_json_action[unfolded option_action_id_def])
  then have c: "drafted = (Inr (), snd drafted)" by (simp add: prod_eq_iff)
  have "store_step\<^sup>*\<^sup>* (snd drafted) (snd (expire_due ''9'' ''u'' (snd drafted)))"
    by (intro r_into_rtranclp store_step_snd)
  from proposal_reads_back[OF sample_reachable(2) a o _ thirty_seconds c[unfolded drafted_def] this[unfolded drafted_def]]
  show ?thesis unfolding drafted_def by (fastforce simp: sample_time_valid)
qed

theorem resubmission_idempotent_witness:
  "\<exists>w'. start_event sample_env sample_event ''u'' (service_approved, 0) =
     (Inl (ConflictError ''idempotency key belongs to a different normalized event''), (service_approved, w'))"
proof -
  have e: "sanitize_event sample_event = Inr sample_event"
    by (simp add: sanitize_event_def sample_event_def valid_payload_def)
  have k: "select_one r_key (ev_idempotency_key sample_event) (runs service_approved) = Some (sample_run_in APPROVED ''4'')"
    by (simp add: service_tables sample_event_def sample_simps)
  have "sample_env\<lparr>se_collect := se_collect sample_env, se_analyze := se_analyze sample_env\<rparr> = sample_env" by simp
  moreover have "r_payload_hash (sample_run_in APPROVED ''4'') \<noteq> se_sha sample_env s" for s
    by (simp add: sample_simps sample_env_def)
  ultimately show ?thesis
    using resubmission_idempotent[OF e k, where env = sample_env and collect = "se_collect sample_env"
        and analyze = "se_analyze sample_env" and actor = "''u''" and w = 0] by simp
qed

end
