(* ===== verification/Registry.thy ===== *)
theory Registry
  imports Schemas
begin

text \<open>
  The reviewed registry that \<open>runbook_learning.py\<close> and \<open>capability_learning.py\<close> both implement:
  candidates submitted, revised and reviewed, and versions promoted after review and evaluation.
  The two classes are the same code over different proposal types; what differs, the word in the
  messages, the digest and the identifier of a proposal, is the record \<open>registry_kind\<close>. Stored
  proposals read back as they were written; the digest is compared on every read. Statements run
  one after the other, as the registry's lock orders them.
\<close>

datatype candidate_state = C_PENDING_REVIEW | C_SUPERSEDED | C_REJECTED | C_EVALUATION_FAILED | C_PROMOTED

datatype review_decision = R_APPROVE | R_REJECT

record ('p, 'e) candidate_row =
  cd_id :: string
  cd_state :: candidate_state
  cd_proposal :: 'p
  cd_digest :: string
  cd_created_at :: string
  cd_reviewed_at :: "string option"
  cd_reviewer :: "string option"
  cd_note :: "string option"
  cd_evaluation :: "'e option"
  cd_supersedes :: "string option"

record ('p, 'e) promoted_row =
  pr_id :: string
  pr_version :: nat
  pr_proposal :: 'p
  pr_source :: string
  pr_digest :: string
  pr_promoted_at :: string
  pr_promoted_by :: string
  pr_evaluation :: 'e

record ('p, 'e) registry =
  candidates :: "('p, 'e) candidate_row list"
  promoted :: "('p, 'e) promoted_row list"

definition empty_registry :: "('p, 'e) registry" where
  "empty_registry = \<lparr>candidates = [], promoted = []\<rparr>"

text \<open>
  \<open>_initialize\<close>: a file without the tables gets empty ones, and a candidate table of an earlier version the column
  for the superseded candidate, NULL in every row.
\<close>

definition initialize_registry :: "(string list \<times> ('p, 'e) registry) option \<Rightarrow> ('p, 'e) registry" where
  "initialize_registry stored =
     (case stored of
        None \<Rightarrow> empty_registry
      | Some (columns, g) \<Rightarrow>
          if ''supersedes_candidate_id'' \<in> set columns then g
          else g\<lparr>candidates := map (\<lambda>c. c\<lparr>cd_supersedes := None\<rparr>) (candidates g)\<rparr>)"

record ('p, 'e) registry_kind =
  rk_word :: string
  rk_digest :: "'p \<Rightarrow> string"
  rk_ident :: "'p \<Rightarrow> string"
  rk_passed :: "'e \<Rightarrow> bool"

definition reg_transaction ::
    "(('p, 'e) registry \<Rightarrow> exn + ('a \<times> ('p, 'e) registry)) \<Rightarrow> ('p, 'e) registry \<Rightarrow> (exn + 'a) \<times> ('p, 'e) registry"
where
  "reg_transaction body g = (case body g of Inl e \<Rightarrow> (Inl e, g) | Inr (x, g') \<Rightarrow> (Inr x, g'))"

section \<open>Candidates\<close>

definition new_candidate ::
    "('p, 'e) registry_kind \<Rightarrow> string \<Rightarrow> 'p \<Rightarrow> string \<Rightarrow> string option \<Rightarrow> ('p, 'e) candidate_row" where
  "new_candidate k i proposal now supersedes =
     \<lparr>cd_id = i, cd_state = C_PENDING_REVIEW, cd_proposal = proposal, cd_digest = rk_digest k proposal,
      cd_created_at = now, cd_reviewed_at = None, cd_reviewer = None, cd_note = None,
      cd_evaluation = None, cd_supersedes = supersedes\<rparr>"

definition insert_candidate ::
    "('p, 'e) candidate_row \<Rightarrow> ('p, 'e) registry \<Rightarrow> exn + ('p, 'e) registry" where
  "insert_candidate c g =
     (if select_one cd_id (cd_id c) (candidates g) \<noteq> None then Inl IntegrityError
      else Inr (g\<lparr>candidates := candidates g @ [c]\<rparr>))"

text \<open>\<open>submit\<close>; the identifier is the fresh \<open>uuid4\<close>.\<close>

definition submit ::
    "('p, 'e) registry_kind \<Rightarrow> string \<Rightarrow> 'p \<Rightarrow> string \<Rightarrow> ('p, 'e) registry \<Rightarrow> (exn + ('p, 'e) candidate_row) \<times> ('p, 'e) registry"
where
  "submit k i proposal now =
     reg_transaction (\<lambda>g. bindE (insert_candidate (new_candidate k i proposal now None) g)
       (\<lambda>g'. Inr (new_candidate k i proposal now None, g')))"

definition get_candidate ::
    "('p, 'e) registry_kind \<Rightarrow> string \<Rightarrow> ('p, 'e) registry \<Rightarrow> exn + ('p, 'e) candidate_row" where
  "get_candidate k i g =
     (case select_one cd_id i (candidates g) of
        None \<Rightarrow> Inl (KeyError (rk_word k @ '' candidate not found''))
      | Some c \<Rightarrow>
          if rk_digest k (cd_proposal c) \<noteq> cd_digest c
          then Inl (ValueError (''stored '' @ rk_word k @ '' candidate digest is invalid''))
          else Inr c)"

definition check_reviewer :: "string \<Rightarrow> string option \<Rightarrow> exn + unit" where
  "check_reviewer actor note =
     (if actor = [] \<or> length actor > 128
      then Inl (ValueError ''review actor must be a bounded non-empty identifier'')
      else case note of
        Some n \<Rightarrow> if length n > 1000 then Inl (ValueError ''review note exceeds 1000 characters'') else Inr ()
      | None \<Rightarrow> Inr ())"

definition pending_at :: "string \<Rightarrow> ('p, 'e) candidate_row \<Rightarrow> bool" where
  "pending_at i c \<longleftrightarrow> cd_id c = i \<and> cd_state c = C_PENDING_REVIEW"

text \<open>The columns the update sets: a revision or a rejection leaves the evaluation as it was.\<close>

definition settled :: "candidate_state \<Rightarrow> string \<Rightarrow> string \<Rightarrow> string option \<Rightarrow> 'e option \<Rightarrow> ('p, 'e) candidate_row \<Rightarrow> ('p, 'e) candidate_row" where
  "settled state now actor note evaluation c =
     c\<lparr>cd_state := state, cd_reviewed_at := Some now, cd_reviewer := Some actor, cd_note := note,
       cd_evaluation := (case evaluation of None \<Rightarrow> cd_evaluation c | Some e \<Rightarrow> Some e)\<rparr>"

text \<open>The guarded \<open>UPDATE ... WHERE candidate_id = ? AND state = 'pending_review'\<close>.\<close>

definition settle_candidate ::
    "('p, 'e) registry_kind \<Rightarrow> string \<Rightarrow> string \<Rightarrow> candidate_state \<Rightarrow> string \<Rightarrow> string \<Rightarrow> string option \<Rightarrow> 'e option
       \<Rightarrow> ('p, 'e) registry \<Rightarrow> exn + ('p, 'e) registry"
where
  "settle_candidate k verb i state now actor note evaluation g =
     (if count_where (pending_at i) (candidates g) \<noteq> 1
      then Inl (ValueError (rk_word k @ '' candidate '' @ verb @ '' lost a concurrent decision''))
      else Inr (g\<lparr>candidates := update_where (pending_at i)
        (settled state now actor note evaluation)
        (candidates g)\<rparr>))"

definition revise_body ::
    "('p, 'e) registry_kind \<Rightarrow> string \<Rightarrow> string \<Rightarrow> 'p \<Rightarrow> string \<Rightarrow> string option \<Rightarrow> string \<Rightarrow> ('p, 'e) registry
       \<Rightarrow> exn + (('p, 'e) candidate_row \<times> ('p, 'e) registry)"
where
  "revise_body k fresh i revised actor note now g =
     bindE (check_reviewer actor note) (\<lambda>_.
     bindE (get_candidate k i g) (\<lambda>c.
     if cd_state c \<noteq> C_PENDING_REVIEW
     then Inl (ValueError (''only pending '' @ rk_word k @ '' candidates may be revised''))
     else
       bindE (settle_candidate k ''revision'' i C_SUPERSEDED now actor note None g) (\<lambda>g1.
       bindE (insert_candidate (new_candidate k fresh revised now (Some i)) g1) (\<lambda>g2.
       Inr (new_candidate k fresh revised now (Some i), g2)))))"

definition revise ::
    "('p, 'e) registry_kind \<Rightarrow> string \<Rightarrow> string \<Rightarrow> 'p \<Rightarrow> string \<Rightarrow> string option \<Rightarrow> string \<Rightarrow> ('p, 'e) registry
       \<Rightarrow> (exn + ('p, 'e) candidate_row) \<times> ('p, 'e) registry"
where
  "revise k fresh i revised actor note now = reg_transaction (revise_body k fresh i revised actor note now)"

section \<open>Review and promotion\<close>

text \<open>\<open>SELECT COALESCE(MAX(version), 0) + 1\<close>.\<close>

definition next_version :: "string \<Rightarrow> ('p, 'e) registry \<Rightarrow> nat" where
  "next_version i g = Suc (foldr max (map pr_version (filter (\<lambda>r. pr_id r = i) (promoted g))) 0)"

definition insert_promoted ::
    "('p, 'e) promoted_row \<Rightarrow> ('p, 'e) registry \<Rightarrow> exn + ('p, 'e) registry" where
  "insert_promoted r g =
     (if list_ex (\<lambda>q. pr_source q = pr_source r \<or> (pr_id q = pr_id r \<and> pr_version q = pr_version r)) (promoted g)
      then Inl IntegrityError
      else Inr (g\<lparr>promoted := promoted g @ [r]\<rparr>))"

datatype ('p, 'e) reviewed = Reviewed "('p, 'e) candidate_row" | Promoted "('p, 'e) promoted_row"

definition review_body ::
    "('p, 'e) registry_kind \<Rightarrow> string \<Rightarrow> review_decision \<Rightarrow> string \<Rightarrow> ('p \<Rightarrow> 'e) \<Rightarrow> string option \<Rightarrow> string
       \<Rightarrow> ('p, 'e) registry \<Rightarrow> exn + (('p, 'e) reviewed \<times> ('p, 'e) registry)"
where
  "review_body k i dec actor evaluate note now g =
     bindE (check_reviewer actor note) (\<lambda>_.
     bindE (get_candidate k i g) (\<lambda>c.
     if cd_state c \<noteq> C_PENDING_REVIEW
     then Inl (ValueError (''only pending '' @ rk_word k @ '' candidates may be reviewed''))
     else if dec = R_REJECT then
       bindE (settle_candidate k ''review'' i C_REJECTED now actor note None g) (\<lambda>g1.
       bindE (get_candidate k i g1) (\<lambda>c'. Inr (Reviewed c', g1)))
     else
       let evaluation = evaluate (cd_proposal c) in
       if \<not> rk_passed k evaluation then
         bindE (settle_candidate k ''review'' i C_EVALUATION_FAILED now actor note (Some evaluation) g) (\<lambda>g1.
         bindE (get_candidate k i g1) (\<lambda>c'. Inr (Reviewed c', g1)))
       else
         let r = \<lparr>pr_id = rk_ident k (cd_proposal c), pr_version = next_version (rk_ident k (cd_proposal c)) g,
                  pr_proposal = cd_proposal c, pr_source = i, pr_digest = cd_digest c,
                  pr_promoted_at = now, pr_promoted_by = actor, pr_evaluation = evaluation\<rparr> in
         bindE (settle_candidate k ''review'' i C_PROMOTED now actor note (Some evaluation) g) (\<lambda>g1.
         bindE (insert_promoted r g1) (\<lambda>g2. Inr (Promoted r, g2)))))"

definition review ::
    "('p, 'e) registry_kind \<Rightarrow> string \<Rightarrow> review_decision \<Rightarrow> string \<Rightarrow> ('p \<Rightarrow> 'e) \<Rightarrow> string option \<Rightarrow> string
       \<Rightarrow> ('p, 'e) registry \<Rightarrow> (exn + ('p, 'e) reviewed) \<times> ('p, 'e) registry"
where
  "review k i dec actor evaluate note now = reg_transaction (review_body k i dec actor evaluate note now)"

section \<open>Reading promoted versions\<close>

definition check_promoted ::
    "('p, 'e) registry_kind \<Rightarrow> ('p, 'e) promoted_row \<Rightarrow> exn + ('p, 'e) promoted_row" where
  "check_promoted k r =
     (if rk_digest k (pr_proposal r) \<noteq> pr_digest r
      then Inl (ValueError (''stored promoted '' @ rk_word k @ '' digest is invalid''))
      else Inr r)"

definition get_promoted ::
    "('p, 'e) registry_kind \<Rightarrow> string \<Rightarrow> nat \<Rightarrow> ('p, 'e) registry \<Rightarrow> exn + ('p, 'e) promoted_row" where
  "get_promoted k i v g =
     (case find (\<lambda>r. pr_id r = i \<and> pr_version r = v) (promoted g) of
        None \<Rightarrow> Inl (KeyError (''promoted '' @ rk_word k @ '' not found''))
      | Some r \<Rightarrow> check_promoted k r)"

text \<open>The join with the greatest version of every identifier, newest promotion first; rows promoted at
  the same instant, whose order SQL leaves open, stay in the order of the table.\<close>

definition is_latest :: "('p, 'e) registry \<Rightarrow> ('p, 'e) promoted_row \<Rightarrow> bool" where
  "is_latest g r \<longleftrightarrow> list_all (\<lambda>q. pr_id q = pr_id r \<longrightarrow> pr_version q \<le> pr_version r) (promoted g)"

definition latest_rows :: "('p, 'e) registry \<Rightarrow> ('p, 'e) promoted_row list" where
  "latest_rows g = rev (sort_key pr_promoted_at (rev (filter (is_latest g) (promoted g))))"

fun collect_matches ::
    "('p, 'e) registry_kind \<Rightarrow> ('p \<Rightarrow> bool) \<Rightarrow> ('p, 'e) promoted_row list \<Rightarrow> exn + ('p, 'e) promoted_row list"
where
  "collect_matches k applies [] = Inr []"
| "collect_matches k applies (r # rs) =
     bindE (check_promoted k r) (\<lambda>r'.
     bindE (collect_matches k applies rs) (\<lambda>ms.
     Inr (if applies (pr_proposal r') then r' # ms else ms)))"

definition find_applicable ::
    "('p, 'e) registry_kind \<Rightarrow> ('p \<Rightarrow> bool) \<Rightarrow> ('p, 'e) registry \<Rightarrow> exn + ('p, 'e) promoted_row list" where
  "find_applicable k applies g = collect_matches k applies (latest_rows g)"

section \<open>The invariant\<close>

definition row_of :: "('p, 'e) registry_kind \<Rightarrow> ('p, 'e) registry \<Rightarrow> ('p, 'e) promoted_row \<Rightarrow> bool" where
  "row_of k g r \<longleftrightarrow>
     (\<exists>c \<in> set (candidates g). cd_id c = pr_source r \<and> cd_state c = C_PROMOTED \<and>
        cd_proposal c = pr_proposal r \<and> cd_digest c = pr_digest r \<and>
        cd_reviewer c = Some (pr_promoted_by r) \<and> cd_evaluation c = Some (pr_evaluation r)) \<and>
     pr_id r = rk_ident k (pr_proposal r) \<and> pr_digest r = rk_digest k (pr_proposal r)"

definition reg_inv :: "('p, 'e) registry_kind \<Rightarrow> ('p \<Rightarrow> 'e) \<Rightarrow> ('p, 'e) registry \<Rightarrow> bool" where
  "reg_inv k evaluate g \<longleftrightarrow>
     distinct (map cd_id (candidates g)) \<and>
     (\<forall>c \<in> set (candidates g). cd_digest c = rk_digest k (cd_proposal c)) \<and>
     (\<forall>c \<in> set (candidates g). cd_state c = C_PROMOTED \<longrightarrow> cd_id c \<in> pr_source ` set (promoted g)) \<and>
     distinct (map pr_source (promoted g)) \<and>
     (\<forall>r \<in> set (promoted g). row_of k g r \<and> pr_evaluation r = evaluate (pr_proposal r) \<and>
        rk_passed k (pr_evaluation r)) \<and>
     (\<forall>i. map pr_version (filter (\<lambda>r. pr_id r = i) (promoted g)) =
        [1..<Suc (length (filter (\<lambda>r. pr_id r = i) (promoted g)))])"

lemma reg_inv_empty: "reg_inv k evaluate empty_registry"
  by (simp add: reg_inv_def empty_registry_def)

lemma foldr_max_upt: "foldr max [1..<Suc n] 0 = n"
proof -
  have gen: "foldr max xs (m::nat) = max (foldr max xs 0) m" for xs m
    by (induction xs) auto
  show ?thesis
  proof (induction n)
    case (Suc n)
    have "foldr max [1..<Suc (Suc n)] 0 = foldr max [1..<Suc n] (Suc n)" by simp
    also have "\<dots> = Suc n" unfolding gen[of "[1..<Suc n]" "Suc n"] Suc.IH by simp
    finally show ?case .
  qed simp
qed

lemma next_version_eq:
  assumes "reg_inv k evaluate g"
  shows "next_version i g = Suc (length (filter (\<lambda>r. pr_id r = i) (promoted g)))"
proof -
  have "map pr_version (filter (\<lambda>r. pr_id r = i) (promoted g)) =
      [1..<Suc (length (filter (\<lambda>r. pr_id r = i) (promoted g)))]"
    using assms by (simp add: reg_inv_def)
  then show ?thesis unfolding next_version_def by (simp only: foldr_max_upt)
qed

lemma get_candidate_inv:
  assumes "reg_inv k evaluate g"
  shows "get_candidate k i g =
    (case select_one cd_id i (candidates g) of
       None \<Rightarrow> Inl (KeyError (rk_word k @ '' candidate not found'')) | Some c \<Rightarrow> Inr c)"
  using assms by (auto simp: get_candidate_def reg_inv_def split: option.split)

lemma settled_fields [simp]:
  "cd_id (settled s now actor note ev c) = cd_id c" "cd_state (settled s now actor note ev c) = s"
  "cd_proposal (settled s now actor note ev c) = cd_proposal c"
  "cd_digest (settled s now actor note ev c) = cd_digest c"
  "cd_reviewer (settled s now actor note ev c) = Some actor"
  "cd_evaluation (settled s now actor note (Some e) c) = Some e"
  by (simp_all add: settled_def)

definition replace_candidate ::
    "('p, 'e) candidate_row \<Rightarrow> ('p, 'e) candidate_row \<Rightarrow> ('p, 'e) registry \<Rightarrow> ('p, 'e) registry" where
  "replace_candidate c c' g = g\<lparr>candidates := map (\<lambda>x. if x = c then c' else x) (candidates g)\<rparr>"

lemma settle_candidate_eq:
  assumes d: "distinct (map cd_id (candidates g))" and c: "select_one cd_id i (candidates g) = Some c"
    and p: "cd_state c = C_PENDING_REVIEW"
  shows "settle_candidate k verb i s now actor note ev g = Inr (replace_candidate c (settled s now actor note ev c) g)"
proof -
  have ci: "c \<in> set (candidates g)" "cd_id c = i" using select_one_SomeD[OF c] by simp_all
  have pend: "pending_at i = (\<lambda>r. cd_id r = i \<and> cd_state r = C_PENDING_REVIEW)"
    by (rule ext) (rule pending_at_def)
  have "count_where (\<lambda>r. cd_id r = i \<and> cd_state r = C_PENDING_REVIEW) (candidates g) =
      (case select_one cd_id i (candidates g) of None \<Rightarrow> 0
       | Some r \<Rightarrow> if cd_state r = C_PENDING_REVIEW then 1 else 0)"
    by (rule count_where_key[OF d])
  then have one: "count_where (pending_at i) (candidates g) = 1"
    unfolding pend c option.case p by (simp only: if_True simp_thms)
  have "pending_at i x \<longleftrightarrow> x = c" if "x \<in> set (candidates g)" for x
    unfolding pending_at_def using select_one_distinct[OF d that] c ci(2) p by (metis option.inject)
  then have "update_where (pending_at i) (settled s now actor note ev) (candidates g) =
      map (\<lambda>x. if x = c then settled s now actor note ev c else x) (candidates g)"
    unfolding update_where_def by (intro map_cong) auto
  then show ?thesis
    unfolding settle_candidate_def replace_candidate_def one by simp
qed

section \<open>Every operation keeps the invariant\<close>

lemma row_of_mono:
  assumes "row_of k g r"
    and "\<And>c. c \<in> set (candidates g) \<Longrightarrow> cd_state c = C_PROMOTED \<Longrightarrow> c \<in> set (candidates g')"
  shows "row_of k g' r"
  using assms unfolding row_of_def by blast

lemma reg_inv_candidates:
  assumes inv: "reg_inv k evaluate g" and p: "promoted g' = promoted g"
    and d: "distinct (map cd_id (candidates g'))"
    and dig: "\<forall>c \<in> set (candidates g'). cd_digest c = rk_digest k (cd_proposal c)"
    and same: "\<And>c. cd_state c = C_PROMOTED \<Longrightarrow> c \<in> set (candidates g') \<longleftrightarrow> c \<in> set (candidates g)"
  shows "reg_inv k evaluate g'"
proof -
  have "row_of k g' r" if "r \<in> set (promoted g)" for r
    using inv that same by (intro row_of_mono[of k g r g']) (auto simp: reg_inv_def)
  with assms show ?thesis by (auto simp: reg_inv_def)
qed

lemma new_candidate_fields [simp]:
  "cd_id (new_candidate k i p now s) = i" "cd_state (new_candidate k i p now s) = C_PENDING_REVIEW"
  "cd_digest (new_candidate k i p now s) = rk_digest k p" "cd_proposal (new_candidate k i p now s) = p"
  by (simp_all add: new_candidate_def)

lemma insert_candidate_inv:
  assumes inv: "reg_inv k evaluate g" and ins: "insert_candidate (new_candidate k i p now s) g = Inr g'"
  shows "reg_inv k evaluate g'"
proof -
  have fresh: "i \<notin> cd_id ` set (candidates g)" and g': "g' = g\<lparr>candidates := candidates g @ [new_candidate k i p now s]\<rparr>"
    using ins by (auto simp: insert_candidate_def select_one_None_iff split: if_splits)
  show ?thesis
  proof (rule reg_inv_candidates[OF inv])
    show "distinct (map cd_id (candidates g'))" using inv fresh by (simp add: g' reg_inv_def)
  qed (use inv in \<open>auto simp: g' reg_inv_def\<close>)
qed

lemma replace_candidate_set:
  "c \<in> set (candidates g) \<Longrightarrow>
   x \<in> set (candidates (replace_candidate c c' g)) \<longleftrightarrow> x = c' \<or> (x \<in> set (candidates g) \<and> x \<noteq> c)"
  by (auto simp: replace_candidate_def image_iff)

lemma replace_candidate_ids:
  "cd_id c' = cd_id c \<Longrightarrow> map cd_id (candidates (replace_candidate c c' g)) = map cd_id (candidates g)"
  by (auto simp: replace_candidate_def)

lemma replace_candidate_promoted [simp]: "promoted (replace_candidate c c' g) = promoted g"
  by (simp add: replace_candidate_def)

lemma replace_candidate_inv:
  assumes inv: "reg_inv k evaluate g" and c: "c \<in> set (candidates g)" "cd_state c = C_PENDING_REVIEW"
    and s: "s \<noteq> C_PROMOTED"
  shows "reg_inv k evaluate (replace_candidate c (settled s now actor note e c) g)"
proof (rule reg_inv_candidates[OF inv])
  show "distinct (map cd_id (candidates (replace_candidate c (settled s now actor note e c) g)))"
    unfolding replace_candidate_ids[OF settled_fields(1)] using inv by (simp add: reg_inv_def)
  show "\<forall>x \<in> set (candidates (replace_candidate c (settled s now actor note e c) g)).
      cd_digest x = rk_digest k (cd_proposal x)"
    using inv c by (auto simp: replace_candidate_set reg_inv_def)
  show "x \<in> set (candidates (replace_candidate c (settled s now actor note e c) g)) \<longleftrightarrow> x \<in> set (candidates g)"
    if "cd_state x = C_PROMOTED" for x
    using that c s by (auto simp: replace_candidate_set)
qed simp

definition promoted_as ::
    "('p, 'e) registry_kind \<Rightarrow> ('p \<Rightarrow> 'e) \<Rightarrow> string \<Rightarrow> string \<Rightarrow> ('p, 'e) registry \<Rightarrow> ('p, 'e) candidate_row \<Rightarrow> ('p, 'e) promoted_row"
where
  "promoted_as k evaluate now actor g c =
     \<lparr>pr_id = rk_ident k (cd_proposal c), pr_version = next_version (rk_ident k (cd_proposal c)) g,
      pr_proposal = cd_proposal c, pr_source = cd_id c, pr_digest = cd_digest c,
      pr_promoted_at = now, pr_promoted_by = actor, pr_evaluation = evaluate (cd_proposal c)\<rparr>"

definition promote_candidate ::
    "('p, 'e) registry_kind \<Rightarrow> ('p \<Rightarrow> 'e) \<Rightarrow> string \<Rightarrow> string \<Rightarrow> string option \<Rightarrow> ('p, 'e) candidate_row \<Rightarrow> ('p, 'e) registry \<Rightarrow> ('p, 'e) registry"
where
  "promote_candidate k evaluate now actor note c g =
     (replace_candidate c (settled C_PROMOTED now actor note (Some (evaluate (cd_proposal c))) c) g)
       \<lparr>promoted := promoted g @ [promoted_as k evaluate now actor g c]\<rparr>"

lemma source_promoted:
  assumes "reg_inv k evaluate g" and "r \<in> set (promoted g)" and "c \<in> set (candidates g)" and "cd_id c = pr_source r"
  shows "cd_state c = C_PROMOTED"
proof -
  obtain d where d: "d \<in> set (candidates g)" "cd_id d = pr_source r" "cd_state d = C_PROMOTED"
    using assms(1,2) unfolding reg_inv_def row_of_def by blast
  have "distinct (map cd_id (candidates g))" using assms(1) by (simp add: reg_inv_def)
  with d assms(3,4) have "d = c" by (metis select_one_distinct option.inject)
  with d show ?thesis by simp
qed

lemma promote_candidate_inv:
  assumes inv: "reg_inv k evaluate g" and c: "c \<in> set (candidates g)" "cd_state c = C_PENDING_REVIEW"
    and pass: "rk_passed k (evaluate (cd_proposal c))"
  shows "reg_inv k evaluate (promote_candidate k evaluate now actor note c g)"
proof -
  let ?g = "promote_candidate k evaluate now actor note c g"
  let ?c = "settled C_PROMOTED now actor note (Some (evaluate (cd_proposal c))) c"
  let ?r = "promoted_as k evaluate now actor g c"
  have cs: "x \<in> set (candidates ?g) \<longleftrightarrow> x = ?c \<or> (x \<in> set (candidates g) \<and> x \<noteq> c)" for x
    using replace_candidate_set[OF c(1), of x ?c] by (simp add: promote_candidate_def)
  have ps: "promoted ?g = promoted g @ [?r]" by (simp add: promote_candidate_def)
  have ids: "map cd_id (candidates ?g) = map cd_id (candidates g)"
    using replace_candidate_ids[of ?c c g] by (simp add: promote_candidate_def)
  have 1: "distinct (map cd_id (candidates ?g))" using inv by (simp add: ids reg_inv_def)
  have 2: "\<forall>x \<in> set (candidates ?g). cd_digest x = rk_digest k (cd_proposal x)"
    using inv c by (auto simp: cs reg_inv_def)
  have 3: "\<forall>x \<in> set (candidates ?g). cd_state x = C_PROMOTED \<longrightarrow> cd_id x \<in> pr_source ` set (promoted ?g)"
    using inv by (auto simp: cs ps reg_inv_def promoted_as_def)
  have "cd_id c \<notin> pr_source ` set (promoted g)"
    using source_promoted[OF inv _ c(1)] c(2) by auto
  then have 4: "distinct (map pr_source (promoted ?g))"
    using inv by (simp add: ps reg_inv_def promoted_as_def)
  have old: "row_of k ?g r" if "r \<in> set (promoted g)" for r
    using inv that c(2) by (intro row_of_mono[of k g r ?g]) (auto simp: cs reg_inv_def)
  have new: "row_of k ?g ?r"
    using inv c(1) cs[of ?c] unfolding row_of_def by (auto simp: promoted_as_def reg_inv_def intro!: bexI[of _ ?c])
  have 5: "\<forall>r \<in> set (promoted ?g). row_of k ?g r \<and> pr_evaluation r = evaluate (pr_proposal r) \<and>
      rk_passed k (pr_evaluation r)"
    using inv old new pass by (auto simp: ps reg_inv_def promoted_as_def)
  have 6: "map pr_version (filter (\<lambda>r. pr_id r = i) (promoted ?g)) =
      [1..<Suc (length (filter (\<lambda>r. pr_id r = i) (promoted ?g)))]" for i
  proof -
    have "map pr_version (filter (\<lambda>r. pr_id r = i) (promoted g)) =
        [1..<Suc (length (filter (\<lambda>r. pr_id r = i) (promoted g)))]"
      using inv by (simp add: reg_inv_def)
    then show ?thesis by (simp add: ps promoted_as_def next_version_eq[OF inv])
  qed
  show ?thesis unfolding reg_inv_def using 1 2 3 4 5 6 by (intro conjI allI)
qed

section \<open>What each operation does to a registry that satisfies the invariant\<close>

lemma get_settled:
  assumes inv: "reg_inv k evaluate g" and c: "c \<in> set (candidates g)" "cd_state c = C_PENDING_REVIEW"
    and s: "s \<noteq> C_PROMOTED"
  shows "get_candidate k (cd_id c) (replace_candidate c (settled s now actor note e c) g) =
    Inr (settled s now actor note e c)"
proof -
  let ?g = "replace_candidate c (settled s now actor note e c) g" and ?c = "settled s now actor note e c"
  have inv': "reg_inv k evaluate ?g" by (rule replace_candidate_inv[OF inv c s])
  then have "distinct (map cd_id (candidates ?g))" by (simp add: reg_inv_def)
  moreover have "?c \<in> set (candidates ?g)" using replace_candidate_set[OF c(1)] by simp
  ultimately have "select_one cd_id (cd_id ?c) (candidates ?g) = Some ?c" by (rule select_one_distinct)
  then show ?thesis by (simp add: get_candidate_inv[OF inv'])
qed

lemma insert_promoted_fresh:
  assumes inv: "reg_inv k evaluate g" and c: "c \<in> set (candidates g)" "cd_state c = C_PENDING_REVIEW"
    and g1: "promoted g1 = promoted g"
  shows "insert_promoted (promoted_as k evaluate now actor g c) g1 =
    Inr (g1\<lparr>promoted := promoted g @ [promoted_as k evaluate now actor g c]\<rparr>)"
proof -
  let ?i = "rk_ident k (cd_proposal c)"
  have src: "pr_source q \<noteq> cd_id c" if "q \<in> set (promoted g)" for q
    using source_promoted[OF inv that c(1)] c(2) by auto
  have vers: "pr_version q \<noteq> next_version ?i g" if q: "q \<in> set (promoted g)" "pr_id q = ?i" for q
  proof -
    have "pr_version q \<in> set (map pr_version (filter (\<lambda>r. pr_id r = ?i) (promoted g)))" using q by auto
    also have "\<dots> = set [1..<Suc (length (filter (\<lambda>r. pr_id r = ?i) (promoted g)))]"
      using inv by (simp add: reg_inv_def)
    finally show ?thesis by (auto simp: next_version_eq[OF inv])
  qed
  show ?thesis
    using src vers by (auto simp: insert_promoted_def promoted_as_def list_ex_iff g1)
qed

lemma review_of_pending:
  assumes inv: "reg_inv k evaluate g" and ok: "check_reviewer actor note = Inr ()"
    and c: "select_one cd_id i (candidates g) = Some c" "cd_state c = C_PENDING_REVIEW"
  shows "review k i dec actor evaluate note now g =
    (if dec = R_REJECT then
       (Inr (Reviewed (settled C_REJECTED now actor note None c)),
        replace_candidate c (settled C_REJECTED now actor note None c) g)
     else if \<not> rk_passed k (evaluate (cd_proposal c)) then
       (Inr (Reviewed (settled C_EVALUATION_FAILED now actor note (Some (evaluate (cd_proposal c))) c)),
        replace_candidate c (settled C_EVALUATION_FAILED now actor note (Some (evaluate (cd_proposal c))) c) g)
     else (Inr (Promoted (promoted_as k evaluate now actor g c)), promote_candidate k evaluate now actor note c g))"
proof -
  have d: "distinct (map cd_id (candidates g))" using inv by (simp add: reg_inv_def)
  have ci: "c \<in> set (candidates g)" "cd_id c = i" using select_one_SomeD[OF c(1)] by simp_all
  have get: "get_candidate k i g = Inr c" by (simp add: get_candidate_inv[OF inv] c(1))
  note st = settle_candidate_eq[OF d c(1) c(2)]
  note rd = get_settled[OF inv ci(1) c(2), unfolded ci(2)]
  have ins: "insert_promoted (promoted_as k evaluate now actor g c) g1 =
      Inr (g1\<lparr>promoted := promoted g @ [promoted_as k evaluate now actor g c]\<rparr>)"
    if "promoted g1 = promoted g" for g1
    by (rule insert_promoted_fresh[OF inv ci(1) c(2) that])
  have row: "\<lparr>pr_id = rk_ident k (cd_proposal c), pr_version = next_version (rk_ident k (cd_proposal c)) g,
      pr_proposal = cd_proposal c, pr_source = i, pr_digest = cd_digest c, pr_promoted_at = now,
      pr_promoted_by = actor, pr_evaluation = evaluate (cd_proposal c)\<rparr> = promoted_as k evaluate now actor g c"
    by (simp add: promoted_as_def ci(2))
  show ?thesis
    unfolding review_def reg_transaction_def review_body_def ok get bindE_simps st Let_def row
    by (simp add: c(2) rd ins promote_candidate_def)
qed

lemma review_refused:
  assumes inv: "reg_inv k evaluate g"
    and "check_reviewer actor note \<noteq> Inr () \<or> select_one cd_id i (candidates g) = None \<or>
      (\<exists>c. select_one cd_id i (candidates g) = Some c \<and> cd_state c \<noteq> C_PENDING_REVIEW)"
  obtains e where "review k i dec actor evaluate note now g = (Inl e, g)"
proof (cases "check_reviewer actor note")
  case (Inl e)
  with that show ?thesis by (simp add: review_def reg_transaction_def review_body_def)
next
  case (Inr u)
  with assms that show ?thesis
    by (auto simp: review_def reg_transaction_def review_body_def get_candidate_inv[OF inv])
qed

lemma revise_of_pending:
  assumes inv: "reg_inv k evaluate g" and ok: "check_reviewer actor note = Inr ()"
    and c: "select_one cd_id i (candidates g) = Some c" "cd_state c = C_PENDING_REVIEW"
    and fresh: "fresh \<notin> cd_id ` set (candidates g)"
  shows "revise k fresh i p actor note now g =
    (Inr (new_candidate k fresh p now (Some i)),
     (replace_candidate c (settled C_SUPERSEDED now actor note None c) g)
       \<lparr>candidates := candidates (replace_candidate c (settled C_SUPERSEDED now actor note None c) g) @
          [new_candidate k fresh p now (Some i)]\<rparr>)"
proof -
  let ?g = "replace_candidate c (settled C_SUPERSEDED now actor note None c) g"
  have d: "distinct (map cd_id (candidates g))" using inv by (simp add: reg_inv_def)
  have get: "get_candidate k i g = Inr c" by (simp add: get_candidate_inv[OF inv] c(1))
  have "cd_id ` set (candidates ?g) = cd_id ` set (candidates g)"
    using replace_candidate_ids[OF settled_fields(1)] by (metis list.set_map)
  then have none: "select_one cd_id fresh (candidates ?g) = None"
    using fresh by (simp add: select_one_None_iff)
  show ?thesis
    unfolding revise_def reg_transaction_def revise_body_def ok get bindE_simps
      settle_candidate_eq[OF d c(1) c(2)]
    by (simp add: c(2) insert_candidate_def none)
qed

lemma submit_fresh:
  assumes "i \<notin> cd_id ` set (candidates g)"
  shows "submit k i p now g = (Inr (new_candidate k i p now None), g\<lparr>candidates := candidates g @ [new_candidate k i p now None]\<rparr>)"
proof -
  have "select_one cd_id i (candidates g) = None" using assms by (simp add: select_one_None_iff)
  then show ?thesis by (simp add: submit_def reg_transaction_def insert_candidate_def)
qed

section \<open>Histories of a registry\<close>

inductive registry_step ::
    "('p, 'e) registry_kind \<Rightarrow> ('p \<Rightarrow> 'e) \<Rightarrow> ('p, 'e) registry \<Rightarrow> ('p, 'e) registry \<Rightarrow> bool"
  for k evaluate where
  submitted: "registry_step k evaluate g (snd (submit k i p now g))"
| revised: "registry_step k evaluate g (snd (revise k fresh i p actor note now g))"
| reviewed: "registry_step k evaluate g (snd (review k i dec actor evaluate note now g))"

definition registry_history ::
    "('p, 'e) registry_kind \<Rightarrow> ('p \<Rightarrow> 'e) \<Rightarrow> ('p, 'e) registry \<Rightarrow> ('p, 'e) registry \<Rightarrow> bool" where
  "registry_history k evaluate = (registry_step k evaluate)\<^sup>*\<^sup>*"

text \<open>The effect of one step, whatever it answered.\<close>

inductive step_effect ::
    "('p, 'e) registry_kind \<Rightarrow> ('p \<Rightarrow> 'e) \<Rightarrow> ('p, 'e) registry \<Rightarrow> ('p, 'e) registry \<Rightarrow> bool"
  for k evaluate where
  unchanged: "step_effect k evaluate g g"
| appended: "i \<notin> cd_id ` set (candidates g) \<Longrightarrow>
    step_effect k evaluate g (g\<lparr>candidates := candidates g @ [new_candidate k i p now s]\<rparr>)"
| closed: "c \<in> set (candidates g) \<Longrightarrow> cd_state c = C_PENDING_REVIEW \<Longrightarrow> s \<noteq> C_PROMOTED \<Longrightarrow> s \<noteq> C_PENDING_REVIEW \<Longrightarrow>
    step_effect k evaluate g (replace_candidate c (settled s now actor note e c) g)"
| replaced: "c \<in> set (candidates g) \<Longrightarrow> cd_state c = C_PENDING_REVIEW \<Longrightarrow> i \<notin> cd_id ` set (candidates g) \<Longrightarrow>
    g1 = replace_candidate c (settled C_SUPERSEDED now actor note None c) g \<Longrightarrow>
    step_effect k evaluate g (g1\<lparr>candidates := candidates g1 @ [new_candidate k i p now (Some (cd_id c))]\<rparr>)"
| elevated: "c \<in> set (candidates g) \<Longrightarrow> cd_state c = C_PENDING_REVIEW \<Longrightarrow> rk_passed k (evaluate (cd_proposal c)) \<Longrightarrow>
    step_effect k evaluate g (promote_candidate k evaluate now actor note c g)"

lemma submit_effect: "step_effect k evaluate g (snd (submit k i p now g))"
proof (cases "i \<in> cd_id ` set (candidates g)")
  case True
  then have "select_one cd_id i (candidates g) \<noteq> None" by (simp add: select_one_None_iff)
  then show ?thesis by (simp add: submit_def reg_transaction_def insert_candidate_def unchanged)
next
  case False
  then show ?thesis unfolding submit_fresh[OF False] snd_conv by (rule appended)
qed

lemma review_effect:
  assumes inv: "reg_inv k evaluate g"
  shows "step_effect k evaluate g (snd (review k i dec actor evaluate note now g))"
proof (cases "check_reviewer actor note = Inr () \<and>
    (\<exists>c. select_one cd_id i (candidates g) = Some c \<and> cd_state c = C_PENDING_REVIEW)")
  case True
  then obtain c where ok: "check_reviewer actor note = Inr ()"
    and c: "select_one cd_id i (candidates g) = Some c" "cd_state c = C_PENDING_REVIEW" by blast
  have ci: "c \<in> set (candidates g)" using select_one_SomeD[OF c(1)] by simp
  show ?thesis
    unfolding review_of_pending[OF inv ok c] using ci c(2) by (auto intro: closed elevated)
next
  case False
  then have "check_reviewer actor note \<noteq> Inr () \<or> select_one cd_id i (candidates g) = None \<or>
      (\<exists>c. select_one cd_id i (candidates g) = Some c \<and> cd_state c \<noteq> C_PENDING_REVIEW)" by auto
  from review_refused[OF inv this] obtain e where "review k i dec actor evaluate note now g = (Inl e, g)" .
  then show ?thesis by (simp add: unchanged)
qed

lemma revise_effect:
  assumes inv: "reg_inv k evaluate g"
  shows "step_effect k evaluate g (snd (revise k fresh i p actor note now g))"
proof (cases "check_reviewer actor note = Inr () \<and> fresh \<notin> cd_id ` set (candidates g) \<and>
    (\<exists>c. select_one cd_id i (candidates g) = Some c \<and> cd_state c = C_PENDING_REVIEW)")
  case True
  then obtain c where ok: "check_reviewer actor note = Inr ()"
    and fresh: "fresh \<notin> cd_id ` set (candidates g)"
    and c: "select_one cd_id i (candidates g) = Some c" "cd_state c = C_PENDING_REVIEW" by blast
  have ci: "c \<in> set (candidates g)" using select_one_SomeD[OF c(1)] by simp
  have i: "cd_id c = i" using select_one_SomeD[OF c(1)] by simp
  show ?thesis
    unfolding revise_of_pending[OF inv ok c fresh] snd_conv using replaced[OF ci c(2) fresh refl] unfolding i .
next
  case False
  have "\<exists>e. revise k fresh i p actor note now g = (Inl e, g)"
  proof (cases "check_reviewer actor note")
    case (Inr u)
    show ?thesis
    proof (cases "select_one cd_id i (candidates g)")
      case (Some c)
      show ?thesis
      proof (cases "cd_state c = C_PENDING_REVIEW")
        case True
        let ?g = "replace_candidate c (settled C_SUPERSEDED now actor note None c) g"
        have d: "distinct (map cd_id (candidates g))" using inv by (simp add: reg_inv_def)
        have "fresh \<in> cd_id ` set (candidates g)" using False Inr Some True by simp
        then have "fresh \<in> cd_id ` set (candidates ?g)"
          using replace_candidate_ids[OF settled_fields(1)] by (metis list.set_map)
        then have "insert_candidate (new_candidate k fresh p now (Some i)) ?g = Inl IntegrityError"
          by (auto simp: insert_candidate_def select_one_None_iff)
        with Inr Some True show ?thesis
          by (simp add: revise_def reg_transaction_def revise_body_def get_candidate_inv[OF inv]
              settle_candidate_eq[OF d Some True])
      qed (use Inr Some in \<open>simp add: revise_def reg_transaction_def revise_body_def get_candidate_inv[OF inv]\<close>)
    qed (use Inr in \<open>simp add: revise_def reg_transaction_def revise_body_def get_candidate_inv[OF inv]\<close>)
  qed (simp add: revise_def reg_transaction_def revise_body_def)
  then show ?thesis by (auto simp: unchanged)
qed

lemma step_effect_inv:
  assumes "step_effect k evaluate g g'" and inv: "reg_inv k evaluate g"
  shows "reg_inv k evaluate g'"
  using assms(1)
proof cases
  case (appended i p now s)
  then have "insert_candidate (new_candidate k i p now s) g = Inr g'"
    by (simp add: insert_candidate_def select_one_None_iff)
  then show ?thesis by (rule insert_candidate_inv[OF inv])
next
  case (replaced c i g1 now actor nt p)
  have "reg_inv k evaluate g1" unfolding replaced by (rule replace_candidate_inv[OF inv replaced(2,3)]) simp
  moreover have "i \<notin> cd_id ` set (candidates g1)"
    using replaced(4) replace_candidate_ids[OF settled_fields(1)] unfolding replaced(5) by (metis list.set_map)
  then have "insert_candidate (new_candidate k i p now (Some (cd_id c))) g1 = Inr g'"
    by (simp add: insert_candidate_def select_one_None_iff replaced(1))
  ultimately show ?thesis by (rule insert_candidate_inv)
qed (use inv replace_candidate_inv promote_candidate_inv in \<open>blast+\<close>)

lemma registry_step_effect:
  assumes "registry_step k evaluate g g'" and "reg_inv k evaluate g"
  shows "step_effect k evaluate g g'"
  using assms by (cases rule: registry_step.cases) (auto intro: submit_effect revise_effect review_effect)

text \<open>What a step leaves alone.\<close>

definition reg_extends :: "('p, 'e) registry \<Rightarrow> ('p, 'e) registry \<Rightarrow> bool" where
  "reg_extends g g' \<longleftrightarrow>
     prefix (promoted g) (promoted g') \<and>
     prefix (map (\<lambda>c. (cd_id c, cd_proposal c, cd_digest c)) (candidates g))
       (map (\<lambda>c. (cd_id c, cd_proposal c, cd_digest c)) (candidates g')) \<and>
     (\<forall>c \<in> set (candidates g). cd_state c \<noteq> C_PENDING_REVIEW \<longrightarrow> c \<in> set (candidates g'))"

lemma reg_extends_refl: "reg_extends g g"
  by (simp add: reg_extends_def)

lemma reg_extends_trans: "reg_extends g g' \<Longrightarrow> reg_extends g' g'' \<Longrightarrow> reg_extends g g''"
  unfolding reg_extends_def by (meson prefix_order.trans)

lemma reg_extends_replace:
  assumes "c \<in> set (candidates g)" and "cd_state c = C_PENDING_REVIEW"
  shows "reg_extends g (replace_candidate c (settled s now actor note e c) g)"
proof -
  have "map (\<lambda>x. (cd_id x, cd_proposal x, cd_digest x))
      (candidates (replace_candidate c (settled s now actor note e c) g)) =
      map (\<lambda>x. (cd_id x, cd_proposal x, cd_digest x)) (candidates g)"
    by (auto simp: replace_candidate_def)
  then show ?thesis using assms by (auto simp: reg_extends_def replace_candidate_set)
qed

lemma reg_extends_append: "reg_extends g (g\<lparr>candidates := candidates g @ [n]\<rparr>)"
  by (auto simp: reg_extends_def)

lemma step_effect_extends:
  assumes "step_effect k evaluate g g'"
  shows "reg_extends g g'"
  using assms
proof cases
  case (replaced c i g1 now actor nt p)
  then show ?thesis using reg_extends_trans[OF reg_extends_replace reg_extends_append] by metis
next
  case (elevated c now actor nt)
  let ?g = "replace_candidate c (settled C_PROMOTED now actor nt (Some (evaluate (cd_proposal c))) c) g"
  have "reg_extends g ?g" by (rule reg_extends_replace[OF elevated(2,3)])
  then show ?thesis by (simp add: elevated(1) reg_extends_def promote_candidate_def)
qed (simp_all add: reg_extends_refl reg_extends_append reg_extends_replace)

lemma history_induct [consumes 2, case_names refl step]:
  assumes "registry_history k evaluate g g'" and "reg_inv k evaluate g"
    and "P g"
    and "\<And>h h'. reg_inv k evaluate h \<Longrightarrow> step_effect k evaluate h h' \<Longrightarrow> P h \<Longrightarrow> P h'"
  shows "reg_inv k evaluate g' \<and> P g'"
  using assms(1) unfolding registry_history_def
proof (induction rule: rtranclp_induct)
  case (step h h')
  then show ?case using registry_step_effect step_effect_inv assms(4) by metis
qed (use assms in simp)

lemma history_inv:
  "registry_history k evaluate g g' \<Longrightarrow> reg_inv k evaluate g \<Longrightarrow> reg_inv k evaluate g'"
  using history_induct[where P = "\<lambda>_. True"] by blast

lemma history_extends:
  assumes "registry_history k evaluate g g'" and "reg_inv k evaluate g"
  shows "reg_extends g g'"
  using history_induct[OF assms, of "reg_extends g"] reg_extends_refl step_effect_extends reg_extends_trans by metis

section \<open>Searching and opening promoted versions\<close>

text \<open>
  Read from a registry that somebody edited behind the program: whatever comes back has the digest
  it was promoted under.
\<close>

lemma row_of_without_supersedes [simp]:
  "row_of k (g\<lparr>candidates := map (\<lambda>c. c\<lparr>cd_supersedes := None\<rparr>) (candidates g)\<rparr>) r = row_of k g r"
  by (simp add: row_of_def)

lemma initialize_registry_inv:
  assumes "case stored of None \<Rightarrow> True | Some (columns, g) \<Rightarrow> reg_inv k evaluate g"
  shows "reg_inv k evaluate (initialize_registry stored)"
  using assms by (cases stored) (auto simp: initialize_registry_def reg_inv_empty, auto simp: reg_inv_def comp_def)

lemma initialize_registry_keeps:
  "promoted (initialize_registry (Some (columns, g))) = promoted g"
  "map (\<lambda>c. (cd_id c, cd_state c, cd_digest c)) (candidates (initialize_registry (Some (columns, g)))) =
   map (\<lambda>c. (cd_id c, cd_state c, cd_digest c)) (candidates g)"
  "''supersedes_candidate_id'' \<in> set columns \<Longrightarrow> initialize_registry (Some (columns, g)) = g"
  by (simp_all add: initialize_registry_def)

lemma get_promoted_checked:
  assumes "get_promoted k i v g = Inr r"
  shows "r \<in> set (promoted g) \<and> pr_id r = i \<and> pr_version r = v \<and> rk_digest k (pr_proposal r) = pr_digest r"
  using assms by (auto simp: get_promoted_def check_promoted_def find_Some_iff split: option.splits if_splits)

lemma collect_matches_iff:
  "collect_matches k applies rows = Inr ms \<longleftrightarrow>
   ms = filter (\<lambda>r. applies (pr_proposal r)) rows \<and> (\<forall>r \<in> set rows. rk_digest k (pr_proposal r) = pr_digest r)"
  by (induction rows arbitrary: ms) (auto simp: check_promoted_def results)

lemma latest_rows_set: "set (latest_rows g) = {r \<in> set (promoted g). is_latest g r}"
  by (auto simp: latest_rows_def)

lemma latest_rows_order: "sorted_wrt (\<lambda>r s. pr_promoted_at s \<le> pr_promoted_at r) (latest_rows g)"
proof -
  have "sorted_wrt (\<lambda>r s. pr_promoted_at r \<le> pr_promoted_at s)
      (sort_key pr_promoted_at (rev (filter (is_latest g) (promoted g))))"
    using sorted_sort_key by (auto simp: sorted_map)
  then show ?thesis by (simp add: latest_rows_def sorted_wrt_rev)
qed

lemma find_applicable_inv:
  assumes inv: "reg_inv k evaluate g"
  shows "find_applicable k applies g = Inr (filter (\<lambda>r. applies (pr_proposal r)) (latest_rows g))"
  unfolding find_applicable_def collect_matches_iff
  using inv by (auto simp: latest_rows_set reg_inv_def row_of_def)

section \<open>The promotion gate\<close>

text \<open>
  The contract between an evaluator and a registry: an evaluation that passed vouches for the
  proposal. Every version a registry ever promoted is then vouched for.
\<close>

locale promotion_gate =
  fixes kind :: "('p, 'e) registry_kind" and evaluate :: "'p \<Rightarrow> 'e" and good :: "'p \<Rightarrow> bool"
  assumes passed_good: "rk_passed kind (evaluate p) \<Longrightarrow> good p"
begin

lemma promoted_good:
  assumes "registry_history kind evaluate empty_registry g" and "r \<in> set (promoted g)"
  shows "good (pr_proposal r)"
  using history_inv[OF assms(1) reg_inv_empty] assms(2) passed_good by (auto simp: reg_inv_def)

lemma found_good:
  assumes "registry_history kind evaluate empty_registry g" and "find_applicable kind applies g = Inr rs"
    and "r \<in> set rs"
  shows "good (pr_proposal r) \<and> applies (pr_proposal r) \<and> is_latest g r"
proof -
  have "r \<in> set (promoted g)" "applies (pr_proposal r)" "is_latest g r"
    using assms(2,3) unfolding find_applicable_def collect_matches_iff by (auto simp: latest_rows_set)
  with promoted_good[OF assms(1)] show ?thesis by blast
qed

lemma opened_good:
  assumes "registry_history kind evaluate empty_registry g" and "get_promoted kind i v g = Inr r"
  shows "good (pr_proposal r)"
  using get_promoted_checked[OF assms(2)] promoted_good[OF assms(1)] by blast

lemma promoted_reviewed:
  assumes "registry_history kind evaluate empty_registry g" and "r \<in> set (promoted g)"
  shows "row_of kind g r"
  using history_inv[OF assms(1) reg_inv_empty] assms(2) by (auto simp: reg_inv_def)

end

end
