(* ===== verification/Investigation.thy ===== *)
theory Investigation
  imports Analyzer Sandbox Security "HOL-Library.AList"
begin

text \<open>
  \<open>site_investigation.py\<close>: the bounded observations of the diagnostic tools, the trace that records
  them under a thread, the disposable site whose files the tools read, and the validation of a
  diagnosis against the trace. The agent (LangGraph and a language model) is a process that calls tools
  and in the end answers or raises: \<open>agent\<close> below, a parameter of what uses it.
\<close>

section \<open>Observations\<close>

record diagnostic_observation =
  dg_id :: string
  dg_category :: string
  dg_summary :: string
  dg_signals :: "string list"
  dg_measurements :: "(string \<times> json) list"

definition EVIDENCE_CATEGORIES :: "string list" where
  "EVIDENCE_CATEGORIES = [''health'', ''resources'', ''services'', ''processes'', ''logs'', ''changes'']"

text \<open>\<open>^[a-z0-9_.-]+$\<close>.\<close>

definition evidence_char :: "char \<Rightarrow> bool" where
  "evidence_char c \<longleftrightarrow> target_char c \<or> c = CHR ''.''"

definition matches_evidence_id :: "string \<Rightarrow> bool" where
  "matches_evidence_id s \<longleftrightarrow> s \<noteq> [] \<and> list_all evidence_char s"

definition scalar :: "json \<Rightarrow> bool" where
  "scalar j = (case j of JList _ \<Rightarrow> False | JObj _ \<Rightarrow> False | _ \<Rightarrow> True)"

definition valid_observation :: "diagnostic_observation \<Rightarrow> bool" where
  "valid_observation ob \<longleftrightarrow>
     matches_evidence_id (dg_id ob) \<and> dg_category ob \<in> set EVIDENCE_CATEGORIES \<and> short_text (dg_summary ob) \<and>
     length (dg_signals ob) \<le> 20 \<and> list_all (\<lambda>m. scalar (snd m)) (dg_measurements ob)"

definition check_observation :: "diagnostic_observation \<Rightarrow> exn + diagnostic_observation" where
  "check_observation ob = (if valid_observation ob then Inr ob else Inl ValidationError)"

definition observation :: "string \<Rightarrow> string \<Rightarrow> string \<Rightarrow> string list \<Rightarrow> (string \<times> json) list \<Rightarrow> exn + diagnostic_observation" where
  "observation i category summary sigs measurements =
     check_observation \<lparr>dg_id = i, dg_category = category, dg_summary = summary, dg_signals = sigs,
       dg_measurements = measurements\<rparr>"

definition observation_json :: "diagnostic_observation \<Rightarrow> json" where
  "observation_json ob =
     JObj [(''evidence_id'', JStr (dg_id ob)), (''category'', JStr (dg_category ob)),
           (''summary'', JStr (dg_summary ob)), (''signals'', json_strs (dg_signals ob)),
           (''measurements'', JObj (dg_measurements ob))]"

text \<open>A target of diagnosis: its four read-only operations.\<close>

record 'w diagnostic_target =
  dt_health :: "('w, diagnostic_observation) action"
  dt_resources :: "('w, diagnostic_observation) action"
  dt_logs :: "('w, diagnostic_observation) action"
  dt_changes :: "('w, diagnostic_observation) action"

section \<open>The disposable site\<close>

datatype lab_profile = Baseline | Causal

record site_lab =
  lab_expected :: scenario
  lab_profile :: lab_profile

definition rotated_suffix :: "string \<Rightarrow> bool" where
  "rotated_suffix name \<longleftrightarrow> suffix ''.rotated'' name"

definition lab_logs :: "host \<Rightarrow> sandbox \<Rightarrow> files \<Rightarrow> exn + bool" where
  "lab_logs h sb f =
     bindE (resolve_child h sb ''logs'' f) (\<lambda>logs. Inr (list_ex (\<lambda>q. rotated_suffix (last q)) (iterdir f logs)))"

definition site_check_health :: "host \<Rightarrow> sandbox \<Rightarrow> (files, diagnostic_observation) action" where
  "site_check_health h sb =
     readS (\<lambda>f. bindE (lab_logs h sb f) (\<lambda>unhealthy.
       observation ''health-1'' ''health''
         (if unhealthy then ''The local site health check returns HTTP 503.''
          else ''The local site health check returns HTTP 200.'')
         (if unhealthy then [''http_503'', ''healthcheck_failed''] else [''healthcheck_passed''])
         [(''status_code'', JInt (if unhealthy then 503 else 200))]))"

definition site_inspect_resources :: "host \<Rightarrow> sandbox \<Rightarrow> site_lab \<Rightarrow> (files, diagnostic_observation) action" where
  "site_inspect_resources h sb lab =
     readS (\<lambda>f. bindE (lab_logs h sb f) (\<lambda>unhealthy.
       let causal = unhealthy \<and> lab_profile lab = Causal in
       observation ''resources-1'' ''resources''
         (if causal then ''Filesystem capacity is critically low and CPU is elevated while memory remains normal.''
          else if unhealthy then ''Filesystem capacity is critically low while CPU and memory remain normal.''
          else ''Filesystem capacity, CPU, and memory are normal.'')
         (if causal then [''low_free_space'', ''elevated_cpu'']
          else if unhealthy then [''low_free_space''] else [''resources_normal''])
         [(''free_bytes'', JInt (if unhealthy then 4096 else 1048576)),
          (''cpu_percent'', JFloat (if causal then 78 else 12)), (''memory_percent'', JFloat 38)]))"

definition site_inspect_recent_logs :: "(files, diagnostic_observation) action" where
  "site_inspect_recent_logs =
     readS (\<lambda>f. observation ''logs-1'' ''logs''
       ''Recent bounded logs report that normal rotation failed after the filesystem ran out of space.''
       [''rotation_error'', ''no_space_left'']
       [(''affected_file_count'', JInt 3), (''log_growth_bytes_per_minute'', JInt 262144)])"

definition site_inspect_recent_changes :: "site_lab \<Rightarrow> (files, diagnostic_observation) action" where
  "site_inspect_recent_changes lab =
     readS (\<lambda>f.
       if lab_profile lab = Causal
       then observation ''changes-1'' ''changes''
         ''A recent deployment completed successfully before the health check failed, with no rollback or configuration error reported.''
         [''deployment_completed'', ''no_deployment_error'']
         [(''minutes_before_failure'', JInt 18), (''rollback_count'', JInt 0)]
       else observation ''changes-1'' ''changes'' ''No recent deployment or configuration change was recorded.''
         [''no_recent_change''] [(''change_count'', JInt 0)])"

definition site_target :: "host \<Rightarrow> sandbox \<Rightarrow> site_lab \<Rightarrow> files diagnostic_target" where
  "site_target h sb lab =
     \<lparr>dt_health = site_check_health h sb, dt_resources = site_inspect_resources h sb lab,
      dt_logs = site_inspect_recent_logs, dt_changes = site_inspect_recent_changes lab\<rparr>"

text \<open>\<open>mkdir(exist_ok=True)\<close> without parents.\<close>

definition mkdir_exist_ok :: "host \<Rightarrow> path \<Rightarrow> (files, unit) action" where
  "mkdir_exist_ok h p =
     changeS (\<lambda>f.
       if is_dir f p then Inr f
       else if lstat f p \<noteq> None then Inl OSError
       else case entry_at f (butlast p) of
         Some (Directory _ _) \<Rightarrow>
           if h_refuses h p then Inl OSError else Inr (put_entry p (Directory (h_euid h) (h_dir_mode h)) f)
       | _ \<Rightarrow> Inl OSError)"

definition disk_exhaustion_lab :: "host \<Rightarrow> sandbox \<Rightarrow> (files, site_lab) action" where
  "disk_exhaustion_lab h sb =
     bindS (readS (resolve_child h sb ''logs'')) (\<lambda>logs.
     bindS (mkdir_exist_ok h logs) (\<lambda>_.
     bindS (eachS (\<lambda>index. changeS (write_text h (logs @ [''application.'' @ [index] @ ''.rotated''])
              (''bounded synthetic log'' @ [CHR 0x0A]))) ''012'') (\<lambda>_.
     bindS (changeS (write_text h (logs @ [''application.log''])
              (''rotation failed: no space left on device'' @ [CHR 0x0A]))) (\<lambda>_.
     returnS \<lparr>lab_expected = DISK_EXHAUSTION, lab_profile = Baseline\<rparr>))))"

definition causal_disk_exhaustion_lab :: "host \<Rightarrow> sandbox \<Rightarrow> (files, site_lab) action" where
  "causal_disk_exhaustion_lab h sb =
     bindS (disk_exhaustion_lab h sb) (\<lambda>lab. returnS (lab\<lparr>lab_profile := Causal\<rparr>))"

section \<open>Diagnoses\<close>

record investigation_result =
  ir_scenario :: scenario
  ir_severity :: string
  ir_confidence :: rat
  ir_evidence_refs :: "string list"
  ir_action_id :: string
  ir_explanation :: string

definition valid_investigation :: "investigation_result \<Rightarrow> bool" where
  "valid_investigation r \<longleftrightarrow>
     ir_severity r \<in> {''low'', ''medium'', ''high'', ''critical''} \<and> unit_interval (ir_confidence r) \<and>
     1 \<le> length (ir_evidence_refs r) \<and> length (ir_evidence_refs r) \<le> 20 \<and>
     bounded_text 1 128 (ir_action_id r) \<and> bounded_text 1 2000 (ir_explanation r)"

definition check_investigation :: "investigation_result \<Rightarrow> exn + investigation_result" where
  "check_investigation r = (if valid_investigation r then Inr r else Inl ValidationError)"

definition lab_telemetry_for :: "site_lab \<Rightarrow> investigation_result \<Rightarrow> exn + telemetry_evidence" where
  "lab_telemetry_for lab r =
     (if ir_scenario r \<noteq> lab_expected lab then Inl (ValueError ''diagnosis does not match observed lab state'')
      else check_evidence
        ((evidence_defaults (ir_scenario r) SYNTHETIC_MARKER True 4096 262144 3)
           \<lparr>signals := ir_evidence_refs r, fault_injection := Some ''ENOSPC''\<rparr>))"

section \<open>The trace\<close>

record trace_run =
  tr_observations :: "(string \<times> diagnostic_observation) list"
  tr_tool_calls :: "string list"

type_synonym trace = "(string \<times> trace_run) list"

definition trace_run_of :: "string \<Rightarrow> trace \<Rightarrow> trace_run" where
  "trace_run_of thread tr =
     (case map_of tr thread of None \<Rightarrow> \<lparr>tr_observations = [], tr_tool_calls = []\<rparr> | Some run \<Rightarrow> run)"

definition record_call :: "string \<Rightarrow> string \<Rightarrow> diagnostic_observation \<Rightarrow> trace \<Rightarrow> trace" where
  "record_call thread tool ob tr =
     (let run = trace_run_of thread tr in
      AList.update thread
        \<lparr>tr_observations = AList.update (dg_id ob) ob (tr_observations run),
         tr_tool_calls = tr_tool_calls run @ [tool]\<rparr> tr)"

definition observations_for :: "string \<Rightarrow> trace \<Rightarrow> (string \<times> diagnostic_observation) list" where
  "observations_for thread tr = tr_observations (trace_run_of thread tr)"

definition tool_calls_for :: "string \<Rightarrow> trace \<Rightarrow> string list" where
  "tool_calls_for thread tr = tr_tool_calls (trace_run_of thread tr)"

definition observed_signals :: "(string \<times> diagnostic_observation) list \<Rightarrow> string list" where
  "observed_signals obs = concat (map (dg_signals \<circ> snd) obs)"

definition observed_categories :: "(string \<times> diagnostic_observation) list \<Rightarrow> string list" where
  "observed_categories obs = map (dg_category \<circ> snd) obs"

section \<open>Agents and their tools\<close>

text \<open>
  An agent answers, raises, or calls a tool by name with arguments and goes on with what the tool
  returned or raised. It is finite: the framework's recursion limit stops a run that is too long.
\<close>

datatype 'r agent =
    Answer 'r
  | Agent_raise exn
  | Call string json "(exn + json) \<Rightarrow> 'r agent"

primrec run_agent :: "(string \<Rightarrow> json \<Rightarrow> ('s, json) action) \<Rightarrow> 'r agent \<Rightarrow> ('s, 'r) action" where
  "run_agent tools (Answer r) = returnS r"
| "run_agent tools (Agent_raise e) = raiseS e"
| "run_agent tools (Call name args continue) =
     (\<lambda>s. case tools name args s of (result, s') \<Rightarrow> run_agent tools (continue result) s')"

definition diagnostic_operations :: "'w diagnostic_target \<Rightarrow> (string \<times> ('w, diagnostic_observation) action) list" where
  "diagnostic_operations target =
     [(''check_site_health'', dt_health target), (''inspect_resources'', dt_resources target),
      (''inspect_recent_changes'', dt_changes target), (''inspect_recent_logs'', dt_logs target)]"

text \<open>\<open>trace.record(thread_id, tool_name, op())\<close>; a name that is no tool is an error of the framework.\<close>

definition diagnostic_tool ::
    "'w diagnostic_target \<Rightarrow> string \<Rightarrow> string \<Rightarrow> json \<Rightarrow> (trace \<times> 'w, json) action" where
  "diagnostic_tool target thread name args =
     (case map_of (diagnostic_operations target) name of
        None \<Rightarrow> raiseS (ValueError ''unknown tool'')
      | Some oper \<Rightarrow>
          (\<lambda>(tr, w). case oper w of
             (Inl e, w') \<Rightarrow> (Inl e, (tr, w'))
           | (Inr ob, w') \<Rightarrow> (Inr (observation_json ob), (record_call thread name ob tr, w'))))"

text \<open>An action on the world beside a trace.\<close>

definition worldT :: "('w, 'a) action \<Rightarrow> (trace \<times> 'w, 'a) action" where
  "worldT m = (\<lambda>(tr, w). case m w of (r, w') \<Rightarrow> (r, (tr, w')))"

lemma worldT_Inr: "worldT m (tr, w) = (Inr x, s') \<Longrightarrow> \<exists>w'. s' = (tr, w')"
  by (auto simp: worldT_def split: prod.splits)

section \<open>Validating a diagnosis\<close>

definition validate_investigation_result ::
    "investigation_result \<Rightarrow> string \<Rightarrow> trace \<Rightarrow> exn + investigation_result" where
  "validate_investigation_result response thread tr =
     bindE (check_investigation response) (\<lambda>r.
     if \<not> set (ir_evidence_refs r) \<subseteq> fst ` set (observations_for thread tr)
     then Inl (ValueError ''diagnosis cited evidence that was not observed'')
     else bindE (allowed_actions (ir_scenario r) SYNTHETIC_MARKER) (\<lambda>actions.
       if ir_action_id r \<notin> set actions
       then Inl (ValueError ''diagnosis proposed an action outside deterministic policy'')
       else Inr r))"

record site_health_alert =
  sa_key :: string
  sa_observed_at :: datetime

definition valid_alert :: "site_health_alert \<Rightarrow> bool" where
  "valid_alert a \<longleftrightarrow> bounded_text 1 128 (sa_key a) \<and> matches_token (sa_key a)"

definition investigate_site ::
    "'w diagnostic_target \<Rightarrow> investigation_result agent \<Rightarrow> site_health_alert \<Rightarrow> (trace \<times> 'w, investigation_result) action"
where
  "investigate_site target ag alert =
     bindS (run_agent (diagnostic_tool target (sa_key alert)) ag) (\<lambda>response.
     readS (\<lambda>(tr, w). validate_investigation_result response (sa_key alert) tr))"

text \<open>\<open>InvestigationAnalyzer\<close> and \<open>FixedInvestigationTelemetry\<close> carry a diagnosis into the service.\<close>

definition investigation_analyze ::
    "investigation_result \<Rightarrow> telemetry_evidence \<Rightarrow> string option \<Rightarrow> 'w \<Rightarrow> (exn + model_result) \<times> 'w" where
  "investigation_analyze r ev revision_note w =
     (if te_scenario ev \<noteq> ir_scenario r
      then Inl (ValueError ''investigation and telemetry scenario disagree'')
      else bindE (check_assessment
          \<lparr>ma_summary = sanitize_text (ir_explanation r), ma_severity = ir_severity r,
           ma_confidence = ir_confidence r, ma_evidence_refs = ir_evidence_refs r,
           ma_action_id = ir_action_id r\<rparr>) (\<lambda>a.
        Inr \<lparr>mr_assessment = a, mr_latency_ms = 0, mr_token_count = 0, mr_retry_count = 0\<rparr>), w)"

definition fixed_collect :: "telemetry_evidence \<Rightarrow> event_request \<Rightarrow> 'w \<Rightarrow> (exn + telemetry_evidence) \<times> 'w" where
  "fixed_collect evidence e w = (Inr evidence, w)"

interpretation investigation: analyzer "investigation_analyze r"
  for r :: investigation_result
  by unfold_locales (auto simp: investigation_analyze_def check_assessment_def results split: if_splits)

section \<open>What a trace holds\<close>

text \<open>
  \<open>traced P thread tr\<close>: every observation of the thread is filed under its own identifier and
  satisfies \<open>P\<close>.
\<close>

definition traced :: "(diagnostic_observation \<Rightarrow> bool) \<Rightarrow> string \<Rightarrow> trace \<Rightarrow> bool" where
  "traced P thread tr \<longleftrightarrow> (\<forall>(i, ob) \<in> set (observations_for thread tr). dg_id ob = i \<and> P ob)"

lemma trace_run_of_update [simp]: "trace_run_of t (AList.update u run tr) = (if t = u then run else trace_run_of t tr)"
  by (simp add: trace_run_of_def update_conv')

lemma set_update_subset: "set (AList.update k v al) \<subseteq> insert (k, v) (set al)"
  by (induction al) auto

lemma traced_record: "traced P thread tr \<Longrightarrow> P ob \<Longrightarrow> traced P thread (record_call u tool ob tr)"
  using set_update_subset by (fastforce simp: traced_def observations_for_def record_call_def Let_def)

lemma tool_other_thread: "u \<noteq> thread \<Longrightarrow> trace_run_of u (record_call thread tool ob tr) = trace_run_of u tr"
  by (simp add: record_call_def Let_def)

lemma run_agent_keeps:
  assumes "\<And>name args s. I s \<Longrightarrow> I (snd (tools name args s))" and "I s"
  shows "I (snd (run_agent tools ag s))"
  using assms(2)
proof (induction ag arbitrary: s)
  case (Call name args continue)
  obtain r t where t: "tools name args s = (r, t)" by (cases "tools name args s")
  with assms(1)[OF Call.prems, of name args] Call.IH[OF rangeI, of t r] show ?case by simp
qed simp_all

text \<open>A target whose answers all satisfy a predicate.\<close>

definition answers :: "(diagnostic_observation \<Rightarrow> bool) \<Rightarrow> 'w diagnostic_target \<Rightarrow> bool" where
  "answers P target \<longleftrightarrow>
     (\<forall>oper \<in> {dt_health target, dt_resources target, dt_changes target, dt_logs target}.
        \<forall>w ob w'. oper w = (Inr ob, w') \<longrightarrow> P ob)"

lemma operation_answers:
  assumes "map_of (diagnostic_operations target) name = Some oper" and "answers P target" and "oper w = (Inr ob, w')"
  shows "P ob"
proof -
  have "oper \<in> {dt_health target, dt_resources target, dt_changes target, dt_logs target}"
    using map_of_SomeD[OF assms(1)] by (auto simp: diagnostic_operations_def)
  with assms(2,3) show ?thesis unfolding answers_def by blast
qed

lemma diagnostic_tool_cases:
  assumes "diagnostic_tool target thread name args (tr, w) = (res, s')"
  obtains e w' where "res = Inl e" "s' = (tr, w')"
  | ob w' oper where "res = Inr (observation_json ob)" "s' = (record_call thread name ob tr, w')"
      "map_of (diagnostic_operations target) name = Some oper" "oper w = (Inr ob, w')"
proof (cases "map_of (diagnostic_operations target) name")
  case None
  then have "res = Inl (ValueError ''unknown tool'')" "s' = (tr, w)" using assms by (simp_all add: diagnostic_tool_def)
  then show thesis by (rule that(1))
next
  case (Some oper)
  obtain r w' where "oper w = (r, w')" by (cases "oper w")
  show thesis
  proof (cases r)
    case (Inl e)
    then show ?thesis using assms Some \<open>oper w = (r, w')\<close> by (intro that(1)[of e w']) (simp_all add: diagnostic_tool_def)
  next
    case (Inr ob)
    then show ?thesis using assms Some \<open>oper w = (r, w')\<close>
      by (intro that(2)[of ob w' oper]) (simp_all add: diagnostic_tool_def)
  qed
qed

lemma diagnostic_tool_traced:
  assumes "answers P target" and "traced P u (fst s)"
  shows "traced P u (fst (snd (diagnostic_tool target thread name args s)))"
proof -
  obtain tr w where s: "s = (tr, w)" by (cases s)
  obtain res s' where d: "diagnostic_tool target thread name args (tr, w) = (res, s')"
    by (cases "diagnostic_tool target thread name args (tr, w)")
  have "traced P u (fst s')"
    using d
  proof (cases rule: diagnostic_tool_cases)
    case (2 ob w' oper)
    then show ?thesis using traced_record operation_answers[OF 2(3) assms(1) 2(4)] assms(2) s by simp
  qed (use assms(2) s in simp)
  with d s show ?thesis by simp
qed

lemma validated_grounded:
  assumes "validate_investigation_result response thread tr = Inr r" and "traced P thread tr"
  shows "ir_evidence_refs r \<noteq> []"
    and "list_all (\<lambda>ref. \<exists>ob. map_of (observations_for thread tr) ref = Some ob \<and> dg_id ob = ref \<and> P ob) (ir_evidence_refs r)"
    and "validate_scenario_action (ir_scenario r) SYNTHETIC_MARKER (ir_action_id r) = Inr ()"
    and "valid_investigation r"
proof -
  from assms(1) have refs: "set (ir_evidence_refs r) \<subseteq> fst ` set (observations_for thread tr)" and valid: "valid_investigation r"
    and act: "validate_scenario_action (ir_scenario r) SYNTHETIC_MARKER (ir_action_id r) = Inr ()"
    by (auto simp: validate_investigation_result_def check_investigation_def results validate_scenario_action_def split: if_splits)
  have "\<exists>ob. map_of (observations_for thread tr) ref = Some ob \<and> dg_id ob = ref \<and> P ob" if "ref \<in> set (ir_evidence_refs r)" for ref
  proof -
    from refs that have "map_of (observations_for thread tr) ref \<noteq> None" by (auto simp: map_of_eq_None_iff)
    then obtain ob where ob: "map_of (observations_for thread tr) ref = Some ob" by blast
    with assms(2) map_of_SomeD[OF ob] show ?thesis by (auto simp: traced_def)
  qed
  with act valid show "ir_evidence_refs r \<noteq> []"
    "list_all (\<lambda>ref. \<exists>ob. map_of (observations_for thread tr) ref = Some ob \<and> dg_id ob = ref \<and> P ob) (ir_evidence_refs r)"
    "validate_scenario_action (ir_scenario r) SYNTHETIC_MARKER (ir_action_id r) = Inr ()" "valid_investigation r"
    by (auto simp: list_all_iff valid_investigation_def)
qed

lemma investigate_site_traced:
  assumes "investigate_site target ag alert (tr, w) = (Inr r, (tr', w'))" and "answers P target" and "traced P (sa_key alert) tr"
  shows "\<exists>response. validate_investigation_result response (sa_key alert) tr' = Inr r" and "traced P (sa_key alert) tr'"
proof -
  from assms(1) obtain response where run: "run_agent (diagnostic_tool target (sa_key alert)) ag (tr, w) = (Inr response, (tr', w'))"
    and v: "validate_investigation_result response (sa_key alert) tr' = Inr r"
    by (auto simp: investigate_site_def bindS_Inr_iff)
  show "traced P (sa_key alert) tr'"
    using run_agent_keeps[where I = "\<lambda>s. traced P (sa_key alert) (fst s)" and s = "(tr, w)" and ag = ag
        and tools = "diagnostic_tool target (sa_key alert)"] diagnostic_tool_traced[OF assms(2)] assms(3) run by simp
qed (use assms(1) in \<open>auto simp: investigate_site_def bindS_Inr_iff\<close>)

text \<open>C26: A diagnosis that is returned is grounded: each piece of evidence it cites is an observation that a
  diagnostic tool returned in this very thread, filed under the cited identifier, with whatever property \<open>P\<close>
  the target's answers have; and the action is one the policy authorises for the diagnosed scenario.\<close>

theorem diagnosis_grounded:
  assumes "investigate_site target ag alert (tr, w) = (Inr r, (tr', w'))"
    and "answers P target" and "traced P (sa_key alert) tr"
  shows "ir_evidence_refs r \<noteq> [] \<and>
    list_all (\<lambda>ref. \<exists>ob. map_of (observations_for (sa_key alert) tr') ref = Some ob \<and> dg_id ob = ref \<and> P ob) (ir_evidence_refs r) \<and>
    validate_scenario_action (ir_scenario r) SYNTHETIC_MARKER (ir_action_id r) = Inr ()"
proof -
  note t = investigate_site_traced[OF assms]
  from t(1) obtain response where "validate_investigation_result response (sa_key alert) tr' = Inr r" by blast
  from validated_grounded[OF this t(2)] show ?thesis by simp
qed

definition sample_observation :: diagnostic_observation where
  "sample_observation = \<lparr>dg_id = ''resources-1'', dg_category = ''resources'', dg_summary = ''low'',
     dg_signals = [''low_free_space''], dg_measurements = []\<rparr>"

definition sample_target :: "unit diagnostic_target" where
  "sample_target = \<lparr>dt_health = returnS sample_observation, dt_resources = returnS sample_observation,
     dt_logs = returnS sample_observation, dt_changes = returnS sample_observation\<rparr>"

definition sample_diagnosis :: investigation_result where
  "sample_diagnosis = \<lparr>ir_scenario = DISK_EXHAUSTION, ir_severity = ''high'', ir_confidence = 9 / 10,
     ir_evidence_refs = [''resources-1''], ir_action_id = ''cleanup_rotated_logs'', ir_explanation = ''full''\<rparr>"

definition sample_agent :: "investigation_result agent" where
  "sample_agent = Call ''inspect_resources'' JNull (\<lambda>_. Answer sample_diagnosis)"

definition sample_alert :: site_health_alert where
  "sample_alert = \<lparr>sa_key = ''k'', sa_observed_at = sample_time 1 0\<rparr>"

definition sample_trace :: trace where
  "sample_trace = [(''k'', \<lparr>tr_observations = [(''resources-1'', sample_observation)], tr_tool_calls = [''inspect_resources'']\<rparr>)]"

lemma sample_investigation:
  "investigate_site sample_target sample_agent sample_alert ([], ()) = (Inr sample_diagnosis, (sample_trace, ()))"
proof -
  have "diagnostic_tool sample_target ''k'' ''inspect_resources'' JNull ([], ()) =
      (Inr (observation_json sample_observation), (sample_trace, ()))"
    by (simp add: diagnostic_tool_def diagnostic_operations_def sample_target_def record_call_def trace_run_of_def
        sample_trace_def sample_observation_def)
  moreover have "validate_investigation_result sample_diagnosis ''k'' sample_trace = Inr sample_diagnosis"
    by (simp add: validate_investigation_result_def check_investigation_def valid_investigation_def sample_diagnosis_def
        unit_interval_def bounded_text_def observations_for_def trace_run_of_def sample_trace_def allowed_actions_def
        SCENARIO_KIND_ACTIONS_def)
  ultimately show ?thesis
    by (simp add: investigate_site_def bindS_def sample_agent_def sample_alert_def)
qed

theorem diagnosis_grounded_witness:
  "\<exists>ob. map_of (observations_for ''k'' sample_trace) ''resources-1'' = Some ob \<and> dg_category ob = ''resources''"
proof -
  have "answers (\<lambda>ob. dg_category ob = ''resources'') sample_target"
    by (simp add: answers_def sample_target_def sample_observation_def)
  moreover have "traced P (sa_key sample_alert) []" for P
    by (simp add: traced_def observations_for_def trace_run_of_def)
  ultimately show ?thesis
    using diagnosis_grounded[OF sample_investigation] by (fastforce simp: sample_diagnosis_def sample_alert_def)
qed

section \<open>From a diagnosis to an option\<close>

text \<open>A diagnosis that passed validation can be carried into the service: on evidence of its scenario the
  adapter answers with an assessment of its action, unless a cited reference is too long for an assessment or
  sanitising left no explanation, and for every scenario but worker concurrency the policy then builds an
  option for that action without any binding.\<close>

theorem diagnosis_becomes_option:
  assumes "validate_investigation_result response thread tr = Inr r" and "te_scenario ev = ir_scenario r"
    and "list_all (\<lambda>s. length s \<le> 500) (ir_evidence_refs r)" and "sanitize_text (ir_explanation r) \<noteq> []"
  shows "\<exists>result. investigation_analyze r ev note w = (Inr result, w) \<and>
    ma_action_id (mr_assessment result) = ir_action_id r \<and>
    (ir_scenario r \<noteq> WORKER_CONCURRENCY \<longrightarrow>
       (\<exists>opt. build_option (ir_scenario r) SYNTHETIC_MARKER (mr_assessment result) None = Inr opt \<and>
          ro_action_id opt = ir_action_id r \<and> ro_evidence opt = ir_evidence_refs r))"
proof -
  let ?a = "\<lparr>ma_summary = sanitize_text (ir_explanation r), ma_severity = ir_severity r,
           ma_confidence = ir_confidence r, ma_evidence_refs = ir_evidence_refs r, ma_action_id = ir_action_id r\<rparr>"
  let ?result = "\<lparr>mr_assessment = ?a, mr_latency_ms = 0, mr_token_count = 0, mr_retry_count = 0\<rparr>"
  from assms(1) have v: "valid_investigation r" and act: "validate_scenario_action (ir_scenario r) SYNTHETIC_MARKER (ir_action_id r) = Inr ()"
    by (auto simp: validate_investigation_result_def check_investigation_def results validate_scenario_action_def split: if_splits)
  have "1 \<le> length (sanitize_text (ir_explanation r))" using assms(4) by (cases "sanitize_text (ir_explanation r)") simp_all
  then have a: "valid_assessment ?a"
    using v assms(3) length_sanitize_text[of "ir_explanation r"]
    by (auto simp: valid_assessment_def valid_investigation_def bounded_text_def)
  have step: "investigation_analyze r ev note w = (Inr ?result, w)"
    using assms(2) a by (simp add: investigation_analyze_def check_assessment_def)
  have "\<exists>opt. build_option (ir_scenario r) SYNTHETIC_MARKER ?a None = Inr opt \<and> ro_action_id opt = ir_action_id r \<and>
      ro_evidence opt = ir_evidence_refs r" if "ir_scenario r \<noteq> WORKER_CONCURRENCY"
  proof -
    have "ir_action_id r \<noteq> ''reduce_worker_concurrency'' \<and> (\<exists>d. map_of ALLOWED_ACTIONS (ir_action_id r) = Some d)"
      using act that by (cases "ir_scenario r")
        (auto simp: validate_scenario_action_def allowed_actions_def SCENARIO_KIND_ACTIONS_def ALLOWED_ACTIONS_def split: if_splits)
    then obtain d where d: "map_of ALLOWED_ACTIONS (ir_action_id r) = Some d" "ir_action_id r \<noteq> ''reduce_worker_concurrency''" by blast
    note req = map_of_ALLOWED_ACTIONS_requires[OF d(1)]
    have "unit_interval (ir_confidence r)" using v by (simp add: valid_investigation_def)
    with d req act show ?thesis
      by (simp add: build_option_def check_option_def valid_option_def parameters_must_be_bounded_def target_id_bounded_def)
  qed
  with step show ?thesis by (intro exI[of _ ?result]) simp
qed

theorem diagnosis_becomes_option_witness:
  "\<exists>opt. build_option DISK_EXHAUSTION SYNTHETIC_MARKER
     \<lparr>ma_summary = ''full'', ma_severity = ''high'', ma_confidence = 9 / 10, ma_evidence_refs = [''resources-1''],
      ma_action_id = ''cleanup_rotated_logs''\<rparr> None = Inr opt"
proof -
  have v: "validate_investigation_result sample_diagnosis ''k'' sample_trace = Inr sample_diagnosis"
    using sample_investigation by (auto simp: investigate_site_def bindS_Inr_iff sample_agent_def sample_alert_def split: prod.splits)
  have s: "sanitize_text ''full'' = ''full''"
    using sanitize_text_plain[of "''full''"] by (simp add: redaction_trigger_def is_space_def quote_char_def char_in_def code_def)
  have "te_scenario synthetic_disk_exhaustion = ir_scenario sample_diagnosis"
    by (simp add: synthetic_disk_exhaustion_def evidence_defaults_def sample_diagnosis_def)
  from diagnosis_becomes_option[OF v this, of None "()"] s show ?thesis
    by (auto simp: sample_diagnosis_def investigation_analyze_def synthetic_disk_exhaustion_def evidence_defaults_def
        check_assessment_def results split: if_splits)
qed

end
