(* ===== verification/Learning.thy ===== *)
theory Learning
  imports Registry Investigation Doubles
begin

text \<open>
  What \<open>runbook_learning.py\<close> and \<open>capability_learning.py\<close> share besides the registry: the name
  patterns of proposals, the cases of a promotion gate with the counting that decides it, the check of a
  researched proposal against the observations of its thread, and the edit of the simulated reviewer.
\<close>

section \<open>Names\<close>

text \<open>\<open>^[a-z0-9][a-z0-9_.-]*$\<close>.\<close>

definition matches_name :: "string \<Rightarrow> bool" where
  "matches_name s \<longleftrightarrow>
     (case s of [] \<Rightarrow> False | c # r \<Rightarrow> (is_ascii_lower c \<or> is_digit c) \<and> list_all evidence_char r)"

definition signal_name :: "string \<Rightarrow> bool" where
  "signal_name s \<longleftrightarrow> bounded_text 1 64 s \<and> matches_name s"

definition evidence_name :: "string \<Rightarrow> bool" where
  "evidence_name s \<longleftrightarrow> bounded_text 1 128 s \<and> matches_name s"

definition diagnostic_step :: "string \<Rightarrow> bool" where
  "diagnostic_step s \<longleftrightarrow> bounded_text 5 500 s"

definition sized :: "nat \<Rightarrow> nat \<Rightarrow> 'a list \<Rightarrow> bool" where
  "sized lo hi xs \<longleftrightarrow> lo \<le> length xs \<and> length xs \<le> hi"

section \<open>Promotion cases\<close>

record evaluation_case =
  ec_id :: string
  ec_signals :: "string list"
  ec_categories :: "string list"
  ec_expected :: bool

text \<open>The subset test on the signals and on the evidence categories that a proposal requires.\<close>

definition within_scope :: "string list \<Rightarrow> string list \<Rightarrow> string list \<Rightarrow> string list \<Rightarrow> bool" where
  "within_scope required_signals required_categories sigs categories \<longleftrightarrow>
     list_all (\<lambda>s. s \<in> set sigs) required_signals \<and> list_all (\<lambda>c. c \<in> set categories) required_categories"

definition case_decided :: "(string list \<Rightarrow> string list \<Rightarrow> bool) \<Rightarrow> evaluation_case \<Rightarrow> bool" where
  "case_decided applies c \<longleftrightarrow> applies (ec_signals c) (ec_categories c) = ec_expected c"

text \<open>The dict comprehension over the cases: a repeated identifier keeps the last result.\<close>

definition case_results :: "(string list \<Rightarrow> string list \<Rightarrow> bool) \<Rightarrow> evaluation_case list \<Rightarrow> (string \<times> bool) list" where
  "case_results applies cases = fold (\<lambda>c. AList.update (ec_id c) (case_decided applies c)) cases []"

definition false_positive :: "(string list \<Rightarrow> string list \<Rightarrow> bool) \<Rightarrow> evaluation_case \<Rightarrow> bool" where
  "false_positive applies c \<longleftrightarrow> \<not> ec_expected c \<and> applies (ec_signals c) (ec_categories c)"

definition false_positive_count :: "(string list \<Rightarrow> string list \<Rightarrow> bool) \<Rightarrow> evaluation_case list \<Rightarrow> nat" where
  "false_positive_count applies cases = length (filter (false_positive applies) cases)"

text \<open>\<open>sum(results.values()) / len(results)\<close>.\<close>

definition accuracy :: "(string \<times> bool) list \<Rightarrow> rat" where
  "accuracy results = to_double (of_nat (length (filter snd results)) / of_nat (length results))"

lemma update_fresh: "k \<notin> fst ` set al \<Longrightarrow> AList.update k v al = al @ [(k, v)]"
  by (induction al) auto

lemma fold_update_distinct:
  assumes "distinct (map f xs)" and "\<forall>x \<in> set xs. f x \<notin> fst ` set al"
  shows "fold (\<lambda>x. AList.update (f x) (g x)) xs al = al @ map (\<lambda>x. (f x, g x)) xs"
  using assms
proof (induction xs arbitrary: al)
  case (Cons x xs)
  then have "AList.update (f x) (g x) al = al @ [(f x, g x)]" by (intro update_fresh) simp
  moreover have "fold (\<lambda>x. AList.update (f x) (g x)) xs (al @ [(f x, g x)]) =
      (al @ [(f x, g x)]) @ map (\<lambda>x. (f x, g x)) xs"
    using Cons.prems by (intro Cons.IH) (auto, metis imageI)
  ultimately show ?case by simp
qed simp

lemma case_results_distinct:
  assumes "distinct (map ec_id cases)"
  shows "case_results applies cases = map (\<lambda>c. (ec_id c, case_decided applies c)) cases"
  unfolding case_results_def using fold_update_distinct[OF assms, of "[]"] by simp

text \<open>An accuracy of exactly 1.0 means that every case was decided as expected.\<close>

lemma accuracy_one:
  assumes "distinct (map ec_id cases)" and "cases \<noteq> []" and "length cases < 2 ^ 53"
  shows "accuracy (case_results applies cases) = 1 \<longleftrightarrow> list_all (case_decided applies) cases"
proof -
  let ?r = "case_results applies cases"
  have "filter snd ?r = map (\<lambda>c. (ec_id c, case_decided applies c)) (filter (case_decided applies) cases)"
    unfolding case_results_distinct[OF assms(1)] by (simp add: filter_map o_def)
  then have n: "length (filter snd ?r) = length (filter (case_decided applies) cases)" "length ?r = length cases"
    by (simp_all add: case_results_distinct[OF assms(1)])
  have "accuracy ?r = 1 \<longleftrightarrow> length (filter (case_decided applies) cases) = length cases"
    unfolding accuracy_def n using assms by (intro to_double_share) simp_all
  also have "\<dots> \<longleftrightarrow> list_all (case_decided applies) cases"
    by (metis filter_True length_filter_less less_irrefl list_all_iff)
  finally show ?thesis .
qed

lemma false_positive_none:
  "list_all (case_decided applies) cases \<Longrightarrow> false_positive_count applies cases = 0"
  by (auto simp: false_positive_count_def false_positive_def case_decided_def list_all_iff filter_empty_conv)

lemma within_scope_iff: "within_scope rs rc sigs cats \<longleftrightarrow> set rs \<subseteq> set sigs \<and> set rc \<subseteq> set cats"
  by (auto simp: within_scope_def list_all_iff)

text \<open>
  Both gates have the same five cases up to the categories: a proposal with signals \<open>s\<close> and
  categories \<open>c\<close> must match the first two and must not match the last three.
\<close>

definition worker_signals :: "string list" where
  "worker_signals = [''memory_pressure'', ''worker_concurrency_increased'', ''concurrency_correlated_oom'', ''oom_kill'']"

lemma worker_cases_decided:
  assumes "set c1 \<subseteq> set c2"
  shows "within_scope s c [''memory_pressure'', ''worker_concurrency_increased'', ''concurrency_correlated_oom'', ''oom_kill''] c1 \<and>
     within_scope s c [''http_503'', ''memory_pressure'', ''worker_concurrency_increased'', ''concurrency_correlated_oom'',
       ''oom_kill'', ''filesystem_normal''] c2 \<and>
     \<not> within_scope s c [''memory_pressure'', ''oom_kill''] c3 \<and>
     \<not> within_scope s c [''worker_concurrency_increased'', ''latency_high''] c4 \<and>
     \<not> within_scope s c [''http_503'', ''low_free_space'', ''rotation_error'', ''no_space_left''] c5 \<longleftrightarrow>
   set s \<subseteq> set worker_signals \<and> set c \<subseteq> set c1 \<and>
     \<not> within_scope s c [''memory_pressure'', ''oom_kill''] c3 \<and>
     \<not> within_scope s c [''worker_concurrency_increased''] c4 \<and> \<not> (s = [] \<and> set c \<subseteq> set c5)"
proof -
  have wl: "set s \<subseteq> set worker_signals \<Longrightarrow>
      set s \<subseteq> {''worker_concurrency_increased'', ''latency_high''} \<longleftrightarrow> set s \<subseteq> {''worker_concurrency_increased''}"
    unfolding worker_signals_def by auto
  have disk: "set s \<subseteq> set worker_signals \<Longrightarrow>
      set s \<subseteq> {''http_503'', ''low_free_space'', ''rotation_error'', ''no_space_left''} \<longleftrightarrow> s = []"
    by (cases s) (auto simp: worker_signals_def)
  have "set worker_signals \<subseteq> {''http_503'', ''memory_pressure'', ''worker_concurrency_increased'',
      ''concurrency_correlated_oom'', ''oom_kill'', ''filesystem_normal''}"
    by (simp add: worker_signals_def)
  then have noise: "set s \<subseteq> set worker_signals \<Longrightarrow> set s \<subseteq> {''http_503'', ''memory_pressure'',
      ''worker_concurrency_increased'', ''concurrency_correlated_oom'', ''oom_kill'', ''filesystem_normal''}"
    by (rule subset_trans[rotated])
  have four: "set worker_signals = {''memory_pressure'', ''worker_concurrency_increased'', ''concurrency_correlated_oom'', ''oom_kill''}"
    by (simp add: worker_signals_def)
  show ?thesis
  proof (cases "set s \<subseteq> set worker_signals")
    case True
    show ?thesis
      unfolding within_scope_iff list.set four[symmetric] wl[OF True] disk[OF True]
      using assms True noise[OF True] by (simp only: simp_thms) blast
  next
    case False
    then show ?thesis unfolding within_scope_iff list.set four[symmetric] by (simp only: simp_thms)
  qed
qed

section \<open>Research\<close>

text \<open>
  The three checks of a researched proposal; \<open>what\<close> is the subject of the messages and \<open>noun\<close> the
  name of its signals.
\<close>

definition check_observed ::
    "string \<Rightarrow> string \<Rightarrow> string list \<Rightarrow> string list \<Rightarrow> string list \<Rightarrow> (string \<times> diagnostic_observation) list \<Rightarrow> exn + unit"
where
  "check_observed what noun refs categories sigs obs =
     (if \<not> list_all (\<lambda>r. r \<in> fst ` set obs) refs
      then Inl (ValueError (what @ '' cited evidence that was not observed''))
      else if \<not> list_all (\<lambda>c. c \<in> set (observed_categories obs)) categories
      then Inl (ValueError (what @ '' requires an evidence category that was not observed''))
      else if \<not> list_all (\<lambda>s. s \<in> set (observed_signals obs)) sigs
      then Inl (ValueError (what @ '' uses '' @ noun @ '' that was not observed''))
      else Inr ())"

text \<open>A piece of evidence, a category or a signal that an observation of the thread backs.\<close>

definition backed_by :: "(diagnostic_observation \<Rightarrow> bool) \<Rightarrow> string list \<Rightarrow> string list \<Rightarrow> string list \<Rightarrow> bool" where
  "backed_by P refs categories sigs \<longleftrightarrow>
     (\<forall>r \<in> set refs. \<exists>ob. P ob \<and> dg_id ob = r) \<and>
     (\<forall>c \<in> set categories. \<exists>ob. P ob \<and> dg_category ob = c) \<and>
     (\<forall>s \<in> set sigs. \<exists>ob. P ob \<and> s \<in> set (dg_signals ob))"

lemma check_observed_backed:
  assumes "check_observed what noun refs categories sigs (observations_for thread tr) = Inr ()"
    and "traced P thread tr"
  shows "backed_by P refs categories sigs"
  using assms
  by (fastforce simp: check_observed_def backed_by_def traced_def observed_categories_def observed_signals_def
      list_all_iff split: if_splits)

lemma run_agent_traced:
  assumes "run_agent (diagnostic_tool target thread) ag (tr, w) = (res, (tr', w'))"
    and "answers P target" and "traced P u tr"
  shows "traced P u tr'"
  using run_agent_keeps[where I = "\<lambda>s. traced P u (fst s)" and s = "(tr, w)" and ag = ag
      and tools = "diagnostic_tool target thread"] diagnostic_tool_traced[OF assms(2)] assms(1,3) by simp

section \<open>The simulated reviewer\<close>

definition non_causal_context :: "string list" where
  "non_causal_context = [''http_503'', ''worker_unavailable'', ''cpu_normal'', ''filesystem_normal'', ''image_unchanged'']"

definition causal_signals :: "string list \<Rightarrow> string list" where
  "causal_signals = filter (\<lambda>s. s \<notin> set non_causal_context)"

definition causal_categories :: "string list \<Rightarrow> string list" where
  "causal_categories = filter (\<lambda>c. c \<noteq> ''health'')"

section \<open>A first promotion\<close>

definition first_registry ::
    "('p, 'e) registry_kind \<Rightarrow> ('p \<Rightarrow> 'e) \<Rightarrow> string \<Rightarrow> 'p \<Rightarrow> string \<Rightarrow> string \<Rightarrow> ('p, 'e) registry" where
  "first_registry k evaluate i p actor now = snd (review k i R_APPROVE actor evaluate None now (snd (submit k i p now empty_registry)))"

definition first_version ::
    "('p, 'e) registry_kind \<Rightarrow> ('p \<Rightarrow> 'e) \<Rightarrow> string \<Rightarrow> 'p \<Rightarrow> string \<Rightarrow> string \<Rightarrow> ('p, 'e) promoted_row" where
  "first_version k evaluate i p actor now =
     \<lparr>pr_id = rk_ident k p, pr_version = 1, pr_proposal = p, pr_source = i, pr_digest = rk_digest k p,
      pr_promoted_at = now, pr_promoted_by = actor, pr_evaluation = evaluate p\<rparr>"

lemma first_history: "registry_history k evaluate empty_registry (first_registry k evaluate i p actor now)"
proof -
  let ?g = "snd (submit k i p now empty_registry)"
  have "(registry_step k evaluate)\<^sup>*\<^sup>* empty_registry ?g" by (rule r_into_rtranclp, rule submitted)
  moreover have "registry_step k evaluate ?g (first_registry k evaluate i p actor now)"
    unfolding first_registry_def by (rule reviewed)
  ultimately show ?thesis unfolding registry_history_def by (rule rtranclp.rtrancl_into_rtrancl)
qed

lemma first_promoted:
  assumes "rk_passed k (evaluate p)" and "check_reviewer actor None = Inr ()"
  shows "promoted (first_registry k evaluate i p actor now) = [first_version k evaluate i p actor now]"
proof -
  let ?g = "snd (submit k i p now (empty_registry :: ('a, 'b) registry))"
  have g: "?g = \<lparr>candidates = [new_candidate k i p now None], promoted = []\<rparr>"
    by (subst submit_fresh) (simp_all add: empty_registry_def)
  have "registry_history k evaluate empty_registry ?g" for evaluate
    unfolding registry_history_def by (rule r_into_rtranclp, rule submitted)
  then have inv: "reg_inv k evaluate ?g" for evaluate by (rule history_inv) (rule reg_inv_empty)
  have "select_one cd_id i (candidates ?g) = Some (new_candidate k i p now None)" by (simp add: g)
  from review_of_pending[OF inv assms(2) this, where evaluate = evaluate and dec = R_APPROVE and now = now] show ?thesis
    using assms(1) unfolding first_registry_def
    by (simp add: promote_candidate_def g promoted_as_def first_version_def next_version_def)
qed

end
