(* ===== verification/Runbook.thy ===== *)
theory Runbook
  imports Learning
begin

text \<open>
  The runbook side of \<open>runbook_learning.py\<close>: research proposals with their validation and digest, the
  promotion evaluator with its five default cases, the disposable worker lab, research by an agent, and the
  simulated reviewer. The registry itself is the generic one, at \<open>runbook_kind\<close>.
\<close>

section \<open>Proposals\<close>

record runbook_proposal =
  rb_signature :: string
  rb_title :: string
  rb_summary :: string
  rb_signals :: "string list"
  rb_categories :: "string list"
  rb_steps :: "string list"
  rb_conclusion :: string
  rb_refs :: "string list"
  rb_confidence :: rat

text \<open>\<open>^[a-z0-9][a-z0-9.-]+$\<close>.\<close>

definition matches_signature :: "string \<Rightarrow> bool" where
  "matches_signature s \<longleftrightarrow>
     (case s of
        [] \<Rightarrow> False
      | c # r \<Rightarrow> (is_ascii_lower c \<or> is_digit c) \<and> r \<noteq> [] \<and>
          list_all (\<lambda>d. is_ascii_lower d \<or> is_digit d \<or> d = CHR ''.'' \<or> d = CHR ''-'') r)"

definition valid_runbook :: "runbook_proposal \<Rightarrow> bool" where
  "valid_runbook p \<longleftrightarrow>
     bounded_text 3 128 (rb_signature p) \<and> matches_signature (rb_signature p) \<and>
     bounded_text 3 160 (rb_title p) \<and> bounded_text 10 1000 (rb_summary p) \<and>
     sized 2 12 (rb_signals p) \<and> list_all signal_name (rb_signals p) \<and>
     sized 2 6 (rb_categories p) \<and> list_all (\<lambda>c. c \<in> set EVIDENCE_CATEGORIES) (rb_categories p) \<and>
     sized 2 8 (rb_steps p) \<and> list_all diagnostic_step (rb_steps p) \<and>
     bounded_text 10 1000 (rb_conclusion p) \<and>
     sized 2 12 (rb_refs p) \<and> list_all evidence_name (rb_refs p) \<and> unit_interval (rb_confidence p)"

definition check_runbook :: "runbook_proposal \<Rightarrow> exn + runbook_proposal" where
  "check_runbook p = (if valid_runbook p then Inr p else Inl ValidationError)"

definition runbook_json :: "runbook_proposal \<Rightarrow> json" where
  "runbook_json p =
     JObj [(''problem_signature'', JStr (rb_signature p)), (''title'', JStr (rb_title p)),
           (''summary'', JStr (rb_summary p)), (''applicability_signals'', json_strs (rb_signals p)),
           (''required_evidence_categories'', json_strs (rb_categories p)),
           (''diagnostic_steps'', json_strs (rb_steps p)), (''conclusion'', JStr (rb_conclusion p)),
           (''source_evidence_refs'', json_strs (rb_refs p)), (''confidence'', JFloat (rb_confidence p))]"

definition runbook_digest :: "(string \<Rightarrow> string) \<Rightarrow> (rat \<Rightarrow> string) \<Rightarrow> runbook_proposal \<Rightarrow> string" where
  "runbook_digest sha fr p = sha (json_text fr (runbook_json p))"

definition runbook_matches :: "runbook_proposal \<Rightarrow> string list \<Rightarrow> string list \<Rightarrow> bool" where
  "runbook_matches p sigs categories \<longleftrightarrow> within_scope (rb_signals p) (rb_categories p) sigs categories"

section \<open>The promotion evaluator\<close>

definition RUNBOOK_PROMOTION_CASES :: "evaluation_case list" where
  "RUNBOOK_PROMOTION_CASES =
     [\<lparr>ec_id = ''same-worker-failure'',
       ec_signals = [''memory_pressure'', ''worker_concurrency_increased'', ''concurrency_correlated_oom'', ''oom_kill''],
       ec_categories = [''health'', ''resources'', ''changes'', ''logs''], ec_expected = True\<rparr>,
      \<lparr>ec_id = ''same-failure-with-noise'',
       ec_signals = [''http_503'', ''memory_pressure'', ''worker_concurrency_increased'', ''concurrency_correlated_oom'',
         ''oom_kill'', ''filesystem_normal''],
       ec_categories = [''health'', ''resources'', ''changes'', ''logs''], ec_expected = True\<rparr>,
      \<lparr>ec_id = ''generic-memory-pressure'', ec_signals = [''memory_pressure'', ''oom_kill''],
       ec_categories = [''health'', ''resources'', ''logs''], ec_expected = False\<rparr>,
      \<lparr>ec_id = ''concurrency-without-oom'', ec_signals = [''worker_concurrency_increased'', ''latency_high''],
       ec_categories = [''health'', ''changes''], ec_expected = False\<rparr>,
      \<lparr>ec_id = ''disk-exhaustion'', ec_signals = [''http_503'', ''low_free_space'', ''rotation_error'', ''no_space_left''],
       ec_categories = [''health'', ''resources'', ''logs''], ec_expected = False\<rparr>]"

record runbook_evaluation =
  rv_passed :: bool
  rv_case_count :: nat
  rv_accuracy :: rat
  rv_false_positives :: nat
  rv_bounded_steps :: bool
  rv_sufficient_confidence :: bool
  rv_results :: "(string \<times> bool) list"

text \<open>The constructor refuses an empty tuple of cases, so the accuracy has a divisor.\<close>

definition new_runbook_evaluator :: "evaluation_case list \<Rightarrow> exn + evaluation_case list" where
  "new_runbook_evaluator cases =
     (if cases = [] then Inl (ValueError ''runbook promotion requires evaluation cases'') else Inr cases)"

definition evaluate_runbook :: "evaluation_case list \<Rightarrow> runbook_proposal \<Rightarrow> runbook_evaluation" where
  "evaluate_runbook cases p =
     (let results = case_results (runbook_matches p) cases;
          false_positives = false_positive_count (runbook_matches p) cases;
          bounded_steps = sized 2 8 (rb_steps p);
          sufficient_confidence = (to_double (8 / 10) \<le> rb_confidence p) in
      \<lparr>rv_passed = (accuracy results = 1 \<and> false_positives = 0 \<and> bounded_steps \<and> sufficient_confidence),
       rv_case_count = length results, rv_accuracy = accuracy results, rv_false_positives = false_positives,
       rv_bounded_steps = bounded_steps, rv_sufficient_confidence = sufficient_confidence, rv_results = results\<rparr>)"

definition runbook_kind ::
    "(string \<Rightarrow> string) \<Rightarrow> (rat \<Rightarrow> string) \<Rightarrow> (runbook_proposal, runbook_evaluation) registry_kind" where
  "runbook_kind sha fr =
     \<lparr>rk_word = ''runbook'', rk_digest = runbook_digest sha fr, rk_ident = rb_signature, rk_passed = rv_passed\<rparr>"

type_synonym runbooks = "(runbook_proposal, runbook_evaluation) registry"

definition find_runbooks ::
    "(string \<Rightarrow> string) \<Rightarrow> (rat \<Rightarrow> string) \<Rightarrow> string list \<Rightarrow> string list \<Rightarrow> runbooks
       \<Rightarrow> exn + (runbook_proposal, runbook_evaluation) promoted_row list"
where
  "find_runbooks sha fr sigs categories = find_applicable (runbook_kind sha fr) (\<lambda>p. runbook_matches p sigs categories)"

section \<open>The worker lab\<close>

definition worker_memory_pressure_lab :: "'w diagnostic_target" where
  "worker_memory_pressure_lab =
     \<lparr>dt_health = readS (\<lambda>_. observation ''health-1'' ''health''
        ''The owned disposable worker API intermittently returns HTTP 503.''
        [''http_503'', ''worker_unavailable''] [(''status_code'', JInt 503)]),
      dt_resources = readS (\<lambda>_. observation ''resources-1'' ''resources''
        ''Worker memory is at 96 percent while CPU and filesystem capacity remain normal.''
        [''memory_pressure'', ''cpu_normal'', ''filesystem_normal'']
        [(''memory_percent'', JFloat 96), (''cpu_percent'', JFloat 19), (''free_bytes'', JInt 805306368)]),
      dt_logs = readS (\<lambda>_. observation ''logs-1'' ''logs''
        ''Bounded logs show workers exceeding their memory limit and being OOM-killed when twelve jobs run concurrently.''
        [''oom_kill'', ''concurrency_correlated_oom'']
        [(''oom_kill_count'', JInt 4), (''observed_concurrency'', JInt 12)]),
      dt_changes = readS (\<lambda>_. observation ''changes-1'' ''changes''
        ''Worker concurrency increased from 4 to 12 shortly before failures began; the application image did not change.''
        [''worker_concurrency_increased'', ''image_unchanged'']
        [(''previous_concurrency'', JInt 4), (''current_concurrency'', JInt 12)])\<rparr>"

section \<open>Research and review\<close>

definition validate_runbook_research ::
    "runbook_proposal \<Rightarrow> (string \<times> diagnostic_observation) list \<Rightarrow> exn + runbook_proposal" where
  "validate_runbook_research response obs =
     bindE (check_runbook response) (\<lambda>p.
     bindE (check_observed ''runbook candidate'' ''an applicability signal'' (rb_refs p) (rb_categories p) (rb_signals p) obs)
       (\<lambda>_. Inr p))"

definition research_runbook ::
    "'w diagnostic_target \<Rightarrow> runbook_proposal agent \<Rightarrow> string \<Rightarrow> (trace \<times> 'w, runbook_proposal) action" where
  "research_runbook target ag thread =
     bindS (run_agent (diagnostic_tool target thread) ag) (\<lambda>response.
     readS (\<lambda>(tr, w). validate_runbook_research response (observations_for thread tr)))"

definition revised_runbook :: "runbook_proposal \<Rightarrow> exn + runbook_proposal" where
  "revised_runbook p =
     check_runbook (p\<lparr>rb_signals := causal_signals (rb_signals p), rb_categories := causal_categories (rb_categories p)\<rparr>)"

section \<open>What passes the gate\<close>

text \<open>
  The proposals that decide all five default cases as expected, with bounded steps and confidence: the
  causal signals only, and more than memory pressure alone or a raised concurrency alone.
\<close>

definition runbook_good :: "runbook_proposal \<Rightarrow> bool" where
  "runbook_good p \<longleftrightarrow>
     set (rb_signals p) \<subseteq> set worker_signals \<and>
     set (rb_categories p) \<subseteq> {''health'', ''resources'', ''changes'', ''logs''} \<and>
     \<not> runbook_matches p [''memory_pressure'', ''oom_kill''] [''health'', ''resources'', ''logs''] \<and>
     \<not> runbook_matches p [''worker_concurrency_increased''] [''health'', ''changes''] \<and>
     \<not> (rb_signals p = [] \<and> set (rb_categories p) \<subseteq> {''health'', ''resources'', ''logs''}) \<and>
     sized 2 8 (rb_steps p) \<and> to_double (8 / 10) \<le> rb_confidence p"

lemma runbook_passed_good: "rv_passed (evaluate_runbook RUNBOOK_PROMOTION_CASES p) \<longleftrightarrow> runbook_good p"
proof -
  have "distinct (map ec_id RUNBOOK_PROMOTION_CASES)" "RUNBOOK_PROMOTION_CASES \<noteq> []" "length RUNBOOK_PROMOTION_CASES < 2 ^ 53"
    by (simp_all add: RUNBOOK_PROMOTION_CASES_def)
  from accuracy_one[OF this, of "runbook_matches p"] false_positive_none
  have "rv_passed (evaluate_runbook RUNBOOK_PROMOTION_CASES p) \<longleftrightarrow>
     list_all (case_decided (runbook_matches p)) RUNBOOK_PROMOTION_CASES \<and> sized 2 8 (rb_steps p) \<and>
     to_double (8 / 10) \<le> rb_confidence p"
    by (auto simp: evaluate_runbook_def Let_def)
  moreover have "list_all (case_decided (runbook_matches p)) RUNBOOK_PROMOTION_CASES \<longleftrightarrow>
     set (rb_signals p) \<subseteq> set worker_signals \<and> set (rb_categories p) \<subseteq> {''health'', ''resources'', ''changes'', ''logs''} \<and>
     \<not> runbook_matches p [''memory_pressure'', ''oom_kill''] [''health'', ''resources'', ''logs''] \<and>
     \<not> runbook_matches p [''worker_concurrency_increased''] [''health'', ''changes''] \<and>
     \<not> (rb_signals p = [] \<and> set (rb_categories p) \<subseteq> {''health'', ''resources'', ''logs''})"
    using worker_cases_decided[of "[''health'', ''resources'', ''changes'', ''logs'']" "[''health'', ''resources'', ''changes'', ''logs'']"
        "rb_signals p" "rb_categories p" "[''health'', ''resources'', ''logs'']" "[''health'', ''changes'']" "[''health'', ''resources'', ''logs'']"]
    by (simp only: RUNBOOK_PROMOTION_CASES_def case_decided_def runbook_matches_def list.pred_inject evaluation_case.simps
        eq_True eq_False simp_thms list.set subset_refl)
  ultimately show ?thesis unfolding runbook_good_def by blast
qed

interpretation runbook_gate: promotion_gate "runbook_kind sha fr" "evaluate_runbook RUNBOOK_PROMOTION_CASES" runbook_good
  for sha :: "string \<Rightarrow> string" and fr :: "rat \<Rightarrow> string"
  by unfold_locales (simp add: runbook_kind_def runbook_passed_good)

section \<open>Properties\<close>

text \<open>C18: Only reviewed and evaluated knowledge is found: whatever was submitted, revised and reviewed since the
  registry was created, a runbook that a search returns is the newest version of its signature, applies to the
  signals and categories searched for, has the digest it was stored under, comes from a candidate that the
  named reviewer approved, and decides all promotion cases as expected with bounded steps and confidence.\<close>

theorem promoted_runbook_sound:
  assumes "registry_history (runbook_kind sha fr) (evaluate_runbook RUNBOOK_PROMOTION_CASES) empty_registry g"
    and "find_runbooks sha fr sigs categories g = Inr rs" and "r \<in> set rs"
  shows "runbook_good (pr_proposal r) \<and> runbook_matches (pr_proposal r) sigs categories \<and> is_latest g r \<and>
    pr_digest r = runbook_digest sha fr (pr_proposal r) \<and>
    (\<exists>c \<in> set (candidates g). cd_id c = pr_source r \<and> cd_state c = C_PROMOTED \<and> cd_proposal c = pr_proposal r \<and>
       cd_reviewer c = Some (pr_promoted_by r))"
proof -
  note found = runbook_gate.found_good[OF assms(1) assms(2)[unfolded find_runbooks_def] assms(3)]
  have "r \<in> set (promoted g)"
    using assms(2,3) unfolding find_runbooks_def find_applicable_def collect_matches_iff by (auto simp: latest_rows_set)
  from runbook_gate.promoted_reviewed[OF assms(1) this] found show ?thesis
    by (auto simp: row_of_def runbook_kind_def)
qed

text \<open>C19: The registry is append-only: along every history no promoted version is removed or changed, no
  candidate's content changes, a decided candidate stays as it is, and the versions of every identifier are
  numbered 1, 2, 3 without a gap.\<close>

theorem registry_append_only:
  assumes "registry_history k evaluate empty_registry g" and "registry_history k evaluate g g'"
  shows "prefix (promoted g) (promoted g') \<and>
    prefix (map (\<lambda>c. (cd_id c, cd_proposal c, cd_digest c)) (candidates g))
      (map (\<lambda>c. (cd_id c, cd_proposal c, cd_digest c)) (candidates g')) \<and>
    (\<forall>c \<in> set (candidates g). cd_state c \<noteq> C_PENDING_REVIEW \<longrightarrow> c \<in> set (candidates g')) \<and>
    (\<forall>i. map pr_version (filter (\<lambda>r. pr_id r = i) (promoted g')) =
       [1..<Suc (length (filter (\<lambda>r. pr_id r = i) (promoted g')))])"
proof -
  have inv: "reg_inv k evaluate g" by (rule history_inv[OF assms(1) reg_inv_empty])
  then have "reg_inv k evaluate g'" by (rule history_inv[OF assms(2)])
  with history_extends[OF assms(2) inv] show ?thesis unfolding reg_extends_def reg_inv_def by blast
qed

definition worker_observation :: "diagnostic_observation \<Rightarrow> bool" where
  "worker_observation ob \<longleftrightarrow>
     set (dg_signals ob) \<subseteq> set (worker_signals @ non_causal_context) \<and>
     dg_category ob \<in> {''health'', ''resources'', ''changes'', ''logs''}"

lemma worker_lab_answers: "answers worker_observation worker_memory_pressure_lab"
  by (auto simp: answers_def worker_memory_pressure_lab_def readS_def observation_def check_observation_def
      worker_observation_def worker_signals_def non_causal_context_def split: if_splits)

text \<open>What an agent found out about the disposable worker, once the simulated reviewer has dropped the
  symptoms, passes the promotion gate exactly when it is confident enough and names more than memory pressure
  seen in resources and logs, and more than a raised concurrency seen in recent changes.\<close>

theorem reviewed_research_passes:
  assumes "research_runbook worker_memory_pressure_lab ag thread (tr, w) = (Inr p, (tr', w'))"
    and "traced worker_observation thread tr" and "revised_runbook p = Inr q"
  shows "rv_passed (evaluate_runbook RUNBOOK_PROMOTION_CASES q) \<longleftrightarrow>
    to_double (8 / 10) \<le> rb_confidence p \<and>
    \<not> (set (rb_signals q) \<subseteq> {''memory_pressure'', ''oom_kill''} \<and> set (rb_categories q) \<subseteq> {''resources'', ''logs''}) \<and>
    \<not> (set (rb_signals q) \<subseteq> {''worker_concurrency_increased''} \<and> set (rb_categories q) \<subseteq> {''changes''})"
proof -
  from assms(1) obtain response where run: "run_agent (diagnostic_tool worker_memory_pressure_lab thread) ag (tr, w) = (Inr response, (tr', w'))"
    and v: "validate_runbook_research response (observations_for thread tr') = Inr p"
    by (auto simp: research_runbook_def bindS_Inr_iff)
  have "traced worker_observation thread tr'" by (rule run_agent_traced[OF run worker_lab_answers assms(2)])
  moreover have "check_observed ''runbook candidate'' ''an applicability signal'' (rb_refs p) (rb_categories p)
      (rb_signals p) (observations_for thread tr') = Inr ()"
    using v by (auto simp: validate_runbook_research_def results check_runbook_def split: if_splits)
  ultimately have b: "backed_by worker_observation (rb_refs p) (rb_categories p) (rb_signals p)"
    by (rule check_observed_backed[rotated])
  have q: "valid_runbook q" "rb_signals q = causal_signals (rb_signals p)"
      "rb_categories q = causal_categories (rb_categories p)" "rb_confidence q = rb_confidence p"
    using assms(3) by (auto simp: revised_runbook_def check_runbook_def split: if_splits)
  have sigs: "set (rb_signals q) \<subseteq> set worker_signals"
    using b by (fastforce simp: q(2) causal_signals_def backed_by_def worker_observation_def)
  have cats: "set (rb_categories q) \<subseteq> {''resources'', ''changes'', ''logs''}"
    using b by (fastforce simp: q(3) causal_categories_def backed_by_def worker_observation_def)
  have "rb_signals q \<noteq> []" "sized 2 8 (rb_steps q)" using q(1) by (auto simp: valid_runbook_def sized_def)
  moreover have "set (rb_categories q) \<subseteq> insert ''health'' X \<longleftrightarrow> set (rb_categories q) \<subseteq> X" for X
    using cats by (auto simp: subset_insert)
  moreover have "set (rb_categories q) \<subseteq> {''resources'', ''changes'', ''logs''}" by (rule cats)
  ultimately show ?thesis
    unfolding runbook_passed_good runbook_good_def runbook_matches_def within_scope_iff list.set q(4)[symmetric]
    using sigs by (simp only: simp_thms) blast
qed

section \<open>Witnesses\<close>

definition sample_runbook :: runbook_proposal where
  "sample_runbook =
     \<lparr>rb_signature = ''worker-oom'', rb_title = ''Worker OOM'', rb_summary = ''Concurrency exhausts memory.'',
      rb_signals = [''memory_pressure'', ''worker_concurrency_increased'', ''oom_kill'', ''http_503''],
      rb_categories = [''health'', ''resources'', ''changes'', ''logs''], rb_steps = [''Check memory.'', ''Check changes.''],
      rb_conclusion = ''Concurrency was raised.'', rb_refs = [''resources-1'', ''changes-1'', ''logs-1''], rb_confidence = 1\<rparr>"

definition sample_revision :: runbook_proposal where
  "sample_revision = sample_runbook\<lparr>rb_signals := [''memory_pressure'', ''worker_concurrency_increased'', ''oom_kill''],
     rb_categories := [''resources'', ''changes'', ''logs'']\<rparr>"

lemma to_double_confidence [simp]: "to_double (4 / 5) \<le> 1"
proof -
  have "\<bar>to_double (4 / 5) - 4 / 5\<bar> \<le> 1 / 2 ^ 54" by (rule to_double_near) simp_all
  from abs_le_D1[OF this] have "to_double (4 / 5) \<le> 4 / 5 + 1 / 2 ^ 54" by (simp only: diff_le_eq add.commute)
  also have "\<dots> \<le> 1" by simp
  finally show ?thesis .
qed

lemma sample_revision_good: "runbook_good sample_revision"
  by (simp add: runbook_good_def sample_revision_def sample_runbook_def worker_signals_def runbook_matches_def
      within_scope_iff sized_def)

lemma sample_revision_passed:
  "rk_passed (runbook_kind sha fr) (evaluate_runbook RUNBOOK_PROMOTION_CASES sample_revision)"
  using sample_revision_good by (simp add: runbook_kind_def runbook_passed_good)

text \<open>A digest of the right length, for the examples.\<close>

definition sample_sha :: "string \<Rightarrow> string" where "sample_sha s = replicate 64 (CHR ''a'')"

abbreviation sample_runbooks :: runbooks where
  "sample_runbooks \<equiv> first_registry (runbook_kind sample_sha fraction_text) (evaluate_runbook RUNBOOK_PROMOTION_CASES)
     ''c1'' sample_revision ''sre'' ''t1''"

lemma sample_promoted:
  "promoted sample_runbooks = [first_version (runbook_kind sample_sha fraction_text) (evaluate_runbook RUNBOOK_PROMOTION_CASES)
     ''c1'' sample_revision ''sre'' ''t1'']"
  by (rule first_promoted[where evaluate = "evaluate_runbook RUNBOOK_PROMOTION_CASES", OF sample_revision_passed])
    (simp add: check_reviewer_def)

theorem promoted_runbook_sound_witness:
  "\<exists>rs. find_runbooks sample_sha fraction_text [''memory_pressure'', ''worker_concurrency_increased'', ''oom_kill'']
     [''resources'', ''changes'', ''logs''] sample_runbooks = Inr rs \<and> length rs = 1 \<and>
     (\<forall>r \<in> set rs. runbook_good (pr_proposal r))"
proof -
  let ?k = "runbook_kind sample_sha fraction_text"
  have h: "registry_history ?k (evaluate_runbook RUNBOOK_PROMOTION_CASES) empty_registry sample_runbooks"
    by (rule first_history)
  have "length (latest_rows sample_runbooks) = 1" "\<forall>r \<in> set (latest_rows sample_runbooks). pr_proposal r = sample_revision"
    by (simp_all add: latest_rows_def sample_promoted is_latest_def first_version_def)
  then have f: "find_runbooks sample_sha fraction_text [''memory_pressure'', ''worker_concurrency_increased'', ''oom_kill'']
      [''resources'', ''changes'', ''logs''] sample_runbooks = Inr (latest_rows sample_runbooks)"
    unfolding find_runbooks_def find_applicable_inv[OF history_inv[OF h reg_inv_empty]]
    by (simp add: filter_True runbook_matches_def within_scope_iff sample_revision_def)
  with promoted_runbook_sound[OF h f] \<open>length (latest_rows sample_runbooks) = 1\<close> show ?thesis by blast
qed

theorem registry_append_only_witness:
  "prefix (promoted sample_runbooks) (promoted (snd (submit (runbook_kind sample_sha fraction_text) ''c2'' sample_runbook ''t2'' sample_runbooks)))
   \<and> promoted sample_runbooks \<noteq> []"
proof -
  let ?k = "runbook_kind sample_sha fraction_text" and ?e = "evaluate_runbook RUNBOOK_PROMOTION_CASES"
  let ?g = "snd (submit ?k ''c2'' sample_runbook ''t2'' sample_runbooks)"
  have h: "registry_history ?k ?e sample_runbooks ?g"
    unfolding registry_history_def by (rule r_into_rtranclp, rule submitted)
  have "registry_history ?k ?e empty_registry sample_runbooks" by (rule first_history)
  from registry_append_only[OF this h] sample_promoted show ?thesis by simp
qed

definition sample_worker_trace :: trace where
  "sample_worker_trace = [(''k'', \<lparr>tr_observations =
     [(''resources-1'', \<lparr>dg_id = ''resources-1'', dg_category = ''resources'', dg_summary = ''s'', dg_signals = [''memory_pressure'', ''oom_kill''],
         dg_measurements = []\<rparr>),
      (''changes-1'', \<lparr>dg_id = ''changes-1'', dg_category = ''changes'', dg_summary = ''s'',
         dg_signals = [''worker_concurrency_increased''], dg_measurements = []\<rparr>),
      (''logs-1'', \<lparr>dg_id = ''logs-1'', dg_category = ''logs'', dg_summary = ''s'', dg_signals = [''oom_kill''], dg_measurements = []\<rparr>),
      (''health-1'', \<lparr>dg_id = ''health-1'', dg_category = ''health'', dg_summary = ''s'', dg_signals = [''http_503''], dg_measurements = []\<rparr>)],
     tr_tool_calls = []\<rparr>)]"

lemma sample_runbook_valid: "valid_runbook sample_runbook" "valid_runbook sample_revision"
  by (simp_all add: valid_runbook_def sample_revision_def sample_runbook_def bounded_text_def matches_signature_def sized_def
      signal_name_def matches_name_def evidence_char_def target_char_def is_ascii_lower_def is_digit_def char_in_def code_def
      EVIDENCE_CATEGORIES_def diagnostic_step_def evidence_name_def unit_interval_def)

theorem reviewed_research_passes_witness:
  "rv_passed (evaluate_runbook RUNBOOK_PROMOTION_CASES sample_revision) \<and>
   revised_runbook sample_runbook = Inr sample_revision"
proof -
  have "research_runbook worker_memory_pressure_lab (Answer sample_runbook) ''k'' (sample_worker_trace, ()) =
      (Inr sample_runbook, (sample_worker_trace, ()))"
    using sample_runbook_valid
    by (simp add: research_runbook_def bindS_def returnS_def readS_def validate_runbook_research_def check_runbook_def
        check_observed_def sample_worker_trace_def observations_for_def trace_run_of_def observed_categories_def
        observed_signals_def sample_runbook_def)
  moreover have "traced worker_observation ''k'' sample_worker_trace"
    by (simp add: traced_def observations_for_def trace_run_of_def sample_worker_trace_def worker_observation_def
        worker_signals_def non_causal_context_def)
  moreover have r: "revised_runbook sample_runbook = Inr sample_revision"
    using sample_runbook_valid(2)
    by (simp add: revised_runbook_def check_runbook_def sample_revision_def sample_runbook_def causal_signals_def
        causal_categories_def non_causal_context_def)
  ultimately show ?thesis
    using reviewed_research_passes[of "Answer sample_runbook" "''k''" sample_worker_trace "()"]
    by (simp add: sample_revision_def sample_runbook_def)
qed

end
