(* ===== verification/Knowledge.thy ===== *)
theory Knowledge
  imports Runbook
begin

text \<open>
  \<open>runbook_application_eval.py\<close>: the tools with which an agent searches and opens promoted knowledge, the
  trace that records what a thread searched and opened, the validation of a diagnosis against both traces,
  and the scores of an evaluation. The tools and the trace of \<open>capability_learning.py\<close> are the same code
  over another registry; what differs is the record \<open>knowledge_source\<close>. The registry does not change while
  an investigation runs.
\<close>

section \<open>Citations and the knowledge trace\<close>

record citation =
  ct_id :: string
  ct_version :: nat
  ct_digest :: string

definition valid_citation :: "citation \<Rightarrow> bool" where
  "valid_citation c \<longleftrightarrow> bounded_text 3 128 (ct_id c) \<and> 1 \<le> ct_version c \<and> length (ct_digest c) = 64"

definition check_citation :: "citation \<Rightarrow> exn + citation" where
  "check_citation c = (if valid_citation c then Inr c else Inl ValidationError)"

definition citation_json :: "string \<Rightarrow> citation \<Rightarrow> json" where
  "citation_json id_name c =
     JObj [(id_name, JStr (ct_id c)), (''version'', JInt (int (ct_version c))), (''content_digest'', JStr (ct_digest c))]"

definition citation_of :: "('p, 'e) promoted_row \<Rightarrow> citation" where
  "citation_of r = \<lparr>ct_id = pr_id r, ct_version = pr_version r, ct_digest = pr_digest r\<rparr>"

record knowledge_trace =
  kn_found :: "(string \<times> (string \<times> int) list) list"
  kn_opened :: "(string \<times> citation list) list"
  kn_calls :: "(string \<times> string list) list"

definition empty_knowledge :: knowledge_trace where
  "empty_knowledge = \<lparr>kn_found = [], kn_opened = [], kn_calls = []\<rparr>"

text \<open>\<open>d.get(key, [])\<close> and \<open>d.setdefault(key, []).append(x)\<close>.\<close>

definition entries :: "string \<Rightarrow> (string \<times> 'a list) list \<Rightarrow> 'a list" where
  "entries key d = (case map_of d key of None \<Rightarrow> [] | Some xs \<Rightarrow> xs)"

definition append_entry :: "string \<Rightarrow> 'a \<Rightarrow> (string \<times> 'a list) list \<Rightarrow> (string \<times> 'a list) list" where
  "append_entry key x d = AList.update key (entries key d @ [x]) d"

definition record_search ::
    "string \<Rightarrow> string \<Rightarrow> ('p, 'e) promoted_row list \<Rightarrow> knowledge_trace \<Rightarrow> knowledge_trace" where
  "record_search tool thread rows kn =
     kn\<lparr>kn_found := AList.update thread (map (\<lambda>r. (pr_id r, int (pr_version r))) rows) (kn_found kn),
        kn_calls := append_entry thread tool (kn_calls kn)\<rparr>"

definition may_open :: "string \<Rightarrow> string \<Rightarrow> int \<Rightarrow> knowledge_trace \<Rightarrow> bool" where
  "may_open thread i v kn \<longleftrightarrow> (i, v) \<in> set (entries thread (kn_found kn))"

definition record_open ::
    "string \<Rightarrow> string \<Rightarrow> ('p, 'e) promoted_row \<Rightarrow> knowledge_trace \<Rightarrow> exn + (citation \<times> knowledge_trace)" where
  "record_open tool thread r kn =
     bindE (check_citation (citation_of r)) (\<lambda>c.
     Inr (c, kn\<lparr>kn_opened := append_entry thread c (kn_opened kn), kn_calls := append_entry thread tool (kn_calls kn)\<rparr>))"

definition opened_for :: "string \<Rightarrow> knowledge_trace \<Rightarrow> citation list" where
  "opened_for thread kn = entries thread (kn_opened kn)"

definition knowledge_calls_for :: "string \<Rightarrow> knowledge_trace \<Rightarrow> string list" where
  "knowledge_calls_for thread kn = entries thread (kn_calls kn)"

section \<open>Searching and opening\<close>

record ('p, 'e) knowledge_source =
  ks_kind :: "('p, 'e) registry_kind"
  ks_registry :: "('p, 'e) registry"
  ks_applies :: "string list \<Rightarrow> string list \<Rightarrow> 'p \<Rightarrow> bool"
  ks_search :: string
  ks_open :: string
  ks_id_name :: string
  ks_categories :: "'p \<Rightarrow> string list"
  ks_summary :: "('p, 'e) promoted_row \<Rightarrow> json"
  ks_details :: "json \<Rightarrow> ('p, 'e) promoted_row \<Rightarrow> json"

type_synonym 'w knowing = "(trace \<times> 'w) \<times> knowledge_trace"

definition search_tool :: "('p, 'e) knowledge_source \<Rightarrow> string \<Rightarrow> ('w knowing, json) action" where
  "search_tool ks thread =
     (\<lambda>((tr, w), kn).
        let obs = observations_for thread tr in
        case find_applicable (ks_kind ks) (ks_applies ks (observed_signals obs) (observed_categories obs)) (ks_registry ks) of
          Inl e \<Rightarrow> (Inl e, ((tr, w), kn))
        | Inr rows \<Rightarrow> (Inr (JList (map (ks_summary ks) rows)), ((tr, w), record_search (ks_search ks) thread rows kn)))"

text \<open>The arguments the framework validates before it calls the tool: an identifier and an integer version.\<close>

definition open_arguments :: "string \<Rightarrow> json \<Rightarrow> exn + (string \<times> int)" where
  "open_arguments id_name args =
     (case args of
        JObj kvs \<Rightarrow>
          (case (json_get id_name kvs, json_get ''version'' kvs) of
             (Some (JStr i), Some (JInt v)) \<Rightarrow> Inr (i, v)
           | _ \<Rightarrow> Inl ValidationError)
      | _ \<Rightarrow> Inl ValidationError)"

definition open_tool :: "('p, 'e) knowledge_source \<Rightarrow> string \<Rightarrow> json \<Rightarrow> ('w knowing, json) action" where
  "open_tool ks thread args =
     (\<lambda>(s, kn).
        case bindE (open_arguments (ks_id_name ks) args) (\<lambda>(i, v).
          if \<not> may_open thread i v kn
          then Inl (ValueError (rk_word (ks_kind ks) @ '' was not returned by the current investigation search''))
          else bindE (get_promoted (ks_kind ks) i (nat v) (ks_registry ks)) (\<lambda>r.
            bindE (record_open (ks_open ks) thread r kn) (\<lambda>(c, kn').
            Inr (ks_details ks (citation_json (ks_id_name ks) c) r, kn')))) of
          Inl e \<Rightarrow> (Inl e, (s, kn))
        | Inr (j, kn') \<Rightarrow> (Inr j, (s, kn')))"

text \<open>The diagnostic tools work on the first part of the state.\<close>

definition lift_tool :: "('s, 'a) action \<Rightarrow> ('s \<times> 'k, 'a) action" where
  "lift_tool m = (\<lambda>(s, k). case m s of (r, s') \<Rightarrow> (r, (s', k)))"

definition knowing_tool ::
    "('p, 'e) knowledge_source \<Rightarrow> 'w diagnostic_target \<Rightarrow> string \<Rightarrow> string \<Rightarrow> json \<Rightarrow> ('w knowing, json) action" where
  "knowing_tool ks target thread name args =
     (if name = ks_search ks then search_tool ks thread
      else if name = ks_open ks then open_tool ks thread args
      else lift_tool (diagnostic_tool target thread name args))"

definition runbook_scope_text :: string where
  "runbook_scope_text =
     ''EVIDENCE-SCOPE CONTRACT: this runbook is supported only by observations in the '' @
     ''required_evidence_categories list above. In your final diagnosis cite ONLY observations '' @
     ''whose category is in that list; observations in any other category (such as a generic '' @
     ''health status) are symptoms rather than causal evidence and must not be cited.''"

definition runbook_summary :: "(runbook_proposal, runbook_evaluation) promoted_row \<Rightarrow> json" where
  "runbook_summary r =
     JObj [(''runbook_id'', JStr (pr_id r)), (''version'', JInt (int (pr_version r))),
           (''title'', JStr (rb_title (pr_proposal r))), (''summary'', JStr (rb_summary (pr_proposal r)))]"

definition runbook_details :: "json \<Rightarrow> (runbook_proposal, runbook_evaluation) promoted_row \<Rightarrow> json" where
  "runbook_details c r =
     JObj [(''citation'', c), (''title'', JStr (rb_title (pr_proposal r))),
           (''applicability_signals'', json_strs (rb_signals (pr_proposal r))),
           (''required_evidence_categories'', json_strs (rb_categories (pr_proposal r))),
           (''diagnostic_steps'', json_strs (rb_steps (pr_proposal r))),
           (''conclusion'', JStr (rb_conclusion (pr_proposal r))), (''evidence_scope'', JStr runbook_scope_text)]"

definition runbook_source ::
    "(string \<Rightarrow> string) \<Rightarrow> (rat \<Rightarrow> string) \<Rightarrow> runbooks \<Rightarrow> (runbook_proposal, runbook_evaluation) knowledge_source" where
  "runbook_source sha fr g =
     \<lparr>ks_kind = runbook_kind sha fr, ks_registry = g, ks_applies = (\<lambda>sigs categories p. runbook_matches p sigs categories),
      ks_search = ''search_approved_runbooks'', ks_open = ''open_approved_runbook'', ks_id_name = ''runbook_id'',
      ks_categories = rb_categories,
      ks_summary = runbook_summary, ks_details = runbook_details\<rparr>"

section \<open>Checking references and citations\<close>

text \<open>The union of what the opened versions require; a version that is gone is skipped.\<close>

fun required_categories :: "('p, 'e) knowledge_source \<Rightarrow> citation list \<Rightarrow> exn + string list" where
  "required_categories ks [] = Inr []"
| "required_categories ks (c # cs) =
     (case get_promoted (ks_kind ks) (ct_id c) (ct_version c) (ks_registry ks) of
        Inr r \<Rightarrow> bindE (required_categories ks cs) (\<lambda>rest. Inr (ks_categories ks (pr_proposal r) @ rest))
      | Inl (KeyError _) \<Rightarrow> required_categories ks cs
      | Inl e \<Rightarrow> Inl e)"

text \<open>\<open>str(sorted(...))\<close> of a set of category names, which hold no quote.\<close>

fun quoted_items :: "string list \<Rightarrow> string" where
  "quoted_items [] = ''''"
| "quoted_items [x] = [CHR 0x27] @ x @ [CHR 0x27]"
| "quoted_items (x # xs) = [CHR 0x27] @ x @ [CHR 0x27] @ '', '' @ quoted_items xs"

definition check_scope ::
    "string \<Rightarrow> string list \<Rightarrow> string list \<Rightarrow> (string \<times> diagnostic_observation) list \<Rightarrow> exn + unit" where
  "check_scope word required refs obs =
     (let cited = concat (map (\<lambda>r. case map_of obs r of None \<Rightarrow> [] | Some ob \<Rightarrow> [dg_category ob]) refs);
          out_of_scope = filter (\<lambda>c. c \<notin> set required) cited in
      if required \<noteq> [] \<and> out_of_scope \<noteq> []
      then Inl (ValueError (''diagnosis cited evidence outside the promoted '' @ word @ '' scope: ['' @
        quoted_items (sort (remdups out_of_scope)) @ '']''))
      else Inr ())"

text \<open>
  The checks after the schema: \<open>refs\<close> are the cited observations, \<open>cited\<close> the citation read from the
  diagnosis, \<open>fits\<close> what is asked of a citation besides that it was opened.
\<close>

definition check_citations ::
    "('p, 'e) knowledge_source \<Rightarrow> bool \<Rightarrow> (citation \<Rightarrow> bool) \<Rightarrow> string list \<Rightarrow> exn + citation option \<Rightarrow> string \<Rightarrow> trace
       \<Rightarrow> knowledge_trace \<Rightarrow> exn + citation option"
where
  "check_citations ks demanded fits refs cited thread tr kn =
     (let obs = observations_for thread tr; opened = opened_for thread kn; word = rk_word (ks_kind ks) in
      if \<not> list_all (\<lambda>r. r \<in> fst ` set obs) refs
      then Inl (ValueError ''diagnosis cited evidence that was not observed'')
      else
        bindE (required_categories ks opened) (\<lambda>required.
        bindE (check_scope word required refs obs) (\<lambda>_.
        bindE cited (\<lambda>c.
        if demanded \<and> (opened = [] \<or> c = None)
        then Inl (ValueError (''learned investigation must open and cite a promoted '' @ word))
        else if \<not> (case c of None \<Rightarrow> opened = [] | Some ct \<Rightarrow> ct \<in> set opened \<and> fits ct)
        then Inl (ValueError (''diagnosis '' @ word @ '' citation was not opened in this investigation''))
        else Inr c))))"

text \<open>The flat citation fields: an identifier, a version and a digest, all there or none.\<close>

definition flat_citation :: "string option \<Rightarrow> int option \<Rightarrow> string option \<Rightarrow> exn + citation option" where
  "flat_citation i v h =
     (case (i, v, h) of
        (None, _, _) \<Rightarrow> Inr None
      | (Some i', Some v', Some h') \<Rightarrow>
          bindE (check_citation \<lparr>ct_id = i', ct_version = nat v', ct_digest = h'\<rparr>) (\<lambda>c. Inr (Some c))
      | _ \<Rightarrow> Inl ValidationError)"

definition valid_flat_citation :: "string option \<Rightarrow> int option \<Rightarrow> string option \<Rightarrow> bool" where
  "valid_flat_citation i v h \<longleftrightarrow>
     (case i of None \<Rightarrow> True | Some i' \<Rightarrow> length i' \<le> 128) \<and> (case v of None \<Rightarrow> True | Some v' \<Rightarrow> 1 \<le> v') \<and>
     (case h of None \<Rightarrow> True | Some h' \<Rightarrow> length h' = 64)"

definition citation_fields_are_all_present_or_absent :: "string option \<Rightarrow> int option \<Rightarrow> string option \<Rightarrow> bool" where
  "citation_fields_are_all_present_or_absent i v h \<longleftrightarrow>
     (i = None \<and> v = None \<and> h = None) \<or> (i \<noteq> None \<and> v \<noteq> None \<and> h \<noteq> None)"

section \<open>Diagnoses that cite a runbook\<close>

record aware_diagnosis =
  ad_resource :: string
  ad_trigger :: string
  ad_summary :: string
  ad_confidence :: rat
  ad_refs :: "string list"
  ad_conclusion :: string
  ad_runbook_id :: "string option"
  ad_runbook_version :: "int option"
  ad_runbook_digest :: "string option"

definition valid_aware_diagnosis :: "aware_diagnosis \<Rightarrow> bool" where
  "valid_aware_diagnosis d \<longleftrightarrow>
     ad_resource d \<in> {''memory'', ''cpu'', ''filesystem'', ''service'', ''unknown''} \<and>
     ad_trigger d \<in> {''worker_concurrency_increase'', ''deployment'', ''memory_leak'', ''unknown''} \<and>
     bounded_text 10 1000 (ad_summary d) \<and> unit_interval (ad_confidence d) \<and> sized 2 12 (ad_refs d) \<and>
     bounded_text 10 1000 (ad_conclusion d) \<and>
     valid_flat_citation (ad_runbook_id d) (ad_runbook_version d) (ad_runbook_digest d) \<and>
     citation_fields_are_all_present_or_absent (ad_runbook_id d) (ad_runbook_version d) (ad_runbook_digest d)"

definition check_aware_diagnosis :: "aware_diagnosis \<Rightarrow> exn + aware_diagnosis" where
  "check_aware_diagnosis d = (if valid_aware_diagnosis d then Inr d else Inl ValidationError)"

definition diagnosis_citation :: "aware_diagnosis \<Rightarrow> exn + citation option" where
  "diagnosis_citation d = flat_citation (ad_runbook_id d) (ad_runbook_version d) (ad_runbook_digest d)"

record aware_outcome =
  ao_diagnosis :: aware_diagnosis
  ao_citation :: "citation option"
  ao_diagnostic_calls :: "string list"
  ao_runbook_calls :: "string list"
  ao_citation_valid :: bool

definition validate_aware_diagnosis ::
    "(runbook_proposal, runbook_evaluation) knowledge_source \<Rightarrow> bool \<Rightarrow> string \<Rightarrow> aware_diagnosis \<Rightarrow> trace
       \<Rightarrow> knowledge_trace \<Rightarrow> exn + aware_outcome"
where
  "validate_aware_diagnosis ks require_runbook thread response tr kn =
     bindE (check_aware_diagnosis response) (\<lambda>d.
     bindE (check_citations ks require_runbook (\<lambda>_. True) (ad_refs d) (diagnosis_citation d) thread tr kn) (\<lambda>cited.
     Inr \<lparr>ao_diagnosis = d, ao_citation = cited, ao_diagnostic_calls = tool_calls_for thread tr,
          ao_runbook_calls = knowledge_calls_for thread kn, ao_citation_valid = True\<rparr>))"

definition investigate_with_runbooks ::
    "(string \<Rightarrow> string) \<Rightarrow> (rat \<Rightarrow> string) \<Rightarrow> runbooks \<Rightarrow> 'w diagnostic_target \<Rightarrow> aware_diagnosis agent \<Rightarrow> string \<Rightarrow> bool
       \<Rightarrow> ('w knowing, aware_outcome) action"
where
  "investigate_with_runbooks sha fr g target ag thread require_runbook =
     bindS (run_agent (knowing_tool (runbook_source sha fr g) target thread) ag) (\<lambda>response.
     readS (\<lambda>((tr, w), kn). validate_aware_diagnosis (runbook_source sha fr g) require_runbook thread response tr kn))"

section \<open>Scores of an evaluation\<close>

text \<open>The outputs of a run as the evaluators see them: the members of a JSON object, none after an error.\<close>

type_synonym members = "(string \<times> json) list"

definition outcome_members :: "aware_outcome \<Rightarrow> members" where
  "outcome_members r =
     [(''primary_resource'', JStr (ad_resource (ao_diagnosis r))), (''trigger'', JStr (ad_trigger (ao_diagnosis r))),
      (''summary'', JStr (ad_summary (ao_diagnosis r))), (''confidence'', JFloat (ad_confidence (ao_diagnosis r))),
      (''evidence_refs'', json_strs (ad_refs (ao_diagnosis r))), (''conclusion'', JStr (ad_conclusion (ao_diagnosis r))),
      (''applied_runbook_id'', json_str (ad_runbook_id (ao_diagnosis r))),
      (''applied_runbook_version'', (case ad_runbook_version (ao_diagnosis r) of None \<Rightarrow> JNull | Some v \<Rightarrow> JInt v)),
      (''applied_runbook_digest'', json_str (ad_runbook_digest (ao_diagnosis r))),
      (''runbook_citation'', (case ao_citation r of None \<Rightarrow> JNull | Some c \<Rightarrow> citation_json ''runbook_id'' c)),
      (''diagnostic_tool_calls'', json_strs (ao_diagnostic_calls r)), (''runbook_tool_calls'', json_strs (ao_runbook_calls r)),
      (''tool_calls'', json_strs (ao_diagnostic_calls r @ ao_runbook_calls r)),
      (''runbook_citation_valid'', JBool (ao_citation_valid r))]"

definition strings_at :: "string \<Rightarrow> members \<Rightarrow> string list" where
  "strings_at key outputs =
     (case json_get key outputs of
        Some (JList js) \<Rightarrow> concat (map (\<lambda>j. case j of JStr s \<Rightarrow> [s] | _ \<Rightarrow> []) js)
      | _ \<Rightarrow> [])"

record reference_output =
  rf_resource :: string
  rf_trigger :: string
  rf_required :: "string list"
  rf_distractors :: "string list"
  rf_diagnostics :: "string list"

definition RUNBOOK_REFERENCE_OUTPUT :: reference_output where
  "RUNBOOK_REFERENCE_OUTPUT =
     \<lparr>rf_resource = ''memory'', rf_trigger = ''worker_concurrency_increase'',
      rf_required = [''resources-1'', ''changes-1'', ''logs-1''], rf_distractors = [''health-1''],
      rf_diagnostics = [''check_site_health'', ''inspect_resources'', ''inspect_recent_changes'', ''inspect_recent_logs'']\<rparr>"

definition diagnosis_correct :: "members \<Rightarrow> reference_output \<Rightarrow> bool" where
  "diagnosis_correct outputs ref \<longleftrightarrow>
     json_get ''primary_resource'' outputs = Some (JStr (rf_resource ref)) \<and>
     json_get ''trigger'' outputs = Some (JStr (rf_trigger ref))"

text \<open>\<open>len(called & required) / len(required)\<close> over sets.\<close>

definition share :: "string list \<Rightarrow> string list \<Rightarrow> rat" where
  "share found required =
     to_double (of_nat (length (filter (\<lambda>x. x \<in> set found) (remdups required))) / of_nat (length (remdups required)))"

definition required_evidence_recall :: "members \<Rightarrow> reference_output \<Rightarrow> rat" where
  "required_evidence_recall outputs ref = share (strings_at ''evidence_refs'' outputs) (rf_required ref)"

definition distractor_avoidance :: "members \<Rightarrow> reference_output \<Rightarrow> bool" where
  "distractor_avoidance outputs ref \<longleftrightarrow>
     json_get ''evidence_refs'' outputs \<notin> {None, Some JNull} \<and>
     list_all (\<lambda>r. r \<notin> set (rf_distractors ref)) (strings_at ''evidence_refs'' outputs)"

definition required_diagnostic_coverage :: "members \<Rightarrow> reference_output \<Rightarrow> rat" where
  "required_diagnostic_coverage outputs ref = share (strings_at ''diagnostic_tool_calls'' outputs) (rf_diagnostics ref)"

definition explicit_runbook_citation :: "members \<Rightarrow> bool" where
  "explicit_runbook_citation outputs \<longleftrightarrow>
     (case json_get ''runbook_citation'' outputs of Some (JObj (_ # _)) \<Rightarrow> True | _ \<Rightarrow> False) \<and>
     json_get ''runbook_citation_valid'' outputs = Some (JBool True) \<and>
     ''open_approved_runbook'' \<in> set (strings_at ''runbook_tool_calls'' outputs)"

section \<open>What the knowledge trace holds\<close>

text \<open>
  Every citation of a thread is a version in the registry whose digest was checked, and there is a
  recorded call for it; every version found in the last search was promoted.
\<close>

definition opened_ok :: "('p, 'e) knowledge_source \<Rightarrow> string \<Rightarrow> knowledge_trace \<Rightarrow> bool" where
  "opened_ok ks thread kn \<longleftrightarrow>
     (\<forall>c \<in> set (opened_for thread kn). ks_open ks \<in> set (knowledge_calls_for thread kn) \<and>
        (\<exists>r \<in> set (promoted (ks_registry ks)). citation_of r = c \<and> rk_digest (ks_kind ks) (pr_proposal r) = pr_digest r))"

lemma entries_append [simp]:
  "entries u (append_entry t x d) = (if u = t then entries t d @ [x] else entries u d)"
  by (simp add: entries_def append_entry_def update_conv')

lemma record_search_opened:
  assumes "opened_ok ks u kn"
  shows "opened_ok ks u (record_search tool thread rows kn)"
  using assms by (auto simp: opened_ok_def opened_for_def knowledge_calls_for_def record_search_def)

lemma record_open_opened:
  assumes "opened_ok ks u kn" and "record_open (ks_open ks) thread r kn = Inr (c, kn')"
    and "r \<in> set (promoted (ks_registry ks))" and "rk_digest (ks_kind ks) (pr_proposal r) = pr_digest r"
  shows "opened_ok ks u kn'"
  using assms by (auto simp: opened_ok_def opened_for_def knowledge_calls_for_def record_open_def check_citation_def results split: if_splits)

lemma search_tool_opened:
  "opened_ok ks u (snd s) \<Longrightarrow> opened_ok ks u (snd (snd (search_tool ks thread s)))"
  by (auto simp: search_tool_def Let_def record_search_opened split: prod.splits sum.splits)

lemma open_tool_opened:
  assumes "opened_ok ks u (snd s)"
  shows "opened_ok ks u (snd (snd (open_tool ks thread args s)))"
proof -
  obtain t kn where s: "s = (t, kn)" by (cases s)
  have *: "opened_ok ks u kn'"
    if "get_promoted (ks_kind ks) i v (ks_registry ks) = Inr r" "record_open (ks_open ks) thread r kn = Inr (c, kn')" for i v r c kn'
    using record_open_opened[OF _ that(2)] get_promoted_checked[OF that(1)] assms s by simp
  show ?thesis
    using assms by (auto simp: open_tool_def s results split: sum.splits if_splits dest: *)
qed

lemma knowing_tool_opened:
  "opened_ok ks u (snd s) \<Longrightarrow> opened_ok ks u (snd (snd (knowing_tool ks target thread name args s)))"
  by (auto simp: knowing_tool_def search_tool_opened open_tool_opened lift_tool_def split: prod.splits)

lemma knowing_tool_traced:
  assumes "answers P target" and "traced P u (fst (fst s))"
  shows "traced P u (fst (fst (snd (knowing_tool ks target thread name args s))))"
proof -
  obtain tr w kn where s: "s = ((tr, w), kn)" by (metis surj_pair)
  consider "name = ks_search ks" | "name \<noteq> ks_search ks" "name = ks_open ks" | "name \<noteq> ks_search ks" "name \<noteq> ks_open ks" by blast
  then show ?thesis
  proof cases
    case 3
    obtain res tr' w' where d: "diagnostic_tool target thread name args (tr, w) = (res, (tr', w'))" by (metis surj_pair)
    have "traced P u (fst (snd (diagnostic_tool target thread name args (tr, w))))"
      by (rule diagnostic_tool_traced) (use assms s in simp_all)
    with 3 d show ?thesis by (simp add: knowing_tool_def lift_tool_def s)
  qed (use assms s in \<open>auto simp: knowing_tool_def search_tool_def open_tool_def Let_def split: sum.splits\<close>)
qed

text \<open>Whatever the agent does with the tools.\<close>

lemma run_agent_knows:
  assumes "run_agent (knowing_tool ks target thread) ag s = (res, s')"
    and "answers P target" and "traced P u (fst (fst s))" and "opened_ok ks v (snd s)"
  shows "traced P u (fst (fst s'))" and "opened_ok ks v (snd s')"
proof -
  have "traced P u (fst (fst (snd (run_agent (knowing_tool ks target thread) ag s))))"
    by (rule run_agent_keeps[where I = "\<lambda>s. traced P u (fst (fst s))"]) (use assms(3) knowing_tool_traced[OF assms(2)] in blast)+
  with assms(1) show "traced P u (fst (fst s'))" by simp
  have "opened_ok ks v (snd (snd (run_agent (knowing_tool ks target thread) ag s)))"
    by (rule run_agent_keeps[where I = "\<lambda>s. opened_ok ks v (snd s)"]) (use assms(4) knowing_tool_opened in blast)+
  with assms(1) show "opened_ok ks v (snd s')" by simp
qed

text \<open>In a registry with the invariant an identifier and a version name one row.\<close>

lemma get_promoted_inv:
  assumes inv: "reg_inv k evaluate g" and r: "r \<in> set (promoted g)"
  shows "get_promoted k (pr_id r) (pr_version r) g = Inr r"
proof -
  let ?P = "\<lambda>q. pr_id q = pr_id r \<and> pr_version q = pr_version r"
  obtain q where q: "find ?P (promoted g) = Some q" using r by (cases "find ?P (promoted g)") (auto simp: find_None_iff)
  then have qs: "q \<in> set (promoted g)" "pr_id q = pr_id r" "pr_version q = pr_version r" by (auto simp: find_Some_iff)
  let ?rows = "filter (\<lambda>x. pr_id x = pr_id r) (promoted g)"
  have "map pr_version ?rows = [1..<Suc (length ?rows)]" using inv by (simp add: reg_inv_def)
  then have "distinct (map pr_version ?rows)" by simp
  then have "inj_on pr_version (set ?rows)" by (simp add: distinct_map)
  then have "q = r" by (rule inj_onD) (use qs r in simp_all)
  moreover have "rk_digest k (pr_proposal r) = pr_digest r" using inv r by (simp add: reg_inv_def row_of_def)
  ultimately show ?thesis using q by (simp add: get_promoted_def check_promoted_def)
qed

lemma required_categories_set:
  assumes "required_categories ks cs = Inr required" and "c \<in> set cs"
    and "get_promoted (ks_kind ks) (ct_id c) (ct_version c) (ks_registry ks) = Inr r"
  shows "set (ks_categories ks (pr_proposal r)) \<subseteq> set required"
  using assms by (induction ks cs arbitrary: required rule: required_categories.induct)
    (auto simp: results split: sum.splits exn.splits, blast)

lemma required_categories_from:
  assumes "required_categories ks cs = Inr required" and "x \<in> set required"
  shows "\<exists>c \<in> set cs. \<exists>r. get_promoted (ks_kind ks) (ct_id c) (ct_version c) (ks_registry ks) = Inr r \<and>
    x \<in> set (ks_categories ks (pr_proposal r))"
  using assms by (induction ks cs arbitrary: required rule: required_categories.induct)
    (force simp: results split: sum.splits exn.splits)+

lemma check_scope_ok:
  assumes "check_scope word required refs obs = Inr ()" and "ref \<in> set refs" and "map_of obs ref = Some ob" and "required \<noteq> []"
  shows "dg_category ob \<in> set required"
  using assms by (fastforce simp: check_scope_def Let_def filter_empty_conv split: if_splits option.splits)

lemma if_Inl_Inr_iff: "(if b then Inl e else m) = Inr x \<longleftrightarrow> \<not> b \<and> m = Inr x"
  by simp

lemma check_citations_ok:
  assumes "check_citations ks demanded fits refs cited thread tr kn = Inr c"
  obtains required where "list_all (\<lambda>r. r \<in> fst ` set (observations_for thread tr)) refs"
    and "required_categories ks (opened_for thread kn) = Inr required"
    and "check_scope (rk_word (ks_kind ks)) required refs (observations_for thread tr) = Inr ()"
    and "\<not> (demanded \<and> (opened_for thread kn = [] \<or> c = None))"
    and "case c of None \<Rightarrow> opened_for thread kn = [] | Some ct \<Rightarrow> ct \<in> set (opened_for thread kn) \<and> fits ct"
  using assms that unfolding check_citations_def Let_def results if_Inl_Inr_iff by auto

text \<open>What the opened versions of a registry ask of a cited observation.\<close>

definition in_scope :: "('p, 'e) knowledge_source \<Rightarrow> citation list \<Rightarrow> diagnostic_observation \<Rightarrow> bool" where
  "in_scope ks opened ob \<longleftrightarrow>
     (\<exists>r \<in> set (promoted (ks_registry ks)). citation_of r \<in> set opened \<and> ks_categories ks (pr_proposal r) \<noteq> []) \<longrightarrow>
     (\<exists>r \<in> set (promoted (ks_registry ks)). citation_of r \<in> set opened \<and> dg_category ob \<in> set (ks_categories ks (pr_proposal r)))"

lemma required_in_scope:
  assumes inv: "reg_inv (ks_kind ks) evaluate (ks_registry ks)"
    and opened: "\<forall>c \<in> set opened. \<exists>r \<in> set (promoted (ks_registry ks)). citation_of r = c"
    and req: "required_categories ks opened = Inr required" and "required \<noteq> [] \<Longrightarrow> dg_category ob \<in> set required"
  shows "in_scope ks opened ob"
  unfolding in_scope_def
proof
  assume "\<exists>r \<in> set (promoted (ks_registry ks)). citation_of r \<in> set opened \<and> ks_categories ks (pr_proposal r) \<noteq> []"
  then obtain r where r: "r \<in> set (promoted (ks_registry ks))" "citation_of r \<in> set opened" "ks_categories ks (pr_proposal r) \<noteq> []"
    by blast
  have "set (ks_categories ks (pr_proposal r)) \<subseteq> set required"
    by (rule required_categories_set[OF req r(2)]) (simp add: citation_of_def get_promoted_inv[OF inv r(1)])
  with r(3) have "required \<noteq> []" by auto
  with assms(4) have "dg_category ob \<in> set required" .
  from required_categories_from[OF req this] obtain c q where c: "c \<in> set opened"
    "get_promoted (ks_kind ks) (ct_id c) (ct_version c) (ks_registry ks) = Inr q" "dg_category ob \<in> set (ks_categories ks (pr_proposal q))"
    by blast
  from opened c(1) obtain p where p: "p \<in> set (promoted (ks_registry ks))" "citation_of p = c" by blast
  then have "get_promoted (ks_kind ks) (ct_id c) (ct_version c) (ks_registry ks) = Inr p"
    using get_promoted_inv[OF inv p(1)] by (auto simp: citation_of_def)
  with c p show "\<exists>r \<in> set (promoted (ks_registry ks)). citation_of r \<in> set opened \<and>
      dg_category ob \<in> set (ks_categories ks (pr_proposal r))" by auto
qed

context promotion_gate
begin

lemma citations_grounded:
  assumes run: "run_agent (knowing_tool ks target thread) ag ((tr, w), kn) = (res, ((tr', w'), kn'))"
    and k: "ks_kind ks = kind" and g: "registry_history kind evaluate empty_registry (ks_registry ks)"
    and target: "answers P target" and "traced P thread tr" and "opened_for thread kn = []"
    and check: "check_citations ks demanded fits refs cited thread tr' kn' = Inr c"
  shows "list_all (\<lambda>ref. \<exists>ob. map_of (observations_for thread tr') ref = Some ob \<and> P ob \<and> in_scope ks (opened_for thread kn') ob) refs \<and>
    (case c of
       None \<Rightarrow> \<not> demanded \<and> opened_for thread kn' = []
     | Some ct \<Rightarrow> ct \<in> set (opened_for thread kn') \<and> fits ct \<and>
         (\<exists>r \<in> set (promoted (ks_registry ks)). citation_of r = ct \<and> good (pr_proposal r)))"
proof -
  let ?obs = "observations_for thread tr'" and ?opened = "opened_for thread kn'"
  have inv: "reg_inv (ks_kind ks) evaluate (ks_registry ks)" unfolding k by (rule history_inv[OF g reg_inv_empty])
  have "opened_ok ks thread kn" using assms(6) by (simp add: opened_ok_def)
  with run_agent_knows[OF run target] assms(5) have tr': "traced P thread tr'" and ok: "opened_ok ks thread kn'" by simp_all
  from check_citations_ok[OF check] obtain required where refs: "list_all (\<lambda>r. r \<in> fst ` set ?obs) refs"
    and req: "required_categories ks ?opened = Inr required" and scope: "check_scope (rk_word (ks_kind ks)) required refs ?obs = Inr ()"
    and dem: "\<not> (demanded \<and> (?opened = [] \<or> c = None))"
    and cit: "case c of None \<Rightarrow> ?opened = [] | Some ct \<Rightarrow> ct \<in> set ?opened \<and> fits ct" .
  have opened: "\<forall>ct \<in> set ?opened. \<exists>r \<in> set (promoted (ks_registry ks)). citation_of r = ct"
    using ok by (auto simp: opened_ok_def)
  have "\<exists>ob. map_of ?obs ref = Some ob \<and> P ob \<and> in_scope ks ?opened ob" if r: "ref \<in> set refs" for ref
  proof -
    from refs r have "map_of ?obs ref \<noteq> None" by (auto simp: list_all_iff map_of_eq_None_iff)
    then obtain ob where ob: "map_of ?obs ref = Some ob" by blast
    have "in_scope ks ?opened ob" by (rule required_in_scope[OF inv opened req check_scope_ok[OF scope r ob]])
    with tr' map_of_SomeD[OF ob] ob show ?thesis by (auto simp: traced_def)
  qed
  moreover have "case c of None \<Rightarrow> \<not> demanded \<and> ?opened = []
     | Some ct \<Rightarrow> ct \<in> set ?opened \<and> fits ct \<and> (\<exists>r \<in> set (promoted (ks_registry ks)). citation_of r = ct \<and> good (pr_proposal r))"
    using cit dem opened promoted_good[OF g] by (cases c) auto
  ultimately show ?thesis unfolding list_all_iff by blast
qed

end

section \<open>Properties\<close>

text \<open>A diagnosis that applies learned knowledge is grounded twice: every reference is an observation of
  this thread with the property of the target's answers, of a category that an opened runbook requires, if the
  opened runbooks require any; the runbook it cites was opened in this thread, carries the digest under which
  it was promoted, and passed the promotion gate. Without a citation no runbook was opened and none was
  demanded.\<close>

theorem learned_diagnosis_grounded:
  assumes "investigate_with_runbooks sha fr g target ag thread require_runbook ((tr, w), kn) = (Inr out, ((tr', w'), kn'))"
    and "registry_history (runbook_kind sha fr) (evaluate_runbook RUNBOOK_PROMOTION_CASES) empty_registry g"
    and "answers P target" and "traced P thread tr" and "opened_for thread kn = []"
  shows "list_all (\<lambda>ref. \<exists>ob. map_of (observations_for thread tr') ref = Some ob \<and> P ob \<and>
      in_scope (runbook_source sha fr g) (opened_for thread kn') ob) (ad_refs (ao_diagnosis out)) \<and>
    (case ao_citation out of
       None \<Rightarrow> \<not> require_runbook \<and> opened_for thread kn' = []
     | Some c \<Rightarrow> c \<in> set (opened_for thread kn') \<and>
         (\<exists>r \<in> set (promoted g). citation_of r = c \<and> runbook_good (pr_proposal r)))"
proof -
  let ?ks = "runbook_source sha fr g"
  from assms(1) obtain response where
    run: "run_agent (knowing_tool ?ks target thread) ag ((tr, w), kn) = (Inr response, ((tr', w'), kn'))"
    and "validate_aware_diagnosis ?ks require_runbook thread response tr' kn' = Inr out"
    by (auto simp: investigate_with_runbooks_def bindS_Inr_iff)
  then have c: "check_citations ?ks require_runbook (\<lambda>_. True) (ad_refs (ao_diagnosis out)) (diagnosis_citation (ao_diagnosis out))
      thread tr' kn' = Inr (ao_citation out)"
    by (auto simp: validate_aware_diagnosis_def results)
  have ks: "ks_kind ?ks = runbook_kind sha fr" "ks_registry ?ks = g" by (simp_all add: runbook_source_def)
  have "registry_history (runbook_kind sha fr) (evaluate_runbook RUNBOOK_PROMOTION_CASES) empty_registry (ks_registry ?ks)"
    using assms(2) by (simp only: ks(2))
  from runbook_gate.citations_grounded[OF run ks(1) this assms(3-5) c] show ?thesis unfolding ks(2) simp_thms .
qed

section \<open>Witness\<close>

definition sample_aware :: aware_diagnosis where
  "sample_aware =
     \<lparr>ad_resource = ''memory'', ad_trigger = ''worker_concurrency_increase'', ad_summary = ''Too many workers.'',
      ad_confidence = 9 / 10, ad_refs = [''resources-1'', ''changes-1''], ad_conclusion = ''Lower the concurrency.'',
      ad_runbook_id = Some ''worker-oom'', ad_runbook_version = Some 1, ad_runbook_digest = Some (sample_sha [])\<rparr>"

definition sample_aware_agent :: "aware_diagnosis agent" where
  "sample_aware_agent =
     Call ''search_approved_runbooks'' JNull (\<lambda>_.
     Call ''open_approved_runbook'' (JObj [(''runbook_id'', JStr ''worker-oom''), (''version'', JInt 1)]) (\<lambda>_. Answer sample_aware))"

abbreviation sample_version :: "(runbook_proposal, runbook_evaluation) promoted_row" where
  "sample_version \<equiv> first_version (runbook_kind sample_sha fraction_text) (evaluate_runbook RUNBOOK_PROMOTION_CASES)
     ''c1'' sample_revision ''sre'' ''t1''"

abbreviation sample_source :: "(runbook_proposal, runbook_evaluation) knowledge_source" where
  "sample_source \<equiv> runbook_source sample_sha fraction_text sample_runbooks"

definition sample_searched :: knowledge_trace where
  "sample_searched = \<lparr>kn_found = [(''k'', [(''worker-oom'', 1)])], kn_opened = [], kn_calls = [(''k'', [''search_approved_runbooks''])]\<rparr>"

definition sample_citation :: citation where
  "sample_citation = \<lparr>ct_id = ''worker-oom'', ct_version = 1, ct_digest = sample_sha []\<rparr>"

definition sample_known :: knowledge_trace where
  "sample_known = sample_searched\<lparr>kn_opened := [(''k'', [sample_citation])],
     kn_calls := [(''k'', [''search_approved_runbooks'', ''open_approved_runbook''])]\<rparr>"

lemma sample_history:
  "registry_history (runbook_kind sample_sha fraction_text) (evaluate_runbook RUNBOOK_PROMOTION_CASES) empty_registry sample_runbooks"
  by (rule first_history)

lemma sample_version_fields:
  "pr_id sample_version = ''worker-oom''" "pr_version sample_version = 1" "pr_proposal sample_version = sample_revision"
  by (simp_all add: first_version_def runbook_kind_def sample_revision_def sample_runbook_def)

lemma sample_get: "get_promoted (runbook_kind sample_sha fraction_text) ''worker-oom'' 1 sample_runbooks = Inr sample_version"
proof -
  have "sample_version \<in> set (promoted sample_runbooks)" by (simp add: sample_promoted)
  from get_promoted_inv[OF history_inv[OF sample_history reg_inv_empty] this] show ?thesis
    by (simp only: sample_version_fields)
qed

lemma sample_citation_of: "citation_of sample_version = sample_citation"
  by (simp add: citation_of_def first_version_def runbook_kind_def sample_citation_def sample_revision_def sample_runbook_def
      runbook_digest_def sample_sha_def)

lemma sample_search:
  "\<exists>j. search_tool sample_source ''k'' ((sample_worker_trace, ()), empty_knowledge) = (Inr j, ((sample_worker_trace, ()), sample_searched))"
proof -
  have "latest_rows sample_runbooks = [sample_version]"
    by (simp add: latest_rows_def sample_promoted is_latest_def)
  moreover have "runbook_matches sample_revision (observed_signals (observations_for ''k'' sample_worker_trace))
      (observed_categories (observations_for ''k'' sample_worker_trace))"
    by (simp add: runbook_matches_def within_scope_iff sample_revision_def sample_worker_trace_def observations_for_def
        trace_run_of_def observed_signals_def observed_categories_def)
  ultimately have "find_applicable (runbook_kind sample_sha fraction_text)
      (\<lambda>p. runbook_matches p (observed_signals (observations_for ''k'' sample_worker_trace))
        (observed_categories (observations_for ''k'' sample_worker_trace))) sample_runbooks = Inr [sample_version]"
    unfolding find_applicable_inv[OF history_inv[OF sample_history reg_inv_empty]] by (simp add: sample_version_fields)
  moreover have "record_search ''search_approved_runbooks'' ''k'' [sample_version] empty_knowledge = sample_searched"
    unfolding record_search_def list.map sample_version_fields
    by (simp add: empty_knowledge_def sample_searched_def append_entry_def entries_def)
  ultimately show ?thesis unfolding search_tool_def by (simp add: runbook_source_def)
qed

lemma sample_open:
  "\<exists>j. open_tool sample_source ''k'' (JObj [(''runbook_id'', JStr ''worker-oom''), (''version'', JInt 1)])
     ((sample_worker_trace, ()), sample_searched) = (Inr j, ((sample_worker_trace, ()), sample_known))"
proof -
  have "record_open ''open_approved_runbook'' ''k'' sample_version sample_searched = Inr (sample_citation, sample_known)"
    unfolding record_open_def sample_citation_of
    by (simp add: check_citation_def valid_citation_def sample_citation_def bounded_text_def sample_known_def
        sample_searched_def append_entry_def entries_def sample_sha_def)
  moreover have allowed: "may_open ''k'' ''worker-oom'' 1 sample_searched"
    by (simp add: may_open_def entries_def sample_searched_def)
  ultimately show ?thesis
    using sample_get by (simp add: open_tool_def open_arguments_def json_get_def runbook_source_def allowed)
qed

lemma sample_investigated:
  "\<exists>out. ao_citation out = Some sample_citation \<and>
     investigate_with_runbooks sample_sha fraction_text sample_runbooks worker_memory_pressure_lab sample_aware_agent ''k'' True
       ((sample_worker_trace, ()), empty_knowledge) = (Inr out, ((sample_worker_trace, ()), sample_known))"
proof -
  have run: "run_agent (knowing_tool sample_source worker_memory_pressure_lab ''k'') sample_aware_agent
      ((sample_worker_trace, ()), empty_knowledge) = (Inr sample_aware, ((sample_worker_trace, ()), sample_known))"
    using sample_search sample_open
    by (auto simp: sample_aware_agent_def knowing_tool_def runbook_source_def returnS_def)
  have obs: "fst ` set (observations_for ''k'' sample_worker_trace) = {''resources-1'', ''changes-1'', ''logs-1'', ''health-1''}"
    by (auto simp: observations_for_def trace_run_of_def sample_worker_trace_def)
  have ok: "check_aware_diagnosis sample_aware = Inr sample_aware"
    by (simp add: check_aware_diagnosis_def valid_aware_diagnosis_def sample_aware_def bounded_text_def unit_interval_def
        sized_def sample_sha_def valid_flat_citation_def citation_fields_are_all_present_or_absent_def)
  have word: "rk_word (ks_kind sample_source) = ''runbook''" by (simp add: runbook_source_def runbook_kind_def)
  have opened: "opened_for ''k'' sample_known = [sample_citation]"
    by (simp add: opened_for_def entries_def sample_known_def)
  have req: "required_categories sample_source [sample_citation] = Inr (rb_categories sample_revision)"
    using sample_get by (simp add: sample_citation_def sample_version_fields runbook_source_def)
  have scope: "check_scope ''runbook'' (rb_categories sample_revision) (ad_refs sample_aware) (observations_for ''k'' sample_worker_trace) = Inr ()"
    by (simp add: check_scope_def sample_revision_def sample_aware_def observations_for_def trace_run_of_def sample_worker_trace_def)
  have cited: "diagnosis_citation sample_aware = Inr (Some sample_citation)"
    by (simp add: diagnosis_citation_def flat_citation_def sample_aware_def check_citation_def valid_citation_def sample_citation_def
        bounded_text_def sample_sha_def)
  have refs: "list_all (\<lambda>r. r \<in> fst ` set (observations_for ''k'' sample_worker_trace)) (ad_refs sample_aware)"
    unfolding obs by (simp add: sample_aware_def)
  show ?thesis
    unfolding investigate_with_runbooks_def bindS_def run
    by (simp add: readS_def validate_aware_diagnosis_def check_citations_def word ok opened req scope cited refs Let_def del: required_categories.simps)
qed

theorem learned_diagnosis_grounded_witness:
  "\<exists>r \<in> set (promoted sample_runbooks). citation_of r = sample_citation \<and> runbook_good (pr_proposal r)"
proof -
  from sample_investigated obtain out where out: "ao_citation out = Some sample_citation"
    and run: "investigate_with_runbooks sample_sha fraction_text sample_runbooks worker_memory_pressure_lab sample_aware_agent ''k'' True
       ((sample_worker_trace, ()), empty_knowledge) = (Inr out, ((sample_worker_trace, ()), sample_known))" by blast
  have "traced worker_observation ''k'' sample_worker_trace"
    by (simp add: traced_def observations_for_def trace_run_of_def sample_worker_trace_def worker_observation_def
        worker_signals_def non_causal_context_def)
  from learned_diagnosis_grounded[OF run sample_history worker_lab_answers this] out show ?thesis
    by (simp add: opened_for_def entries_def empty_knowledge_def)
qed

end
