(* ===== verification/Capability.thy ===== *)
theory Capability
  imports Knowledge
begin

text \<open>
  \<open>capability_learning.py\<close>: typed capability contracts with their validation, digest and promotion policy,
  the disposable worker whose concurrency is the one controlled parameter, research with recovery, and the
  registry with its activation history. The reviewed registry is the generic one, at \<open>capability_kind\<close>.
\<close>

section \<open>Contracts\<close>

record capability_parameter =
  cp_name :: string
  cp_minimum :: int
  cp_maximum :: int
  cp_required :: bool

text \<open>\<open>^[a-z][a-z0-9_]*$\<close> up to 64 characters, ordered bounds from 1; the kind is always \<open>int\<close>.\<close>

definition valid_parameter :: "capability_parameter \<Rightarrow> bool" where
  "valid_parameter p \<longleftrightarrow>
     bounded_text 1 64 (cp_name p) \<and> matches_parameter_name (cp_name p) \<and> 1 \<le> cp_minimum p \<and> 1 \<le> cp_maximum p \<and>
     cp_minimum p \<le> cp_maximum p"

record capability_proposal =
  cl_capability_id :: string
  cl_title :: string
  cl_summary :: string
  cl_parameters :: "capability_parameter list"
  cl_allowed_targets :: "string list"
  cl_prerequisites :: "string list"
  cl_categories :: "string list"
  cl_blast_radius :: string
  cl_approval_policy :: string
  cl_idempotency :: string
  cl_timeout_seconds :: int
  cl_verification_steps :: "string list"
  cl_rollback_steps :: "string list"
  cl_refs :: "string list"
  cl_confidence :: rat

definition valid_capability :: "capability_proposal \<Rightarrow> bool" where
  "valid_capability p \<longleftrightarrow>
     bounded_text 3 128 (cl_capability_id p) \<and> matches_capability_id (cl_capability_id p) \<and>
     bounded_text 3 160 (cl_title p) \<and> bounded_text 10 1000 (cl_summary p) \<and>
     sized 1 3 (cl_parameters p) \<and> list_all valid_parameter (cl_parameters p) \<and>
     cl_allowed_targets p = [''owned_disposable_worker''] \<and>
     sized 2 12 (cl_prerequisites p) \<and> list_all signal_name (cl_prerequisites p) \<and>
     sized 2 6 (cl_categories p) \<and> list_all (\<lambda>c. c \<in> set EVIDENCE_CATEGORIES) (cl_categories p) \<and>
     bounded_text 10 500 (cl_blast_radius p) \<and> bounded_text 10 500 (cl_approval_policy p) \<and>
     bounded_text 10 500 (cl_idempotency p) \<and> 1 \<le> cl_timeout_seconds p \<and> cl_timeout_seconds p \<le> 3600 \<and>
     sized 1 4 (cl_verification_steps p) \<and> list_all diagnostic_step (cl_verification_steps p) \<and>
     sized 1 4 (cl_rollback_steps p) \<and> list_all diagnostic_step (cl_rollback_steps p) \<and>
     sized 2 12 (cl_refs p) \<and> list_all evidence_name (cl_refs p) \<and> unit_interval (cl_confidence p)"

definition check_capability :: "capability_proposal \<Rightarrow> exn + capability_proposal" where
  "check_capability p = (if valid_capability p then Inr p else Inl ValidationError)"

definition parameter_json :: "capability_parameter \<Rightarrow> json" where
  "parameter_json p =
     JObj [(''name'', JStr (cp_name p)), (''kind'', JStr ''int''), (''minimum'', JInt (cp_minimum p)),
           (''maximum'', JInt (cp_maximum p)), (''required'', JBool (cp_required p))]"

definition contract_json :: "capability_proposal \<Rightarrow> json" where
  "contract_json p =
     JObj [(''capability_id'', JStr (cl_capability_id p)), (''title'', JStr (cl_title p)), (''summary'', JStr (cl_summary p)),
           (''parameters'', JList (map parameter_json (cl_parameters p))),
           (''allowed_targets'', json_strs (cl_allowed_targets p)), (''prerequisites'', json_strs (cl_prerequisites p)),
           (''required_evidence_categories'', json_strs (cl_categories p)),
           (''maximum_blast_radius'', JStr (cl_blast_radius p)), (''approval_policy'', JStr (cl_approval_policy p)),
           (''idempotency'', JStr (cl_idempotency p)), (''timeout_seconds'', JInt (cl_timeout_seconds p)),
           (''verification_steps'', json_strs (cl_verification_steps p)), (''rollback_steps'', json_strs (cl_rollback_steps p)),
           (''source_evidence_refs'', json_strs (cl_refs p)), (''confidence'', JFloat (cl_confidence p))]"

definition contract_digest :: "(string \<Rightarrow> string) \<Rightarrow> (rat \<Rightarrow> string) \<Rightarrow> capability_proposal \<Rightarrow> string" where
  "contract_digest sha fr p = sha (json_text fr (contract_json p))"

definition capability_matches :: "capability_proposal \<Rightarrow> string list \<Rightarrow> string list \<Rightarrow> bool" where
  "capability_matches p sigs categories \<longleftrightarrow> within_scope (cl_prerequisites p) (cl_categories p) sigs categories"

definition reviewer_corrected_capability_proposal :: capability_proposal where
  "reviewer_corrected_capability_proposal =
     \<lparr>cl_capability_id = ''reduce_worker_concurrency'', cl_title = ''Reduce worker concurrency under memory pressure'',
      cl_summary = ''Lowers the owned disposable worker concurrency when elevated concurrency correlates with OOM pressure.'',
      cl_parameters = [\<lparr>cp_name = ''target_concurrency'', cp_minimum = 1, cp_maximum = 8, cp_required = True\<rparr>],
      cl_allowed_targets = [''owned_disposable_worker''],
      cl_prerequisites = [''memory_pressure'', ''worker_concurrency_increased'', ''concurrency_correlated_oom'', ''oom_kill''],
      cl_categories = [''resources'', ''changes'', ''logs''],
      cl_blast_radius = ''Exactly one owned disposable worker; no scope beyond that single worker.'',
      cl_approval_policy = ''Requires application-owned human approval of the immutable proposal before activation.'',
      cl_idempotency = ''Activating at or below the approved target is a no-op success.'', cl_timeout_seconds = 30,
      cl_verification_steps = [''Confirm the owned worker health check returns HTTP 200.'', ''Confirm OOM kills stop in bounded logs.''],
      cl_rollback_steps = [''Restore the previous concurrency value.'', ''Re-verify the owned worker health check.''],
      cl_refs = [''resources-1'', ''changes-1'', ''logs-1''], cl_confidence = to_double (9 / 10)\<rparr>"

section \<open>The promotion policy\<close>

definition max_timeout_seconds :: int where "max_timeout_seconds = 60"

definition blast_radius_required :: "string list" where
  "blast_radius_required = [''owned'', ''disposable'', ''one'']"

definition blast_radius_forbidden :: "string list" where
  "blast_radius_forbidden = [''cluster'', ''namespace'', ''fleet'', ''all workers'', ''any worker'', ''each worker'']"

definition bounded_blast_radius :: "string \<Rightarrow> bool" where
  "bounded_blast_radius radius \<longleftrightarrow>
     list_all (\<lambda>token. str_in token (lower radius)) blast_radius_required \<and>
     \<not> list_ex (\<lambda>token. str_in token (lower radius)) blast_radius_forbidden"

record policy_pass =
  pp_bounded_timeout :: bool
  pp_bounded_parameters :: bool
  pp_bounded_blast_radius :: bool
  pp_has_verification :: bool
  pp_has_rollback :: bool
  pp_sufficient_confidence :: bool

definition capability_policy_pass :: "capability_proposal \<Rightarrow> policy_pass" where
  "capability_policy_pass p =
     \<lparr>pp_bounded_timeout = (cl_timeout_seconds p \<le> max_timeout_seconds),
      pp_bounded_parameters = list_all (\<lambda>q. 1 \<le> cp_minimum q \<and> cp_maximum q \<le> 8) (cl_parameters p),
      pp_bounded_blast_radius = bounded_blast_radius (cl_blast_radius p),
      pp_has_verification = (1 \<le> length (cl_verification_steps p)), pp_has_rollback = (1 \<le> length (cl_rollback_steps p)),
      pp_sufficient_confidence = (to_double (8 / 10) \<le> cl_confidence p)\<rparr>"

definition all_pass :: "policy_pass \<Rightarrow> bool" where
  "all_pass q \<longleftrightarrow> pp_bounded_timeout q \<and> pp_bounded_parameters q \<and> pp_bounded_blast_radius q \<and> pp_has_verification q \<and>
     pp_has_rollback q \<and> pp_sufficient_confidence q"

definition CAPABILITY_PROMOTION_CASES :: "evaluation_case list" where
  "CAPABILITY_PROMOTION_CASES =
     [\<lparr>ec_id = ''same-worker-failure'',
       ec_signals = [''memory_pressure'', ''worker_concurrency_increased'', ''concurrency_correlated_oom'', ''oom_kill''],
       ec_categories = [''resources'', ''changes'', ''logs''], ec_expected = True\<rparr>,
      \<lparr>ec_id = ''same-failure-with-noise'',
       ec_signals = [''http_503'', ''memory_pressure'', ''worker_concurrency_increased'', ''concurrency_correlated_oom'',
         ''oom_kill'', ''filesystem_normal''],
       ec_categories = [''health'', ''resources'', ''changes'', ''logs''], ec_expected = True\<rparr>,
      \<lparr>ec_id = ''generic-memory-pressure'', ec_signals = [''memory_pressure'', ''oom_kill''],
       ec_categories = [''resources'', ''logs''], ec_expected = False\<rparr>,
      \<lparr>ec_id = ''concurrency-without-oom'', ec_signals = [''worker_concurrency_increased'', ''latency_high''],
       ec_categories = [''health'', ''changes''], ec_expected = False\<rparr>,
      \<lparr>ec_id = ''disk-exhaustion'', ec_signals = [''http_503'', ''low_free_space'', ''rotation_error'', ''no_space_left''],
       ec_categories = [''health'', ''resources'', ''logs''], ec_expected = False\<rparr>]"

record capability_evaluation =
  ce_passed :: bool
  ce_case_count :: nat
  ce_accuracy :: rat
  ce_false_positives :: nat
  ce_policy :: policy_pass
  ce_results :: "(string \<times> bool) list"

definition new_capability_evaluator :: "evaluation_case list \<Rightarrow> exn + evaluation_case list" where
  "new_capability_evaluator cases =
     (if cases = [] then Inl (ValueError ''capability promotion requires evaluation cases'') else Inr cases)"

definition evaluate_capability :: "evaluation_case list \<Rightarrow> capability_proposal \<Rightarrow> capability_evaluation" where
  "evaluate_capability cases p =
     (let results = case_results (capability_matches p) cases;
          false_positives = false_positive_count (capability_matches p) cases;
          policy = capability_policy_pass p in
      \<lparr>ce_passed = (accuracy results = 1 \<and> false_positives = 0 \<and> all_pass policy), ce_case_count = length results,
       ce_accuracy = accuracy results, ce_false_positives = false_positives, ce_policy = policy, ce_results = results\<rparr>)"

section \<open>The registry\<close>

definition capability_kind ::
    "(string \<Rightarrow> string) \<Rightarrow> (rat \<Rightarrow> string) \<Rightarrow> (capability_proposal, capability_evaluation) registry_kind" where
  "capability_kind sha fr =
     \<lparr>rk_word = ''capability'', rk_digest = contract_digest sha fr, rk_ident = cl_capability_id, rk_passed = ce_passed\<rparr>"

type_synonym capabilities = "(capability_proposal, capability_evaluation) registry"
type_synonym capability_row = "(capability_proposal, capability_evaluation) promoted_row"

definition submit_capability ::
    "(string \<Rightarrow> string) \<Rightarrow> (rat \<Rightarrow> string) \<Rightarrow> string \<Rightarrow> capability_proposal \<Rightarrow> string \<Rightarrow> capabilities
       \<Rightarrow> (exn + (capability_proposal, capability_evaluation) candidate_row) \<times> capabilities"
where
  "submit_capability sha fr = submit (capability_kind sha fr)"

definition get_capability_candidate ::
    "(string \<Rightarrow> string) \<Rightarrow> (rat \<Rightarrow> string) \<Rightarrow> string \<Rightarrow> capabilities
       \<Rightarrow> exn + (capability_proposal, capability_evaluation) candidate_row"
where
  "get_capability_candidate sha fr = get_candidate (capability_kind sha fr)"

definition revise_capability ::
    "(string \<Rightarrow> string) \<Rightarrow> (rat \<Rightarrow> string) \<Rightarrow> string \<Rightarrow> string \<Rightarrow> capability_proposal \<Rightarrow> string \<Rightarrow> string option \<Rightarrow> string
       \<Rightarrow> capabilities \<Rightarrow> (exn + (capability_proposal, capability_evaluation) candidate_row) \<times> capabilities"
where
  "revise_capability sha fr = revise (capability_kind sha fr)"

definition review_capability ::
    "(string \<Rightarrow> string) \<Rightarrow> (rat \<Rightarrow> string) \<Rightarrow> string \<Rightarrow> review_decision \<Rightarrow> string
       \<Rightarrow> (capability_proposal \<Rightarrow> capability_evaluation) \<Rightarrow> string option \<Rightarrow> string \<Rightarrow> capabilities
       \<Rightarrow> (exn + (capability_proposal, capability_evaluation) reviewed) \<times> capabilities"
where
  "review_capability sha fr = review (capability_kind sha fr)"

definition find_approved ::
    "(string \<Rightarrow> string) \<Rightarrow> (rat \<Rightarrow> string) \<Rightarrow> string list \<Rightarrow> string list \<Rightarrow> capabilities \<Rightarrow> exn + capability_row list" where
  "find_approved sha fr sigs categories = find_applicable (capability_kind sha fr) (\<lambda>p. capability_matches p sigs categories)"

definition get_promoted_capability ::
    "(string \<Rightarrow> string) \<Rightarrow> (rat \<Rightarrow> string) \<Rightarrow> string \<Rightarrow> nat \<Rightarrow> capabilities \<Rightarrow> exn + capability_row" where
  "get_promoted_capability sha fr = get_promoted (capability_kind sha fr)"

text \<open>Activations: an own table beside the candidates and the promoted versions.\<close>

record activation =
  ac_id :: string
  ac_run_id :: string
  ac_proposal_id :: string
  ac_capability_id :: string
  ac_version :: nat
  ac_target_id :: string
  ac_outcome :: string
  ac_verification :: bool
  ac_rollback_applied :: bool
  ac_occurred_at :: string
  ac_actor :: string

definition valid_activation :: "activation \<Rightarrow> bool" where
  "valid_activation a \<longleftrightarrow> 1 \<le> ac_version a \<and> ac_outcome a \<in> {''succeeded'', ''failed'', ''rollback_applied''}"

record capability_store =
  cs_registry :: capabilities
  cs_activations :: "activation list"

definition record_activation ::
    "(string \<Rightarrow> string) \<Rightarrow> (rat \<Rightarrow> string) \<Rightarrow> activation \<Rightarrow> (capability_store, unit) action" where
  "record_activation sha fr a =
     (\<lambda>cs. case get_promoted_capability sha fr (ac_capability_id a) (ac_version a) (cs_registry cs) of
        Inl e \<Rightarrow> (Inl e, cs)
      | Inr r \<Rightarrow>
          if select_one ac_id (ac_id a) (cs_activations cs) \<noteq> None then (Inl IntegrityError, cs)
          else (Inr (), cs\<lparr>cs_activations := cs_activations cs @ [a]\<rparr>))"

text \<open>\<open>ORDER BY occurred_at ASC\<close>; rows of one instant stay in the order of the table.\<close>

definition list_activations :: "string option \<Rightarrow> capability_store \<Rightarrow> activation list" where
  "list_activations capability_id cs =
     sort_key ac_occurred_at
       (filter (\<lambda>a. case capability_id of None \<Rightarrow> True | Some i \<Rightarrow> ac_capability_id a = i) (cs_activations cs))"

section \<open>The controlled worker\<close>

record worker_lab =
  wl_current :: int
  wl_safe :: int
  wl_fail_verification :: bool
  wl_lab_id :: string
  wl_force_unhealthy :: bool

definition new_worker_lab :: "string \<Rightarrow> worker_lab" where
  "new_worker_lab lab_id =
     \<lparr>wl_current = 12, wl_safe = 4, wl_fail_verification = False, wl_lab_id = lab_id, wl_force_unhealthy = False\<rparr>"

definition worker_healthy :: "worker_lab \<Rightarrow> bool" where
  "worker_healthy lab \<longleftrightarrow> \<not> wl_force_unhealthy lab \<and> wl_current lab \<le> wl_safe lab"

definition worker_check_health :: "(worker_lab, diagnostic_observation) action" where
  "worker_check_health =
     readS (\<lambda>lab.
       if worker_healthy lab
       then observation ''health-1'' ''health'' ''The owned disposable worker API returns HTTP 200.''
         [''healthcheck_passed''] [(''status_code'', JInt 200)]
       else observation ''health-1'' ''health'' ''The owned disposable worker API intermittently returns HTTP 503.''
         [''http_503'', ''worker_unavailable''] [(''status_code'', JInt 503)])"

definition worker_inspect_resources :: "(worker_lab, diagnostic_observation) action" where
  "worker_inspect_resources =
     readS (\<lambda>lab.
       if worker_healthy lab
       then observation ''resources-1'' ''resources'' ''Worker memory, CPU, and filesystem capacity are normal.''
         [''memory_normal'', ''cpu_normal'', ''filesystem_normal'']
         [(''memory_percent'', JFloat 44), (''cpu_percent'', JFloat 19), (''free_bytes'', JInt 805306368)]
       else observation ''resources-1'' ''resources''
         ''Worker memory is at 96 percent while CPU and filesystem capacity remain normal.''
         [''memory_pressure'', ''cpu_normal'', ''filesystem_normal'']
         [(''memory_percent'', JFloat 96), (''cpu_percent'', JFloat 19), (''free_bytes'', JInt 805306368)])"

definition worker_inspect_recent_changes :: "(worker_lab, diagnostic_observation) action" where
  "worker_inspect_recent_changes =
     readS (\<lambda>_. observation ''changes-1'' ''changes''
       ''Worker concurrency increased from 4 to 12 shortly before failures began; the application image did not change.''
       [''worker_concurrency_increased'', ''image_unchanged'']
       [(''previous_concurrency'', JInt 4), (''current_concurrency'', JInt 12)])"

definition worker_inspect_recent_logs :: "(worker_lab, diagnostic_observation) action" where
  "worker_inspect_recent_logs =
     readS (\<lambda>lab.
       if worker_healthy lab
       then observation ''logs-1'' ''logs'' ''Bounded logs show no OOM kills or concurrency-correlated allocation failures.''
         [''no_oom_kill''] [(''oom_kill_count'', JInt 0), (''observed_concurrency'', JInt (wl_current lab))]
       else observation ''logs-1'' ''logs''
         ''Bounded logs show workers exceeding their memory limit and being OOM-killed when twelve jobs run concurrently.''
         [''oom_kill'', ''concurrency_correlated_oom''] [(''oom_kill_count'', JInt 4), (''observed_concurrency'', JInt 12)])"

definition worker_target :: "worker_lab diagnostic_target" where
  "worker_target =
     \<lparr>dt_health = worker_check_health, dt_resources = worker_inspect_resources, dt_logs = worker_inspect_recent_logs,
      dt_changes = worker_inspect_recent_changes\<rparr>"

definition worker_apply :: "int \<Rightarrow> worker_lab \<Rightarrow> worker_lab" where
  "worker_apply target_concurrency lab =
     lab\<lparr>wl_current := target_concurrency, wl_force_unhealthy := wl_force_unhealthy lab \<or> wl_fail_verification lab\<rparr>"

definition worker_restore :: "int \<Rightarrow> worker_lab \<Rightarrow> worker_lab" where
  "worker_restore previous lab = lab\<lparr>wl_current := previous, wl_force_unhealthy := False\<rparr>"

definition worker_telemetry_for :: "investigation_result \<Rightarrow> worker_lab \<Rightarrow> exn + telemetry_evidence" where
  "worker_telemetry_for r lab =
     (if ir_scenario r \<noteq> WORKER_CONCURRENCY then Inl (ValueError ''diagnosis does not match the owned worker lab state'')
      else check_evidence
        ((evidence_defaults WORKER_CONCURRENCY SYNTHETIC_MARKER False 1048576 0 0)
           \<lparr>memory_percent := (if worker_healthy lab then 44 else 96), oom_kill_detected := \<not> worker_healthy lab,
            worker_concurrency := Some (wl_current lab), safe_worker_concurrency := Some (wl_safe lab),
            signals := [''memory_pressure'', ''worker_concurrency_increased'', ''concurrency_correlated_oom'', ''oom_kill''],
            fault_injection := Some ''WORKER_CONCURRENCY_PRESSURE''\<rparr>))"

section \<open>Research\<close>

definition validate_research_proposal ::
    "capability_proposal \<Rightarrow> (string \<times> diagnostic_observation) list \<Rightarrow> exn + unit" where
  "validate_research_proposal p obs =
     check_observed ''capability proposal'' ''a prerequisite signal'' (cl_refs p) (cl_categories p) (cl_prerequisites p) obs"

definition research_capability ::
    "'w diagnostic_target \<Rightarrow> capability_proposal agent \<Rightarrow> string \<Rightarrow> (trace \<times> 'w, capability_proposal) action" where
  "research_capability target ag thread =
     bindS (run_agent (diagnostic_tool target thread) ag) (\<lambda>response.
     readS (\<lambda>(tr, w).
       bindE (check_capability response) (\<lambda>p.
       bindE (validate_research_proposal p (observations_for thread tr)) (\<lambda>_. Inr p))))"

definition contract_violation_revision ::
    "capability_proposal \<Rightarrow> (string \<times> diagnostic_observation) list \<Rightarrow> capability_proposal option" where
  "contract_violation_revision p obs =
     (let q = p\<lparr>cl_prerequisites := filter (\<lambda>s. s \<in> set (observed_signals obs)) (cl_prerequisites p),
                cl_categories := filter (\<lambda>c. c \<in> set (observed_categories obs)) (cl_categories p),
                cl_refs := filter (\<lambda>r. r \<in> fst ` set obs) (cl_refs p)\<rparr> in
      if length (cl_prerequisites q) < 2 \<or> length (cl_categories q) < 2 \<or> length (cl_refs q) < 2 then None
      else case check_capability q of Inl _ \<Rightarrow> None | Inr q' \<Rightarrow> Some q')"

definition recover_research ::
    "capability_proposal \<Rightarrow> (string \<times> diagnostic_observation) list \<Rightarrow> capability_proposal \<times> bool" where
  "recover_research response obs =
     (case check_capability response of
        Inl _ \<Rightarrow> (reviewer_corrected_capability_proposal, True)
      | Inr p \<Rightarrow>
          (case validate_research_proposal p obs of
             Inr _ \<Rightarrow> (p, False)
           | Inl _ \<Rightarrow>
               (case contract_violation_revision p obs of
                  Some salvaged \<Rightarrow> (salvaged, True)
                | None \<Rightarrow> (reviewer_corrected_capability_proposal, True))))"

definition research_capability_with_recovery ::
    "'w diagnostic_target \<Rightarrow> capability_proposal agent \<Rightarrow> string \<Rightarrow> (trace \<times> 'w, capability_proposal \<times> bool) action" where
  "research_capability_with_recovery target ag thread =
     bindS (run_agent (diagnostic_tool target thread) ag) (\<lambda>response.
     readS (\<lambda>(tr, w). Inr (recover_research response (observations_for thread tr))))"

definition revised_capability :: "capability_proposal \<Rightarrow> exn + capability_proposal" where
  "revised_capability p =
     check_capability
       (p\<lparr>cl_prerequisites := causal_signals (cl_prerequisites p), cl_categories := causal_categories (cl_categories p),
          cl_blast_radius :=
            (if \<not> pp_bounded_blast_radius (capability_policy_pass p)
             then ''Exactly one owned disposable worker; no scope beyond that single worker.'' else cl_blast_radius p)\<rparr>)"

section \<open>Searching and opening capabilities\<close>

definition capability_scope_text :: string where
  "capability_scope_text =
     ''EVIDENCE-SCOPE CONTRACT: this capability is supported only by observations in the '' @
     ''required_evidence_categories list above. In your final diagnosis cite ONLY observations '' @
     ''whose category is in that list; observations in any other category (such as a generic '' @
     ''health status) are symptoms rather than causal evidence and must not be cited.''"

definition capability_summary :: "capability_row \<Rightarrow> json" where
  "capability_summary r =
     JObj [(''capability_id'', JStr (pr_id r)), (''version'', JInt (int (pr_version r))),
           (''title'', JStr (cl_title (pr_proposal r))), (''summary'', JStr (cl_summary (pr_proposal r)))]"

definition capability_details :: "json \<Rightarrow> capability_row \<Rightarrow> json" where
  "capability_details c r =
     JObj [(''citation'', c), (''title'', JStr (cl_title (pr_proposal r))),
           (''parameters'', JList (map parameter_json (cl_parameters (pr_proposal r)))),
           (''prerequisites'', json_strs (cl_prerequisites (pr_proposal r))),
           (''required_evidence_categories'', json_strs (cl_categories (pr_proposal r))),
           (''verification_steps'', json_strs (cl_verification_steps (pr_proposal r))),
           (''rollback_steps'', json_strs (cl_rollback_steps (pr_proposal r))),
           (''maximum_blast_radius'', JStr (cl_blast_radius (pr_proposal r))), (''evidence_scope'', JStr capability_scope_text)]"

definition capability_source ::
    "(string \<Rightarrow> string) \<Rightarrow> (rat \<Rightarrow> string) \<Rightarrow> capabilities \<Rightarrow> (capability_proposal, capability_evaluation) knowledge_source" where
  "capability_source sha fr g =
     \<lparr>ks_kind = capability_kind sha fr, ks_registry = g, ks_applies = (\<lambda>sigs categories p. capability_matches p sigs categories),
      ks_search = ''search_approved_capabilities'', ks_open = ''open_approved_capability'', ks_id_name = ''capability_id'',
      ks_categories = cl_categories, ks_summary = capability_summary, ks_details = capability_details\<rparr>"

section \<open>What passes the gate\<close>

definition capability_good :: "capability_proposal \<Rightarrow> bool" where
  "capability_good p \<longleftrightarrow>
     set (cl_prerequisites p) \<subseteq> set worker_signals \<and>
     set (cl_categories p) \<subseteq> {''resources'', ''changes'', ''logs''} \<and>
     \<not> capability_matches p [''memory_pressure'', ''oom_kill''] [''resources'', ''logs''] \<and>
     \<not> capability_matches p [''worker_concurrency_increased''] [''health'', ''changes''] \<and>
     \<not> (cl_prerequisites p = [] \<and> set (cl_categories p) \<subseteq> {''health'', ''resources'', ''logs''}) \<and>
     all_pass (capability_policy_pass p)"

lemma capability_passed_good: "ce_passed (evaluate_capability CAPABILITY_PROMOTION_CASES p) \<longleftrightarrow> capability_good p"
proof -
  have "distinct (map ec_id CAPABILITY_PROMOTION_CASES)" "CAPABILITY_PROMOTION_CASES \<noteq> []" "length CAPABILITY_PROMOTION_CASES < 2 ^ 53"
    by (simp_all add: CAPABILITY_PROMOTION_CASES_def)
  from accuracy_one[OF this, of "capability_matches p"] false_positive_none
  have "ce_passed (evaluate_capability CAPABILITY_PROMOTION_CASES p) \<longleftrightarrow>
     list_all (case_decided (capability_matches p)) CAPABILITY_PROMOTION_CASES \<and> all_pass (capability_policy_pass p)"
    by (auto simp: evaluate_capability_def Let_def)
  moreover have "list_all (case_decided (capability_matches p)) CAPABILITY_PROMOTION_CASES \<longleftrightarrow>
     set (cl_prerequisites p) \<subseteq> set worker_signals \<and> set (cl_categories p) \<subseteq> {''resources'', ''changes'', ''logs''} \<and>
     \<not> capability_matches p [''memory_pressure'', ''oom_kill''] [''resources'', ''logs''] \<and>
     \<not> capability_matches p [''worker_concurrency_increased''] [''health'', ''changes''] \<and>
     \<not> (cl_prerequisites p = [] \<and> set (cl_categories p) \<subseteq> {''health'', ''resources'', ''logs''})"
  proof -
    have "set [''resources'', ''changes'', ''logs''] \<subseteq> set [''health'', ''resources'', ''changes'', ''logs'']" by simp
    from worker_cases_decided[OF this, of "cl_prerequisites p" "cl_categories p" "[''resources'', ''logs'']"
        "[''health'', ''changes'']" "[''health'', ''resources'', ''logs'']"]
    show ?thesis
      by (simp only: CAPABILITY_PROMOTION_CASES_def case_decided_def capability_matches_def list.pred_inject evaluation_case.simps
          eq_True eq_False simp_thms list.set)
  qed
  ultimately show ?thesis unfolding capability_good_def by blast
qed

interpretation capability_gate: promotion_gate "capability_kind sha fr" "evaluate_capability CAPABILITY_PROMOTION_CASES" capability_good
  for sha :: "string \<Rightarrow> string" and fr :: "rat \<Rightarrow> string"
  by unfold_locales (simp add: capability_kind_def capability_passed_good)

section \<open>The reference contract and the reviewer's edit\<close>

lemma owned_radius: "bounded_blast_radius ''Exactly one owned disposable worker; no scope beyond that single worker.''"
  by code_simp

lemma to_double_nine_tenths: "to_double (4 / 5) \<le> to_double (9 / 10)" "to_double (9 / 10) \<le> 1" "0 \<le> to_double (9 / 10)"
proof -
  have "\<bar>to_double (4 / 5) - 4 / 5\<bar> \<le> 1 / 2 ^ 54" "\<bar>to_double (9 / 10) - 9 / 10\<bar> \<le> 1 / 2 ^ 54"
    by (rule to_double_near; simp)+
  then have "to_double (4 / 5) \<le> 4 / 5 + 1 / 2 ^ 54" "to_double (9 / 10) \<le> 9 / 10 + 1 / 2 ^ 54" "9 / 10 - 1 / 2 ^ 54 \<le> to_double (9 / 10)"
    unfolding abs_le_iff by (simp_all only: diff_le_eq add.commute minus_diff_eq)
  moreover have "4 / 5 + 1 / 2 ^ 54 \<le> (9 / 10 - 1 / 2 ^ 54 :: rat)" "9 / 10 + 1 / 2 ^ 54 \<le> (1 :: rat)" "0 \<le> (9 / 10 - 1 / 2 ^ 54 :: rat)"
    by simp_all
  ultimately show "to_double (4 / 5) \<le> to_double (9 / 10)" "to_double (9 / 10) \<le> 1" "0 \<le> to_double (9 / 10)"
    by (meson order_trans)+
qed

lemma reference_good: "capability_good reviewer_corrected_capability_proposal"
  using owned_radius to_double_nine_tenths(1)
  by (simp add: capability_good_def reviewer_corrected_capability_proposal_def worker_signals_def capability_matches_def
      within_scope_iff all_pass_def capability_policy_pass_def max_timeout_seconds_def)

lemma reference_valid: "valid_capability reviewer_corrected_capability_proposal"
  unfolding valid_capability_def reviewer_corrected_capability_proposal_def capability_proposal.select_convs
  using to_double_nine_tenths(2,3)
  by (intro conjI; simp add: bounded_text_def matches_capability_id_def sized_def valid_parameter_def
      matches_parameter_name_def signal_name_def matches_name_def evidence_char_def target_char_def is_ascii_lower_def
      is_digit_def char_in_def code_def EVIDENCE_CATEGORIES_def diagnostic_step_def evidence_name_def unit_interval_def)

lemma revised_radius:
  assumes "revised_capability p = Inr q"
  shows "bounded_blast_radius (cl_blast_radius q)"
proof (cases "bounded_blast_radius (cl_blast_radius p)")
  case True
  with assms show ?thesis
    by (auto simp: revised_capability_def check_capability_def capability_policy_pass_def split: if_splits)
next
  case False
  with assms have "cl_blast_radius q = ''Exactly one owned disposable worker; no scope beyond that single worker.''"
    by (auto simp: revised_capability_def check_capability_def capability_policy_pass_def split: if_splits)
  then show ?thesis by (simp only: owned_radius)
qed

section \<open>Recovered research\<close>

lemma recover_research_cases:
  assumes "recover_research response obs = (q, recovered)"
  shows "(q = response \<and> \<not> recovered \<and> check_capability response = Inr response \<and> validate_research_proposal q obs = Inr ()) \<or>
    (recovered \<and> contract_violation_revision response obs = Some q) \<or>
    (recovered \<and> q = reviewer_corrected_capability_proposal)"
proof (cases "check_capability response")
  case (Inl e)
  with assms show ?thesis by (simp add: recover_research_def)
next
  case (Inr p)
  then have p: "p = response" by (simp add: check_capability_def split: if_splits)
  show ?thesis
  proof (cases "validate_research_proposal p obs")
    case (Inl e)
    with Inr p assms show ?thesis
      by (cases "contract_violation_revision p obs") (simp_all add: recover_research_def)
  qed (use Inr p assms in \<open>simp add: recover_research_def\<close>)
qed

lemma revision_observed:
  assumes "contract_violation_revision p obs = Some q"
  shows "valid_capability q" and "validate_research_proposal q obs = Inr ()"
proof -
  have q: "q = p\<lparr>cl_prerequisites := filter (\<lambda>s. s \<in> set (observed_signals obs)) (cl_prerequisites p),
      cl_categories := filter (\<lambda>c. c \<in> set (observed_categories obs)) (cl_categories p),
      cl_refs := filter (\<lambda>r. r \<in> fst ` set obs) (cl_refs p)\<rparr> \<and> valid_capability q"
    using assms unfolding contract_violation_revision_def Let_def check_capability_def
    by (auto split: if_splits)
  then show "valid_capability q" ..
  show "validate_research_proposal q obs = Inr ()"
    using q by (simp add: validate_research_proposal_def check_observed_def list_all_iff)
qed

text \<open>Research with recovery fails only when the agent itself fails. Otherwise it returns a valid contract: the
  agent's own when nothing was recovered, and always one whose references, categories and prerequisites are
  backed by observations of this thread, or the application's reference contract, which passes the gate.\<close>

theorem research_recovers:
  assumes "research_capability_with_recovery target ag thread (tr, w) = (res, (tr', w'))"
    and "answers P target" and "traced P thread tr"
  shows "(case res of
      Inl e \<Rightarrow> run_agent (diagnostic_tool target thread) ag (tr, w) = (Inl e, (tr', w'))
    | Inr (q, recovered) \<Rightarrow>
        valid_capability q \<and>
        (q = reviewer_corrected_capability_proposal \<and> recovered \<or> backed_by P (cl_refs q) (cl_categories q) (cl_prerequisites q)) \<and>
        (recovered \<or> run_agent (diagnostic_tool target thread) ag (tr, w) = (Inr q, (tr', w')))) \<and>
    ce_passed (evaluate_capability CAPABILITY_PROMOTION_CASES reviewer_corrected_capability_proposal)"
proof -
  obtain response s where run: "run_agent (diagnostic_tool target thread) ag (tr, w) = (response, s)"
    by (cases "run_agent (diagnostic_tool target thread) ag (tr, w)")
  have good: "ce_passed (evaluate_capability CAPABILITY_PROMOTION_CASES reviewer_corrected_capability_proposal)"
    unfolding capability_passed_good by (rule reference_good)
  show ?thesis
  proof (cases response)
    case (Inl e)
    with run assms(1) good show ?thesis by (auto simp: research_capability_with_recovery_def bindS_def)
  next
    case (Inr r)
    with run assms(1) have s: "s = (tr', w')" and res: "res = Inr (recover_research r (observations_for thread tr'))"
      by (auto simp: research_capability_with_recovery_def bindS_def readS_def split: prod.splits)
    obtain q recovered where q: "recover_research r (observations_for thread tr') = (q, recovered)" by force
    have tr': "traced P thread tr'" using run_agent_traced[OF _ assms(2,3)] run s by blast
    have backed: "backed_by P (cl_refs q) (cl_categories q) (cl_prerequisites q)"
      if "validate_research_proposal q (observations_for thread tr') = Inr ()"
      using that tr' unfolding validate_research_proposal_def by (rule check_observed_backed)
    from recover_research_cases[OF q] show ?thesis
      using backed revision_observed reference_valid good run Inr unfolding res q s
      by (auto simp: check_capability_def split: if_splits)
  qed
qed

text \<open>The salvaged contract of a valid proposal is valid whenever enough is left of it.\<close>

lemma valid_filtered:
  assumes "valid_capability p" and "2 \<le> length (filter P (cl_prerequisites p))" and "2 \<le> length (filter Q (cl_categories p))"
    and "2 \<le> length (filter R (cl_refs p))"
  shows "valid_capability (p\<lparr>cl_prerequisites := filter P (cl_prerequisites p), cl_categories := filter Q (cl_categories p),
    cl_refs := filter R (cl_refs p)\<rparr>)"
  using assms unfolding valid_capability_def sized_def by (auto simp: list_all_iff intro: order_trans[OF length_filter_le])

lemma sample_salvage:
  "contract_violation_revision reviewer_corrected_capability_proposal (observations_for ''k'' sample_worker_trace) =
   Some (reviewer_corrected_capability_proposal
     \<lparr>cl_prerequisites := [''memory_pressure'', ''worker_concurrency_increased'', ''oom_kill'']\<rparr>)"
proof -
  let ?p = reviewer_corrected_capability_proposal and ?obs = "observations_for ''k'' sample_worker_trace"
  have f: "filter (\<lambda>s. s \<in> set (observed_signals ?obs)) (cl_prerequisites ?p) =
      [''memory_pressure'', ''worker_concurrency_increased'', ''oom_kill'']"
    "filter (\<lambda>c. c \<in> set (observed_categories ?obs)) (cl_categories ?p) = cl_categories ?p"
    "filter (\<lambda>r. r \<in> fst ` set ?obs) (cl_refs ?p) = cl_refs ?p"
    by (simp_all add: observed_signals_def observed_categories_def observations_for_def trace_run_of_def sample_worker_trace_def
        reviewer_corrected_capability_proposal_def)
  have len: "length (cl_categories ?p) = 3" "length (cl_refs ?p) = 3"
    by (simp_all add: reviewer_corrected_capability_proposal_def)
  have "valid_capability (?p\<lparr>cl_prerequisites := [''memory_pressure'', ''worker_concurrency_increased'', ''oom_kill''],
      cl_categories := cl_categories ?p, cl_refs := cl_refs ?p\<rparr>)"
    using valid_filtered[OF reference_valid, of "\<lambda>s. s \<in> set (observed_signals ?obs)"
        "\<lambda>c. c \<in> set (observed_categories ?obs)" "\<lambda>r. r \<in> fst ` set ?obs"] len unfolding f by simp
  then show ?thesis
    unfolding contract_violation_revision_def f Let_def using len by (simp add: check_capability_def)
qed

theorem research_recovers_witness:
  "\<exists>q. research_capability_with_recovery worker_memory_pressure_lab (Answer reviewer_corrected_capability_proposal) ''k''
       (sample_worker_trace, ()) = (Inr (q, True), (sample_worker_trace, ())) \<and>
     cl_prerequisites q = [''memory_pressure'', ''worker_concurrency_increased'', ''oom_kill''] \<and> valid_capability q"
proof -
  let ?p = reviewer_corrected_capability_proposal and ?obs = "observations_for ''k'' sample_worker_trace"
  have "validate_research_proposal ?p ?obs \<noteq> Inr ()"
    by (simp add: validate_research_proposal_def check_observed_def observed_signals_def observed_categories_def
        observations_for_def trace_run_of_def sample_worker_trace_def reviewer_corrected_capability_proposal_def)
  then obtain e where e: "validate_research_proposal ?p ?obs = Inl e" by (cases "validate_research_proposal ?p ?obs") auto
  obtain q where q: "contract_violation_revision ?p ?obs = Some q"
    and pre: "cl_prerequisites q = [''memory_pressure'', ''worker_concurrency_increased'', ''oom_kill'']"
    using sample_salvage by auto
  have "check_capability ?p = Inr ?p" using reference_valid by (simp add: check_capability_def)
  with e q have r: "research_capability_with_recovery worker_memory_pressure_lab (Answer ?p) ''k'' (sample_worker_trace, ()) =
      (Inr (q, True), (sample_worker_trace, ()))"
    by (simp add: research_capability_with_recovery_def bindS_def returnS_def readS_def recover_research_def)
  have "traced worker_observation ''k'' sample_worker_trace"
    by (simp add: traced_def observations_for_def trace_run_of_def sample_worker_trace_def worker_observation_def
        worker_signals_def non_causal_context_def)
  from research_recovers[OF r worker_lab_answers this] r pre show ?thesis by auto
qed

end
