(* ===== verification/Application.thy ===== *)
theory Application
  imports Capability
begin

text \<open>
  \<open>capability_application_eval.py\<close>: diagnoses that propose a capability and cite a promoted one, their
  validation against the traces, and the scores of the evaluation. The checks of references, scope and
  citation are those of \<open>Knowledge\<close>; here a citation must also be of the proposed capability.
\<close>

record capability_diagnosis =
  cg_resource :: string
  cg_trigger :: string
  cg_summary :: string
  cg_confidence :: rat
  cg_refs :: "string list"
  cg_conclusion :: string
  cg_proposed :: string
  cg_applied_id :: "string option"
  cg_applied_version :: "int option"
  cg_applied_digest :: "string option"

definition valid_capability_diagnosis :: "capability_diagnosis \<Rightarrow> bool" where
  "valid_capability_diagnosis d \<longleftrightarrow>
     cg_resource d \<in> {''memory'', ''cpu'', ''filesystem'', ''service'', ''unknown''} \<and>
     cg_trigger d \<in> {''worker_concurrency_increase'', ''deployment'', ''memory_leak'', ''unknown''} \<and>
     bounded_text 10 1000 (cg_summary d) \<and> unit_interval (cg_confidence d) \<and> sized 2 12 (cg_refs d) \<and>
     bounded_text 10 1000 (cg_conclusion d) \<and>
     bounded_text 3 128 (cg_proposed d) \<and> matches_capability_id (cg_proposed d) \<and>
     valid_flat_citation (cg_applied_id d) (cg_applied_version d) (cg_applied_digest d) \<and>
     citation_fields_are_all_present_or_absent (cg_applied_id d) (cg_applied_version d) (cg_applied_digest d)"

definition check_capability_diagnosis :: "capability_diagnosis \<Rightarrow> exn + capability_diagnosis" where
  "check_capability_diagnosis d = (if valid_capability_diagnosis d then Inr d else Inl ValidationError)"

definition capability_citation :: "capability_diagnosis \<Rightarrow> exn + citation option" where
  "capability_citation d = flat_citation (cg_applied_id d) (cg_applied_version d) (cg_applied_digest d)"

record capability_outcome =
  co_diagnosis :: capability_diagnosis
  co_citation :: "citation option"
  co_diagnostic_calls :: "string list"
  co_capability_calls :: "string list"
  co_citation_valid :: bool

definition validate_capability_diagnosis ::
    "(capability_proposal, capability_evaluation) knowledge_source \<Rightarrow> bool \<Rightarrow> string \<Rightarrow> capability_diagnosis \<Rightarrow> trace
       \<Rightarrow> knowledge_trace \<Rightarrow> exn + capability_outcome"
where
  "validate_capability_diagnosis ks require_capability thread response tr kn =
     bindE (check_capability_diagnosis response) (\<lambda>d.
     bindE (check_citations ks require_capability (\<lambda>c. ct_id c = cg_proposed d) (cg_refs d) (capability_citation d) thread tr kn)
       (\<lambda>cited.
     Inr \<lparr>co_diagnosis = d, co_citation = cited, co_diagnostic_calls = tool_calls_for thread tr,
          co_capability_calls = knowledge_calls_for thread kn, co_citation_valid = True\<rparr>))"

definition investigate_with_capabilities ::
    "(string \<Rightarrow> string) \<Rightarrow> (rat \<Rightarrow> string) \<Rightarrow> capabilities \<Rightarrow> 'w diagnostic_target \<Rightarrow> capability_diagnosis agent \<Rightarrow> string \<Rightarrow> bool
       \<Rightarrow> ('w knowing, capability_outcome) action"
where
  "investigate_with_capabilities sha fr g target ag thread require_capability =
     bindS (run_agent (knowing_tool (capability_source sha fr g) target thread) ag) (\<lambda>response.
     readS (\<lambda>((tr, w), kn). validate_capability_diagnosis (capability_source sha fr g) require_capability thread response tr kn))"

section \<open>Scores\<close>

definition capability_members :: "capability_outcome \<Rightarrow> members" where
  "capability_members r =
     [(''primary_resource'', JStr (cg_resource (co_diagnosis r))), (''trigger'', JStr (cg_trigger (co_diagnosis r))),
      (''summary'', JStr (cg_summary (co_diagnosis r))), (''confidence'', JFloat (cg_confidence (co_diagnosis r))),
      (''evidence_refs'', json_strs (cg_refs (co_diagnosis r))), (''conclusion'', JStr (cg_conclusion (co_diagnosis r))),
      (''proposed_capability_id'', JStr (cg_proposed (co_diagnosis r))),
      (''applied_capability_id'', json_str (cg_applied_id (co_diagnosis r))),
      (''applied_capability_version'', (case cg_applied_version (co_diagnosis r) of None \<Rightarrow> JNull | Some v \<Rightarrow> JInt v)),
      (''applied_capability_digest'', json_str (cg_applied_digest (co_diagnosis r))),
      (''capability_citation'', (case co_citation r of None \<Rightarrow> JNull | Some c \<Rightarrow> citation_json ''capability_id'' c)),
      (''diagnostic_tool_calls'', json_strs (co_diagnostic_calls r)), (''capability_tool_calls'', json_strs (co_capability_calls r)),
      (''tool_calls'', json_strs (co_diagnostic_calls r @ co_capability_calls r)),
      (''capability_citation_valid'', JBool (co_citation_valid r))]"

definition expected_capability :: string where "expected_capability = ''reduce_worker_concurrency''"

definition capability_correct :: "members \<Rightarrow> string \<Rightarrow> bool" where
  "capability_correct outputs expected \<longleftrightarrow> json_get ''proposed_capability_id'' outputs = Some (JStr expected)"

definition explicit_capability_citation :: "members \<Rightarrow> bool" where
  "explicit_capability_citation outputs \<longleftrightarrow>
     (case json_get ''capability_citation'' outputs of Some (JObj (_ # _)) \<Rightarrow> True | _ \<Rightarrow> False) \<and>
     json_get ''capability_citation_valid'' outputs = Some (JBool True) \<and>
     ''open_approved_capability'' \<in> set (strings_at ''capability_tool_calls'' outputs)"

section \<open>An accepted diagnosis is grounded\<close>

lemma learned_capability_grounded:
  assumes "investigate_with_capabilities sha fr g target ag thread demanded ((tr, w), kn) = (Inr out, ((tr', w'), kn'))"
    and "registry_history (capability_kind sha fr) (evaluate_capability CAPABILITY_PROMOTION_CASES) empty_registry g"
    and "answers P target" and "traced P thread tr" and "opened_for thread kn = []"
  shows "list_all (\<lambda>ref. \<exists>ob. map_of (observations_for thread tr') ref = Some ob \<and> P ob \<and>
      in_scope (capability_source sha fr g) (opened_for thread kn') ob) (cg_refs (co_diagnosis out)) \<and>
    (case co_citation out of
       None \<Rightarrow> \<not> demanded \<and> opened_for thread kn' = []
     | Some c \<Rightarrow> c \<in> set (opened_for thread kn') \<and> ct_id c = cg_proposed (co_diagnosis out) \<and>
         (\<exists>r \<in> set (promoted g). citation_of r = c \<and> capability_good (pr_proposal r)))"
proof -
  let ?ks = "capability_source sha fr g"
  from assms(1) obtain response where
    run: "run_agent (knowing_tool ?ks target thread) ag ((tr, w), kn) = (Inr response, ((tr', w'), kn'))"
    and "validate_capability_diagnosis ?ks demanded thread response tr' kn' = Inr out"
    by (auto simp: investigate_with_capabilities_def bindS_Inr_iff)
  then have c: "check_citations ?ks demanded (\<lambda>c. ct_id c = cg_proposed (co_diagnosis out)) (cg_refs (co_diagnosis out))
      (capability_citation (co_diagnosis out)) thread tr' kn' = Inr (co_citation out)"
    by (auto simp: validate_capability_diagnosis_def results)
  have ks: "ks_kind ?ks = capability_kind sha fr" "ks_registry ?ks = g" by (simp_all add: capability_source_def)
  have "registry_history (capability_kind sha fr) (evaluate_capability CAPABILITY_PROMOTION_CASES) empty_registry (ks_registry ?ks)"
    using assms(2) by (simp only: ks(2))
  from capability_gate.citations_grounded[OF run ks(1) this assms(3-5) c] show ?thesis unfolding ks(2) simp_thms .
qed

end
