(* ===== verification/Activation.thy ===== *)
theory Activation
  imports Executor Capability
begin

text \<open>
  \<open>ConcurrencyReductionExecutor\<close> of \<open>executor.py\<close>: the adapter that lowers the concurrency of the owned
  disposable worker, authorised by a promoted capability. The registry does not change while it runs.
\<close>

text \<open>The dict by parameter name: a repeated name keeps its place and the last definition.\<close>

definition promoted_parameters :: "capability_parameter list \<Rightarrow> (string \<times> capability_parameter) list" where
  "promoted_parameters ps = fold (\<lambda>p. AList.update (cp_name p) p) ps []"

definition in_bounds :: "(string \<times> json) list \<Rightarrow> string \<times> capability_parameter \<Rightarrow> bool" where
  "in_bounds parameters = (\<lambda>(name, p).
     case map_of parameters name of Some (JInt v) \<Rightarrow> cp_minimum p \<le> v \<and> v \<le> cp_maximum p | _ \<Rightarrow> False)"

text \<open>\<open>parameters[next(iter(promoted_parameters))]\<close>, after the bounds check an integer.\<close>

definition requested_value :: "(string \<times> json) list \<Rightarrow> (string \<times> capability_parameter) list \<Rightarrow> exn + int" where
  "requested_value parameters ps =
     (case ps of
        [] \<Rightarrow> Inl (TypeError ''unhashable type'')
      | (name, _) # _ \<Rightarrow> (case map_of parameters name of Some (JInt v) \<Rightarrow> Inr v | _ \<Rightarrow> Inl (KeyError name)))"

definition already_reduced :: execution_result where
  "already_reduced = execution_succeeded ''worker concurrency is already at or below the approved target''"

definition reduced :: execution_result where
  "reduced = (execution_succeeded ''worker concurrency reduced and health verified'')
     \<lparr>xr_attempts := 1, xr_health_before := Some ''unhealthy'', xr_health_after := Some ''healthy''\<rparr>"

definition not_recovered :: execution_result where
  "not_recovered =
     (execution_failed ''worker health did not recover; concurrency restored to the previous value'' ''verification_failed'')
     \<lparr>xr_attempts := 1, xr_health_before := Some ''unhealthy'', xr_health_after := Some ''unhealthy''\<rparr>"

definition reduce_to :: "int \<Rightarrow> (worker_lab, execution_result) action" where
  "reduce_to requested =
     (\<lambda>lab.
        if wl_current lab \<le> requested then (Inr already_reduced, lab)
        else
          bindS (\<lambda>l. worker_check_health (worker_apply requested l)) (\<lambda>health.
            if map_of (dg_measurements health) ''status_code'' = Some (JInt 200) then returnS reduced
            else (\<lambda>l. (Inr not_recovered, worker_restore (wl_current lab) l))) lab)"

definition concurrency_execute ::
    "(string \<Rightarrow> string) \<Rightarrow> (rat \<Rightarrow> string) \<Rightarrow> capabilities \<Rightarrow> remediation_option \<Rightarrow> (worker_lab, execution_result) action" where
  "concurrency_execute sha fr g opt =
     (if ro_action_id opt \<noteq> ''reduce_worker_concurrency'' then returnS unauthorized
      else case ro_capability opt of
        None \<Rightarrow> returnS (execution_failed ''promoted capability binding is required'' ''capability_not_bound'')
      | Some b \<Rightarrow>
          (case get_promoted_capability sha fr (cb_capability_id b) (nat (cb_version b)) g of
             Inl (KeyError _) \<Rightarrow>
               returnS (execution_failed ''promoted capability record does not exist'' ''capability_unpromoted'')
           | Inl e \<Rightarrow> raiseS e
           | Inr r \<Rightarrow>
               if pr_digest r \<noteq> cb_content_digest b
               then returnS (execution_failed ''promoted capability digest does not match the approved binding''
                 ''capability_digest_mismatch'')
               else if ''owned_disposable_worker'' \<notin> set (cl_allowed_targets (pr_proposal r))
               then returnS (execution_failed ''target class is not authorized by the promoted contract''
                 ''target_class_not_authorized'')
               else
                 let parameters = (case ro_parameters opt of None \<Rightarrow> [] | Some kvs \<Rightarrow> kvs);
                     ps = promoted_parameters (cl_parameters (pr_proposal r)) in
                 if set (map fst parameters) \<noteq> set (map fst ps)
                 then returnS (execution_failed ''executed parameters do not match the promoted contract''
                   ''parameter_contract_mismatch'')
                 else if \<not> list_all (in_bounds parameters) ps
                 then returnS (execution_failed ''target parameter is outside approved bounds'' ''parameter_out_of_bounds'')
                 else bindS (readS (\<lambda>lab.
                     if ro_target_id opt \<noteq> Some (wl_lab_id lab) then Inr None
                     else bindE (requested_value parameters ps) (\<lambda>v. Inr (Some v)))) (\<lambda>requested.
                   case requested of
                     None \<Rightarrow> returnS (execution_failed ''target is not the owned disposable worker'' ''unauthorized_target'')
                   | Some v \<Rightarrow> reduce_to v)))"

section \<open>What the adapter does to the worker\<close>

lemma health_measured:
  "\<exists>ob. worker_check_health lab = (Inr ob, lab) \<and>
     (map_of (dg_measurements ob) ''status_code'' = Some (JInt 200) \<longleftrightarrow> worker_healthy lab)"
proof -
  have ids: "matches_evidence_id ''health-1''"
    by (simp add: matches_evidence_id_def evidence_char_def target_char_def is_ascii_lower_def is_digit_def char_in_def code_def)
  show ?thesis
    by (simp add: worker_check_health_def readS_def observation_def check_observation_def valid_observation_def ids
        EVIDENCE_CATEGORIES_def scalar_def)
qed

lemma reduce_results [simp]:
  "xr_success already_reduced" "xr_success reduced" "\<not> xr_success not_recovered"
  "xr_failure_reason_code already_reduced = None" "xr_failure_reason_code reduced = None"
  "xr_failure_reason_code not_recovered = Some ''verification_failed''"
  by (simp_all add: already_reduced_def reduced_def not_recovered_def execution_succeeded_def execution_failed_def)

lemma reduce_to_eq:
  "reduce_to n lab =
     (if wl_current lab \<le> n then (Inr already_reduced, lab)
      else if worker_healthy (worker_apply n lab) then (Inr reduced, worker_apply n lab)
      else (Inr not_recovered, worker_restore (wl_current lab) (worker_apply n lab)))"
proof -
  obtain ob where ob: "worker_check_health (worker_apply n lab) = (Inr ob, worker_apply n lab)"
    "map_of (dg_measurements ob) ''status_code'' = Some (JInt 200) \<longleftrightarrow> worker_healthy (worker_apply n lab)"
    using health_measured by blast
  show ?thesis by (simp add: reduce_to_def bindS_def ob returnS_def)
qed

lemma reduce_to_reasoned: "reduce_to n lab = (Inr r, lab') \<Longrightarrow> reasoned r"
  by (auto simp: reduce_to_eq reasoned_def split: if_splits)

text \<open>What authorises lowering the concurrency of a worker to \<open>n\<close>.\<close>

definition authorises ::
    "(string \<Rightarrow> string) \<Rightarrow> (rat \<Rightarrow> string) \<Rightarrow> capabilities \<Rightarrow> remediation_option \<Rightarrow> string \<Rightarrow> capability_row \<Rightarrow> int \<Rightarrow> bool" where
  "authorises sha fr g opt lab_id r n \<longleftrightarrow>
     ro_action_id opt = ''reduce_worker_concurrency'' \<and> r \<in> set (promoted g) \<and>
     ro_capability opt = Some \<lparr>cb_capability_id = pr_id r, cb_version = int (pr_version r), cb_content_digest = contract_digest sha fr (pr_proposal r)\<rparr> \<and>
     ro_target_id opt = Some lab_id \<and> ''owned_disposable_worker'' \<in> set (cl_allowed_targets (pr_proposal r)) \<and>
     (\<exists>p \<in> set (cl_parameters (pr_proposal r)). \<exists>kvs. ro_parameters opt = Some kvs \<and> map_of kvs (cp_name p) = Some (JInt n) \<and>
        cp_minimum p \<le> n \<and> n \<le> cp_maximum p)"

lemma promoted_parameters_set:
  assumes "(name, p) \<in> set (promoted_parameters ps)"
  shows "p \<in> set ps \<and> name = cp_name p"
proof -
  have "(name, p) \<in> set (fold (\<lambda>p. AList.update (cp_name p) p) ps al) \<Longrightarrow> (name, p) \<in> set al \<or> p \<in> set ps \<and> name = cp_name p" for al
  proof (induction ps arbitrary: al)
    case (Cons q ps)
    from Cons.IH[of "AList.update (cp_name q) q al"] Cons.prems show ?case
      using set_update_subset[of "cp_name q" q al] by auto
  qed simp
  from this[of "[]"] assms show ?thesis by (simp add: promoted_parameters_def)
qed

lemma requested_in_bounds:
  assumes "requested_value parameters (promoted_parameters ps) = Inr n" and "list_all (in_bounds parameters) (promoted_parameters ps)"
  shows "\<exists>p \<in> set ps. map_of parameters (cp_name p) = Some (JInt n) \<and> cp_minimum p \<le> n \<and> n \<le> cp_maximum p"
proof (cases "promoted_parameters ps")
  case (Cons q rest)
  obtain name p where q: "q = (name, p)" by (cases q)
  with Cons promoted_parameters_set[of name p ps] have p: "p \<in> set ps" "name = cp_name p" by simp_all
  from assms(1) Cons q p(2) have "map_of parameters (cp_name p) = Some (JInt n)"
    by (auto simp: requested_value_def split: option.splits json.splits)
  with assms(2) Cons q p show ?thesis by (auto simp: in_bounds_def)
qed (use assms(1) in \<open>simp add: requested_value_def\<close>)

lemma failed_result: "\<not> xr_success (execution_failed m c)" "\<not> xr_success unauthorized"
  by (simp_all add: unauthorized_def execution_failed_def)

text \<open>Either the worker is left alone and nothing succeeds, or the reduction runs with an authorised value.\<close>

lemma concurrency_execute_cases:
  assumes "concurrency_execute sha fr g opt lab = (res, lab')" and "\<forall>b. ro_capability opt = Some b \<longrightarrow> valid_capability_binding b"
  shows "(lab' = lab \<and> (\<forall>x. res = Inr x \<longrightarrow> \<not> xr_success x \<and> reasoned x)) \<or>
    (\<exists>r n. authorises sha fr g opt (wl_lab_id lab) r n \<and> reduce_to n lab = (res, lab'))"
proof (rule ccontr)
  assume no: "\<not> ?thesis"
  have failed: "\<not> (res = Inr x \<and> lab' = lab \<and> \<not> xr_success x \<and> reasoned x)" for x using no by blast
  have raised: "\<not> (res = Inl e \<and> lab' = lab)" for e using no by blast
  note exec = assms(1)[unfolded concurrency_execute_def]
  have fails: "\<not> (returnS (execution_failed m c) lab = (res, lab'))" "\<not> (returnS unauthorized lab = (res, lab'))"
    "\<not> (raiseS e lab = (res, lab'))" for m c e
    using failed[of "execution_failed m c"] failed[of unauthorized] raised[of e]
    by (auto simp: returnS_def raiseS_def failed_result)
  from exec fails have act: "ro_action_id opt = ''reduce_worker_concurrency''" by (auto split: if_splits)
  from exec fails obtain b where b: "ro_capability opt = Some b" by (cases "ro_capability opt") (auto split: if_splits)
  from exec act b fails obtain r where r: "get_promoted_capability sha fr (cb_capability_id b) (nat (cb_version b)) g = Inr r"
    by (cases "get_promoted_capability sha fr (cb_capability_id b) (nat (cb_version b)) g") (auto split: exn.splits)
  define parameters where "parameters = (case ro_parameters opt of None \<Rightarrow> [] | Some kvs \<Rightarrow> kvs)"
  define ps where "ps = promoted_parameters (cl_parameters (pr_proposal r))"
  from exec act b r fails have ok: "pr_digest r = cb_content_digest b" "''owned_disposable_worker'' \<in> set (cl_allowed_targets (pr_proposal r))"
      "list_all (in_bounds parameters) ps"
    and rest: "bindS (readS (\<lambda>lab. if ro_target_id opt \<noteq> Some (wl_lab_id lab) then Inr None
                     else bindE (requested_value parameters ps) (\<lambda>v. Inr (Some v)))) (\<lambda>requested.
                   case requested of
                     None \<Rightarrow> returnS (execution_failed ''target is not the owned disposable worker'' ''unauthorized_target'')
                   | Some v \<Rightarrow> reduce_to v) lab = (res, lab')"
    unfolding parameters_def ps_def by (auto simp: Let_def split: if_splits)
  have target: "ro_target_id opt = Some (wl_lab_id lab)" using rest fails by (auto simp: bindS_def readS_def split: if_splits)
  obtain n where n: "requested_value parameters ps = Inr n"
    using rest target raised by (cases "requested_value parameters ps") (auto simp: bindS_def readS_def)
  with rest target have run: "reduce_to n lab = (res, lab')" by (simp add: bindS_def readS_def)
  have g: "r \<in> set (promoted g)" "pr_id r = cb_capability_id b" "pr_version r = nat (cb_version b)"
    "contract_digest sha fr (pr_proposal r) = pr_digest r"
    using get_promoted_checked[OF r[unfolded get_promoted_capability_def]] by (simp_all add: capability_kind_def)
  have "1 \<le> cb_version b" using assms(2) b by (simp add: valid_capability_binding_def)
  with g ok(1) have "b = \<lparr>cb_capability_id = pr_id r, cb_version = int (pr_version r), cb_content_digest = contract_digest sha fr (pr_proposal r)\<rparr>"
    by simp
  moreover obtain p where p: "p \<in> set (cl_parameters (pr_proposal r))" "map_of parameters (cp_name p) = Some (JInt n)"
      "cp_minimum p \<le> n" "n \<le> cp_maximum p"
    using requested_in_bounds[OF n[unfolded ps_def] ok(3)[unfolded ps_def]] by blast
  moreover obtain kvs where "ro_parameters opt = Some kvs" "kvs = parameters"
    using p(2) unfolding parameters_def by (cases "ro_parameters opt") auto
  ultimately have "authorises sha fr g opt (wl_lab_id lab) r n"
    unfolding authorises_def using act b g(1) ok(2) target by blast
  with run no show False by blast
qed

lemma reduce_to_outcome:
  assumes "reduce_to n lab = (res, lab')"
  shows "\<exists>x. res = Inr x \<and>
    (if xr_success x then wl_current lab' = min n (wl_current lab) \<and> (n < wl_current lab \<longrightarrow> worker_healthy lab')
     else wl_current lab' = wl_current lab \<and> xr_failure_reason_code x = Some ''verification_failed'')"
proof (cases "wl_current lab \<le> n")
  case True
  with assms show ?thesis by (auto simp: reduce_to_eq)
next
  case False
  with assms show ?thesis
    by (cases "worker_healthy (worker_apply n lab)") (auto simp: reduce_to_eq worker_apply_def worker_restore_def)
qed

lemma capability_good_bounds: "capability_good p \<Longrightarrow> q \<in> set (cl_parameters p) \<Longrightarrow> 1 \<le> cp_minimum q \<and> cp_maximum q \<le> 8"
  by (simp add: capability_good_def all_pass_def capability_policy_pass_def list_all_iff)

interpretation concurrency: remediation_executor "concurrency_execute sha fr g" "{''reduce_worker_concurrency''}"
  for sha :: "string \<Rightarrow> string" and fr :: "rat \<Rightarrow> string" and g :: capabilities
proof unfold_locales
  fix opt :: remediation_option and w
  assume "ro_action_id opt \<notin> {''reduce_worker_concurrency''}"
  then show "\<exists>r. concurrency_execute sha fr g opt w = (Inr r, w) \<and> \<not> xr_success r"
    by (simp add: concurrency_execute_def returnS_def failed_result)
next
  fix opt :: remediation_option and w r w'
  assume run: "concurrency_execute sha fr g opt w = (Inr r, w')"
  then show "reasoned r"
    unfolding concurrency_execute_def
    by (auto simp: returnS_def raiseS_def bindS_def readS_def Let_def reduce_to_reasoned
        split: if_splits option.splits sum.splits exn.splits)
qed

section \<open>Properties\<close>

text \<open>C17: The worker's concurrency is lowered only under a promoted capability: if the adapter reports success or
  changes the worker at all, the approved option names a version in the registry with its digest, that version
  passed the promotion gate and was promoted by a reviewer, the target is this very lab, and the value lies in
  the contract's bounds, hence between 1 and 8. On success the worker runs at most that many jobs, and if it
  had to be lowered it is verified healthy; without success its concurrency is what it was.\<close>

theorem activation_authorised:
  assumes "concurrency_execute sha fr g opt lab = (res, lab')" and "valid_option opt"
    and "registry_history (capability_kind sha fr) (evaluate_capability CAPABILITY_PROMOTION_CASES) empty_registry g"
    and "lab' \<noteq> lab \<or> (\<exists>x. res = Inr x \<and> xr_success x)"
  shows "\<exists>r n x. authorises sha fr g opt (wl_lab_id lab) r n \<and> capability_good (pr_proposal r) \<and> row_of (capability_kind sha fr) g r \<and>
    1 \<le> n \<and> n \<le> 8 \<and> res = Inr x \<and>
    (if xr_success x then wl_current lab' = min n (wl_current lab) \<and> (n < wl_current lab \<longrightarrow> worker_healthy lab')
     else wl_current lab' = wl_current lab \<and> xr_failure_reason_code x = Some ''verification_failed'')"
proof -
  have "\<forall>b. ro_capability opt = Some b \<longrightarrow> valid_capability_binding b"
    using assms(2) by (auto simp: valid_option_def split: option.splits)
  from concurrency_execute_cases[OF assms(1) this] assms(4) obtain r n
    where auth: "authorises sha fr g opt (wl_lab_id lab) r n" and run: "reduce_to n lab = (res, lab')" by blast
  have r: "r \<in> set (promoted g)" using auth by (simp add: authorises_def)
  have good: "capability_good (pr_proposal r)" by (rule capability_gate.promoted_good[OF assms(3) r])
  have row: "row_of (capability_kind sha fr) g r" by (rule capability_gate.promoted_reviewed[OF assms(3) r])
  obtain p where p: "p \<in> set (cl_parameters (pr_proposal r))" "cp_minimum p \<le> n" "n \<le> cp_maximum p"
    using auth by (auto simp: authorises_def)
  with capability_good_bounds[OF good p(1)] have "1 \<le> n" "n \<le> 8" by simp_all
  with reduce_to_outcome[OF run] auth good row show ?thesis by blast
qed

section \<open>Witness\<close>

abbreviation sample_capabilities :: capabilities where
  "sample_capabilities \<equiv> first_registry (capability_kind sample_sha fraction_text) (evaluate_capability CAPABILITY_PROMOTION_CASES)
     ''c1'' reviewer_corrected_capability_proposal ''sre'' ''t1''"

definition sample_activation_option :: remediation_option where
  "sample_activation_option =
     \<lparr>ro_action_id = ''reduce_worker_concurrency'', ro_title = ''t'', ro_evidence = [''logs-1''], ro_confidence = 1,
      ro_impact = ''i'', ro_risk = ''r'', ro_action_preview = ''p'', ro_parameters = Some [(''target_concurrency'', JInt 4)],
      ro_target_id = Some ''lab-1'',
      ro_capability = Some \<lparr>cb_capability_id = ''reduce_worker_concurrency'', cb_version = 1, cb_content_digest = sample_sha []\<rparr>\<rparr>"

lemma sample_capability_promoted:
  "promoted sample_capabilities = [first_version (capability_kind sample_sha fraction_text)
     (evaluate_capability CAPABILITY_PROMOTION_CASES) ''c1'' reviewer_corrected_capability_proposal ''sre'' ''t1'']"
proof (rule first_promoted)
  show "rk_passed (capability_kind sample_sha fraction_text) (evaluate_capability CAPABILITY_PROMOTION_CASES reviewer_corrected_capability_proposal)"
    using reference_good by (simp add: capability_kind_def capability_passed_good)
qed (simp add: check_reviewer_def)

lemma sample_capability_get:
  "\<exists>r. get_promoted_capability sample_sha fraction_text ''reduce_worker_concurrency'' 1 sample_capabilities = Inr r \<and>
     pr_proposal r = reviewer_corrected_capability_proposal \<and> pr_digest r = sample_sha []"
proof -
  let ?r = "first_version (capability_kind sample_sha fraction_text) (evaluate_capability CAPABILITY_PROMOTION_CASES)
     ''c1'' reviewer_corrected_capability_proposal ''sre'' ''t1''"
  have i: "cl_capability_id reviewer_corrected_capability_proposal = ''reduce_worker_concurrency''"
    by (simp add: reviewer_corrected_capability_proposal_def)
  have f: "pr_id ?r = ''reduce_worker_concurrency''" "pr_version ?r = 1" "pr_proposal ?r = reviewer_corrected_capability_proposal"
    "pr_digest ?r = sample_sha []"
    by (simp_all add: first_version_def capability_kind_def i contract_digest_def sample_sha_def)
  have "?r \<in> set (promoted sample_capabilities)" by (simp add: sample_capability_promoted)
  from get_promoted_inv[OF history_inv[OF first_history reg_inv_empty] this]
  have "get_promoted_capability sample_sha fraction_text ''reduce_worker_concurrency'' 1 sample_capabilities = Inr ?r"
    unfolding get_promoted_capability_def f(1,2) .
  with f(3,4) show ?thesis by blast
qed

lemma sample_activation:
  "\<exists>x. concurrency_execute sample_sha fraction_text sample_capabilities sample_activation_option (new_worker_lab ''lab-1'') =
     (Inr x, (new_worker_lab ''lab-1'')\<lparr>wl_current := 4\<rparr>) \<and> xr_success x"
proof -
  from sample_capability_get obtain r where r: "get_promoted_capability sample_sha fraction_text ''reduce_worker_concurrency'' 1 sample_capabilities = Inr r"
    "pr_proposal r = reviewer_corrected_capability_proposal" "pr_digest r = sample_sha []" by blast
  have ps: "promoted_parameters (cl_parameters reviewer_corrected_capability_proposal) =
      [(''target_concurrency'', \<lparr>cp_name = ''target_concurrency'', cp_minimum = 1, cp_maximum = 8, cp_required = True\<rparr>)]"
    "cl_allowed_targets reviewer_corrected_capability_proposal = [''owned_disposable_worker'']"
    by (simp_all add: reviewer_corrected_capability_proposal_def promoted_parameters_def)
  have run: "\<exists>x. reduce_to 4 (new_worker_lab ''lab-1'') = (Inr x, (new_worker_lab ''lab-1'')\<lparr>wl_current := 4\<rparr>) \<and> xr_success x"
    by (simp add: reduce_to_eq new_worker_lab_def worker_apply_def worker_healthy_def)
  then show ?thesis
    using r by (simp add: concurrency_execute_def sample_activation_option_def ps in_bounds_def requested_value_def bindS_def
        readS_def new_worker_lab_def)
qed

theorem activation_authorised_witness:
  "\<exists>r \<in> set (promoted sample_capabilities). capability_good (pr_proposal r) \<and>
     authorises sample_sha fraction_text sample_capabilities sample_activation_option ''lab-1'' r 4"
proof -
  from sample_activation obtain x where x: "concurrency_execute sample_sha fraction_text sample_capabilities sample_activation_option
      (new_worker_lab ''lab-1'') = (Inr x, (new_worker_lab ''lab-1'')\<lparr>wl_current := 4\<rparr>)" "xr_success x" by blast
  have v: "valid_option sample_activation_option"
    by (simp add: valid_option_def sample_activation_option_def unit_interval_def parameters_must_be_bounded_def bounded_parameter_def
        bounded_text_def matches_parameter_name_def matches_target_def target_char_def valid_capability_binding_def
        matches_capability_id_def sample_sha_def is_ascii_lower_def is_digit_def char_in_def code_def)
  from activation_authorised[OF x(1) v first_history] x(2) obtain r n
    where r: "authorises sample_sha fraction_text sample_capabilities sample_activation_option ''lab-1'' r n"
    "capability_good (pr_proposal r)" by (auto simp: new_worker_lab_def)
  then have "n = 4" "r \<in> set (promoted sample_capabilities)"
    by (auto simp: authorises_def sample_activation_option_def split: if_splits)
  with r show ?thesis by blast
qed

end
