(* ===== verification/ContainerLab.thy ===== *)
theory ContainerLab
  imports Executor Telemetry Analyzer
begin

text \<open>
  \<open>container_lab.py\<close>: one owned, hardened service container over a disposable sandbox, and
  \<open>DisposableServiceRestartExecutor\<close> of \<open>executor.py\<close>, which restarts it. The container engine and the
  passing of time are parameters: a command may change the files (the sandbox is mounted into the
  container) and the world, \<open>sleep\<close> lets at least the time asked for pass, and before each reading of the
  monotonic clock any time may have passed. The clock never goes back, so the polling loops end: they
  are functions with a termination proof. Messages of \<open>ContainerLabError\<close> are left out, its reason
  codes are kept.
\<close>

record 'w container_service =
  sv_sandbox :: sandbox
  sv_image :: string
  sv_engine :: string
  sv_timeout :: rat
  sv_health_timeout :: rat
  sv_lab_id :: string
  sv_gid :: nat
  sv_run :: "string list \<Rightarrow> rat \<Rightarrow> files \<times> 'w \<Rightarrow> run_outcome \<times> files \<times> 'w"
  sv_delay :: "'w \<Rightarrow> nat \<times> 'w"
  sv_sleep :: "nat \<Rightarrow> files \<times> 'w \<Rightarrow> files \<times> 'w"
  sv_loads :: "string \<Rightarrow> json option"
  sv_repr :: "json \<Rightarrow> string"

text \<open>What changes: the attributes of the object and of its sandbox, the files, the clock in nanoseconds.\<close>

record 'w lab =
  lb_container :: "string option"
  lb_temporary :: bool
  lb_files :: files
  lb_time :: nat
  lb_world :: 'w

definition LAB_LABEL :: string where "LAB_LABEL = ''io.incident-response-agent.disposable-service''"

definition SERVICE_SCRIPT :: string where
  "SERVICE_SCRIPT = text_lines
     ['''',
      ''from http.server import BaseHTTPRequestHandler, HTTPServer'',
      ''from pathlib import Path'',
      '''',
      ''state = Path('/incident-sandbox/services/boot-count')'',
      ''state.parent.mkdir(parents=True, exist_ok=True)'',
      ''try:'',
      ''    boot_count = int(state.read_text()) + 1'',
      ''except (FileNotFoundError, ValueError):'',
      ''    boot_count = 1'',
      ''state.write_text(str(boot_count))'',
      ''response_status = 503 if boot_count == 1 else 200'',
      '''',
      ''class Handler(BaseHTTPRequestHandler):'',
      ''    def do_GET(self):'',
      ''        self.send_response(response_status if self.path == '/health' else 404)'',
      ''        self.end_headers()'',
      ''        self.wfile.write(b'unhealthy' if response_status != 200 else b'healthy')'',
      '''',
      ''    def log_message(self, *_args):'',
      ''        pass'',
      '''',
      ''HTTPServer(('127.0.0.1', 8080), Handler).serve_forever()'']"

definition HEALTH_PROBE :: string where
  "HEALTH_PROBE = text_lines
     [''import urllib.request, urllib.error, sys'',
      ''try:'',
      ''    urllib.request.urlopen('http://127.0.0.1:8080/health', timeout=1)'',
      ''    sys.exit(0)'',
      ''except urllib.error.HTTPError as e:'',
      ''    sys.exit(2 if e.code == 503 else 3)'',
      ''except Exception:'',
      ''    sys.exit(1)'']"

section \<open>Calls to the engine, the files and the clock\<close>

definition lab_error :: "string \<Rightarrow> ('s, 'a) action" where
  "lab_error reason = raiseS (ContainerLabError reason)"

definition filesL :: "(files, 'a) action \<Rightarrow> ('w lab, 'a) action" where
  "filesL m s = (case m (lb_files s) of (r, f) \<Rightarrow> (r, s\<lparr>lb_files := f\<rparr>))"

definition container_name :: "'w container_service \<Rightarrow> string" where
  "container_name sv = ''incident-service-'' @ sv_lab_id sv"

definition container_identity :: "'w container_service \<Rightarrow> 'w lab \<Rightarrow> string" where
  "container_identity sv s =
     (case lb_container s of Some c \<Rightarrow> if c = [] then container_name sv else c | None \<Rightarrow> container_name sv)"

text \<open>\<open>_run\<close>; \<open>timeout or self.timeout_seconds\<close>, so that zero means the default.\<close>

definition run_command :: "'w container_service \<Rightarrow> string list \<Rightarrow> rat \<Rightarrow> ('w lab, int \<times> string) action" where
  "run_command sv command timeout s =
     (case sv_run sv command (if timeout = 0 then sv_timeout sv else timeout) (lb_files s, lb_world s) of
        (outcome, f, w) \<Rightarrow>
          ((case outcome of
              Completed returncode stdout stderr \<Rightarrow> Inr (returncode, stdout)
            | Run_timed_out \<Rightarrow> Inl (ContainerLabError ''container_command_timeout'')
            | Run_os_error \<Rightarrow> Inl (ContainerLabError ''container_runtime_error'')),
           s\<lparr>lb_files := f, lb_world := w\<rparr>))"

definition clock_seconds :: "nat \<Rightarrow> rat" where "clock_seconds n = to_double (of_nat n / 1000000000)"

definition read_clock :: "'w container_service \<Rightarrow> 'w lab \<Rightarrow> rat \<times> 'w lab" where
  "read_clock sv s =
     (case sv_delay sv (lb_world s) of
        (d, w) \<Rightarrow> (clock_seconds (lb_time s + d), s\<lparr>lb_time := lb_time s + d, lb_world := w\<rparr>))"

definition monotonic :: "'w container_service \<Rightarrow> ('w lab, rat) action" where
  "monotonic sv s = (case read_clock sv s of (t, s') \<Rightarrow> (Inr t, s'))"

definition sleep :: "'w container_service \<Rightarrow> nat \<Rightarrow> 'w lab \<Rightarrow> 'w lab" where
  "sleep sv nanoseconds s =
     (case sv_sleep sv nanoseconds (lb_files s, lb_world s) of
        (f, w) \<Rightarrow> s\<lparr>lb_files := f, lb_world := w, lb_time := lb_time s + nanoseconds\<rparr>)"

text \<open>\<open>DisposableContainerService.__init__\<close>: the refusals.\<close>

definition new_container_service :: "'w container_service \<Rightarrow> exn + 'w container_service" where
  "new_container_service sv =
     (if \<not> image_pinned (sv_image sv) then Inl (ValueError ''container image must be pinned by sha256 digest'')
      else if sv_engine sv = [] then Inl (ContainerLabError ''container_engine_unavailable'')
      else Inr sv)"

section \<open>Inspecting the target\<close>

definition truthy :: "json \<Rightarrow> bool" where
  "truthy j =
     (case j of JNull \<Rightarrow> False | JBool b \<Rightarrow> b | JInt i \<Rightarrow> i \<noteq> 0 | JFloat x \<Rightarrow> x \<noteq> 0
      | JStr s \<Rightarrow> s \<noteq> [] | JList js \<Rightarrow> js \<noteq> [] | JObj kvs \<Rightarrow> kvs \<noteq> [])"

text \<open>\<open>j.get(key, default)\<close>, and the same after \<open>or {}\<close>.\<close>

definition json_member :: "string \<Rightarrow> json \<Rightarrow> json \<Rightarrow> exn + json" where
  "json_member key absent j =
     (case j of
        JObj kvs \<Rightarrow> Inr (case map_of kvs key of None \<Rightarrow> absent | Some x \<Rightarrow> x)
      | _ \<Rightarrow> Inl AttributeError)"

definition get_in :: "string \<Rightarrow> json \<Rightarrow> exn + json" where
  "get_in key j = json_member key JNull (if truthy j then j else JObj [])"

text \<open>Iterating over \<open>record.get("Mounts") or []\<close>, and \<open>mount.get("Type") == "bind"\<close>.\<close>

definition json_items :: "json \<Rightarrow> exn + json list" where
  "json_items j =
     (if \<not> truthy j then Inr [] else
      case j of
        JList js \<Rightarrow> Inr js
      | JObj kvs \<Rightarrow> Inr (map (JStr \<circ> fst) kvs)
      | JStr s \<Rightarrow> Inr (map (\<lambda>c. JStr [c]) s)
      | _ \<Rightarrow> Inl (TypeError ''not iterable''))"

fun bind_mounts :: "json list \<Rightarrow> exn + json list" where
  "bind_mounts [] = Inr []"
| "bind_mounts (m # ms) =
     bindE (json_member ''Type'' JNull m) (\<lambda>t.
     bindE (bind_mounts ms) (\<lambda>rest. Inr (if t = JStr ''bind'' then m # rest else rest)))"

definition str_of_json :: "(json \<Rightarrow> string) \<Rightarrow> json \<Rightarrow> string" where
  "str_of_json repr j =
     (case j of JStr s \<Rightarrow> s | JNull \<Rightarrow> ''None'' | JBool b \<Rightarrow> if b then ''True'' else ''False'' | JInt i \<Rightarrow> show_int i
      | _ \<Rightarrow> repr j)"

text \<open>\<open>Path.resolve\<close> of a path that may contain \<open>..\<close>.\<close>

function real_path :: "nat \<Rightarrow> files \<Rightarrow> path \<Rightarrow> path \<Rightarrow> path option" where
  "real_path n f acc [] = Some acc"
| "real_path n f acc (c # cs) =
     (if c = ''..'' then real_path n f (butlast acc) cs
      else case map_of f (acc @ [c]) of
        Some (Symlink t) \<Rightarrow> (case n of 0 \<Rightarrow> None | Suc m \<Rightarrow> real_path m f [] (t @ cs))
      | _ \<Rightarrow> real_path n f (acc @ [c]) cs)"
  by pat_completeness auto
termination by (relation "measures [\<lambda>(n, _, _, _). n, \<lambda>(_, _, _, cs). length cs]") auto

definition resolve_text :: "host \<Rightarrow> string \<Rightarrow> files \<Rightarrow> exn + path" where
  "resolve_text h s f = (case real_path 40 f [] (absolute h s) of None \<Rightarrow> Inl RuntimeError | Some p \<Rightarrow> Inr p)"

definition check_mount :: "host \<Rightarrow> 'w container_service \<Rightarrow> json list \<Rightarrow> files \<Rightarrow> exn + unit" where
  "check_mount h sv mounts f =
     (case mounts of
        [mount] \<Rightarrow>
          bindE (json_member ''Source'' (JStr []) mount) (\<lambda>s.
          bindE (resolve_text h (str_of_json (sv_repr sv) s) f) (\<lambda>source.
          bindE (json_member ''Destination'' JNull mount) (\<lambda>destination.
          bindE (json_member ''RW'' JNull mount) (\<lambda>rw.
          if source \<noteq> sb_root (sv_sandbox sv) \<or> destination \<noteq> JStr ''/incident-sandbox'' \<or> rw \<noteq> JBool True
          then Inl (ContainerLabError ''target_mount_mismatch'') else Inr ()))))
      | _ \<Rightarrow> Inl (ContainerLabError ''target_mount_mismatch''))"

definition check_inspection :: "host \<Rightarrow> 'w container_service \<Rightarrow> json \<Rightarrow> files \<Rightarrow> exn + unit" where
  "check_inspection h sv r f =
     bindE (json_member ''Config'' JNull r) (\<lambda>config.
     bindE (get_in ''Labels'' config) (\<lambda>labels.
     bindE (get_in LAB_LABEL labels) (\<lambda>label.
     if label \<noteq> JStr (sv_lab_id sv) then Inl (ContainerLabError ''target_ownership_mismatch'')
     else
       bindE (json_member ''Mounts'' JNull r) (\<lambda>m.
       bindE (json_items m) (\<lambda>items.
       bindE (bind_mounts items) (\<lambda>mounts.
       bindE (check_mount h sv mounts f) (\<lambda>_.
       bindE (json_member ''HostConfig'' JNull r) (\<lambda>host_config.
       bindE (get_in ''Privileged'' host_config) (\<lambda>privileged.
       if privileged = JBool True then Inl (ContainerLabError ''target_security_mismatch'') else Inr ())))))))))"

text \<open>\<open>json.loads(stdout)[0]\<close>.\<close>

definition inspected_record :: "(string \<Rightarrow> json option) \<Rightarrow> string \<Rightarrow> exn + json" where
  "inspected_record loads stdout =
     (case loads stdout of
        None \<Rightarrow> Inl (ContainerLabError ''container_inspect_invalid'')
      | Some payload \<Rightarrow>
          (case first_item payload of
             Inl _ \<Rightarrow> Inl (ContainerLabError ''container_inspect_invalid'')
           | Inr r \<Rightarrow> Inr r))"

definition identityL :: "'w container_service \<Rightarrow> ('w lab, string) action" where
  "identityL sv = readS (\<lambda>s. Inr (container_identity sv s))"

definition inspect_raw :: "host \<Rightarrow> 'w container_service \<Rightarrow> ('w lab, json) action" where
  "inspect_raw h sv =
     bindS (identityL sv) (\<lambda>identity.
     bindS (run_command sv [sv_engine sv, ''inspect'', identity] 5) (\<lambda>(returncode, stdout).
     if returncode \<noteq> 0 then lab_error ''target_container_missing''
     else
       bindS (readS (\<lambda>_. inspected_record (sv_loads sv) stdout)) (\<lambda>r.
       bindS (filesL (readS (check_inspection h sv r))) (\<lambda>_.
       returnS r))))"

definition health_of :: "int \<Rightarrow> string" where
  "health_of returncode = (if returncode = 0 then ''healthy'' else if returncode = 2 then ''unhealthy'' else ''starting'')"

definition probe_health :: "'w container_service \<Rightarrow> ('w lab, string) action" where
  "probe_health sv =
     bindS (readS (\<lambda>s. if lb_container s = None then Inl (ContainerLabError ''target_container_missing'') else Inr ())) (\<lambda>_.
     bindS (identityL sv) (\<lambda>identity.
     catchS
       (bindS (run_command sv [sv_engine sv, ''exec'', identity, ''python'', ''-c'', HEALTH_PROBE] 10)
         (\<lambda>(returncode, stdout). returnS (health_of returncode)))
       (\<lambda>e. returnS ''starting'')))"

text \<open>\<open>int(boot_file.read_text())\<close>, zero when the file is missing or no number of at most 4300 digits.\<close>

definition read_boot_count :: "path \<Rightarrow> files \<Rightarrow> int" where
  "read_boot_count p f =
     (case stat f p of
        Some (Regular text) \<Rightarrow>
          if 4300 < length (filter is_digit text) then 0
          else (case int_of_text text of Inl _ \<Rightarrow> 0 | Inr n \<Rightarrow> n)
      | _ \<Rightarrow> 0)"

definition snapshot :: "host \<Rightarrow> 'w container_service \<Rightarrow> ('w lab, container_snapshot) action" where
  "snapshot h sv =
     bindS (filesL (readS (validate h (sv_sandbox sv)))) (\<lambda>_.
     bindS (readS (\<lambda>s. case lb_container s of None \<Rightarrow> Inl (ContainerLabError ''target_container_missing'') | Some c \<Rightarrow> Inr c)) (\<lambda>c.
     bindS (inspect_raw h sv) (\<lambda>r.
     bindS (readS (\<lambda>_. json_member ''State'' JNull r)) (\<lambda>state.
     bindS (filesL (readS (resolve_child h (sv_sandbox sv) ''services/boot-count''))) (\<lambda>boot_file.
     bindS (readS (\<lambda>s. Inr (read_boot_count boot_file (lb_files s)))) (\<lambda>boot_count.
     bindS (readS (\<lambda>_. json_member ''Status'' (JStr ''unknown'') (if truthy state then state else JObj []))) (\<lambda>status.
     bindS (probe_health sv) (\<lambda>health.
     returnS \<lparr>cs_container_id = c, cs_runtime_status = str_of_json (sv_repr sv) status,
       cs_health_status = health, cs_boot_count = boot_count\<rparr>))))))))"

section \<open>Time\<close>

text \<open>Only the clock and \<open>sleep\<close> move time, and neither moves it back.\<close>

definition timeless :: "'w lab \<Rightarrow> 'w lab \<Rightarrow> bool" where
  "timeless s t \<longleftrightarrow> lb_time t = lb_time s \<and> lb_container t = lb_container s"

lemma timeless_preorder: "reflp timeless" "transp timeless"
  by (auto simp: timeless_def reflp_def transp_def)

lemma timeless_files: "keeps timeless (filesL m)"
  by (auto simp: keeps_def timeless_def filesL_def split: prod.splits)

lemma timeless_run: "keeps timeless (run_command sv command t)"
  by (auto simp: keeps_def timeless_def run_command_def split: prod.splits)

lemmas timeless_moves = keeps_pure[OF timeless_preorder(1)] keeps_bind[OF timeless_preorder(2)] timeless_files timeless_run

lemma timeless_operations:
  "keeps timeless (inspect_raw h sv)" "keeps timeless (probe_health sv)" "keeps timeless (snapshot h sv)"
proof -
  show i: "keeps timeless (inspect_raw h sv)"
    unfolding inspect_raw_def identityL_def lab_error_def by (auto intro!: timeless_moves)
  show p: "keeps timeless (probe_health sv)"
    unfolding probe_health_def identityL_def
    by (intro timeless_moves keeps_catch[OF timeless_preorder(2)]) (auto intro!: timeless_moves)
  show "keeps timeless (snapshot h sv)"
    unfolding snapshot_def by (intro timeless_moves i p)
qed

lemma snapshot_time: "lb_time (snd (snapshot h sv s)) = lb_time s" "lb_container (snd (snapshot h sv s)) = lb_container s"
  using timeless_operations(3)[of h sv] by (simp_all add: keeps_def timeless_def)

text \<open>A clock reading is at least half of the seconds that have passed, so it grows without bound.\<close>

lemma clock_seconds_half: "of_nat n / 2000000000 \<le> clock_seconds n"
  using to_double_half[of "of_nat n / 1000000000"] by (cases "n = 0") (simp_all add: clock_seconds_def)

section \<open>Polling\<close>

lemma read_clock_time:
  assumes "read_clock sv s = (t, s')"
  shows "lb_time s \<le> lb_time s'" "t = clock_seconds (lb_time s')"
  using assms by (auto simp: read_clock_def split: prod.splits)

lemma sleep_time [simp]: "lb_time (sleep sv n s) = lb_time s + n" "lb_container (sleep sv n s) = lb_container s"
  by (simp_all add: sleep_def split: prod.splits)

text \<open>How many nanoseconds may pass before a deadline in seconds is certainly over.\<close>

definition horizon :: "rat \<Rightarrow> nat" where "horizon deadline = nat \<lceil>2000000000 * deadline\<rceil>"

lemma before_deadline:
  assumes "clock_seconds n < deadline"
  shows "n < horizon deadline"
proof -
  have "of_nat n < 2000000000 * deadline" using clock_seconds_half[of n] assms by (simp add: field_simps)
  then have "int n < \<lceil>2000000000 * deadline\<rceil>" by (simp add: less_ceiling_iff)
  then show ?thesis by (simp add: horizon_def)
qed

text \<open>A round of a polling loop brings the horizon closer.\<close>

lemma polling:
  "(t, s1) = read_clock sv s \<Longrightarrow> t < deadline \<Longrightarrow> (r, s2) = snapshot h sv s1 \<Longrightarrow> 0 < n \<Longrightarrow>
     horizon deadline - (lb_time s2 + n) < horizon deadline - lb_time s"
  "(t, s1) = read_clock sv s \<Longrightarrow> t < deadline \<Longrightarrow> (r, s2) = snapshot h sv (sleep sv n s1) \<Longrightarrow> 0 < n \<Longrightarrow>
     horizon deadline - lb_time s2 < horizon deadline - lb_time s"
proof -
  assume clock: "(t, s1) = read_clock sv s" and t: "t < deadline" and n: "0 < n"
  have s1: "lb_time s \<le> lb_time s1" "lb_time s1 < horizon deadline"
    using read_clock_time[OF clock[symmetric]] before_deadline t by auto
  show "horizon deadline - (lb_time s2 + n) < horizon deadline - lb_time s" if "(r, s2) = snapshot h sv s1"
  proof -
    have "lb_time s2 = lb_time s1" using snapshot_time(1)[of h sv s1] unfolding that[symmetric] by simp
    with s1 n show ?thesis by linarith
  qed
  show "horizon deadline - lb_time s2 < horizon deadline - lb_time s" if "(r, s2) = snapshot h sv (sleep sv n s1)"
  proof -
    have "lb_time s2 = lb_time s1 + n" using snapshot_time(1)[of h sv "sleep sv n s1"] unfolding that[symmetric] by simp
    with s1 n show ?thesis by linarith
  qed
qed

text \<open>\<open>while time.monotonic() < deadline: ...; time.sleep(0.25)\<close>.\<close>

function wait_loop ::
    "host \<Rightarrow> 'w container_service \<Rightarrow> string \<Rightarrow> rat \<Rightarrow> nat \<Rightarrow> ('w lab, container_snapshot \<times> nat) action"
where
  "wait_loop h sv expected deadline attempts s =
     (case read_clock sv s of (t, s1) \<Rightarrow>
        if \<not> t < deadline then lab_error ''target_health_timeout'' s1
        else case snapshot h sv s1 of
          (Inl e, s2) \<Rightarrow> (Inl e, s2)
        | (Inr c, s2) \<Rightarrow>
            if cs_health_status c = expected then (Inr (c, attempts + 1), s2)
            else wait_loop h sv expected deadline (attempts + 1) (sleep sv 250000000 s2))"
  by pat_completeness auto
termination
  by (relation "measure (\<lambda>(h, sv, expected, deadline, attempts, s). horizon deadline - lb_time s)")
    (rule wf_measure, simp del: not_less not_le, rule polling(1), assumption, assumption, assumption, simp)

declare wait_loop.simps [simp del]

definition wait_for_health ::
    "host \<Rightarrow> 'w container_service \<Rightarrow> string \<Rightarrow> rat \<Rightarrow> ('w lab, container_snapshot \<times> nat) action" where
  "wait_for_health h sv expected timeout =
     bindS (monotonic sv) (\<lambda>t. wait_loop h sv expected (to_double (t + timeout)) 0)"

text \<open>The re-reading of the boot count after a restart, every 50 ms for a second.\<close>

function settle_loop ::
    "host \<Rightarrow> 'w container_service \<Rightarrow> int \<Rightarrow> rat \<Rightarrow> container_snapshot \<Rightarrow> ('w lab, container_snapshot) action"
where
  "settle_loop h sv boot_before deadline current s =
     (case read_clock sv s of (t, s1) \<Rightarrow>
        if \<not> (t < deadline \<and> cs_boot_count current \<le> boot_before) then (Inr current, s1)
        else case snapshot h sv (sleep sv 50000000 s1) of
          (Inl e, s2) \<Rightarrow> (Inl e, s2)
        | (Inr c, s2) \<Rightarrow> settle_loop h sv boot_before deadline c s2)"
  by pat_completeness auto
termination
  by (relation "measure (\<lambda>(h, sv, boot_before, deadline, current, s). horizon deadline - lb_time s)")
    (rule wf_measure, simp del: not_less not_le, rule polling(2), assumption, simp, assumption, simp)

declare settle_loop.simps [simp del]

section \<open>Restart and removal\<close>

record restart_observation =
  rs_health_before :: string
  rs_health_after :: string
  rs_boot_count :: int
  rs_attempts :: nat
  rs_latency_ms :: int

definition restart_from :: "host \<Rightarrow> 'w container_service \<Rightarrow> container_snapshot \<Rightarrow> ('w lab, restart_observation) action" where
  "restart_from h sv before =
     bindS (monotonic sv) (\<lambda>started.
     bindS (run_command sv [sv_engine sv, ''restart'', ''--time'', ''2'', cs_container_id before] 0) (\<lambda>(returncode, stdout).
     if returncode \<noteq> 0 then lab_error ''target_restart_failed''
     else
       bindS (wait_for_health h sv ''healthy'' (sv_health_timeout sv)) (\<lambda>(current, attempts).
       bindS (monotonic sv) (\<lambda>t.
       bindS (settle_loop h sv (cs_boot_count before) (to_double (t + 1)) current) (\<lambda>settled.
       if cs_container_id settled \<noteq> cs_container_id before then lab_error ''target_identity_changed''
       else
         bindS (monotonic sv) (\<lambda>now.
         returnS \<lparr>rs_health_before = cs_health_status before, rs_health_after = cs_health_status settled,
           rs_boot_count = cs_boot_count settled, rs_attempts = attempts,
           rs_latency_ms = truncate_rat (to_double (to_double (now - started) * 1000))\<rparr>))))))"

definition restart_and_wait :: "host \<Rightarrow> 'w container_service \<Rightarrow> ('w lab, restart_observation) action" where
  "restart_and_wait h sv =
     bindS (snapshot h sv) (\<lambda>before.
     if cs_health_status before \<noteq> ''unhealthy'' then lab_error ''target_not_unhealthy''
     else restart_from h sv before)"

definition close_sandbox :: "host \<Rightarrow> 'w container_service \<Rightarrow> ('w lab, unit) action" where
  "close_sandbox h sv s =
     (if lb_temporary s
      then bindS (filesL (remove_tree h (sb_root (sv_sandbox sv)))) (\<lambda>_ s'. (Inr (), s'\<lparr>lb_temporary := False\<rparr>)) s
      else (Inr (), s))"

text \<open>\<open>Path(engine).name == "podman"\<close>.\<close>

definition is_podman :: "'w container_service \<Rightarrow> bool" where
  "is_podman sv = (let parts = path_parts (sv_engine sv) in parts \<noteq> [] \<and> last parts = ''podman'')"

text \<open>The \<open>try\<close> block of \<open>close\<close>.\<close>

definition remove_container :: "host \<Rightarrow> 'w container_service \<Rightarrow> ('w lab, unit) action" where
  "remove_container h sv =
     bindS (identityL sv) (\<lambda>identity.
     bindS (catchS (bindS (run_command sv ([sv_engine sv, ''rm'', ''-f''] @ (if is_podman sv then [''--time'', ''0''] else []) @ [identity]) 10)
              (\<lambda>_. returnS ())) (\<lambda>e. returnS ())) (\<lambda>_.
     bindS (catchS (bindS (run_command sv [sv_engine sv, ''inspect'', identity] 5) (\<lambda>(returncode, stdout). returnS (returncode = 0)))
              (\<lambda>e. returnS True)) (\<lambda>remaining.
     if remaining then lab_error ''container_cleanup_failed''
     else bindS (\<lambda>s. (Inr (), s\<lparr>lb_container := None\<rparr>)) (\<lambda>_. close_sandbox h sv))))"

text \<open>Its \<open>finally\<close> block, whose own exception replaces the result.\<close>

definition restore_after_close :: "host \<Rightarrow> 'w container_service \<Rightarrow> ('w lab, unit) action" where
  "restore_after_close h sv =
     filesL (\<lambda>f.
       if path_exists f (sb_root (sv_sandbox sv))
       then catchS (restore_owner_access h (sv_sandbox sv) [''services'']) (\<lambda>e.
         case e of
           OSError \<Rightarrow> lab_error ''sandbox_permission_restore_failed''
         | SandboxViolation _ \<Rightarrow> lab_error ''sandbox_permission_restore_failed''
         | ValueError _ \<Rightarrow> lab_error ''sandbox_permission_restore_failed''
         | _ \<Rightarrow> raiseS e) f
       else (Inr (), f))"

definition close_lab :: "host \<Rightarrow> 'w container_service \<Rightarrow> ('w lab, unit) action" where
  "close_lab h sv s =
     (case remove_container h sv s of
        (result, s1) \<Rightarrow>
          (case restore_after_close h sv s1 of
             (Inl e, s2) \<Rightarrow> (Inl e, s2)
           | (Inr _, s2) \<Rightarrow> (result, s2)))"

section \<open>Start\<close>

text \<open>\<open>mkdir(mode=0o700, exist_ok=True)\<close> of a child of the sandbox.\<close>

definition mkdir_private :: "host \<Rightarrow> path \<Rightarrow> (files, unit) action" where
  "mkdir_private h p =
     changeS (\<lambda>f. if is_dir f p then Inr f
       else if lstat f p \<noteq> None then Inl OSError
       else make_directory h p f)"

definition start_command :: "host \<Rightarrow> 'w container_service \<Rightarrow> string list" where
  "start_command h sv =
     [sv_engine sv, ''run'', ''-d'', ''--pull=missing'', ''--name'', container_name sv, ''--label'',
      LAB_LABEL @ ''='' @ sv_lab_id sv, ''--restart=no'', ''--network=none'', ''--read-only'', ''--cpus=0.5'',
      ''--memory=128m'', ''--memory-swap=128m'', ''--pids-limit=64'', ''--cap-drop=ALL'',
      ''--security-opt=no-new-privileges'', ''--user'', container_user (h_euid h) (sv_gid sv), ''--mount'',
      ''type=bind,src='' @ show_path (sb_root (sv_sandbox sv)) @ '',dst=/incident-sandbox'',
      ''--tmpfs'', ''/tmp:rw,noexec,nosuid,size=16m'', sv_image sv, ''python'', ''-c'', SERVICE_SCRIPT]"

definition container_id_ok :: "string \<Rightarrow> bool" where
  "container_id_ok s \<longleftrightarrow> 12 \<le> length s \<and> length s \<le> 64 \<and> list_all hex_digit s"

definition prepare_start :: "host \<Rightarrow> 'w container_service \<Rightarrow> (files, unit) action" where
  "prepare_start h sv =
     bindS (readS (validate h (sv_sandbox sv))) (\<lambda>_.
     bindS (readS (resolve_child h (sv_sandbox sv) ''services'')) (\<lambda>services.
     bindS (mkdir_private h services) (\<lambda>_.
     bindS (if h_euid h = 0 then changeS (chmod h services 448) else returnS ()) (\<lambda>_.
     prepare_container_access h (sv_sandbox sv) [''services'']))))"

definition close_and_raise :: "host \<Rightarrow> 'w container_service \<Rightarrow> exn \<Rightarrow> ('w lab, 'a) action" where
  "close_and_raise h sv e = bindS (close_lab h sv) (\<lambda>_. raiseS e)"

definition start :: "host \<Rightarrow> 'w container_service \<Rightarrow> ('w lab, container_snapshot) action" where
  "start h sv =
     bindS (readS (\<lambda>s. if lb_container s \<noteq> None then Inl (ContainerLabError ''target_already_started'') else Inr ())) (\<lambda>_.
     bindS (filesL (prepare_start h sv)) (\<lambda>_.
     bindS (run_command sv (start_command h sv) 0) (\<lambda>(returncode, stdout).
     if returncode \<noteq> 0 then close_and_raise h sv (ContainerLabError ''container_start_failed'')
     else if \<not> container_id_ok (strip stdout)
     then close_and_raise h sv (ContainerLabError ''container_identity_invalid'')
     else
       bindS (\<lambda>s. (Inr (), s\<lparr>lb_container := Some (strip stdout)\<rparr>)) (\<lambda>_.
       catchS (bindS (wait_for_health h sv ''unhealthy'' (sv_health_timeout sv)) (\<lambda>(c, attempts). returnS c))
         (close_and_raise h sv)))))"

section \<open>The executor over the lab\<close>

definition service_restart_execute :: "host \<Rightarrow> 'w container_service \<Rightarrow> remediation_option \<Rightarrow> ('w lab, execution_result) action" where
  "service_restart_execute h sv opt =
     (if ro_action_id opt \<noteq> ''restart_unhealthy_container_service'' then returnS unauthorized
      else
        catchS
          (bindS (restart_and_wait h sv) (\<lambda>ob.
           returnS ((execution_succeeded ''disposable service restarted and verified healthy'')
             \<lparr>xr_service_restarted := True, xr_health_before := Some (rs_health_before ob),
              xr_health_after := Some (rs_health_after ob), xr_attempts := int (rs_attempts ob),
              xr_latency_ms := rs_latency_ms ob, xr_boot_count := rs_boot_count ob\<rparr>)))
          (\<lambda>e. case e of
             ContainerLabError reason \<Rightarrow> returnS (execution_failed ''disposable service restart failed'' reason)
           | _ \<Rightarrow> raiseS e))"

section \<open>What a snapshot says\<close>

lemma snapshot_inv:
  assumes "snapshot h sv s = (Inr c, s')"
  shows "lb_container s = Some (cs_container_id c)" "lb_container s' = lb_container s"
    "\<exists>s1 s2. lb_container s1 = lb_container s \<and> probe_health sv s1 = (Inr (cs_health_status c), s2) \<and> s' = s2"
proof -
  show same: "lb_container s' = lb_container s" using snapshot_time(2)[of h sv s] assms by simp
  from assms show "lb_container s = Some (cs_container_id c)"
    by (auto simp: snapshot_def bindS_Inr_iff filesL_def readS_def split: option.splits)
  from assms obtain s1 where s1: "probe_health sv s1 = (Inr (cs_health_status c), s')"
    by (auto simp: snapshot_def bindS_Inr_iff)
  moreover have "lb_container s1 = lb_container s'"
    using timeless_operations(2)[of sv] s1 by (metis keeps_def timeless_def snd_conv)
  ultimately show "\<exists>s1 s2. lb_container s1 = lb_container s \<and> probe_health sv s1 = (Inr (cs_health_status c), s2) \<and> s' = s2"
    using same by auto
qed

text \<open>A loop that ends well: the last attempt began before the deadline, after all the pauses.\<close>

lemma wait_loop_inv:
  assumes "wait_loop h sv expected deadline m s = (Inr (c, k), s')"
  shows "cs_health_status c = expected \<and> m < k \<and> lb_container s' = lb_container s \<and>
    lb_container s = Some (cs_container_id c) \<and>
    (\<exists>n. lb_time s + (k - m - 1) * 250000000 \<le> n \<and> n \<le> lb_time s' \<and> clock_seconds n < deadline) \<and>
    (\<exists>s0. snapshot h sv s0 = (Inr c, s'))"
  using assms
proof (induction h sv expected deadline m s rule: wait_loop.induct)
  case (1 h sv expected deadline m s)
  obtain t s1 where clock: "read_clock sv s = (t, s1)" by (cases "read_clock sv s")
  note ct = read_clock_time[OF clock]
  have cc: "lb_container s1 = lb_container s" using clock by (auto simp: read_clock_def split: prod.splits)
  have t: "t < deadline" using 1(2) clock by (subst (asm) wait_loop.simps) (auto simp: lab_error_def split: if_splits)
  obtain r s2 where snap: "snapshot h sv s1 = (r, s2)" by (cases "snapshot h sv s1")
  obtain c1 where r: "r = Inr c1"
    using 1(2) clock t snap by (subst (asm) wait_loop.simps) (cases r; auto)
  have s2: "lb_time s2 = lb_time s1" "lb_container s2 = lb_container s1" using snapshot_time[of h sv s1] snap by simp_all
  show ?case
  proof (cases "cs_health_status c1 = expected")
    case True
    then have "c1 = c" "k = m + 1" "s2 = s'"
      using 1(2) clock t snap r by (subst (asm) wait_loop.simps, simp)+
    then show ?thesis using True snap r cc ct s2 t snapshot_inv(1)[of h sv s1 c s2] by auto
  next
    case False
    have rest: "wait_loop h sv expected deadline (m + 1) (sleep sv 250000000 s2) = (Inr (c, k), s')"
      using 1(2) clock t snap r False by (subst (asm) wait_loop.simps) simp
    have ih: "cs_health_status c = expected \<and> m + 1 < k \<and> lb_container s' = lb_container (sleep sv 250000000 s2) \<and>
      lb_container (sleep sv 250000000 s2) = Some (cs_container_id c) \<and>
      (\<exists>n. lb_time (sleep sv 250000000 s2) + (k - (m + 1) - 1) * 250000000 \<le> n \<and> n \<le> lb_time s' \<and> clock_seconds n < deadline) \<and>
      (\<exists>s0. snapshot h sv s0 = (Inr c, s'))"
      using 1(1)[OF clock[symmetric] _ snap[symmetric] r False rest] t by blast
    then obtain n where n: "lb_time s2 + 250000000 + (k - (m + 1) - 1) * 250000000 \<le> n" "n \<le> lb_time s'" "clock_seconds n < deadline"
      by auto
    have "(k - m - 1) * 250000000 = 250000000 + (k - (m + 1) - 1) * 250000000"
      using ih by (metis Suc_diff_Suc Suc_eq_plus1 diff_diff_left mult_Suc)
    with n ct(1) s2(1) have "lb_time s + (k - m - 1) * 250000000 \<le> n" by linarith
    with n ih cc s2(2) show ?thesis by auto
  qed
qed

lemma settle_loop_inv:
  assumes "settle_loop h sv boot_before deadline current s = (Inr c, s')" and "lb_container s = Some (cs_container_id current)"
  shows "lb_container s' = lb_container s \<and> cs_container_id c = cs_container_id current \<and> lb_time s \<le> lb_time s' \<and>
    (boot_before < cs_boot_count current \<longrightarrow> c = current) \<and>
    (boot_before < cs_boot_count c \<or> deadline \<le> clock_seconds (lb_time s')) \<and>
    (c = current \<or> (\<exists>s0 s1. lb_container s0 = lb_container s \<and> snapshot h sv s0 = (Inr c, s1)))"
  using assms
proof (induction h sv boot_before deadline current s rule: settle_loop.induct)
  case (1 h sv boot_before deadline current s)
  obtain t s1 where clock: "read_clock sv s = (t, s1)" by (cases "read_clock sv s")
  note ct = read_clock_time[OF clock]
  have cc: "lb_container s1 = lb_container s" using clock by (auto simp: read_clock_def split: prod.splits)
  show ?case
  proof (cases "t < deadline \<and> cs_boot_count current \<le> boot_before")
    case False
    then have "c = current" "s' = s1" using 1(2) clock by (subst (asm) settle_loop.simps, simp)+
    then show ?thesis using False ct cc by auto
  next
    case True
    let ?s = "sleep sv 50000000 s1"
    obtain r s2 where snap: "snapshot h sv ?s = (r, s2)" by (cases "snapshot h sv ?s")
    obtain c1 where r: "r = Inr c1"
      using 1(2) clock True snap by (subst (asm) settle_loop.simps) (cases r; auto)
    have rest: "settle_loop h sv boot_before deadline c1 s2 = (Inr c, s')"
      using 1(2) clock True snap r by (subst (asm) settle_loop.simps) simp
    note s2 = snapshot_inv(1,2)[OF snap[unfolded r]]
    have id: "cs_container_id c1 = cs_container_id current" "lb_container s2 = lb_container s"
      using s2 cc 1(3) by simp_all
    have "lb_time s2 = lb_time s1 + 50000000" using snapshot_time(1)[of h sv ?s] snap by simp
    with 1(1)[OF clock[symmetric] _ snap[symmetric] r rest] True id 1(3) ct cc s2
    show ?thesis using snap r by auto
  qed
qed

lemma wait_for_health_inv:
  assumes "wait_for_health h sv expected timeout s = (Inr (c, k), s')"
  shows "\<exists>n0. lb_time s \<le> n0 \<and> cs_health_status c = expected \<and> 0 < k \<and> lb_container s' = lb_container s \<and>
    lb_container s = Some (cs_container_id c) \<and>
    (\<exists>n. n0 + (k - 1) * 250000000 \<le> n \<and> n \<le> lb_time s' \<and> clock_seconds n < to_double (clock_seconds n0 + timeout)) \<and>
    (\<exists>s0. snapshot h sv s0 = (Inr c, s'))"
proof -
  obtain t s1 where clock: "read_clock sv s = (t, s1)" by (cases "read_clock sv s")
  have cc: "lb_container s1 = lb_container s" using clock by (auto simp: read_clock_def split: prod.splits)
  have loop: "wait_loop h sv expected (to_double (t + timeout)) 0 s1 = (Inr (c, k), s')"
    using assms clock by (simp add: wait_for_health_def bindS_def monotonic_def)
  show ?thesis
    using wait_loop_inv[OF loop] read_clock_time[OF clock] cc by (intro exI[of _ "lb_time s1"]) auto
qed

section \<open>Ownership\<close>

text \<open>The record the engine shows of a container carries the label of this lab.\<close>

definition owned_record :: "'w container_service \<Rightarrow> json \<Rightarrow> bool" where
  "owned_record sv r \<longleftrightarrow> (\<exists>kvs config labels. r = JObj kvs \<and> map_of kvs ''Config'' = Some (JObj config) \<and>
     map_of config ''Labels'' = Some (JObj labels) \<and> map_of labels LAB_LABEL = Some (JStr (sv_lab_id sv)))"

lemma json_member_Inr: "json_member key absent j = Inr x \<longleftrightarrow>
  (\<exists>kvs. j = JObj kvs \<and> x = (case map_of kvs key of None \<Rightarrow> absent | Some y \<Rightarrow> y))"
  by (auto simp: json_member_def split: json.splits)

lemma get_in_Some:
  assumes "get_in key j = Inr x" and "x \<noteq> JNull"
  shows "\<exists>kvs. j = JObj kvs \<and> map_of kvs key = Some x"
  using assms by (auto simp: get_in_def json_member_Inr split: if_splits option.splits)

lemma checked_owned:
  assumes "check_inspection h sv r f = Inr u"
  shows "owned_record sv r"
proof -
  from assms obtain config labels where c: "json_member ''Config'' JNull r = Inr config" and l: "get_in ''Labels'' config = Inr labels"
    and i: "get_in LAB_LABEL labels = Inr (JStr (sv_lab_id sv))"
    by (auto simp: check_inspection_def bindE_Inr_iff split: if_splits)
  from get_in_Some[OF i] obtain ls where ls: "labels = JObj ls" "map_of ls LAB_LABEL = Some (JStr (sv_lab_id sv))" by auto
  from get_in_Some[OF l] ls obtain cs where cs: "config = JObj cs" "map_of cs ''Labels'' = Some labels" by auto
  from c cs show ?thesis using ls by (auto simp: json_member_Inr owned_record_def split: option.splits)
qed

definition shown_owned :: "'w container_service \<Rightarrow> string \<Rightarrow> bool" where
  "shown_owned sv c \<longleftrightarrow> (\<exists>s s' stdout r. run_command sv [sv_engine sv, ''inspect'', c] 5 s = (Inr (0, stdout), s') \<and>
     inspected_record (sv_loads sv) stdout = Inr r \<and> owned_record sv r)"

lemma snapshot_owned:
  assumes "snapshot h sv s = (Inr c, s')" and "cs_container_id c \<noteq> []"
  shows "shown_owned sv (cs_container_id c)"
proof -
  have id: "lb_container s = Some (cs_container_id c)" using snapshot_inv(1)[OF assms(1)] .
  from assms(1) obtain s1 s2 r where "inspect_raw h sv s1 = (Inr r, s2)" and s1: "lb_container s1 = lb_container s"
    by (auto simp: snapshot_def bindS_Inr_iff filesL_def)
  then obtain stdout s3 f u where "run_command sv [sv_engine sv, ''inspect'', container_identity sv s1] 5 s1 = (Inr (0, stdout), s3)"
    "inspected_record (sv_loads sv) stdout = Inr r" "check_inspection h sv r f = Inr u"
    by (auto simp: inspect_raw_def bindS_Inr_iff identityL_def filesL_def lab_error_def split: if_splits prod.splits)
  moreover have "container_identity sv s1 = cs_container_id c" using id s1 assms(2) by (simp add: container_identity_def)
  ultimately show ?thesis using checked_owned unfolding shown_owned_def by metis
qed

lemma monotonic_inv:
  assumes "monotonic sv s = (r, s')"
  shows "\<exists>t. r = Inr t" "lb_container s' = lb_container s"
  using assms by (auto simp: monotonic_def read_clock_def split: prod.splits)

text \<open>The stages of a restart that returns.\<close>

lemma restart_inv:
  assumes "restart_and_wait h sv s = (Inr ob, s')"
  shows "\<exists>before current s1 s2 s3 s4 t out. snapshot h sv s = (Inr before, s1) \<and> cs_health_status before = ''unhealthy'' \<and>
    monotonic sv s1 = (Inr t, s2) \<and>
    run_command sv [sv_engine sv, ''restart'', ''--time'', ''2'', cs_container_id before] 0 s2 = (Inr (0, out), s3) \<and>
    wait_for_health h sv ''healthy'' (sv_health_timeout sv) s3 = (Inr (current, rs_attempts ob), s4) \<and>
    rs_health_before ob = ''unhealthy'' \<and> lb_container s' = lb_container s \<and>
    (cs_boot_count before < cs_boot_count current \<longrightarrow> rs_health_after ob = ''healthy'' \<and> rs_boot_count ob = cs_boot_count current)"
proof -
  from assms obtain before s1 where b: "snapshot h sv s = (Inr before, s1)" "cs_health_status before = ''unhealthy''"
    by (auto simp: restart_and_wait_def bindS_Inr_iff lab_error_def split: if_splits)
  with assms obtain t s2 out s3 current k s4 t' s5 settled s6 now where
    m: "monotonic sv s1 = (Inr t, s2)" and
    r: "run_command sv [sv_engine sv, ''restart'', ''--time'', ''2'', cs_container_id before] 0 s2 = (Inr (0, out), s3)" and
    w: "wait_for_health h sv ''healthy'' (sv_health_timeout sv) s3 = (Inr (current, k), s4)" and
    m': "monotonic sv s4 = (Inr t', s5)" and
    e: "settle_loop h sv (cs_boot_count before) (to_double (t' + 1)) current s5 = (Inr settled, s6)" and
    n: "monotonic sv s6 = (Inr now, s')" and
    ob: "ob = \<lparr>rs_health_before = ''unhealthy'', rs_health_after = cs_health_status settled,
             rs_boot_count = cs_boot_count settled, rs_attempts = k,
             rs_latency_ms = truncate_rat (to_double (to_double (now - t) * 1000))\<rparr>"
    by (auto simp: restart_and_wait_def restart_from_def bindS_Inr_iff lab_error_def split: if_splits)
  note c = snapshot_inv(1,2)[OF b(1)] monotonic_inv(2)[OF m] monotonic_inv(2)[OF m'] monotonic_inv(2)[OF n]
  have c3: "lb_container s3 = lb_container s2" using timeless_run[of sv] r by (metis keeps_def snd_conv timeless_def)
  from wait_for_health_inv[OF w] have c4: "lb_container s4 = lb_container s3" "lb_container s3 = Some (cs_container_id current)"
    "cs_health_status current = ''healthy''" by blast+
  with c have "lb_container s5 = Some (cs_container_id current)" by simp
  from settle_loop_inv[OF e this] have c6: "lb_container s6 = lb_container s5"
    and same: "cs_boot_count before < cs_boot_count current \<longrightarrow> settled = current" by blast+
  have "lb_container s' = lb_container s" using c(2,3,4,5) c3 c4(1) c6 by metis
  moreover have "cs_boot_count before < cs_boot_count current \<longrightarrow>
      rs_health_after ob = ''healthy'' \<and> rs_boot_count ob = cs_boot_count current"
    using same c4(3) unfolding ob by simp
  moreover have "rs_attempts ob = k" "rs_health_before ob = ''unhealthy''" unfolding ob by simp_all
  ultimately show ?thesis using b m r w by metis
qed

section \<open>A sample engine\<close>

text \<open>Its world is the list of exit codes of the health probes to come; the boot count becomes visible while waiting.\<close>

definition sample_record :: json where
  "sample_record = JObj
     [(''Config'', JObj [(''Labels'', JObj [(LAB_LABEL, JStr ''lab'')])]),
      (''Mounts'', JList [JObj [(''Type'', JStr ''bind''), (''Source'', JStr ''/s''),
         (''Destination'', JStr ''/incident-sandbox''), (''RW'', JBool True)]]),
      (''HostConfig'', JObj [(''Privileged'', JBool False)]), (''State'', JObj [(''Status'', JStr ''running'')])]"

definition booted :: "files \<Rightarrow> files" where
  "booted f = put_entry [''s'', ''services'', ''boot-count''] (Regular ''2'') f"

definition sample_engine :: "string list \<Rightarrow> rat \<Rightarrow> files \<times> int list \<Rightarrow> run_outcome \<times> files \<times> int list" where
  "sample_engine command timeout = (\<lambda>(f, codes).
     if command ! 1 = ''exec'' then (case codes of [] \<Rightarrow> (Run_timed_out, f, []) | c # cs \<Rightarrow> (Completed c [] [], f, cs))
     else (Completed 0 ''doc'' [], f, codes))"

definition sample_service :: "int list container_service" where
  "sample_service = \<lparr>sv_sandbox = sample_sandbox, sv_image = [], sv_engine = ''podman'', sv_timeout = 30,
     sv_health_timeout = 1, sv_lab_id = ''lab'', sv_gid = 7, sv_run = sample_engine, sv_delay = (\<lambda>w. (0, w)),
     sv_sleep = (\<lambda>n (f, w). (booted f, w)),
     sv_loads = (\<lambda>s. if s = ''doc'' then Some (JList [sample_record]) else None), sv_repr = (\<lambda>j. [])\<rparr>"

definition sample_lab :: "files \<Rightarrow> nat \<Rightarrow> int list \<Rightarrow> int list lab" where
  "sample_lab f n codes = \<lparr>lb_container = Some ''0123456789ab'', lb_temporary = True, lb_files = f, lb_time = n, lb_world = codes\<rparr>"

lemma sample_service_fields [simp]:
  "sv_sandbox sample_service = sample_sandbox" "sv_engine sample_service = ''podman''" "sv_health_timeout sample_service = 1"
  "sv_run sample_service = sample_engine" "sv_delay sample_service w = (0, w)" "sv_sleep sample_service n (f, w) = (booted f, w)"
  "sv_loads sample_service ''doc'' = Some (JList [sample_record])" "sv_lab_id sample_service = ''lab''"
  by (simp_all add: sample_service_def)

lemma sample_run:
  "run_command sample_service [''podman'', ''inspect'', i] t (sample_lab f n codes) = (Inr (0, ''doc''), sample_lab f n codes)"
  "run_command sample_service [''podman'', ''restart'', ''--time'', ''2'', i] t (sample_lab f n codes) = (Inr (0, ''doc''), sample_lab f n codes)"
  "run_command sample_service [''podman'', ''exec'', i, a, b, p] t (sample_lab f n (c # codes)) = (Inr (c, []), sample_lab f n codes)"
  by (simp_all add: run_command_def sample_engine_def sample_lab_def)

lemma sample_inspection:
  assumes "map_of f [''s''] = Some (Directory 7 448)"
  shows "check_inspection sample_host sample_service sample_record f = Inr ()"
proof -
  have abs: "absolute sample_host ''/s'' = [''s'']" by (simp add: absolute_def is_absolute_def path_parts_def)
  have "resolve_text sample_host ''/s'' f = Inr [''s'']" using assms by (simp add: resolve_text_def abs)
  moreover have "sb_root sample_sandbox = [''s'']" by (simp add: sample_sandbox_def)
  ultimately show ?thesis
    by (simp add: check_inspection_def sample_record_def json_member_def get_in_def truthy_def json_items_def check_mount_def
        str_of_json_def)
qed

lemma sample_snapshot:
  assumes "map_of f [''s''] = Some (Directory 7 448)" and "validate sample_host sample_sandbox f = Inr ()"
    and "resolve_child sample_host sample_sandbox ''services/boot-count'' f = Inr p"
  shows "snapshot sample_host sample_service (sample_lab f n (c # codes)) =
    (Inr \<lparr>cs_container_id = ''0123456789ab'', cs_runtime_status = ''running'', cs_health_status = health_of c,
       cs_boot_count = read_boot_count p f\<rparr>, sample_lab f n codes)"
proof -
  have l: "lb_files (sample_lab f n cs) = f" "lb_container (sample_lab f n cs) = Some ''0123456789ab''"
    "(sample_lab f n cs)\<lparr>lb_files := f\<rparr> = sample_lab f n cs" for cs
    by (simp_all add: sample_lab_def)
  have fl: "filesL (readS g) (sample_lab f n cs) = (g f, sample_lab f n cs)" for g :: "files \<Rightarrow> exn + 'b" and cs
    by (simp add: filesL_def l)
  have i: "inspect_raw sample_host sample_service (sample_lab f n cs) = (Inr sample_record, sample_lab f n cs)" for cs
    by (simp add: inspect_raw_def bindS_def identityL_def container_identity_def l sample_run inspected_record_def first_item_def fl
          sample_inspection[OF assms(1)])
  have p: "probe_health sample_service (sample_lab f n (c # codes)) = (Inr (health_of c), sample_lab f n codes)"
    by (simp add: probe_health_def bindS_def catchS_def identityL_def container_identity_def l sample_run)
  have st: "json_member ''State'' JNull sample_record = Inr (JObj [(''Status'', JStr ''running'')])"
    by (simp add: sample_record_def json_member_def)
  have status: "json_member ''Status'' (JStr ''unknown'') (JObj [(''Status'', JStr ''running'')]) = Inr (JStr ''running'')"
    "truthy (JObj [(''Status'', JStr ''running'')])"
    by (simp_all add: json_member_def truthy_def)
  show ?thesis
    by (simp add: snapshot_def bindS_def fl assms(2,3) l i st p status str_of_json_def)
qed

lemma sample_boot_files:
  "map_of sample_files [''s''] = Some (Directory 7 448)" "map_of (booted sample_files) [''s''] = Some (Directory 7 448)"
  "validate sample_host sample_sandbox (booted sample_files) = Inr ()"
  "resolve_child sample_host sample_sandbox ''services/boot-count'' sample_files = Inr [''s'', ''services'', ''boot-count'']"
  "resolve_child sample_host sample_sandbox ''services/boot-count'' (booted sample_files) = Inr [''s'', ''services'', ''boot-count'']"
  "read_boot_count [''s'', ''services'', ''boot-count''] sample_files = 0"
  "read_boot_count [''s'', ''services'', ''boot-count''] (booted sample_files) = 2"
proof -
  show v: "validate sample_host sample_sandbox (booted sample_files) = Inr ()"
    by (simp add: validate_def Let_def unsafe_root_def owner_of_def marker_ok_def sample_file_simps booted_def)
  show "resolve_child sample_host sample_sandbox ''services/boot-count'' sample_files = Inr [''s'', ''services'', ''boot-count'']"
    by (simp add: resolve_child_def sample_valid) (simp add: sample_file_simps)
  show "resolve_child sample_host sample_sandbox ''services/boot-count'' (booted sample_files) = Inr [''s'', ''services'', ''boot-count'']"
    by (simp add: resolve_child_def v) (simp add: sample_file_simps booted_def)
  show "read_boot_count [''s'', ''services'', ''boot-count''] (booted sample_files) = 2"
    by (simp add: read_boot_count_def sample_file_simps booted_def int_of_text_def is_digit_def char_in_def code_def strip_def
        is_space_def read_nat_def)
qed (simp_all add: sample_file_simps booted_def read_boot_count_def)

text \<open>
  The first snapshot after the restart finds the service healthy but the boot count old; the second, taken
  for the boot count, finds the probe failing again.
\<close>

lemma sample_restart:
  "\<exists>x. service_restart_execute sample_host sample_service (Executor.sample_option ''restart_unhealthy_container_service'')
       (sample_lab sample_files 0 [2, 0, 1]) = (Inr x, sample_lab (booted sample_files) 50000000 []) \<and>
     xr_success x \<and> xr_health_after x = Some ''starting'' \<and> xr_boot_count x = 2"
proof -
  note files = sample_boot_files sample_valid(1)
  have snap: "snapshot sample_host sample_service (sample_lab sample_files n (c # codes)) =
      (Inr \<lparr>cs_container_id = ''0123456789ab'', cs_runtime_status = ''running'', cs_health_status = health_of c, cs_boot_count = 0\<rparr>,
       sample_lab sample_files n codes)"
    "snapshot sample_host sample_service (sample_lab (booted sample_files) n (c # codes)) =
      (Inr \<lparr>cs_container_id = ''0123456789ab'', cs_runtime_status = ''running'', cs_health_status = health_of c, cs_boot_count = 2\<rparr>,
       sample_lab (booted sample_files) n codes)" for n c codes
    using sample_snapshot[OF files(1,8,4), of n c codes] sample_snapshot[OF files(2,3,5), of n c codes] files(6,7) by simp_all
  have clock: "read_clock sample_service (sample_lab f n codes) = (clock_seconds n, sample_lab f n codes)" for f n codes
    by (simp add: read_clock_def sample_lab_def)
  have zero: "clock_seconds 0 = 0" by (simp add: clock_seconds_def)
  have mono: "monotonic sample_service (sample_lab f n codes) = (Inr (clock_seconds n), sample_lab f n codes)" for f n codes
    by (simp add: monotonic_def clock)
  have nap: "sleep sample_service 50000000 (sample_lab sample_files 0 codes) = sample_lab (booted sample_files) 50000000 codes" for codes
    by (simp add: sleep_def sample_lab_def)
  have wait: "wait_for_health sample_host sample_service ''healthy'' 1 (sample_lab sample_files 0 (0 # codes)) =
      (Inr (\<lparr>cs_container_id = ''0123456789ab'', cs_runtime_status = ''running'', cs_health_status = ''healthy'', cs_boot_count = 0\<rparr>, 1),
       sample_lab sample_files 0 codes)" for codes
    by (simp add: wait_for_health_def bindS_def mono zero) (simp add: wait_loop.simps clock zero snap health_of_def)
  have settle: "settle_loop sample_host sample_service 0 1
      \<lparr>cs_container_id = ''0123456789ab'', cs_runtime_status = ''running'', cs_health_status = ''healthy'', cs_boot_count = 0\<rparr>
      (sample_lab sample_files 0 [1]) =
      (Inr \<lparr>cs_container_id = ''0123456789ab'', cs_runtime_status = ''running'', cs_health_status = ''starting'', cs_boot_count = 2\<rparr>,
       sample_lab (booted sample_files) 50000000 [])"
    apply (subst settle_loop.simps)
    apply (simp add: clock zero nap snap health_of_def)
    apply (subst settle_loop.simps)
    apply (simp add: clock)
    done
  show ?thesis
    by (simp add: service_restart_execute_def Executor.sample_option_def catchS_def bindS_def restart_and_wait_def
        restart_from_def snap health_of_def mono zero
        sample_run wait settle execution_succeeded_def)
qed

section \<open>Properties\<close>

text \<open>C28: A restart that is reported as a success was one of the approved kind on the lab's own container: the
  engine had shown the container with the label of this lab, it was probed unhealthy, the engine restarted this
  very container, and it was then seen healthy in one of the reported number of attempts; the lab holds the same
  container afterwards. The reported final health is \<open>healthy\<close> when the boot count had grown by then.\<close>

theorem restart_verified:
  assumes "service_restart_execute h sv opt s = (Inr x, s')" and "xr_success x" and "lb_container s \<noteq> Some []"
  shows "ro_action_id opt = ''restart_unhealthy_container_service'' \<and>
    (\<exists>c before current s1 s2 s3 s4 t out k.
       lb_container s = Some c \<and> lb_container s' = Some c \<and> shown_owned sv c \<and>
       snapshot h sv s = (Inr before, s1) \<and> cs_health_status before = ''unhealthy'' \<and> monotonic sv s1 = (Inr t, s2) \<and>
       run_command sv [sv_engine sv, ''restart'', ''--time'', ''2'', c] 0 s2 = (Inr (0, out), s3) \<and>
       wait_for_health h sv ''healthy'' (sv_health_timeout sv) s3 = (Inr (current, k), s4) \<and>
       cs_health_status current = ''healthy'' \<and> cs_container_id current = c \<and> xr_attempts x = int k \<and>
       xr_health_before x = Some ''unhealthy'' \<and>
       (cs_boot_count before < cs_boot_count current \<longrightarrow> xr_health_after x = Some ''healthy''))"
proof -
  have act: "ro_action_id opt = ''restart_unhealthy_container_service''"
    using assms(1,2) by (auto simp: service_restart_execute_def unauthorized_def execution_failed_def split: if_splits)
  with assms(1,2) obtain ob where ob: "restart_and_wait h sv s = (Inr ob, s')"
    and x: "xr_health_before x = Some (rs_health_before ob)" "xr_health_after x = Some (rs_health_after ob)"
      "xr_attempts x = int (rs_attempts ob)"
    by (auto simp: service_restart_execute_def catchS_def bindS_def execution_succeeded_def execution_failed_def
        split: prod.splits sum.splits exn.splits)
  from restart_inv[OF ob] obtain before current s1 s2 s3 s4 t out where
    b: "snapshot h sv s = (Inr before, s1)" "cs_health_status before = ''unhealthy''" and
    m: "monotonic sv s1 = (Inr t, s2)" and
    r: "run_command sv [sv_engine sv, ''restart'', ''--time'', ''2'', cs_container_id before] 0 s2 = (Inr (0, out), s3)" and
    w: "wait_for_health h sv ''healthy'' (sv_health_timeout sv) s3 = (Inr (current, rs_attempts ob), s4)" and
    e: "rs_health_before ob = ''unhealthy''" "lb_container s' = lb_container s"
      "cs_boot_count before < cs_boot_count current \<longrightarrow> rs_health_after ob = ''healthy'' \<and> rs_boot_count ob = cs_boot_count current"
    by blast
  note c = snapshot_inv(1,2)[OF b(1)] monotonic_inv(2)[OF m]
  have c3: "lb_container s3 = lb_container s2" using timeless_run[of sv] r by (metis keeps_def snd_conv timeless_def)
  from wait_for_health_inv[OF w] have wc: "cs_health_status current = ''healthy''" "lb_container s3 = Some (cs_container_id current)" by blast+
  then have "cs_container_id current = cs_container_id before" using c c3 by simp
  moreover have "shown_owned sv (cs_container_id before)" using snapshot_owned[OF b(1)] assms(3) c(1) by auto
  ultimately show ?thesis using act b m r w wc(1) e x c(1) by metis
qed

theorem restart_verified_witness:
  "shown_owned sample_service ''0123456789ab''"
proof -
  from sample_restart obtain x where "service_restart_execute sample_host sample_service
      (Executor.sample_option ''restart_unhealthy_container_service'') (sample_lab sample_files 0 [2, 0, 1]) =
      (Inr x, sample_lab (booted sample_files) 50000000 [])" "xr_success x" by blast
  from restart_verified[OF this] show ?thesis by (auto simp: sample_lab_def)
qed

text \<open>Waiting for a health state always ends; when it succeeds the last snapshot shows the expected health of
  the lab's own container, and its attempt began before the deadline, with a pause of 250 ms after each of the
  attempts before it: the timeout bounds the number of attempts.\<close>

theorem wait_for_health_bounded:
  assumes "wait_for_health h sv expected timeout s = (Inr (c, k), s')"
  shows "cs_health_status c = expected \<and> 0 < k \<and> lb_container s = Some (cs_container_id c) \<and> lb_container s' = lb_container s \<and>
    (\<exists>n0 n. lb_time s \<le> n0 \<and> n0 + (k - 1) * 250000000 \<le> n \<and> n \<le> lb_time s' \<and>
       clock_seconds n < to_double (clock_seconds n0 + timeout))"
  using wait_for_health_inv[OF assms] by blast

theorem wait_for_health_bounded_witness:
  "\<exists>n. clock_seconds n < to_double (clock_seconds 0 + 1) \<and> n = 0"
proof -
  note files = sample_boot_files sample_valid(1)
  have clock: "read_clock sample_service (sample_lab f n codes) = (clock_seconds n, sample_lab f n codes)" for f n codes
    by (simp add: read_clock_def sample_lab_def)
  have zero: "clock_seconds 0 = 0" by (simp add: clock_seconds_def)
  have "wait_for_health sample_host sample_service ''healthy'' 1 (sample_lab sample_files 0 [0]) =
      (Inr (\<lparr>cs_container_id = ''0123456789ab'', cs_runtime_status = ''running'', cs_health_status = ''healthy'', cs_boot_count = 0\<rparr>, 1),
       sample_lab sample_files 0 [])"
    by (simp add: wait_for_health_def bindS_def monotonic_def clock zero)
      (simp add: wait_loop.simps clock zero sample_snapshot[OF files(1,8,4)] files(6) health_of_def)
  from wait_for_health_bounded[OF this] show ?thesis by (auto simp: sample_lab_def)
qed

section \<open>Confinement to the own container\<close>

definition own_commands :: "'w container_service \<Rightarrow> string \<Rightarrow> string list list" where
  "own_commands sv c =
     [[sv_engine sv, ''inspect'', c], [sv_engine sv, ''exec'', c, ''python'', ''-c'', HEALTH_PROBE],
      [sv_engine sv, ''restart'', ''--time'', ''2'', c]]"

text \<open>A predicate on files and world that the commands on one container and the passing of time keep.\<close>

definition undisturbed :: "'w container_service \<Rightarrow> string \<Rightarrow> (files \<Rightarrow> 'w \<Rightarrow> bool) \<Rightarrow> bool" where
  "undisturbed sv c P \<longleftrightarrow>
     (\<forall>command t f w r f' w'. command \<in> set (own_commands sv c) \<and> P f w \<and> sv_run sv command t (f, w) = (r, f', w') \<longrightarrow> P f' w') \<and>
     (\<forall>n f w f' w'. P f w \<and> sv_sleep sv n (f, w) = (f', w') \<longrightarrow> P f' w') \<and>
     (\<forall>f w. P f w \<longrightarrow> P f (snd (sv_delay sv w)))"

definition holds_on :: "string \<Rightarrow> (files \<Rightarrow> 'w \<Rightarrow> bool) \<Rightarrow> 'w lab \<Rightarrow> 'w lab \<Rightarrow> bool" where
  "holds_on c P s t \<longleftrightarrow> (lb_container s = Some c \<and> P (lb_files s) (lb_world s) \<longrightarrow>
     lb_container t = Some c \<and> P (lb_files t) (lb_world t))"

lemma holds_on_preorder: "reflp (holds_on c P)" "transp (holds_on c P)"
  by (auto simp: holds_on_def reflp_def transp_def)

lemmas holds_moves = keeps_pure[OF holds_on_preorder(1)] keeps_bind[OF holds_on_preorder(2)] keeps_catch[OF holds_on_preorder(2)]

lemma undisturbedD:
  assumes "undisturbed sv c P"
  shows "command \<in> set (own_commands sv c) \<Longrightarrow> P f w \<Longrightarrow> sv_run sv command t (f, w) = (r, f', w') \<Longrightarrow> P f' w'"
    "P f w \<Longrightarrow> sv_sleep sv n (f, w) = (f', w') \<Longrightarrow> P f' w'"
    "P f w \<Longrightarrow> P f (snd (sv_delay sv w))"
  using assms unfolding undisturbed_def by blast+

lemma holds_run:
  assumes "undisturbed sv c P" and "command \<in> set (own_commands sv c)"
  shows "keeps (holds_on c P) (run_command sv command t)"
  unfolding keeps_def
proof
  fix s :: "'a lab"
  let ?t = "if t = 0 then sv_timeout sv else t"
  obtain r f w where "sv_run sv command ?t (lb_files s, lb_world s) = (r, f, w)" by (metis prod_cases3)
  then show "holds_on c P s (snd (run_command sv command t s))"
    using undisturbedD(1)[OF assms, of "lb_files s" "lb_world s" ?t r f w] by (simp add: run_command_def holds_on_def)
qed

lemma holds_clock:
  assumes "undisturbed sv c P"
  shows "keeps (holds_on c P) (monotonic sv)"
  unfolding keeps_def
proof
  fix s :: "'a lab"
  obtain d w where "sv_delay sv (lb_world s) = (d, w)" by (cases "sv_delay sv (lb_world s)")
  then show "holds_on c P s (snd (monotonic sv s))"
    using undisturbedD(3)[OF assms, of "lb_files s" "lb_world s"] by (simp add: monotonic_def read_clock_def holds_on_def)
qed

lemma holds_sleep:
  fixes s :: "'a lab"
  assumes "undisturbed sv c P"
  shows "holds_on c P s (sleep sv n s)"
proof -
  obtain f w where "sv_sleep sv n (lb_files s, lb_world s) = (f, w)" by (cases "sv_sleep sv n (lb_files s, lb_world s)")
  then show ?thesis using undisturbedD(2)[OF assms, of "lb_files s" "lb_world s" n f w] by (simp add: sleep_def holds_on_def)
qed

lemma holds_read_files: "keeps (holds_on c P) (filesL (readS g))"
  by (auto simp: keeps_def holds_on_def filesL_def)

lemma holds_bind_known:
  assumes "keeps (holds_on c P) m" and "\<And>x s t. lb_container s = Some c \<Longrightarrow> m s = (Inr x, t) \<Longrightarrow> keeps (holds_on c P) (f x)"
  shows "keeps (holds_on c P) (bindS m f)"
  unfolding keeps_def
proof
  fix s
  obtain r t where m: "m s = (r, t)" by (cases "m s")
  have st: "holds_on c P s t" using assms(1) m by (metis keeps_def snd_conv)
  show "holds_on c P s (snd (bindS m f s))"
  proof (cases r)
    case (Inr x)
    show ?thesis
    proof (cases "lb_container s = Some c")
      case True
      from assms(2)[OF this m[unfolded Inr]] have "holds_on c P t (snd (f x t))" by (simp add: keeps_def)
      from transpD[OF holds_on_preorder(2) st this] show ?thesis using m Inr by (simp add: bindS_def)
    qed (simp add: holds_on_def)
  qed (use st m in \<open>simp add: bindS_def\<close>)
qed

lemma holds_identity:
  assumes "c \<noteq> []" and "keeps (holds_on c P) (f c)"
  shows "keeps (holds_on c P) (bindS (identityL sv) f)"
  by (rule holds_bind_known)
    (use assms in \<open>auto simp: identityL_def container_identity_def intro: keeps_pure holds_on_preorder\<close>)

lemma holds_operations:
  assumes "undisturbed sv c P" and "c \<noteq> []"
  shows "keeps (holds_on c P) (inspect_raw h sv)" "keeps (holds_on c P) (probe_health sv)" "keeps (holds_on c P) (snapshot h sv)"
proof -
  have own: "[sv_engine sv, ''inspect'', c] \<in> set (own_commands sv c)"
    "[sv_engine sv, ''exec'', c, ''python'', ''-c'', HEALTH_PROBE] \<in> set (own_commands sv c)"
    by (simp_all add: own_commands_def)
  show i: "keeps (holds_on c P) (inspect_raw h sv)"
    unfolding inspect_raw_def lab_error_def
    by (rule holds_identity[OF assms(2)]) (auto intro!: holds_moves holds_run[OF assms(1)] own holds_read_files)
  show p: "keeps (holds_on c P) (probe_health sv)"
    unfolding probe_health_def
    by (intro holds_moves holds_identity[OF assms(2)]) (auto intro!: holds_moves holds_run[OF assms(1)] own)
  show "keeps (holds_on c P) (snapshot h sv)"
    unfolding snapshot_def by (intro holds_moves holds_read_files i p)
qed

lemma holds_wait:
  assumes "undisturbed sv c P" and "c \<noteq> []"
  shows "keeps (holds_on c P) (wait_loop h sv expected deadline m)"
  unfolding keeps_def
proof
  fix s
  show "holds_on c P s (snd (wait_loop h sv expected deadline m s))"
    using assms
  proof (induction h sv expected deadline m s rule: wait_loop.induct)
    case (1 h sv expected deadline m s)
    obtain t s1 where clock: "read_clock sv s = (t, s1)" by (cases "read_clock sv s")
    obtain r s2 where snap: "snapshot h sv s1 = (r, s2)" by (cases "snapshot h sv s1")
    have a: "holds_on c P s s1" using holds_clock[OF 1(2)] clock by (auto simp: keeps_def monotonic_def dest: spec[of _ s])
    have b: "holds_on c P s1 s2" using holds_operations(3)[OF 1(2,3)] snap by (metis keeps_def snd_conv)
    note ab = transpD[OF holds_on_preorder(2) a b]
    note abn = transpD[OF holds_on_preorder(2) ab holds_sleep[OF 1(2), of _ 250000000]]
    show ?case
    proof (cases "t < deadline \<and> (\<exists>d. r = Inr d \<and> cs_health_status d \<noteq> expected)")
      case True
      then obtain d where d: "r = Inr d" "cs_health_status d \<noteq> expected" by blast
      from True have "holds_on c P (sleep sv 250000000 s2) (snd (wait_loop h sv expected deadline (m + 1) (sleep sv 250000000 s2)))"
        using 1(1)[OF clock[symmetric] _ snap[symmetric] d 1(2,3)] by blast
      from transpD[OF holds_on_preorder(2) abn this] show ?thesis
        using True clock snap d by (subst wait_loop.simps) simp
    next
      case False
      then show ?thesis using a ab clock snap
        by (subst wait_loop.simps) (auto simp: lab_error_def split: sum.splits)
    qed
  qed
qed

lemma holds_settle:
  assumes "undisturbed sv c P" and "c \<noteq> []"
  shows "keeps (holds_on c P) (settle_loop h sv boot_before deadline current)"
  unfolding keeps_def
proof
  fix s
  show "holds_on c P s (snd (settle_loop h sv boot_before deadline current s))"
    using assms
  proof (induction h sv boot_before deadline current s rule: settle_loop.induct)
    case (1 h sv boot_before deadline current s)
    obtain t s1 where clock: "read_clock sv s = (t, s1)" by (cases "read_clock sv s")
    let ?s = "sleep sv 50000000 s1"
    obtain r s2 where snap: "snapshot h sv ?s = (r, s2)" by (cases "snapshot h sv ?s")
    have a: "holds_on c P s s1" using holds_clock[OF 1(2)] clock by (auto simp: keeps_def monotonic_def dest: spec[of _ s])
    have b: "holds_on c P ?s s2" using holds_operations(3)[OF 1(2,3)] snap by (metis keeps_def snd_conv)
    note ab = transpD[OF holds_on_preorder(2) transpD[OF holds_on_preorder(2) a holds_sleep[OF 1(2)]] b]
    show ?case
    proof (cases "(t < deadline \<and> cs_boot_count current \<le> boot_before) \<and> (\<exists>d. r = Inr d)")
      case True
      then obtain d where d: "r = Inr d" by blast
      from True have "holds_on c P s2 (snd (settle_loop h sv boot_before deadline d s2))"
        using 1(1)[OF clock[symmetric] _ snap[symmetric] d 1(2,3)] by blast
      from transpD[OF holds_on_preorder(2) ab this] show ?thesis
        using True clock snap d by (subst settle_loop.simps) simp
    next
      case False
      then show ?thesis using a ab clock snap
        by (subst settle_loop.simps) (auto split: sum.splits)
    qed
  qed
qed

lemma holds_restart:
  assumes "undisturbed sv c P" and "c \<noteq> []"
  shows "keeps (holds_on c P) (service_restart_execute h sv opt)"
proof -
  note moves = holds_moves holds_clock[OF assms(1)] holds_operations[OF assms] holds_wait[OF assms] holds_settle[OF assms]
  have w: "keeps (holds_on c P) (wait_for_health h sv expected timeout)" for expected timeout
    unfolding wait_for_health_def by (intro moves)
  have own: "[sv_engine sv, ''restart'', ''--time'', ''2'', c] \<in> set (own_commands sv c)" by (simp add: own_commands_def)
  have r: "keeps (holds_on c P) (restart_and_wait h sv)"
    unfolding restart_and_wait_def
  proof (rule holds_bind_known)
    fix before s t assume "lb_container s = Some c" "snapshot h sv s = (Inr before, t)"
    then have c: "c = cs_container_id before" using snapshot_inv(1) by force
    note moves = moves[unfolded c] w[unfolded c] holds_run[OF assms(1)[unfolded c]] own[unfolded c]
    show "keeps (holds_on c P) (if cs_health_status before \<noteq> ''unhealthy'' then lab_error ''target_not_unhealthy''
        else restart_from h sv before)"
      unfolding restart_from_def lab_error_def c by (auto intro!: moves)
  qed (rule moves)
  show ?thesis
    unfolding service_restart_execute_def by (auto intro!: moves r split: exn.split)
qed

text \<open>Carrying out any option, the restart adapter disturbs nothing but its own container: whatever holds of the
  files and of the rest of the world, and is kept by waiting and by the engine's inspect, probe and restart of the
  lab's container, holds afterwards, on every outcome; and the lab still holds the same container.\<close>

theorem restart_confined:
  assumes "lb_container s = Some c" and "c \<noteq> []" and "undisturbed sv c P" and "P (lb_files s) (lb_world s)"
    and "service_restart_execute h sv opt s = (res, s')"
  shows "lb_container s' = Some c \<and> P (lb_files s') (lb_world s')"
proof -
  have "holds_on c P s s'" using holds_restart[OF assms(3,2)] assms(5) by (metis keeps_def snd_conv)
  with assms(1,4) show ?thesis by (simp add: holds_on_def)
qed

text \<open>The rest of the sandbox is out of reach of the sample engine.\<close>

theorem restart_confined_witness:
  "map_of (lb_files (snd (service_restart_execute sample_host sample_service (Executor.sample_option ''restart_unhealthy_container_service'')
     (sample_lab sample_files 0 [2, 0, 1])))) [''etc''] = Some (Regular ''z'')"
proof -
  let ?P = "\<lambda>f (w :: int list). map_of f [''etc''] = Some (Regular ''z'')"
  have u: "undisturbed sample_service ''0123456789ab'' ?P"
    by (auto simp: undisturbed_def sample_engine_def booted_def split: if_splits list.splits)
  obtain res s' where run: "service_restart_execute sample_host sample_service (Executor.sample_option ''restart_unhealthy_container_service'')
     (sample_lab sample_files 0 [2, 0, 1]) = (res, s')" by fastforce
  from restart_confined[OF _ _ u _ run] run show ?thesis by (simp add: sample_lab_def sample_files_def)
qed

section \<open>Interfaces\<close>

lemma service_restart_reasoned: "service_restart_execute h sv opt s = (Inr r, s') \<Longrightarrow> reasoned r"
  by (auto simp: service_restart_execute_def catchS_def bindS_def reasoned_def execution_succeeded_def execution_failed_def
      unauthorized_def split: if_splits prod.splits sum.splits exn.splits)

interpretation service_restart: remediation_executor "service_restart_execute h sv" "{''restart_unhealthy_container_service''}"
  for h :: host and sv :: "'w container_service"
proof unfold_locales
  show "\<exists>r. service_restart_execute h sv opt w = (Inr r, w) \<and> \<not> xr_success r"
    if "ro_action_id opt \<notin> {''restart_unhealthy_container_service''}" for opt w
    using that by (simp add: service_restart_execute_def unauthorized_def execution_failed_def)
qed (rule service_restart_reasoned)

interpretation lab_telemetry: telemetry_collector "container_collect (snapshot h sv)"
  for h :: host and sv :: "'w container_service"
  by (rule container.telemetry_collector_axioms)

section \<open>Start and removal\<close>

lemma restore_keeps_container: "restore_after_close h sv s = (r, s') \<Longrightarrow> lb_container s' = lb_container s"
  by (auto simp: restore_after_close_def filesL_def split: prod.splits)

lemma close_sandbox_container: "close_sandbox h sv s = (r, s') \<Longrightarrow> lb_container s' = lb_container s"
  by (auto simp: close_sandbox_def filesL_def bindS_def split: if_splits prod.splits sum.splits)

text \<open>A removal that returns leaves no container behind, and a sandbox that is gone or private again.\<close>

lemma close_lab_clean:
  assumes "close_lab h sv s = (Inr u, s')"
  shows "lb_container s' = None \<and> (path_exists (lb_files s') (sb_root (sv_sandbox sv)) \<longrightarrow>
    map_of (lb_files s') (sb_root (sv_sandbox sv)) = Some (Directory (h_euid h) 448))"
proof -
  obtain s1 where rm: "remove_container h sv s = (Inr u, s1)" and re: "restore_after_close h sv s1 = (Inr (), s')"
    using assms by (auto simp: close_lab_def split: prod.splits sum.splits)
  from rm obtain t where "close_sandbox h sv t = (Inr u, s1)" "lb_container t = None"
    by (auto simp: remove_container_def bindS_Inr_iff lab_error_def split: if_splits)
  then have none: "lb_container s' = None" using close_sandbox_container restore_keeps_container[OF re] by metis
  show ?thesis
  proof (cases "path_exists (lb_files s1) (sb_root (sv_sandbox sv))")
    case True
    then have "restore_owner_access h (sv_sandbox sv) [''services''] (lb_files s1) = (Inr (), lb_files s')"
      using re by (auto simp: restore_after_close_def filesL_def catchS_def lab_error_def split: prod.splits sum.splits exn.splits)
    then obtain f where "close_directory h (sb_root (sv_sandbox sv)) f = (Inr (), lb_files s')"
      "validate h (sv_sandbox sv) (lb_files s') = Inr ()"
      by (auto simp: restore_owner_access_def bindS_Inr_iff)
    with close_directory_root none show ?thesis by blast
  qed (use re none in \<open>auto simp: restore_after_close_def filesL_def\<close>)
qed

lemma close_and_raise_Inr: "close_and_raise h sv e s \<noteq> (Inr x, s')"
  by (auto simp: close_and_raise_def bindS_def split: prod.splits sum.splits)

lemma close_and_raise_Inl:
  "close_and_raise h sv x s = (Inl e, s') \<Longrightarrow> lb_container s' = None \<or> close_lab h sv s = (Inl e, s')"
  using close_lab_clean by (fastforce simp: close_and_raise_def bindS_Inl_iff)

text \<open>\<open>start\<close> returns with the unhealthy container whose identity the engine printed.\<close>

lemma start_returns:
  assumes "start h sv s = (Inr c, s')"
  shows "lb_container s = None \<and> lb_container s' = Some (cs_container_id c) \<and> container_id_ok (cs_container_id c) \<and>
    cs_health_status c = ''unhealthy'' \<and> shown_owned sv (cs_container_id c)"
proof -
  from assms have none: "lb_container s = None" by (auto simp: start_def bindS_Inr_iff split: if_splits)
  from assms obtain stdout t k s1 where ok: "container_id_ok (strip stdout)"
    and w: "wait_for_health h sv ''unhealthy'' (sv_health_timeout sv) (t\<lparr>lb_container := Some (strip stdout)\<rparr>) = (Inr (c, k), s')"
    by (auto simp: start_def bindS_Inr_iff catchS_Inr_iff close_and_raise_Inr split: if_splits)
  from wait_for_health_inv[OF w] obtain s0 where i: "cs_container_id c = strip stdout" "cs_health_status c = ''unhealthy''"
    "lb_container s' = Some (strip stdout)" "snapshot h sv s0 = (Inr c, s')" by auto
  have "strip stdout \<noteq> []" using ok by (auto simp: container_id_ok_def)
  with i snapshot_owned[OF i(4)] none ok show ?thesis by simp
qed

text \<open>When it raises it holds no container that it did not hold before, unless the removal itself raised.\<close>

lemma start_raises:
  assumes "start h sv s = (Inl e, s')"
  shows "lb_container s' = lb_container s \<or> lb_container s' = None \<or> (\<exists>t. close_lab h sv t = (Inl e, s'))"
proof -
  have files: "filesL m s = (r, t) \<Longrightarrow> lb_container t = lb_container s" for m :: "(files, unit) action" and r t and s :: "'a lab"
    by (auto simp: filesL_def split: prod.splits)
  have run: "run_command sv command tm s = (r, t) \<Longrightarrow> lb_container t = lb_container s" for command tm r t s
    using timeless_run[of sv command tm] by (metis keeps_def snd_conv timeless_def)
  from assms show ?thesis
    by (auto simp: start_def bindS_Inl_iff catchS_Inl_iff split: if_splits dest!: files run close_and_raise_Inl)
qed

text \<open>
  Only the container that \<open>start\<close> knows by its identity is removed on failure: when the command that starts
  it times out, nothing is removed and the access of the sandbox stays open.
\<close>

lemma start_timeout_without_cleanup:
  assumes "lb_container s = None" and "prepare_start h sv (lb_files s) = (Inr (), f)"
    and "sv_run sv (start_command h sv) (sv_timeout sv) (f, lb_world s) = (Run_timed_out, f', w')"
  shows "start h sv s = (Inl (ContainerLabError ''container_command_timeout''), s\<lparr>lb_files := f', lb_world := w'\<rparr>)"
  using assms by (simp add: start_def bindS_def filesL_def run_command_def)

end
