(* ===== verification/Reflection.thy ===== *)
theory Reflection
  imports Knowledge
begin

text \<open>
  \<open>reflection_eval.py\<close>: five synthetic cases, the direct and the reflective investigation of a case, the
  critique of a diagnosis and its single revision, the six scores of a run and the summary of an
  experiment. The investigator is an agent over the case's observations; the critic and the reviser are
  functions of the diagnosis, the critique and the observations (for the live ones: of the document sent
  to the model). LangSmith, which stores the dataset and drives the runs, is outside: a row of its
  results is a record.
\<close>

section \<open>The cases\<close>

record reflection_case =
  rc_id :: string
  rc_health :: diagnostic_observation
  rc_resources :: diagnostic_observation
  rc_changes :: diagnostic_observation
  rc_logs :: diagnostic_observation
  rc_scenario :: scenario
  rc_action :: string
  rc_causal :: "string list"
  rc_distractors :: "string list"
  rc_tools :: "string list"

definition case_disk :: reflection_case where
  "case_disk =
     \<lparr>rc_id = ''disk-with-cpu-and-deploy-distractors'',
      rc_health = \<lparr>dg_id = ''health-1'', dg_category = ''health'', dg_summary = ''The bounded site health check returns HTTP 503.'',
           dg_signals = [''http_503'', ''healthcheck_failed''],
           dg_measurements = [(''status_code'', JInt 503)]\<rparr>,
      rc_resources = \<lparr>dg_id = ''resources-1'', dg_category = ''resources'', dg_summary = ''Free space is critical; CPU is elevated and memory remains normal.'',
           dg_signals = [''low_free_space'', ''elevated_cpu''],
           dg_measurements = [(''free_bytes'', JInt 4096), (''cpu_percent'', JFloat 78), (''memory_percent'', JFloat 38)]\<rparr>,
      rc_changes = \<lparr>dg_id = ''changes-1'', dg_category = ''changes'', dg_summary = ''A recent deployment completed successfully with no configuration error or rollback.'',
           dg_signals = [''deployment_completed'', ''no_deployment_error''],
           dg_measurements = [(''minutes_before_failure'', JInt 18), (''rollback_count'', JInt 0)]\<rparr>,
      rc_logs = \<lparr>dg_id = ''logs-1'', dg_category = ''logs'', dg_summary = ''Log rotation failed after writes returned no space left on device.'',
           dg_signals = [''rotation_error'', ''no_space_left''],
           dg_measurements = [(''affected_file_count'', JInt 3), (''log_growth_bytes_per_minute'', JInt 262144)]\<rparr>,
      rc_scenario = DISK_EXHAUSTION, rc_action = ''cleanup_rotated_logs'',
      rc_causal = [''health-1'', ''resources-1'', ''logs-1''], rc_distractors = [''changes-1''],
      rc_tools = [''inspect_resources'', ''inspect_recent_logs'']\<rparr>"

definition case_runaway :: reflection_case where
  "case_runaway =
     \<lparr>rc_id = ''runaway-cpu-with-disk-noise'',
      rc_health = \<lparr>dg_id = ''health-1'', dg_category = ''health'', dg_summary = ''The bounded site health check times out and returns HTTP 503.'',
           dg_signals = [''http_503'', ''healthcheck_timeout''],
           dg_measurements = [(''status_code'', JInt 503)]\<rparr>,
      rc_resources = \<lparr>dg_id = ''resources-1'', dg_category = ''resources'', dg_summary = ''CPU is saturated while memory is normal and filesystem capacity remains above the critical threshold.'',
           dg_signals = [''cpu_saturation'', ''disk_warning_only''],
           dg_measurements = [(''free_bytes'', JInt 268435456), (''cpu_percent'', JFloat 99), (''memory_percent'', JFloat 41)]\<rparr>,
      rc_changes = \<lparr>dg_id = ''changes-1'', dg_category = ''changes'', dg_summary = ''No deployment or configuration change occurred during the preceding six hours.'',
           dg_signals = [''no_recent_change''],
           dg_measurements = [(''change_count'', JInt 0)]\<rparr>,
      rc_logs = \<lparr>dg_id = ''logs-1'', dg_category = ''logs'', dg_summary = ''A bounded worker repeatedly reports a hot-loop watchdog warning without storage or allocation errors.'',
           dg_signals = [''hot_loop'', ''watchdog_warning''],
           dg_measurements = [(''affected_worker_count'', JInt 1), (''storage_error_count'', JInt 0)]\<rparr>,
      rc_scenario = RUNAWAY_CPU, rc_action = ''stop_runaway_process'',
      rc_causal = [''health-1'', ''resources-1'', ''logs-1''], rc_distractors = [''changes-1''],
      rc_tools = [''inspect_resources'', ''inspect_recent_logs'']\<rparr>"

definition case_memory :: reflection_case where
  "case_memory =
     \<lparr>rc_id = ''memory-pressure-with-successful-change'',
      rc_health = \<lparr>dg_id = ''health-1'', dg_category = ''health'', dg_summary = ''The bounded site health check returns HTTP 503 after a worker disappears.'',
           dg_signals = [''http_503'', ''worker_missing''],
           dg_measurements = [(''status_code'', JInt 503)]\<rparr>,
      rc_resources = \<lparr>dg_id = ''resources-1'', dg_category = ''resources'', dg_summary = ''Memory is critically high while CPU, filesystem capacity, and inode availability remain normal.'',
           dg_signals = [''critical_memory_pressure''],
           dg_measurements = [(''free_bytes'', JInt 536870912), (''cpu_percent'', JFloat 22), (''memory_percent'', JFloat 97)]\<rparr>,
      rc_changes = \<lparr>dg_id = ''changes-1'', dg_category = ''changes'', dg_summary = ''A configuration rollout completed successfully and its values match the previous effective limits.'',
           dg_signals = [''configuration_applied'', ''limits_unchanged''],
           dg_measurements = [(''minutes_before_failure'', JInt 25)]\<rparr>,
      rc_logs = \<lparr>dg_id = ''logs-1'', dg_category = ''logs'', dg_summary = ''The bounded kernel-event view records an OOM kill for the disposable worker.'',
           dg_signals = [''oom_kill'', ''allocation_failure''],
           dg_measurements = [(''oom_kill_count'', JInt 1)]\<rparr>,
      rc_scenario = MEMORY_OOM, rc_action = ''stop_memory_hog'',
      rc_causal = [''health-1'', ''resources-1'', ''logs-1''], rc_distractors = [''changes-1''],
      rc_tools = [''inspect_resources'', ''inspect_recent_logs'']\<rparr>"

definition case_restarting :: reflection_case where
  "case_restarting =
     \<lparr>rc_id = ''restarting-service-with-normal-resources'',
      rc_health = \<lparr>dg_id = ''health-1'', dg_category = ''health'', dg_summary = ''The site alternates between connection refusal and HTTP 503 during bounded checks.'',
           dg_signals = [''connection_refused'', ''http_503''],
           dg_measurements = [(''status_code'', JInt 503)]\<rparr>,
      rc_resources = \<lparr>dg_id = ''resources-1'', dg_category = ''resources'', dg_summary = ''CPU, memory, and filesystem capacity are all normal.'',
           dg_signals = [''resources_normal''],
           dg_measurements = [(''free_bytes'', JInt 805306368), (''cpu_percent'', JFloat 11), (''memory_percent'', JFloat 33)]\<rparr>,
      rc_changes = \<lparr>dg_id = ''changes-1'', dg_category = ''changes'', dg_summary = ''No deployment or configuration change occurred before the health degradation.'',
           dg_signals = [''no_recent_change''],
           dg_measurements = [(''change_count'', JInt 0)]\<rparr>,
      rc_logs = \<lparr>dg_id = ''logs-1'', dg_category = ''logs'', dg_summary = ''The disposable service exits during startup and has entered a bounded restart loop.'',
           dg_signals = [''startup_failure'', ''restart_loop''],
           dg_measurements = [(''restart_count'', JInt 5)]\<rparr>,
      rc_scenario = RESTARTING_SERVICE, rc_action = ''restart_disposable_service'',
      rc_causal = [''health-1'', ''logs-1''], rc_distractors = [''changes-1'', ''resources-1''],
      rc_tools = [''check_site_health'', ''inspect_recent_logs'']\<rparr>"

definition case_log :: reflection_case where
  "case_log =
     \<lparr>rc_id = ''log-storm-with-cpu-noise'',
      rc_health = \<lparr>dg_id = ''health-1'', dg_category = ''health'', dg_summary = ''The site responds slowly and intermittently returns HTTP 503.'',
           dg_signals = [''http_503'', ''latency_high''],
           dg_measurements = [(''status_code'', JInt 503)]\<rparr>,
      rc_resources = \<lparr>dg_id = ''resources-1'', dg_category = ''resources'', dg_summary = ''CPU is moderately elevated, while memory and filesystem free space remain outside critical ranges.'',
           dg_signals = [''moderate_cpu'', ''disk_not_critical''],
           dg_measurements = [(''free_bytes'', JInt 402653184), (''cpu_percent'', JFloat 69), (''memory_percent'', JFloat 44)]\<rparr>,
      rc_changes = \<lparr>dg_id = ''changes-1'', dg_category = ''changes'', dg_summary = ''A feature flag changed earlier but was reverted successfully before symptoms began.'',
           dg_signals = [''feature_flag_reverted'', ''change_precedes_healthy_period''],
           dg_measurements = [(''minutes_before_failure'', JInt 90)]\<rparr>,
      rc_logs = \<lparr>dg_id = ''logs-1'', dg_category = ''logs'', dg_summary = ''Temporary diagnostic files are growing rapidly and repeated messages dominate the bounded log sample.'',
           dg_signals = [''log_storm'', ''temporary_file_growth''],
           dg_measurements = [(''temp_file_count'', JInt 240), (''log_growth_bytes_per_minute'', JInt 8388608)]\<rparr>,
      rc_scenario = LOG_STORM, rc_action = ''cleanup_log_storm_temp_files'',
      rc_causal = [''health-1'', ''logs-1''], rc_distractors = [''changes-1'', ''resources-1''],
      rc_tools = [''inspect_recent_logs'']\<rparr>"

definition EVALUATION_CASES :: "reflection_case list" where
  "EVALUATION_CASES = [case_disk, case_runaway, case_memory, case_restarting, case_log]"

definition find_case :: "string \<Rightarrow> exn + reflection_case" where
  "find_case i = (case map_of (map (\<lambda>c. (rc_id c, c)) EVALUATION_CASES) i of None \<Rightarrow> Inl (KeyError i) | Some c \<Rightarrow> Inr c)"

definition case_observations :: "reflection_case \<Rightarrow> diagnostic_observation list" where
  "case_observations c = [rc_health c, rc_resources c, rc_changes c, rc_logs c]"

text \<open>\<open>EvaluationTarget\<close>: deep copies of the observations of the case.\<close>

definition evaluation_target :: "reflection_case \<Rightarrow> 'w diagnostic_target" where
  "evaluation_target c =
     \<lparr>dt_health = returnS (rc_health c), dt_resources = returnS (rc_resources c),
      dt_logs = returnS (rc_logs c), dt_changes = returnS (rc_changes c)\<rparr>"

section \<open>Critique\<close>

definition CRITIQUE_CATEGORIES :: "string list" where
  "CRITIQUE_CATEGORIES = [''health'', ''resources'', ''changes'', ''logs'']"

record critique_result =
  cr_needs_revision :: bool
  cr_unsupported :: "string list"
  cr_missing :: "string list"
  cr_explanation :: string

record critique_assessment =
  as_assessments :: "(string \<times> bool) list"
  as_missing :: "string list"
  as_explanation :: string

definition valid_critique :: "critique_result \<Rightarrow> bool" where
  "valid_critique c \<longleftrightarrow> length (cr_unsupported c) \<le> 20 \<and> length (cr_missing c) \<le> 4 \<and>
     set (cr_missing c) \<subseteq> set CRITIQUE_CATEGORIES \<and> bounded_text 1 4000 (cr_explanation c)"

definition valid_critique_assessment :: "critique_assessment \<Rightarrow> bool" where
  "valid_critique_assessment a \<longleftrightarrow> sized 1 20 (as_assessments a) \<and> length (as_missing a) \<le> 4 \<and>
     set (as_missing a) \<subseteq> set CRITIQUE_CATEGORIES \<and> bounded_text 1 4000 (as_explanation a)"

text \<open>\<open>list(dict.fromkeys(xs))\<close>: the first occurrences, in order.\<close>

definition first_occurrences :: "'a list \<Rightarrow> 'a list" where
  "first_occurrences xs = rev (remdups (rev xs))"

definition critique_result_from_assessment :: "investigation_result \<Rightarrow> critique_assessment \<Rightarrow> exn + critique_result" where
  "critique_result_from_assessment r a =
     (let unsupported = first_occurrences (map fst (filter (\<lambda>(i, ok). i \<in> set (ir_evidence_refs r) \<and> \<not> ok) (as_assessments a)));
          c = \<lparr>cr_needs_revision = (unsupported \<noteq> [] \<or> as_missing a \<noteq> []), cr_unsupported = unsupported,
               cr_missing = as_missing a, cr_explanation = as_explanation a\<rparr>
      in if valid_critique c then Inr c else Inl ValidationError)"

section \<open>The live critic and reviser\<close>

definition investigation_members :: "investigation_result \<Rightarrow> members" where
  "investigation_members r =
     [(''diagnosed_scenario'', JStr (scenario_value (ir_scenario r))), (''severity'', JStr (ir_severity r)),
      (''confidence'', JFloat (ir_confidence r)), (''evidence_refs'', json_strs (ir_evidence_refs r)),
      (''proposed_action_id'', JStr (ir_action_id r)), (''explanation'', JStr (ir_explanation r))]"

definition critique_json :: "critique_result \<Rightarrow> json" where
  "critique_json c = JObj
     [(''needs_revision'', JBool (cr_needs_revision c)), (''unsupported_evidence_refs'', json_strs (cr_unsupported c)),
      (''missing_evidence_categories'', json_strs (cr_missing c)), (''explanation'', JStr (cr_explanation c))]"

type_synonym observed_evidence = "(string \<times> diagnostic_observation) list"

definition observations_json :: "observed_evidence \<Rightarrow> json" where
  "observations_json obs = JObj (map (\<lambda>(i, ob). (i, observation_json ob)) obs)"

type_synonym 'w critic = "investigation_result \<Rightarrow> observed_evidence \<Rightarrow> ('w, critique_result) action"
type_synonym 'w reviser = "investigation_result \<Rightarrow> critique_result \<Rightarrow> observed_evidence \<Rightarrow> ('w, investigation_result) action"

definition live_critique :: "(rat \<Rightarrow> string) \<Rightarrow> (string \<Rightarrow> ('w, critique_assessment) action) \<Rightarrow> 'w critic" where
  "live_critique fr ask r obs =
     bindS (ask (json_text fr (JObj [(''diagnosis'', JObj (investigation_members r)), (''observations'', observations_json obs)])))
       (\<lambda>a. readS (\<lambda>_. if valid_critique_assessment a then critique_result_from_assessment r a else Inl ValidationError))"

definition live_revise :: "(rat \<Rightarrow> string) \<Rightarrow> (string \<Rightarrow> ('w, investigation_result) action) \<Rightarrow> 'w reviser" where
  "live_revise fr ask r c obs =
     bindS (ask (json_text fr (JObj [(''initial_diagnosis'', JObj (investigation_members r)), (''critique'', critique_json c),
         (''observations'', observations_json obs)])))
       (\<lambda>response. readS (\<lambda>_. check_investigation response))"

section \<open>Runs\<close>

definition MAX_REFLECTIVE_TOOL_CALLS :: nat where "MAX_REFLECTIVE_TOOL_CALLS = 8"

definition eval_output ::
    "investigation_result \<Rightarrow> string list \<Rightarrow> critique_result option \<Rightarrow> string list \<Rightarrow> members" where
  "eval_output r calls critique initial_refs =
     investigation_members r @
     [(''tool_calls'', json_strs calls), (''critique_used'', JBool (critique \<noteq> None)),
      (''critique'', case critique of None \<Rightarrow> JNull | Some c \<Rightarrow> critique_json c),
      (''initial_evidence_refs'', json_strs (if initial_refs \<noteq> [] then initial_refs else ir_evidence_refs r)),
      (''revision_applied'', JBool (case critique of None \<Rightarrow> False | Some c \<Rightarrow> cr_needs_revision c))]"

definition health_alert :: "string \<Rightarrow> datetime \<Rightarrow> exn + site_health_alert" where
  "health_alert key now =
     (let a = \<lparr>sa_key = key, sa_observed_at = now\<rparr> in if valid_alert a then Inr a else Inl ValidationError)"

text \<open>\<open>hex\<close> is the random part of the thread name, \<open>now\<close> the time of the alert.\<close>

definition direct_run ::
    "reflection_case \<Rightarrow> string \<Rightarrow> datetime \<Rightarrow> investigation_result agent \<Rightarrow> (trace \<times> 'w, members) action" where
  "direct_run c hex now ag =
     bindS (readS (\<lambda>_. health_alert (''eval-direct-'' @ rc_id c @ ''-'' @ hex) now)) (\<lambda>alert.
     bindS (investigate_site (evaluation_target c) ag alert) (\<lambda>r.
     readS (\<lambda>(tr, w). Inr (eval_output r (tool_calls_for (sa_key alert) tr) None []))))"

definition revised_result ::
    "'w reviser \<Rightarrow> string \<Rightarrow> investigation_result \<Rightarrow> critique_result \<Rightarrow> (trace \<times> 'w, investigation_result) action" where
  "revised_result reviser thread r critique =
     (if cr_needs_revision critique then
        bindS (\<lambda>(tr, w). worldT (reviser r critique (observations_for thread tr)) (tr, w)) (\<lambda>response.
        readS (\<lambda>(tr, w). validate_investigation_result response thread tr))
      else returnS r)"

definition reflective_run ::
    "reflection_case \<Rightarrow> string \<Rightarrow> datetime \<Rightarrow> investigation_result agent \<Rightarrow> 'w critic \<Rightarrow> 'w reviser
       \<Rightarrow> (trace \<times> 'w, members) action"
where
  "reflective_run c hex now ag critic reviser =
     bindS (readS (\<lambda>_. health_alert (''eval-reflect-'' @ rc_id c @ ''-'' @ hex) now)) (\<lambda>alert.
     bindS (investigate_site (evaluation_target c) ag alert) (\<lambda>initial.
     bindS (\<lambda>(tr, w). worldT (critic initial (observations_for (sa_key alert) tr)) (tr, w)) (\<lambda>critique.
     bindS (readS (\<lambda>(tr, w). if \<not> set (cr_unsupported critique) \<subseteq> fst ` set (observations_for (sa_key alert) tr)
              then Inl (ValueError ''critic referenced evidence that was not observed'') else Inr ())) (\<lambda>_.
     bindS (revised_result reviser (sa_key alert) initial critique) (\<lambda>r.
     readS (\<lambda>(tr, w).
       if MAX_REFLECTIVE_TOOL_CALLS < length (tool_calls_for (sa_key alert) tr)
       then Inl (ValueError ''reflective investigation exceeded its diagnostic tool budget'')
       else Inr (eval_output r (tool_calls_for (sa_key alert) tr) (Some critique) (ir_evidence_refs initial))))))))"

definition fresh_trace :: "(trace \<times> 'w, 'a) action \<Rightarrow> ('w, 'a) action" where
  "fresh_trace m w = (case m ([], w) of (r, (tr, w')) \<Rightarrow> (r, w'))"

definition run_direct_case ::
    "string \<Rightarrow> string \<Rightarrow> datetime \<Rightarrow> investigation_result agent \<Rightarrow> ('w, members) action" where
  "run_direct_case case_id hex now ag =
     bindS (readS (\<lambda>_. find_case case_id)) (\<lambda>c. fresh_trace (direct_run c hex now ag))"

definition run_reflective_case ::
    "string \<Rightarrow> string \<Rightarrow> datetime \<Rightarrow> investigation_result agent \<Rightarrow> 'w critic \<Rightarrow> 'w reviser \<Rightarrow> ('w, members) action" where
  "run_reflective_case case_id hex now ag critic reviser =
     bindS (readS (\<lambda>_. find_case case_id)) (\<lambda>c. fresh_trace (reflective_run c hex now ag critic reviser))"

section \<open>Scores\<close>

definition reference_members :: "reflection_case \<Rightarrow> members" where
  "reference_members c =
     [(''expected_scenario'', JStr (scenario_value (rc_scenario c))), (''expected_action'', JStr (rc_action c)),
      (''causal_evidence'', json_strs (rc_causal c)), (''distractor_evidence'', json_strs (rc_distractors c)),
      (''required_tools'', json_strs (rc_tools c)), (''max_tool_calls'', JInt (int MAX_REFLECTIVE_TOOL_CALLS))]"

definition scenario_correct :: "members \<Rightarrow> reflection_case \<Rightarrow> bool" where
  "scenario_correct outputs c \<longleftrightarrow> json_get ''diagnosed_scenario'' outputs = Some (JStr (scenario_value (rc_scenario c)))"

definition action_correct :: "members \<Rightarrow> reflection_case \<Rightarrow> bool" where
  "action_correct outputs c \<longleftrightarrow> json_get ''proposed_action_id'' outputs = Some (JStr (rc_action c))"

text \<open>\<open>len(cited & causal) / max(len(cited), 1)\<close>.\<close>

definition evidence_precision :: "members \<Rightarrow> reflection_case \<Rightarrow> rat" where
  "evidence_precision outputs c =
     (let cited = remdups (strings_at ''evidence_refs'' outputs) in
      to_double (of_nat (length (filter (\<lambda>x. x \<in> set (rc_causal c)) cited)) / of_nat (max (length cited) 1)))"

definition distractor_rejection :: "members \<Rightarrow> reflection_case \<Rightarrow> bool" where
  "distractor_rejection outputs c \<longleftrightarrow>
     json_get ''evidence_refs'' outputs \<notin> {None, Some JNull} \<and>
     list_all (\<lambda>r. r \<notin> set (rc_distractors c)) (strings_at ''evidence_refs'' outputs)"

definition trajectory_coverage :: "members \<Rightarrow> reflection_case \<Rightarrow> rat" where
  "trajectory_coverage outputs c =
     (let required = remdups (rc_tools c) in
      to_double (of_nat (length (filter (\<lambda>x. x \<in> set (strings_at ''tool_calls'' outputs)) required)) / of_nat (max (length required) 1)))"

definition within_tool_budget :: "members \<Rightarrow> bool" where
  "within_tool_budget outputs \<longleftrightarrow>
     (case json_get ''tool_calls'' outputs of Some (JList js) \<Rightarrow> length js \<le> MAX_REFLECTIVE_TOOL_CALLS | _ \<Rightarrow> False)"

definition number_of :: "bool \<Rightarrow> rat" where "number_of b = (if b then 1 else 0)"

text \<open>\<open>EVALUATORS\<close>, under their names, with truth values read as numbers.\<close>

definition EVALUATORS :: "(string \<times> (members \<Rightarrow> reflection_case \<Rightarrow> rat)) list" where
  "EVALUATORS =
     [(''diagnosis_correct'', \<lambda>out c. number_of (scenario_correct out c)),
      (''action_correct'', \<lambda>out c. number_of (action_correct out c)),
      (''evidence_precision'', evidence_precision),
      (''distractor_rejection'', \<lambda>out c. number_of (distractor_rejection out c)),
      (''trajectory_coverage'', trajectory_coverage),
      (''within_tool_budget'', \<lambda>out c. number_of (within_tool_budget out))]"

section \<open>Summary of an experiment\<close>

text \<open>
  Python's \<open>sum\<close> of floats (since 3.12): compensated summation, the lost low-order parts in \<open>c\<close>.
\<close>

fun float_sum_from :: "rat \<Rightarrow> rat \<Rightarrow> rat list \<Rightarrow> rat" where
  "float_sum_from acc c [] = (if c \<noteq> 0 then to_double (acc + c) else acc)"
| "float_sum_from acc c (x # xs) =
     (let t = to_double (acc + x);
          c' = (if \<bar>x\<bar> \<le> \<bar>acc\<bar> then to_double (c + to_double (to_double (acc - t) + x))
                else to_double (c + to_double (to_double (x - t) + acc)))
      in float_sum_from t c' xs)"

definition float_sum :: "rat list \<Rightarrow> rat" where "float_sum xs = float_sum_from 0 0 xs"

text \<open>
  The rows and the attributes of a LangSmith result: reading an attribute may raise. \<open>er_run_id\<close>, \<open>er_tokens\<close> and
  \<open>er_cost\<close> are of the run itself, null where it has none.
\<close>

record experiment_row =
  er_evaluations :: "(string \<times> json) list"
  er_outputs :: "members option"
  er_error :: "string option"
  er_inputs :: "members option"
  er_run_id :: string
  er_tokens :: json
  er_cost :: json

record experiment_results =
  ex_name :: "exn + string"
  ex_id :: "exn + string"
  ex_url :: "exn + string option"
  ex_rows :: "experiment_row list"

definition score_number :: "json \<Rightarrow> rat" where
  "score_number j = (case j of JBool b \<Rightarrow> number_of b | JInt i \<Rightarrow> to_double (of_int i) | JFloat x \<Rightarrow> x | _ \<Rightarrow> 0)"

text \<open>The scores of a row: 0.0 for each evaluator, then what the row holds, also under other keys.\<close>

definition row_scores :: "string list \<Rightarrow> experiment_row \<Rightarrow> (string \<times> json) list" where
  "row_scores keys row = fold (\<lambda>(k, j). AList.update k j) (er_evaluations row) (map (\<lambda>k. (k, JFloat 0)) keys)"

definition score_at :: "string \<Rightarrow> (string \<times> json) list \<Rightarrow> rat" where
  "score_at key scores = (case map_of scores key of None \<Rightarrow> 0 | Some j \<Rightarrow> score_number j)"

definition averages :: "string list \<Rightarrow> experiment_row list \<Rightarrow> (string \<times> rat) list" where
  "averages keys rows =
     (if rows = [] then []
      else map (\<lambda>k. (k, to_double (float_sum (map (\<lambda>row. score_at k (row_scores keys row)) rows) / of_nat (length rows)))) keys)"

definition or_null :: "string \<Rightarrow> members \<Rightarrow> json" where
  "or_null key m = (case json_get key m of None \<Rightarrow> JNull | Some j \<Rightarrow> j)"

definition members_or_empty :: "members option \<Rightarrow> members" where
  "members_or_empty m = (case m of None \<Rightarrow> [] | Some kvs \<Rightarrow> kvs)"

definition failed_row :: "experiment_row \<Rightarrow> bool" where
  "failed_row row \<longleftrightarrow> (case er_error row of None \<Rightarrow> False | Some e \<Rightarrow> e \<noteq> [])"

definition case_summary :: "string list \<Rightarrow> experiment_row \<Rightarrow> json" where
  "case_summary keys row =
     (let outputs = members_or_empty (er_outputs row) in
      JObj ((''case_id'', or_null ''case_id'' (members_or_empty (er_inputs row))) #
        map (\<lambda>k. (k, or_null k outputs))
          [''diagnosed_scenario'', ''proposed_action_id'', ''evidence_refs'', ''tool_calls'', ''critique_used'',
           ''initial_evidence_refs'', ''revision_applied''] @
        [(''error'', json_str (er_error row)), (''scores'', JObj (row_scores keys row))]))"

record experiment_summary =
  es_name :: string
  es_id :: string
  es_url :: "string option"
  es_case_count :: nat
  es_successful :: nat
  es_errors :: nat
  es_denominators :: "(string \<times> nat) list"
  es_averages :: "(string \<times> rat) list"
  es_cases :: "json list"

definition summarize_experiment :: "experiment_results \<Rightarrow> exn + experiment_summary" where
  "summarize_experiment e =
     (let keys = map fst EVALUATORS; rows = ex_rows e; errors = count_where failed_row rows in
      bindE (ex_name e) (\<lambda>name.
      bindE (ex_id e) (\<lambda>i.
      bindE (ex_url e) (\<lambda>url.
      Inr \<lparr>es_name = name, es_id = i, es_url = url, es_case_count = length rows,
        es_successful = length rows - errors, es_errors = errors,
        es_denominators = map (\<lambda>k. (k, length rows)) keys, es_averages = averages keys rows,
        es_cases = map (case_summary keys) rows\<rparr>))))"

text \<open>\<open>reflective_minus_direct\<close>: over the sorted union of the metrics, 0.0 for a missing one.\<close>

definition average_of :: "string \<Rightarrow> (string \<times> rat) list \<Rightarrow> rat" where
  "average_of k avs = (case map_of avs k of None \<Rightarrow> 0 | Some x \<Rightarrow> x)"

definition averages_difference :: "(string \<times> rat) list \<Rightarrow> (string \<times> rat) list \<Rightarrow> (string \<times> rat) list" where
  "averages_difference later earlier =
     map (\<lambda>k. (k, to_double (average_of k later - average_of k earlier))) (sort (remdups (map fst earlier @ map fst later)))"

section \<open>The dataset and the evaluation\<close>

text \<open>
  \<open>ensure_langsmith_dataset\<close> over the client's operations, and the driver of the two experiments. A
  remote example is its identifier with inputs and outputs; \<open>uuid5\<close> is the name-based identifier.
\<close>

type_synonym example = "string \<times> members \<times> members"

datatype dataset = Remote string | Local "example list"

record 'w evaluation_client =
  cl_has :: "string \<Rightarrow> ('w, bool) action"
  cl_create :: "string \<Rightarrow> ('w, unit) action"
  cl_list :: "string \<Rightarrow> ('w, example list) action"
  cl_create_examples :: "string \<Rightarrow> example list \<Rightarrow> ('w, unit) action"
  cl_evaluate :: "string \<Rightarrow> (members \<Rightarrow> ('w, members) action) \<Rightarrow> dataset \<Rightarrow> nat \<Rightarrow> ('w, experiment_results) action"

definition DATASET_NAME :: string where "DATASET_NAME = ''incident-response-agent-reflection-eval-v1''"

definition local_example :: "(string \<Rightarrow> string) \<Rightarrow> reflection_case \<Rightarrow> example" where
  "local_example uuid5 c =
     (uuid5 (DATASET_NAME @ '':'' @ rc_id c),
      [(''case_id'', JStr (rc_id c)),
       (''alert'', JStr ''The owned disposable site is unhealthy. Investigate the cause and propose one bounded remediation.'')],
      reference_members c)"

text \<open>The examples still to be created, or the refusal of one that differs.\<close>

definition same_members :: "members \<Rightarrow> members \<Rightarrow> bool" where
  "same_members m m' \<longleftrightarrow> canon (JObj m) = canon (JObj m')"

fun missing_examples :: "(string \<Rightarrow> string) \<Rightarrow> example list \<Rightarrow> reflection_case list \<Rightarrow> exn + example list" where
  "missing_examples uuid5 existing [] = Inr []"
| "missing_examples uuid5 existing (c # cs) =
     (let (i, inputs, outputs) = local_example uuid5 c in
      case map_of (rev existing) i of
        Some (inputs', outputs') \<Rightarrow>
          if \<not> same_members inputs' inputs \<or> \<not> same_members outputs' outputs
          then Inl (ValueError (''LangSmith dataset example '' @ rc_id c @ '' does not match local evaluation version''))
          else missing_examples uuid5 existing cs
      | None \<Rightarrow> bindE (missing_examples uuid5 existing cs) (\<lambda>rest. Inr ((i, inputs, outputs) # rest)))"

definition ensure_langsmith_dataset :: "'w evaluation_client \<Rightarrow> (string \<Rightarrow> string) \<Rightarrow> ('w, string) action" where
  "ensure_langsmith_dataset client uuid5 =
     bindS (cl_has client DATASET_NAME) (\<lambda>present.
     bindS (if present then returnS () else cl_create client DATASET_NAME) (\<lambda>_.
     bindS (cl_list client DATASET_NAME) (\<lambda>existing.
     bindS (readS (\<lambda>_. missing_examples uuid5 existing EVALUATION_CASES)) (\<lambda>examples.
     bindS (if examples = [] then returnS () else cl_create_examples client DATASET_NAME examples) (\<lambda>_.
     returnS DATASET_NAME)))))"

definition local_dataset :: "(string \<Rightarrow> string) \<Rightarrow> example list" where
  "local_dataset uuid5 = map (\<lambda>c. (uuid5 (''local:'' @ DATASET_NAME @ '':'' @ rc_id c), [(''case_id'', JStr (rc_id c))], reference_members c))
     EVALUATION_CASES"

text \<open>\<open>inputs["case_id"]\<close> of an example, and the two targets.\<close>

definition case_target :: "(string \<Rightarrow> ('w, members) action) \<Rightarrow> members \<Rightarrow> ('w, members) action" where
  "case_target run inputs =
     (case json_get ''case_id'' inputs of Some (JStr i) \<Rightarrow> run i | None \<Rightarrow> raiseS (KeyError ''case_id'') | _ \<Rightarrow> raiseS (KeyError []))"

datatype evaluation_mode = Direct | Reflective | Both

record evaluation_report =
  ev_dataset :: string
  ev_mode :: evaluation_mode
  ev_direct :: "experiment_summary option"
  ev_reflective :: "experiment_summary option"
  ev_difference :: "(string \<times> rat) list option"

definition run_experiment ::
    "'w evaluation_client \<Rightarrow> bool \<Rightarrow> string \<Rightarrow> (members \<Rightarrow> ('w, members) action) \<Rightarrow> dataset \<Rightarrow> nat
       \<Rightarrow> ('w, experiment_summary option) action"
where
  "run_experiment client wanted name target data repetitions =
     (if wanted then bindS (cl_evaluate client name target data repetitions) (\<lambda>e.
        bindS (readS (\<lambda>_. summarize_experiment e)) (\<lambda>summary. returnS (Some summary)))
      else returnS None)"

definition run_langsmith_reflection_evaluation ::
    "'w evaluation_client \<Rightarrow> (string \<Rightarrow> string) \<Rightarrow> bool \<Rightarrow> nat \<Rightarrow> evaluation_mode
       \<Rightarrow> (string \<Rightarrow> ('w, members) action) \<Rightarrow> (string \<Rightarrow> ('w, members) action) \<Rightarrow> ('w, evaluation_report) action"
where
  "run_langsmith_reflection_evaluation client uuid5 upload repetitions mode direct reflective =
     bindS (if upload then bindS (ensure_langsmith_dataset client uuid5) (\<lambda>name. returnS (Remote name))
            else returnS (Local (local_dataset uuid5))) (\<lambda>data.
     bindS (run_experiment client (mode \<in> {Direct, Both}) ''direct-investigator-v1'' (case_target direct) data repetitions) (\<lambda>d.
     bindS (run_experiment client (mode \<in> {Reflective, Both}) ''critique-investigator-v4'' (case_target reflective) data repetitions) (\<lambda>r.
     returnS \<lparr>ev_dataset = (if upload then DATASET_NAME else ''local-iterator''), ev_mode = mode, ev_direct = d, ev_reflective = r,
       ev_difference = (case (d, r) of (Some d', Some r') \<Rightarrow> Some (averages_difference (es_averages r') (es_averages d')) | _ \<Rightarrow> None)\<rparr>)))"

section \<open>A reflective run\<close>

lemma evaluation_target_answers: "answers (\<lambda>ob. ob \<in> set (case_observations c)) (evaluation_target c)"
  by (auto simp: answers_def evaluation_target_def case_observations_def)

lemma observed_ids:
  assumes "traced P thread tr"
  shows "fst ` set (observations_for thread tr) \<subseteq> dg_id ` {ob. P ob}"
  using assms by (force simp: traced_def)

text \<open>C34: A reflective run that answers is grounded in its case, before and after the revision: what the final
  diagnosis cites, and what the critic rejects, are identifiers of the four observations of the case; the
  proposed action is one the policy allows for the diagnosed scenario; at most eight tools were called; and
  without a revision the diagnosis is the investigator's own.\<close>

theorem reflective_run_sound:
  assumes "reflective_run c hex now ag critic reviser ([], w) = (Inr out, (tr', w'))"
  shows "\<exists>r critique calls initial. out = eval_output r calls (Some critique) initial \<and>
    ir_evidence_refs r \<noteq> [] \<and> set (ir_evidence_refs r) \<subseteq> dg_id ` set (case_observations c) \<and>
    set (cr_unsupported critique) \<subseteq> dg_id ` set (case_observations c) \<and>
    validate_scenario_action (ir_scenario r) SYNTHETIC_MARKER (ir_action_id r) = Inr () \<and>
    length calls \<le> 8 \<and> (cr_needs_revision critique \<or> initial = ir_evidence_refs r)"
proof -
  let ?P = "\<lambda>ob. ob \<in> set (case_observations c)"
  from assms obtain alert r0 tr1 w1 critique w2 r w3 where
    inv: "investigate_site (evaluation_target c) ag alert ([], w) = (Inr r0, (tr1, w1))" and
    uns: "set (cr_unsupported critique) \<subseteq> fst ` set (observations_for (sa_key alert) tr1)" and
    rev: "revised_result reviser (sa_key alert) r0 critique (tr1, w2) = (Inr r, (tr', w3))" and
    len: "length (tool_calls_for (sa_key alert) tr') \<le> 8" and
    out: "out = eval_output r (tool_calls_for (sa_key alert) tr') (Some critique) (ir_evidence_refs r0)"
    by (auto simp: reflective_run_def bindS_Inr_iff MAX_REFLECTIVE_TOOL_CALLS_def split: if_splits dest!: worldT_Inr)
  have t0: "traced ?P (sa_key alert) []" by (simp add: traced_def observations_for_def trace_run_of_def)
  note t1 = investigate_site_traced[OF inv evaluation_target_answers t0]
  have tr': "tr' = tr1" and v: "\<exists>response. validate_investigation_result response (sa_key alert) tr1 = Inr r"
    and same: "cr_needs_revision critique \<or> r = r0"
    using rev t1(1) by (auto simp: revised_result_def bindS_Inr_iff split: if_splits dest!: worldT_Inr)
  from v obtain response where v: "validate_investigation_result response (sa_key alert) tr1 = Inr r" by blast
  note g = validated_grounded[OF v t1(2)]
  have "set (ir_evidence_refs r) \<subseteq> dg_id ` set (case_observations c)" using g(2) by (force simp: list_all_iff)
  moreover have "set (cr_unsupported critique) \<subseteq> dg_id ` set (case_observations c)"
    using uns observed_ids[OF t1(2)] by auto
  ultimately show ?thesis using g(1,3) len out same tr' by blast
qed

definition sample_reflection_diagnosis :: investigation_result where
  "sample_reflection_diagnosis = \<lparr>ir_scenario = DISK_EXHAUSTION, ir_severity = ''high'', ir_confidence = 9 / 10,
     ir_evidence_refs = [''health-1''], ir_action_id = ''cleanup_rotated_logs'', ir_explanation = ''full''\<rparr>"

definition sample_investigator :: "investigation_result agent" where
  "sample_investigator = Call ''check_site_health'' JNull (\<lambda>_. Answer sample_reflection_diagnosis)"

definition sample_critique :: critique_result where
  "sample_critique = \<lparr>cr_needs_revision = True, cr_unsupported = [''health-1''], cr_missing = [], cr_explanation = ''e''\<rparr>"

lemma sample_reflective_run:
  "\<exists>out tr. reflective_run case_disk ''0'' now sample_investigator (\<lambda>r obs. returnS sample_critique)
     (\<lambda>r c obs. returnS sample_reflection_diagnosis) ([], ()) = (Inr out, (tr, ())) \<and> within_tool_budget out"
proof -
  let ?key = "''eval-reflect-disk-with-cpu-and-deploy-distractors-0''"
  define ob where "ob = rc_health case_disk"
  have id: "rc_id case_disk = ''disk-with-cpu-and-deploy-distractors''" by (simp add: case_disk_def)
  have ob: "dg_id ob = ''health-1''" by (simp add: ob_def case_disk_def)
  define tr :: trace where "tr = [(?key, \<lparr>tr_observations = [(''health-1'', ob)], tr_tool_calls = [''check_site_health'']\<rparr>)]"
  have "valid_alert \<lparr>sa_key = ?key, sa_observed_at = now\<rparr>"
    by (simp add: valid_alert_def bounded_text_def matches_token_def token_char_def is_ascii_alnum_def is_digit_def is_ascii_lower_def
        is_ascii_upper_def char_in_def code_def)
  then have alert: "health_alert ?key now = Inr \<lparr>sa_key = ?key, sa_observed_at = now\<rparr>"
    by (simp add: health_alert_def)
  have tool: "diagnostic_tool (evaluation_target case_disk) ?key ''check_site_health'' JNull ([], ()) = (Inr (observation_json ob), (tr, ()))"
    by (simp add: diagnostic_tool_def diagnostic_operations_def evaluation_target_def record_call_def trace_run_of_def tr_def ob
        flip: ob_def)
  have obs: "observations_for ?key tr = [(''health-1'', ob)]" "tool_calls_for ?key tr = [''check_site_health'']"
    by (simp_all add: observations_for_def tool_calls_for_def trace_run_of_def tr_def)
  have v: "validate_investigation_result sample_reflection_diagnosis ?key tr = Inr sample_reflection_diagnosis"
    by (simp add: validate_investigation_result_def check_investigation_def valid_investigation_def sample_reflection_diagnosis_def
        unit_interval_def bounded_text_def obs allowed_actions_def SCENARIO_KIND_ACTIONS_def)
  have i: "investigate_site (evaluation_target case_disk) sample_investigator \<lparr>sa_key = ?key, sa_observed_at = now\<rparr> ([], ()) =
      (Inr sample_reflection_diagnosis, (tr, ()))"
    by (simp add: investigate_site_def sample_investigator_def bindS_def tool v)
  have "reflective_run case_disk ''0'' now sample_investigator (\<lambda>r obs. returnS sample_critique)
     (\<lambda>r c obs. returnS sample_reflection_diagnosis) ([], ()) =
     (Inr (eval_output sample_reflection_diagnosis [''check_site_health''] (Some sample_critique) [''health-1'']), (tr, ()))"
    by (simp add: reflective_run_def id alert bindS_def i worldT_def obs sample_critique_def revised_result_def v
        MAX_REFLECTIVE_TOOL_CALLS_def) (simp add: sample_reflection_diagnosis_def)
  moreover have "within_tool_budget (eval_output sample_reflection_diagnosis [''check_site_health''] (Some sample_critique) [''health-1''])"
    by (simp add: within_tool_budget_def eval_output_def investigation_members_def json_get_def json_strs_def MAX_REFLECTIVE_TOOL_CALLS_def)
  ultimately show ?thesis by blast
qed

theorem reflective_run_sound_witness:
  "\<exists>r critique calls initial out. within_tool_budget out \<and> out = eval_output r calls (Some critique) initial \<and>
     set (ir_evidence_refs r) \<subseteq> dg_id ` set (case_observations case_disk)"
  using sample_reflective_run reflective_run_sound by metis

section \<open>Perfect scores\<close>

lemma share_one:
  assumes "length ys < 2 ^ 53"
  shows "to_double (of_nat (length (filter P (remdups ys))) / of_nat (max (length (remdups ys)) 1)) = 1 \<longleftrightarrow>
    ys \<noteq> [] \<and> (\<forall>y \<in> set ys. P y)"
proof (cases "ys = []")
  case False
  let ?zs = "remdups ys"
  have n: "0 < length ?zs" "length ?zs < 2 ^ 53" using False assms length_remdups_leq[of ys] by (simp, linarith)
  from n(1) have "max (length ?zs) 1 = length ?zs" by linarith
  moreover have "length (filter P ?zs) = length ?zs \<longleftrightarrow> (\<forall>y \<in> set ys. P y)"
    by (metis filter_id_conv length_filter_less nat_less_le set_remdups filter_True)
  ultimately show ?thesis using to_double_share[OF length_filter_le n, of P] False by simp
qed simp

lemma eval_output_get [simp]:
  "json_get ''diagnosed_scenario'' (eval_output r calls critique initial) = Some (JStr (scenario_value (ir_scenario r)))"
  "json_get ''proposed_action_id'' (eval_output r calls critique initial) = Some (JStr (ir_action_id r))"
  "json_get ''evidence_refs'' (eval_output r calls critique initial) = Some (json_strs (ir_evidence_refs r))"
  "json_get ''tool_calls'' (eval_output r calls critique initial) = Some (json_strs calls)"
  by (simp_all add: eval_output_def investigation_members_def json_get_def)

lemma strings_at_strs: "json_get key outputs = Some (json_strs ss) \<Longrightarrow> strings_at key outputs = ss"
  by (simp add: strings_at_def json_strs_def comp_def)

text \<open>What the six scores mean together: an output scores 1 with every evaluator exactly when the diagnosis and
  the action are the expected ones, the evidence cited is non-empty, causal and free of distractors, every required
  tool was called, and no more than eight were. In particular a perfect output never cites a distractor.\<close>

theorem perfect_scores:
  assumes "length (ir_evidence_refs r) < 2 ^ 53" and "length (rc_tools c) < 2 ^ 53"
  shows "(\<forall>(name, score) \<in> set EVALUATORS. score (eval_output r calls critique initial) c = 1) \<longleftrightarrow>
    ir_scenario r = rc_scenario c \<and> ir_action_id r = rc_action c \<and>
    ir_evidence_refs r \<noteq> [] \<and> set (ir_evidence_refs r) \<subseteq> set (rc_causal c) - set (rc_distractors c) \<and>
    rc_tools c \<noteq> [] \<and> set (rc_tools c) \<subseteq> set calls \<and> length calls \<le> 8"
proof -
  let ?out = "eval_output r calls critique initial"
  have num: "number_of b = 1 \<longleftrightarrow> b" for b by (simp add: number_of_def)
  have refs: "strings_at ''evidence_refs'' ?out = ir_evidence_refs r" "strings_at ''tool_calls'' ?out = calls"
    by (simp_all add: strings_at_strs)
  have "evidence_precision ?out c = 1 \<longleftrightarrow> ir_evidence_refs r \<noteq> [] \<and> set (ir_evidence_refs r) \<subseteq> set (rc_causal c)"
    using share_one[OF assms(1), of "\<lambda>x. x \<in> set (rc_causal c)"] by (auto simp: evidence_precision_def Let_def refs)
  moreover have "trajectory_coverage ?out c = 1 \<longleftrightarrow> rc_tools c \<noteq> [] \<and> set (rc_tools c) \<subseteq> set calls"
    using share_one[OF assms(2), of "\<lambda>x. x \<in> set calls"] by (auto simp: trajectory_coverage_def Let_def refs)
  moreover have "distractor_rejection ?out c \<longleftrightarrow> set (ir_evidence_refs r) \<inter> set (rc_distractors c) = {}"
    by (auto simp: distractor_rejection_def refs list_all_iff json_strs_def)
  moreover have "within_tool_budget ?out \<longleftrightarrow> length calls \<le> 8"
    by (simp add: within_tool_budget_def json_strs_def MAX_REFLECTIVE_TOOL_CALLS_def)
  ultimately show ?thesis
    by (auto simp: EVALUATORS_def num scenario_correct_def action_correct_def)
qed

theorem perfect_scores_witness:
  "\<not> (\<forall>(name, score) \<in> set EVALUATORS. score (eval_output sample_reflection_diagnosis [''check_site_health''] None []) case_disk = 1)"
  using perfect_scores[of sample_reflection_diagnosis case_disk "[''check_site_health'']" None "[]"]
  by (auto simp: sample_reflection_diagnosis_def case_disk_def)

end
