(* ===== verification/Approvals.thy ===== *)
theory Approvals
  imports Service
begin

text \<open>
  Which proposals a database holds as granted, that is approved or further, and that only a decision to
  approve grants one. The service operations are taken as clients of a relation between two states that
  each call of the store and of a collaborator establishes: the locales below; the grants and, in the
  workflow, the files of a process are instances.
\<close>

section \<open>Relations the operations of the service keep\<close>

locale service_relation =
  fixes R :: "db \<times> 'w \<Rightarrow> db \<times> 'w \<Rightarrow> bool" and env :: "'w service_env"
  assumes preorder: "reflp R" "transp R"
    and clock: "keeps R (nowS env)" "keeps R (uuidS env)"
    and collaborators: "keeps R (worldS (se_collect env e))" "keeps R (worldS (se_analyze env ev note))"
      "keeps R (resolve_option_binding env sc k a)"
    and run_operations: "keeps R (storeS (create_or_get_run row entry))"
      "keeps R (storeS (transition_run run_id from_state to_state now tr reason actor source))"
      "keeps R (storeS (fail_run run_id now actor reason))"
    and proposal_operation: "keeps R (storeS (create_proposal_and_transition n run_id P_PROPOSED now tr actor ms))"
    and audit_operation: "keeps R (storeS (create_audit entry))"
begin

lemmas moves = keeps_pure[OF preorder(1)] keeps_bind[OF preorder(2)] keeps_catch[OF preorder(2)]
  keeps_each[OF preorder] clock collaborators run_operations proposal_operation audit_operation

lemma audit_keeps: "keeps R (audit_event env run_id tr event_type m actor pid)"
  unfolding audit_event_def by (intro moves)

lemma get_run_keeps: "keeps R (get_runS run_id duplicate)"
  unfolding get_runS_def by (intro moves)

lemma records_keep:
  "keeps R (record_diagnostic_tools env run_id tools actor)"
  "keeps R (record_recovery_verification env run_id pid healthy actor)"
  "keeps R (record_capability_activation env run_id pid i v outcome rollback actor)"
  unfolding record_diagnostic_tools_def record_recovery_verification_def record_capability_activation_def
    required_run_def
  by (auto intro!: moves audit_keeps)

lemma start_keeps: "keeps R (start_event env event actor)"
  unfolding start_event_def assess_def propose_def fail_and_raise_def
  by (auto intro!: moves audit_keeps get_run_keeps split: option.split exn.split prod.split)

lemma mapping_keeps: "keeps R m \<Longrightarrow> keeps R (mapping_errors m)"
  unfolding mapping_errors_def by (intro moves)

end

text \<open>A decision on one proposal.\<close>

locale deciding_relation = service_relation R env
  for R :: "db \<times> 'w \<Rightarrow> db \<times> 'w \<Rightarrow> bool" and env :: "'w service_env" +
  fixes pid :: string and request :: decision_request
  assumes decision: "keeps R (storeS (decide_proposal pid (dr_revision request) (dr_action_hash request)
      (dr_decision request) now actor wait new_proposal))"
begin

lemma decide_keeps: "keeps R (decide env pid request actor)"
  unfolding decide_def settle_decision_def required_proposal_def revised_draft_def Let_def
  by (auto intro!: moves mapping_keeps decision get_run_keeps)

end

text \<open>The execution of a proposal.\<close>

locale executing_relation = service_relation R env
  for R :: "db \<times> 'w \<Rightarrow> db \<times> 'w \<Rightarrow> bool" and env :: "'w service_env" +
  assumes execution_operations: "keeps R (storeS (claim_execution pid digest now actor))"
      "keeps R (storeS (finalize_execution pid success now actor metadata))"
    and tool: "keeps R (worldS (se_execute env opt))"
begin

lemma execute_keeps: "keeps R (execute env pid actor)"
  unfolding execute_def required_proposal_def run_tool_def record_failure_def
  by (auto intro!: moves mapping_keeps execution_operations tool audit_keeps get_run_keeps split: claim.split)

end

section \<open>Grants\<close>

definition GRANTED :: "proposal_state set" where
  "GRANTED = {P_APPROVED, P_EXECUTING, P_SUCCEEDED, P_FAILED}"

lemma GRANTED_iff [simp]:
  "P_APPROVED \<in> GRANTED" "P_EXECUTING \<in> GRANTED" "P_SUCCEEDED \<in> GRANTED" "P_FAILED \<in> GRANTED"
  "P_PROPOSED \<notin> GRANTED" "P_REJECTED \<notin> GRANTED" "P_EXPIRED \<notin> GRANTED" "P_SUPERSEDED \<notin> GRANTED"
  by (simp_all add: GRANTED_def)

text \<open>Each granted proposal with the revision and the hash it was granted under.\<close>

definition granted :: "db \<Rightarrow> (string \<times> int \<times> string) set" where
  "granted d = {(pid, p_revision p, p_action_hash p) |pid p. find_proposal pid d = Some p \<and> p_status p \<in> GRANTED}"

lemma granted_empty [simp]: "granted empty_db = {}"
  by (simp add: granted_def empty_db_def find_proposal_def)

text \<open>Since \<open>d\<close> nothing was granted but what \<open>X\<close> holds.\<close>

definition calm :: "(string \<times> int \<times> string) set \<Rightarrow> db \<Rightarrow> db \<Rightarrow> bool" where
  "calm X d d' \<longleftrightarrow> granted d' \<subseteq> granted d \<union> X"

lemma calm_refl [simp]: "calm X d d"
  by (simp add: calm_def)

lemma calm_fields: "calm X d d1 \<Longrightarrow> proposals d' = proposals d1 \<Longrightarrow> calm X d d'"
  by (simp add: calm_def granted_def find_proposal_def)

lemma calm_run: "calm X d d1 \<Longrightarrow> calm X d (snd (set_run_state k s s' now d1))"
  by (erule calm_fields) (simp add: set_run_state_def)

lemma calm_audit: "insert_audit e d1 = Inr d2 \<Longrightarrow> calm X d d1 \<Longrightarrow> calm X d d2"
  by (erule calm_fields) (auto simp: insert_audit_def split: if_splits)

lemma calm_insert: "insert_proposal n k P_PROPOSED d1 = Inr d2 \<Longrightarrow> calm X d d1 \<Longrightarrow> calm X d d2"
proof -
  assume i: "insert_proposal n k P_PROPOSED d1 = Inr d2" and c: "calm X d d1"
  have "granted d2 \<subseteq> granted d1"
    using i by (auto simp: insert_proposal_def granted_def find_proposal_def split: if_splits option.splits)
  with c show "calm X d d2" by (auto simp: calm_def)
qed

lemma find_proposal_update:
  assumes "\<And>p. p_id (f p) = p_id p"
  shows "find_proposal i (snd (update_proposal k s f d)) =
    map_option (\<lambda>p. if proposal_at k s p then f p else p) (find_proposal i d)"
  using assms by (simp add: find_proposal_def update_proposal_def select_one_update_where)

lemma calm_update:
  assumes c: "calm X d d1" and f: "\<And>p. p_id (f p) = p_id p" "\<And>p. p_revision (f p) = p_revision p"
      "\<And>p. p_action_hash (f p) = p_action_hash p"
    and ok: "s \<in> GRANTED \<or> (\<forall>p. p_status (f p) \<notin> GRANTED) \<or>
      (\<forall>p. find_proposal k d1 = Some p \<longrightarrow> (k, p_revision p, p_action_hash p) \<in> X)"
  shows "calm X d (snd (update_proposal k s f d1))"
proof -
  have "g \<in> granted d1 \<union> X" if "g \<in> granted (snd (update_proposal k s f d1))" for g
  proof -
    obtain i p q where g: "g = (i, p_revision p, p_action_hash p)" "p_status p \<in> GRANTED"
      and q: "find_proposal i d1 = Some q" "p = (if proposal_at k s q then f q else q)"
      using \<open>g \<in> granted _\<close> by (auto simp: granted_def find_proposal_update[OF f(1)])
    have i: "p_id q = i" using find_proposal_SomeD[OF q(1)] by simp
    show ?thesis
    proof (cases "proposal_at k s q \<and> s \<notin> GRANTED")
      case True
      then have "(k, p_revision q, p_action_hash q) \<in> X" using ok g(2) q i by (auto simp: proposal_at_def)
      with True g q f i show ?thesis by (simp add: proposal_at_def)
    next
      case False
      then have "p_status q \<in> GRANTED" using g(2) q by (auto simp: proposal_at_def split: if_splits)
      with g q f show ?thesis by (auto simp: granted_def)
    qed
  qed
  with c show ?thesis by (auto simp: calm_def)
qed

lemmas calm_intros = calm_refl calm_run calm_update

lemma create_or_get_run_body_calm: "create_or_get_run_body row e d = Inr (x, d') \<Longrightarrow> calm X d d'"
  by (auto simp: create_or_get_run_body_def bindE_Inr_iff split: if_splits option.splits
      elim!: calm_audit) (auto intro: calm_fields[OF calm_refl])

lemma transition_run_body_calm: "transition_run_body k s s' now tr reason actor pid d = Inr (x, d') \<Longrightarrow> calm X d d'"
  by (auto simp: transition_run_body_def Let_def case_prod_unfold bindE_Inr_iff split: if_splits
      intro!: calm_intros elim!: calm_audit)

lemma fail_run_body_calm: "fail_run_body k now actor reason d = Inr (x, d') \<Longrightarrow> calm X d d'"
  by (auto simp: fail_run_body_def Let_def case_prod_unfold bindE_Inr_iff split: if_splits option.splits
      intro!: calm_intros elim!: calm_audit)

lemma create_proposal_body_calm: "create_proposal_body n k P_PROPOSED now tr actor ms d = Inr (x, d') \<Longrightarrow> calm X d d'"
  by (auto simp: create_proposal_body_def Let_def case_prod_unfold bindE_Inr_iff split: if_splits
      intro!: calm_intros elim!: calm_audit calm_insert)

lemma expire_locked_calm: "expire_locked p r now actor reason d1 = Inr d2 \<Longrightarrow> calm X d d1 \<Longrightarrow> calm X d d2"
  by (auto simp: expire_locked_def Let_def case_prod_unfold bindE_Inr_iff split: if_splits
      intro!: calm_intros elim!: calm_audit)

lemma claim_body_calm: "claim_execution_body pid digest now actor d = Inr (x, d') \<Longrightarrow> calm X d d'"
  by (auto simp: claim_execution_body_def Let_def case_prod_unfold bindE_Inr_iff split: if_splits option.splits
      dest: expire_locked_calm[OF _ calm_refl] intro!: calm_intros elim!: calm_audit)

lemma finalize_body_calm: "finalize_execution_body pid success now actor m d = Inr (x, d') \<Longrightarrow> calm X d d'"
  by (auto simp: finalize_execution_body_def Let_def case_prod_unfold bindE_Inr_iff
      split: if_splits option.splits intro!: calm_intros elim!: calm_audit)

lemma revise_locked_calm: "revise_locked p r rv now actor n d = Inr (x, d') \<Longrightarrow> calm X d d'"
  by (auto simp: revise_locked_def Let_def case_prod_unfold bindE_Inr_iff split: if_splits option.splits
      intro!: calm_intros elim!: calm_audit calm_insert)

text \<open>A decision grants at most the proposal, the revision and the hash it names, and only to approve.\<close>

definition grant_of :: "string \<Rightarrow> int \<Rightarrow> string \<Rightarrow> decision \<Rightarrow> (string \<times> int \<times> string) set" where
  "grant_of pid rv digest dec = (if dec = APPROVE then {(pid, rv, digest)} else {})"

lemma settle_locked_calm:
  assumes "settle_locked p r rv digest dec now actor w d = Inr (x, d')" and "find_proposal (p_id p) d = Some p"
  shows "calm (grant_of (p_id p) (p_revision p) (p_action_hash p) dec) d d'"
  using assms
  by (auto simp: settle_locked_def Let_def case_prod_unfold bindE_Inr_iff grant_of_def split: if_splits
      intro!: calm_intros elim!: calm_audit)

lemma decide_body_calm:
  assumes "decide_proposal_body pid rv digest dec now actor w n d = Inr (x, d')"
  shows "calm (grant_of pid rv digest dec) d d'"
proof -
  obtain p where p: "find_proposal pid d = Some p"
    using assms by (auto simp: decide_proposal_body_def split: option.splits)
  then have pid: "p_id p = pid" using find_proposal_SomeD by blast
  show ?thesis
    using assms p settle_locked_calm[of p] unfolding pid
    by (auto simp: decide_proposal_body_def bindE_Inr_iff split: if_splits option.splits
        dest: revise_locked_calm expire_locked_calm[OF _ calm_refl])
qed

definition grants :: "(string \<times> int \<times> string) set \<Rightarrow> db \<times> 'w \<Rightarrow> db \<times> 'w \<Rightarrow> bool" where
  "grants X s t \<longleftrightarrow> calm X (fst s) (fst t)"

lemma grants_preorder: "reflp (grants X)" "transp (grants X)"
  by (auto simp: grants_def calm_def reflp_def transp_def)

lemma grants_store:
  assumes "\<And>d x d'. body d = Inr (x, d') \<Longrightarrow> calm X d d'"
  shows "keeps (grants X) (storeS (transaction body))"
  using assms by (auto simp: keeps_def grants_def storeS_def transaction_def split: prod.splits sum.splits)

lemma grants_world: "keeps (grants X) (worldS m)"
  by (auto simp: keeps_def grants_def worldS_def split: prod.splits)

lemma grants_operations:
  "keeps (grants X) (storeS (create_or_get_run row entry))"
  "keeps (grants X) (storeS (transition_run run_id from_state to_state now tr reason actor source))"
  "keeps (grants X) (storeS (fail_run run_id now actor reason))"
  "keeps (grants X) (storeS (create_proposal_and_transition n run_id P_PROPOSED now tr actor ms))"
  "keeps (grants X) (storeS (create_audit entry))"
  "keeps (grants X) (storeS (claim_execution pid digest now actor))"
  "keeps (grants X) (storeS (finalize_execution pid success now actor metadata))"
  "keeps (grants (grant_of pid rv digest dec)) (storeS (decide_proposal pid rv digest dec now actor wait new_proposal))"
  unfolding create_or_get_run_def transition_run_def fail_run_def create_proposal_and_transition_def create_audit_def
    claim_execution_def finalize_execution_def decide_proposal_def
  by (rule grants_store; auto simp: bindE_Inr_iff intro: create_or_get_run_body_calm transition_run_body_calm fail_run_body_calm
      create_proposal_body_calm claim_body_calm finalize_body_calm decide_body_calm calm_audit[OF _ calm_refl])+

lemma grants_binding: "keeps (grants X) (resolve_option_binding env sc k a)"
  unfolding resolve_option_binding_def
  by (cases "se_binding env") (auto intro: grants_world keeps_pure[OF grants_preorder(1)])

interpretation grants: executing_relation "grants X" env
  for X :: "(string \<times> int \<times> string) set" and env :: "'w service_env"
  by unfold_locales (simp_all add: grants_preorder grants_world grants_operations grants_binding nowS_def uuidS_def)

interpretation deciding: deciding_relation
    "grants (grant_of pid (dr_revision request) (dr_action_hash request) (dr_decision request))" env pid request
  for pid request and env :: "'w service_env"
  by unfold_locales (rule grants_operations)

end
