(* ===== verification/Tidy.thy ===== *)
theory Tidy
  imports Investigation Executor
begin

text \<open>
  What happens in a runtime sandbox stays in it: \<open>tends base\<close> relates two states of the files when, from a tidy sandbox
  at \<open>base\<close>, the change kept it tidy and touched nothing outside. The disposable site and the filesystem adapter
  establish it on every outcome, the creation of a runtime sandbox leads to a tidy one, and its removal leaves nothing.
\<close>

definition tidy :: "path \<Rightarrow> files \<Rightarrow> bool" where
  "tidy base f \<longleftrightarrow> files_ok f \<and> no_links f base \<and> link_free base f \<and> base \<noteq> [] \<and> (\<exists>u m. map_of f base = Some (Directory u m))"

definition tends :: "path \<Rightarrow> files \<Rightarrow> files \<Rightarrow> bool" where
  "tends base f f' \<longleftrightarrow> (tidy base f \<longrightarrow> tidy base f' \<and> same_outside base f f')"

lemma tends_preorder: "reflp (tends base)" "transp (tends base)"
  unfolding tends_def same_outside_def by (auto simp: reflp_def transp_def)

lemma tidy_below: "tidy base f \<Longrightarrow> prefix base p \<Longrightarrow> no_links f p"
  unfolding tidy_def using link_free_below by blast

section \<open>Single changes\<close>

lemma files_ok_put:
  assumes "files_ok f" and "p \<noteq> []" and "entry_at f (butlast p) = Some (Directory u m)"
    and "(\<exists>u m. e = Directory u m) \<or> (\<forall>u m. map_of f p \<noteq> Some (Directory u m))"
  shows "files_ok (put_entry p e f)"
proof -
  have keys: "set (map fst (put_entry p e f)) = insert p (set (map fst f))" by (auto simp: put_entry_def)
  have dist: "distinct (map fst (put_entry p e f))"
    using assms(1) unfolding files_ok_def put_entry_def by (auto simp: distinct_map inj_on_def)
  have "butlast q = [] \<or> (\<exists>u m. map_of (put_entry p e f) (butlast q) = Some (Directory u m))" if "q \<in> insert p (set (map fst f))" for q
  proof (cases "butlast q = p")
    case True
    then have "q \<noteq> p" using assms(2) by (metis append_butlast_last_id not_Cons_self2 same_append_eq append_Nil2)
    then have "q \<in> set (map fst f)" using that by simp
    then have "\<exists>u m. map_of f p = Some (Directory u m)" using assms(1,2) True unfolding files_ok_def by metis
    then show ?thesis using assms(4) True by auto
  next
    case False
    then show ?thesis using that assms(1,3) unfolding files_ok_def by (auto simp: entry_at_def split: if_splits)
  qed
  moreover have "q \<noteq> []" if "q \<in> insert p (set (map fst f))" for q using that assms(1,2) unfolding files_ok_def by auto
  ultimately show ?thesis unfolding files_ok_def keys using dist by blast
qed

lemma tends_put:
  assumes "tidy base f" and "prefix base p" and "p \<noteq> base" and "entry_at f (butlast p) = Some (Directory u m)"
    and "(\<exists>u m. e = Directory u m) \<or> (\<exists>s. e = Regular s) \<and> (\<forall>u m. map_of f p \<noteq> Some (Directory u m))"
  shows "tends base f (put_entry p e f)"
proof -
  have p: "p \<noteq> []" using assms(1,2) by (auto simp: tidy_def)
  have ok: "files_ok (put_entry p e f)" by (rule files_ok_put[OF _ p assms(4)]) (use assms(1,5) in \<open>auto simp: tidy_def\<close>)
  have new: "no_new_links f (put_entry p e f)" using assms(5) by (auto simp: no_new_links_def)
  have "no_links (put_entry p e f) base" "link_free base (put_entry p e f)"
    using no_links_mono[OF _ new] link_free_mono[OF _ new] assms(1) by (auto simp: tidy_def)
  then have "tidy base (put_entry p e f)" using ok assms(1,3) by (auto simp: tidy_def)
  then show ?thesis using same_outside_put[OF assms(2)] by (simp add: tends_def)
qed

lemma tends_remove:
  assumes "tidy base f" and "prefix base p" and "\<forall>u m. map_of f p \<noteq> Some (Directory u m)"
  shows "tends base f (filter (\<lambda>(q, _). q \<noteq> p) f)"
proof -
  let ?f = "filter (\<lambda>(q, _). q \<noteq> p) f"
  have p: "p \<noteq> []" using assms(1,2) by (auto simp: tidy_def)
  have keys: "set (map fst ?f) = set (map fst f) - {p}" by auto
  have "distinct (map fst f)" using assms(1) by (simp add: tidy_def files_ok_def)
  then have "distinct (map fst ?f)" by (auto simp: distinct_map inj_on_def)
  moreover have "q \<noteq> [] \<and> (butlast q = [] \<or> (\<exists>u m. map_of ?f (butlast q) = Some (Directory u m)))" if "q \<in> set (map fst f)" for q
  proof -
    from that assms(1) have "q \<noteq> []" "butlast q = [] \<or> (\<exists>u m. map_of f (butlast q) = Some (Directory u m))"
      unfolding tidy_def files_ok_def by blast+
    then show ?thesis using assms(3) by (auto simp: map_of_remove)
  qed
  ultimately have "files_ok ?f" unfolding files_ok_def keys by blast
  moreover have new: "no_new_links f ?f" by (auto simp: no_new_links_def map_of_remove)
  ultimately have "tidy base ?f"
    using assms(1,3) no_links_mono[OF _ new] link_free_mono[OF _ new] by (auto simp: tidy_def map_of_remove)
  then show ?thesis using assms(2) by (auto simp: tends_def same_outside_def map_of_remove)
qed

lemma tends_untidy: "(tidy base f \<Longrightarrow> tends base f f') \<Longrightarrow> tends base f f'"
  by (auto simp: tends_def)

lemma keeps_tends_change:
  assumes "\<And>f f'. tidy base f \<Longrightarrow> c f = Inr f' \<Longrightarrow> tends base f f'"
  shows "keeps (tends base) (changeS c)"
  unfolding changeS_def[abs_def] keeps_def
  using assms reflpD[OF tends_preorder(1)] by (auto simp: tends_def split: sum.splits)

lemma write_tends:
  assumes "prefix base p"
  shows "keeps (tends base) (changeS (write_text h p s))"
proof (rule keeps_tends_change)
  fix f f' assume t: "tidy base f" and w: "write_text h p s f = Inr f'"
  have r: "resolve f p = Some p" using resolve_plain[OF tidy_below[OF t assms]] .
  obtain u m where "entry_at f (butlast p) = Some (Directory u m)" "f' = put_entry p (Regular s) f"
    "\<forall>u m. entry_at f p \<noteq> Some (Directory u m)"
    using w r by (auto simp: write_text_def split: if_splits option.splits entry.splits)
  moreover from this t have "p \<noteq> base" by (auto simp: entry_at_def tidy_def)
  ultimately show "tends base f f'" using tends_put[OF t assms] by (auto simp: entry_at_def split: if_splits)
qed

lemma unlink_tends: "prefix base p \<Longrightarrow> keeps (tends base) (changeS (unlink h p))"
  by (rule keeps_tends_change) (auto simp: unlink_Inr intro!: tends_remove)

lemma mkdir_exist_ok_tends:
  assumes "prefix base p"
  shows "keeps (tends base) (mkdir_exist_ok h p)"
  unfolding mkdir_exist_ok_def
proof (rule keeps_tends_change)
  fix f f'
  assume t: "tidy base f" and "(if is_dir f p then Inr f else if lstat f p \<noteq> None then Inl OSError
      else case entry_at f (butlast p) of
         Some (Directory _ _) \<Rightarrow> if h_refuses h p then Inl OSError else Inr (put_entry p (Directory (h_euid h) (h_dir_mode h)) f)
       | _ \<Rightarrow> Inl OSError) = Inr f'"
  then consider "f' = f" | u m where "\<not> is_dir f p" "entry_at f (butlast p) = Some (Directory u m)"
      "f' = put_entry p (Directory (h_euid h) (h_dir_mode h)) f"
    by (auto split: if_splits option.splits entry.splits)
  then show "tends base f f'"
  proof cases
    case 2
    have "is_dir f base" using t by (auto simp: is_dir_def tidy_def stat_plain entry_at_def)
    then show ?thesis using tends_put[OF t assms _ 2(2)] 2 by auto
  qed (use reflpD[OF tends_preorder(1)] in simp)
qed

lemma mkdir_from_tends:
  assumes "prefix base (acc @ [c])" and "acc @ [c] \<noteq> base" and "\<exists>u m. entry_at f acc = Some (Directory u m)"
  shows "tends base f (snd (mkdir_from h acc (c # cs) f))"
  using assms
proof (induction cs arbitrary: acc c f)
  case Nil
  have put: "tidy base f \<Longrightarrow> tends base f (put_entry (acc @ [c]) (Directory (h_euid h) (h_dir_mode h)) f)"
    using tends_put[OF _ Nil.prems(1,2)] Nil.prems(3) by auto
  show ?case using tends_untidy[OF put] reflpD[OF tends_preorder(1)] by (auto split: option.splits entry.splits)
next
  case (Cons d cs)
  let ?f = "put_entry (acc @ [c]) (Directory (h_euid h) (h_dir_mode h)) f"
  have p: "prefix base ((acc @ [c]) @ [d])" using Cons.prems(1) by (rule prefix_prefix)
  have ne: "(acc @ [c]) @ [d] \<noteq> base" using Cons.prems(1,2) by (metis prefix_order.antisym prefixI)
  note ih = Cons.IH[OF p ne]
  have put: "tidy base f \<Longrightarrow> tends base f ?f" using tends_put[OF _ Cons.prems(1,2)] Cons.prems(3) by auto
  show ?case
  proof (cases "map_of f (acc @ [c])")
    case None
    have "tends base ?f (snd (mkdir_from h (acc @ [c]) (d # cs) ?f))" by (rule ih) (simp add: entry_at_def)
    from transpD[OF tends_preorder(2) tends_untidy[OF put] this] None show ?thesis
      using reflpD[OF tends_preorder(1)] by simp
  next
    case (Some e)
    then show ?thesis using ih[of f] reflpD[OF tends_preorder(1)] by (cases e) (auto simp: entry_at_def)
  qed
qed

lemma mkdir_parents_tends:
  assumes "prefix base p"
  shows "keeps (tends base) (mkdir_parents h p)"
  unfolding keeps_def
proof (rule allI, rule tends_untidy)
  fix f assume t: "tidy base f"
  then obtain u m where base: "map_of f base = Some (Directory u m)" and ok: "files_ok f" by (auto simp: tidy_def)
  obtain rest where rest: "p = base @ rest" using assms by (auto simp: prefix_def)
  have e: "mkdir_parents h p f = mkdir_from h base rest f" unfolding mkdir_parents_def rest by (rule mkdir_from_existing[OF ok base]) simp
  show "tends base f (snd (mkdir_parents h p f))"
  proof (cases rest)
    case (Cons c cs)
    show ?thesis unfolding e Cons by (rule mkdir_from_tends) (auto simp: base entry_at_def)
  qed (simp add: e reflpD[OF tends_preorder(1)])
qed

section \<open>The site and the filesystem adapter\<close>

lemma keeps_result:
  assumes "transp R" and "keeps R m" and "\<And>s x t. m s = (Inr x, t) \<Longrightarrow> keeps R (f x)"
  shows "keeps R (bindS m f)"
  unfolding keeps_def
proof
  fix s
  obtain r t where m: "m s = (r, t)" by (cases "m s")
  then have "R s t" using assms(2) by (metis keeps_def snd_conv)
  moreover have "R t (snd (f x t))" if "r = Inr x" for x using assms(3) m that by (simp add: keeps_def)
  ultimately show "R s (snd (bindS m f s))" using transpD[OF assms(1)] m by (cases r) (auto simp: bindS_def)
qed

lemma keeps_child:
  assumes "\<And>p. prefix (sb_root sb) p \<Longrightarrow> keeps (tends (sb_root sb)) (f p)"
  shows "keeps (tends (sb_root sb)) (bindS (readS (resolve_child h sb relative)) f)"
  by (rule keeps_result[OF tends_preorder(2) keeps_pure(3)[OF tends_preorder(1)]]) (auto intro: assms resolve_child_Inr(2))

lemma keeps_here: "(\<And>s0. keeps R (g s0)) \<Longrightarrow> keeps R (\<lambda>s. g s s)"
  by (simp add: keeps_def)

lemma keeps_if: "keeps R m \<Longrightarrow> keeps R m' \<Longrightarrow> keeps R (\<lambda>s. if P s then m s else m' s)"
  by (simp add: keeps_def)

lemmas tends_moves = keeps_pure[OF tends_preorder(1)] keeps_bind[OF tends_preorder(2)] keeps_catch[OF tends_preorder(2)]
  keeps_each[OF tends_preorder] keeps_child

lemma remove_matching_tends:
  assumes "list_all (prefix base) qs"
  shows "keeps (tends base) (remove_matching h exts qs n)"
proof -
  have "tends base f (snd (remove_matching h exts qs n f))" for f
    using assms
  proof (induction h exts qs n f rule: remove_matching.induct)
    case (2 h exts q qs n f)
    have "tends base f f'" if "unlink h q f = Inr f'" for f'
      using unlink_tends[of base q h] 2(3) that by (auto simp: keeps_def changeS_def dest!: spec[of _ f])
    with 2 show ?case
      using transpD[OF tends_preorder(2)] reflpD[OF tends_preorder(1)] by (auto split: sum.splits)
  qed (simp add: reflpD[OF tends_preorder(1)])
  then show ?thesis by (simp add: keeps_def)
qed

lemma remove_in_tends: "prefix base p \<Longrightarrow> keeps (tends base) (remove_in h exts p n)"
  using remove_matching_tends[OF iterdir_inside] by (simp add: keeps_def remove_in_def)

lemma storm_loop_tends: "keeps (tends (sb_root sb)) (storm_loop h sb roots n)"
proof (induction roots arbitrary: n)
  case (Cons x roots)
  obtain relative exts where "x = (relative, exts)" by (cases x)
  then show ?case by (simp only: storm_loop.simps) (intro keeps_child keeps_if tends_moves remove_in_tends Cons.IH)
qed (simp add: tends_moves)

lemma clear_marker_tends: "keeps (tends (sb_root sb)) (clear_marker h sb relative message)"
  unfolding clear_marker_def Let_def
proof (rule keeps_child)
  fix p assume p: "prefix (sb_root sb) p"
  have "keeps (tends (sb_root sb)) (bindS (if is_file f p then changeS (unlink h p) else returnS ())
      (\<lambda>_. returnS ((execution_succeeded message)\<lparr>xr_deleted_count := (if is_file f p then 1 else 0)\<rparr>)))" for f
    by (simp add: unlink_tends[OF p] tends_moves)
  then show "keeps (tends (sb_root sb)) (\<lambda>f. bindS (if is_file f p then changeS (unlink h p) else returnS ())
      (\<lambda>_. returnS ((execution_succeeded message)\<lparr>xr_deleted_count := (if is_file f p then 1 else 0)\<rparr>)) f)"
    by (simp add: keeps_def)
qed

lemma restart_tends: "keeps (tends (sb_root sb)) (restart_fixture h sb)"
  unfolding restart_fixture_def
  by (intro tends_moves mkdir_parents_tends keeps_if unlink_tends write_tends prefix_prefix; assumption)

lemma filesystem_execute_tends: "keeps (tends (sb_root sb)) (filesystem_execute h sb opt)"
  unfolding filesystem_execute_def filesystem_action_def cleanup_rotated_logs_def cleanup_log_storm_def
  by (auto simp del: storm_loop.simps
      intro!: tends_moves mkdir_parents_tends remove_in_tends clear_marker_tends storm_loop_tends restart_tends split: exn.split)

lemma site_lab_tends:
  "keeps (tends (sb_root sb)) (disk_exhaustion_lab h sb)" "keeps (tends (sb_root sb)) (causal_disk_exhaustion_lab h sb)"
  unfolding disk_exhaustion_lab_def causal_disk_exhaustion_lab_def
  by (auto intro!: tends_moves mkdir_exist_ok_tends write_tends prefix_prefix)

section \<open>Creation and removal\<close>

text \<open>The host leaves the sandbox at \<open>base\<close> to the process: it refuses nothing there, and none of its own directories is it.\<close>

definition leaves_alone :: "host \<Rightarrow> path \<Rightarrow> bool" where
  "leaves_alone h base \<longleftrightarrow> (\<forall>p. prefix base p \<longrightarrow> \<not> h_refuses h p) \<and> base \<notin> {h_home h, h_cwd h, h_package h}"

lemma fresh_below:
  assumes "files_ok f" and "map_of f base = None" and "base \<noteq> []" and "prefix base p"
  shows "map_of f p = None"
proof (rule ccontr)
  assume "map_of f p \<noteq> None"
  moreover from this have "p \<noteq> base" using assms(2) by auto
  ultimately show False using files_ok_ancestors[OF assms(1), of p base] assms(2-4) by (auto simp: strict_prefix_def)
qed

lemma remove_entries:
  assumes "\<forall>p \<in> set ps. \<not> h_refuses h p"
  shows "eachS (remove_entry h) ps f = (Inr (), filter (\<lambda>(q, _). q \<notin> set ps) f)"
  using assms
proof (induction ps arbitrary: f)
  case (Cons p ps)
  then have "remove_entry h p f = (Inr (), filter (\<lambda>(q, _). q \<noteq> p) f)" by (simp add: remove_entry_def changeS_def)
  with Cons show ?case by (simp add: bindS_def filter_filter case_prod_unfold conj_commute)
qed (simp add: returnS_def)

lemma remove_tree_eq:
  assumes "\<And>p. prefix base p \<Longrightarrow> \<not> h_refuses h p"
  shows "remove_tree h base f = (Inr (), filter (\<lambda>(q, _). \<not> prefix base q) f)"
proof -
  have "remove_tree h base f = (Inr (), filter (\<lambda>(q, _). q \<notin> set (filter (prefix base) (map fst f))) f)"
    unfolding remove_tree_def by (subst remove_entries) (use assms in \<open>auto\<close>)
  moreover have "filter (\<lambda>(q, _). q \<notin> set (filter (prefix base) (map fst f))) f = filter (\<lambda>(q, _). \<not> prefix base q) f"
    by (rule filter_cong) force+
  ultimately show ?thesis by (simp only:)
qed

lemma validate_fresh:
  assumes "tidy base f" and "map_of f base = Some (Directory (h_euid h) m)" and "map_of f (base @ [MARKER_NAME]) = Some (Regular token)"
    and "\<not> unsafe_root h base"
  shows "validate h \<lparr>sb_root = base, sb_token = token\<rparr> f = Inr ()"
proof -
  have n: "no_links f p" if "prefix base p" for p using tidy_below[OF assms(1) that] .
  have ne: "base \<noteq> []" using assms(1) by (simp add: tidy_def)
  note plain = n[of base, simplified] n[of "base @ [MARKER_NAME]", simplified]
  have none: "\<not> is_symlink f (take k base)" for k
    using no_links_prefix[OF plain(1) take_is_prefix[of k base]] plain(1)
    by (cases "take k base = []") (auto simp: is_symlink_def lstat_plain entry_at_def no_links_def split: option.splits entry.splits)
  have "stat f base = Some (Directory (h_euid h) m)" "stat f (base @ [MARKER_NAME]) = Some (Regular token)"
    using assms(2,3) ne by (simp_all add: stat_plain plain entry_at_def)
  moreover have "\<not> is_symlink f base" "\<not> is_symlink f (base @ [MARKER_NAME])"
    using none[of "length base"] assms(3) by (simp_all add: is_symlink_def[of f "base @ _"] lstat_plain plain entry_at_def)
  moreover have "\<not> contains_symlink f base" using none by (auto simp: contains_symlink_def list_ex_iff)
  ultimately show ?thesis
    using assms(4) by (simp add: validate_def Let_def path_exists_def is_dir_def resolve_plain plain owner_of_def marker_ok_def is_file_def)
qed

lemma create_runtime_outcome:
  assumes "files_ok f" and "no_links f (h_tmp h)" and "leaves_alone h (runtime_root h name)"
  shows "create_runtime h name token f = (Inl OSError, f) \<or>
    map_of f (runtime_root h name) = None \<and>
    (\<exists>f'. create_runtime h name token f = (Inr \<lparr>sb_root = runtime_root h name, sb_token = token\<rparr>, f') \<and>
       tidy (runtime_root h name) f' \<and> same_outside (runtime_root h name) f f')"
proof -
  define base where "base = runtime_root h name"
  let ?new = "\<lambda>f. if map_of f base \<noteq> None then Inl OSError else make_directory h base f"
  let ?dir = "Directory (h_euid h) 448" and ?marker = "base @ [MARKER_NAME]"
  have base: "base \<noteq> []" "butlast base = h_tmp h" by (simp_all add: base_def runtime_root_def)
  have allowed: "\<not> h_refuses h base" "\<not> h_refuses h ?marker" "\<not> unsafe_root h base"
    using assms(3) base by (auto simp: leaves_alone_def base_def[symmetric] unsafe_root_def)
      (metis append_butlast_last_id not_Cons_self2 self_append_conv)+
  show ?thesis
  proof (cases "map_of f base = None \<and> (\<exists>u m. entry_at f (h_tmp h) = Some (Directory u m))")
    case False
    then have "?new f = Inl OSError" by (auto simp: make_directory_def base split: option.splits entry.splits)
    then show ?thesis unfolding create_runtime_def Let_def base_def[symmetric] by (simp add: bindS_def changeS_def)
  next
    case True
    then obtain u m where tmp: "entry_at f (butlast base) = Some (Directory u m)" and fresh: "map_of f base = None" using base by auto
    let ?f1 = "put_entry base ?dir f"
    let ?f2 = "put_entry base ?dir ?f1"
    let ?f3 = "put_entry ?marker (Regular token) ?f2"
    have f1: "?new f = Inr ?f1" using tmp fresh allowed(1) by (simp add: make_directory_def)
    have new: "no_new_links f ?f2" by (simp add: no_new_links_def)
    have nl: "no_links f base" using assms(2) fresh base by (metis append_butlast_last_id no_links_snoc option.distinct(1))
    have "link_free base f" using fresh_below[OF assms(1) fresh base(1)] by (simp add: link_free_def)
    moreover have "files_ok ?f2"
    proof (rule files_ok_put[OF _ base(1)])
      show "files_ok ?f1" by (rule files_ok_put[OF assms(1) base(1) tmp]) simp
      have "butlast base \<noteq> base" using base(1) by (metis append_butlast_last_id not_Cons_self2 same_append_eq append_Nil2)
      then show "entry_at ?f1 (butlast base) = Some (Directory u m)" using tmp by (auto simp: entry_at_def split: if_splits)
    qed simp
    ultimately have t2: "tidy base ?f2" using no_links_mono[OF nl new] link_free_mono[OF _ new] base(1) by (auto simp: tidy_def)
    have c2: "chmod h base 448 ?f1 = Inr ?f2"
      using no_links_mono[OF nl, of ?f1] allowed(1) base(1) by (simp add: no_new_links_def chmod_def resolve_plain entry_at_def)
    have free: "map_of ?f2 ?marker = None" using fresh_below[OF assms(1) fresh base(1), of ?marker] by simp
    have r2: "resolve ?f2 ?marker = Some ?marker" using tidy_below[OF t2, of ?marker] by (simp add: resolve_plain)
    have w3: "write_text h ?marker token ?f2 = Inr ?f3"
      using r2 allowed(2) free base(1) by (simp add: write_text_def entry_at_def)
    have t3: "tidy base ?f3" "same_outside base ?f2 ?f3"
      using write_tends[of base ?marker h token] t2 w3 by (auto simp: keeps_def tends_def changeS_def dest!: spec[of _ ?f2])
    have r3: "resolve ?f3 ?marker = Some ?marker" using tidy_below[OF t3(1), of ?marker] by (simp add: resolve_plain)
    have c3: "chmod h ?marker 384 ?f3 = Inr ?f3" using r3 allowed(2) by (simp add: chmod_def entry_at_def)
    have v: "validate h \<lparr>sb_root = base, sb_token = token\<rparr> ?f3 = Inr ()"
      by (rule validate_fresh[OF t3(1) _ _ allowed(3)]) simp_all
    have "create_runtime h name token f = (Inr \<lparr>sb_root = base, sb_token = token\<rparr>, ?f3)"
      unfolding create_runtime_def Let_def base_def[symmetric] by (simp only: bindS_def changeS_def f1 c2 w3 c3 readS_def v sum.case prod.case returnS_def)
    moreover have "same_outside base f ?f3" using t3(2) by (auto simp: same_outside_def)
    ultimately show ?thesis using fresh t3(1) unfolding base_def[symmetric] by blast
  qed
qed

text \<open>
  Whatever the host refuses, creating a runtime sandbox touches nothing but its own directory, which did not exist, and
  the sandbox it returns is there. So the only effect of a process that makes and uses runtime sandboxes is
  \<open>sandboxes_added\<close>: new directories below the temporary directory, and what is in them.
\<close>

lemma chmod_tends:
  assumes "prefix base p"
  shows "keeps (tends base) (changeS (chmod h p m))"
proof (rule keeps_tends_change)
  fix f f' assume t: "tidy base f" and c: "chmod h p m f = Inr f'"
  have r: "resolve f p = Some p" using resolve_plain[OF tidy_below[OF t assms]] .
  have p: "p \<noteq> []" using t assms by (auto simp: tidy_def)
  consider "f' = f" | u m' where "map_of f p = Some (Directory u m')" "f' = put_entry p (Directory u m) f"
    using c r p by (auto simp: chmod_def entry_at_def split: if_splits option.splits entry.splits)
  then show "tends base f f'"
  proof cases
    case 2
    have ok: "files_ok f" using t by (simp add: tidy_def)
    have "p \<in> set (map fst f)" using 2(1) by (metis list.set_map map_of_eq_None_iff option.distinct(1))
    then obtain v n where "entry_at f (butlast p) = Some (Directory v n)"
      using ok unfolding files_ok_def by (cases "butlast p = []") (auto simp: entry_at_def)
    then have ok': "files_ok f'" unfolding 2(2) using files_ok_put[OF ok p] by blast
    have new: "no_new_links f f'" by (auto simp: 2(2) no_new_links_def)
    have "tidy base f'"
      using t ok' no_links_mono[OF _ new] link_free_mono[OF _ new] by (auto simp: tidy_def 2(2))
    then show ?thesis using same_outside_put[OF assms] by (simp add: tends_def 2(2))
  qed (use reflpD[OF tends_preorder(1)] in simp)
qed

definition sandboxes_added :: "host \<Rightarrow> files \<Rightarrow> files \<Rightarrow> bool" where
  "sandboxes_added h f f' \<longleftrightarrow> (files_ok f \<and> no_links f (h_tmp h) \<longrightarrow>
     files_ok f' \<and> no_links f' (h_tmp h) \<and>
     (\<forall>p. map_of f' p \<noteq> map_of f p \<longrightarrow> (\<exists>name. prefix (runtime_root h name) p \<and> map_of f (runtime_root h name) = None)))"

lemma sandboxes_added_preorder: "reflp (sandboxes_added h)" "transp (sandboxes_added h)"
proof -
  show "reflp (sandboxes_added h)" by (simp add: reflp_def sandboxes_added_def)
  have same: "name = name'" if "prefix (runtime_root h name) (runtime_root h name')" for name name'
    using that by (simp add: runtime_root_def prefix_def)
  show "transp (sandboxes_added h)"
    unfolding transp_def sandboxes_added_def using same by metis
qed

lemma tended_new_sandbox:
  assumes "map_of f (runtime_root h name) = None" and "tidy (runtime_root h name) f'" and "same_outside (runtime_root h name) f f'"
  shows "sandboxes_added h f f'"
proof -
  have "no_links f' (h_tmp h)"
    using no_links_prefix[of f' "runtime_root h name" "h_tmp h"] assms(2) by (simp add: tidy_def runtime_root_def)
  moreover have "\<exists>name. prefix (runtime_root h name) p \<and> map_of f (runtime_root h name) = None" if "map_of f' p \<noteq> map_of f p" for p
    using assms(1,3) that by (auto simp: same_outside_def)
  ultimately show ?thesis using assms(2) by (simp add: sandboxes_added_def tidy_def)
qed

lemma create_runtime_added:
  assumes "files_ok f" and "no_links f (h_tmp h)" and "create_runtime h name token f = (res, f')"
  shows "(f' = f \<and> (\<exists>e. res = Inl e)) \<or>
    map_of f (runtime_root h name) = None \<and> tidy (runtime_root h name) f' \<and> same_outside (runtime_root h name) f f' \<and>
    (\<forall>sb. res = Inr sb \<longrightarrow> sb_root sb = runtime_root h name)"
proof -
  define base where "base = runtime_root h name"
  let ?new = "\<lambda>f. if map_of f base \<noteq> None then Inl OSError else make_directory h base f"
  let ?rest = "\<lambda>_::unit. bindS (changeS (chmod h base 448)) (\<lambda>_. bindS (changeS (write_text h (base @ [MARKER_NAME]) token)) (\<lambda>_.
      bindS (changeS (chmod h (base @ [MARKER_NAME]) 384)) (\<lambda>_. bindS (readS (validate h \<lparr>sb_root = base, sb_token = token\<rparr>)) (\<lambda>_.
      returnS \<lparr>sb_root = base, sb_token = token\<rparr>))))"
  have run: "create_runtime h name token f = bindS (changeS ?new) ?rest f"
    unfolding create_runtime_def Let_def base_def[symmetric] by (rule refl)
  have base: "base \<noteq> []" "butlast base = h_tmp h" by (simp_all add: base_def runtime_root_def)
  show ?thesis
  proof (cases "?new f")
    case (Inl e)
    then have "create_runtime h name token f = (Inl e, f)" unfolding run by (simp only: bindS_def changeS_def sum.case prod.case)
    with assms(3) show ?thesis by auto
  next
    case (Inr f1)
    then obtain u m where fresh: "map_of f base = None" and tmp: "entry_at f (butlast base) = Some (Directory u m)"
      and f1: "f1 = put_entry base (Directory (h_euid h) 448) f"
      by (auto simp: make_directory_def split: if_splits option.splits entry.splits)
    have new: "no_new_links f f1" by (simp add: f1 no_new_links_def)
    have nl: "no_links f base" using assms(2) fresh base by (metis append_butlast_last_id no_links_snoc option.distinct(1))
    have "link_free base f" using fresh_below[OF assms(1) fresh base(1)] by (simp add: link_free_def)
    moreover have "files_ok f1" unfolding f1 by (rule files_ok_put[OF assms(1) base(1) tmp]) simp
    ultimately have t1: "tidy base f1" using no_links_mono[OF nl new] link_free_mono[OF _ new] base(1) by (auto simp: tidy_def f1)
    have out: "same_outside base f f1" by (auto simp: f1 same_outside_def)
    have "keeps (tends base) (?rest ())"
      by (intro tends_moves chmod_tends write_tends) simp_all
    moreover have r: "?rest () f1 = (res, f')"
      using assms(3) unfolding run bindS_def[of "changeS ?new"] changeS_def[of ?new] Inr by simp
    ultimately have "tends base f1 f'" unfolding keeps_def by (metis snd_conv)
    then have "tidy base f'" "same_outside base f f'"
      using t1 out transpD[OF same_outside_trans] by (auto simp: tends_def)
    moreover have "sb_root sb = base" if "res = Inr sb" for sb
      using r that by (auto simp: bindS_Inr_iff returnS_def)
    ultimately show ?thesis using fresh by (simp add: base_def)
  qed
qed

lemma create_and_tend_added:
  assumes "\<And>sb. keeps (tends (sb_root sb)) (m sb)"
  shows "sandboxes_added h f (snd (bindS (create_runtime h name token) m f))"
proof (cases "files_ok f \<and> no_links f (h_tmp h)")
  case True
  let ?base = "runtime_root h name"
  obtain res f1 where c: "create_runtime h name token f = (res, f1)" by (cases "create_runtime h name token f")
  have "f1 = f \<and> (\<exists>e. res = Inl e) \<or> map_of f ?base = None \<and> tidy ?base f1 \<and> same_outside ?base f f1 \<and> (\<forall>sb. res = Inr sb \<longrightarrow> sb_root sb = ?base)"
    using create_runtime_added[OF _ _ c] True by blast
  then show ?thesis
  proof (elim disjE conjE exE)
    fix e assume "f1 = f" "res = Inl e"
    then show ?thesis using c reflpD[OF sandboxes_added_preorder(1)] by (simp add: bindS_def)
  next
    assume new: "map_of f ?base = None" and t: "tidy ?base f1" and o: "same_outside ?base f f1" and sb: "\<forall>sb. res = Inr sb \<longrightarrow> sb_root sb = ?base"
    have "tidy ?base (snd (bindS (create_runtime h name token) m f)) \<and> same_outside ?base f (snd (bindS (create_runtime h name token) m f))"
    proof (cases res)
      case (Inr x)
      then have "tends ?base f1 (snd (m x f1))" using assms[of x] sb by (simp add: keeps_def)
      then show ?thesis using c t o Inr transpD[OF same_outside_trans] by (auto simp: bindS_def tends_def)
    qed (use c t o in \<open>simp add: bindS_def\<close>)
    then show ?thesis using tended_new_sandbox[OF new] by blast
  qed
qed (auto simp: sandboxes_added_def)

text \<open>So a runtime sandbox that is tended and removed leaves the files as they were.\<close>

lemma removed_restores:
  assumes "files_ok f" and "map_of f base = None" and "base \<noteq> []" and "same_outside base f f'" and "\<And>p. prefix base p \<Longrightarrow> \<not> h_refuses h p"
  shows "map_of (snd (remove_tree h base f')) = map_of f"
proof
  fix p
  have "map_of (filter (\<lambda>(q, _). \<not> prefix base q) f') p = (if prefix base p then None else map_of f' p)"
    by (induction f') auto
  then show "map_of (snd (remove_tree h base f')) p = map_of f p"
    using fresh_below[OF assms(1-3)] assms(4) by (simp add: remove_tree_eq[OF assms(5)] same_outside_def)
qed

end
