(* ===== verification/Workflow.thy ===== *)
theory Workflow
  imports Approvals Tidy
begin

text \<open>
  \<open>causal_workflow.py\<close>: the Studio workflow that investigates, waits for a human approval, executes and
  verifies, one disposable site per thread. The five nodes are actions on the trace and on the process:
  the files, the registry of thread runtimes and the rest of the world (clock, identifiers, names of
  temporary directories). LangGraph runs the nodes: it keeps the state a node returned, and a node that
  raised can be run again; an interrupted approval is run again with the answer of the reviewer. This is
  the labelled step relation at the end.
\<close>

section \<open>The runtimes of the threads\<close>

text \<open>The database file lies in the sandbox of the thread; nothing else opens it, so its contents are part of the runtime.\<close>

record thread_runtime =
  rt_sandbox :: sandbox
  rt_lab :: site_lab
  rt_database :: db

record 'x workshop =
  ws_files :: files
  ws_runtimes :: "(string \<times> thread_runtime) list"
  ws_rest :: 'x

record 'x workflow_env =
  wv_host :: host
  wv_now :: "'x \<Rightarrow> datetime \<times> 'x"
  wv_uuid :: "'x \<Rightarrow> string \<times> 'x"
  wv_temporary :: "'x \<Rightarrow> (string \<times> string) \<times> 'x"
  wv_agent :: "string list \<Rightarrow> string \<Rightarrow> investigation_result agent"
  wv_ttl :: nat
  wv_sha :: "string \<Rightarrow> string"
  wv_repr :: "rat \<Rightarrow> string"
  wv_time_json :: "observed \<Rightarrow> string"

definition filesW :: "(files, 'a) action \<Rightarrow> ('x workshop, 'a) action" where
  "filesW m w = (case m (ws_files w) of (r, f) \<Rightarrow> (r, w\<lparr>ws_files := f\<rparr>))"

definition restW :: "('x \<Rightarrow> 'a \<times> 'x) \<Rightarrow> 'x workshop \<Rightarrow> 'a \<times> 'x workshop" where
  "restW g w = (case g (ws_rest w) of (y, x) \<Rightarrow> (y, w\<lparr>ws_rest := x\<rparr>))"

definition create_thread :: "'x workflow_env \<Rightarrow> string \<Rightarrow> ('x workshop, thread_runtime) action" where
  "create_thread env thread =
     bindS (\<lambda>w. case restW (wv_temporary env) w of (names, w') \<Rightarrow> (Inr names, w')) (\<lambda>(name, token).
     bindS (filesW (create_runtime (wv_host env) name token)) (\<lambda>sb.
     bindS (filesW (causal_disk_exhaustion_lab (wv_host env) sb)) (\<lambda>site.
     (\<lambda>w. let rt = \<lparr>rt_sandbox = sb, rt_lab = site, rt_database = empty_db\<rparr> in
        (Inr rt, w\<lparr>ws_runtimes := AList.update thread rt (ws_runtimes w)\<rparr>)))))"

definition for_thread :: "'x workflow_env \<Rightarrow> string \<Rightarrow> ('x workshop, thread_runtime) action" where
  "for_thread env thread w =
     (case map_of (ws_runtimes w) thread of Some rt \<Rightarrow> (Inr rt, w) | None \<Rightarrow> create_thread env thread w)"

definition close_registry :: "'x workflow_env \<Rightarrow> ('x workshop, unit) action" where
  "close_registry env w =
     eachS (\<lambda>(thread, rt). filesW (remove_tree (wv_host env) (sb_root (rt_sandbox rt)))) (ws_runtimes w)
       (w\<lparr>ws_runtimes := []\<rparr>)"

definition causal_target :: "'x workflow_env \<Rightarrow> string \<Rightarrow> 'x workshop diagnostic_target" where
  "causal_target env thread =
     (let h = wv_host env; site = (\<lambda>oper. bindS (for_thread env thread) (\<lambda>rt. filesW (oper rt))) in
      \<lparr>dt_health = site (\<lambda>rt. site_check_health h (rt_sandbox rt)),
       dt_resources = site (\<lambda>rt. site_inspect_resources h (rt_sandbox rt) (rt_lab rt)),
       dt_logs = site (\<lambda>rt. site_inspect_recent_logs),
       dt_changes = site (\<lambda>rt. site_inspect_recent_changes (rt_lab rt))\<rparr>)"

text \<open>The identifier of the thread in the configuration of a run.\<close>

definition thread_id :: "string option \<Rightarrow> exn + string" where
  "thread_id configured =
     (case configured of
        None \<Rightarrow> Inl (ValueError ''causal workflow requires a thread_id'')
      | Some t \<Rightarrow> if t = [] then Inl (ValueError ''causal workflow requires a thread_id'') else Inr t)"

section \<open>The service of a thread\<close>

definition thread_service ::
    "'x workflow_env \<Rightarrow> thread_runtime \<Rightarrow> telemetry_evidence \<Rightarrow> investigation_result \<Rightarrow> 'x workshop service_env" where
  "thread_service env rt evidence r =
     \<lparr>se_now = restW (wv_now env), se_uuid = restW (wv_uuid env), se_collect = fixed_collect evidence,
      se_analyze = investigation_analyze r,
      se_execute = (\<lambda>opt. filesW (filesystem_execute (wv_host env) (rt_sandbox rt) opt)),
      se_binding = None, se_ttl = wv_ttl env, se_execution_enabled = True, se_sha = wv_sha env,
      se_repr = wv_repr env, se_time_json = wv_time_json env\<rparr>"

definition on_database ::
    "string \<Rightarrow> thread_runtime \<Rightarrow> (db \<times> 'x workshop, 'a) action \<Rightarrow> ('x workshop, 'a) action" where
  "on_database thread rt m w =
     (case m (rt_database rt, w) of (r, (d, w')) \<Rightarrow>
        (r, w'\<lparr>ws_runtimes := AList.update thread (rt\<lparr>rt_database := d\<rparr>) (ws_runtimes w')\<rparr>))"

text \<open>\<open>service_for\<close>, the use of the service and its \<open>close\<close>, which keeps the sandbox.\<close>

definition with_service ::
    "'x workflow_env \<Rightarrow> string \<Rightarrow> investigation_result \<Rightarrow> ('x workshop service_env \<Rightarrow> (db \<times> 'x workshop, 'a) action)
       \<Rightarrow> ('x workshop, 'a) action"
where
  "with_service env thread r body =
     bindS (for_thread env thread) (\<lambda>rt.
     bindS (readS (\<lambda>w. resolve_child (wv_host env) (rt_sandbox rt) ''studio-workflow.sqlite3'' (ws_files w))) (\<lambda>_.
     bindS (readS (\<lambda>_. lab_telemetry_for (rt_lab rt) r)) (\<lambda>evidence.
     on_database thread rt (body (thread_service env rt evidence r)))))"

section \<open>The nodes\<close>

record workflow_state =
  st_messages :: "string list"
  st_investigation :: "investigation_result option"
  st_tool_calls :: "string list option"
  st_run_id :: "string option"
  st_proposal :: "proposal_view option"
  st_decision :: "decision option"
  st_execution :: "run_state option"
  st_verification :: "diagnostic_observation option"

record approval_resume =
  ar_decision :: decision
  ar_proposal_id :: string
  ar_revision :: int
  ar_action_hash :: string

definition valid_resume :: "approval_resume \<Rightarrow> bool" where
  "valid_resume a \<longleftrightarrow> ar_decision a \<noteq> REVISE \<and> ar_proposal_id a \<noteq> [] \<and> 1 \<le> ar_revision a \<and> length (ar_action_hash a) = 64"

text \<open>\<open>state[key]\<close>; the diagnosis in the state is the dump of a record and is validated when it is read.\<close>

definition required :: "string \<Rightarrow> 'a option \<Rightarrow> exn + 'a" where
  "required key v = (case v of None \<Rightarrow> Inl (KeyError key) | Some x \<Rightarrow> Inr x)"

definition state_diagnosis :: "workflow_state \<Rightarrow> exn + investigation_result" where
  "state_diagnosis st = bindE (required ''investigation'' (st_investigation st)) check_investigation"

type_synonym 'x node_action = "(trace \<times> 'x workshop, workflow_state) action"

definition investigate_node :: "'x workflow_env \<Rightarrow> string option \<Rightarrow> workflow_state \<Rightarrow> 'x node_action" where
  "investigate_node env config st =
     bindS (readS (\<lambda>_. thread_id config)) (\<lambda>thread.
     bindS (run_agent (diagnostic_tool (causal_target env thread) thread) (wv_agent env (st_messages st) thread)) (\<lambda>response.
     readS (\<lambda>(tr, w). bindE (validate_investigation_result response thread tr) (\<lambda>r.
       Inr (st\<lparr>st_investigation := Some r, st_tool_calls := Some (tool_calls_for thread tr)\<rparr>)))))"

definition STUDIO_ACTOR :: string where "STUDIO_ACTOR = ''studio-causal-workflow''"

definition studio_event :: "string \<Rightarrow> datetime \<Rightarrow> investigation_result \<Rightarrow> event_request" where
  "studio_event thread now r =
     \<lparr>ev_idempotency_key = ''studio:'' @ thread, ev_source = LOCAL_SIMULATION,
      ev_observed_at = \<lparr>local_time = now, utcoffset = Some 0\<rparr>, ev_event_type = ''incident.detected'',
      ev_payload = \<lparr>pl_scenario = ir_scenario r, pl_summary = Some ''multi-signal investigation completed'',
        pl_log_lines = [], pl_context = []\<rparr>, ev_trace_id = None\<rparr>"

definition submit_diagnosis ::
    "'x workflow_env \<Rightarrow> string \<Rightarrow> investigation_result \<Rightarrow> workflow_state \<Rightarrow> 'x workshop service_env
       \<Rightarrow> (db \<times> 'x workshop, workflow_state) action"
where
  "submit_diagnosis env thread r st service =
     bindS (nowS service) (\<lambda>now.
     bindS (readS (\<lambda>_. check_event (wv_time_json env) (wv_repr env) (studio_event thread now r))) (\<lambda>event.
     bindS (start_event service event STUDIO_ACTOR) (\<lambda>run.
     bindS (if rv_duplicate run then returnS ()
            else bindS (readS (\<lambda>_. required ''tool_calls'' (st_tool_calls st)))
                   (\<lambda>calls. record_diagnostic_tools service (rv_id run) calls STUDIO_ACTOR)) (\<lambda>_.
     readS (\<lambda>_. case rv_proposal run of
         None \<Rightarrow> Inl (ValueError ''investigation did not produce a proposal'')
       | Some p \<Rightarrow> Inr (st\<lparr>st_run_id := Some (rv_id run), st_proposal := Some p\<rparr>))))))"

definition proposal_node :: "'x workflow_env \<Rightarrow> string option \<Rightarrow> workflow_state \<Rightarrow> 'x node_action" where
  "proposal_node env config st =
     bindS (readS (\<lambda>_. thread_id config)) (\<lambda>thread.
     bindS (readS (\<lambda>_. state_diagnosis st)) (\<lambda>r.
     worldT (with_service env thread r (submit_diagnosis env thread r st))))"

definition REVIEWER :: string where "REVIEWER = ''studio-human-reviewer''"

text \<open>The part of the approval after the interrupt returned the answer of the reviewer.\<close>

definition resume_matches :: "approval_resume \<Rightarrow> proposal_view \<Rightarrow> bool" where
  "resume_matches a p \<longleftrightarrow>
     ar_proposal_id a = pv_id p \<and> ar_revision a = pv_revision p \<and> ar_action_hash a = pv_action_hash p"

definition decide_resumed ::
    "approval_resume \<Rightarrow> workflow_state \<Rightarrow> 'x workshop service_env \<Rightarrow> (db \<times> 'x workshop, workflow_state) action" where
  "decide_resumed a st service =
     bindS (readS (\<lambda>_. required ''run_id'' (st_run_id st))) (\<lambda>run_id.
     bindS (get_runS run_id False) (\<lambda>run.
     bindS (if rv_state run = (if ar_decision a = APPROVE then APPROVED else REJECTED) then returnS ()
            else bindS (decide service (ar_proposal_id a)
                   \<lparr>dr_decision = ar_decision a, dr_revision = ar_revision a, dr_action_hash = ar_action_hash a, dr_note = None\<rparr>
                   REVIEWER) (\<lambda>_. returnS ())) (\<lambda>_.
     returnS (st\<lparr>st_decision := Some (ar_decision a)\<rparr>))))"

definition approval_node :: "'x workflow_env \<Rightarrow> string option \<Rightarrow> approval_resume \<Rightarrow> workflow_state \<Rightarrow> 'x node_action" where
  "approval_node env config a st =
     bindS (readS (\<lambda>_. required ''proposal'' (st_proposal st))) (\<lambda>p.
     bindS (readS (\<lambda>_. if valid_resume a then Inr () else Inl ValidationError)) (\<lambda>_.
     bindS (readS (\<lambda>_. if resume_matches a p then Inr ()
                        else Inl (ValueError ''approval does not match the immutable proposal''))) (\<lambda>_.
     bindS (readS (\<lambda>_. state_diagnosis st)) (\<lambda>r.
     bindS (readS (\<lambda>_. thread_id config)) (\<lambda>thread.
     worldT (with_service env thread r (decide_resumed a st)))))))"

definition execute_approved :: "workflow_state \<Rightarrow> 'x workshop service_env \<Rightarrow> (db \<times> 'x workshop, workflow_state) action" where
  "execute_approved st service =
     bindS (readS (\<lambda>_. required ''run_id'' (st_run_id st))) (\<lambda>run_id.
     bindS (get_runS run_id False) (\<lambda>run.
     if rv_state run = SUCCEEDED then returnS (st\<lparr>st_execution := Some SUCCEEDED\<rparr>)
     else if rv_state run \<noteq> APPROVED
     then raiseS (ValueError (''proposal cannot execute from '' @ run_state_value (rv_state run)))
     else
       bindS (readS (\<lambda>_. required ''proposal'' (st_proposal st))) (\<lambda>p.
       bindS (execute service (pv_id p) STUDIO_ACTOR) (\<lambda>completed.
       returnS (st\<lparr>st_execution := Some (rv_state completed)\<rparr>)))))"

definition execute_node :: "'x workflow_env \<Rightarrow> string option \<Rightarrow> workflow_state \<Rightarrow> 'x node_action" where
  "execute_node env config st =
     bindS (readS (\<lambda>_. state_diagnosis st)) (\<lambda>r.
     bindS (readS (\<lambda>_. thread_id config)) (\<lambda>thread.
     worldT (with_service env thread r (execute_approved st))))"

text \<open>\<open>observation.measurements["status_code"] == 200\<close>.\<close>

definition reports_healthy :: "diagnostic_observation \<Rightarrow> exn + bool" where
  "reports_healthy ob = bindE (required ''status_code'' (map_of (dg_measurements ob) ''status_code'')) (\<lambda>v. Inr (v = JInt 200))"

definition record_verification ::
    "bool \<Rightarrow> workflow_state \<Rightarrow> 'x workshop service_env \<Rightarrow> (db \<times> 'x workshop, unit) action" where
  "record_verification healthy st service =
     bindS (readS (\<lambda>_. required ''run_id'' (st_run_id st))) (\<lambda>run_id.
     bindS (get_runS run_id False) (\<lambda>run.
     if list_ex (\<lambda>a. av_event_type a = ''recovery_verified'') (rv_audit run) then returnS ()
     else
       bindS (readS (\<lambda>_. required ''proposal'' (st_proposal st))) (\<lambda>p.
       record_recovery_verification service (rv_id run) (pv_id p) healthy STUDIO_ACTOR)))"

definition verify_node :: "'x workflow_env \<Rightarrow> string option \<Rightarrow> workflow_state \<Rightarrow> 'x node_action" where
  "verify_node env config st =
     bindS (readS (\<lambda>_. thread_id config)) (\<lambda>thread.
     bindS (worldT (for_thread env thread)) (\<lambda>rt.
     bindS (worldT (filesW (site_check_health (wv_host env) (rt_sandbox rt)))) (\<lambda>ob.
     bindS (readS (\<lambda>_. reports_healthy ob)) (\<lambda>healthy.
     bindS (readS (\<lambda>_. state_diagnosis st)) (\<lambda>r.
     bindS (worldT (with_service env thread r (record_verification healthy st))) (\<lambda>_.
     returnS (st\<lparr>st_verification := Some ob\<rparr>)))))))"

section \<open>The graph\<close>

datatype node = Investigate | Build_immutable_proposal | Human_approval | Execute_approved_action | Verify_recovery | END

definition next_node :: "node \<Rightarrow> workflow_state \<Rightarrow> node" where
  "next_node n st =
     (case n of
        Investigate \<Rightarrow> Build_immutable_proposal
      | Build_immutable_proposal \<Rightarrow> Human_approval
      | Human_approval \<Rightarrow> (if st_decision st = Some APPROVE then Execute_approved_action else END)
      | Execute_approved_action \<Rightarrow> Verify_recovery
      | _ \<Rightarrow> END)"

definition run_node :: "'x workflow_env \<Rightarrow> string \<Rightarrow> node \<Rightarrow> workflow_state \<Rightarrow> 'x node_action" where
  "run_node env thread n st =
     (case n of
        Investigate \<Rightarrow> investigate_node env (Some thread) st
      | Build_immutable_proposal \<Rightarrow> proposal_node env (Some thread) st
      | Execute_approved_action \<Rightarrow> execute_node env (Some thread) st
      | Verify_recovery \<Rightarrow> verify_node env (Some thread) st
      | _ \<Rightarrow> returnS st)"

record thread_state =
  th_node :: node
  th_state :: workflow_state

record 'x studio =
  sd_threads :: "string \<Rightarrow> thread_state"
  sd_trace :: trace
  sd_workshop :: "'x workshop"

datatype label = Invoked string "string list" | Ran string node | Resumed string approval_resume | Closed

definition empty_state :: workflow_state where
  "empty_state = \<lparr>st_messages = [], st_investigation = None, st_tool_calls = None, st_run_id = None, st_proposal = None,
     st_decision = None, st_execution = None, st_verification = None\<rparr>"

text \<open>A node that returned moves on; one that raised stays, with what it changed in the process.\<close>

definition settle :: "string \<Rightarrow> node \<Rightarrow> (exn + workflow_state) \<times> trace \<times> 'x workshop \<Rightarrow> 'x studio \<Rightarrow> 'x studio" where
  "settle thread n outcome s =
     (case outcome of (r, (tr, w)) \<Rightarrow>
        \<lparr>sd_threads = (case r of Inl _ \<Rightarrow> sd_threads s
           | Inr st \<Rightarrow> (sd_threads s)(thread := \<lparr>th_node = next_node n st, th_state = st\<rparr>)),
         sd_trace = tr, sd_workshop = w\<rparr>)"

text \<open>
  A run can be started on a thread at any time; its state persists. \<open>Closed\<close> is the exit handler, after
  which the checkpoints remain and the runtimes are gone.
\<close>

inductive studio_step :: "'x workflow_env \<Rightarrow> label \<Rightarrow> 'x studio \<Rightarrow> 'x studio \<Rightarrow> bool" for env where
  invoke: "th = sd_threads s thread \<Longrightarrow>
    studio_step env (Invoked thread msgs) s
      (s\<lparr>sd_threads := (sd_threads s)(thread :=
         \<lparr>th_node = Investigate, th_state = (th_state th)\<lparr>st_messages := st_messages (th_state th) @ msgs\<rparr>\<rparr>)\<rparr>)"
| run: "n = th_node (sd_threads s thread) \<Longrightarrow> n \<notin> {Human_approval, END} \<Longrightarrow>
    run_node env thread n (th_state (sd_threads s thread)) (sd_trace s, sd_workshop s) = outcome \<Longrightarrow>
    studio_step env (Ran thread n) s (settle thread n outcome s)"
| resume: "th_node (sd_threads s thread) = Human_approval \<Longrightarrow>
    approval_node env (Some thread) a (th_state (sd_threads s thread)) (sd_trace s, sd_workshop s) = outcome \<Longrightarrow>
    studio_step env (Resumed thread a) s (settle thread Human_approval outcome s)"
| closing: "studio_step env Closed s (s\<lparr>sd_workshop := snd (close_registry env (sd_workshop s))\<rparr>)"

definition new_studio :: "files \<Rightarrow> 'x \<Rightarrow> 'x studio" where
  "new_studio f x = \<lparr>sd_threads = (\<lambda>_. \<lparr>th_node = END, th_state = empty_state\<rparr>), sd_trace = [],
     sd_workshop = \<lparr>ws_files = f, ws_runtimes = [], ws_rest = x\<rparr>\<rparr>"

text \<open>The histories of a process, with their labels in order.\<close>

inductive history :: "'x workflow_env \<Rightarrow> label list \<Rightarrow> 'x studio \<Rightarrow> bool" for env where
  fresh: "history env [] (new_studio f x)"
| more: "history env ls s \<Longrightarrow> studio_step env l s t \<Longrightarrow> history env (ls @ [l]) t"

section \<open>What the nodes leave alone\<close>

text \<open>The registry does not change under a service, and without its executor neither do the files.\<close>

definition same_runtimes :: "db \<times> 'x workshop \<Rightarrow> db \<times> 'x workshop \<Rightarrow> bool" where
  "same_runtimes s t \<longleftrightarrow> ws_runtimes (snd t) = ws_runtimes (snd s)"

definition same_files :: "db \<times> 'x workshop \<Rightarrow> db \<times> 'x workshop \<Rightarrow> bool" where
  "same_files s t \<longleftrightarrow> ws_files (snd t) = ws_files (snd s)"

lemma same_preorder: "reflp same_runtimes" "transp same_runtimes" "reflp same_files" "transp same_files"
  by (simp_all add: same_runtimes_def same_files_def reflp_def transp_def)

lemma same_store: "keeps same_runtimes (storeS oper)" "keeps same_files (storeS oper)"
  by (simp_all add: keeps_def same_runtimes_def same_files_def storeS_def split: prod.splits)

lemma same_clock:
  "keeps same_runtimes (nowS (thread_service env rt ev r))" "keeps same_runtimes (uuidS (thread_service env rt ev r))"
  "keeps same_files (nowS (thread_service env rt ev r))" "keeps same_files (uuidS (thread_service env rt ev r))"
  by (simp_all add: keeps_def same_runtimes_def same_files_def nowS_def uuidS_def worldS_def thread_service_def restW_def
      split: prod.splits)

lemma same_collaborators:
  "keeps same_runtimes (worldS (fixed_collect ev e))" "keeps same_files (worldS (fixed_collect ev e))"
  "keeps same_runtimes (worldS (investigation_analyze r ev' note))" "keeps same_files (worldS (investigation_analyze r ev' note))"
  "keeps same_runtimes (worldS (filesW m))"
  by (simp_all add: keeps_def same_runtimes_def same_files_def worldS_def fixed_collect_def investigation_analyze_def filesW_def
      split: prod.splits)

lemma thread_service_fields [simp]:
  "se_collect (thread_service env rt ev r) = fixed_collect ev" "se_analyze (thread_service env rt ev r) = investigation_analyze r"
  "se_binding (thread_service env rt ev r) = None"
  "se_execute (thread_service env rt ev r) = (\<lambda>opt. filesW (filesystem_execute (wv_host env) (rt_sandbox rt) opt))"
  by (simp_all add: thread_service_def)

interpretation runtimes: executing_relation same_runtimes "thread_service env rt ev r"
  for env :: "'x workflow_env" and rt ev r
  by unfold_locales (simp_all add: same_preorder same_store same_clock same_collaborators resolve_option_binding_def
      keeps_pure[OF same_preorder(1)])

interpretation runtimes_decision: deciding_relation same_runtimes "thread_service env rt ev r" pid request
  for env :: "'x workflow_env" and rt ev r pid request
  by unfold_locales (rule same_store)

interpretation files: deciding_relation same_files "thread_service env rt ev r" pid request
  for env :: "'x workflow_env" and rt ev r pid request
  by unfold_locales (simp_all add: same_preorder same_store same_clock same_collaborators resolve_option_binding_def
      keeps_pure[OF same_preorder(3)])

lemma same_idle:
  "uuidS (sv\<lparr>se_execute := f\<rparr>) = uuidS sv" "keeps same_files (worldS (raiseS e))"
  by (rule ext) (simp_all add: uuidS_def keeps_def same_files_def worldS_def)

interpretation idle: executing_relation same_files "(thread_service env rt ev r)\<lparr>se_execute := \<lambda>opt. raiseS OSError\<rparr>"
  for env :: "'x workflow_env" and rt ev r
  by unfold_locales (simp_all add: same_preorder same_store same_clock same_collaborators resolve_option_binding_def
      keeps_pure[OF same_preorder(3)] same_idle)

text \<open>So an execution that changes files found its proposal approved.\<close>

lemma execute_changes_approved:
  assumes "execute (thread_service env rt ev r) pid actor (d, w) = (res, (d', w'))" and "ws_files w' \<noteq> ws_files w"
  shows "\<exists>p. find_proposal pid d = Some p \<and> p_status p = P_APPROVED"
proof (rule ccontr)
  assume "\<nexists>p. find_proposal pid d = Some p \<and> p_status p = P_APPROVED"
  then have "execute ((thread_service env rt ev r)\<lparr>se_execute := \<lambda>opt. raiseS OSError\<rparr>) pid actor (d, w) =
      execute (thread_service env rt ev r) pid actor (d, w)"
    by (intro execute_only_approved) blast
  moreover have "same_files (d, w) (snd (execute ((thread_service env rt ev r)\<lparr>se_execute := \<lambda>opt. raiseS OSError\<rparr>) pid actor (d, w)))"
    using idle.execute_keeps[of env rt ev r pid actor] unfolding keeps_def by blast
  ultimately show False using assms by (simp add: same_files_def)
qed

section \<open>Nodes and runtimes\<close>

text \<open>
  \<open>leaves thread\<close>: the runtime of the thread stays and no file changes, if there is one. \<open>permits X\<close>: in
  the database of each thread \<open>t\<close> nothing was granted but what \<open>X t\<close> holds.
\<close>

definition leaves :: "string \<Rightarrow> 'x workshop \<Rightarrow> 'x workshop \<Rightarrow> bool" where
  "leaves thread w w' \<longleftrightarrow> (map_of (ws_runtimes w) thread \<noteq> None \<longrightarrow>
     map_of (ws_runtimes w') thread \<noteq> None \<and> ws_files w' = ws_files w)"

definition grants_of :: "string \<Rightarrow> 'x workshop \<Rightarrow> (string \<times> int \<times> string) set" where
  "grants_of t w = (case map_of (ws_runtimes w) t of None \<Rightarrow> {} | Some rt \<Rightarrow> granted (rt_database rt))"

definition permits :: "(string \<Rightarrow> (string \<times> int \<times> string) set) \<Rightarrow> 'x workshop \<Rightarrow> 'x workshop \<Rightarrow> bool" where
  "permits X w w' \<longleftrightarrow> (\<forall>t. grants_of t w' \<subseteq> X t \<union> grants_of t w)"

definition beside :: "('w \<Rightarrow> 'w \<Rightarrow> bool) \<Rightarrow> 'tr \<times> 'w \<Rightarrow> 'tr \<times> 'w \<Rightarrow> bool" where
  "beside R s t \<longleftrightarrow> R (snd s) (snd t)"

lemma workshop_preorder:
  "reflp (leaves thread)" "transp (leaves thread)" "reflp (permits X)" "transp (permits X)"
  by (auto simp: leaves_def permits_def reflp_def transp_def)

lemma beside_preorder: "reflp R \<Longrightarrow> reflp (beside R)" "transp R \<Longrightarrow> transp (beside R)"
  unfolding beside_def reflp_def transp_def by blast+

lemma keeps_worldT: "keeps R m \<Longrightarrow> keeps (beside R) (worldT m)"
  by (auto simp: keeps_def beside_def worldT_def split: prod.splits) (metis snd_conv)

lemma keeps_agent:
  assumes "reflp R" and "transp R" and "\<And>name args. keeps R (tools name args)"
  shows "keeps R (run_agent tools ag)"
  unfolding keeps_def
proof
  fix s
  show "R s (snd (run_agent tools ag s))"
    by (rule run_agent_keeps[of "R s"]) (use assms in \<open>auto simp: keeps_def reflp_def transp_def\<close>)
qed

lemma keeps_tool:
  assumes "reflp R" and "keeps R (dt_health target)" "keeps R (dt_resources target)" "keeps R (dt_logs target)"
    "keeps R (dt_changes target)"
  shows "keeps (beside R) (diagnostic_tool target thread name args)"
  unfolding keeps_def
proof
  fix s :: "trace \<times> 'a"
  obtain tr w where s: "s = (tr, w)" by (cases s)
  show "beside R s (snd (diagnostic_tool target thread name args s))"
  proof (cases "map_of (diagnostic_operations target) name")
    case None
    then show ?thesis using assms(1) by (simp add: diagnostic_tool_def beside_def reflpD)
  next
    case (Some oper)
    have "keeps R oper" using map_of_SomeD[OF Some] assms(2-5) by (auto simp: diagnostic_operations_def)
    then have "R w (snd (oper w))" by (simp add: keeps_def)
    then show ?thesis using Some by (auto simp: s diagnostic_tool_def beside_def split: prod.splits sum.splits)
  qed
qed

lemma filesW_runtimes: "filesW m w = (r, w') \<Longrightarrow> ws_runtimes w' = ws_runtimes w"
  by (auto simp: filesW_def split: prod.splits)

lemma restW_runtimes: "restW g w = (y, w') \<Longrightarrow> ws_runtimes w' = ws_runtimes w \<and> ws_files w' = ws_files w"
  by (auto simp: restW_def split: prod.splits)

lemma keeps_filesW:
  "keeps (permits X) (filesW m)" "keeps (leaves thread) (filesW (readS g))"
  by (simp_all add: keeps_def permits_def leaves_def grants_of_def filesW_def split: prod.splits)

lemma create_thread_permits: "keeps (permits X) (create_thread env thread)"
proof -
  have names: "keeps (permits X) (\<lambda>w. case restW (wv_temporary env) w of (names, w') \<Rightarrow> (Inr names, w'))"
    by (auto simp: keeps_def permits_def grants_of_def dest: restW_runtimes split: prod.splits)
  have add: "keeps (permits X) (\<lambda>w. let rt = \<lparr>rt_sandbox = sb, rt_lab = site, rt_database = empty_db\<rparr> in
      (Inr rt, w\<lparr>ws_runtimes := AList.update thread rt (ws_runtimes w)\<rparr>))" for sb site
    by (auto simp: keeps_def permits_def grants_of_def update_conv' Let_def)
  show ?thesis
    unfolding create_thread_def case_prod_unfold
    by (intro keeps_bind[OF workshop_preorder(4)] keeps_filesW names[unfolded case_prod_unfold] add)
qed

lemma for_thread_keeps: "keeps (leaves thread) (for_thread env thread)" "keeps (permits X) (for_thread env thread)"
  using create_thread_permits[of X env thread]
  by (auto simp: keeps_def for_thread_def leaves_def permits_def split: option.splits)

lemma for_thread_Inr:
  assumes "for_thread env thread w = (Inr rt, w')"
  shows "map_of (ws_runtimes w') thread = Some rt"
  using assms by (auto simp: for_thread_def create_thread_def bindS_Inr_iff Let_def update_conv' split: option.splits prod.splits)

lemma causal_target_keeps:
  assumes "reflp R" "transp R" "keeps R (for_thread env thread)" "\<And>g :: files \<Rightarrow> exn + diagnostic_observation. keeps R (filesW (readS g))"
  shows "keeps (beside R) (diagnostic_tool (causal_target env thread) key name args)"
  by (rule keeps_tool) (auto intro!: keeps_bind[OF assms(2)] assms simp: causal_target_def Let_def site_check_health_def
      site_inspect_resources_def site_inspect_recent_logs_def site_inspect_recent_changes_def)

lemma with_service_cases:
  assumes "with_service env thread r body w = (res, w')"
  obtains e where "res = Inl e" "snd (for_thread env thread w) = w'"
  | rt ev w1 d w2 where "for_thread env thread w = (Inr rt, w1)" "body (thread_service env rt ev r) (rt_database rt, w1) = (res, (d, w2))"
      "w' = w2\<lparr>ws_runtimes := AList.update thread (rt\<lparr>rt_database := d\<rparr>) (ws_runtimes w2)\<rparr>"
  using assms
  by (auto simp: with_service_def bindS_def on_database_def split: prod.splits sum.splits)

lemma with_service_permits:
  assumes "\<And>rt ev. keeps (grants (X thread)) (body (thread_service env rt ev r))"
    and "\<And>rt ev. keeps same_runtimes (body (thread_service env rt ev r))"
  shows "keeps (permits X) (with_service env thread r body)"
  unfolding keeps_def
proof
  fix w
  obtain res w' where w: "with_service env thread r body w = (res, w')" by (cases "with_service env thread r body w")
  have f: "permits X w (snd (for_thread env thread w))" using for_thread_keeps(2) by (auto simp: keeps_def)
  show "permits X w (snd (with_service env thread r body w))"
    using w
  proof (cases rule: with_service_cases)
    case (2 rt ev w1 d w2)
    then have "granted d \<subseteq> granted (rt_database rt) \<union> X thread" "ws_runtimes w2 = ws_runtimes w1"
      using assms[of rt ev] unfolding keeps_def grants_def calm_def same_runtimes_def by (metis fst_conv snd_conv)+
    then have "permits X w1 w'"
      using 2(3) for_thread_Inr[OF 2(1)] by (auto simp: permits_def grants_of_def update_conv')
    then show ?thesis using f 2(1) w workshop_preorder(4) by (auto dest: transpD)
  qed (use f w in simp)
qed

lemma with_service_leaves:
  assumes "\<And>rt ev. keeps same_files (body (thread_service env rt ev r))"
  shows "keeps (leaves thread) (with_service env thread r body)"
  unfolding keeps_def
proof
  fix w
  obtain res w' where w: "with_service env thread r body w = (res, w')" by (cases "with_service env thread r body w")
  have f: "leaves thread w (snd (for_thread env thread w))" using for_thread_keeps(1) by (auto simp: keeps_def)
  show "leaves thread w (snd (with_service env thread r body w))"
    using w
  proof (cases rule: with_service_cases)
    case (2 rt ev w1 d w2)
    then have "ws_files w2 = ws_files w1"
      using assms[of rt ev] unfolding keeps_def same_files_def by (metis snd_conv)
    then show ?thesis using f 2(1,3) w by (auto simp: leaves_def update_conv')
  qed (use f w in simp)
qed

text \<open>
  \<open>creates h\<close>: the files change by new sandboxes only. It holds of every node of a thread that has no runtime yet, and of
  every node but the execution for all threads.
\<close>

definition creates :: "host \<Rightarrow> 'x workshop \<Rightarrow> 'x workshop \<Rightarrow> bool" where
  "creates h w w' \<longleftrightarrow> sandboxes_added h (ws_files w) (ws_files w')"

lemma creates_preorder: "reflp (creates h)" "transp (creates h)"
  unfolding creates_def reflp_def transp_def using reflpD[OF sandboxes_added_preorder(1)] transpD[OF sandboxes_added_preorder(2)] by blast+

lemma keeps_filesW_creates: "keeps (creates h) (filesW (readS g))"
  using reflpD[OF sandboxes_added_preorder(1)] by (simp add: keeps_def creates_def filesW_def)

lemma create_thread_creates: "keeps (creates (wv_host env)) (create_thread env thread)"
  unfolding keeps_def
proof
  fix w :: "'a workshop"
  obtain name token x where x: "wv_temporary env (ws_rest w) = ((name, token), x)" by (metis surj_pair)
  have "ws_files (snd (create_thread env thread w)) =
      snd (bindS (create_runtime (wv_host env) name token) (causal_disk_exhaustion_lab (wv_host env)) (ws_files w))"
    by (simp add: create_thread_def restW_def x bindS_def filesW_def Let_def split: prod.split sum.split)
  then show "creates (wv_host env) w (snd (create_thread env thread w))"
    using create_and_tend_added[OF site_lab_tends(2)] by (simp add: creates_def)
qed

lemma for_thread_creates: "keeps (creates (wv_host env)) (for_thread env thread)"
  using create_thread_creates[of env thread]
  unfolding keeps_def for_thread_def by (auto split: option.split intro: reflpD[OF creates_preorder(1)])

lemma with_service_creates:
  assumes "\<And>rt ev w1. for_thread env thread w = (Inr rt, w1) \<Longrightarrow>
    ws_files (snd (snd (body (thread_service env rt ev r) (rt_database rt, w1)))) = ws_files w1"
  shows "creates (wv_host env) w (snd (with_service env thread r body w))"
proof -
  obtain res w' where w: "with_service env thread r body w = (res, w')" by (cases "with_service env thread r body w")
  have f: "creates (wv_host env) w (snd (for_thread env thread w))" using for_thread_creates by (auto simp: keeps_def)
  show ?thesis
    using w
  proof (cases rule: with_service_cases)
    case (2 rt ev w1 d w2)
    then show ?thesis using f w assms[OF 2(1), of ev] by (auto simp: creates_def)
  qed (use f w in simp)
qed

lemma with_service_keeps_creates:
  assumes "\<And>rt ev. keeps same_files (body (thread_service env rt ev r))"
  shows "keeps (creates (wv_host env)) (with_service env thread r body)"
  unfolding keeps_def
  by (intro allI with_service_creates) (use assms in \<open>auto simp: keeps_def same_files_def\<close>)

lemma beside_moves:
  assumes "reflp R" and "transp R"
  shows "keeps (beside R) (readS g)" "keeps (beside R) (returnS x)"
    "keeps (beside R) m \<Longrightarrow> (\<And>y. keeps (beside R) (f y)) \<Longrightarrow> keeps (beside R) (bindS m f)"
    "keeps (beside R) (h thread) \<Longrightarrow> keeps (beside R) (bindS (readS (\<lambda>_. thread_id (Some thread))) h)"
proof -
  note r = beside_preorder(1)[OF assms(1)] beside_preorder(2)[OF assms(2)]
  show "keeps (beside R) (readS g)" "keeps (beside R) (returnS x)" by (rule keeps_pure[OF r(1)])+
  show "keeps (beside R) m \<Longrightarrow> (\<And>y. keeps (beside R) (f y)) \<Longrightarrow> keeps (beside R) (bindS m f)" by (rule keeps_bind[OF r(2)])
  show "keeps (beside R) (h thread) \<Longrightarrow> keeps (beside R) (bindS (readS (\<lambda>_. thread_id (Some thread))) h)"
    using reflpD[OF r(1)] by (auto simp: keeps_def bindS_def thread_id_def)
qed

lemmas leaves_moves = beside_moves[OF workshop_preorder(1,2)] keeps_worldT[OF for_thread_keeps(1)]
  keeps_worldT[OF with_service_leaves] keeps_worldT[OF keeps_filesW(2)]
lemmas permits_moves = beside_moves[OF workshop_preorder(3,4)] keeps_worldT[OF for_thread_keeps(2)]
  keeps_worldT[OF with_service_permits] keeps_worldT[OF keeps_filesW(1)]

lemmas creates_moves = beside_moves[OF creates_preorder] keeps_worldT[OF for_thread_creates]
  keeps_worldT[OF with_service_keeps_creates] keeps_worldT[OF keeps_filesW_creates]

lemma submit_keeps:
  "keeps (grants {}) (submit_diagnosis env thread r st sv)"
  "keeps same_runtimes (submit_diagnosis env thread r st (thread_service env rt ev r'))"
  "keeps same_files (submit_diagnosis env thread r st (thread_service env rt ev r'))"
  unfolding submit_diagnosis_def
  by (auto intro!: grants.moves grants.start_keeps grants.records_keep)
    (auto intro!: runtimes.moves runtimes.start_keeps runtimes.records_keep files.moves files.start_keeps files.records_keep)

lemma decide_resumed_grants:
  "keeps (grants (grant_of (ar_proposal_id a) (ar_revision a) (ar_action_hash a) (ar_decision a))) (decide_resumed a st sv)"
proof -
  let ?request = "\<lparr>dr_decision = ar_decision a, dr_revision = ar_revision a, dr_action_hash = ar_action_hash a, dr_note = None\<rparr>"
  have "keeps (grants (grant_of (ar_proposal_id a) (ar_revision a) (ar_action_hash a) (ar_decision a)))
      (decide sv (ar_proposal_id a) ?request REVIEWER)"
    using deciding.decide_keeps[of "ar_proposal_id a" ?request sv REVIEWER] by simp
  then show ?thesis
    unfolding decide_resumed_def by (intro grants.moves grants.get_run_keeps) (auto intro!: grants.moves)
qed

lemma decide_resumed_keeps:
  "keeps same_runtimes (decide_resumed a st (thread_service env rt ev r))"
  "keeps same_files (decide_resumed a st (thread_service env rt ev r))"
  unfolding decide_resumed_def
  by (auto intro!: runtimes.moves runtimes.get_run_keeps runtimes_decision.decide_keeps
      files.moves files.get_run_keeps files.decide_keeps)

lemma execute_approved_keeps:
  "keeps (grants {}) (execute_approved st sv)"
  "keeps same_runtimes (execute_approved st (thread_service env rt ev r))"
  unfolding execute_approved_def
  by (auto intro!: grants.moves grants.get_run_keeps grants.execute_keeps)
    (auto intro!: runtimes.moves runtimes.get_run_keeps runtimes.execute_keeps)

lemma record_verification_keeps:
  "keeps (grants {}) (record_verification healthy st sv)"
  "keeps same_runtimes (record_verification healthy st (thread_service env rt ev r))"
  "keeps same_files (record_verification healthy st (thread_service env rt ev r))"
  unfolding record_verification_def
  by (auto intro!: grants.moves grants.get_run_keeps grants.records_keep)
    (auto intro!: runtimes.moves runtimes.get_run_keeps runtimes.records_keep files.moves files.get_run_keeps files.records_keep)

text \<open>Every node but the execution leaves the files of its thread; a node permits what its resume approves.\<close>

definition resume_grants :: "string \<Rightarrow> approval_resume \<Rightarrow> string \<Rightarrow> (string \<times> int \<times> string) set" where
  "resume_grants thread a t = (if t = thread then grant_of (ar_proposal_id a) (ar_revision a) (ar_action_hash a) (ar_decision a) else {})"

lemma agent_keeps:
  assumes "reflp R" "transp R" "keeps R (for_thread env thread)" "\<And>g :: files \<Rightarrow> exn + diagnostic_observation. keeps R (filesW (readS g))"
  shows "keeps (beside R) (run_agent (diagnostic_tool (causal_target env thread) thread) ag)"
  by (intro keeps_agent beside_preorder causal_target_keeps assms)

lemmas agent_leaves = agent_keeps[OF workshop_preorder(1,2) for_thread_keeps(1) keeps_filesW(2)]
lemmas agent_permits = agent_keeps[OF workshop_preorder(3,4) for_thread_keeps(2) keeps_filesW(1)]
lemmas agent_creates = agent_keeps[OF creates_preorder for_thread_creates keeps_filesW_creates]

lemma nodes_leave:
  "keeps (beside (leaves thread)) (investigate_node env (Some thread) st)"
  "keeps (beside (leaves thread)) (proposal_node env (Some thread) st)"
  "keeps (beside (leaves thread)) (approval_node env (Some thread) a st)"
  "keeps (beside (leaves thread)) (verify_node env (Some thread) st)"
  unfolding investigate_node_def proposal_node_def approval_node_def verify_node_def site_check_health_def
  by (intro leaves_moves agent_leaves submit_keeps decide_resumed_keeps record_verification_keeps)+

lemma nodes_create:
  "keeps (beside (creates (wv_host env))) (investigate_node env (Some thread) st)"
  "keeps (beside (creates (wv_host env))) (proposal_node env (Some thread) st)"
  "keeps (beside (creates (wv_host env))) (approval_node env (Some thread) a st)"
  "keeps (beside (creates (wv_host env))) (verify_node env (Some thread) st)"
  unfolding investigate_node_def proposal_node_def approval_node_def verify_node_def site_check_health_def
  by (intro creates_moves agent_creates submit_keeps decide_resumed_keeps record_verification_keeps)+

lemma nodes_permit:
  "keeps (beside (permits (\<lambda>_. {}))) (run_node env thread n st)"
  "keeps (beside (permits (resume_grants thread a))) (approval_node env (Some thread) a st)"
proof -
  show "keeps (beside (permits (\<lambda>_. {}))) (run_node env thread n st)"
    unfolding run_node_def investigate_node_def proposal_node_def execute_node_def verify_node_def
    by (cases n; simp; intro permits_moves agent_permits submit_keeps execute_approved_keeps record_verification_keeps)
  have "keeps (grants (resume_grants thread a thread)) (decide_resumed a st sv)" for sv
    using decide_resumed_grants[of a st sv] by (simp add: resume_grants_def)
  then show "keeps (beside (permits (resume_grants thread a))) (approval_node env (Some thread) a st)"
    unfolding approval_node_def by (intro permits_moves decide_resumed_keeps)
qed

section \<open>Approval before execution\<close>

text \<open>What the reviewers of a thread approved along a history.\<close>

definition approvals :: "label list \<Rightarrow> string \<Rightarrow> (string \<times> int \<times> string) set" where
  "approvals ls thread = {(ar_proposal_id a, ar_revision a, ar_action_hash a) |a. Resumed thread a \<in> set ls \<and> ar_decision a = APPROVE}"

lemma settle_workshop: "sd_workshop (settle thread n outcome s) = snd (snd outcome)"
  by (simp add: settle_def split: prod.splits)

lemma close_registry_runtimes: "ws_runtimes (snd (close_registry env w)) = []"
proof -
  have "ws_runtimes (snd (eachS (\<lambda>(thread, rt). filesW (g thread rt)) xs v)) = ws_runtimes v"
    for xs :: "(string \<times> thread_runtime) list" and g and v :: "'a workshop"
    by (induction xs arbitrary: v) (auto simp: bindS_def filesW_runtimes split: prod.splits sum.splits)
  then show ?thesis by (simp add: close_registry_def)
qed

lemma step_permits:
  assumes "studio_step env l s t"
  shows "permits (approvals [l]) (sd_workshop s) (sd_workshop t)"
  using assms
proof cases
  case (run n thread outcome)
  then have "permits (\<lambda>_. {}) (sd_workshop s) (sd_workshop t)"
    using nodes_permit(1)[of env thread n "th_state (sd_threads s thread)"]
    by (auto simp: keeps_def beside_def settle_workshop dest!: spec[of _ "(sd_trace s, sd_workshop s)"])
  then show ?thesis by (auto simp: permits_def)
next
  case (resume thread a outcome)
  then have "permits (resume_grants thread a) (sd_workshop s) (sd_workshop t)"
    using nodes_permit(2)[of thread a env "th_state (sd_threads s thread)"]
    by (auto simp: keeps_def beside_def settle_workshop dest!: spec[of _ "(sd_trace s, sd_workshop s)"])
  moreover have "resume_grants thread a u \<subseteq> approvals [l] u" for u
    using resume(1) by (auto simp: resume_grants_def grant_of_def approvals_def)
  ultimately show ?thesis by (fastforce simp: permits_def)
next
  case closing
  then have "ws_runtimes (sd_workshop t) = []" by (simp add: close_registry_runtimes)
  then show ?thesis by (simp add: permits_def grants_of_def)
qed (simp add: permits_def)

lemma history_grants: "history env ls s \<Longrightarrow> grants_of thread (sd_workshop s) \<subseteq> approvals ls thread"
proof (induction rule: history.induct)
  case (fresh f x)
  then show ?case by (simp add: new_studio_def grants_of_def)
next
  case (more ls s l t)
  then show ?case using step_permits[OF more.hyps(2)] by (fastforce simp: permits_def approvals_def)
qed

lemma execute_approved_changes:
  assumes "execute_approved st (thread_service env rt ev r) (d, w) = (res, (d', w'))" and "ws_files w' \<noteq> ws_files w"
  shows "\<exists>pid p. find_proposal pid d = Some p \<and> p_status p = P_APPROVED"
proof -
  have "\<exists>pid res. execute (thread_service env rt ev r) pid STUDIO_ACTOR (d, w) = (res, (d', w'))"
    using assms by (auto simp: execute_approved_def bindS_def get_runS_def split: sum.splits if_splits prod.splits)
  then show ?thesis using execute_changes_approved assms(2) by blast
qed

lemma execute_node_changes:
  assumes "execute_node env (Some thread) st (tr, w) = (res, (tr', w'))" and "map_of (ws_runtimes w) thread = Some rt"
    and "ws_files w' \<noteq> ws_files w"
  shows "\<exists>pid p. find_proposal pid (rt_database rt) = Some p \<and> p_status p = P_APPROVED"
proof -
  have ft: "for_thread env thread w = (Inr rt, w)" using assms(2) by (simp add: for_thread_def)
  obtain r res2 where r: "with_service env thread r (execute_approved st) w = (res2, w')"
    using assms(1,3) by (auto simp: execute_node_def bindS_def thread_id_def worldT_def split: sum.splits if_splits prod.splits)
  then show ?thesis
  proof (cases rule: with_service_cases)
    case (2 rt' ev w1 d w2)
    then have "execute_approved st (thread_service env rt ev r) (rt_database rt, w) = (res2, (d, w2))" "ws_files w2 \<noteq> ws_files w"
      using ft assms(3) by auto
    then show ?thesis by (rule execute_approved_changes)
  qed (use ft assms(3) in simp)
qed

text \<open>A runtime that the execution itself creates has an empty database, so nothing of it is approved.\<close>

lemma for_thread_new:
  assumes "for_thread env thread w = (Inr rt, w')" and "map_of (ws_runtimes w) thread = None"
  shows "rt_database rt = empty_db"
  using assms by (auto simp: for_thread_def create_thread_def bindS_Inr_iff Let_def split: prod.splits)

lemma execute_node_creates:
  assumes "map_of (ws_runtimes w) thread = None"
  shows "creates (wv_host env) w (snd (snd (execute_node env (Some thread) st (tr, w))))"
proof -
  have "creates (wv_host env) w (snd (with_service env thread r (execute_approved st) w))" for r
  proof (rule with_service_creates)
    fix rt ev w1 assume "for_thread env thread w = (Inr rt, w1)"
    then have empty: "find_proposal pid (rt_database rt) = None" for pid
      using for_thread_new[of env thread w rt w1] assms by (simp add: empty_db_def find_proposal_def)
    obtain res d' w' where x: "execute_approved st (thread_service env rt ev r) (rt_database rt, w1) = (res, (d', w'))"
      by (metis surj_pair)
    show "ws_files (snd (snd (execute_approved st (thread_service env rt ev r) (rt_database rt, w1)))) = ws_files w1"
      using execute_approved_changes[OF x] empty x by auto
  qed
  then show ?thesis
    using reflpD[OF creates_preorder(1)]
    by (auto simp: execute_node_def bindS_def thread_id_def worldT_def split: sum.splits prod.splits) (metis snd_conv)
qed

lemma leaves_files:
  "keeps (beside (leaves thread)) m \<Longrightarrow> map_of (ws_runtimes w) thread \<noteq> None \<Longrightarrow> ws_files (snd (snd (m (tr, w)))) = ws_files w"
  by (auto simp: keeps_def beside_def leaves_def dest!: spec[of _ tr])

primrec label_thread :: "label \<Rightarrow> string option" where
  "label_thread (Invoked thread msgs) = Some thread"
| "label_thread (Ran thread n) = Some thread"
| "label_thread (Resumed thread a) = Some thread"
| "label_thread Closed = None"

lemma changed_files_approved:
  assumes "history env ls s" and "studio_step env l s t" and "label_thread l = Some thread"
    and "map_of (ws_runtimes (sd_workshop s)) thread = Some rt"
    and "ws_files (sd_workshop t) \<noteq> ws_files (sd_workshop s)"
  shows "l = Ran thread Execute_approved_action \<and>
    (\<exists>a p. Resumed thread a \<in> set ls \<and> ar_decision a = APPROVE \<and> find_proposal (ar_proposal_id a) (rt_database rt) = Some p \<and>
       p_status p = P_APPROVED \<and> ar_revision a = p_revision p \<and> ar_action_hash a = p_action_hash p)"
proof -
  have there: "map_of (ws_runtimes (sd_workshop s)) thread \<noteq> None" using assms(4) by simp
  have "l = Ran thread Execute_approved_action \<and> (\<exists>pid p. find_proposal pid (rt_database rt) = Some p \<and> p_status p = P_APPROVED)"
    using assms(2)
  proof cases
    case (run n u outcome)
    then have u: "u = thread" using assms(3) by simp
    have n: "n = Execute_approved_action"
      using run(2,4,5) assms(5) nodes_leave[THEN leaves_files, OF there] unfolding u
      by (cases n) (auto simp: run_node_def settle_workshop)
    obtain res tr' w' where "outcome = (res, (tr', w'))" by (cases outcome)
    then have "execute_node env (Some thread) (th_state (sd_threads s thread)) (sd_trace s, sd_workshop s) = (res, (tr', w'))"
      "w' = sd_workshop t"
      using run n u by (simp_all add: run_node_def settle_workshop)
    then show ?thesis using execute_node_changes assms(4,5) run(1) n u by metis
  next
    case (resume u a outcome)
    then show ?thesis using nodes_leave(3)[THEN leaves_files, OF there] assms(3,5) by (auto simp: settle_workshop)
  qed (use assms(3,5) in auto)
  then obtain pid p where l: "l = Ran thread Execute_approved_action"
    and p: "find_proposal pid (rt_database rt) = Some p" "p_status p = P_APPROVED" by blast
  then have "(pid, p_revision p, p_action_hash p) \<in> approvals ls thread"
    using history_grants[OF assms(1), of thread] assms(4) by (auto simp: grants_of_def granted_def)
  with l p show ?thesis by (auto simp: approvals_def)
qed

lemma without_runtime_creates:
  assumes "studio_step env l s t" and "label_thread l = Some thread" and "map_of (ws_runtimes (sd_workshop s)) thread = None"
  shows "creates (wv_host env) (sd_workshop s) (sd_workshop t)"
proof -
  have node: "creates (wv_host env) w (snd (snd (m (tr, w))))" if "keeps (beside (creates (wv_host env))) m"
    for m :: "'a node_action" and tr w
    using that by (auto simp: keeps_def beside_def dest!: spec[of _ tr])
  show ?thesis
    using assms(1)
  proof cases
    case (run n u outcome)
    then show ?thesis
      using assms(2,3)
      by (cases n) (auto simp: run_node_def settle_workshop intro: execute_node_creates node nodes_create)
  next
    case (resume u a outcome)
    then show ?thesis using node[OF nodes_create(3)] assms(2) by (auto simp: settle_workshop)
  qed (use assms(2) reflpD[OF creates_preorder(1)] in auto)
qed


definition demo_host :: host where
  "demo_host = \<lparr>h_tmp = [''tmp''], h_home = [''home''], h_cwd = [''cwd''], h_package = [''pkg''], h_euid = 1, h_dir_mode = 493,
     h_refuses = (\<lambda>_. False)\<rparr>"

definition demo_diagnosis :: investigation_result where
  "demo_diagnosis = \<lparr>ir_scenario = DISK_EXHAUSTION, ir_severity = ''high'', ir_confidence = 1,
     ir_evidence_refs = [''health-1''], ir_action_id = ''cleanup_rotated_logs'', ir_explanation = ''full''\<rparr>"

definition demo_workflow :: "nat workflow_env" where
  "demo_workflow = \<lparr>wv_host = demo_host, wv_now = (\<lambda>n. (sample_time 5 0, n)), wv_uuid = (\<lambda>n. (''u'' @ replicate n CHR ''1'', Suc n)),
     wv_temporary = (\<lambda>n. ((''a'', ''t''), n)),
     wv_agent = (\<lambda>msgs thread. Call ''check_site_health'' JNull (\<lambda>_. Answer demo_diagnosis)),
     wv_ttl = 900, wv_sha = (\<lambda>_. replicate 64 CHR ''x''), wv_repr = fraction_text, wv_time_json = (\<lambda>_. [])\<rparr>"

definition demo_files :: files where
  "demo_files = [([''tmp''], Directory 1 493)]"

definition demo_investigated :: "(exn + workflow_state) \<times> trace \<times> nat workshop" where
  "demo_investigated = run_node demo_workflow ''t'' Investigate empty_state ([], \<lparr>ws_files = demo_files, ws_runtimes = [], ws_rest = 0\<rparr>)"

lemma demo_investigates:
  "case demo_investigated of (r, tr, w) \<Rightarrow> is_ok r \<and> map_of (ws_runtimes w) ''t'' \<noteq> None"
  by code_simp

lemma demo_investigation:
  obtains st tr w rt where "demo_investigated = (Inr st, (tr, w))" "map_of (ws_runtimes w) ''t'' = Some rt"
  using demo_investigates by (auto simp: is_ok_iff split: prod.splits)

text \<open>A thread before and after its investigation.\<close>

lemma demo_history:
  obtains s0 s rt where "history demo_workflow [Invoked ''t'' []] s0" "ws_files (sd_workshop s0) = demo_files"
    "map_of (ws_runtimes (sd_workshop s0)) ''t'' = None" "studio_step demo_workflow (Ran ''t'' Investigate) s0 s"
    "history demo_workflow [Invoked ''t'' [], Ran ''t'' Investigate] s"
    "th_node (sd_threads s ''t'') = Build_immutable_proposal" "map_of (ws_runtimes (sd_workshop s)) ''t'' = Some rt"
proof -
  obtain st tr w rt where d: "demo_investigated = (Inr st, (tr, w))" "map_of (ws_runtimes w) ''t'' = Some rt"
    by (rule demo_investigation)
  let ?s0 = "new_studio demo_files 0 :: nat studio"
  define s1 where "s1 = ?s0\<lparr>sd_threads := (sd_threads ?s0)(''t'' := \<lparr>th_node = Investigate, th_state = empty_state\<rparr>)\<rparr>"
  have "studio_step demo_workflow (Invoked ''t'' []) ?s0 s1"
    using studio_step.invoke[of _ ?s0 "''t''" demo_workflow "[]"] by (simp add: s1_def new_studio_def empty_state_def)
  then have h1: "history demo_workflow [Invoked ''t'' []] s1"
    using history.more[OF history.fresh, of demo_workflow _ demo_files 0 s1] by simp
  have "run_node demo_workflow ''t'' Investigate (th_state (sd_threads s1 ''t'')) (sd_trace s1, sd_workshop s1) = demo_investigated"
    by (simp add: demo_investigated_def s1_def new_studio_def)
  then have step: "studio_step demo_workflow (Ran ''t'' Investigate) s1 (settle ''t'' Investigate demo_investigated s1)"
    by (intro studio_step.run) (simp_all add: s1_def)
  then have "history demo_workflow [Invoked ''t'' [], Ran ''t'' Investigate] (settle ''t'' Investigate demo_investigated s1)"
    using history.more[OF h1] by simp
  from that[OF h1 _ _ step this] show thesis by (simp add: settle_def d next_node_def s1_def new_studio_def)
qed


section \<open>The state a node finds\<close>

definition diagnosed :: "workflow_state \<Rightarrow> bool" where
  "diagnosed st \<longleftrightarrow> (case st_investigation st of None \<Rightarrow> False | Some r \<Rightarrow> valid_investigation r) \<and> st_tool_calls st \<noteq> None"

definition node_typed :: "node \<Rightarrow> workflow_state \<Rightarrow> bool" where
  "node_typed n st \<longleftrightarrow>
     (n \<in> {Build_immutable_proposal, Human_approval, Execute_approved_action, Verify_recovery} \<longrightarrow> diagnosed st) \<and>
     (n \<in> {Human_approval, Execute_approved_action, Verify_recovery} \<longrightarrow> st_run_id st \<noteq> None \<and> st_proposal st \<noteq> None) \<and>
     (n \<in> {Execute_approved_action, Verify_recovery} \<longrightarrow> st_decision st = Some APPROVE)"

lemma diagnosed_fields [simp]:
  "diagnosed (st\<lparr>st_run_id := i, st_proposal := p\<rparr>) = diagnosed st" "diagnosed (st\<lparr>st_decision := d\<rparr>) = diagnosed st"
  "diagnosed (st\<lparr>st_execution := x\<rparr>) = diagnosed st" "diagnosed (st\<lparr>st_verification := v\<rparr>) = diagnosed st"
  by (simp_all add: diagnosed_def)

lemma with_service_Inr:
  assumes "worldT (with_service env thread r body) s = (Inr x, s')"
  obtains sv d d' where "body sv d = (Inr x, d')"
proof -
  obtain w' where "with_service env thread r body (snd s) = (Inr x, w')"
    using assms by (auto simp: worldT_def split: prod.splits)
  then show ?thesis by (cases rule: with_service_cases) (use that in auto)
qed

lemma service_states:
  "submit_diagnosis env thread r st sv d = (Inr st', d') \<Longrightarrow> \<exists>i p. st' = st\<lparr>st_run_id := Some i, st_proposal := Some p\<rparr>"
  "decide_resumed a st sv d = (Inr st', d') \<Longrightarrow> st' = st\<lparr>st_decision := Some (ar_decision a)\<rparr>"
  "execute_approved st sv d = (Inr st', d') \<Longrightarrow> \<exists>x. st' = st\<lparr>st_execution := x\<rparr>"
proof -
  show "\<exists>i p. st' = st\<lparr>st_run_id := Some i, st_proposal := Some p\<rparr>" if "submit_diagnosis env thread r st sv d = (Inr st', d')"
    using that unfolding submit_diagnosis_def bindS_Inr_iff by (auto split: option.splits)
  show "st' = st\<lparr>st_decision := Some (ar_decision a)\<rparr>" if "decide_resumed a st sv d = (Inr st', d')"
    using that unfolding decide_resumed_def bindS_Inr_iff by auto
  show "\<exists>x. st' = st\<lparr>st_execution := x\<rparr>" if "execute_approved st sv d = (Inr st', d')"
    using that unfolding execute_approved_def bindS_Inr_iff by (auto simp: bindS_Inr_iff split: if_splits)
qed

lemma node_states:
  "investigate_node env config st s = (Inr st', s') \<Longrightarrow> diagnosed st'"
  "proposal_node env config st s = (Inr st', s') \<Longrightarrow> \<exists>i p. st' = st\<lparr>st_run_id := Some i, st_proposal := Some p\<rparr>"
  "approval_node env config a st s = (Inr st', s') \<Longrightarrow> st' = st\<lparr>st_decision := Some (ar_decision a)\<rparr>"
  "execute_node env config st s = (Inr st', s') \<Longrightarrow> \<exists>x. st' = st\<lparr>st_execution := x\<rparr>"
  "verify_node env config st s = (Inr st', s') \<Longrightarrow> \<exists>v. st' = st\<lparr>st_verification := v\<rparr>"
proof -
  show "diagnosed st'" if "investigate_node env config st s = (Inr st', s')"
    using that by (auto simp: investigate_node_def bindS_Inr_iff diagnosed_def validate_investigation_result_def
        check_investigation_def results split: if_splits prod.splits)
  show "\<exists>i p. st' = st\<lparr>st_run_id := Some i, st_proposal := Some p\<rparr>" if "proposal_node env config st s = (Inr st', s')"
    using that unfolding proposal_node_def bindS_Inr_iff by (elim exE conjE with_service_Inr) (rule service_states(1))
  show "st' = st\<lparr>st_decision := Some (ar_decision a)\<rparr>" if "approval_node env config a st s = (Inr st', s')"
    using that unfolding approval_node_def bindS_Inr_iff by (elim exE conjE with_service_Inr) (rule service_states(2))
  show "\<exists>x. st' = st\<lparr>st_execution := x\<rparr>" if "execute_node env config st s = (Inr st', s')"
    using that unfolding execute_node_def bindS_Inr_iff by (elim exE conjE with_service_Inr) (rule service_states(3))
  show "\<exists>v. st' = st\<lparr>st_verification := v\<rparr>" if "verify_node env config st s = (Inr st', s')"
    using that unfolding verify_node_def bindS_Inr_iff by auto
qed

lemma run_node_typed:
  assumes "run_node env thread n st s = (Inr st', s')" and "node_typed n st" and "n \<notin> {Human_approval, END}"
  shows "node_typed (next_node n st') st'"
  using assms by (cases n) (auto simp: run_node_def node_typed_def next_node_def dest!: node_states)

lemma settle_typed:
  assumes "\<And>st' s'. outcome = (Inr st', s') \<Longrightarrow> node_typed (next_node n st') st'"
    and "node_typed (th_node (sd_threads s u)) (th_state (sd_threads s u))"
  shows "node_typed (th_node (sd_threads (settle thread n outcome s) u)) (th_state (sd_threads (settle thread n outcome s) u))"
  using assms by (auto simp: settle_def split: prod.splits sum.splits)

text \<open>C33: The graph is well typed: whatever a history did, the state a thread carries at a node has every key the
  node reads - a valid diagnosis and its tool calls from the proposal on, run and proposal from the approval on -
  so no node fails for a missing key, and execution and verification are entered only after the decision to
  approve.\<close>

theorem studio_typed:
  fixes thread :: string
  assumes "history env ls s"
  defines "n \<equiv> th_node (sd_threads s thread)" and "st \<equiv> th_state (sd_threads s thread)"
  shows "node_typed n st \<and> (n \<in> {Investigate, END} \<or> is_ok (state_diagnosis st)) \<and>
    (n \<in> {Investigate, Build_immutable_proposal, END} \<or>
       is_ok (required ''run_id'' (st_run_id st)) \<and> is_ok (required ''proposal'' (st_proposal st)))"
proof -
  have "node_typed (th_node (sd_threads s u)) (th_state (sd_threads s u))" for u
    using assms(1)
  proof (induction arbitrary: u rule: history.induct)
    case (fresh f x)
    show ?case by (simp add: new_studio_def node_typed_def)
  next
    case (more ls s l t)
    from more.hyps(2) show ?case
    proof cases
      case (invoke th thread msgs)
      then show ?thesis using more.IH[of u] by (simp add: node_typed_def)
    next
      case (run n thread outcome)
      show ?thesis
        unfolding run(2) by (rule settle_typed[OF _ more.IH]) (use run more.IH run_node_typed in metis)
    next
      case (resume thread a outcome)
      show ?thesis
        unfolding resume(2)
      proof (rule settle_typed[OF _ more.IH])
        fix st' s' assume "outcome = (Inr st', s')"
        then have "st' = (th_state (sd_threads s thread))\<lparr>st_decision := Some (ar_decision a)\<rparr>"
          using resume(4) node_states(3) by blast
        then show "node_typed (next_node Human_approval st') st'"
          using more.IH[of thread] resume(3) by (auto simp: node_typed_def next_node_def)
      qed
    next
      case closing
      then show ?thesis using more.IH[of u] by simp
    qed
  qed
  then have "node_typed n st" by (simp add: n_def st_def)
  then show ?thesis
    by (cases n) (auto simp: node_typed_def state_diagnosis_def required_def diagnosed_def check_investigation_def is_ok_iff
        split: option.splits)
qed

theorem studio_typed_witness:
  "\<exists>s :: nat studio. th_node (sd_threads s ''t'') = Build_immutable_proposal \<and> is_ok (state_diagnosis (th_state (sd_threads s ''t'')))"
proof -
  obtain s :: "nat studio" where s: "history demo_workflow [Invoked ''t'' [], Ran ''t'' Investigate] s"
    "th_node (sd_threads s ''t'') = Build_immutable_proposal"
    by (rule demo_history)
  show ?thesis using studio_typed[OF s(1), of "''t''"] s(2) by (intro exI[of _ s]) simp
qed

end
