(* ===== verification/Language.thy ===== *)
theory Language
  imports Regex
begin

text \<open>
  \<open>re.fullmatch\<close> for the patterns that check identifiers, images and routes, and what it decides: for a
  pattern without assertions and back references the backtracking matcher finds a match of the whole text
  exactly if the text is in the regular language of the pattern.
\<close>

definition start_of :: "string \<Rightarrow> position" where
  "start_of s = \<lparr>behind = None, ahead = s, groups = []\<rparr>"

definition fullmatch :: "regex \<Rightarrow> string \<Rightarrow> bool" where
  "fullmatch r s \<longleftrightarrow> list_ex (\<lambda>q. ahead q = []) (matches r (start_of s))"

primrec plain :: "regex \<Rightarrow> bool" where
  "plain Eps = True"
| "plain (Sat P) = True"
| "plain (Seq r s) = (plain r \<and> plain s)"
| "plain (Alt r s) = (plain r \<and> plain s)"
| "plain (Star r) = plain r"
| "plain (Group g r) = plain r"
| "plain (Backref g) = False"
| "plain WordBoundary = False"
| "plain (NotBehind P) = False"
| "plain (NotAhead r) = False"

inductive_set words :: "string set \<Rightarrow> string set" for A where
  none: "[] \<in> words A"
| more: "v \<in> A \<Longrightarrow> w \<in> words A \<Longrightarrow> v @ w \<in> words A"

primrec lang :: "regex \<Rightarrow> string set" where
  "lang Eps = {[]}"
| "lang (Sat P) = {[c] |c. P c}"
| "lang (Seq r s) = {v @ w |v w. v \<in> lang r \<and> w \<in> lang s}"
| "lang (Alt r s) = lang r \<union> lang s"
| "lang (Star r) = words (lang r)"
| "lang (Group g r) = lang r"
| "lang (Backref g) = {}"
| "lang WordBoundary = {}"
| "lang (NotBehind P) = {}"
| "lang (NotAhead r) = {}"

lemma words_cases: "w \<in> words A \<Longrightarrow> w = [] \<or> (\<exists>u v. u \<in> A \<and> u \<noteq> [] \<and> v \<in> words A \<and> w = u @ v)"
proof (induction rule: words.induct)
  case (more v w)
  then show ?case by (cases "v = []") auto
qed simp

text \<open>The rests a matcher leaves are those after a word of the language.\<close>

definition accepts :: "(position \<Rightarrow> position list) \<Rightarrow> string set \<Rightarrow> bool" where
  "accepts f A \<longleftrightarrow> (\<forall>p t. (\<exists>q \<in> set (f p). ahead q = t) \<longleftrightarrow> (\<exists>w \<in> A. ahead p = w @ t))"

lemma accepts_iff: "accepts f A \<Longrightarrow> (\<exists>q \<in> set (f p). ahead q = t) \<longleftrightarrow> (\<exists>w \<in> A. ahead p = w @ t)"
  by (simp add: accepts_def)

lemma star_accepts:
  assumes "accepts f A"
  shows "accepts (star_matches f) (words A)"
  unfolding accepts_def
proof (intro allI)
  fix p t
  show "(\<exists>q \<in> set (star_matches f p). ahead q = t) \<longleftrightarrow> (\<exists>w \<in> words A. ahead p = w @ t)"
  proof (induction "length (ahead p)" arbitrary: p rule: less_induct)
    case less
    have step: "(\<exists>q \<in> set (star_matches f p). ahead q = t) \<longleftrightarrow>
        ahead p = t \<or> (\<exists>m \<in> set (f p). length (ahead m) < length (ahead p) \<and> (\<exists>w \<in> words A. ahead m = w @ t))"
      by (subst star_matches.simps) (use less in auto)
    show ?case
    proof
      assume "\<exists>q \<in> set (star_matches f p). ahead q = t"
      then consider "ahead p = t" | m w where "m \<in> set (f p)" "w \<in> words A" "ahead m = w @ t"
        using step by blast
      then show "\<exists>w \<in> words A. ahead p = w @ t"
      proof cases
        case 2
        then obtain u where "u \<in> A" "ahead p = u @ ahead m" using assms accepts_iff by blast
        with 2 show ?thesis by (metis append.assoc words.more)
      qed (use words.none in force)
    next
      assume "\<exists>w \<in> words A. ahead p = w @ t"
      then obtain w where w: "w \<in> words A" "ahead p = w @ t" by blast
      from words_cases[OF w(1)] show "\<exists>q \<in> set (star_matches f p). ahead q = t"
      proof
        assume "\<exists>u v. u \<in> A \<and> u \<noteq> [] \<and> v \<in> words A \<and> w = u @ v"
        then obtain u v where u: "u \<in> A" "u \<noteq> []" "v \<in> words A" "w = u @ v" by blast
        then obtain m where "m \<in> set (f p)" "ahead m = v @ t"
          using accepts_iff[OF assms, of p "v @ t"] w(2) by auto
        moreover have "length (v @ t) < length (ahead p)" using u w(2) by simp
        ultimately show ?thesis using step u(3) by (metis (no_types, lifting))
      qed (use w(2) step in simp)
    qed
  qed
qed

lemma ex_append: "(\<exists>u \<in> {v @ w |v w. v \<in> A \<and> w \<in> B}. p = u @ t) \<longleftrightarrow> (\<exists>w \<in> B. \<exists>v \<in> A. p = v @ w @ t)"
proof
  assume "\<exists>w \<in> B. \<exists>v \<in> A. p = v @ w @ t"
  then obtain v w where "v \<in> A" "w \<in> B" "p = (v @ w) @ t" by auto
  then show "\<exists>u \<in> {v @ w |v w. v \<in> A \<and> w \<in> B}. p = u @ t" by blast
next
  assume "\<exists>u \<in> {v @ w |v w. v \<in> A \<and> w \<in> B}. p = u @ t"
  then obtain v w where "v \<in> A" "w \<in> B" "p = (v @ w) @ t" by blast
  then show "\<exists>w \<in> B. \<exists>v \<in> A. p = v @ w @ t" by (intro bexI[of _ w] bexI[of _ v]) simp_all
qed

lemma matches_accepts: "plain r \<Longrightarrow> accepts (matches r) (lang r)"
proof (induction r)
  case (Sat P)
  show ?case
    unfolding accepts_def
  proof (intro allI)
    fix p t
    show "(\<exists>q \<in> set (matches (Sat P) p). ahead q = t) \<longleftrightarrow> (\<exists>w \<in> lang (Sat P). ahead p = w @ t)"
      by (cases "ahead p") (auto simp: advance_def)
  qed
next
  case (Seq r s)
  then have r: "accepts (matches r) (lang r)" and s: "accepts (matches s) (lang s)" by simp_all
  show ?case
    unfolding accepts_def
  proof (intro allI)
    fix p t
    have "(\<exists>q \<in> set (matches (Seq r s) p). ahead q = t) \<longleftrightarrow> (\<exists>m \<in> set (matches r p). \<exists>w \<in> lang s. ahead m = w @ t)"
      using accepts_iff[OF s] by auto
    also have "\<dots> \<longleftrightarrow> (\<exists>w \<in> lang s. \<exists>v \<in> lang r. ahead p = v @ w @ t)"
      using accepts_iff[OF r] by blast
    also have "\<dots> \<longleftrightarrow> (\<exists>w \<in> lang (Seq r s). ahead p = w @ t)"
      by (simp only: lang.simps ex_append)
    finally show "(\<exists>q \<in> set (matches (Seq r s) p). ahead q = t) \<longleftrightarrow> (\<exists>w \<in> lang (Seq r s). ahead p = w @ t)" .
  qed
next
  case (Alt r s)
  then show ?case by (simp add: accepts_def bex_Un)
next
  case (Star r)
  then show ?case using star_accepts by (simp add: accepts_def)
qed (auto simp: accepts_def)

lemma fullmatch_iff: "plain r \<Longrightarrow> fullmatch r s \<longleftrightarrow> s \<in> lang r"
  using accepts_iff[OF matches_accepts, of r "start_of s" "[]"] by (auto simp: fullmatch_def start_of_def list_ex_iff)

section \<open>Derived patterns\<close>

lemma plain_derived [simp]:
  "plain (Opt r) = plain r" "plain (Plus r) = plain r" "plain (Lit s)" "plain (Rep n r) = (n = 0 \<or> plain r)"
  "plain (Seqs rs) = list_all plain rs"
proof -
  show "plain (Opt r) = plain r" "plain (Plus r) = plain r" by (simp_all add: Opt_def Plus_def)
  show "plain (Lit s)" by (induction s) simp_all
  show "plain (Rep n r) = (n = 0 \<or> plain r)" by (induction n) auto
  show "plain (Seqs rs) = list_all plain rs" by (induction rs) simp_all
qed

lemma lang_Lit [simp]: "lang (Lit s) = {s}"
  by (induction s) auto

lemma words_chars: "words {[c] |c. P c} = {w. list_all P w}"
proof (intro set_eqI iffI; simp)
  fix w assume "w \<in> words {[c] |c. P c}"
  then show "list_all P w" by (induction rule: words.induct) auto
next
  fix w assume "list_all P w"
  then show "w \<in> words {[c] |c. P c}"
  proof (induction w)
    case (Cons c w)
    then show ?case using words.more[of "[c]" "{[c] |c. P c}" w] by auto
  qed (rule words.none)
qed

lemma lang_Star_Sat [simp]: "lang (Star (Sat P)) = {w. list_all P w}"
  by (simp add: words_chars)

lemma lang_Seq_Sat: "lang (Seq (Sat P) r) = {c # w |c w. P c \<and> w \<in> lang r}"
proof (intro set_eqI iffI)
  fix u assume "u \<in> lang (Seq (Sat P) r)"
  then show "u \<in> {c # w |c w. P c \<and> w \<in> lang r}" unfolding lang.simps(2,3) by clarsimp
next
  fix u assume "u \<in> {c # w |c w. P c \<and> w \<in> lang r}"
  then obtain c w where "u = [c] @ w" "[c] \<in> lang (Sat P)" "w \<in> lang r" by auto
  then show "u \<in> lang (Seq (Sat P) r)" unfolding lang.simps(3) by blast
qed

lemma lang_Plus_Sat [simp]: "lang (Plus (Sat P)) = {w. w \<noteq> [] \<and> list_all P w}"
proof -
  have "(\<exists>c v. w = c # v \<and> P c \<and> list_all P v) \<longleftrightarrow> w \<noteq> [] \<and> list_all P w" for w by (cases w) auto
  then show ?thesis by (simp only: Plus_def lang_Seq_Sat lang_Star_Sat mem_Collect_eq)
qed

lemma lang_Rep_Sat [simp]: "lang (Rep n (Sat P)) = {w. length w = n \<and> list_all P w}"
proof (induction n)
  case (Suc n)
  have "(\<exists>c v. w = c # v \<and> P c \<and> length v = n \<and> list_all P v) \<longleftrightarrow> length w = Suc n \<and> list_all P w" for w
    by (cases w) auto
  then show ?case by (simp only: Rep.simps lang_Seq_Sat Suc mem_Collect_eq)
qed auto

text \<open>\<open>r{lo,hi}\<close> for a class.\<close>

primrec Upto :: "nat \<Rightarrow> regex \<Rightarrow> regex" where
  "Upto 0 r = Eps"
| "Upto (Suc n) r = Opt (Seq r (Upto n r))"

lemma plain_Upto [simp]: "plain (Upto n r) = (n = 0 \<or> plain r)"
  by (induction n) auto

lemma lang_Upto_Sat [simp]: "lang (Upto n (Sat P)) = {w. length w \<le> n \<and> list_all P w}"
proof (induction n)
  case (Suc n)
  have iff: "(\<exists>c v. w = c # v \<and> P c \<and> length v \<le> n \<and> list_all P v) \<or> w = [] \<longleftrightarrow> length w \<le> Suc n \<and> list_all P w" for w
    by (cases w) auto
  show ?case
    unfolding Upto.simps Opt_def lang.simps(1,4) lang_Seq_Sat Suc
    by (rule set_eqI) (simp only: Un_iff mem_Collect_eq singleton_iff iff)
qed auto

end
