(* ===== verification/Network.thy ===== *)
theory Network
  imports Security
begin

text \<open>
  Addresses and URLs: \<open>is_loopback_host\<close> of \<open>security.py\<close> with the parts of \<open>ipaddress\<close> and
  \<open>urllib.parse\<close> that it and the settings use (Python 3.12), over code points below 256. There the
  normalisation check of \<open>urlsplit\<close> refuses nothing.
\<close>

section \<open>Splitting text\<close>

text \<open>\<open>text.split(c)\<close>, \<open>text.partition(c)\<close> and \<open>text.rpartition(c)\<close>.\<close>

fun split_at :: "char \<Rightarrow> string \<Rightarrow> string list" where
  "split_at d [] = [[]]"
| "split_at d (c # cs) =
     (if c = d then [] # split_at d cs
      else (case split_at d cs of [] \<Rightarrow> [[c]] | w # ws \<Rightarrow> (c # w) # ws))"

definition partition_at :: "char \<Rightarrow> string \<Rightarrow> string \<times> bool \<times> string" where
  "partition_at d s =
     (takeWhile (\<lambda>c. c \<noteq> d) s, d \<in> set s, drop 1 (dropWhile (\<lambda>c. c \<noteq> d) s))"

definition rpartition_at :: "char \<Rightarrow> string \<Rightarrow> string \<times> bool \<times> string" where
  "rpartition_at d s =
     (case partition_at d (rev s) of (after, found, rest) \<Rightarrow>
        if found then (rev rest, True, rev after) else ([], False, s))"

section \<open>IP addresses\<close>

definition any_hex :: "char \<Rightarrow> bool" where
  "any_hex c \<longleftrightarrow> is_digit c \<or> char_in c 97 102 \<or> char_in c 65 70"

definition hex_value :: "char \<Rightarrow> nat" where
  "hex_value c = (if is_digit c then code c - 48 else if char_in c 97 102 then code c - 87 else code c - 55)"

definition read_hex :: "string \<Rightarrow> nat" where
  "read_hex s = foldl (\<lambda>n c. 16 * n + hex_value c) 0 s"

definition hextet :: "string \<Rightarrow> nat option" where
  "hextet s = (if s \<noteq> [] \<and> length s \<le> 4 \<and> list_all any_hex s then Some (read_hex s) else None)"

fun hextets :: "nat \<Rightarrow> string list \<Rightarrow> nat option" where
  "hextets n [] = Some n"
| "hextets n (p # ps) = (case hextet p of None \<Rightarrow> None | Some h \<Rightarrow> hextets (65536 * n + h) ps)"

fun show_hex :: "nat \<Rightarrow> string" where
  "show_hex n =
     (let d = (if n mod 16 < 10 then char_of (48 + n mod 16) else char_of (87 + n mod 16)) in
      if n < 16 then [d] else show_hex (n div 16) @ [d])"

declare show_hex.simps [simp del]

text \<open>An IPv4 suffix counts as two hextets.\<close>

definition ipv6_parts :: "string \<Rightarrow> string list option" where
  "ipv6_parts s =
     (let parts = split_at CHR '':'' s in
      if length parts < 3 then None
      else if CHR ''.'' \<in> set (last parts)
      then (case ipv4_address (last parts) of
              Inl _ \<Rightarrow> None
            | Inr x \<Rightarrow> Some (butlast parts @ [show_hex (x div 65536 mod 65536), show_hex (x mod 65536)]))
      else Some parts)"

definition ipv6_number :: "string list \<Rightarrow> nat option" where
  "ipv6_number parts =
     (if 9 < length parts then None
      else case filter (\<lambda>i. parts ! i = []) [1..<length parts - 1] of
        [] \<Rightarrow>
          if length parts \<noteq> 8 \<or> hd parts = [] \<or> last parts = [] then None else hextets 0 parts
      | [skip] \<Rightarrow>
          (let hi = (if hd parts = [] then skip - 1 else skip);
               low = length parts - skip - 1;
               lo = (if last parts = [] then low - 1 else low)
           in if (hd parts = [] \<and> hi \<noteq> 0) \<or> (last parts = [] \<and> lo \<noteq> 0) \<or> 8 \<le> hi + lo then None
              else (case hextets 0 (take hi parts) of
                      None \<Rightarrow> None
                    | Some n \<Rightarrow> hextets (n * 65536 ^ (8 - (hi + lo))) (drop (length parts - lo) parts)))
      | _ \<Rightarrow> None)"

definition ipv6_address :: "string \<Rightarrow> nat option" where
  "ipv6_address s =
     (case partition_at CHR ''%'' s of (addr, scoped, zone) \<Rightarrow>
        if CHR ''/'' \<in> set s \<or> (scoped \<and> (zone = [] \<or> CHR ''%'' \<in> set zone)) then None
        else case ipv6_parts addr of None \<Rightarrow> None | Some parts \<Rightarrow> ipv6_number parts)"

datatype address = IPv4 nat | IPv6 nat

definition ip_address :: "string \<Rightarrow> address option" where
  "ip_address s =
     (case ipv4_address s of
        Inr x \<Rightarrow> Some (IPv4 x)
      | Inl _ \<Rightarrow> map_option IPv6 (ipv6_address s))"

fun ip_is_loopback :: "address \<Rightarrow> bool" where
  "ip_is_loopback (IPv4 x) = ipv4_is_loopback x"
| "ip_is_loopback (IPv6 x) = (x = 1)"

definition is_loopback_host :: "string \<Rightarrow> bool" where
  "is_loopback_host host =
     (let normalized = lower (strip host) in
      normalized = ''localhost'' \<or>
      (case ip_address normalized of None \<Rightarrow> False | Some a \<Rightarrow> ip_is_loopback a))"

lemma loopback_samples:
  "is_loopback_host '' LocalHost ''" "\<not> is_loopback_host ''localhost.example.org''" "\<not> is_loopback_host []"
  "\<not> is_loopback_host ''[::1]''" "\<not> is_loopback_host ''127.0.0.01''"
  by code_simp+

section \<open>URLs\<close>

record split_url =
  su_scheme :: string
  su_netloc :: string
  su_path :: string
  su_query :: string
  su_fragment :: string

definition scheme_char :: "char \<Rightarrow> bool" where
  "scheme_char c \<longleftrightarrow> is_ascii_alnum c \<or> c \<in> set ''+-.''"

definition ascii_alpha :: "char \<Rightarrow> bool" where "ascii_alpha c \<longleftrightarrow> is_ascii_lower c \<or> is_ascii_upper c"

text \<open>The part after the last \<open>@\<close>, split into host and port as \<open>_hostinfo\<close> does.\<close>

definition host_part :: "string \<Rightarrow> string" where
  "host_part netloc = snd (snd (rpartition_at CHR ''@'' netloc))"

definition bracketed_ok :: "string \<Rightarrow> bool" where
  "bracketed_ok netloc =
     (let (front, opened, bracketed) = partition_at CHR ''['' (host_part netloc);
          (inside, _, port) = partition_at CHR '']'' bracketed;
          host = (if opened then inside else fst (partition_at CHR '':'' (host_part netloc)));
          future = (host \<noteq> [] \<and> hd host = CHR ''v'')
      in (\<not> opened \<or> (front = [] \<and> (port = [] \<or> hd port = CHR '':''))) \<and>
         (if future
          then (case partition_at CHR ''.'' (tl host) of (version, dot, rest) \<Rightarrow>
                  version \<noteq> [] \<and> list_all any_hex version \<and> dot \<and> rest \<noteq> [] \<and> list_all not_newline rest)
          else (case ip_address host of Some (IPv6 _) \<Rightarrow> True | _ \<Rightarrow> False)))"

definition split_netloc :: "string \<Rightarrow> exn + string \<times> string" where
  "split_netloc url =
     (if take 2 url \<noteq> ''//'' then Inr ([], url)
      else let rest = drop 2 url; netloc = takeWhile (\<lambda>c. c \<notin> set ''/?#'') rest; url' = dropWhile (\<lambda>c. c \<notin> set ''/?#'') rest;
               opened = (CHR ''['' \<in> set netloc); closed = (CHR '']'' \<in> set netloc)
           in if opened \<noteq> closed \<or> (opened \<and> closed \<and> \<not> bracketed_ok netloc)
              then Inl (ValueError ''Invalid IPv6 URL'') else Inr (netloc, url'))"

definition urlsplit :: "string \<Rightarrow> exn + split_url" where
  "urlsplit text =
     (let url = filter (\<lambda>c. code c \<notin> {9, 10, 13}) (dropWhile (\<lambda>c. code c \<le> 32) text);
          (front, colon, rest) = partition_at CHR '':'' url;
          has_scheme = (colon \<and> front \<noteq> [] \<and> ascii_alpha (hd front) \<and> list_all scheme_char front)
      in bindE (split_netloc (if has_scheme then rest else url)) (\<lambda>(netloc, url1).
         let (url2, _, fragment) = partition_at CHR ''#'' url1; (path, _, query) = partition_at CHR ''?'' url2 in
         Inr \<lparr>su_scheme = (if has_scheme then lower front else []), su_netloc = netloc, su_path = path,
              su_query = query, su_fragment = fragment\<rparr>))"

definition url_hostname :: "split_url \<Rightarrow> string option" where
  "url_hostname u =
     (let info = host_part (su_netloc u); (_, opened, bracketed) = partition_at CHR ''['' info;
          host = (if opened then fst (partition_at CHR '']'' bracketed) else fst (partition_at CHR '':'' info));
          (name, percent, zone) = partition_at CHR ''%'' host
      in if host = [] then None else Some (lower name @ (if percent then CHR ''%'' # zone else [])))"

text \<open>User and password; \<open>None\<close> without an \<open>@\<close>, and no password without a colon.\<close>

definition url_userinfo :: "split_url \<Rightarrow> (string \<times> string option) option" where
  "url_userinfo u =
     (case rpartition_at CHR ''@'' (su_netloc u) of (userinfo, found, _) \<Rightarrow>
        if \<not> found then None
        else (case partition_at CHR '':'' userinfo of (name, colon, password) \<Rightarrow>
                Some (name, if colon then Some password else None)))"

lemma partition_at_join: "partition_at d s = (a, b, c) \<Longrightarrow> s = a @ (if b then d # c else [])"
  by (induction s arbitrary: a b c) (auto simp: partition_at_def)

end
