(* ===== verification/Numbers.thy ===== *)
theory Numbers
  imports Doubles Security
begin

text \<open>
  Python's \<open>float(text)\<close> and \<open>int(text)\<close>, as the settings read them: binary doubles with infinities and NaN,
  rounded to the nearest, ties to even, with gradual underflow.
\<close>

datatype pyfloat = Finite rat | PosInf | NegInf | NaN

definition double_of :: "rat \<Rightarrow> pyfloat" where
  "double_of x =
     (if \<bar>x\<bar> < 1 / 2 ^ 1022 then Finite (sgn x * of_int (round_half_even (\<bar>x\<bar> * 2 ^ 1074)) / 2 ^ 1074)
      else let y = to_double x in
        if 2 ^ 1024 \<le> y then PosInf else if y \<le> - (2 ^ 1024) then NegInf else Finite y)"

fun negate :: "pyfloat \<Rightarrow> pyfloat" where
  "negate (Finite x) = Finite (- x)"
| "negate PosInf = NegInf"
| "negate NegInf = PosInf"
| "negate NaN = NaN"

text \<open>\<open>x <= 0\<close>; every comparison with NaN is false.\<close>

fun nonpositive :: "pyfloat \<Rightarrow> bool" where
  "nonpositive (Finite x) = (x \<le> 0)"
| "nonpositive PosInf = False"
| "nonpositive NegInf = True"
| "nonpositive NaN = False"

text \<open>Surrounding whitespace is dropped, and an underscore may stand between two digits.\<close>

fun underscores_ok :: "bool \<Rightarrow> string \<Rightarrow> bool" where
  "underscores_ok prev [] = True"
| "underscores_ok prev (c # s) =
     (if c = CHR ''_'' then prev \<and> s \<noteq> [] \<and> is_digit (hd s) \<and> underscores_ok False s
      else underscores_ok (is_digit c) s)"

definition decimal_value :: "string \<Rightarrow> string \<Rightarrow> int \<Rightarrow> rat" where
  "decimal_value whole fraction e =
     (let k = e - int (length fraction); n = of_nat (read_nat (whole @ fraction)) in
      if 0 \<le> k then n * 10 ^ nat k else n / 10 ^ nat (- k))"

definition signed :: "string \<Rightarrow> bool \<times> string" where
  "signed s = (case s of [] \<Rightarrow> (False, s) | c # t \<Rightarrow> if c = CHR ''-'' then (True, t) else if c = CHR ''+'' then (False, t) else (False, s))"

definition decimal_literal :: "string \<Rightarrow> rat option" where
  "decimal_literal s =
     (let whole = takeWhile is_digit s; r = dropWhile is_digit s;
          point = (r \<noteq> [] \<and> hd r = CHR ''.'');
          fraction = (if point then takeWhile is_digit (tl r) else []);
          rest = (if point then dropWhile is_digit (tl r) else r)
      in if whole = [] \<and> fraction = [] then None
         else if rest = [] then Some (decimal_value whole fraction 0)
         else if hd rest \<noteq> CHR ''e'' \<and> hd rest \<noteq> CHR ''E'' then None
         else let (neg, ds) = signed (tl rest) in
           if ds = [] \<or> \<not> list_all is_digit ds then None
           else Some (decimal_value whole fraction (if neg then - int (read_nat ds) else int (read_nat ds))))"

definition float_of_text :: "string \<Rightarrow> exn + pyfloat" where
  "float_of_text text =
     (let s = strip text; plain = filter (\<lambda>c. c \<noteq> CHR ''_'') s; (neg, t) = signed plain;
          value = (if lower t \<in> set [''inf'', ''infinity''] then Some PosInf
                   else if lower t = ''nan'' then Some NaN
                   else map_option double_of (decimal_literal t))
      in if \<not> underscores_ok False s then Inl (ValueError ''could not convert string to float'')
         else case value of
           None \<Rightarrow> Inl (ValueError ''could not convert string to float'')
         | Some x \<Rightarrow> Inr (if neg then negate x else x))"

text \<open>\<open>int(text)\<close>: whitespace of any kind counts as blanks.\<close>

definition int_literal :: "string \<Rightarrow> exn + int" where
  "int_literal s = int_of_bytes (map (\<lambda>c. if is_space c then CHR '' '' else c) s)"

end
