(* ===== verification/Config.thy ===== *)
theory Config
  imports Language Network Numbers "HOL-Library.AList"
begin

text \<open>
  \<open>config.py\<close>: the settings, the local environment file, reading the environment and validation. The
  environment is an association list of exported variables; the environment file is given as its text after
  newline translation, or as \<open>None\<close> if there is no such file.
\<close>

type_synonym environment = "(string \<times> string) list"

section \<open>The environment file\<close>

definition line_break :: "char \<Rightarrow> bool" where
  "line_break c \<longleftrightarrow> char_in c 10 13 \<or> char_in c 28 30 \<or> code c = 133"

primrec splitlines :: "string \<Rightarrow> string list" where
  "splitlines [] = []"
| "splitlines (c # cs) =
     (if line_break c then [] # splitlines cs
      else (case splitlines cs of [] \<Rightarrow> [[c]] | w # ws \<Rightarrow> (c # w) # ws))"

definition strip_quotes :: "string \<Rightarrow> string" where
  "strip_quotes s = rev (dropWhile quote_char (rev (dropWhile quote_char s)))"

definition assignment :: "string \<Rightarrow> (string \<times> string) option" where
  "assignment raw_line =
     (let line = strip raw_line; (key, eq, value) = partition_at CHR ''='' line in
      if line = [] \<or> hd line = CHR ''#'' \<or> \<not> eq \<or> strip key = [] then None
      else Some (strip key, strip_quotes (strip value)))"

text \<open>\<open>os.environ[key] = value\<close> refuses a null byte.\<close>

definition set_variable :: "string \<times> string \<Rightarrow> (environment, unit) action" where
  "set_variable kv env =
     (if CHR 0x00 \<in> set (fst kv) \<union> set (snd kv) then (Inl (ValueError ''embedded null byte''), env)
      else (Inr (), AList.update (fst kv) (snd kv) env))"

definition load_line :: "string \<Rightarrow> (environment, unit) action" where
  "load_line raw_line env =
     (case assignment raw_line of
        None \<Rightarrow> (Inr (), env)
      | Some kv \<Rightarrow> if map_of env (fst kv) \<noteq> None then (Inr (), env) else set_variable kv env)"

definition load_local_dotenv :: "string option \<Rightarrow> (environment, unit) action" where
  "load_local_dotenv file =
     (case file of None \<Rightarrow> returnS () | Some text \<Rightarrow> eachS load_line (splitlines text))"

section \<open>Settings\<close>

record settings =
  cf_app_mode :: string
  cf_host :: string
  cf_bearer_token :: "string option"
  cf_execution_enabled :: bool
  cf_lab_mode :: string
  cf_base_url :: string
  cf_model :: string
  cf_deep_agent_model :: string
  cf_api_key_env :: string
  cf_model_timeout_seconds :: pyfloat
  cf_model_max_retries :: int
  cf_proposal_ttl_seconds :: int
  cf_expiration_poll_seconds :: pyfloat
  cf_database_path :: string
  cf_execution_engine :: string
  cf_container_image :: string
  cf_execution_timeout_seconds :: pyfloat
  cf_container_health_timeout_seconds :: pyfloat
  cf_otel_enabled :: bool
  cf_otel_service_name :: string
  cf_otel_exporter_otlp_endpoint :: "string option"
  cf_otel_export_timeout_seconds :: pyfloat

definition default_settings :: settings where
  "default_settings =
     \<lparr>cf_app_mode = ''demo'', cf_host = ''127.0.0.1'', cf_bearer_token = None, cf_execution_enabled = False,
      cf_lab_mode = ''synthetic'', cf_base_url = ''https://opencode.ai/zen/go/v1'', cf_model = ''deepseek-v4-flash'',
      cf_deep_agent_model = ''qwen3.6-plus'', cf_api_key_env = ''OPENCODE_KEY'', cf_model_timeout_seconds = Finite 30,
      cf_model_max_retries = 2, cf_proposal_ttl_seconds = 900, cf_expiration_poll_seconds = Finite 5,
      cf_database_path = ''.data/incident-response.sqlite3'', cf_execution_engine = ''container'',
      cf_container_image =
        ''docker.io/library/python@sha256:6d43704baacd1bfbe7c295d7f13079d5d8104ed33568873133f8fc69980419df'',
      cf_execution_timeout_seconds = Finite 30, cf_container_health_timeout_seconds = Finite 60,
      cf_otel_enabled = False, cf_otel_service_name = ''incident-response-agent'',
      cf_otel_exporter_otlp_endpoint = None, cf_otel_export_timeout_seconds = Finite 5\<rparr>"

definition refuse :: "bool \<Rightarrow> string \<Rightarrow> exn + unit" where
  "refuse bad message = (if bad then Inl (ConfigurationError message) else Inr ())"

definition strict_bool :: "string \<Rightarrow> string \<Rightarrow> exn + bool" where
  "strict_bool name value =
     bindE (refuse (value \<notin> {''0'', ''1''}) (name @ '' must be exactly '' @ [CHR 0x27] @ ''0'' @ [CHR 0x27] @ '' or '' @
       [CHR 0x27] @ ''1'' @ [CHR 0x27])) (\<lambda>_. Inr (value = ''1''))"

text \<open>\<open>if text\<close> for an optional text.\<close>

definition given :: "string option \<Rightarrow> bool" where
  "given v \<longleftrightarrow> (case v of None \<Rightarrow> False | Some s \<Rightarrow> s \<noteq> [])"

definition hex_lower :: "char \<Rightarrow> bool" where "hex_lower c \<longleftrightarrow> is_digit c \<or> char_in c 97 102"

definition PINNED_IMAGE :: regex where
  "PINNED_IMAGE = Seqs [Plus (Sat not_newline), Lit ''@sha256:'', Rep 64 (Sat hex_lower)]"

definition service_name_char :: "char \<Rightarrow> bool" where
  "service_name_char c \<longleftrightarrow> is_ascii_alnum c \<or> c \<in> set ''_.-''"

definition IDENTIFIER :: regex where
  "IDENTIFIER = Seqs [Sat is_ascii_alnum, Upto 127 (Sat service_name_char)]"

definition check_endpoint :: "string \<Rightarrow> exn + unit" where
  "check_endpoint endpoint =
     bindE (urlsplit endpoint) (\<lambda>parsed.
     bindE (refuse (su_scheme parsed \<notin> {''http'', ''https''} \<or> url_hostname parsed = None)
       ''OTEL_EXPORTER_OTLP_ENDPOINT must be an HTTP(S) origin'') (\<lambda>_.
     bindE (refuse (given (map_option fst (url_userinfo parsed)) \<or> given (Option.bind (url_userinfo parsed) snd) \<or>
                    su_query parsed \<noteq> [] \<or> su_fragment parsed \<noteq> [] \<or> su_path parsed \<notin> {[], ''/''})
       ''OTEL_EXPORTER_OTLP_ENDPOINT must not contain credentials, a path, query, or fragment'') (\<lambda>_.
     refuse (su_scheme parsed = ''http'' \<and> \<not> (case url_hostname parsed of None \<Rightarrow> False | Some h \<Rightarrow> is_loopback_host h))
       ''unencrypted OTLP export is allowed only to a loopback endpoint'')))"

definition checks :: "environment \<Rightarrow> settings \<Rightarrow> (exn + unit) list" where
  "checks env s =
     [refuse (cf_app_mode s = ''live'' \<and> \<not> given (map_of env (cf_api_key_env s)))
        (cf_api_key_env s @ '' is required when APP_MODE=live; use APP_MODE=demo for offline execution''),
      refuse (cf_execution_enabled s \<and> \<not> given (cf_bearer_token s))
        ''EXECUTION_ENABLED=1 requires INCIDENT_AGENT_BEARER_TOKEN'',
      refuse (\<not> is_loopback_host (cf_host s) \<and> \<not> given (cf_bearer_token s))
        ''non-loopback HOST requires INCIDENT_AGENT_BEARER_TOKEN'',
      refuse (cf_execution_enabled s \<and> cf_execution_engine s \<notin> {''container'', ''podman'', ''docker''})
        ''enabled execution requires EXECUTION_ENGINE=container, podman, or docker'',
      refuse (cf_execution_enabled s \<and> \<not> fullmatch PINNED_IMAGE (cf_container_image s))
        ''CONTAINER_IMAGE must be pinned by sha256 digest when execution is enabled'',
      refuse (cf_model_max_retries s < 0) ''MODEL_MAX_RETRIES must be non-negative'',
      refuse (cf_proposal_ttl_seconds s \<le> 0 \<or> nonpositive (cf_expiration_poll_seconds s) \<or>
              nonpositive (cf_execution_timeout_seconds s)) ''timeouts and proposal TTL must be positive'',
      refuse (cf_lab_mode s \<notin> {''synthetic'', ''container-service''})
        (''LAB_MODE must be exactly '' @ [CHR 0x27] @ ''synthetic'' @ [CHR 0x27] @ '' or '' @ [CHR 0x27] @ ''container-service'' @ [CHR 0x27]),
      refuse (cf_lab_mode s = ''container-service'' \<and> \<not> cf_execution_enabled s)
        ''LAB_MODE=container-service requires EXECUTION_ENABLED=1'',
      refuse (\<not> fullmatch IDENTIFIER (cf_otel_service_name s)) ''OTEL_SERVICE_NAME must be a bounded service identifier'',
      refuse (nonpositive (cf_otel_export_timeout_seconds s)) ''OTEL_EXPORT_TIMEOUT_SECONDS must be positive'',
      refuse (cf_otel_enabled s \<and> \<not> given (cf_otel_exporter_otlp_endpoint s))
        ''OTEL_ENABLED=1 requires OTEL_EXPORTER_OTLP_ENDPOINT'',
      (case cf_otel_exporter_otlp_endpoint s of
         None \<Rightarrow> Inr ()
       | Some endpoint \<Rightarrow> if endpoint = [] then Inr () else check_endpoint endpoint)]"

primrec first_failure :: "(exn + unit) list \<Rightarrow> exn + unit" where
  "first_failure [] = Inr ()"
| "first_failure (r # rs) = bindE r (\<lambda>_. first_failure rs)"

definition validate_settings :: "environment \<Rightarrow> settings \<Rightarrow> exn + unit" where
  "validate_settings env s = first_failure (checks env s)"

section \<open>Reading the environment\<close>

definition getenv :: "environment \<Rightarrow> string \<Rightarrow> string \<Rightarrow> string" where
  "getenv env name fallback = (case map_of env name of None \<Rightarrow> fallback | Some v \<Rightarrow> v)"

text \<open>\<open>os.getenv(name) or None\<close>, and numbers with a number as default.\<close>

definition nonempty_variable :: "environment \<Rightarrow> string \<Rightarrow> string option" where
  "nonempty_variable env name = (if given (map_of env name) then map_of env name else None)"

definition float_variable :: "environment \<Rightarrow> string \<Rightarrow> pyfloat \<Rightarrow> exn + pyfloat" where
  "float_variable env name fallback = (case map_of env name of None \<Rightarrow> Inr fallback | Some v \<Rightarrow> float_of_text v)"

definition int_variable :: "environment \<Rightarrow> string \<Rightarrow> int \<Rightarrow> exn + int" where
  "int_variable env name fallback = (case map_of env name of None \<Rightarrow> Inr fallback | Some v \<Rightarrow> int_literal v)"

definition read_settings :: "environment \<Rightarrow> exn + settings" where
  "read_settings env =
     (let d = default_settings; mode = lower (getenv env ''APP_MODE'' ''demo'') in
      bindE (refuse (mode \<notin> {''live'', ''demo''})
        (''APP_MODE must be exactly '' @ [CHR 0x27] @ ''live'' @ [CHR 0x27] @ '' or '' @ [CHR 0x27] @ ''demo'' @ [CHR 0x27])) (\<lambda>_.
      bindE (strict_bool ''EXECUTION_ENABLED'' (getenv env ''EXECUTION_ENABLED'' ''0'')) (\<lambda>execution.
      bindE (float_variable env ''MODEL_TIMEOUT_SECONDS'' (cf_model_timeout_seconds d)) (\<lambda>model_timeout.
      bindE (int_variable env ''MODEL_MAX_RETRIES'' (cf_model_max_retries d)) (\<lambda>retries.
      bindE (int_variable env ''PROPOSAL_TTL_SECONDS'' (cf_proposal_ttl_seconds d)) (\<lambda>ttl.
      bindE (float_variable env ''EXPIRATION_POLL_SECONDS'' (cf_expiration_poll_seconds d)) (\<lambda>poll.
      bindE (float_variable env ''EXECUTION_TIMEOUT_SECONDS'' (cf_execution_timeout_seconds d)) (\<lambda>timeout.
      bindE (float_variable env ''CONTAINER_HEALTH_TIMEOUT_SECONDS'' (cf_container_health_timeout_seconds d)) (\<lambda>health.
      bindE (strict_bool ''OTEL_ENABLED'' (getenv env ''OTEL_ENABLED'' ''0'')) (\<lambda>otel.
      bindE (float_variable env ''OTEL_EXPORT_TIMEOUT_SECONDS'' (cf_otel_export_timeout_seconds d)) (\<lambda>export.
      Inr \<lparr>cf_app_mode = mode, cf_host = getenv env ''HOST'' (cf_host d),
           cf_bearer_token = nonempty_variable env ''INCIDENT_AGENT_BEARER_TOKEN'', cf_execution_enabled = execution,
           cf_lab_mode = getenv env ''LAB_MODE'' (cf_lab_mode d), cf_base_url = getenv env ''MODEL_BASE_URL'' (cf_base_url d),
           cf_model = getenv env ''MODEL_NAME'' (cf_model d),
           cf_deep_agent_model = getenv env ''DEEP_AGENT_MODEL_NAME'' (cf_deep_agent_model d),
           cf_api_key_env = getenv env ''MODEL_API_KEY_ENV'' (cf_api_key_env d), cf_model_timeout_seconds = model_timeout,
           cf_model_max_retries = retries, cf_proposal_ttl_seconds = ttl, cf_expiration_poll_seconds = poll,
           cf_database_path = getenv env ''DATABASE_PATH'' (cf_database_path d),
           cf_execution_engine = getenv env ''EXECUTION_ENGINE'' (cf_execution_engine d),
           cf_container_image = getenv env ''CONTAINER_IMAGE'' (cf_container_image d),
           cf_execution_timeout_seconds = timeout, cf_container_health_timeout_seconds = health, cf_otel_enabled = otel,
           cf_otel_service_name = getenv env ''OTEL_SERVICE_NAME'' (cf_otel_service_name d),
           cf_otel_exporter_otlp_endpoint = nonempty_variable env ''OTEL_EXPORTER_OTLP_ENDPOINT'',
           cf_otel_export_timeout_seconds = export\<rparr>)))))))))))"

definition from_env :: "string option \<Rightarrow> (environment, settings) action" where
  "from_env dotenv =
     bindS (load_local_dotenv dotenv) (\<lambda>_.
     bindS (readS read_settings) (\<lambda>s.
     bindS (readS (\<lambda>env. validate_settings env s)) (\<lambda>_. returnS s)))"

section \<open>What the environment file may do\<close>

lemma load_line_first:
  assumes "load_line raw_line env = (Inr (), env')"
  shows "map_of env' k = (case map_of env k of Some v \<Rightarrow> Some v | None \<Rightarrow> Option.bind (assignment raw_line) (\<lambda>kv. map_of [kv] k))"
  using assms by (auto simp: load_line_def set_variable_def update_conv' split: option.splits if_splits)

lemma load_lines_first:
  "eachS load_line raw_lines env = (Inr (), env') \<Longrightarrow>
    map_of env' k = (case map_of env k of Some v \<Rightarrow> Some v | None \<Rightarrow> map_of (List.map_filter assignment raw_lines) k)"
proof (induction raw_lines arbitrary: env)
  case Nil
  then show ?case by (simp add: returnS_def split: option.splits)
next
  case (Cons l ls)
  then obtain env1 where "load_line l env = (Inr (), env1)" "eachS load_line ls env1 = (Inr (), env')"
    by (auto simp: bindS_Inr_iff)
  then show ?case using Cons.IH load_line_first[of l env env1 k]
    by (auto simp: map_filter_simps split: option.splits if_splits)
qed

text \<open>Loading the local environment file changes no exported variable: afterwards a variable has its exported
  value, or else what its first assignment in the file gives it, and no other variable exists.\<close>

theorem dotenv_exact:
  assumes "load_local_dotenv (Some text) env = (Inr (), env')"
  shows "map_of env' k =
    (case map_of env k of Some v \<Rightarrow> Some v | None \<Rightarrow> map_of (List.map_filter assignment (splitlines text)) k)"
  using assms load_lines_first by (simp add: load_local_dotenv_def)

lemma load_line_keeps: "keeps (\<lambda>e e'. map_of e \<subseteq>\<^sub>m map_of e') (load_line l)"
  by (auto simp: keeps_def load_line_def set_variable_def update_conv' map_le_def split: option.splits if_splits)

text \<open>A variable written twice in the file, one that is exported, a comment and a line without an assignment.\<close>

definition sample_dotenv :: string where
  "sample_dotenv = ''# local'' @ [CHR 0x0A] @ ''HOST = localhost'' @ [CHR 0x0A, CHR 0x0A] @ ''HOST=other'' @ [CHR 0x0A] @
     ''MODEL_NAME='' @ [CHR 0x22] @ ''x=y'' @ [CHR 0x22] @ [CHR 0x0A] @ ''nothing'' @ [CHR 0x0A] @ '' = z''"

theorem dotenv_exact_witness:
  "\<exists>env'. load_local_dotenv (Some sample_dotenv) [(''MODEL_NAME'', ''m'')] = (Inr (), env') \<and>
     map_of env' ''HOST'' = Some ''localhost'' \<and> map_of env' ''MODEL_NAME'' = Some ''m''"
proof -
  have run: "load_local_dotenv (Some sample_dotenv) [(''MODEL_NAME'', ''m'')] =
      (Inr (), [(''MODEL_NAME'', ''m''), (''HOST'', ''localhost'')])" by code_simp
  have "map_of (List.map_filter assignment (splitlines sample_dotenv)) ''HOST'' = Some ''localhost''" by code_simp
  then show ?thesis using run dotenv_exact[OF run, of "''HOST''"] by auto
qed

section \<open>What validation guarantees\<close>

lemma refuse_ok [simp]: "refuse b m = Inr () \<longleftrightarrow> \<not> b"
  by (simp add: refuse_def)

lemma first_failure_ok: "first_failure rs = Inr () \<longleftrightarrow> list_all (\<lambda>r. r = Inr ()) rs"
  by (induction rs) (auto simp: bindE_Inr_iff)

lemma validate_ok: "validate_settings env s = Inr () \<longleftrightarrow> list_all (\<lambda>r. r = Inr ()) (checks env s)"
  by (simp only: validate_settings_def first_failure_ok)

definition pinned :: "string \<Rightarrow> bool" where
  "pinned img \<longleftrightarrow> (\<exists>name digest. img = name @ ''@sha256:'' @ digest \<and> name \<noteq> [] \<and> length digest = 64 \<and> list_all hex_lower digest)"

lemma pinned_image: "fullmatch PINNED_IMAGE img \<Longrightarrow> pinned img"
  unfolding PINNED_IMAGE_def pinned_def
  by (subst (asm) fullmatch_iff) (auto simp del: lang.simps(3) Rep.simps Lit.simps simp: lang.simps(3)[abs_def])

lemma identifier_iff:
  "fullmatch IDENTIFIER s \<longleftrightarrow> (\<exists>c w. s = c # w \<and> is_ascii_alnum c \<and> length w \<le> 127 \<and> list_all service_name_char w)"
proof -
  have "fullmatch IDENTIFIER s \<longleftrightarrow> s \<in> lang IDENTIFIER" by (rule fullmatch_iff) (simp add: IDENTIFIER_def)
  also have "lang IDENTIFIER = {c # w |c w. is_ascii_alnum c \<and> w \<in> lang (Seq (Upto 127 (Sat service_name_char)) Eps)}"
    unfolding IDENTIFIER_def Seqs.simps by (rule lang_Seq_Sat)
  also have "lang (Seq (Upto 127 (Sat service_name_char)) Eps) = {w. length w \<le> 127 \<and> list_all service_name_char w}"
    unfolding lang.simps(1,3) lang_Upto_Sat by auto
  finally show ?thesis by auto
qed

lemma given_iff: "given v \<longleftrightarrow> (\<exists>s. v = Some s \<and> s \<noteq> [])"
  by (simp add: given_def split: option.splits)

text \<open>An endpoint that passes leads to one HTTP(S) origin and carries no credentials; without TLS it stays on the host.\<close>

definition safe_endpoint :: "string \<Rightarrow> bool" where
  "safe_endpoint endpoint \<longleftrightarrow>
     (\<exists>u h. urlsplit endpoint = Inr u \<and> url_hostname u = Some h \<and> su_query u = [] \<and> su_fragment u = [] \<and>
        su_path u \<in> {[], ''/''} \<and> url_userinfo u \<in> {None, Some ([], None), Some ([], Some [])} \<and>
        (su_scheme u = ''https'' \<or> su_scheme u = ''http'' \<and> is_loopback_host h))"

lemma check_endpoint_ok: "check_endpoint e = Inr () \<Longrightarrow> safe_endpoint e"
  by (auto simp: check_endpoint_def safe_endpoint_def bindE_Inr_iff given_def split: option.splits)

lemma from_env_validated:
  "from_env dotenv env = (Inr s, env') \<Longrightarrow> validate_settings env' s = Inr () \<and> read_settings env' = Inr s"
  by (auto simp: from_env_def bindS_Inr_iff)

definition guarded :: "settings \<Rightarrow> bool" where
  "guarded s \<longleftrightarrow> cf_execution_enabled s \<or> \<not> is_loopback_host (cf_host s) \<longrightarrow> given (cf_bearer_token s)"

lemma validated:
  assumes "validate_settings env s = Inr ()"
  shows "guarded s" and "cf_execution_enabled s \<Longrightarrow> pinned (cf_container_image s)"
    and "cf_execution_enabled s \<Longrightarrow> cf_execution_engine s \<in> {''container'', ''podman'', ''docker''}"
    and "cf_lab_mode s = ''container-service'' \<Longrightarrow> cf_execution_enabled s"
    and "cf_app_mode s = ''live'' \<Longrightarrow> given (map_of env (cf_api_key_env s))"
    and "cf_otel_enabled s \<Longrightarrow> given (cf_otel_exporter_otlp_endpoint s)"
    and "cf_otel_exporter_otlp_endpoint s = Some e \<Longrightarrow> e \<noteq> [] \<Longrightarrow> safe_endpoint e"
    and "0 < cf_proposal_ttl_seconds s" and "0 \<le> cf_model_max_retries s"
    and "cf_lab_mode s \<in> {''synthetic'', ''container-service''}"
    and "fullmatch IDENTIFIER (cf_otel_service_name s)"
  using assms
  by (auto simp: validate_ok checks_def guarded_def pinned_image intro: check_endpoint_ok)

lemma validated_image: "validate_settings env s = Inr () \<Longrightarrow> cf_execution_enabled s \<Longrightarrow> fullmatch PINNED_IMAGE (cf_container_image s)"
  by (simp add: validate_ok checks_def)

text \<open>C30: Settings read from the environment are safe to run with: execution is enabled, or the host is not a loopback
  address, only with a non-empty bearer token; enabled execution uses an image pinned by a full SHA-256 digest; and
  telemetry leaves only to an HTTP(S) origin without credentials, unencrypted only to a loopback address.\<close>

theorem settings_safe:
  assumes "from_env dotenv env = (Inr s, env')"
  shows "(cf_execution_enabled s \<or> \<not> is_loopback_host (cf_host s) \<longrightarrow>
      (\<exists>secret. cf_bearer_token s = Some secret \<and> secret \<noteq> [])) \<and>
    (cf_execution_enabled s \<longrightarrow> pinned (cf_container_image s)) \<and>
    (cf_otel_enabled s \<longrightarrow> (\<exists>e. cf_otel_exporter_otlp_endpoint s = Some e \<and> safe_endpoint e))"
  using validated[OF conjunct1[OF from_env_validated[OF assms]]] by (auto simp: guarded_def given_iff)

definition sample_environment :: environment where
  "sample_environment = [(''HOST'', ''localhost''), (''EXECUTION_ENABLED'', ''1''), (''INCIDENT_AGENT_BEARER_TOKEN'', ''t''),
     (''OTEL_ENABLED'', ''1''), (''OTEL_EXPORTER_OTLP_ENDPOINT'', ''https://collector:4318/'')]"

lemma sample_settings:
  "\<exists>s. from_env None sample_environment = (Inr s, sample_environment) \<and> cf_execution_enabled s \<and> cf_otel_enabled s \<and>
    cf_bearer_token s = Some ''t'' \<and> cf_otel_exporter_otlp_endpoint s = Some ''https://collector:4318/'' \<and> validate_settings sample_environment s = Inr ()"
proof -
  have image: "fullmatch PINNED_IMAGE (cf_container_image default_settings)" by code_simp
  have name: "fullmatch IDENTIFIER ''incident-response-agent''" by code_simp
  have endpoint: "check_endpoint ''https://collector:4318/'' = Inr ()" by code_simp
  have host: "is_loopback_host ''localhost''" by code_simp
  obtain s where s: "read_settings sample_environment = Inr s" "cf_execution_enabled s" "cf_otel_enabled s"
    "cf_host s = ''localhost''" "cf_bearer_token s = Some ''t''" "cf_otel_exporter_otlp_endpoint s = Some ''https://collector:4318/''"
    "cf_container_image s = cf_container_image default_settings" "cf_otel_service_name s = ''incident-response-agent''"
    "cf_app_mode s = ''demo''" "cf_execution_engine s = ''container''" "cf_lab_mode s = ''synthetic''"
    "cf_model_max_retries s = 2" "cf_proposal_ttl_seconds s = 900" "cf_expiration_poll_seconds s = Finite 5"
    "cf_execution_timeout_seconds s = Finite 30" "cf_otel_export_timeout_seconds s = Finite 5"
    by (simp add: read_settings_def sample_environment_def getenv_def strict_bool_def refuse_def float_variable_def
        int_variable_def nonempty_variable_def given_def default_settings_def lower_def lower_char_def
        is_ascii_upper_def char_in_def code_def)
  then have "validate_settings sample_environment s = Inr ()"
    by (simp add: validate_ok checks_def given_def host image name endpoint)
  with s show ?thesis
    by (intro exI[of _ s]) (simp add: from_env_def load_local_dotenv_def bindS_def readS_def returnS_def)
qed

theorem settings_safe_witness:
  "\<exists>s env. from_env None sample_environment = (Inr s, env) \<and> cf_execution_enabled s \<and> pinned (cf_container_image s)"
  using sample_settings settings_safe[of None sample_environment] by blast

text \<open>A timeout that is not a number passes every check, and so does an infinite one.\<close>

lemma nan_timeout_accepted:
  assumes "validate_settings env s = Inr ()" and "x \<in> {NaN, PosInf}"
  shows "validate_settings env (s\<lparr>cf_execution_timeout_seconds := x, cf_expiration_poll_seconds := x, cf_otel_export_timeout_seconds := x\<rparr>) = Inr ()"
  using assms by (auto simp: validate_ok checks_def)

end
