(* ===== verification/Observability.thy ===== *)
theory Observability
  imports Config
begin

text \<open>
  \<open>observability.py\<close>: what the program hands to OpenTelemetry. A measurement is an instrument, a value and
  attributes; a span is its name, its attributes and whether it ended in an error. The exporters are third-party
  code; here is what reaches them.
\<close>

datatype attribute_value = Text string | Flag bool | Whole int | Number rat

type_synonym attributes = "(string \<times> attribute_value) list"

record span =
  sp_name :: string
  sp_attributes :: attributes
  sp_error :: bool

record measurement =
  me_instrument :: string
  me_value :: attribute_value
  me_attributes :: attributes

definition safe_identifier :: "string \<Rightarrow> string" where
  "safe_identifier value = (if fullmatch IDENTIFIER value then value else ''invalid_attribute'')"

section \<open>Spans\<close>

definition set_attribute :: "string \<Rightarrow> attribute_value \<Rightarrow> span \<Rightarrow> span" where
  "set_attribute key value sp = sp\<lparr>sp_attributes := AList.update key value (sp_attributes sp)\<rparr>"

text \<open>\<open>str.isalnum\<close>, for code points below 256.\<close>

definition isalnum :: "string \<Rightarrow> bool" where
  "isalnum s \<longleftrightarrow> s \<noteq> [] \<and> list_all (\<lambda>c. word_char c \<and> c \<noteq> CHR ''_'') s"

definition span_reason :: "exn \<Rightarrow> string" where
  "span_reason e =
     (if isalnum (filter (\<lambda>c. c \<noteq> CHR ''_'') (reason_code e)) then reason_code e else exn_class_name e)"

text \<open>The context manager \<open>span\<close> around a block: the span it leaves for the exporter, and the block's result.\<close>

definition finish_span :: "span \<Rightarrow> exn + 'a \<Rightarrow> span" where
  "finish_span sp result =
     (case result of
        Inr _ \<Rightarrow> sp
      | Inl e \<Rightarrow> (set_attribute ''incident.reason_code'' (Text (take 128 (span_reason e))) sp)\<lparr>sp_error := True\<rparr>)"

definition in_span ::
    "string \<Rightarrow> attributes \<Rightarrow> (span \<times> 's, 'a) action \<Rightarrow> 's \<Rightarrow> (exn + 'a) \<times> span \<times> 's" where
  "in_span name attributes body s =
     (case body (\<lparr>sp_name = name, sp_attributes = attributes, sp_error = False\<rparr>, s) of
        (result, (sp, s')) \<Rightarrow> (result, (finish_span sp result, s')))"

section \<open>Measurements\<close>

definition text_label :: "string \<Rightarrow> string \<Rightarrow> string \<times> attribute_value" where "text_label key value = (key, Text value)"

definition record_event_to_proposal :: "int \<Rightarrow> string \<Rightarrow> string \<Rightarrow> measurement list" where
  "record_event_to_proposal latency_ms scenario kind =
     [\<lparr>me_instrument = ''incident.event_to_proposal.duration'', me_value = Whole latency_ms,
       me_attributes = [text_label ''incident.scenario'' scenario, text_label ''incident.scenario_kind'' kind]\<rparr>]"

definition record_model :: "int \<Rightarrow> int \<Rightarrow> int \<Rightarrow> string \<Rightarrow> measurement list" where
  "record_model latency_ms token_count retry_count scenario =
     (let attributes = [text_label ''incident.scenario'' scenario] in
      [\<lparr>me_instrument = ''incident.model.duration'', me_value = Whole latency_ms, me_attributes = attributes\<rparr>,
       \<lparr>me_instrument = ''incident.model.tokens'', me_value = Whole token_count, me_attributes = attributes\<rparr>,
       \<lparr>me_instrument = ''incident.model.retries'', me_value = Whole retry_count, me_attributes = attributes\<rparr>])"

definition record_decision :: "rat \<Rightarrow> string \<Rightarrow> string \<Rightarrow> measurement list" where
  "record_decision wait_seconds decision scenario =
     [\<lparr>me_instrument = ''incident.approval_wait.duration'', me_value = Number wait_seconds,
       me_attributes = [text_label ''incident.decision'' decision, text_label ''incident.scenario'' scenario]\<rparr>]"

definition record_execution :: "string \<Rightarrow> string \<Rightarrow> string \<Rightarrow> bool \<Rightarrow> string \<Rightarrow> measurement list" where
  "record_execution action_id scenario kind success reason =
     [\<lparr>me_instrument = ''incident.execution.count'', me_value = Whole 1,
       me_attributes =
         [text_label ''incident.action_id'' action_id, text_label ''incident.scenario'' scenario, text_label ''incident.scenario_kind'' kind,
          text_label ''incident.result'' (if success then ''succeeded'' else ''failed''),
          text_label ''incident.reason_code'' (safe_identifier reason)]\<rparr>]"

definition record_expirations :: "nat \<Rightarrow> measurement list" where
  "record_expirations count =
     (if count = 0 then []
      else [\<lparr>me_instrument = ''incident.proposal.expirations'', me_value = Whole (int count),
             me_attributes = [text_label ''incident.result'' ''expired'']\<rparr>])"

definition record_investigation :: "int \<Rightarrow> nat \<Rightarrow> string \<Rightarrow> measurement list" where
  "record_investigation duration_ms tool_count result =
     (let attributes = [text_label ''incident.result'' (safe_identifier result)] in
      [\<lparr>me_instrument = ''incident.investigation.duration'', me_value = Whole duration_ms, me_attributes = attributes\<rparr>,
       \<lparr>me_instrument = ''incident.diagnostic_tool.count'', me_value = Whole (int tool_count), me_attributes = attributes\<rparr>])"

section \<open>HTTP spans\<close>

definition not_slash :: regex where "not_slash = Plus (Sat (\<lambda>c. c \<noteq> CHR ''/''))"

definition RUN_PATH :: regex where "RUN_PATH = Seqs [Lit ''/runs/'', not_slash]"

definition DECISION_PATH :: regex where "DECISION_PATH = Seqs [Lit ''/proposals/'', not_slash, Lit ''/decision'']"

definition EXECUTE_PATH :: regex where "EXECUTE_PATH = Seqs [Lit ''/proposals/'', not_slash, Lit ''/execute'']"

definition safe_route :: "string \<Rightarrow> string" where
  "safe_route path =
     (if path \<in> {''/events'', ''/maintenance/expire''} then path
      else if fullmatch RUN_PATH path then ''/runs/{run_id}''
      else if fullmatch DECISION_PATH path then ''/proposals/{proposal_id}/decision''
      else if fullmatch EXECUTE_PATH path then ''/proposals/{proposal_id}/execute''
      else ''/unmatched'')"

definition REDACTED :: string where "REDACTED = ''[REDACTED]''"

definition replacements :: "string \<Rightarrow> (string \<times> string) list" where
  "replacements route =
     [(''http.target'', route), (''http.url'', route), (''url.path'', route), (''url.query'', REDACTED), (''url.full'', route),
      (''http.user_agent'', REDACTED), (''user_agent.original'', REDACTED), (''http.server_name'', ''local-api''),
      (''server.address'', ''local-api''), (''http.host'', ''local-api''), (''net.host.name'', ''local-api''),
      (''net.peer.ip'', REDACTED), (''client.address'', REDACTED), (''http.client_ip'', REDACTED),
      (''network.peer.address'', REDACTED)]"

definition sanitize_http_span :: "(span \<times> bool) option \<Rightarrow> http_scope \<Rightarrow> span option" where
  "sanitize_http_span recorded sc =
     (case recorded of
        None \<Rightarrow> None
      | Some (sp, recording) \<Rightarrow>
          if \<not> recording then Some sp
          else Some (fold (\<lambda>(key, value) acc. if map_of (sp_attributes sp) key \<noteq> None then set_attribute key (Text value) acc else acc)
                 (replacements (safe_route (scope_path sc))) sp))"

section \<open>Providers\<close>

definition HTTP_METRIC_KEYS :: "string list" where
  "HTTP_METRIC_KEYS = [''http.method'', ''http.status_code'', ''http.flavor'', ''http.scheme'', ''http.request.method'',
     ''http.response.status_code'', ''http.route'', ''network.protocol.version'', ''url.scheme'']"

text \<open>The view drops every other attribute of the instruments \<open>http.server.*\<close>.\<close>

definition apply_views :: "measurement \<Rightarrow> measurement" where
  "apply_views m =
     (if prefix ''http.server.'' (me_instrument m)
      then m\<lparr>me_attributes := filter (\<lambda>(k, v). k \<in> set HTTP_METRIC_KEYS) (me_attributes m)\<rparr> else m)"

definition resource :: "settings \<Rightarrow> (string \<times> string) list" where
  "resource s = [(''service.name'', cf_otel_service_name s), (''service.version'', ''0.1.0''),
     (''deployment.environment.name'', cf_app_mode s)]"

record providers =
  pr_resource :: "(string \<times> string) list"
  pr_traces_endpoint :: string
  pr_metrics_endpoint :: string
  pr_timeout :: pyfloat
  pr_export_timeout_millis :: int

datatype observability = Noop | OpenTelemetry providers

text \<open>\<open>int(timeout * 1_000)\<close>; the product is rounded to a double.\<close>

fun milliseconds :: "pyfloat \<Rightarrow> exn + int" where
  "milliseconds (Finite x) =
     (case double_of (x * 1000) of Finite y \<Rightarrow> Inr (truncate_rat y) | NaN \<Rightarrow> Inl (ValueError ''cannot convert float NaN to integer'')
      | _ \<Rightarrow> Inl OverflowError)"
| "milliseconds NaN = Inl (ValueError ''cannot convert float NaN to integer'')"
| "milliseconds PosInf = Inl OverflowError"
| "milliseconds NegInf = Inl OverflowError"

definition rstrip_slashes :: "string \<Rightarrow> string" where
  "rstrip_slashes s = rev (dropWhile (\<lambda>c. c = CHR ''/'') (rev s))"

definition build_observability :: "settings \<Rightarrow> exn + observability" where
  "build_observability s =
     (if \<not> cf_otel_enabled s then Inr Noop
      else case cf_otel_exporter_otlp_endpoint s of
        None \<Rightarrow> Inl (ConfigurationError ''OTEL_ENABLED=1 requires OTEL_EXPORTER_OTLP_ENDPOINT'')
      | Some endpoint \<Rightarrow>
          if endpoint = [] then Inl (ConfigurationError ''OTEL_ENABLED=1 requires OTEL_EXPORTER_OTLP_ENDPOINT'')
          else
            bindE (milliseconds (cf_otel_export_timeout_seconds s)) (\<lambda>millis.
            Inr (OpenTelemetry \<lparr>pr_resource = resource s, pr_traces_endpoint = rstrip_slashes endpoint @ ''/v1/traces'',
              pr_metrics_endpoint = rstrip_slashes endpoint @ ''/v1/metrics'', pr_timeout = cf_otel_export_timeout_seconds s,
              pr_export_timeout_millis = max 1 millis\<rparr>)))"

text \<open>What a recording method adds to the exported measurements: nothing without OpenTelemetry.\<close>

definition exported :: "observability \<Rightarrow> measurement list \<Rightarrow> measurement list" where
  "exported obs ms = (case obs of Noop \<Rightarrow> [] | OpenTelemetry _ \<Rightarrow> map apply_views ms)"

text \<open>\<open>shutdown\<close> under its lock: the providers are shut down by the first call only.\<close>

record provider_state =
  ps_shutdown :: bool
  ps_calls :: nat

definition shutdown :: "observability \<Rightarrow> provider_state \<Rightarrow> provider_state" where
  "shutdown obs s =
     (case obs of Noop \<Rightarrow> s
      | OpenTelemetry _ \<Rightarrow> if ps_shutdown s then s else s\<lparr>ps_shutdown := True, ps_calls := Suc (ps_calls s)\<rparr>)"

lemma shutdown_once: "shutdown obs (shutdown obs s) = shutdown obs s"
  by (simp add: shutdown_def split: observability.split)

section \<open>What leaves the process\<close>

definition route_templates :: "string set" where
  "route_templates = {''/events'', ''/maintenance/expire'', ''/runs/{run_id}'', ''/proposals/{proposal_id}/decision'',
     ''/proposals/{proposal_id}/execute'', ''/unmatched''}"

lemma safe_route_template: "safe_route path \<in> route_templates"
  by (simp add: safe_route_def route_templates_def)

lemma fold_set_attributes:
  assumes "distinct (map fst rs)"
  shows "map_of (sp_attributes (fold (\<lambda>(key, value) acc. if P key then set_attribute key (Text value) acc else acc) rs sp)) k =
    (case map_of rs k of Some value \<Rightarrow> if P k then Some (Text value) else map_of (sp_attributes sp) k
     | None \<Rightarrow> map_of (sp_attributes sp) k)"
  using assms
proof (induction rs arbitrary: sp)
  case (Cons r rs)
  obtain key v where r: "r = (key, v)" by (cases r)
  have "map_of rs key = None" using Cons.prems r by (simp add: map_of_eq_None_iff)
  then show ?case using Cons.IH Cons.prems by (auto simp: r set_attribute_def update_conv' split: option.splits)
qed simp

lemma replacements_distinct: "distinct (map fst (replacements route))"
  by (simp add: replacements_def)

text \<open>
  What the instrumentation writes on a span is third-party code: a function of the request. Of it is known what
  the semantic conventions say: which attributes carry a request's path, query, host, peer address and user
  agent, and that every other attribute is a function of the method, the scheme, the protocol version and the
  two ports. The list is that of the conventions (the older names and the newer ones), not the hook's.
\<close>

record wire_request = http_scope +
  sc_query :: string
  sc_scheme :: string
  sc_version :: string
  sc_client :: "(string \<times> int) option"
  sc_server :: "(string \<times> int) option"

definition public_part :: "wire_request \<Rightarrow> string option \<times> string \<times> string \<times> int option \<times> int option" where
  "public_part r = (sc_method r, sc_scheme r, sc_version r, map_option snd (sc_client r), map_option snd (sc_server r))"

definition carrier_attributes :: "string list" where
  "carrier_attributes =
     [''http.target'', ''http.url'', ''url.path'', ''url.full''] @
     [''url.query''] @
     [''http.host'', ''http.server_name'', ''net.host.name'', ''server.address''] @
     [''net.peer.ip'', ''http.client_ip'', ''client.address'', ''network.peer.address''] @
     [''http.user_agent'', ''user_agent.original'']"

definition semantic_conventions :: "(wire_request \<Rightarrow> attributes) \<Rightarrow> bool" where
  "semantic_conventions instrument \<longleftrightarrow>
     (\<forall>r r' k. public_part r = public_part r' \<longrightarrow> k \<notin> set carrier_attributes \<longrightarrow>
        map_of (instrument r) k = map_of (instrument r') k)"

definition request_span :: "(wire_request \<Rightarrow> attributes) \<Rightarrow> string \<Rightarrow> wire_request \<Rightarrow> span" where
  "request_span instrument name r = \<lparr>sp_name = name, sp_attributes = instrument r, sp_error = False\<rparr>"

lemma sanitized_attribute:
  assumes "sanitize_http_span (Some (sp, True)) sc = Some sp'"
  shows "map_of (sp_attributes sp') k =
    (case map_of (replacements (safe_route (scope_path sc))) k of
       Some value \<Rightarrow> if map_of (sp_attributes sp) k \<noteq> None then Some (Text value) else None
     | None \<Rightarrow> map_of (sp_attributes sp) k)"
proof -
  let ?rs = "replacements (safe_route (scope_path sc))"
  have sp': "sp' = fold (\<lambda>(key, value) acc. if map_of (sp_attributes sp) key \<noteq> None then set_attribute key (Text value) acc else acc) ?rs sp"
    using assms by (simp add: sanitize_http_span_def)
  show ?thesis unfolding sp' by (auto simp: fold_set_attributes[OF replacements_distinct] split: option.split)
qed

lemma carrier_replaced:
  assumes "k \<in> set carrier_attributes"
  shows "\<exists>x \<in> {route, REDACTED, ''local-api''}. map_of (replacements route) k = Some x"
  using assms by (auto simp: carrier_attributes_def replacements_def)


text \<open>An instrumentation with the older names, and a request for a run.\<close>

definition asgi_attributes :: "wire_request \<Rightarrow> attributes" where
  "asgi_attributes r =
     [(''http.method'', Text (case sc_method r of None \<Rightarrow> [] | Some m \<Rightarrow> m)), (''http.scheme'', Text (sc_scheme r)),
      (''http.flavor'', Text (sc_version r)), (''http.target'', Text (case sc_path r of None \<Rightarrow> [] | Some p \<Rightarrow> p)),
      (''url.query'', Text (sc_query r))] @
     (case sc_client r of None \<Rightarrow> [] | Some (ip, port) \<Rightarrow> [(''net.peer.ip'', Text ip), (''net.peer.port'', Whole port)]) @
     (case map_of (sc_headers r) ''user-agent'' of None \<Rightarrow> [] | Some agent \<Rightarrow> [(''http.user_agent'', Text agent)])"

definition run_request :: "string \<Rightarrow> string \<Rightarrow> string \<Rightarrow> wire_request" where
  "run_request run_id ip agent =
     \<lparr>sc_type = ''http'', sc_method = Some ''GET'', sc_path = Some (''/runs/'' @ run_id), sc_headers = [(''user-agent'', agent)],
      sc_query = run_id, sc_scheme = ''http'', sc_version = ''1.1'', sc_client = Some (ip, 40), sc_server = None\<rparr>"

lemma asgi_conventions: "semantic_conventions asgi_attributes"
  unfolding semantic_conventions_def
proof (intro allI impI)
  fix r r' :: wire_request and k assume same: "public_part r = public_part r'" and k: "k \<notin> set carrier_attributes"
  have ports: "map_option snd (sc_client r) = map_option snd (sc_client r')" using same by (simp add: public_part_def)
  show "map_of (asgi_attributes r) k = map_of (asgi_attributes r') k"
    using same k ports
    by (cases "sc_client r"; cases "sc_client r'")
      (auto simp: asgi_attributes_def public_part_def carrier_attributes_def split: option.splits)
qed


lemma safe_identifier_bounded: "length (safe_identifier s) \<le> 128 \<and> (\<forall>c \<in> set (safe_identifier s). service_name_char c)"
proof (cases "fullmatch IDENTIFIER s")
  case True
  then obtain c w where "s = c # w" "is_ascii_alnum c" "length w \<le> 127" "list_all service_name_char w"
    using identifier_iff by blast
  with True show ?thesis by (auto simp: safe_identifier_def service_name_char_def list_all_iff)
next
  case False
  have "\<forall>c \<in> set ''invalid_attribute''. service_name_char c" by code_simp
  with False show ?thesis by (simp add: safe_identifier_def)
qed

text \<open>An export timeout that is infinite passes validation and then stops the construction of the service.\<close>

lemma infinite_export_timeout:
  assumes "cf_otel_enabled s" and "cf_otel_exporter_otlp_endpoint s = Some e" and "e \<noteq> []"
  shows "build_observability (s\<lparr>cf_otel_export_timeout_seconds := PosInf\<rparr>) = Inl OverflowError"
  using assms by (simp add: build_observability_def)

end
