(* ===== verification/Migration.thy ===== *)
theory Migration
  imports Storage
begin

text \<open>
  The schema of \<open>storage.py\<close> and its migration of a database of an earlier version. Here the tables hold the texts
  SQLite holds; \<open>read_as\<close> relates them to the decoded rows of \<open>Storage\<close>. \<open>executescript\<close> commits the transaction it is
  run in, and the connection commits every later statement by itself, so the migration is the sequence of its
  statements: a process that dies leaves a prefix of them behind. \<open>json.loads\<close> is a parameter, None for JSONDecodeError.
\<close>

section \<open>The tables as SQLite holds them\<close>

record text_run =
  xr_id :: string
  xr_key :: string
  xr_payload_hash :: string
  xr_event_json :: string
  xr_trace_id :: string
  xr_state :: string
  xr_created_at :: string
  xr_updated_at :: string

record text_proposal =
  xp_id :: string
  xp_run_id :: string
  xp_revision :: int
  xp_status :: string
  xp_scenario :: string
  xp_kind :: string
  xp_assessment_json :: string
  xp_option_json :: string
  xp_action_hash :: string
  xp_expires_at :: string
  xp_created_at :: string
  xp_approved_hash :: "string option"

record text_audit =
  xa_id :: nat
  xa_trace_id :: string
  xa_run_id :: string
  xa_proposal_id :: "string option"
  xa_event_type :: string
  xa_metadata_json :: string
  xa_occurred_at :: string

text \<open>\<open>tb_columns\<close>: the columns of the proposals table, \<open>tb_version\<close>: \<open>PRAGMA user_version\<close>.\<close>

record tables =
  tb_runs :: "text_run list"
  tb_proposals :: "text_proposal list"
  tb_audit :: "text_audit list"
  tb_next_audit :: nat
  tb_columns :: "string list"
  tb_version :: int

text \<open>What \<open>CREATE TABLE IF NOT EXISTS\<close> makes of an empty file.\<close>

definition PROPOSAL_COLUMNS :: "string list" where
  "PROPOSAL_COLUMNS = [''proposal_id'', ''run_id'', ''revision'', ''status'', ''scenario'', ''scenario_kind'', ''assessment_json'',
     ''option_json'', ''action_hash'', ''expires_at'', ''created_at'', ''approved_action_hash'']"

definition created_tables :: tables where
  "created_tables = \<lparr>tb_runs = [], tb_proposals = [], tb_audit = [], tb_next_audit = 1, tb_columns = PROPOSAL_COLUMNS,
     tb_version = 0\<rparr>"

section \<open>Statements\<close>

datatype statement =
    Add_scenario_column
  | Add_kind_column
  | Set_event string string string
  | Set_metadata nat string
  | Retire_proposal string
  | Expire_run string
  | Insert_audit text_audit
  | Set_version int

primrec perform :: "tables \<Rightarrow> statement \<Rightarrow> tables" where
  "perform t Add_scenario_column =
     t\<lparr>tb_columns := tb_columns t @ [''scenario''],
       tb_proposals := map (\<lambda>p. p\<lparr>xp_scenario := ''disk-exhaustion''\<rparr>) (tb_proposals t)\<rparr>"
| "perform t Add_kind_column =
     t\<lparr>tb_columns := tb_columns t @ [''scenario_kind''],
       tb_proposals := map (\<lambda>p. p\<lparr>xp_kind := ''synthetic_marker''\<rparr>) (tb_proposals t)\<rparr>"
| "perform t (Set_event k event payload_hash) =
     t\<lparr>tb_runs := update_where (\<lambda>r. xr_id r = k) (\<lambda>r. r\<lparr>xr_event_json := event, xr_payload_hash := payload_hash\<rparr>) (tb_runs t)\<rparr>"
| "perform t (Set_metadata i metadata) =
     t\<lparr>tb_audit := update_where (\<lambda>a. xa_id a = i) (\<lambda>a. a\<lparr>xa_metadata_json := metadata\<rparr>) (tb_audit t)\<rparr>"
| "perform t (Retire_proposal k) =
     t\<lparr>tb_proposals := update_where (\<lambda>p. xp_id p = k) (\<lambda>p. p\<lparr>xp_status := ''expired''\<rparr>) (tb_proposals t)\<rparr>"
| "perform t (Expire_run k) =
     t\<lparr>tb_runs := update_where (\<lambda>r. xr_id r = k) (\<lambda>r. r\<lparr>xr_state := ''expired''\<rparr>) (tb_runs t)\<rparr>"
| "perform t (Insert_audit a) =
     t\<lparr>tb_audit := tb_audit t @ [a\<lparr>xa_id := tb_next_audit t\<rparr>], tb_next_audit := Suc (tb_next_audit t)\<rparr>"
| "perform t (Set_version v) = t\<lparr>tb_version := v\<rparr>"

section \<open>The migration\<close>

text \<open>\<open>legacy.get("payload")\<close>, with an empty dictionary for whatever is not one.\<close>

definition legacy_payload :: "json option \<Rightarrow> (string \<times> json) list" where
  "legacy_payload legacy =
     (case legacy of
        Some (JObj members) \<Rightarrow> (case map_of members ''payload'' of Some (JObj payload) \<Rightarrow> payload | _ \<Rightarrow> [])
      | _ \<Rightarrow> [])"

definition SCENARIO_ALIASES :: "(string \<times> string) list" where
  "SCENARIO_ALIASES = [(''failed-log-rotation-disk-exhaustion'', ''disk-exhaustion''), (''disk'', ''disk-exhaustion''), (''oom'', ''memory-oom'')]"

definition LEGACY_SCENARIOS :: "string list" where
  "LEGACY_SCENARIOS = [''disk-exhaustion'', ''runaway-cpu'', ''memory-oom'', ''restarting-service'', ''log-storm'']"

text \<open>\<open>str\<close> of a value that is no string is neither an alias nor a scenario, so its text does not matter.\<close>

definition legacy_scenario :: "(string \<times> json) list \<Rightarrow> string" where
  "legacy_scenario payload =
     (let text = (case map_of payload ''scenario'' of None \<Rightarrow> ''disk-exhaustion'' | Some (JStr s) \<Rightarrow> s | Some _ \<Rightarrow> ''?'');
          scenario = (case map_of SCENARIO_ALIASES text of Some s \<Rightarrow> s | None \<Rightarrow> text)
      in if scenario \<in> set LEGACY_SCENARIOS then scenario else ''disk-exhaustion'')"

text \<open>The four members the payload hash is taken of, and the normalized event with the other two.\<close>

definition canonical_members :: "string \<Rightarrow> text_run \<Rightarrow> (string \<times> json) list" where
  "canonical_members scenario r =
     [(''source'', JStr ''local_simulation''), (''observed_at'', JStr (xr_created_at r)), (''event_type'', JStr ''incident.detected''),
      (''payload'', JObj [(''scenario'', JStr scenario),
         (''summary'', JStr ''legacy event content removed during security migration''), (''log_lines'', JList []),
         (''context'', JList [])])]"

definition normalized_event :: "string \<Rightarrow> text_run \<Rightarrow> json" where
  "normalized_event scenario r =
     JObj ((''idempotency_key'', JStr (xr_key r)) # canonical_members scenario r @ [(''trace_id'', JStr (xr_trace_id r))])"

definition run_statement ::
    "(string \<Rightarrow> json option) \<Rightarrow> (string \<Rightarrow> string) \<Rightarrow> (rat \<Rightarrow> string) \<Rightarrow> text_run \<Rightarrow> statement" where
  "run_statement loads sha fr r =
     (let scenario = legacy_scenario (legacy_payload (loads (xr_event_json r))) in
      Set_event (xr_id r) (json_text fr (normalized_event scenario r)) (sha (json_text fr (JObj (canonical_members scenario r)))))"

definition migrated_metadata :: "json option \<Rightarrow> (string \<times> json) list" where
  "migrated_metadata metadata =
     (case metadata of
        None \<Rightarrow> [(''migration_note'', JStr ''invalid legacy audit metadata removed'')]
      | Some (JObj members) \<Rightarrow> members
      | Some _ \<Rightarrow> [(''migration_note'', JStr ''non-object legacy audit metadata removed'')])"

definition audit_statement :: "(string \<Rightarrow> json option) \<Rightarrow> (rat \<Rightarrow> string) \<Rightarrow> text_audit \<Rightarrow> statement" where
  "audit_statement loads fr a = Set_metadata (xa_id a) (json_text fr (safe_metadata (migrated_metadata (loads (xa_metadata_json a)))))"

definition legacy_active :: "tables \<Rightarrow> (text_proposal \<times> text_run) list" where
  "legacy_active t =
     [(p, r). p \<leftarrow> tb_proposals t, xp_status p \<in> {''proposed'', ''approved'', ''executing''}, r \<leftarrow> tb_runs t, xr_id r = xp_run_id p]"

definition retire_statements :: "(rat \<Rightarrow> string) \<Rightarrow> text_proposal \<times> text_run \<Rightarrow> statement list" where
  "retire_statements fr = (\<lambda>(p, r).
     [Retire_proposal (xp_id p), Expire_run (xp_run_id p),
      Insert_audit \<lparr>xa_id = 0, xa_trace_id = xr_trace_id r, xa_run_id = xp_run_id p, xa_proposal_id = Some (xp_id p),
        xa_event_type = ''proposal_expired'',
        xa_metadata_json = json_text fr (safe_metadata [(''revision'', JInt (xp_revision p)),
          (''reason'', JStr ''security_schema_migration''), (''actor'', JStr ''system-migration'')]),
        xa_occurred_at = xr_updated_at r\<rparr>])"

definition migrate_legacy_records ::
    "(string \<Rightarrow> json option) \<Rightarrow> (string \<Rightarrow> string) \<Rightarrow> (rat \<Rightarrow> string) \<Rightarrow> tables \<Rightarrow> statement list" where
  "migrate_legacy_records loads sha fr t =
     map (run_statement loads sha fr) (tb_runs t) @ map (audit_statement loads fr) (tb_audit t) @
     concat (map (retire_statements fr) (legacy_active t))"

definition column_statements :: "tables \<Rightarrow> statement list" where
  "column_statements t =
     (if ''scenario'' \<notin> set (tb_columns t) then [Add_scenario_column] else []) @
     (if ''scenario_kind'' \<notin> set (tb_columns t) then [Add_kind_column] else [])"

text \<open>Every statement of \<open>_initialize_schema\<close> after the tables exist; no loop reads what an earlier one wrote.\<close>

definition schema_statements ::
    "(string \<Rightarrow> json option) \<Rightarrow> (string \<Rightarrow> string) \<Rightarrow> (rat \<Rightarrow> string) \<Rightarrow> tables \<Rightarrow> statement list" where
  "schema_statements loads sha fr t =
     column_statements t @
     (if tb_version t < 2 then migrate_legacy_records loads sha fr t @ [Set_version 2] else [])"

definition initialize_schema ::
    "(string \<Rightarrow> json option) \<Rightarrow> (string \<Rightarrow> string) \<Rightarrow> (rat \<Rightarrow> string) \<Rightarrow> tables \<Rightarrow> tables" where
  "initialize_schema loads sha fr t = foldl perform t (schema_statements loads sha fr t)"

text \<open>What a process that dies during the migration leaves behind.\<close>

definition interrupted ::
    "(string \<Rightarrow> json option) \<Rightarrow> (string \<Rightarrow> string) \<Rightarrow> (rat \<Rightarrow> string) \<Rightarrow> nat \<Rightarrow> tables \<Rightarrow> tables" where
  "interrupted loads sha fr n t = foldl perform t (take n (schema_statements loads sha fr t))"

section \<open>The outcome of the migration\<close>

text \<open>What the primary keys, the reference to a run and \<open>AUTOINCREMENT\<close> promise of the tables.\<close>

definition tables_ok :: "tables \<Rightarrow> bool" where
  "tables_ok t \<longleftrightarrow> distinct (map xr_id (tb_runs t)) \<and> distinct (map xp_id (tb_proposals t)) \<and>
     xp_run_id ` set (tb_proposals t) \<subseteq> xr_id ` set (tb_runs t) \<and>
     distinct (map xa_id (tb_audit t)) \<and> (\<forall>a \<in> set (tb_audit t). xa_id a < tb_next_audit t)"

definition active_status :: "text_proposal \<Rightarrow> bool" where
  "active_status p \<longleftrightarrow> xp_status p \<in> {''proposed'', ''approved'', ''executing''}"

text \<open>The rows after the migration, each from the row before it.\<close>

definition migrated_run ::
    "(string \<Rightarrow> json option) \<Rightarrow> (string \<Rightarrow> string) \<Rightarrow> (rat \<Rightarrow> string) \<Rightarrow> tables \<Rightarrow> text_run \<Rightarrow> text_run" where
  "migrated_run loads sha fr t r =
     (let scenario = legacy_scenario (legacy_payload (loads (xr_event_json r))) in
      r\<lparr>xr_event_json := json_text fr (normalized_event scenario r),
        xr_payload_hash := sha (json_text fr (JObj (canonical_members scenario r))),
        xr_state := (if \<exists>p \<in> set (tb_proposals t). active_status p \<and> xp_run_id p = xr_id r then ''expired'' else xr_state r)\<rparr>)"

definition migrated_proposal :: "text_proposal \<Rightarrow> text_proposal" where
  "migrated_proposal p = (if active_status p then p\<lparr>xp_status := ''expired''\<rparr> else p)"

definition migrated_audit :: "(string \<Rightarrow> json option) \<Rightarrow> (rat \<Rightarrow> string) \<Rightarrow> text_audit \<Rightarrow> text_audit" where
  "migrated_audit loads fr a = a\<lparr>xa_metadata_json := json_text fr (safe_metadata (migrated_metadata (loads (xa_metadata_json a))))\<rparr>"

definition expiry_entry :: "(rat \<Rightarrow> string) \<Rightarrow> nat \<Rightarrow> text_proposal \<times> text_run \<Rightarrow> text_audit" where
  "expiry_entry fr i = (\<lambda>(p, r).
     \<lparr>xa_id = i, xa_trace_id = xr_trace_id r, xa_run_id = xp_run_id p, xa_proposal_id = Some (xp_id p),
      xa_event_type = ''proposal_expired'',
      xa_metadata_json = json_text fr (safe_metadata [(''revision'', JInt (xp_revision p)),
        (''reason'', JStr ''security_schema_migration''), (''actor'', JStr ''system-migration'')]),
      xa_occurred_at = xr_updated_at r\<rparr>)"

primrec expiry_entries :: "(rat \<Rightarrow> string) \<Rightarrow> nat \<Rightarrow> (text_proposal \<times> text_run) list \<Rightarrow> text_audit list" where
  "expiry_entries fr i [] = []"
| "expiry_entries fr i (pr # prs) = expiry_entry fr i pr # expiry_entries fr (Suc i) prs"

lemma foldl_updates:
  assumes "distinct (map key xs)" and "\<And>x y. key (g x y) = key y"
  shows "foldl (\<lambda>ys x. update_where (\<lambda>y. key y = key x) (g x) ys) ys xs =
    map (\<lambda>y. case find (\<lambda>x. key x = key y) xs of None \<Rightarrow> y | Some x \<Rightarrow> g x y) ys"
  using assms(1)
proof (induction xs arbitrary: ys)
  case (Cons x xs)
  have "find (\<lambda>z. key z = key x) xs = None" using Cons.prems by (auto simp: find_None_iff rev_image_eqI)
  then show ?case using Cons by (auto simp: update_where_def assms(2))
qed simp

lemma foldl_own_updates:
  assumes "distinct (map key xs)" and "\<And>x y. key (g x y) = key y"
  shows "foldl (\<lambda>ys x. update_where (\<lambda>y. key y = key x) (g x) ys) xs xs = map (\<lambda>x. g x x) xs"
proof (rule trans[OF foldl_updates[where key = key and g = g, OF assms]], rule map_cong[OF refl])
  fix x assume "x \<in> set xs"
  then have "find (\<lambda>z. key z = key x) xs = Some x" using select_one_distinct[OF assms(1)] by (simp add: select_one_def)
  then show "(case find (\<lambda>z. key z = key x) xs of None \<Rightarrow> x | Some z \<Rightarrow> g z x) = g x x" by simp
qed

lemma perform_runs:
  "foldl perform t (map (run_statement loads sha fr) rs) =
    t\<lparr>tb_runs := foldl (\<lambda>ys x. update_where (\<lambda>y. xr_id y = xr_id x)
       (\<lambda>y. let scenario = legacy_scenario (legacy_payload (loads (xr_event_json x))) in
          y\<lparr>xr_event_json := json_text fr (normalized_event scenario x),
            xr_payload_hash := sha (json_text fr (JObj (canonical_members scenario x)))\<rparr>) ys) (tb_runs t) rs\<rparr>"
  by (induction rs arbitrary: t) (simp_all add: run_statement_def Let_def)

lemma perform_audits:
  "foldl perform t (map (audit_statement loads fr) as) =
    t\<lparr>tb_audit := foldl (\<lambda>ys x. update_where (\<lambda>y. xa_id y = xa_id x)
       (\<lambda>y. y\<lparr>xa_metadata_json := json_text fr (safe_metadata (migrated_metadata (loads (xa_metadata_json x))))\<rparr>) ys) (tb_audit t) as\<rparr>"
  by (induction as arbitrary: t) (simp_all add: audit_statement_def)

lemma perform_retirements:
  "foldl perform t (concat (map (retire_statements fr) prs)) =
    t\<lparr>tb_proposals := map (\<lambda>p. if xp_id p \<in> xp_id ` fst ` set prs then p\<lparr>xp_status := ''expired''\<rparr> else p) (tb_proposals t),
      tb_runs := map (\<lambda>r. if xr_id r \<in> xp_run_id ` fst ` set prs then r\<lparr>xr_state := ''expired''\<rparr> else r) (tb_runs t),
      tb_audit := tb_audit t @ expiry_entries fr (tb_next_audit t) prs,
      tb_next_audit := tb_next_audit t + length prs\<rparr>"
proof (induction prs arbitrary: t)
  case (Cons pr prs)
  obtain p r where pr: "pr = (p, r)" by (cases pr)
  have "foldl perform t (concat (map (retire_statements fr) (pr # prs))) =
      foldl perform (foldl perform t (retire_statements fr pr)) (concat (map (retire_statements fr) prs))" by simp
  also have "foldl perform t (retire_statements fr pr) =
      t\<lparr>tb_proposals := update_where (\<lambda>q. xp_id q = xp_id p) (\<lambda>q. q\<lparr>xp_status := ''expired''\<rparr>) (tb_proposals t),
        tb_runs := update_where (\<lambda>q. xr_id q = xp_run_id p) (\<lambda>q. q\<lparr>xr_state := ''expired''\<rparr>) (tb_runs t),
        tb_audit := tb_audit t @ [expiry_entry fr (tb_next_audit t) pr], tb_next_audit := Suc (tb_next_audit t)\<rparr>" (is "_ = ?u")
    by (simp add: pr retire_statements_def expiry_entry_def)
  also have "foldl perform ?u (concat (map (retire_statements fr) prs)) =
      ?u\<lparr>tb_proposals := map (\<lambda>q. if xp_id q \<in> xp_id ` fst ` set prs then q\<lparr>xp_status := ''expired''\<rparr> else q) (tb_proposals ?u),
         tb_runs := map (\<lambda>q. if xr_id q \<in> xp_run_id ` fst ` set prs then q\<lparr>xr_state := ''expired''\<rparr> else q) (tb_runs ?u),
         tb_audit := tb_audit ?u @ expiry_entries fr (tb_next_audit ?u) prs,
         tb_next_audit := tb_next_audit ?u + length prs\<rparr>" by (rule Cons.IH)
  finally show ?case by (auto simp: pr update_where_def intro!: tables.equality)
qed (auto intro!: tables.equality)

text \<open>The version decides whether anything is migrated; missing columns are added before.\<close>

definition with_columns :: "tables \<Rightarrow> tables" where
  "with_columns t = foldl perform t (column_statements t)"

lemma with_columns_fields [simp]:
  "tb_runs (with_columns t) = tb_runs t" "tb_audit (with_columns t) = tb_audit t"
  "tb_next_audit (with_columns t) = tb_next_audit t" "tb_version (with_columns t) = tb_version t"
  by (simp_all add: with_columns_def column_statements_def)

lemma with_columns_active:
  "map (\<lambda>p. (xp_id p, xp_run_id p, xp_revision p, xp_status p)) (tb_proposals (with_columns t)) =
   map (\<lambda>p. (xp_id p, xp_run_id p, xp_revision p, xp_status p)) (tb_proposals t)"
  by (simp add: with_columns_def column_statements_def)

lemma active_pairs:
  assumes "tables_ok t"
  shows "p \<in> fst ` set (legacy_active t) \<longleftrightarrow> p \<in> set (tb_proposals t) \<and> active_status p"
proof
  assume "p \<in> fst ` set (legacy_active t)"
  then show "p \<in> set (tb_proposals t) \<and> active_status p" by (auto simp: legacy_active_def active_status_def split: if_splits)
next
  assume p: "p \<in> set (tb_proposals t) \<and> active_status p"
  then obtain r where "r \<in> set (tb_runs t)" "xr_id r = xp_run_id p" using assms by (auto simp: tables_ok_def)
  then have "(p, r) \<in> set (legacy_active t)" using p by (auto simp: legacy_active_def active_status_def)
  then show "p \<in> fst ` set (legacy_active t)" by force
qed

lemma retired_proposals:
  assumes "tables_ok t"
  shows "map (\<lambda>p. if xp_id p \<in> xp_id ` fst ` set (legacy_active t) then p\<lparr>xp_status := ''expired''\<rparr> else p) (tb_proposals (with_columns t)) =
    map migrated_proposal (tb_proposals (with_columns t))"
proof (rule map_cong[OF refl])
  fix p assume "p \<in> set (tb_proposals (with_columns t))"
  then have "(xp_id p, xp_run_id p, xp_revision p, xp_status p) \<in>
      set (map (\<lambda>p. (xp_id p, xp_run_id p, xp_revision p, xp_status p)) (tb_proposals (with_columns t)))" by force
  then obtain q where q: "q \<in> set (tb_proposals t)" "xp_id q = xp_id p" "xp_status q = xp_status p"
    unfolding with_columns_active by auto
  have "xp_id p \<in> xp_id ` fst ` set (legacy_active t) \<longleftrightarrow> active_status q"
  proof
    assume "xp_id p \<in> xp_id ` fst ` set (legacy_active t)"
    then obtain q' where "q' \<in> fst ` set (legacy_active t)" "xp_id q' = xp_id p" by (metis imageE)
    moreover from this q assms have "q' = q" unfolding active_pairs[OF assms] tables_ok_def by (metis distinct_map inj_onD)
    ultimately show "active_status q" unfolding active_pairs[OF assms] by blast
  next
    assume "active_status q"
    then have "q \<in> fst ` set (legacy_active t)" using q(1) active_pairs[OF assms] by blast
    then show "xp_id p \<in> xp_id ` fst ` set (legacy_active t)" using q(2) by (metis imageI)
  qed
  moreover have "active_status q = active_status p" using q(3) by (simp add: active_status_def)
  ultimately show "(if xp_id p \<in> xp_id ` fst ` set (legacy_active t) then p\<lparr>xp_status := ''expired''\<rparr> else p) = migrated_proposal p"
    by (simp add: migrated_proposal_def)
qed

lemma initialize_old:
  assumes "tables_ok t" and "tb_version t < 2"
  shows "initialize_schema loads sha fr t =
    (with_columns t)\<lparr>tb_runs := map (migrated_run loads sha fr t) (tb_runs t),
      tb_proposals := map migrated_proposal (tb_proposals (with_columns t)),
      tb_audit := map (migrated_audit loads fr) (tb_audit t) @ expiry_entries fr (tb_next_audit t) (legacy_active t),
      tb_next_audit := tb_next_audit t + length (legacy_active t), tb_version := 2\<rparr>"
proof -
  have d: "distinct (map xr_id (tb_runs t))" "distinct (map xa_id (tb_audit t))" using assms(1) by (auto simp: tables_ok_def)
  have active: "xr_id r \<in> xp_run_id ` fst ` set (legacy_active t) \<longleftrightarrow>
      (\<exists>p \<in> set (tb_proposals t). active_status p \<and> xp_run_id p = xr_id r)" for r
    using active_pairs[OF assms(1)] by (metis (no_types, lifting) imageE imageI)
  have s: "schema_statements loads sha fr t =
      column_statements t @ map (run_statement loads sha fr) (tb_runs t) @ map (audit_statement loads fr) (tb_audit t) @
      concat (map (retire_statements fr) (legacy_active t)) @ [Set_version 2]"
    using assms(2) by (simp add: schema_statements_def migrate_legacy_records_def)
  show ?thesis
    unfolding initialize_schema_def s foldl_append with_columns_def[symmetric] perform_runs perform_audits perform_retirements
    using retired_proposals[OF assms(1)] foldl_own_updates[OF d(1)] foldl_own_updates[OF d(2)]
    by (auto simp: Let_def active migrated_run_def migrated_audit_def intro!: tables.equality)
qed

lemma initialize_current: "2 \<le> tb_version t \<Longrightarrow> initialize_schema loads sha fr t = with_columns t"
  by (simp add: initialize_schema_def schema_statements_def with_columns_def)

section \<open>Interruption\<close>

text \<open>Nothing of the legacy content is left and nothing waits for a decision or an execution.\<close>

definition secured :: "(rat \<Rightarrow> string) \<Rightarrow> tables \<Rightarrow> bool" where
  "secured fr t \<longleftrightarrow> 2 \<le> tb_version t \<and>
     (\<forall>r \<in> set (tb_runs t). \<exists>scenario \<in> set LEGACY_SCENARIOS. xr_event_json r = json_text fr (normalized_event scenario r)) \<and>
     (\<forall>a \<in> set (tb_audit t). \<exists>members. xa_metadata_json a = json_text fr (safe_metadata members)) \<and>
     (\<forall>p \<in> set (tb_proposals t). \<not> active_status p)"

text \<open>What no statement of the migration touches: identity and times of the runs, the content of the proposals, and the
  audit rows but for their metadata; audit rows may be added.\<close>

definition rows_kept :: "tables \<Rightarrow> tables \<Rightarrow> bool" where
  "rows_kept t t' \<longleftrightarrow>
     map (\<lambda>r. (xr_id r, xr_key r, xr_trace_id r, xr_created_at r, xr_updated_at r)) (tb_runs t') =
       map (\<lambda>r. (xr_id r, xr_key r, xr_trace_id r, xr_created_at r, xr_updated_at r)) (tb_runs t) \<and>
     map (\<lambda>p. p\<lparr>xp_status := [], xp_scenario := [], xp_kind := []\<rparr>) (tb_proposals t') =
       map (\<lambda>p. p\<lparr>xp_status := [], xp_scenario := [], xp_kind := []\<rparr>) (tb_proposals t) \<and>
     prefix (map (\<lambda>a. a\<lparr>xa_metadata_json := []\<rparr>) (tb_audit t)) (map (\<lambda>a. a\<lparr>xa_metadata_json := []\<rparr>) (tb_audit t'))"

lemma rows_kept_refl: "rows_kept t t" by (simp add: rows_kept_def)

lemma rows_kept_trans: "rows_kept t u \<Longrightarrow> rows_kept u v \<Longrightarrow> rows_kept t v"
  unfolding rows_kept_def by (elim conjE, intro conjI; (erule (1) trans | erule (1) prefix_order.trans))

lemma perform_kept: "rows_kept t (perform t s)"
proof (cases s)
  case (Set_metadata i metadata)
  have "map (\<lambda>a. a\<lparr>xa_metadata_json := []\<rparr>) (tb_audit (perform t s)) = map (\<lambda>a. a\<lparr>xa_metadata_json := []\<rparr>) (tb_audit t)"
    by (simp add: Set_metadata update_where_def)
  then show ?thesis by (simp add: rows_kept_def Set_metadata)
qed (auto simp: rows_kept_def update_where_def)

lemma perform_keys:
  "map xr_id (tb_runs (perform t s)) = map xr_id (tb_runs t)" "map xp_id (tb_proposals (perform t s)) = map xp_id (tb_proposals t)"
  "map xp_run_id (tb_proposals (perform t s)) = map xp_run_id (tb_proposals t)"
  "(map xa_id (tb_audit (perform t s)), tb_next_audit (perform t s)) = (map xa_id (tb_audit t), tb_next_audit t) \<or>
   (map xa_id (tb_audit (perform t s)), tb_next_audit (perform t s)) = (map xa_id (tb_audit t) @ [tb_next_audit t], Suc (tb_next_audit t))"
  by (cases s; simp add: map_update_where comp_def)+

lemma tables_ok_keys:
  "tables_ok t \<longleftrightarrow> distinct (map xr_id (tb_runs t)) \<and> distinct (map xp_id (tb_proposals t)) \<and>
     set (map xp_run_id (tb_proposals t)) \<subseteq> set (map xr_id (tb_runs t)) \<and>
     distinct (map xa_id (tb_audit t)) \<and> (\<forall>i \<in> set (map xa_id (tb_audit t)). i < tb_next_audit t)"
  by (simp add: tables_ok_def)

lemma perform_ok: "tables_ok t \<Longrightarrow> tables_ok (perform t s)"
  unfolding tables_ok_keys perform_keys using perform_keys(4)[of t s] by (fastforce simp del: set_map)

lemma performs:
  "rows_kept t (foldl perform t ss)" "tables_ok t \<Longrightarrow> tables_ok (foldl perform t ss)"
  "(\<forall>v. Set_version v \<notin> set ss) \<Longrightarrow> tb_version (foldl perform t ss) = tb_version t"
proof -
  show "rows_kept t (foldl perform t ss)" by (induction ss arbitrary: t) (auto intro: rows_kept_refl rows_kept_trans perform_kept)
  show "tables_ok t \<Longrightarrow> tables_ok (foldl perform t ss)" by (induction ss arbitrary: t) (auto intro: perform_ok)
  have "(\<forall>v. s \<noteq> Set_version v) \<Longrightarrow> tb_version (perform t s) = tb_version t" for s t by (cases s) auto
  then show "(\<forall>v. Set_version v \<notin> set ss) \<Longrightarrow> tb_version (foldl perform t ss) = tb_version t"
    by (induction ss arbitrary: t) (auto, metis)
qed

lemma legacy_scenario_known: "legacy_scenario payload \<in> set LEGACY_SCENARIOS"
  by (simp add: legacy_scenario_def Let_def LEGACY_SCENARIOS_def)

lemma expiry_entries_metadata:
  "a \<in> set (expiry_entries fr i prs) \<Longrightarrow> \<exists>members. xa_metadata_json a = json_text fr (safe_metadata members)"
  by (induction prs arbitrary: i) (auto simp: expiry_entry_def split: prod.splits)

lemma normalized_event_migrated [simp]: "normalized_event s (migrated_run loads sha fr t r) = normalized_event s r"
  by (simp add: normalized_event_def canonical_members_def migrated_run_def Let_def)

lemma initialize_secures:
  assumes "tables_ok t" and "tb_version t < 2"
  shows "secured fr (initialize_schema loads sha fr t)"
proof -
  have "\<exists>scenario \<in> set LEGACY_SCENARIOS. xr_event_json (migrated_run loads sha fr t r) = json_text fr (normalized_event scenario r)" for r
    using legacy_scenario_known by (auto simp: migrated_run_def Let_def)
  moreover have "\<not> active_status (migrated_proposal p)" for p by (simp add: migrated_proposal_def active_status_def)
  ultimately show ?thesis
    using expiry_entries_metadata by (auto simp: initialize_old[OF assms] secured_def migrated_audit_def)
qed

lemma columns_present: "set (tb_columns (with_columns t)) \<supseteq> {''scenario'', ''scenario_kind''}"
  by (auto simp: with_columns_def column_statements_def)

lemma initialize_again: "2 \<le> tb_version (initialize_schema loads sha fr t) \<Longrightarrow>
    initialize_schema loads sha fr (initialize_schema loads sha fr t) = initialize_schema loads sha fr t"
proof -
  assume v: "2 \<le> tb_version (initialize_schema loads sha fr t)"
  have "set (tb_columns u) \<subseteq> set (tb_columns (perform u s))" for u s by (cases s) auto
  then have "set (tb_columns u) \<subseteq> set (tb_columns (foldl perform u ss))" for u ss
  proof (induction ss arbitrary: u)
    case (Cons s ss)
    then show ?case by (metis foldl_Cons order_trans)
  qed simp
  then have "set (tb_columns (with_columns t)) \<subseteq> set (tb_columns (initialize_schema loads sha fr t))"
    unfolding initialize_schema_def schema_statements_def with_columns_def foldl_append .
  then show ?thesis
    using columns_present v by (auto simp: initialize_current with_columns_def[of "initialize_schema _ _ _ _"] column_statements_def)
qed

lemma interrupted_version:
  assumes "tb_version t < 2"
  shows "tb_version (interrupted loads sha fr n t) < 2 \<or> interrupted loads sha fr n t = initialize_schema loads sha fr t"
proof (cases "n < length (schema_statements loads sha fr t)")
  case True
  let ?ss = "column_statements t @ migrate_legacy_records loads sha fr t"
  have "schema_statements loads sha fr t = ?ss @ [Set_version 2]" using assms by (simp add: schema_statements_def)
  then have "take n (schema_statements loads sha fr t) = take n ?ss" using True by simp
  moreover have "Set_version v \<notin> set ?ss" for v
    by (auto simp: column_statements_def migrate_legacy_records_def run_statement_def audit_statement_def retire_statements_def Let_def)
  then have "\<forall>v. Set_version v \<notin> set (take n ?ss)" by (meson in_set_takeD)
  ultimately show ?thesis using assms performs(3) by (simp add: interrupted_def)
qed (simp add: interrupted_def initialize_schema_def)

section \<open>Reading the tables\<close>

text \<open>The decoded database of \<open>Storage\<close>: \<open>json.loads\<close> of the stored documents and the constructors of the enumerations.\<close>

definition read_run :: "(string \<Rightarrow> json option) \<Rightarrow> text_run \<Rightarrow> run_row \<Rightarrow> bool" where
  "read_run loads x r \<longleftrightarrow> r_id r = xr_id x \<and> r_key r = xr_key x \<and> r_payload_hash r = xr_payload_hash x \<and>
     loads (xr_event_json x) = Some (r_event r) \<and> r_trace_id r = xr_trace_id x \<and> run_state_value (r_state r) = xr_state x \<and>
     r_created_at r = xr_created_at x \<and> r_updated_at r = xr_updated_at x"

definition read_proposal :: "(string \<Rightarrow> json option) \<Rightarrow> text_proposal \<Rightarrow> proposal_row \<Rightarrow> bool" where
  "read_proposal loads x p \<longleftrightarrow> p_id p = xp_id x \<and> p_run_id p = xp_run_id x \<and> p_revision p = xp_revision x \<and>
     proposal_state_value (p_status p) = xp_status x \<and> scenario_value (p_scenario p) = xp_scenario x \<and>
     kind_value (p_kind p) = xp_kind x \<and> loads (xp_assessment_json x) = Some (p_assessment p) \<and>
     loads (xp_option_json x) = Some (p_option p) \<and> p_action_hash p = xp_action_hash x \<and> p_expires_at p = xp_expires_at x \<and>
     p_created_at p = xp_created_at x \<and> p_approved_hash p = xp_approved_hash x"

definition read_audit :: "(string \<Rightarrow> json option) \<Rightarrow> text_audit \<Rightarrow> audit_row \<Rightarrow> bool" where
  "read_audit loads x a \<longleftrightarrow> a_id a = xa_id x \<and> a_trace_id a = xa_trace_id x \<and> a_run_id a = xa_run_id x \<and>
     a_proposal_id a = xa_proposal_id x \<and> a_event_type a = xa_event_type x \<and> loads (xa_metadata_json x) = Some (a_metadata a) \<and>
     a_occurred_at a = xa_occurred_at x"

definition read_as :: "(string \<Rightarrow> json option) \<Rightarrow> tables \<Rightarrow> db \<Rightarrow> bool" where
  "read_as loads t d \<longleftrightarrow> list_all2 (read_run loads) (tb_runs t) (runs d) \<and>
     list_all2 (read_proposal loads) (tb_proposals t) (proposals d) \<and> list_all2 (read_audit loads) (tb_audit t) (audit d) \<and>
     next_audit d = tb_next_audit t"

lemma read_inactive:
  assumes "secured fr t" and "read_as loads t d" and "find_proposal k d = Some p"
  shows "p_status p \<notin> {P_PROPOSED, P_APPROVED, P_EXECUTING}"
proof -
  have "p \<in> set (proposals d)" using assms(3) by (auto simp: find_proposal_def)
  then obtain x where "x \<in> set (tb_proposals t)" "read_proposal loads x p"
    using assms(2) by (metis read_as_def list_all2_conv_all_nth in_set_conv_nth)
  then show ?thesis using assms(1) by (auto simp: secured_def active_status_def read_proposal_def)
qed

lemma inactive_refused:
  assumes "\<And>p. find_proposal k d = Some p \<Longrightarrow> p_status p \<notin> {P_PROPOSED, P_APPROVED, P_EXECUTING}"
  shows "\<exists>e. claim_execution k digest now actor d = (Inl e, d)"
    and "\<exists>e. decide_proposal k revision digest dec now actor wait new_proposal d = (Inl e, d)"
  using assms
  by (auto simp: claim_execution_def claim_execution_body_def decide_proposal_def decide_proposal_body_def transaction_def
      split: option.split)

text \<open>C39: The migration may die after any of its statements: once the schema is initialised again, the content of the
  legacy events is replaced, all audit metadata is sanitised, and no proposal of the old database can be decided or
  executed, while runs, proposals and audit rows keep their identity. Initialising once more changes nothing.\<close>

theorem migration_secures:
  assumes "tables_ok t" and "tb_version t < 2" and "v = initialize_schema loads sha fr (interrupted loads sha fr n t)"
  shows "secured fr v \<and> rows_kept t v \<and> initialize_schema loads sha fr v = v \<and>
    (\<forall>d k. read_as loads v d \<longrightarrow>
       (\<forall>digest now actor. \<exists>e. claim_execution k digest now actor d = (Inl e, d)) \<and>
       (\<forall>revision digest dec now actor wait new. \<exists>e. decide_proposal k revision digest dec now actor wait new d = (Inl e, d)))"
proof -
  let ?u = "interrupted loads sha fr n t"
  have ok: "tables_ok ?u" and kept: "rows_kept t ?u" unfolding interrupted_def using assms(1) performs by blast+
  have s: "secured fr v"
  proof (cases "tb_version ?u < 2")
    case True
    then show ?thesis using initialize_secures[OF ok] assms(3) by blast
  next
    case False
    then have u: "?u = initialize_schema loads sha fr t" using interrupted_version[OF assms(2)] by blast
    then have "v = ?u" using initialize_again False assms(3) by (metis not_less)
    then show ?thesis using initialize_secures[OF assms(1,2)] u by metis
  qed
  moreover have "rows_kept t v" using rows_kept_trans[OF kept] performs(1) assms(3) by (metis initialize_schema_def)
  moreover have "initialize_schema loads sha fr v = v" using initialize_again s assms(3) by (simp add: secured_def)
  moreover have "(\<exists>e. claim_execution k digest now actor d = (Inl e, d)) \<and>
      (\<exists>e. decide_proposal k revision digest dec now actor wait new d = (Inl e, d))"
    if "read_as loads v d" for d k digest now actor revision dec wait new
    
    by (intro conjI inactive_refused; erule read_inactive[OF s that])
  ultimately show ?thesis by blast
qed

section \<open>Witnesses\<close>

definition sample_old :: tables where
  "sample_old =
     \<lparr>tb_runs = [\<lparr>xr_id = ''r1'', xr_key = ''k1'', xr_payload_hash = ''h'', xr_event_json = ''password=1'', xr_trace_id = ''t1'',
        xr_state = ''approved'', xr_created_at = ''1'', xr_updated_at = ''2''\<rparr>],
      tb_proposals = [\<lparr>xp_id = ''p1'', xp_run_id = ''r1'', xp_revision = 1, xp_status = ''approved'', xp_scenario = ''disk-exhaustion'',
        xp_kind = ''synthetic_marker'', xp_assessment_json = ''{}'', xp_option_json = ''{}'', xp_action_hash = ''h'', xp_expires_at = ''9'',
        xp_created_at = ''1'', xp_approved_hash = Some ''h''\<rparr>],
      tb_audit = [], tb_next_audit = 1, tb_columns = PROPOSAL_COLUMNS, tb_version = 1\<rparr>"

definition sample_read :: db where
  "sample_read =
     \<lparr>runs = [\<lparr>r_id = ''r1'', r_key = ''k1'', r_payload_hash = [], r_event = JNull, r_trace_id = ''t1'', r_state = EXPIRED,
        r_created_at = ''1'', r_updated_at = ''2''\<rparr>],
      proposals = [\<lparr>p_id = ''p1'', p_run_id = ''r1'', p_revision = 1, p_status = P_EXPIRED, p_scenario = DISK_EXHAUSTION,
        p_kind = SYNTHETIC_MARKER, p_assessment = JNull, p_option = JNull, p_action_hash = ''h'', p_expires_at = ''9'',
        p_created_at = ''1'', p_approved_hash = Some ''h''\<rparr>],
      audit = [\<lparr>a_id = 1, a_trace_id = ''t1'', a_run_id = ''r1'', a_proposal_id = Some ''p1'', a_event_type = ''proposal_expired'',
        a_metadata = JNull, a_occurred_at = ''2''\<rparr>], next_audit = 2\<rparr>"

abbreviation null_loads :: "string \<Rightarrow> json option" where "null_loads \<equiv> (\<lambda>_. Some JNull)"
abbreviation no_sha :: "string \<Rightarrow> string" where "no_sha \<equiv> (\<lambda>_. [])"
abbreviation no_repr :: "rat \<Rightarrow> string" where "no_repr \<equiv> (\<lambda>_. [])"

lemma sample_old_ok: "tables_ok sample_old" "tb_version sample_old < 2" "column_statements sample_old = []"
  by (simp_all add: sample_old_def tables_ok_def column_statements_def PROPOSAL_COLUMNS_def)

lemma sample_old_active: "legacy_active sample_old = [(hd (tb_proposals sample_old), hd (tb_runs sample_old))]"
  by (simp add: sample_old_def legacy_active_def)

lemma sample_old_read: "read_as null_loads (initialize_schema null_loads no_sha no_repr sample_old) sample_read"
  unfolding initialize_old[OF sample_old_ok(1,2)] sample_old_active with_columns_def sample_old_ok(3)
  by (simp add: read_as_def read_run_def read_proposal_def read_audit_def sample_read_def sample_old_def migrated_run_def Let_def
      migrated_proposal_def active_status_def expiry_entry_def)

theorem migration_secures_witness:
  "secured no_repr (initialize_schema null_loads no_sha no_repr sample_old) \<and>
   (\<exists>e. claim_execution ''p1'' ''h'' ''3'' ''operator'' sample_read = (Inl e, sample_read))"
proof -
  have "interrupted null_loads no_sha no_repr 0 sample_old = sample_old" by (simp add: interrupted_def)
  then show ?thesis
    using migration_secures[OF sample_old_ok(1,2) refl, of no_repr null_loads no_sha 0] sample_old_read by metis
qed

text \<open>
  A process that dies between the statement that expires a proposal and the next one leaves a run that stays approved
  for good, without an audit row: the proposal is no longer active when the migration is run again.
\<close>

lemma interrupted_loses_expiry:
  "let v = initialize_schema null_loads no_sha no_repr (interrupted null_loads no_sha no_repr 2 sample_old) in
     map xr_state (tb_runs v) = [''approved''] \<and> map xp_status (tb_proposals v) = [''expired''] \<and> tb_audit v = []"
proof -
  have u: "interrupted null_loads no_sha no_repr 2 sample_old =
      perform (perform sample_old (run_statement null_loads no_sha no_repr (hd (tb_runs sample_old)))) (Retire_proposal ''p1'')"
    using sample_old_ok(2)
    by (simp add: interrupted_def schema_statements_def sample_old_ok(3) migrate_legacy_records_def sample_old_active retire_statements_def)
      (simp add: sample_old_def)
  have ok: "tables_ok (interrupted null_loads no_sha no_repr 2 sample_old)"
    unfolding interrupted_def using performs(2) sample_old_ok(1) by blast
  have v: "tb_version (interrupted null_loads no_sha no_repr 2 sample_old) < 2" unfolding u by (simp add: sample_old_def run_statement_def)
  have a: "legacy_active (interrupted null_loads no_sha no_repr 2 sample_old) = []"
    unfolding u by (simp add: sample_old_def run_statement_def legacy_active_def)
  show ?thesis
    unfolding initialize_old[OF ok v] a unfolding u
    by (simp add: sample_old_def run_statement_def migrated_run_def Let_def migrated_proposal_def active_status_def with_columns_def
        column_statements_def PROPOSAL_COLUMNS_def)
qed

lemma fresh_database:
  "read_as loads (initialize_schema loads sha fr created_tables) empty_db"
  "tb_version (initialize_schema loads sha fr created_tables) = 2"
  by (simp_all add: initialize_schema_def schema_statements_def column_statements_def PROPOSAL_COLUMNS_def created_tables_def
      migrate_legacy_records_def legacy_active_def read_as_def empty_db_def)

end
