(* ===== verification/Opening.thy ===== *)
theory Opening
  imports Migration Sandbox
begin

text \<open>
  \<open>SQLiteStore(database_path)\<close>: the directories above the database are made, SQLite creates its file when there is
  none, and the schema is created or migrated. The contents of a database are its tables, kept by the resolved path
  of its file; the file's own bytes and the journal beside it are not modelled. Below, the tables are decoded to
  the rows of \<open>Storage\<close>, which the service works on, and encoded again. A path with \<open>..\<close> is taken literally.
\<close>

type_synonym databases = "path \<Rightarrow> tables option"

text \<open>\<open>json.loads\<close>, SHA-256 and the text of a float.\<close>

record codec =
  cd_loads :: "string \<Rightarrow> json option"
  cd_sha :: "string \<Rightarrow> string"
  cd_repr :: "rat \<Rightarrow> string"

definition migrated :: "codec \<Rightarrow> tables \<Rightarrow> tables" where
  "migrated cd = initialize_schema (cd_loads cd) (cd_sha cd) (cd_repr cd)"

section \<open>Opening a store\<close>

text \<open>\<open>Path(...).parent.mkdir(parents=True, exist_ok=True)\<close>: what exists must be a directory, through links or not.\<close>

fun ensure_directories :: "host \<Rightarrow> path \<Rightarrow> path \<Rightarrow> (files, unit) action" where
  "ensure_directories h acc [] f = (Inr (), f)"
| "ensure_directories h acc (c # cs) f =
     (case stat f (acc @ [c]) of
        Some (Directory _ _) \<Rightarrow> ensure_directories h (acc @ [c]) cs f
      | Some _ \<Rightarrow> (Inl OSError, f)
      | None \<Rightarrow>
          (case resolve f acc of
             None \<Rightarrow> (Inl OSError, f)
           | Some place \<Rightarrow>
               if lstat f (acc @ [c]) \<noteq> None \<or> h_refuses h (place @ [c]) then (Inl OSError, f)
               else ensure_directories h (acc @ [c]) cs (put_entry (place @ [c]) (Directory (h_euid h) (h_dir_mode h)) f)))"

definition path_base :: "host \<Rightarrow> string \<Rightarrow> path" where
  "path_base h s = (if is_absolute s then [] else h_cwd h)"

text \<open>A new or an empty file is an empty database, whose tables are created.\<close>

definition stored_tables :: "databases \<Rightarrow> files \<Rightarrow> path \<Rightarrow> tables" where
  "stored_tables b f q =
     (if map_of f q = None then created_tables else case b q of None \<Rightarrow> created_tables | Some t \<Rightarrow> t)"

text \<open>\<open>sqlite3.connect\<close> and the first statement: a file that holds something else is not a database.\<close>

definition connect :: "host \<Rightarrow> path \<Rightarrow> (databases \<times> files, path \<times> tables) action" where
  "connect h p = (\<lambda>(b, f).
     case resolve f p of
       None \<Rightarrow> (Inl OperationalError, (b, f))
     | Some q \<Rightarrow>
         (case map_of f q of
            Some (Regular text) \<Rightarrow>
              if b q = None \<and> text \<noteq> [] then (Inl DatabaseError, (b, f)) else (Inr (q, stored_tables b f q), (b, f))
          | Some _ \<Rightarrow> (Inl OperationalError, (b, f))
          | None \<Rightarrow>
              (case entry_at f (butlast q) of
                 Some (Directory _ _) \<Rightarrow>
                   if q = [] \<or> h_refuses h q then (Inl OperationalError, (b, f))
                   else (Inr (q, stored_tables b f q), (b, put_entry q (Regular []) f))
               | _ \<Rightarrow> (Inl OperationalError, (b, f)))))"

definition on_files :: "(files, 'a) action \<Rightarrow> (databases \<times> files, 'a) action" where
  "on_files m = (\<lambda>(b, f). case m f of (r, f') \<Rightarrow> (r, (b, f')))"

text \<open>\<open>None\<close>: a private database, in memory or (for the empty path) temporary, which leaves nothing behind.\<close>

definition open_store :: "host \<Rightarrow> codec \<Rightarrow> string \<Rightarrow> (databases \<times> files, path option) action" where
  "open_store h cd database_path =
     (if database_path \<in> set ['':memory:'', []] then returnS None
      else
        bindS (on_files (ensure_directories h (path_base h database_path) (butlast (path_parts database_path)))) (\<lambda>_.
        bindS (connect h (absolute h database_path)) (\<lambda>(q, t) (b, f).
        (Inr (Some q), (b(q := Some (migrated cd t)), f)))))"

section \<open>Rows and texts\<close>

definition run_states :: "run_state list" where
  "run_states = [RECEIVED, INVESTIGATING, ASSESSED, PROPOSED, APPROVED, REJECTED, EXPIRED, EXECUTING, SUCCEEDED, FAILED]"

definition proposal_states :: "proposal_state list" where
  "proposal_states = [P_PROPOSED, P_APPROVED, P_REJECTED, P_EXPIRED, P_SUPERSEDED, P_EXECUTING, P_SUCCEEDED, P_FAILED]"

definition scenarios :: "scenario list" where
  "scenarios = [DISK_EXHAUSTION, RUNAWAY_CPU, MEMORY_OOM, RESTARTING_SERVICE, LOG_STORM, WORKER_CONCURRENCY]"

definition kinds :: "scenario_kind list" where "kinds = [SYNTHETIC_MARKER, CONTAINER_FAULT]"

definition member_of :: "('a \<Rightarrow> string) \<Rightarrow> 'a list \<Rightarrow> string \<Rightarrow> 'a option" where
  "member_of text xs s = map_of (map (\<lambda>x. (text x, x)) xs) s"

definition run_row_of :: "(string \<Rightarrow> json option) \<Rightarrow> text_run \<Rightarrow> run_row option" where
  "run_row_of loads x =
     (case (loads (xr_event_json x), member_of run_state_value run_states (xr_state x)) of
        (Some event, Some s) \<Rightarrow>
          Some \<lparr>r_id = xr_id x, r_key = xr_key x, r_payload_hash = xr_payload_hash x, r_event = event, r_trace_id = xr_trace_id x,
            r_state = s, r_created_at = xr_created_at x, r_updated_at = xr_updated_at x\<rparr>
      | _ \<Rightarrow> None)"

definition proposal_row_of :: "(string \<Rightarrow> json option) \<Rightarrow> text_proposal \<Rightarrow> proposal_row option" where
  "proposal_row_of loads x =
     (case (member_of proposal_state_value proposal_states (xp_status x), member_of scenario_value scenarios (xp_scenario x),
            member_of kind_value kinds (xp_kind x), loads (xp_assessment_json x), loads (xp_option_json x)) of
        (Some s, Some scenario, Some kind, Some assessment, Some opt) \<Rightarrow>
          Some \<lparr>p_id = xp_id x, p_run_id = xp_run_id x, p_revision = xp_revision x, p_status = s, p_scenario = scenario,
            p_kind = kind, p_assessment = assessment, p_option = opt, p_action_hash = xp_action_hash x,
            p_expires_at = xp_expires_at x, p_created_at = xp_created_at x, p_approved_hash = xp_approved_hash x\<rparr>
      | _ \<Rightarrow> None)"

definition audit_row_of :: "(string \<Rightarrow> json option) \<Rightarrow> text_audit \<Rightarrow> audit_row option" where
  "audit_row_of loads x =
     (case loads (xa_metadata_json x) of
        None \<Rightarrow> None
      | Some metadata \<Rightarrow>
          Some \<lparr>a_id = xa_id x, a_trace_id = xa_trace_id x, a_run_id = xa_run_id x, a_proposal_id = xa_proposal_id x,
            a_event_type = xa_event_type x, a_metadata = metadata, a_occurred_at = xa_occurred_at x\<rparr>)"

definition rows_of :: "(string \<Rightarrow> json option) \<Rightarrow> tables \<Rightarrow> db option" where
  "rows_of loads t =
     (case (those (map (run_row_of loads) (tb_runs t)), those (map (proposal_row_of loads) (tb_proposals t)),
            those (map (audit_row_of loads) (tb_audit t))) of
        (Some rs, Some ps, Some as) \<Rightarrow> Some \<lparr>runs = rs, proposals = ps, audit = as, next_audit = tb_next_audit t\<rparr>
      | _ \<Rightarrow> None)"

definition run_texts :: "(rat \<Rightarrow> string) \<Rightarrow> run_row \<Rightarrow> text_run" where
  "run_texts fr r =
     \<lparr>xr_id = r_id r, xr_key = r_key r, xr_payload_hash = r_payload_hash r, xr_event_json = json_text fr (r_event r),
      xr_trace_id = r_trace_id r, xr_state = run_state_value (r_state r), xr_created_at = r_created_at r,
      xr_updated_at = r_updated_at r\<rparr>"

definition proposal_texts :: "(rat \<Rightarrow> string) \<Rightarrow> proposal_row \<Rightarrow> text_proposal" where
  "proposal_texts fr p =
     \<lparr>xp_id = p_id p, xp_run_id = p_run_id p, xp_revision = p_revision p, xp_status = proposal_state_value (p_status p),
      xp_scenario = scenario_value (p_scenario p), xp_kind = kind_value (p_kind p),
      xp_assessment_json = json_text fr (p_assessment p), xp_option_json = json_text fr (p_option p),
      xp_action_hash = p_action_hash p, xp_expires_at = p_expires_at p, xp_created_at = p_created_at p,
      xp_approved_hash = p_approved_hash p\<rparr>"

definition audit_texts :: "(rat \<Rightarrow> string) \<Rightarrow> audit_row \<Rightarrow> text_audit" where
  "audit_texts fr a =
     \<lparr>xa_id = a_id a, xa_trace_id = a_trace_id a, xa_run_id = a_run_id a, xa_proposal_id = a_proposal_id a,
      xa_event_type = a_event_type a, xa_metadata_json = json_text fr (a_metadata a), xa_occurred_at = a_occurred_at a\<rparr>"

definition with_rows :: "(rat \<Rightarrow> string) \<Rightarrow> tables \<Rightarrow> db \<Rightarrow> tables" where
  "with_rows fr t d = t\<lparr>tb_runs := map (run_texts fr) (runs d), tb_proposals := map (proposal_texts fr) (proposals d),
     tb_audit := map (audit_texts fr) (audit d), tb_next_audit := next_audit d\<rparr>"

text \<open>
  A session on an opened store. A database with a text that does not decode is refused here as a whole; the store
  raises when it reads the row.
\<close>

definition on_store :: "codec \<Rightarrow> path option \<Rightarrow> (db \<times> 'w, 'a) action \<Rightarrow> (databases \<times> 'w, 'a) action" where
  "on_store cd store m = (\<lambda>(b, w).
     case store of
       None \<Rightarrow> (case m (empty_db, w) of (r, (d, w')) \<Rightarrow> (r, (b, w')))
     | Some q \<Rightarrow>
         (let t = (case b q of None \<Rightarrow> created_tables | Some t \<Rightarrow> t) in
          case rows_of (cd_loads cd) t of
            None \<Rightarrow> (Inl (ValueError ''invalid JSON''), (b, w))
          | Some d \<Rightarrow> (case m (d, w) of (r, (d', w')) \<Rightarrow> (r, (b(q := Some (with_rows (cd_repr cd) t d')), w')))))"

section \<open>Decoding is reading\<close>

lemma those_Some: "those (map f xs) = Some ys \<longleftrightarrow> list_all2 (\<lambda>x y. f x = Some y) xs ys"
proof (induction xs arbitrary: ys)
  case (Cons x xs)
  show ?case by (cases ys) (auto simp: Cons.IH split: option.splits)
qed auto

lemma member_of_Some:
  "member_of run_state_value run_states s = Some x \<longleftrightarrow> run_state_value x = s"
  "member_of proposal_state_value proposal_states s = Some p \<longleftrightarrow> proposal_state_value p = s"
  "member_of scenario_value scenarios s = Some c \<longleftrightarrow> scenario_value c = s"
  "member_of kind_value kinds s = Some k \<longleftrightarrow> kind_value k = s"
  subgoal by (cases x) (auto simp: member_of_def run_states_def)
  subgoal by (cases p) (auto simp: member_of_def proposal_states_def)
  subgoal by (cases c) (auto simp: member_of_def scenarios_def)
  subgoal by (cases k) (auto simp: member_of_def kinds_def)
  done

lemma run_row_of_Some: "run_row_of loads x = Some r \<longleftrightarrow> read_run loads x r"
proof
  assume "read_run loads x r"
  moreover from this have "member_of run_state_value run_states (xr_state x) = Some (r_state r)"
    by (simp add: read_run_def member_of_Some)
  ultimately show "run_row_of loads x = Some r" by (simp add: run_row_of_def read_run_def)
qed (auto simp: run_row_of_def read_run_def member_of_Some split: option.splits)

lemma proposal_row_of_Some: "proposal_row_of loads x = Some p \<longleftrightarrow> read_proposal loads x p"
proof
  assume "read_proposal loads x p"
  moreover from this have "member_of proposal_state_value proposal_states (xp_status x) = Some (p_status p)"
    "member_of scenario_value scenarios (xp_scenario x) = Some (p_scenario p)"
    "member_of kind_value kinds (xp_kind x) = Some (p_kind p)"
    by (simp_all add: read_proposal_def member_of_Some)
  ultimately show "proposal_row_of loads x = Some p" by (simp add: proposal_row_of_def read_proposal_def)
qed (auto simp: proposal_row_of_def read_proposal_def member_of_Some split: option.splits)

lemma audit_row_of_Some: "audit_row_of loads x = Some a \<longleftrightarrow> read_audit loads x a"
  by (cases a) (auto simp: audit_row_of_def read_audit_def split: option.splits)

lemma rows_of_Some: "rows_of loads t = Some d \<longleftrightarrow> read_as loads t d"
  by (cases d) (auto simp: rows_of_def read_as_def those_Some[symmetric] run_row_of_Some[symmetric, abs_def]
    proposal_row_of_Some[symmetric, abs_def] audit_row_of_Some[symmetric, abs_def] split: option.splits)

text \<open>What a session wrote, the next one reads: the store writes canonical documents.\<close>

definition canonical_documents :: "db \<Rightarrow> bool" where
  "canonical_documents d \<longleftrightarrow> (\<forall>r \<in> set (runs d). canon (r_event r) = r_event r) \<and>
     (\<forall>p \<in> set (proposals d). canon (p_assessment p) = p_assessment p \<and> canon (p_option p) = p_option p) \<and>
     (\<forall>a \<in> set (audit d). canon (a_metadata a) = a_metadata a)"

lemma written_read_back:
  assumes "\<And>j. loads (json_text fr j) = Some (canon j)" and "canonical_documents d"
  shows "rows_of loads (with_rows fr t d) = Some d"
  unfolding rows_of_Some read_as_def with_rows_def
  using assms(2)
  by (auto simp: list_all2_map1 canonical_documents_def run_texts_def proposal_texts_def audit_texts_def read_run_def
      read_proposal_def read_audit_def assms(1) intro!: list.rel_refl_strong)

section \<open>What opening changes\<close>

lemma map_of_put: "map_of (put_entry p e f) q = (if q = p then Some e else map_of f q)"
proof -
  have "map_of (filter (\<lambda>(q, _). q \<noteq> p) f) q = (if q = p then None else map_of f q)" by (induction f) auto
  then show ?thesis by (simp add: put_entry_def)
qed

definition unlinked :: "entry option \<Rightarrow> bool" where "unlinked e \<longleftrightarrow> (\<forall>t. e \<noteq> Some (Symlink t))"

lemma follow_put:
  "unlinked (map_of f p) \<Longrightarrow> unlinked (Some e) \<Longrightarrow> follow n (put_entry p e f) acc cs = follow n f acc cs"
proof (induction n f acc cs rule: follow.induct)
  case (2 n f acc c cs)
  show ?case
  proof (cases "\<exists>t. map_of f (acc @ [c]) = Some (Symlink t)")
    case True
    then obtain t where t: "map_of f (acc @ [c]) = Some (Symlink t)" by blast
    then have "acc @ [c] \<noteq> p" using 2 by (auto simp: unlinked_def)
    with t 2 show ?thesis by (auto simp: map_of_put split: nat.split)
  next
    case False
    then have "follow n f acc (c # cs) = follow n f (acc @ [c]) cs"
      by (auto split: option.split entry.split)
    moreover have "follow n (put_entry p e f) acc (c # cs) = follow n (put_entry p e f) (acc @ [c]) cs"
      using False "2.prems"(2) by (auto simp: map_of_put unlinked_def split: option.split entry.split)
    moreover have "follow n (put_entry p e f) (acc @ [c]) cs = follow n f (acc @ [c]) cs"
      using False 2 by (cases "map_of f (acc @ [c])"; cases "the (map_of f (acc @ [c]))") auto
    ultimately show ?thesis by simp
  qed
qed simp

lemma resolve_put: "unlinked (map_of f p) \<Longrightarrow> unlinked (Some e) \<Longrightarrow> resolve (put_entry p e f) q = resolve f q"
  by (simp add: resolve_def follow_put)

lemma follow_snoc:
  "follow n f acc cs = Some q \<Longrightarrow> map_of f (q @ [c]) = None \<Longrightarrow> follow n f acc (cs @ [c]) = Some (q @ [c])"
  by (induction n f acc cs rule: follow.induct) (auto split: option.splits entry.splits nat.splits)

text \<open>Entries appear, each where a part of the path leads; nothing else changes, and no link.\<close>

definition appeared :: "path \<Rightarrow> files \<Rightarrow> files \<Rightarrow> bool" where
  "appeared full f f' \<longleftrightarrow> (\<forall>q. resolve f' q = resolve f q) \<and>
     (\<forall>p. map_of f' p \<noteq> map_of f p \<longrightarrow> map_of f p = None \<and> (\<exists>n. resolve f (take n full) = Some p))"

lemma appeared_refl: "appeared full f f"
  by (simp add: appeared_def)

lemma appeared_trans: "appeared full f g \<Longrightarrow> appeared full g h \<Longrightarrow> appeared full f h"
  unfolding appeared_def by metis

lemma appeared_put:
  assumes "map_of f p = None" and "unlinked (Some e)" and "resolve f (take n full) = Some p"
  shows "appeared full f (put_entry p e f)"
  using assms resolve_put[of f p e] by (auto simp: appeared_def map_of_put unlinked_def)

lemma ensure_directories_appeared:
  "ensure_directories h acc cs f = (res, f') \<Longrightarrow> appeared (acc @ cs @ rest) f f'"
proof (induction h acc cs f rule: ensure_directories.induct)
  case (2 h acc c cs f)
  show ?case
  proof (cases "stat f (acc @ [c])")
    case None
    show ?thesis
    proof (cases "resolve f acc")
      case (Some place)
      show ?thesis
      proof (cases "lstat f (acc @ [c]) \<noteq> None \<or> h_refuses h (place @ [c])")
        case False
        let ?f = "put_entry (place @ [c]) (Directory (h_euid h) (h_dir_mode h)) f"
        from False Some have new: "map_of f (place @ [c]) = None" by (simp add: lstat_def entry_at_def)
        then have "resolve f (take (Suc (length acc)) (acc @ (c # cs) @ rest)) = Some (place @ [c])"
          using follow_snoc[of 40 f "[]" acc place c] Some by (simp add: resolve_def)
        from appeared_put[OF new _ this] have "appeared (acc @ (c # cs) @ rest) f ?f" by (simp add: unlinked_def)
        moreover have "ensure_directories h (acc @ [c]) cs ?f = (res, f')" using 2(3) None Some False by simp
        then have "appeared (acc @ (c # cs) @ rest) ?f f'" using 2(1)[OF None Some False] by simp
        ultimately show ?thesis by (rule appeared_trans)
      qed (use 2(3) None Some in \<open>auto simp: appeared_refl\<close>)
    qed (use 2(3) None in \<open>auto simp: appeared_refl\<close>)
  next
    case (Some e)
    with 2 show ?thesis by (cases e) (auto simp: appeared_refl)
  qed
qed (simp add: appeared_refl)

lemma ensure_directories_new:
  "ensure_directories h acc cs f = (res, f') \<Longrightarrow> map_of f' p = map_of f p \<or> (\<exists>u m. map_of f' p = Some (Directory u m))"
proof (induction h acc cs f rule: ensure_directories.induct)
  case (2 h acc c cs f)
  show ?case
  proof (cases "stat f (acc @ [c])")
    case None
    show ?thesis
    proof (cases "\<exists>place. resolve f acc = Some place \<and> \<not> (lstat f (acc @ [c]) \<noteq> None \<or> h_refuses h (place @ [c]))")
      case True
      then obtain place where pl: "resolve f acc = Some place" "\<not> (lstat f (acc @ [c]) \<noteq> None \<or> h_refuses h (place @ [c]))" by blast
      with 2(1)[OF None pl] 2(3) None show ?thesis by (auto simp: map_of_put split: if_splits)
    qed (use 2(3) None in \<open>auto split: option.splits if_splits\<close>)
  next
    case (Some e)
    with 2 show ?thesis by (cases e) auto
  qed
qed simp

lemma connect_appeared:
  assumes "connect h p (b, f) = (res, (b', f'))"
  shows "appeared p f f' \<and> b' = b \<and> (\<forall>q t. res = Inr (q, t) \<longrightarrow> resolve f p = Some q \<and> t = stored_tables b f q \<and>
    (\<forall>u m. map_of f q \<noteq> Some (Directory u m)))"
proof (cases "resolve f p")
  case (Some q)
  have "appeared p f (put_entry q (Regular []) f)" if "map_of f q = None"
    by (rule appeared_put[OF that, of _ "length p"]) (use Some in \<open>simp_all add: unlinked_def\<close>)
  with assms Some show ?thesis
    by (auto simp: connect_def appeared_refl split: option.splits entry.splits if_splits)
qed (use assms in \<open>auto simp: connect_def appeared_refl\<close>)

text \<open>
  Opening a store changes nothing but this: directories and the file of the database may appear where the path and
  its parts lead, and the tables of that database become those of the migrated schema.
\<close>

lemma open_store_changes:
  assumes "open_store h cd s (b, f) = (res, (b', f'))"
  shows "appeared (absolute h s) f f'"
    and "case res of
        Inl e \<Rightarrow> b' = b
      | Inr None \<Rightarrow> s \<in> set ['':memory:'', []] \<and> b' = b \<and> f' = f
      | Inr (Some q) \<Rightarrow> resolve f (absolute h s) = Some q \<and> b' = b(q := Some (migrated cd (stored_tables b f q)))"
proof -
  let ?base = "path_base h s" and ?parts = "path_parts s"
  have full: "absolute h s = ?base @ ?parts" by (simp add: absolute_def path_base_def)
  have dirs: "appeared (absolute h s) f g" if "ensure_directories h ?base (butlast ?parts) f = (r, g)" for r g
  proof (cases "?parts = []")
    case True
    with that show ?thesis by (simp add: appeared_refl)
  next
    case False
    then show ?thesis using ensure_directories_appeared[OF that, of "[last ?parts]"] full by simp
  qed
  have rest: "appeared (absolute h s) f f' \<and> (case res of Inl e \<Rightarrow> b' = b | Inr None \<Rightarrow> False
      | Inr (Some q) \<Rightarrow> resolve f (absolute h s) = Some q \<and> b' = b(q := Some (migrated cd (stored_tables b f q))))"
    if named: "s \<notin> set ['':memory:'', []]"
  proof -
    obtain r g where g: "ensure_directories h ?base (butlast ?parts) f = (r, g)" by fastforce
    note ag = dirs[OF g]
    show ?thesis
    proof (cases r)
      case (Inl e)
      with assms named g ag show ?thesis by (auto simp: open_store_def bindS_def on_files_def)
    next
      case (Inr u)
      obtain r2 b2 f2 where c: "connect h (absolute h s) (b, g) = (r2, (b2, f2))" by (metis prod.collapse)
      note cc = connect_appeared[OF c]
      have a: "appeared (absolute h s) f f2" using appeared_trans[OF ag] cc by blast
      show ?thesis
      proof (cases r2)
        case (Inl e)
        with assms named g Inr c cc a show ?thesis by (auto simp: open_store_def bindS_def on_files_def)
      next
        case (Inr qt)
        obtain q t where qt: "qt = (q, t)" by fastforce
        with Inr cc have q: "resolve g (absolute h s) = Some q" "t = stored_tables b g q"
          "\<forall>u m. map_of g q \<noteq> Some (Directory u m)" by simp_all
        have res: "resolve f (absolute h s) = Some q" using q(1) ag by (simp add: appeared_def)
        have "stored_tables b g q = stored_tables b f q"
          using ensure_directories_new[OF g, of q] q(3) by (auto simp: stored_tables_def)
        with assms named g \<open>r = Inr u\<close> c cc a Inr qt q res show ?thesis
          by (auto simp: open_store_def bindS_def on_files_def)
      qed
    qed
  qed
  show "appeared (absolute h s) f f'" "case res of
        Inl e \<Rightarrow> b' = b
      | Inr None \<Rightarrow> s \<in> set ['':memory:'', []] \<and> b' = b \<and> f' = f
      | Inr (Some q) \<Rightarrow> resolve f (absolute h s) = Some q \<and> b' = b(q := Some (migrated cd (stored_tables b f q)))"
    using rest assms by (cases "s \<in> set ['':memory:'', []]"; auto simp: open_store_def returnS_def appeared_refl split: sum.splits option.splits)+
qed

end
