(* ===== verification/Factory.thy ===== *)
theory Factory
  imports Observability ContainerLab Service Opening
begin

text \<open>
  \<open>factory.py\<close>: from the settings to the service. What building changes are the databases and the container lab: the
  files of the host, the attributes of the lab and the rest of the process. The platform gives what the source does
  not contain: the search path, the container engine, the clock, identifiers, names of temporary directories, the
  model server, \<open>json.loads\<close>, and what a timeout of the settings means to it as a number. Closing a store has no effect
  on its contents.
\<close>

record 'w platform =
  pf_host :: host
  pf_gid :: nat
  pf_which :: "string \<Rightarrow> string option"
  pf_seconds :: "pyfloat \<Rightarrow> rat"
  pf_now :: "'w lab \<Rightarrow> datetime \<times> 'w lab"
  pf_uuid :: "'w lab \<Rightarrow> string \<times> 'w lab"
  pf_temporary :: "'w lab \<Rightarrow> (string \<times> string) \<times> 'w lab"
  pf_engine :: "rat \<Rightarrow> string list \<Rightarrow> files \<Rightarrow> run_outcome \<times> files"
  pf_service :: "'w container_service"
  pf_server :: "settings \<Rightarrow> string \<Rightarrow> string list \<Rightarrow> telemetry_evidence \<Rightarrow> string option \<Rightarrow> 'w lab model_server"
  pf_loads :: "string \<Rightarrow> json option"
  pf_sha :: "string \<Rightarrow> string"
  pf_repr :: "rat \<Rightarrow> string"
  pf_time_json :: "observed \<Rightarrow> string"

definition platform_codec :: "'w platform \<Rightarrow> codec" where
  "platform_codec pf = \<lparr>cd_loads = pf_loads pf, cd_sha = pf_sha pf, cd_repr = pf_repr pf\<rparr>"

section \<open>The parts\<close>

definition on_lab :: "('w, 'a) action \<Rightarrow> (databases \<times> 'w, 'a) action" where
  "on_lab m = (\<lambda>(b, w). case m w of (r, w') \<Rightarrow> (r, (b, w')))"

lemma on_lab_Inr: "on_lab m (b, w) = (Inr x, (b', w')) \<longleftrightarrow> m w = (Inr x, w') \<and> b' = b"
  by (auto simp: on_lab_def split: prod.splits)

lemma on_lab_Inl: "on_lab m (b, w) = (Inl e, (b', w')) \<longleftrightarrow> m w = (Inl e, w') \<and> b' = b"
  by (auto simp: on_lab_def split: prod.splits)

definition lab_store :: "'w platform \<Rightarrow> string \<Rightarrow> (databases \<times> 'w lab, path option) action" where
  "lab_store pf database_path = (\<lambda>(b, w).
     case open_store (pf_host pf) (platform_codec pf) database_path (b, lb_files w) of
       (r, (b', f)) \<Rightarrow> (r, (b', w\<lparr>lb_files := f\<rparr>)))"

definition drawL :: "('w lab \<Rightarrow> 'a \<times> 'w lab) \<Rightarrow> ('w lab, 'a) action" where
  "drawL g s = (case g s of (x, s') \<Rightarrow> (Inr x, s'))"

definition runtime_sandbox :: "'w platform \<Rightarrow> ('w lab, sandbox) action" where
  "runtime_sandbox pf =
     bindS (drawL (pf_temporary pf)) (\<lambda>(name, token).
     bindS (filesL (create_runtime (pf_host pf) name token)) (\<lambda>sb.
     bindS (\<lambda>s. (Inr (), s\<lparr>lb_temporary := True\<rparr>)) (\<lambda>_. returnS sb)))"

definition build_analyzer ::
    "'w platform \<Rightarrow> environment \<Rightarrow> settings
       \<Rightarrow> exn + (telemetry_evidence \<Rightarrow> string option \<Rightarrow> 'w lab \<Rightarrow> (exn + model_result) \<times> 'w lab)"
where
  "build_analyzer pf environ st =
     (if cf_app_mode st = ''live''
      then case map_of environ (cf_api_key_env st) of
             None \<Rightarrow> Inl (ValueError (cf_api_key_env st @ '' is required when APP_MODE=live''))
           | Some key \<Rightarrow>
               if key = [] then Inl (ValueError (cf_api_key_env st @ '' is required when APP_MODE=live''))
               else Inr (live_analyze (pf_server pf st key) (cf_model_max_retries st))
      else Inr (\<lambda>ev note w. (fake_analyze ev, w)))"

text \<open>\<open>shutil.which("podman") or shutil.which("docker")\<close>.\<close>

definition found_engine :: "'w platform \<Rightarrow> string option" where
  "found_engine pf = (if given (pf_which pf ''podman'') then pf_which pf ''podman'' else pf_which pf ''docker'')"

definition chosen_engine :: "'w platform \<Rightarrow> settings \<Rightarrow> string option" where
  "chosen_engine pf st =
     (if cf_execution_engine st \<in> {''podman'', ''docker''} then Some (cf_execution_engine st) else found_engine pf)"

text \<open>The container adapter names each container by a fresh identifier, drawn once the action is known to run.\<close>

definition container_adapter ::
    "'w platform \<Rightarrow> sandbox \<Rightarrow> container_executor \<Rightarrow> remediation_option \<Rightarrow> ('w lab, execution_result) action" where
  "container_adapter pf sb ce opt =
     (if map_of CONTAINER_ACTION_SCRIPTS (ro_action_id opt) = None \<or> ce_engine ce = None
      then filesL (container_execute (pf_host pf) sb ce [] (pf_gid pf) opt)
      else bindS (drawL (pf_uuid pf)) (\<lambda>u. filesL (container_execute (pf_host pf) sb ce (''incident-agent-'' @ u) (pf_gid pf) opt)))"

text \<open>One \<open>ContainerRemediationExecutor\<close> on a fresh sandbox.\<close>

definition build_container ::
    "'w platform \<Rightarrow> settings \<Rightarrow> string option
       \<Rightarrow> ('w lab, (remediation_option \<Rightarrow> ('w lab, execution_result) action) \<times> ('w lab, unit) action) action"
where
  "build_container pf st engine =
     bindS (runtime_sandbox pf) (\<lambda>sb.
     bindS (readS (\<lambda>_. new_container_executor (cf_container_image st) engine (found_engine pf)
                         (pf_engine pf (pf_seconds pf (cf_execution_timeout_seconds st))))) (\<lambda>ce.
     returnS (container_adapter pf sb ce, close_sandbox (pf_host pf) ((pf_service pf)\<lparr>sv_sandbox := sb\<rparr>))))"

text \<open>The lab object on a fresh sandbox, its constructor and its start.\<close>

definition lab_service :: "'w platform \<Rightarrow> settings \<Rightarrow> sandbox \<Rightarrow> string \<Rightarrow> 'w container_service" where
  "lab_service pf st sb lab_id = (pf_service pf)
     \<lparr>sv_sandbox := sb, sv_image := cf_container_image st,
      sv_engine := (case chosen_engine pf st of None \<Rightarrow> [] | Some e \<Rightarrow> e),
      sv_timeout := pf_seconds pf (cf_execution_timeout_seconds st),
      sv_health_timeout := pf_seconds pf (cf_container_health_timeout_seconds st), sv_lab_id := lab_id, sv_gid := pf_gid pf\<rparr>"

definition build_lab :: "'w platform \<Rightarrow> settings \<Rightarrow> ('w lab, 'w container_service) action" where
  "build_lab pf st =
     bindS (runtime_sandbox pf) (\<lambda>sb.
     bindS (readS (\<lambda>_. new_container_service (lab_service pf st sb []))) (\<lambda>_.
     bindS (drawL (pf_uuid pf)) (\<lambda>lab_id.
     bindS (\<lambda>s. (Inr (), s\<lparr>lb_container := None\<rparr>)) (\<lambda>_.
     bindS (start (pf_host pf) (lab_service pf st sb lab_id)) (\<lambda>_. returnS (lab_service pf st sb lab_id))))))"

text \<open>Telemetry and executor, with the \<open>close\<close> of the executor.\<close>

type_synonym 'w collaborators =
  "(event_request \<Rightarrow> 'w lab \<Rightarrow> (exn + telemetry_evidence) \<times> 'w lab) \<times> (remediation_option \<Rightarrow> ('w lab, execution_result) action) \<times>
   ('w lab, unit) action"

text \<open>\<open>container_collect\<close> over the snapshot of the lab, or the synthetic collectors.\<close>

definition synthetic_collect :: "event_request \<Rightarrow> 'w lab \<Rightarrow> (exn + telemetry_evidence) \<times> 'w lab" where
  "synthetic_collect e w = (scenario_collect e, w)"

definition build_executor :: "'w platform \<Rightarrow> settings \<Rightarrow> ('w lab, 'w collaborators) action" where
  "build_executor pf st =
     (if cf_lab_mode st = ''container-service'' then
        bindS (build_lab pf st) (\<lambda>sv.
        returnS (container_collect (snapshot (pf_host pf) sv), service_restart_execute (pf_host pf) sv, close_lab (pf_host pf) sv))
      else if \<not> cf_execution_enabled st then returnS (synthetic_collect, disabled_execute, returnS ())
      else if cf_execution_engine st = ''podman'' then
        bindS (build_container pf st (Some ''podman'')) (\<lambda>run. returnS (synthetic_collect, run))
      else if cf_execution_engine st = ''docker'' then
        bindS (build_container pf st (Some ''docker'')) (\<lambda>run. returnS (synthetic_collect, run))
      else if cf_execution_engine st = ''container'' then
        bindS (build_container pf st (found_engine pf)) (\<lambda>run. returnS (synthetic_collect, run))
      else raiseS (ValueError ''EXECUTION_ENGINE must be podman, docker, or container''))"

record 'w built =
  bt_env :: "'w lab service_env"
  bt_database :: "path option"
  bt_close :: "('w lab, unit) action"
  bt_poll :: pyfloat
  bt_observability :: observability

definition build_service :: "'w platform \<Rightarrow> environment \<Rightarrow> settings \<Rightarrow> (databases \<times> 'w lab, 'w built) action" where
  "build_service pf environ st =
     bindS (readS (\<lambda>_. validate_settings environ st)) (\<lambda>_.
     bindS (lab_store pf (cf_database_path st)) (\<lambda>store.
     bindS (readS (\<lambda>_. build_observability st)) (\<lambda>obs.
     bindS (readS (\<lambda>_. build_analyzer pf environ st)) (\<lambda>analyze.
     bindS (on_lab (build_executor pf st)) (\<lambda>(collect, run, close).
     returnS
       \<lparr>bt_env = \<lparr>se_now = pf_now pf, se_uuid = pf_uuid pf, se_collect = collect, se_analyze = analyze, se_execute = run,
          se_binding = None, se_ttl = nat (cf_proposal_ttl_seconds st), se_execution_enabled = cf_execution_enabled st,
          se_sha = pf_sha pf, se_repr = pf_repr pf, se_time_json = pf_time_json pf\<rparr>,
        bt_database = store, bt_close = close, bt_poll = cf_expiration_poll_seconds st, bt_observability = obs\<rparr>)))))"

section \<open>The image check of the adapters is that of the settings\<close>

lemma fullmatch_pinned:
  "fullmatch PINNED_IMAGE img \<longleftrightarrow>
    (\<exists>name digest. img = name @ ''@sha256:'' @ digest \<and> name \<noteq> [] \<and> list_all not_newline name \<and> length digest = 64 \<and>
       list_all Config.hex_lower digest)"
proof -
  have "fullmatch PINNED_IMAGE img \<longleftrightarrow> img \<in> lang PINNED_IMAGE" by (rule fullmatch_iff) (simp add: PINNED_IMAGE_def)
  also have "lang PINNED_IMAGE = {name @ rest |name rest. name \<in> {w. w \<noteq> [] \<and> list_all not_newline w} \<and>
      rest \<in> {v @ w |v w. v \<in> {''@sha256:''} \<and> w \<in> {d @ e |d e. d \<in> {w. length w = 64 \<and> list_all Config.hex_lower w} \<and> e \<in> {[]}}}}"
    unfolding PINNED_IMAGE_def Seqs.simps lang.simps(1,3) lang_Plus_Sat lang_Lit lang_Rep_Sat by (rule refl)
  finally show ?thesis by auto
qed

lemma image_pinned_iff: "image_pinned img \<longleftrightarrow> fullmatch PINNED_IMAGE img"
proof
  assume "image_pinned img"
  then have p: "72 < length img" "CHR 0x0A \<notin> set (take (length img - 72) img)"
    "take 8 (drop (length img - 72) img) = ''@sha256:''" "list_all Executor.hex_digit (drop 8 (drop (length img - 72) img))"
    unfolding image_pinned_def Let_def by blast+
  have "img = take (length img - 72) img @ take 8 (drop (length img - 72) img) @ drop 8 (drop (length img - 72) img)"
    by (simp only: append_take_drop_id)
  then have "img = take (length img - 72) img @ ''@sha256:'' @ drop 8 (drop (length img - 72) img)" unfolding p(3) .
  moreover have "list_all not_newline (take (length img - 72) img)" using p(2) by (auto simp: list_all_iff not_newline_def)
  moreover have "list_all Config.hex_lower (drop 8 (drop (length img - 72) img))"
    using p(4) by (simp add: list_all_iff hex_lower_def Executor.hex_digit_def)
  ultimately show "fullmatch PINNED_IMAGE img" using p(1) unfolding fullmatch_pinned by (intro exI conjI) auto
next
  assume "fullmatch PINNED_IMAGE img"
  then obtain name digest where "img = name @ ''@sha256:'' @ digest" "name \<noteq> []" "list_all not_newline name"
    "length digest = 64" "list_all Config.hex_lower digest" unfolding fullmatch_pinned by blast
  then show "image_pinned img"
    by (auto simp: image_pinned_def list_all_iff not_newline_def hex_lower_def Executor.hex_digit_def)
qed

section \<open>What is built\<close>

lemma synthetic_lab: "validate_settings environ st = Inr () \<Longrightarrow> \<not> cf_execution_enabled st \<Longrightarrow> cf_lab_mode st \<noteq> ''container-service''"
  using validated(4) by blast

lemma execute_disabled:
  "\<not> se_execution_enabled env \<Longrightarrow>
    execute env pid actor s = (Inl (ExecutionDisabledError ''remediation execution is disabled by configuration''), s)"
  by (simp add: execute_def raiseS_def)

text \<open>The adapters that the factory may install.\<close>

definition installable :: "'w platform \<Rightarrow> settings \<Rightarrow> (remediation_option \<Rightarrow> ('w lab, execution_result) action) \<Rightarrow> bool" where
  "installable pf st run \<longleftrightarrow>
     (\<exists>sb ce. run = container_adapter pf sb ce \<and> ce_image ce = cf_container_image st) \<or>
     (\<exists>sb lab_id. run = service_restart_execute (pf_host pf) (lab_service pf st sb lab_id) \<and>
        image_pinned (cf_container_image st))"

lemma build_container_installable:
  assumes "build_container pf st engine s = (Inr (run, close), s')"
  shows "installable pf st run"
proof -
  obtain sb ce engine' found r where "new_container_executor (cf_container_image st) engine' found r = Inr ce" "run = container_adapter pf sb ce"
    using assms by (auto simp: build_container_def bindS_Inr_iff)
  moreover from this(1) have "ce_image ce = cf_container_image st" by (auto simp: new_container_executor_def split: if_splits)
  ultimately show ?thesis unfolding installable_def by blast
qed

lemma build_executor_installable:
  assumes "build_executor pf st s = (Inr (collect, run, close), s')" and "cf_execution_enabled st"
  shows "installable pf st run"
proof (cases "cf_lab_mode st = ''container-service''")
  case True
  then obtain sv t where sv: "build_lab pf st s = (Inr sv, t)" "run = service_restart_execute (pf_host pf) sv"
    using assms(1) by (auto simp: build_executor_def bindS_Inr_iff)
  from sv(1) obtain sb lab_id sv' where "new_container_service (lab_service pf st sb []) = Inr sv'" "sv = lab_service pf st sb lab_id"
    by (auto simp: build_lab_def bindS_Inr_iff)
  then show ?thesis
    using sv(2) by (auto simp: installable_def new_container_service_def lab_service_def split: if_splits)
next
  case False
  then show ?thesis
    using assms by (auto simp: build_executor_def bindS_Inr_iff intro: build_container_installable split: if_splits)
qed

text \<open>The store that was opened, with the files and the databases before and after.\<close>

definition store_opened ::
    "'w platform \<Rightarrow> string \<Rightarrow> path option \<Rightarrow> databases \<times> files \<Rightarrow> databases \<times> files \<Rightarrow> bool" where
  "store_opened pf database_path store = (\<lambda>(b, f) (b', f').
     case store of
       None \<Rightarrow> database_path \<in> set ['':memory:'', []] \<and> b' = b \<and> f' = f
     | Some q \<Rightarrow>
         resolve f (absolute (pf_host pf) database_path) = Some q \<and>
         b' = b(q := Some (migrated (platform_codec pf) (stored_tables b f q))) \<and>
         appeared (absolute (pf_host pf) database_path) f f')"

lemma lab_store_opened:
  assumes "lab_store pf s (b, w) = (Inr store, (b', w'))"
  shows "w' = w\<lparr>lb_files := lb_files w'\<rparr> \<and> store_opened pf s store (b, lb_files w) (b', lb_files w')"
proof -
  obtain r b1 f1 where o: "open_store (pf_host pf) (platform_codec pf) s (b, lb_files w) = (r, (b1, f1))" by (metis prod.collapse)
  with assms have "r = Inr store" "b' = b1" "w' = w\<lparr>lb_files := f1\<rparr>" by (auto simp: lab_store_def)
  then show ?thesis using open_store_changes[OF o] by (auto simp: store_opened_def split: option.splits)
qed

text \<open>A step of the factory: what it went through.\<close>

lemma build_service_Inr:
  assumes "build_service pf environ st (b, w) = (Inr x, (b', w'))"
  obtains w1 collect run close where "validate_settings environ st = Inr ()"
    "lab_store pf (cf_database_path st) (b, w) = (Inr (bt_database x), (b', w1))"
    "build_executor pf st w1 = (Inr (collect, run, close), w')"
    "se_execute (bt_env x) = run" "se_execution_enabled (bt_env x) = cf_execution_enabled st"
proof -
  obtain s1 s2 store obs analyze collect run close where v: "validate_settings environ st = Inr ()"
    and o: "lab_store pf (cf_database_path st) (b, w) = (Inr store, s1)"
    and e: "on_lab (build_executor pf st) s1 = (Inr (collect, run, close), s2)" "s2 = (b', w')"
    and x: "se_execute (bt_env x) = run" "se_execution_enabled (bt_env x) = cf_execution_enabled st" "bt_database x = store"
    using assms by (auto simp: build_service_def bindS_Inr_iff readS_def returnS_def)
  obtain b1 w1 where "s1 = (b1, w1)" by (cases s1)
  with e o x show thesis using that[of w1 collect run close] v by (auto simp: on_lab_Inr)
qed

text \<open>C31: What the factory builds is what the settings allow. The store it opens is that of the settings: of all databases
  only the one at the configured path changes, to the migrated schema of what was there. Without execution
  enabled nothing else happens: on the host only missing directories above that file and the file itself appear,
  nothing is started, and the service refuses every execution and changes nothing. With it, the executor is the
  container adapter or the restart of a lab of its own, on the image of the settings, which is pinned by its
  digest.\<close>

theorem built_as_configured:
  assumes "build_service pf environ st (b, w) = (Inr x, (b', w'))"
  shows "\<exists>f. store_opened pf (cf_database_path st) (bt_database x) (b, lb_files w) (b', f) \<and>
    (if cf_execution_enabled st
     then installable pf st (se_execute (bt_env x)) \<and> pinned (cf_container_image st)
     else w' = w\<lparr>lb_files := f\<rparr> \<and> (\<forall>pid actor s. execute (bt_env x) pid actor s =
       (Inl (ExecutionDisabledError ''remediation execution is disabled by configuration''), s)))"
proof -
  from assms obtain w1 collect run close where v: "validate_settings environ st = Inr ()"
    and o: "lab_store pf (cf_database_path st) (b, w) = (Inr (bt_database x), (b', w1))"
    and e: "build_executor pf st w1 = (Inr (collect, run, close), w')"
    and x: "se_execute (bt_env x) = run" "se_execution_enabled (bt_env x) = cf_execution_enabled st"
    by (rule build_service_Inr)
  note opened = lab_store_opened[OF o]
  show ?thesis
  proof (cases "cf_execution_enabled st")
    case True
    then show ?thesis using build_executor_installable[OF e] x(1) validated(2)[OF v] opened by auto
  next
    case False
    then have "w' = w1" using e synthetic_lab[OF v] by (auto simp: build_executor_def returnS_def)
    then show ?thesis using False x(2) execute_disabled[of "bt_env x"] opened by auto
  qed
qed

text \<open>Validated settings leave the factory nothing to refuse: if it fails, then the database could not be opened, or building
  the telemetry exporter failed, or the host refused a temporary sandbox, or the container lab did not start; its own
  checks of the key, of the engine and of the image pass.\<close>

theorem build_failure_is_external:
  assumes "validate_settings environ st = Inr ()" and "build_service pf environ st (b, w) = (Inl e, (b', w'))"
  shows "lab_store pf (cf_database_path st) (b, w) = (Inl e, (b', w')) \<or>
    (\<exists>store w1. lab_store pf (cf_database_path st) (b, w) = (Inr store, (b', w1)) \<and>
      (build_observability st = Inl e \<or> runtime_sandbox pf w1 = (Inl e, w') \<or>
       (cf_lab_mode st = ''container-service'' \<and> build_lab pf st w1 = (Inl e, w'))))"
proof -
  have analyzer: "build_analyzer pf environ st \<noteq> Inl y" for y
    using validated(5)[OF assms(1)] by (auto simp: build_analyzer_def given_iff)
  have container: "cf_execution_enabled st \<Longrightarrow> build_container pf st engine w1 = (Inl e, w') \<Longrightarrow> runtime_sandbox pf w1 = (Inl e, w')" for engine w1
    using validated_image[OF assms(1)]
    by (auto simp: build_container_def bindS_Inl_iff new_container_executor_def image_pinned_iff returnS_def readS_def)
  show ?thesis
  proof (cases "fst (lab_store pf (cf_database_path st) (b, w))")
    case (Inl y)
    then show ?thesis
      using assms(2) by (auto simp: build_service_def bindS_def readS_def assms(1) split: prod.splits)
  next
    case (Inr store)
    then obtain b1 w1 where o: "lab_store pf (cf_database_path st) (b, w) = (Inr store, (b1, w1))" by (metis prod.collapse)
    have "b' = b1 \<and> (build_observability st = Inl e \<or> build_executor pf st w1 = (Inl e, w'))"
      using assms(2) o analyzer
      by (auto simp: build_service_def bindS_def readS_def returnS_def on_lab_def assms(1) split: prod.splits sum.splits)
    moreover have "build_executor pf st w1 = (Inl e, w') \<Longrightarrow> runtime_sandbox pf w1 = (Inl e, w') \<or>
        (cf_lab_mode st = ''container-service'' \<and> build_lab pf st w1 = (Inl e, w'))"
      using container validated(3)[OF assms(1)]
      by (auto simp: build_executor_def bindS_Inl_iff returnS_def raiseS_def split: if_splits)
    ultimately show ?thesis using o by blast
  qed
qed

definition plain_settings :: settings where
  "plain_settings = default_settings\<lparr>cf_host := ''localhost'', cf_database_path := ''data/store''\<rparr>"

lemma plain_settings_valid: "validate_settings [] plain_settings = Inr ()"
proof -
  have "is_loopback_host ''localhost''" "fullmatch IDENTIFIER ''incident-response-agent''" by code_simp+
  then show ?thesis by (simp add: validate_ok checks_def plain_settings_def default_settings_def)
qed

text \<open>A host with nothing but its working directory, which refuses nothing.\<close>

definition plain_host :: host where
  "plain_host = \<lparr>h_tmp = [''tmp''], h_home = [''home''], h_cwd = [''srv''], h_package = [''lib''], h_euid = 7,
     h_dir_mode = 493, h_refuses = (\<lambda>p. False)\<rparr>"

definition plain_files :: files where "plain_files = [([''srv''], Directory 0 493)]"

definition stored_files :: files where
  "stored_files = put_entry [''srv'', ''data'', ''store''] (Regular []) (put_entry [''srv'', ''data''] (Directory 7 493) plain_files)"

definition new_database :: "'w platform \<Rightarrow> databases" where
  "new_database pf = (\<lambda>q. if q = [''srv'', ''data'', ''store''] then Some (migrated (platform_codec pf) created_tables) else None)"

lemma plain_store:
  assumes "pf_host pf = plain_host"
  shows "lab_store pf ''data/store'' (\<lambda>q. None, w\<lparr>lb_files := plain_files\<rparr>) =
    (Inr (Some [''srv'', ''data'', ''store'']), (new_database pf, w\<lparr>lb_files := stored_files\<rparr>))"
proof -
  have parts: "path_parts ''data/store'' = [''data'', ''store'']" "\<not> is_absolute ''data/store''" by code_simp+
  have db: "new_database pf = (\<lambda>q. None)([''srv'', ''data'', ''store''] := Some (migrated (platform_codec pf) created_tables))"
    by (auto simp: new_database_def)
  show ?thesis
    by (simp add: db lab_store_def open_store_def parts path_base_def absolute_def assms plain_host_def bindS_def on_files_def plain_files_def
        stat_def lstat_def resolve_def entry_at_def connect_def put_entry_def stored_files_def stored_tables_def)
qed

theorem built_as_configured_witness:
  "\<forall>(pf :: nat platform) w. \<exists>x. build_service (pf\<lparr>pf_host := plain_host\<rparr>) [] plain_settings (\<lambda>q. None, w\<lparr>lb_files := plain_files\<rparr>) =
        (Inr x, (new_database (pf\<lparr>pf_host := plain_host\<rparr>), w\<lparr>lb_files := stored_files\<rparr>)) \<and>
      bt_database x = Some [''srv'', ''data'', ''store''] \<and>
      fst (execute (bt_env x) ''p'' ''u'' (empty_db, w)) = Inl (ExecutionDisabledError ''remediation execution is disabled by configuration'')"
proof (intro allI)
  fix pf :: "nat platform" and w
  let ?pf = "pf\<lparr>pf_host := plain_host\<rparr>"
  have off: "\<not> cf_execution_enabled plain_settings" "cf_lab_mode plain_settings \<noteq> ''container-service''" "cf_app_mode plain_settings \<noteq> ''live''"
    "\<not> cf_otel_enabled plain_settings" "cf_database_path plain_settings = ''data/store''"
    by (simp_all add: plain_settings_def default_settings_def)
  obtain x where x: "build_service ?pf [] plain_settings (\<lambda>q. None, w\<lparr>lb_files := plain_files\<rparr>) =
        (Inr x, (new_database ?pf, w\<lparr>lb_files := stored_files\<rparr>))" "bt_database x = Some [''srv'', ''data'', ''store'']"
    using plain_store[of ?pf w]
    by (simp add: build_service_def bindS_def readS_def plain_settings_valid build_observability_def build_analyzer_def build_executor_def
        off on_lab_def returnS_def)
  show "\<exists>x. build_service ?pf [] plain_settings (\<lambda>q. None, w\<lparr>lb_files := plain_files\<rparr>) =
        (Inr x, (new_database ?pf, w\<lparr>lb_files := stored_files\<rparr>)) \<and>
      bt_database x = Some [''srv'', ''data'', ''store''] \<and>
      fst (execute (bt_env x) ''p'' ''u'' (empty_db, w)) = Inl (ExecutionDisabledError ''remediation execution is disabled by configuration'')"
    using built_as_configured[OF x(1)] off(1) x by auto
qed

text \<open>An export timeout that is infinite stops the construction after an in-memory store was opened.\<close>

theorem build_failure_is_external_witness:
  "\<exists>st. validate_settings sample_environment st = Inr () \<and>
     (\<forall>(pf :: nat platform) b w. build_service pf sample_environment st (b, w) = (Inl OverflowError, (b, w)) \<and> build_observability st = Inl OverflowError)"
proof -
  obtain s where s: "validate_settings sample_environment s = Inr ()" "cf_otel_enabled s"
    "cf_otel_exporter_otlp_endpoint s = Some ''https://collector:4318/''" using sample_settings by blast
  define st where "st = s\<lparr>cf_execution_timeout_seconds := PosInf, cf_expiration_poll_seconds := PosInf, cf_otel_export_timeout_seconds := PosInf,
    cf_database_path := '':memory:''\<rparr>"
  have v: "validate_settings sample_environment st = Inr ()"
    using nan_timeout_accepted[OF s(1), of PosInf] by (simp add: st_def validate_ok checks_def)
  have obs: "build_observability st = Inl OverflowError" using s(2,3) by (simp add: st_def build_observability_def)
  have store: "lab_store pf (cf_database_path st) (b, w) = (Inr None, (b, w))" for pf :: "nat platform" and b w
    by (simp add: st_def lab_store_def open_store_def returnS_def)
  have fails: "build_service pf sample_environment st (b, w) = (Inl OverflowError, (b, w))" for pf :: "nat platform" and b w
    by (simp add: build_service_def bindS_def readS_def v obs store)
  have "lab_store pf (cf_database_path st) (b, w) = (Inl OverflowError, (b, w)) \<or>
    (\<exists>store w1. lab_store pf (cf_database_path st) (b, w) = (Inr store, (b, w1)) \<and>
      (build_observability st = Inl OverflowError \<or> runtime_sandbox pf w1 = (Inl OverflowError, w) \<or>
       (cf_lab_mode st = ''container-service'' \<and> build_lab pf st w1 = (Inl OverflowError, w))))" for pf :: "nat platform" and b w
    by (rule build_failure_is_external[OF v fails])
  then show ?thesis using v obs fails by blast
qed

end
