(* ===== verification/Demo.thy ===== *)
theory Demo
  imports Workflow Factory Runbook Capability
begin

text \<open>
  The demonstrations of \<open>cli.py\<close> over the incident service: the offline one, the interactive ones over a disposable
  site and over the disposable container service. What a command prints is kept as a list of phases instead of JSON
  text. The terminal holds the environment, the output and the rest of the process; the operator's answers, the clock,
  identifiers, names of temporary directories and the agents are parameters. A service over \<open>:memory:\<close> starts from the
  empty database, which is dropped at the end.
\<close>

section \<open>The terminal\<close>

datatype phase =
    Proposed_run run_view
  | Executed_run run_view
  | Proposed string proposal_view
  | Rejected_run run_state
  | Executed_container run_state json
  | Investigated investigation_result "string list" proposal_view
  | Rejected
  | Recovered run_state diagnostic_observation
  | Contract_violation bool
  | Runbook_candidate "(runbook_proposal, runbook_evaluation) candidate_row"
  | Runbook_revised "(runbook_proposal, runbook_evaluation) candidate_row"
  | Runbook_reviewed "(runbook_proposal, runbook_evaluation) reviewed" "(string \<times> nat \<times> string) list option"
  | Capability_candidate "(capability_proposal, capability_evaluation) candidate_row"
  | Capability_revised "(capability_proposal, capability_evaluation) candidate_row"
  | Capability_reviewed "(capability_proposal, capability_evaluation) reviewed" "(string \<times> nat \<times> string) list option"
  | Activated_proposal remediation_option
  | Activated run_state diagnostic_observation int bool

record 'x terminal =
  tm_environ :: environment
  tm_output :: "phase list"
  tm_rest :: 'x

record 'x cli_env =
  ce_host :: host
  ce_now :: "'x \<Rightarrow> datetime \<times> 'x"
  ce_uuid :: "'x \<Rightarrow> string \<times> 'x"
  ce_temporary :: "'x \<Rightarrow> (string \<times> string) \<times> 'x"
  ce_input :: "'x \<Rightarrow> (exn + string) \<times> 'x"
  ce_dotenv :: "string option"
  ce_investigator :: "settings \<Rightarrow> string \<Rightarrow> investigation_result agent"
  ce_runbook_agent :: "settings \<Rightarrow> string \<Rightarrow> runbook_proposal agent"
  ce_capability_agent :: "settings \<Rightarrow> string \<Rightarrow> capability_proposal agent"
  ce_sha :: "string \<Rightarrow> string"
  ce_repr :: "rat \<Rightarrow> string"
  ce_time_json :: "observed \<Rightarrow> string"

definition restT :: "('x \<Rightarrow> 'a \<times> 'x) \<Rightarrow> 'x terminal \<Rightarrow> 'a \<times> 'x terminal" where
  "restT g t = (case g (tm_rest t) of (y, x) \<Rightarrow> (y, t\<lparr>tm_rest := x\<rparr>))"

definition environT :: "(environment, 'a) action \<Rightarrow> ('x terminal, 'a) action" where
  "environT m t = (case m (tm_environ t) of (r, e) \<Rightarrow> (r, t\<lparr>tm_environ := e\<rparr>))"

definition printT :: "phase \<Rightarrow> ('x terminal, unit) action" where
  "printT p t = (Inr (), t\<lparr>tm_output := tm_output t @ [p]\<rparr>)"

text \<open>The terminal as a part of a larger world.\<close>

record 'w console =
  cn_print :: "phase \<Rightarrow> ('w, unit) action"
  cn_input :: "('w, string) action"

text \<open>\<open>strftime('%Y%m%d%H%M%S%f')\<close>.\<close>

definition compact_stamp :: "datetime \<Rightarrow> string" where
  "compact_stamp t =
     show_nat (year t) @ fixed 2 (month t) @ fixed 2 (day t) @ fixed 2 (hour t) @ fixed 2 (minute t) @ fixed 2 (second t) @
     fixed 6 (microsecond t)"

section \<open>Sessions with the service\<close>

text \<open>\<open>input(...).strip().lower()\<close> and the decision it stands for: anything but \<open>approve\<close> rejects.\<close>

definition typed_decision :: "string \<Rightarrow> decision" where
  "typed_decision response = (if lower (strip response) = ''approve'' then APPROVE else REJECT)"

definition print_phase :: "'w console \<Rightarrow> phase \<Rightarrow> (db \<times> 'w, unit) action" where
  "print_phase cn p = worldS (cn_print cn p)"

definition prompt :: "'w console \<Rightarrow> (db \<times> 'w, decision) action" where
  "prompt cn = bindS (worldS (cn_input cn)) (\<lambda>response. returnS (typed_decision response))"

definition simulated_event :: "string \<Rightarrow> datetime \<Rightarrow> scenario \<Rightarrow> string option \<Rightarrow> event_request" where
  "simulated_event key observed s summary =
     \<lparr>ev_idempotency_key = key, ev_source = LOCAL_SIMULATION, ev_observed_at = \<lparr>local_time = observed, utcoffset = Some 0\<rparr>,
      ev_event_type = ''incident.detected'',
      ev_payload = \<lparr>pl_scenario = s, pl_summary = summary, pl_log_lines = [], pl_context = []\<rparr>, ev_trace_id = None\<rparr>"

definition submit_event :: "'w service_env \<Rightarrow> event_request \<Rightarrow> string \<Rightarrow> (db \<times> 'w, run_view) action" where
  "submit_event service event actor =
     bindS (readS (\<lambda>_. check_event (se_time_json service) (se_repr service) event)) (\<lambda>e. start_event service e actor)"

text \<open>\<open>assert run.proposal is not None\<close>.\<close>

definition run_proposal :: "run_view \<Rightarrow> exn + proposal_view" where
  "run_proposal run = (case rv_proposal run of None \<Rightarrow> Inl AssertionError | Some p \<Rightarrow> Inr p)"

definition exact_decision :: "decision \<Rightarrow> proposal_view \<Rightarrow> exn + decision_request" where
  "exact_decision dec p =
     (let request = \<lparr>dr_decision = dec, dr_revision = pv_revision p, dr_action_hash = pv_action_hash p, dr_note = None\<rparr> in
      if valid_decision_request request then Inr request else Inl ValidationError)"

definition decide_exactly :: "'w service_env \<Rightarrow> decision \<Rightarrow> proposal_view \<Rightarrow> string \<Rightarrow> (db \<times> 'w, run_view) action" where
  "decide_exactly service dec p actor =
     bindS (readS (\<lambda>_. exact_decision dec p)) (\<lambda>request. decide service (pv_id p) request actor)"

definition LOCAL_SERVICE :: string where "LOCAL_SERVICE = ''local-service''"

definition demo_session :: "'w console \<Rightarrow> 'w service_env \<Rightarrow> (db \<times> 'w, unit) action" where
  "demo_session cn service =
     bindS (nowS service) (\<lambda>observed.
     bindS (submit_event service (simulated_event ''demo-disk-001'' observed DISK_EXHAUSTION None) LOCAL_SERVICE) (\<lambda>run.
     bindS (print_phase cn (Proposed_run run)) (\<lambda>_.
     bindS (readS (\<lambda>_. run_proposal run)) (\<lambda>p.
     bindS (decide_exactly service APPROVE p LOCAL_SERVICE) (\<lambda>approved.
     bindS (execute service (case rv_proposal approved of Some q \<Rightarrow> pv_id q | None \<Rightarrow> pv_id p) LOCAL_SERVICE) (\<lambda>executed.
     print_phase cn (Executed_run executed)))))))"

definition CONTAINER_DEMO :: string where "CONTAINER_DEMO = ''container-service-demo''"

text \<open>\<open>next(record for record in completed.audit if ...)\<close>.\<close>

definition execution_record :: "run_view \<Rightarrow> exn + json" where
  "execution_record run =
     (case find (\<lambda>a. av_event_type a = ''execution_result'') (rv_audit run) of
        None \<Rightarrow> Inl StopIteration | Some a \<Rightarrow> Inr (av_metadata a))"

definition container_session :: "'w console \<Rightarrow> 'w service_env \<Rightarrow> (db \<times> 'w, unit) action" where
  "container_session cn service =
     bindS (nowS service) (\<lambda>named.
     bindS (nowS service) (\<lambda>observed.
     bindS (submit_event service (simulated_event (''container-service-'' @ compact_stamp named) observed RESTARTING_SERVICE
              (Some ''owned disposable service is unhealthy'')) CONTAINER_DEMO) (\<lambda>run.
     bindS (readS (\<lambda>_. run_proposal run)) (\<lambda>p.
     bindS (print_phase cn (Proposed (rv_id run) p)) (\<lambda>_.
     bindS (prompt cn) (\<lambda>dec.
     bindS (decide_exactly service dec p CONTAINER_DEMO) (\<lambda>decided.
     if dec = REJECT then print_phase cn (Rejected_run (rv_state decided))
     else
       bindS (execute service (pv_id p) CONTAINER_DEMO) (\<lambda>completed.
       bindS (readS (\<lambda>_. execution_record completed)) (\<lambda>metadata.
       print_phase cn (Executed_container (rv_state completed) metadata))))))))))"

text \<open>The site: \<open>health\<close> is the check after the execution, \<open>calls\<close> the tool calls of the investigation.\<close>

definition INVESTIGATOR :: string where "INVESTIGATOR = ''deep-agent-investigator''"

definition site_session ::
    "'w console \<Rightarrow> 'w service_env \<Rightarrow> ('w, diagnostic_observation) action \<Rightarrow> string \<Rightarrow> site_health_alert
       \<Rightarrow> investigation_result \<Rightarrow> string list \<Rightarrow> (db \<times> 'w, unit) action"
where
  "site_session cn service health actor alert diagnosis calls =
     bindS (submit_event service (simulated_event (sa_key alert) (sa_observed_at alert) (ir_scenario diagnosis)
              (Some ''site health investigation completed'')) INVESTIGATOR) (\<lambda>run.
     bindS (record_diagnostic_tools service (rv_id run) calls INVESTIGATOR) (\<lambda>_.
     bindS (readS (\<lambda>_. run_proposal run)) (\<lambda>p.
     bindS (print_phase cn (Investigated diagnosis calls p)) (\<lambda>_.
     bindS (prompt cn) (\<lambda>dec.
     bindS (decide_exactly service dec p actor) (\<lambda>_.
     if dec = REJECT then print_phase cn Rejected
     else
       bindS (execute service (pv_id p) actor) (\<lambda>completed.
       bindS (worldS health) (\<lambda>verification.
       bindS (readS (\<lambda>_. reports_healthy verification)) (\<lambda>healthy.
       bindS (record_recovery_verification service (rv_id completed) (pv_id p) healthy actor) (\<lambda>_.
       print_phase cn (Recovered (rv_state completed) verification)))))))))))"

section \<open>The process of the site demonstrations\<close>

record 'x process =
  pc_files :: files
  pc_terminal :: "'x terminal"

definition filesP :: "(files, 'a) action \<Rightarrow> ('x process, 'a) action" where
  "filesP m w = (case m (pc_files w) of (r, f) \<Rightarrow> (r, w\<lparr>pc_files := f\<rparr>))"

definition terminalP :: "('x terminal \<Rightarrow> 'a \<times> 'x terminal) \<Rightarrow> 'x process \<Rightarrow> 'a \<times> 'x process" where
  "terminalP g w = (case g (pc_terminal w) of (y, t) \<Rightarrow> (y, w\<lparr>pc_terminal := t\<rparr>))"

definition process_console :: "'x cli_env \<Rightarrow> 'x process console" where
  "process_console env = \<lparr>cn_print = (\<lambda>p. terminalP (printT p)), cn_input = terminalP (restT (ce_input env))\<rparr>"

text \<open>\<open>IncidentService(SQLiteStore(":memory:"), ..., DisposableFilesystemExecutor(sandbox), execution_enabled=True)\<close>.\<close>

definition local_service ::
    "'x cli_env \<Rightarrow> sandbox \<Rightarrow> (event_request \<Rightarrow> exn + telemetry_evidence) \<Rightarrow> (telemetry_evidence \<Rightarrow> exn + model_result) \<Rightarrow> nat
       \<Rightarrow> 'x process service_env"
where
  "local_service env sb collect analyze ttl =
     \<lparr>se_now = terminalP (restT (ce_now env)), se_uuid = terminalP (restT (ce_uuid env)),
      se_collect = (\<lambda>e w. (collect e, w)), se_analyze = (\<lambda>ev note w. (analyze ev, w)),
      se_execute = (\<lambda>opt. filesP (filesystem_execute (ce_host env) sb opt)),
      se_binding = None, se_ttl = ttl, se_execution_enabled = True, se_sha = ce_sha env, se_repr = ce_repr env,
      se_time_json = ce_time_json env\<rparr>"

definition in_memory :: "(db \<times> 'w, 'a) action \<Rightarrow> ('w, 'a) action" where
  "in_memory m w = (case m (empty_db, w) of (r, (d, w')) \<Rightarrow> (r, w'))"

definition fresh_sandbox :: "'x cli_env \<Rightarrow> ('x process, sandbox) action" where
  "fresh_sandbox env =
     bindS (\<lambda>w. case terminalP (restT (ce_temporary env)) w of (names, w') \<Rightarrow> (Inr names, w')) (\<lambda>(name, token).
     filesP (create_runtime (ce_host env) name token))"

text \<open>\<open>try ... finally: sandbox.close()\<close>; where the service was built, its own \<open>close\<close> already removed the sandbox.\<close>

definition closing_sandbox :: "'x cli_env \<Rightarrow> sandbox \<Rightarrow> ('x process, 'a) action \<Rightarrow> ('x process, 'a) action" where
  "closing_sandbox env sb m = finallyS m (filesP (remove_tree (ce_host env) (sb_root sb)))"

text \<open>\<open>logs.mkdir()\<close> and the one artifact of the offline demonstration.\<close>

definition mkdir_new :: "host \<Rightarrow> path \<Rightarrow> (files, unit) action" where
  "mkdir_new h p = bindS (readS (\<lambda>f. if lstat f p \<noteq> None then Inl OSError else Inr ())) (\<lambda>_. mkdir_exist_ok h p)"

definition demo_logs :: "host \<Rightarrow> sandbox \<Rightarrow> (files, unit) action" where
  "demo_logs h sb =
     bindS (readS (resolve_child h sb ''logs'')) (\<lambda>logs.
     bindS (mkdir_new h logs) (\<lambda>_.
     changeS (write_text h (logs @ [''application.1.rotated'']) ''synthetic log artifact'')))"

definition demo :: "'x cli_env \<Rightarrow> ('x process, unit) action" where
  "demo env =
     bindS (fresh_sandbox env) (\<lambda>sb.
     closing_sandbox env sb
       (bindS (filesP (demo_logs (ce_host env) sb)) (\<lambda>_.
        in_memory (demo_session (process_console env) (local_service env sb scenario_collect fake_analyze 900)))))"

text \<open>A trace that lives as long as the command, beside the files the agent's tools read.\<close>

definition with_trace :: "(trace \<times> 's, 'a) action \<Rightarrow> ('s, 'a \<times> trace) action" where
  "with_trace m s = (case m ([], s) of (Inl e, (tr, s')) \<Rightarrow> (Inl e, s') | (Inr x, (tr, s')) \<Rightarrow> (Inr (x, tr), s'))"

definition live_investigation_model :: "settings \<Rightarrow> environment \<Rightarrow> exn + unit" where
  "live_investigation_model st environ =
     (if given (map_of environ (cf_api_key_env st)) then Inr ()
      else Inl (ValueError (cf_api_key_env st @ '' is required for the Deep Agents investigation demo'')))"

definition new_alert :: "datetime \<Rightarrow> exn + site_health_alert" where
  "new_alert observed =
     (let alert = \<lparr>sa_key = ''site-unhealthy-'' @ compact_stamp observed, sa_observed_at = observed\<rparr> in
      if valid_alert alert then Inr alert else Inl ValidationError)"

definition site_demo_body :: "'x cli_env \<Rightarrow> settings \<Rightarrow> bool \<Rightarrow> sandbox \<Rightarrow> ('x process, unit) action" where
  "site_demo_body env st causal sb =
     (let h = ce_host env in
      bindS (filesP (if causal then causal_disk_exhaustion_lab h sb else disk_exhaustion_lab h sb)) (\<lambda>lab.
      bindS (readS (\<lambda>w. live_investigation_model st (tm_environ (pc_terminal w)))) (\<lambda>_.
      bindS (\<lambda>w. case terminalP (restT (ce_now env)) w of (t, w') \<Rightarrow> (Inr t, w')) (\<lambda>observed.
      bindS (readS (\<lambda>_. new_alert observed)) (\<lambda>alert.
      bindS (filesP (with_trace (investigate_site (site_target h sb lab) (ce_investigator env st (sa_key alert)) alert))) (\<lambda>(diagnosis, tr).
      bindS (readS (\<lambda>_. lab_telemetry_for lab diagnosis)) (\<lambda>evidence.
      in_memory (site_session (process_console env)
        (local_service env sb (\<lambda>e. Inr evidence) (\<lambda>ev. fst (investigation_analyze diagnosis ev None ())) (nat (cf_proposal_ttl_seconds st)))
        (filesP (site_check_health h sb)) (if causal then ''site-causal-demo'' else ''site-unhealthy-demo'')
        alert diagnosis (tool_calls_for (sa_key alert) tr)))))))))"

definition environP :: "(environment, 'a) action \<Rightarrow> ('x process, 'a) action" where
  "environP m = terminalP (environT m)"

definition site_investigation_demo :: "'x cli_env \<Rightarrow> bool \<Rightarrow> ('x process, unit) action" where
  "site_investigation_demo env causal =
     bindS (environP (from_env (ce_dotenv env))) (\<lambda>st.
     bindS (fresh_sandbox env) (\<lambda>sb.
     bindS (readS (\<lambda>_. build_observability st)) (\<lambda>_.
     closing_sandbox env sb (site_demo_body env st causal sb))))"

section \<open>The container demonstration\<close>

text \<open>
  The service is built from the environment, with the container lab and execution forced; its database is that of the
  settings, opened when it is built, and its world the container lab whose rest is the terminal.
\<close>

definition terminalC :: "('x terminal \<Rightarrow> 'a \<times> 'x terminal) \<Rightarrow> 'x terminal lab \<Rightarrow> 'a \<times> 'x terminal lab" where
  "terminalC g w = (case g (lb_world w) of (y, t) \<Rightarrow> (y, w\<lparr>lb_world := t\<rparr>))"

definition lab_console :: "'x cli_env \<Rightarrow> 'x terminal lab console" where
  "lab_console env = \<lparr>cn_print = (\<lambda>p. terminalC (printT p)), cn_input = terminalC (restT (ce_input env))\<rparr>"

definition container_service_demo :: "'x cli_env \<Rightarrow> 'x terminal platform \<Rightarrow> (databases \<times> 'x terminal lab, unit) action" where
  "container_service_demo env pf =
     bindS (on_lab (terminalC (environT (from_env (ce_dotenv env))))) (\<lambda>st.
     let forced = st\<lparr>cf_lab_mode := ''container-service'', cf_execution_enabled := True\<rparr> in
     bindS (readS (\<lambda>(b, w). validate_settings (tm_environ (lb_world w)) forced)) (\<lambda>_.
     bindS (\<lambda>(b, w). build_service pf (tm_environ (lb_world w)) forced (b, w)) (\<lambda>x.
     finallyS (on_store (platform_codec pf) (bt_database x) (container_session (lab_console env) (bt_env x)))
       (on_lab (bt_close x)))))"

end
