(* ===== verification/LearningDemo.thy ===== *)
theory LearningDemo
  imports Demo Knowledge Activation
begin

text \<open>
  The learning demonstrations of \<open>cli.py\<close>: an agent researches a runbook or a capability on a disposable worker, a
  simulated reviewer revises, approves or rejects it through the registry in the database, and a promoted capability
  is activated on the worker through the incident service. The registries persist; the worker lives as long as the
  command.
\<close>

record 'x learning =
  ln_runbooks :: runbooks
  ln_capabilities :: capability_store
  ln_terminal :: "'x terminal"

definition terminalN :: "('x terminal \<Rightarrow> 'a \<times> 'x terminal) \<Rightarrow> 'x learning \<Rightarrow> 'a \<times> 'x learning" where
  "terminalN g w = (case g (ln_terminal w) of (y, t) \<Rightarrow> (y, w\<lparr>ln_terminal := t\<rparr>))"

definition drawN :: "('x \<Rightarrow> 'a \<times> 'x) \<Rightarrow> ('x learning, 'a) action" where
  "drawN g w = (case terminalN (restT g) w of (y, w') \<Rightarrow> (Inr y, w'))"

definition printN :: "phase \<Rightarrow> ('x learning, unit) action" where "printN p = terminalN (printT p)"

definition runbooksN :: "(runbooks, 'a) action \<Rightarrow> ('x learning, 'a) action" where
  "runbooksN m w = (case m (ln_runbooks w) of (r, g) \<Rightarrow> (r, w\<lparr>ln_runbooks := g\<rparr>))"

definition capabilitiesN :: "(capability_store, 'a) action \<Rightarrow> ('x learning, 'a) action" where
  "capabilitiesN m w = (case m (ln_capabilities w) of (r, g) \<Rightarrow> (r, w\<lparr>ln_capabilities := g\<rparr>))"

definition registryN :: "(capabilities, 'a) action \<Rightarrow> ('x learning, 'a) action" where
  "registryN m = capabilitiesN (\<lambda>cs. case m (cs_registry cs) of (r, g) \<Rightarrow> (r, cs\<lparr>cs_registry := g\<rparr>))"

section \<open>The simulated reviewer\<close>

definition SIMULATED_REVIEWER :: string where "SIMULATED_REVIEWER = ''simulated-sre-reviewer''"

definition review_note :: string where
  "review_note = ''POC decision supplied by --simulate-review; no Studio approval used.''"

text \<open>\<open>RunbookReviewDecision(decision)\<close> and its twin for capabilities.\<close>

definition review_decision :: "string \<Rightarrow> string \<Rightarrow> exn + review_decision" where
  "review_decision class_name decision =
     (if decision = ''approve'' then Inr R_APPROVE else if decision = ''reject'' then Inr R_REJECT
      else Inl (ValueError ([CHR 0x27] @ decision @ [CHR 0x27] @ '' is not a valid '' @ class_name)))"

definition revises :: "string \<Rightarrow> bool" where "revises decision \<longleftrightarrow> decision = ''revise-approve''"

definition retrieved :: "('p \<Rightarrow> string) \<Rightarrow> ('p, 'e) promoted_row list \<Rightarrow> (string \<times> nat \<times> string) list" where
  "retrieved title rows = map (\<lambda>r. (pr_id r, pr_version r, title (pr_proposal r))) rows"

section \<open>Learning a runbook\<close>

definition revise_simulated ::
    "'x cli_env \<Rightarrow> (runbook_proposal, runbook_evaluation) candidate_row
       \<Rightarrow> ('x learning, (runbook_proposal, runbook_evaluation) candidate_row) action"
where
  "revise_simulated env c =
     bindS (readS (\<lambda>_. revised_runbook (cd_proposal c))) (\<lambda>revised.
     bindS (drawN (ce_now env)) (\<lambda>now.
     bindS (drawN (ce_uuid env)) (\<lambda>fresh.
     bindS (runbooksN (revise (runbook_kind (ce_sha env) (ce_repr env)) fresh (cd_id c) revised SIMULATED_REVIEWER
              (Some ''Removed generic health and normal-state observations from the reusable applicability contract.'')
              (isoformat now))) (\<lambda>c'.
     bindS (printN (Runbook_revised c')) (\<lambda>_. returnS c')))))"

definition review_runbook_simulated ::
    "'x cli_env \<Rightarrow> string \<Rightarrow> runbook_proposal \<Rightarrow> (string \<times> diagnostic_observation) list \<Rightarrow> ('x learning, unit) action" where
  "review_runbook_simulated env decision proposal obs =
     (let k = runbook_kind (ce_sha env) (ce_repr env) in
      bindS (drawN (ce_now env)) (\<lambda>created.
      bindS (drawN (ce_uuid env)) (\<lambda>i.
      bindS (runbooksN (submit k i proposal (isoformat created))) (\<lambda>submitted.
      bindS (printN (Runbook_candidate submitted)) (\<lambda>_.
      bindS (if revises decision then revise_simulated env submitted else returnS submitted) (\<lambda>c.
      bindS (readS (\<lambda>_. review_decision ''RunbookReviewDecision'' (if revises decision then ''approve'' else decision))) (\<lambda>dec.
      bindS (drawN (ce_now env)) (\<lambda>now.
      bindS (runbooksN (review k (cd_id c) dec SIMULATED_REVIEWER (evaluate_runbook RUNBOOK_PROMOTION_CASES)
               (Some review_note) (isoformat now))) (\<lambda>reviewed.
      bindS (case reviewed of
               Reviewed _ \<Rightarrow> returnS None
             | Promoted _ \<Rightarrow>
                 bindS (readS (\<lambda>w. find_runbooks (ce_sha env) (ce_repr env) (observed_signals obs) (observed_categories obs)
                          (ln_runbooks w)))
                   (\<lambda>rows. returnS (Some (retrieved rb_title rows)))) (\<lambda>later.
      printN (Runbook_reviewed reviewed later)))))))))))"

definition runbook_learning_demo :: "'x cli_env \<Rightarrow> string \<Rightarrow> ('x learning, unit) action" where
  "runbook_learning_demo env decision =
     bindS (terminalN (environT (from_env (ce_dotenv env)))) (\<lambda>st.
     bindS (drawN (ce_now env)) (\<lambda>now.
     let thread = ''runbook-learning-'' @ compact_stamp now in
     bindS (readS (\<lambda>w. live_investigation_model st (tm_environ (ln_terminal w)))) (\<lambda>_.
     bindS (readS (\<lambda>_. fst (with_trace (research_runbook worker_memory_pressure_lab (ce_runbook_agent env st thread) thread) ())))
       (\<lambda>(proposal, tr).
     review_runbook_simulated env decision proposal (observations_for thread tr)))))"

section \<open>Learning a capability\<close>

definition revise_capability_simulated ::
    "'x cli_env \<Rightarrow> (capability_proposal, capability_evaluation) candidate_row
       \<Rightarrow> ('x learning, (capability_proposal, capability_evaluation) candidate_row) action"
where
  "revise_capability_simulated env c =
     bindS (readS (\<lambda>_. revised_capability (cd_proposal c))) (\<lambda>revised.
     bindS (drawN (ce_now env)) (\<lambda>now.
     bindS (drawN (ce_uuid env)) (\<lambda>fresh.
     bindS (registryN (revise (capability_kind (ce_sha env) (ce_repr env)) fresh (cd_id c) revised SIMULATED_REVIEWER
              (Some ''Removed generic health and normal-state observations from the reusable capability prerequisites.'')
              (isoformat now))) (\<lambda>c'.
     bindS (printN (Capability_revised c')) (\<lambda>_. returnS c')))))"

text \<open>Submission and review, up to the promoted version if there is one.\<close>

definition review_capability_simulated ::
    "'x cli_env \<Rightarrow> string \<Rightarrow> capability_proposal \<Rightarrow> (string \<times> diagnostic_observation) list
       \<Rightarrow> ('x learning, capability_row option) action"
where
  "review_capability_simulated env decision proposal obs =
     (let k = capability_kind (ce_sha env) (ce_repr env) in
      bindS (drawN (ce_now env)) (\<lambda>created.
      bindS (drawN (ce_uuid env)) (\<lambda>i.
      bindS (registryN (submit k i proposal (isoformat created))) (\<lambda>submitted.
      bindS (printN (Capability_candidate submitted)) (\<lambda>_.
      bindS (if revises decision then revise_capability_simulated env submitted else returnS submitted) (\<lambda>c.
      bindS (readS (\<lambda>_. review_decision ''CapabilityReviewDecision'' (if revises decision then ''approve'' else decision))) (\<lambda>dec.
      bindS (drawN (ce_now env)) (\<lambda>now.
      bindS (registryN (review_capability (ce_sha env) (ce_repr env) (cd_id c) dec SIMULATED_REVIEWER
               (evaluate_capability CAPABILITY_PROMOTION_CASES) (Some review_note) (isoformat now))) (\<lambda>reviewed.
      case reviewed of
        Reviewed _ \<Rightarrow> bindS (printN (Capability_reviewed reviewed None)) (\<lambda>_. returnS None)
      | Promoted r \<Rightarrow>
          bindS (readS (\<lambda>w. find_approved (ce_sha env) (ce_repr env) (observed_signals obs) (observed_categories obs)
                   (cs_registry (ln_capabilities w)))) (\<lambda>rows.
          bindS (printN (Capability_reviewed reviewed (Some (retrieved cl_title rows)))) (\<lambda>_.
          returnS (Some r))))))))))))"

text \<open>
  The researcher has the diagnostic tools of the worker and may search and open the approved runbooks; its proposal is
  recovered as in \<open>research_capability_with_recovery\<close>.
\<close>

definition research_with_runbooks ::
    "(string \<Rightarrow> string) \<Rightarrow> (rat \<Rightarrow> string) \<Rightarrow> runbooks \<Rightarrow> capability_proposal agent \<Rightarrow> string
       \<Rightarrow> (worker_lab knowing, capability_proposal \<times> bool) action"
where
  "research_with_runbooks sha fr g ag thread =
     bindS (run_agent (knowing_tool (runbook_source sha fr g) worker_target thread) ag) (\<lambda>response.
     readS (\<lambda>((tr, lab), kn). Inr (recover_research response (observations_for thread tr))))"

section \<open>Activating it\<close>

type_synonym 'x bench = "worker_lab \<times> 'x learning"

definition labB :: "(worker_lab, 'a) action \<Rightarrow> ('x bench, 'a) action" where
  "labB m = (\<lambda>(lab, w). case m lab of (r, lab') \<Rightarrow> (r, (lab', w)))"

definition learningB :: "('x learning \<Rightarrow> 'a \<times> 'x learning) \<Rightarrow> 'x bench \<Rightarrow> 'a \<times> 'x bench" where
  "learningB g = (\<lambda>(lab, w). case g w of (r, w') \<Rightarrow> (r, (lab, w')))"

definition bench_console :: "'x cli_env \<Rightarrow> 'x bench console" where
  "bench_console env = \<lparr>cn_print = (\<lambda>p. learningB (printN p)), cn_input = learningB (terminalN (restT (ce_input env)))\<rparr>"

definition capability_binding_of :: "capability_row \<Rightarrow> capability_binding" where
  "capability_binding_of r = \<lparr>cb_capability_id = pr_id r, cb_version = int (pr_version r), cb_content_digest = pr_digest r\<rparr>"

definition safe_target :: "capability_row \<Rightarrow> worker_lab \<Rightarrow> option_binding" where
  "safe_target r lab =
     \<lparr>ob_parameters = Some [(''target_concurrency'', JInt (wl_safe lab))], ob_target_id = Some (wl_lab_id lab),
      ob_capability = Some (capability_binding_of r)\<rparr>"

definition activation_service ::
    "'x cli_env \<Rightarrow> settings \<Rightarrow> capability_row \<Rightarrow> investigation_result \<Rightarrow> telemetry_evidence \<Rightarrow> 'x bench service_env" where
  "activation_service env st r diagnosis evidence =
     \<lparr>se_now = learningB (terminalN (restT (ce_now env))), se_uuid = learningB (terminalN (restT (ce_uuid env))),
      se_collect = fixed_collect evidence, se_analyze = investigation_analyze diagnosis,
      se_execute = (\<lambda>opt (lab, w). case concurrency_execute (ce_sha env) (ce_repr env) (cs_registry (ln_capabilities w)) opt lab of
        (res, lab') \<Rightarrow> (res, (lab', w))),
      se_binding = Some (\<lambda>_ _ _ (lab, w). (Inr (Some (safe_target r lab)), (lab, w))),
      se_ttl = nat (cf_proposal_ttl_seconds st), se_execution_enabled = True, se_sha = ce_sha env, se_repr = ce_repr env,
      se_time_json = ce_time_json env\<rparr>"

definition ACTIVATION_ACTOR :: string where "ACTIVATION_ACTOR = ''capability-learning-demo''"

definition activation_diagnosis :: "(string \<times> diagnostic_observation) list \<Rightarrow> investigation_result" where
  "activation_diagnosis obs =
     \<lparr>ir_scenario = WORKER_CONCURRENCY, ir_severity = ''high'', ir_confidence = to_double (97 / 100),
      ir_evidence_refs = sort (map fst obs), ir_action_id = ''reduce_worker_concurrency'',
      ir_explanation = ''Worker memory pressure correlated with elevated concurrency; one bounded concurrency reduction is proposed.''\<rparr>"

definition new_activation ::
    "datetime \<Rightarrow> datetime \<Rightarrow> string \<Rightarrow> string \<Rightarrow> capability_row \<Rightarrow> string \<Rightarrow> bool \<Rightarrow> bool \<Rightarrow> exn + activation" where
  "new_activation named occurred run_id proposal_id r target healthy rolled_back =
     (let a = \<lparr>ac_id = ''act-'' @ compact_stamp named, ac_run_id = run_id, ac_proposal_id = proposal_id,
                ac_capability_id = pr_id r, ac_version = pr_version r, ac_target_id = target,
                ac_outcome = (if healthy then ''succeeded'' else ''failed''), ac_verification = healthy,
                ac_rollback_applied = rolled_back, ac_occurred_at = isoformat occurred, ac_actor = ACTIVATION_ACTOR\<rparr> in
      if valid_activation a then Inr a else Inl ValidationError)"

text \<open>After the execution: the worker is verified and the activation is recorded in the audit and in the registry.\<close>

definition conclude_activation ::
    "'x cli_env \<Rightarrow> 'x bench service_env \<Rightarrow> capability_row \<Rightarrow> proposal_view \<Rightarrow> run_view \<Rightarrow> (db \<times> 'x bench, unit) action" where
  "conclude_activation env service r p completed =
     bindS (worldS (labB worker_check_health)) (\<lambda>verification.
     bindS (readS (\<lambda>_. reports_healthy verification)) (\<lambda>healthy.
     bindS (record_recovery_verification service (rv_id completed) (pv_id p) healthy ACTIVATION_ACTOR) (\<lambda>_.
     bindS (readS (\<lambda>(d, lab, w). Inr (lab, \<not> healthy \<and> wl_current lab = 12))) (\<lambda>(lab, rolled_back).
     bindS (record_capability_activation service (rv_id completed) (pv_id p) (pr_id r) (int (pr_version r))
              (if healthy then ''succeeded'' else ''rollback_applied'') rolled_back ACTIVATION_ACTOR) (\<lambda>_.
     bindS (nowS service) (\<lambda>named.
     bindS (nowS service) (\<lambda>occurred.
     bindS (readS (\<lambda>_. new_activation named occurred (rv_id completed) (pv_id p) r (wl_lab_id lab) healthy rolled_back)) (\<lambda>a.
     bindS (worldS (learningB (capabilitiesN (record_activation (ce_sha env) (ce_repr env) a)))) (\<lambda>_.
     print_phase (bench_console env) (Activated (rv_state completed) verification (wl_current lab) rolled_back))))))))))"

definition activation_session ::
    "'x cli_env \<Rightarrow> 'x bench service_env \<Rightarrow> site_health_alert \<Rightarrow> capability_row \<Rightarrow> (db \<times> 'x bench, unit) action" where
  "activation_session env service alert r =
     bindS (submit_event service (simulated_event (sa_key alert) (sa_observed_at alert) WORKER_CONCURRENCY
              (Some ''worker concurrency investigation completed'')) INVESTIGATOR) (\<lambda>run.
     bindS (readS (\<lambda>_. run_proposal run)) (\<lambda>p.
     bindS (print_phase (bench_console env) (Activated_proposal (pv_option p))) (\<lambda>_.
     bindS (prompt (bench_console env)) (\<lambda>dec.
     bindS (decide_exactly service dec p ACTIVATION_ACTOR) (\<lambda>_.
     if dec = REJECT then print_phase (bench_console env) Rejected
     else bindS (execute service (pv_id p) ACTIVATION_ACTOR) (conclude_activation env service r p))))))"

definition activate_promoted ::
    "'x cli_env \<Rightarrow> settings \<Rightarrow> (string \<times> diagnostic_observation) list \<Rightarrow> capability_row \<Rightarrow> ('x bench, unit) action" where
  "activate_promoted env st obs r =
     bindS (learningB (drawN (ce_now env))) (\<lambda>observed.
     bindS (readS (\<lambda>_. let alert = \<lparr>sa_key = ''capability-worker-'' @ compact_stamp observed, sa_observed_at = observed\<rparr> in
              if valid_alert alert then Inr alert else Inl ValidationError)) (\<lambda>alert.
     bindS (readS (\<lambda>_. check_investigation (activation_diagnosis obs))) (\<lambda>diagnosis.
     bindS (readS (\<lambda>(lab, w). worker_telemetry_for diagnosis lab)) (\<lambda>evidence.
     in_memory (activation_session env (activation_service env st r diagnosis evidence) alert r)))))"

text \<open>
  The lab is new, with a random identifier. A recovered proposal is announced as one whose unobserved signals were
  stripped: the proposal is never \<open>None\<close> here, so the other announcement is never made.
\<close>

definition capability_learning_demo :: "'x cli_env \<Rightarrow> string \<Rightarrow> bool \<Rightarrow> ('x learning, unit) action" where
  "capability_learning_demo env decision fail_verification =
     bindS (terminalN (environT (from_env (ce_dotenv env)))) (\<lambda>st.
     bindS (drawN (ce_now env)) (\<lambda>now.
     bindS (drawN (ce_uuid env)) (\<lambda>u.
     let thread = ''capability-learning-'' @ compact_stamp now;
         lab = (new_worker_lab (''lab-'' @ take 12 (filter (\<lambda>c. c \<noteq> CHR ''-'') u)))\<lparr>wl_fail_verification := fail_verification\<rparr> in
     bindS (readS (\<lambda>w. live_investigation_model st (tm_environ (ln_terminal w)))) (\<lambda>_.
     bindS (readS (\<lambda>w. case research_with_runbooks (ce_sha env) (ce_repr env) (ln_runbooks w)
                            (ce_capability_agent env st thread) thread (([], lab), empty_knowledge) of
                         (Inl e, _) \<Rightarrow> Inl e
                       | (Inr (proposal, recovered), ((tr, lab'), _)) \<Rightarrow> Inr (proposal, recovered, observations_for thread tr, lab')))
       (\<lambda>(proposal, recovered, obs, lab').
     bindS (if recovered then printN (Contract_violation True) else returnS ()) (\<lambda>_.
     bindS (review_capability_simulated env decision proposal obs) (\<lambda>promoted.
     case promoted of
       None \<Rightarrow> returnS ()
     | Some r \<Rightarrow> (\<lambda>w. case activate_promoted env st obs r (lab', w) of (res, (_, w')) \<Rightarrow> (res, w')))))))))"

end
