(* ===== verification/DemoSafety.thy ===== *)
theory DemoSafety
  imports LearningDemo Tidy
begin

text \<open>
  What the demonstrations may do: nothing is executed unless the operator typed \<open>approve\<close>, and the offline and the
  site demonstrations leave the files of the host as they were.
\<close>

section \<open>Without approval\<close>

lemma executor_irrelevant [simp]:
  "uuidS (service\<lparr>se_execute := f\<rparr>) = uuidS service"
  "start_event (service\<lparr>se_execute := f\<rparr>) event actor = start_event service event actor"
  "submit_event (service\<lparr>se_execute := f\<rparr>) event actor = submit_event service event actor"
  "decide (service\<lparr>se_execute := f\<rparr>) pid request actor = decide service pid request actor"
  "decide_exactly (service\<lparr>se_execute := f\<rparr>) dec p actor = decide_exactly service dec p actor"
  "record_diagnostic_tools (service\<lparr>se_execute := f\<rparr>) run_id tools actor = record_diagnostic_tools service run_id tools actor"
proof -
  show u: "uuidS (service\<lparr>se_execute := f\<rparr>) = uuidS service" by (rule ext) (simp add: uuidS_def)
  have assess: "assess (service\<lparr>se_execute := f\<rparr>) = assess service" by (intro ext) (simp add: assess_def)
  have bind: "resolve_option_binding (service\<lparr>se_execute := f\<rparr>) = resolve_option_binding service"
    by (intro ext) (simp add: resolve_option_binding_def)
  have draft: "draft_proposal (service\<lparr>se_execute := f\<rparr>) = draft_proposal service" by (intro ext) (simp add: draft_proposal_def)
  have fail: "fail_and_raise (service\<lparr>se_execute := f\<rparr>) = fail_and_raise service"
    by (intro ext) (simp add: fail_and_raise_def)
  have propose: "propose (service\<lparr>se_execute := f\<rparr>) = propose service"
    by (intro ext) (simp add: propose_def bind u draft)
  have received: "received_run (service\<lparr>se_execute := f\<rparr>) = received_run service" "received_audit (service\<lparr>se_execute := f\<rparr>) = received_audit service"
    by (intro ext; simp add: received_run_def received_audit_def canonical_event_def)+
  show start: "start_event (service\<lparr>se_execute := f\<rparr>) event actor = start_event service event actor" for event actor
    unfolding start_event_def assess propose fail received u env_execute by (rule refl)
  show "submit_event (service\<lparr>se_execute := f\<rparr>) event actor = submit_event service event actor"
    by (simp add: submit_event_def start)
  have revised: "revised_draft (service\<lparr>se_execute := f\<rparr>) = revised_draft service"
    by (intro ext) (simp add: revised_draft_def bind u draft)
  show decide: "decide (service\<lparr>se_execute := f\<rparr>) pid request actor = decide service pid request actor" for pid request actor
    unfolding decide_def revised env_execute by (rule refl)
  show "decide_exactly (service\<lparr>se_execute := f\<rparr>) dec p actor = decide_exactly service dec p actor"
    by (simp add: decide_exactly_def decide)
  show "record_diagnostic_tools (service\<lparr>se_execute := f\<rparr>) run_id tools actor = record_diagnostic_tools service run_id tools actor"
    unfolding record_diagnostic_tools_def env_execute by (rule refl)
qed

text \<open>An operator who never types \<open>approve\<close>.\<close>

definition never_approves :: "'w console \<Rightarrow> bool" where
  "never_approves cn \<longleftrightarrow> (\<forall>w. case fst (cn_input cn w) of Inl _ \<Rightarrow> True | Inr response \<Rightarrow> lower (strip response) \<noteq> ''approve'')"

lemma bindS_agree: "(\<And>x t. m s = (Inr x, t) \<Longrightarrow> f x t = g x t) \<Longrightarrow> bindS m f s = bindS m g s"
  by (simp add: bindS_def split: prod.split sum.split)

lemma prompt_rejects:
  assumes "never_approves cn" and "prompt cn s = (Inr dec, t)"
  shows "dec = REJECT"
proof -
  obtain response u where r: "worldS (cn_input cn) s = (Inr response, u)" "dec = typed_decision response"
    using assms(2) by (auto simp: prompt_def bindS_Inr_iff)
  obtain d w where "s = (d, w)" by (cases s)
  then have "fst (cn_input cn w) = Inr response" using r(1) by (auto simp: worldS_def split: prod.splits)
  then have "lower (strip response) \<noteq> ''approve''" using assms(1) unfolding never_approves_def by (auto dest!: spec[of _ w])
  then show ?thesis by (simp add: r(2) typed_decision_def)
qed

lemma unapproved_container:
  "never_approves cn \<Longrightarrow> container_session cn (service\<lparr>se_execute := f\<rparr>) s = container_session cn service s"
  unfolding container_session_def executor_irrelevant env_execute
  by (intro bindS_agree) (auto dest: prompt_rejects)

lemma unapproved_site:
  "never_approves cn \<Longrightarrow>
    site_session cn (service\<lparr>se_execute := f\<rparr>) health actor alert diagnosis calls s = site_session cn service health actor alert diagnosis calls s"
  unfolding site_session_def executor_irrelevant env_execute
  by (intro bindS_agree) (auto dest: prompt_rejects)

lemma unapproved_activation:
  "never_approves (bench_console env) \<Longrightarrow>
    activation_session env (service\<lparr>se_execute := f\<rparr>) alert r s = activation_session env service alert r s"
  unfolding activation_session_def executor_irrelevant env_execute
  by (intro bindS_agree) (auto dest: prompt_rejects)

text \<open>C35: The operator decides: if what is typed never reads \<open>approve\<close>, whatever its case and surrounding blanks, then
  in the container, the site and the capability session the executor does not matter at all - with any other executor
  the outcome, the database and the world are the same - so nothing is executed.\<close>

theorem unapproved_executes_nothing:
  assumes "never_approves cn" and "never_approves (bench_console env)"
  shows "container_session cn (service\<lparr>se_execute := f\<rparr>) s = container_session cn service s \<and>
    site_session cn (service\<lparr>se_execute := f\<rparr>) health actor alert diagnosis calls s =
      site_session cn service health actor alert diagnosis calls s \<and>
    activation_session env (bench_service\<lparr>se_execute := g\<rparr>) alert r t = activation_session env bench_service alert r t"
  using assms by (simp add: unapproved_container unapproved_site unapproved_activation)

section \<open>No trace\<close>

definition tends_files :: "path \<Rightarrow> db \<times> 'x process \<Rightarrow> db \<times> 'x process \<Rightarrow> bool" where
  "tends_files base s t \<longleftrightarrow> tends base (pc_files (snd s)) (pc_files (snd t))"

definition tends_process :: "path \<Rightarrow> 'x process \<Rightarrow> 'x process \<Rightarrow> bool" where
  "tends_process base w w' \<longleftrightarrow> tends base (pc_files w) (pc_files w')"

lemma tends_files_preorder:
  "reflp (tends_files base)" "transp (tends_files base)" "reflp (tends_process base)" "transp (tends_process base)"
  using tends_preorder[of base] unfolding tends_files_def tends_process_def reflp_def transp_def by blast+

lemma terminalP_tends:
  "keeps (tends_process base) (terminalP g)"
  "keeps (tends_process base) (\<lambda>w. case terminalP h w of (x, w') \<Rightarrow> (Inr (k x), w'))"
  using reflpD[OF tends_preorder(1)] by (auto simp: keeps_def tends_process_def terminalP_def split: prod.splits)

lemma filesP_tends: "keeps (tends base) m \<Longrightarrow> keeps (tends_process base) (filesP m)"
  unfolding keeps_def tends_process_def filesP_def by (simp split: prod.splits) (metis snd_conv)

lemma worldS_tends: "keeps (tends_process base) m \<Longrightarrow> keeps (tends_files base) (worldS m)"
  by (auto simp: keeps_def tends_files_def tends_process_def worldS_def split: prod.splits) (metis snd_conv)

lemma storeS_tends: "keeps (tends_files base) (storeS oper)"
  using reflpD[OF tends_preorder(1)] by (auto simp: keeps_def tends_files_def storeS_def split: prod.splits)

lemma in_memory_tends: "keeps (tends_files base) m \<Longrightarrow> keeps (tends_process base) (in_memory m)"
  by (auto simp: keeps_def tends_files_def tends_process_def in_memory_def split: prod.splits) (metis snd_conv)

lemma local_service_fields [simp]:
  "se_binding (local_service env sb c a ttl) = None"
  "se_collect (local_service env sb c a ttl) = (\<lambda>e w. (c e, w))" "se_analyze (local_service env sb c a ttl) = (\<lambda>ev note w. (a ev, w))"
  "se_execute (local_service env sb c a ttl) = (\<lambda>opt. filesP (filesystem_execute (ce_host env) sb opt))"
  by (simp_all add: local_service_def)

lemma local_clock:
  "keeps (tends_files base) (nowS (local_service env sb c a ttl))" "keeps (tends_files base) (uuidS (local_service env sb c a ttl))"
  by (auto simp: nowS_def uuidS_def local_service_def intro!: worldS_tends terminalP_tends)

lemma pure_tends: "keeps (tends_process base) (\<lambda>w. (x, w))"
  using reflpD[OF tends_preorder(1)] by (simp add: keeps_def tends_process_def)

interpretation tended: executing_relation "tends_files (sb_root sb)" "local_service env sb c a ttl"
  for sb env c a ttl
  by unfold_locales (simp_all add: tends_files_preorder storeS_tends local_clock resolve_option_binding_def worldS_tends pure_tends
      keeps_pure[OF tends_files_preorder(1)] filesP_tends filesystem_execute_tends)

interpretation tended_decision: deciding_relation "tends_files (sb_root sb)" "local_service env sb c a ttl" pid request
  for sb env c a ttl pid request
  by unfold_locales (rule storeS_tends)

lemma console_tends:
  "keeps (tends_files base) (print_phase (process_console env) p)" "keeps (tends_files base) (prompt (process_console env))"
  unfolding print_phase_def prompt_def process_console_def
  by (auto intro!: worldS_tends terminalP_tends keeps_bind[OF tends_files_preorder(2)] keeps_pure[OF tends_files_preorder(1)])

lemma decide_exactly_tends: "keeps (tends_files (sb_root sb)) (decide_exactly (local_service env sb c a ttl) dec p actor)"
  unfolding decide_exactly_def by (intro tended.moves tended_decision.decide_keeps)

lemma submit_event_tends: "keeps (tends_files (sb_root sb)) (submit_event (local_service env sb c a ttl) event actor)"
  unfolding submit_event_def by (intro tended.moves tended.start_keeps)

lemma demo_session_tends: "keeps (tends_files (sb_root sb)) (demo_session (process_console env) (local_service env sb c a ttl))"
  unfolding demo_session_def
  by (intro tended.moves console_tends submit_event_tends decide_exactly_tends tended.execute_keeps)

lemma site_session_tends:
  "keeps (tends_files (sb_root sb)) (site_session (process_console env) (local_service env sb c a ttl)
     (filesP (site_check_health h sb)) actor alert diagnosis calls)"
proof -
  have health: "keeps (tends_files (sb_root sb)) (worldS (filesP (site_check_health h sb)))"
    unfolding site_check_health_def by (intro worldS_tends filesP_tends keeps_pure[OF tends_preorder(1)])
  show ?thesis
    unfolding site_session_def
    by (auto intro!: tended.moves console_tends submit_event_tends decide_exactly_tends tended.execute_keeps tended.records_keep health)
qed

lemma investigation_tends: "keeps (tends (sb_root sb)) (with_trace (investigate_site (site_target h sb lab) ag alert))"
proof -
  note moves = keeps_pure[OF tends_preorder(1)]
  have "keeps (beside (tends (sb_root sb))) (run_agent (diagnostic_tool (site_target h sb lab) key) ag)" for key
    by (intro keeps_agent beside_preorder tends_preorder keeps_tool)
      (simp_all add: site_target_def site_check_health_def site_inspect_resources_def site_inspect_recent_logs_def
        site_inspect_recent_changes_def moves)
  then have "keeps (beside (tends (sb_root sb))) (investigate_site (site_target h sb lab) ag alert)"
    unfolding investigate_site_def
    by (intro keeps_bind[OF beside_preorder(2)[OF tends_preorder(2)]] keeps_pure[OF beside_preorder(1)[OF tends_preorder(1)]])
  then have "tends (sb_root sb) f (snd (snd (investigate_site (site_target h sb lab) ag alert ([], f))))" for f
    by (auto simp: keeps_def beside_def dest!: spec[of _ "([], f)"])
  then show ?thesis unfolding keeps_def with_trace_def by (auto split: prod.split sum.split) (metis snd_conv)+
qed

lemma demo_body_tends:
  "keeps (tends_process (sb_root sb)) (bindS (filesP (demo_logs h sb))
     (\<lambda>_. in_memory (demo_session (process_console env) (local_service env sb c a ttl))))"
  unfolding demo_logs_def mkdir_new_def
  by (intro keeps_bind[OF tends_files_preorder(4)] filesP_tends in_memory_tends demo_session_tends tends_moves
      mkdir_exist_ok_tends write_tends prefix_prefix)

lemma site_body_tends: "keeps (tends_process (sb_root sb)) (site_demo_body env st causal sb)"
  unfolding site_demo_body_def Let_def
  by (auto intro!: keeps_bind[OF tends_files_preorder(4)] keeps_pure[OF tends_files_preorder(3)] filesP_tends in_memory_tends
      site_session_tends investigation_tends site_lab_tends terminalP_tends(2) split: prod.split)

text \<open>A command over a runtime sandbox of its own, on a host that lets the process have it.\<close>

definition hospitable :: "'x cli_env \<Rightarrow> 'x process \<Rightarrow> bool" where
  "hospitable env w \<longleftrightarrow> files_ok (pc_files w) \<and> no_links (pc_files w) (h_tmp (ce_host env)) \<and>
     (\<forall>name. leaves_alone (ce_host env) (runtime_root (ce_host env) name))"

lemma fresh_sandbox_cases:
  assumes "hospitable env w" and "fresh_sandbox env w = (r, w1)"
  obtains e where "r = Inl e" "pc_files w1 = pc_files w"
  | sb where "r = Inr sb" "map_of (pc_files w) (sb_root sb) = None" "tidy (sb_root sb) (pc_files w1)"
      "same_outside (sb_root sb) (pc_files w) (pc_files w1)" "leaves_alone (ce_host env) (sb_root sb)"
proof -
  obtain name token w0 where t: "terminalP (restT (ce_temporary env)) w = ((name, token), w0)" "pc_files w0 = pc_files w"
    by (cases "restT (ce_temporary env) (pc_terminal w)") (auto simp: terminalP_def)
  then have r: "(r, w1) = filesP (create_runtime (ce_host env) name token) w0"
    using assms(2) by (simp add: fresh_sandbox_def bindS_def)
  from assms(1) have ok: "files_ok (pc_files w)" "no_links (pc_files w) (h_tmp (ce_host env))"
    "leaves_alone (ce_host env) (runtime_root (ce_host env) name)" by (auto simp: hospitable_def)
  show thesis
    using create_runtime_outcome[OF ok, of token] r t(2) ok(3) that by (auto simp: filesP_def)
qed

lemma sandboxed:
  assumes "hospitable env w" and "\<And>sb. keeps (tends_process (sb_root sb)) (body sb)"
  shows "map_of (pc_files (snd (bindS (fresh_sandbox env) (\<lambda>sb. closing_sandbox env sb (body sb)) w))) = map_of (pc_files w)"
proof -
  obtain r w1 where f: "fresh_sandbox env w = (r, w1)" by (cases "fresh_sandbox env w")
  show ?thesis
    using assms(1) f
  proof (cases rule: fresh_sandbox_cases)
    case (1 e)
    then show ?thesis using f by (simp add: bindS_def)
  next
    case (2 sb)
    obtain q w2 where b: "body sb w1 = (q, w2)" by (cases "body sb w1")
    then have "tends (sb_root sb) (pc_files w1) (pc_files w2)" using assms(2)[of sb] unfolding keeps_def tends_process_def by (metis snd_conv)
    then have so: "same_outside (sb_root sb) (pc_files w) (pc_files w2)"
      using 2(3,4) transpD[OF same_outside_trans] by (auto simp: tends_def)
    have ok: "files_ok (pc_files w)" "sb_root sb \<noteq> []" "\<And>p. prefix (sb_root sb) p \<Longrightarrow> \<not> h_refuses (ce_host env) p"
      using assms(1) 2(3,5) by (auto simp: hospitable_def tidy_def leaves_alone_def)
    have "map_of (snd (remove_tree (ce_host env) (sb_root sb) (pc_files w2))) = map_of (pc_files w)"
      by (rule removed_restores[OF ok(1) 2(2) ok(2) so ok(3)])
    moreover have "pc_files (snd (closing_sandbox env sb (body sb) w1)) = snd (remove_tree (ce_host env) (sb_root sb) (pc_files w2))"
      by (simp add: closing_sandbox_def finallyS_def b filesP_def split: prod.split sum.split)
    ultimately show ?thesis using f 2(1) by (simp add: bindS_def)
  qed
qed

text \<open>C36: The demonstrations clean up: on a host that leaves the process its temporary directories, the offline and the
  site demonstrations end with the files of the host as they were, whatever the agent did, whatever was approved and
  executed, and whichever step raised - if, for the site, the telemetry exporter of the settings can be built.\<close>

theorem demos_leave_no_trace:
  assumes "hospitable env w"
  shows "map_of (pc_files (snd (demo env w))) = map_of (pc_files w) \<and>
    ((\<forall>st. fst (environP (from_env (ce_dotenv env)) w) = Inr st \<longrightarrow> is_ok (build_observability st)) \<longrightarrow>
      map_of (pc_files (snd (site_investigation_demo env causal w))) = map_of (pc_files w))"
proof (intro conjI impI)
  show "map_of (pc_files (snd (demo env w))) = map_of (pc_files w)"
    unfolding demo_def by (rule sandboxed[OF assms demo_body_tends])
  assume built: "\<forall>st. fst (environP (from_env (ce_dotenv env)) w) = Inr st \<longrightarrow> is_ok (build_observability st)"
  obtain r w1 where e: "environP (from_env (ce_dotenv env)) w = (r, w1)" by (cases "environP (from_env (ce_dotenv env)) w")
  then have same: "pc_files w1 = pc_files w" by (auto simp: environP_def terminalP_def split: prod.splits)
  show "map_of (pc_files (snd (site_investigation_demo env causal w))) = map_of (pc_files w)"
  proof (cases r)
    case (Inr st)
    then obtain obs where o: "build_observability st = Inr obs" using built e by (auto simp: is_ok_iff)
    have "hospitable env w1" using assms same by (simp add: hospitable_def)
    from sandboxed[OF this, of "site_demo_body env st causal", OF site_body_tends] have
      "map_of (pc_files (snd (bindS (fresh_sandbox env) (\<lambda>sb. closing_sandbox env sb (site_demo_body env st causal sb)) w1))) = map_of (pc_files w)"
      using same by simp
    moreover have "(\<lambda>sb. bindS (readS (\<lambda>_. build_observability st)) (\<lambda>_. closing_sandbox env sb (site_demo_body env st causal sb))) =
        (\<lambda>sb. closing_sandbox env sb (site_demo_body env st causal sb))" by (intro ext) (simp add: bindS_def o)
    ultimately show ?thesis by (simp add: site_investigation_demo_def bindS_def[of "environP _"] e Inr)
  qed (use e same in \<open>simp add: site_investigation_demo_def bindS_def\<close>)
qed

section \<open>Learning goes through the registry\<close>

abbreviation runbook_history :: "'x cli_env \<Rightarrow> runbooks \<Rightarrow> runbooks \<Rightarrow> bool" where
  "runbook_history env \<equiv> registry_history (runbook_kind (ce_sha env) (ce_repr env)) (evaluate_runbook RUNBOOK_PROMOTION_CASES)"

abbreviation capability_history :: "'x cli_env \<Rightarrow> capabilities \<Rightarrow> capabilities \<Rightarrow> bool" where
  "capability_history env \<equiv>
     registry_history (capability_kind (ce_sha env) (ce_repr env)) (evaluate_capability CAPABILITY_PROMOTION_CASES)"

definition governed :: "'x cli_env \<Rightarrow> 'x learning \<Rightarrow> 'x learning \<Rightarrow> bool" where
  "governed env w w' \<longleftrightarrow>
     runbook_history env (ln_runbooks w) (ln_runbooks w') \<and>
     capability_history env (cs_registry (ln_capabilities w)) (cs_registry (ln_capabilities w')) \<and>
     prefix (cs_activations (ln_capabilities w)) (cs_activations (ln_capabilities w'))"

text \<open>Nothing is promoted and nothing is recorded as activated.\<close>

definition unlearned :: "'x learning \<Rightarrow> 'x learning \<Rightarrow> bool" where
  "unlearned w w' \<longleftrightarrow> promoted (ln_runbooks w') = promoted (ln_runbooks w) \<and>
     promoted (cs_registry (ln_capabilities w')) = promoted (cs_registry (ln_capabilities w)) \<and>
     cs_activations (ln_capabilities w') = cs_activations (ln_capabilities w)"

lemma governed_preorder: "reflp (governed env)" "transp (governed env)" "reflp unlearned" "transp unlearned"
  unfolding governed_def unlearned_def registry_history_def reflp_def transp_def
  by (auto intro: rtranclp_trans prefix_order.trans)

lemma terminalN_governed:
  "keeps (governed env) (terminalN g)" "keeps (governed env) (drawN h)" "keeps (governed env) (printN p)"
  "keeps unlearned (terminalN g')" "keeps unlearned (drawN h')" "keeps unlearned (printN p)"
  using reflpD[OF governed_preorder(1)] reflpD[OF governed_preorder(3)]
  by (auto simp: keeps_def governed_def unlearned_def terminalN_def drawN_def printN_def registry_history_def split: prod.splits)

lemma runbooksN_governed:
  assumes "\<And>g. runbook_history env g (snd (m g))"
  shows "keeps (governed env) (runbooksN m)"
  using assms by (auto simp: keeps_def governed_def runbooksN_def registry_history_def split: prod.splits) (metis snd_conv)

lemma registryN_governed:
  assumes "\<And>g. capability_history env g (snd (m g))"
  shows "keeps (governed env) (registryN m)"
  using assms
  by (auto simp: keeps_def governed_def registryN_def capabilitiesN_def registry_history_def split: prod.splits) (metis snd_conv)

lemma runbook_steps:
  "runbook_history env g (snd (submit (runbook_kind (ce_sha env) (ce_repr env)) i p now g))"
  "runbook_history env g (snd (revise (runbook_kind (ce_sha env) (ce_repr env)) fresh i p actor note now g))"
  "runbook_history env g (snd (review (runbook_kind (ce_sha env) (ce_repr env)) i dec actor
     (evaluate_runbook RUNBOOK_PROMOTION_CASES) note now g))"
  unfolding registry_history_def by (intro r_into_rtranclp registry_step.intros)+

lemma capability_steps:
  "capability_history env g (snd (submit (capability_kind (ce_sha env) (ce_repr env)) i p now g))"
  "capability_history env g (snd (revise (capability_kind (ce_sha env) (ce_repr env)) fresh i p actor note now g))"
  "capability_history env g (snd (review_capability (ce_sha env) (ce_repr env) i dec actor
     (evaluate_capability CAPABILITY_PROMOTION_CASES) note now g))"
  unfolding registry_history_def review_capability_def by (intro r_into_rtranclp registry_step.intros)+

lemmas governed_moves = keeps_pure[OF governed_preorder(1)] keeps_bind[OF governed_preorder(2)] terminalN_governed
  runbooksN_governed[OF runbook_steps(1)] runbooksN_governed[OF runbook_steps(2)] runbooksN_governed[OF runbook_steps(3)]
  registryN_governed[OF capability_steps(1)] registryN_governed[OF capability_steps(2)] registryN_governed[OF capability_steps(3)]

lemma runbook_review_governed: "keeps (governed env) (review_runbook_simulated env decision p obs)"
  unfolding review_runbook_simulated_def revise_simulated_def Let_def
  by (auto intro!: governed_moves split: reviewed.split)

lemma capability_review_governed: "keeps (governed env) (review_capability_simulated env decision p obs)"
  unfolding review_capability_simulated_def revise_capability_simulated_def Let_def
  by (auto intro!: governed_moves split: reviewed.split)

text \<open>The activation, seen from the registries.\<close>

definition governs :: "'x cli_env \<Rightarrow> db \<times> 'x bench \<Rightarrow> db \<times> 'x bench \<Rightarrow> bool" where
  "governs env s t \<longleftrightarrow> governed env (snd (snd s)) (snd (snd t))"

definition governs_bench :: "'x cli_env \<Rightarrow> 'x bench \<Rightarrow> 'x bench \<Rightarrow> bool" where
  "governs_bench env s t \<longleftrightarrow> governed env (snd s) (snd t)"

lemma governs_preorder:
  "reflp (governs env)" "transp (governs env)" "reflp (governs_bench env)" "transp (governs_bench env)"
  using governed_preorder(1,2)[of env] unfolding governs_def governs_bench_def reflp_def transp_def by blast+

lemma learningB_governs: "keeps (governed env) m \<Longrightarrow> keeps (governs_bench env) (learningB m)"
  by (auto simp: keeps_def governs_bench_def learningB_def split: prod.splits) (metis snd_conv)

lemma labB_governs: "keeps (governs_bench env) (labB m)"
  using reflpD[OF governed_preorder(1)] by (auto simp: keeps_def governs_bench_def labB_def split: prod.splits)

lemma worldS_governs: "keeps (governs_bench env) m \<Longrightarrow> keeps (governs env) (worldS m)"
  by (auto simp: keeps_def governs_def governs_bench_def worldS_def split: prod.splits) (metis snd_conv)

lemma storeS_governs: "keeps (governs env) (storeS oper)"
  using reflpD[OF governed_preorder(1)] by (auto simp: keeps_def governs_def storeS_def split: prod.splits)

lemma still_governs: "(\<And>lab w. snd (snd (m (lab, w))) = w) \<Longrightarrow> keeps (governs_bench env) m"
  using reflpD[OF governed_preorder(1)] by (auto simp: keeps_def governs_bench_def)

lemma in_memory_governs: "keeps (governs env) m \<Longrightarrow> keeps (governs_bench env) (in_memory m)"
  by (auto simp: keeps_def governs_def governs_bench_def in_memory_def split: prod.splits) (metis snd_conv)

lemma activation_service_fields [simp]:
  "se_now (activation_service env st r dg ev) = learningB (terminalN (restT (ce_now env)))"
  "se_uuid (activation_service env st r dg ev) = learningB (terminalN (restT (ce_uuid env)))"
  "se_collect (activation_service env st r dg ev) = fixed_collect ev"
  "se_analyze (activation_service env st r dg ev) = investigation_analyze dg"
  "se_binding (activation_service env st r dg ev) = Some (\<lambda>_ _ _ (lab, w). (Inr (Some (safe_target r lab)), (lab, w)))"
  "se_execute (activation_service env st r dg ev) = (\<lambda>opt (lab, w).
     case concurrency_execute (ce_sha env) (ce_repr env) (cs_registry (ln_capabilities w)) opt lab of (res, lab') \<Rightarrow> (res, (lab', w)))"
  by (simp_all add: activation_service_def)

lemma activation_draws: "keeps (governs env) (worldS (\<lambda>w. case learningB (terminalN g) w of (t, w') \<Rightarrow> (Inr t, w')))"
proof (rule worldS_governs)
  show "keeps (governs_bench env) (\<lambda>w. case learningB (terminalN g) w of (t, w') \<Rightarrow> (Inr t, w'))"
    by (auto simp: keeps_def governs_bench_def governed_def registry_history_def learningB_def terminalN_def split: prod.splits)
qed

interpretation activating: executing_relation "governs env" "activation_service env st r dg ev"
  for env :: "'x cli_env" and st r dg ev
proof unfold_locales
  show "keeps (governs env) (nowS (activation_service env st r dg ev))" "keeps (governs env) (uuidS (activation_service env st r dg ev))"
    unfolding nowS_def uuidS_def activation_service_fields by (rule activation_draws)+
qed (auto simp: governs_preorder storeS_governs resolve_option_binding_def fixed_collect_def investigation_analyze_def
    intro!: worldS_governs still_governs split: prod.split)

interpretation activating_decision: deciding_relation "governs env" "activation_service env st r dg ev" pid request
  for env :: "'x cli_env" and st r dg ev pid request
  by unfold_locales (rule storeS_governs)

lemma bench_console_governs:
  "keeps (governs env) (print_phase (bench_console env) p)" "keeps (governs env) (prompt (bench_console env))"
  unfolding print_phase_def prompt_def bench_console_def
  by (auto intro!: worldS_governs learningB_governs terminalN_governed keeps_bind[OF governs_preorder(2)] keeps_pure[OF governs_preorder(1)])

lemma record_activation_governed: "keeps (governed env) (capabilitiesN (record_activation sha fr a))"
  by (auto simp: keeps_def governed_def capabilitiesN_def record_activation_def registry_history_def split: prod.splits sum.splits)

lemma conclude_governs:
  "keeps (governs env) (conclude_activation env (activation_service env st r dg ev) r' p completed)"
  unfolding conclude_activation_def
  by (auto intro!: activating.moves bench_console_governs activating.records_keep worldS_governs labB_governs learningB_governs
      record_activation_governed)

lemma activation_session_governs:
  "keeps (governs env) (activation_session env (activation_service env st r dg ev) alert r')"
proof -
  have "keeps (governs env) (submit_event (activation_service env st r dg ev) event actor)"
    "keeps (governs env) (decide_exactly (activation_service env st r dg ev) dec p actor)" for event dec p actor
    unfolding submit_event_def decide_exactly_def
    by (intro activating.moves activating.start_keeps activating_decision.decide_keeps)+
  then show ?thesis
    unfolding activation_session_def
    by (auto intro!: activating.moves bench_console_governs activating.execute_keeps conclude_governs)
qed

lemma activate_governs: "keeps (governs_bench env) (activate_promoted env st obs r)"
  unfolding activate_promoted_def
  by (intro keeps_bind[OF governs_preorder(4)] keeps_pure[OF governs_preorder(3)] learningB_governs terminalN_governed
      in_memory_governs activation_session_governs)

lemma demos_governed:
  "keeps (governed env) (runbook_learning_demo env decision)" "keeps (governed env) (capability_learning_demo env decision fail_verification)"
proof -
  show "keeps (governed env) (runbook_learning_demo env decision)"
    unfolding runbook_learning_demo_def Let_def
    by (auto intro!: governed_moves runbook_review_governed)
  have activation: "keeps (governed env) (\<lambda>w. case activate_promoted env st obs r (lab, w) of (res, (_, w')) \<Rightarrow> (res, w'))" for st obs r lab
    using activate_governs[of env st obs r]
    by (auto simp: keeps_def governs_bench_def split: prod.split dest!: spec[of _ lab]) (metis snd_conv)
  show "keeps (governed env) (capability_learning_demo env decision fail_verification)"
    unfolding capability_learning_demo_def Let_def
    by (auto intro!: governed_moves capability_review_governed activation split: option.split)
qed

text \<open>A reviewer who rejects.\<close>

lemma insert_candidate_promoted: "insert_candidate c g = Inr g' \<Longrightarrow> promoted g' = promoted g"
  by (auto simp: insert_candidate_def split: if_splits)

lemma submit_promoted: "promoted (snd (submit k i p now g)) = promoted g"
  by (auto simp: submit_def reg_transaction_def bindE_Inr_iff split: sum.splits prod.splits dest: insert_candidate_promoted)

lemma rejected_promoted:
  "promoted (snd (review k i R_REJECT actor evaluate note now g)) = promoted g"
  "fst (review k i R_REJECT actor evaluate note now g) \<noteq> Inr (Promoted r)"
  by (auto simp: review_def reg_transaction_def review_body_def settle_candidate_def bindE_Inr_iff split: sum.splits prod.splits if_splits)

lemma runbooksN_unlearned: "(\<And>g. promoted (snd (m g)) = promoted g) \<Longrightarrow> keeps unlearned (runbooksN m)"
  by (auto simp: keeps_def unlearned_def runbooksN_def split: prod.splits) (metis snd_conv)

lemma registryN_unlearned: "(\<And>g. promoted (snd (m g)) = promoted g) \<Longrightarrow> keeps unlearned (registryN m)"
  by (auto simp: keeps_def unlearned_def registryN_def capabilitiesN_def split: prod.splits) (metis snd_conv)

lemmas unlearned_moves = keeps_pure[OF governed_preorder(3)] keeps_bind[OF governed_preorder(4)] terminalN_governed(4-6)
  runbooksN_unlearned[OF submit_promoted] runbooksN_unlearned[OF rejected_promoted(1)]
  registryN_unlearned[OF submit_promoted] registryN_unlearned[OF rejected_promoted(1)]

lemma reject_simps:
  "revises ''reject'' = False" "review_decision c ''reject'' = Inr R_REJECT" "bindS (readS (\<lambda>_. Inr x)) f = f x"
  by (simp_all add: revises_def review_decision_def bindS_def readS_def fun_eq_iff)

lemma reject_runbook: "keeps unlearned (review_runbook_simulated env ''reject'' p obs)"
  unfolding review_runbook_simulated_def Let_def reject_simps if_False
  by (auto intro!: unlearned_moves split: reviewed.split)

lemma registryN_rejected: "registryN (review k i R_REJECT actor evaluate note now) w \<noteq> (Inr (Promoted r), w')"
proof
  assume "registryN (review k i R_REJECT actor evaluate note now) w = (Inr (Promoted r), w')"
  then have "fst (review k i R_REJECT actor evaluate note now (cs_registry (ln_capabilities w))) = Inr (Promoted r)"
    by (auto simp: registryN_def capabilitiesN_def split: prod.splits)
  then show False by (simp add: rejected_promoted(2))
qed

lemma reject_capability:
  "keeps unlearned (review_capability_simulated env ''reject'' p obs)"
  "review_capability_simulated env ''reject'' p obs w = (Inr x, w') \<Longrightarrow> x = None"
proof -
  show "keeps unlearned (review_capability_simulated env ''reject'' p obs)"
    unfolding review_capability_simulated_def review_capability_def Let_def reject_simps if_False
    by (auto intro!: unlearned_moves split: reviewed.split)
  assume "review_capability_simulated env ''reject'' p obs w = (Inr x, w')"
  then show "x = None"
    unfolding review_capability_simulated_def review_capability_def Let_def reject_simps if_False
    by (auto simp: bindS_Inr_iff returnS_def registryN_rejected split: reviewed.splits) (metis reviewed.exhaust)
qed

lemma demos_unlearned:
  "keeps unlearned (runbook_learning_demo env ''reject'')" "keeps unlearned (capability_learning_demo env ''reject'' fail_verification)"
proof -
  show "keeps unlearned (runbook_learning_demo env ''reject'')"
    unfolding runbook_learning_demo_def Let_def by (auto intro!: unlearned_moves reject_runbook)
  have last: "keeps unlearned (bindS (review_capability_simulated env ''reject'' p obs) (\<lambda>promoted. case promoted of None \<Rightarrow> returnS ()
      | Some r \<Rightarrow> (\<lambda>w. case activate_promoted env st obs r (lab, w) of (res, (_, w')) \<Rightarrow> (res, w'))))" for p obs st lab
    by (rule keeps_result[OF governed_preorder(4) reject_capability(1)]) (auto dest!: reject_capability(2) intro!: unlearned_moves)
  show "keeps unlearned (capability_learning_demo env ''reject'' fail_verification)"
    unfolding capability_learning_demo_def Let_def by (auto intro!: unlearned_moves last)
qed

text \<open>C37: The learning demonstrations learn only through the registry: whatever the agent proposed and whichever step
  raised, both registries moved by submissions, revisions and reviews only, so that everything proved about their
  histories holds for them, recorded activations are only added to, and with a rejecting reviewer nothing is promoted
  and nothing is activated.\<close>

theorem learning_demos_governed:
  assumes "command = runbook_learning_demo env decision \<or> command = capability_learning_demo env decision fail_verification"
    and "command w = (res, w')"
  shows "runbook_history env (ln_runbooks w) (ln_runbooks w') \<and>
    capability_history env (cs_registry (ln_capabilities w)) (cs_registry (ln_capabilities w')) \<and>
    prefix (cs_activations (ln_capabilities w)) (cs_activations (ln_capabilities w')) \<and>
    (decision = ''reject'' \<longrightarrow> promoted (ln_runbooks w') = promoted (ln_runbooks w) \<and>
       promoted (cs_registry (ln_capabilities w')) = promoted (cs_registry (ln_capabilities w)) \<and>
       cs_activations (ln_capabilities w') = cs_activations (ln_capabilities w))"
proof -
  have "governed env w w'" using assms demos_governed[of env decision] unfolding keeps_def by (metis snd_conv)
  moreover have "decision = ''reject'' \<Longrightarrow> unlearned w w'" using assms demos_unlearned[of env] unfolding keeps_def by (metis snd_conv)
  ultimately show ?thesis unfolding governed_def unlearned_def by blast
qed

section \<open>Witnesses\<close>

definition sample_cli :: "nat cli_env" where
  "sample_cli = \<lparr>ce_host = demo_host, ce_now = (\<lambda>n. (sample_time 5 0, n)), ce_uuid = (\<lambda>n. (''u'' @ replicate n CHR ''1'', Suc n)),
     ce_temporary = (\<lambda>n. ((''a'', ''t''), n)), ce_input = (\<lambda>n. (Inr '' Approved '', n)), ce_dotenv = None,
     ce_investigator = (\<lambda>st thread. Answer demo_diagnosis), ce_runbook_agent = (\<lambda>st thread. Agent_raise RuntimeError),
     ce_capability_agent = (\<lambda>st thread. Answer reviewer_corrected_capability_proposal),
     ce_sha = (\<lambda>_. replicate 64 CHR ''x''), ce_repr = fraction_text, ce_time_json = (\<lambda>_. [])\<rparr>"

definition sample_terminal :: "nat terminal" where
  "sample_terminal = \<lparr>tm_environ = [(''QWEN_API_KEY'', ''k'')], tm_output = [], tm_rest = 0\<rparr>"

definition sample_console :: "nat console" where
  "sample_console = \<lparr>cn_print = (\<lambda>p. returnS ()), cn_input = returnS '' Approved ''\<rparr>"

definition sample_learning :: "nat learning" where
  "sample_learning = \<lparr>ln_runbooks = empty_registry, ln_capabilities = \<lparr>cs_registry = empty_registry, cs_activations = []\<rparr>,
     ln_terminal = sample_terminal\<rparr>"

lemma samples_never_approve: "never_approves sample_console" "never_approves (bench_console sample_cli)"
proof -
  have "lower (strip '' Approved '') \<noteq> ''approve''" by code_simp
  then show "never_approves sample_console" "never_approves (bench_console sample_cli)"
    by (auto simp: never_approves_def sample_console_def bench_console_def sample_cli_def learningB_def terminalN_def restT_def split: sum.splits)
qed

theorem unapproved_executes_nothing_witness:
  "container_session sample_console (sample_env\<lparr>se_execute := broken_execute\<rparr>) (empty_db, 0) =
     container_session sample_console sample_env (empty_db, 0) \<and>
   (\<exists>(service :: nat bench service_env) alert r t. activation_session sample_cli (service\<lparr>se_execute := \<lambda>opt. raiseS OSError\<rparr>) alert r t =
     activation_session sample_cli service alert r t)"
  using unapproved_executes_nothing[OF samples_never_approve] by blast

definition sample_process :: "nat process" where
  "sample_process = \<lparr>pc_files = demo_files, pc_terminal = sample_terminal\<rparr>"

lemma sample_hospitable: "hospitable sample_cli sample_process"
  by (auto simp: hospitable_def sample_cli_def sample_process_def demo_files_def files_ok_def no_links_def demo_host_def leaves_alone_def
      runtime_root_def)

theorem demos_leave_no_trace_witness:
  "(\<exists>sb w. fresh_sandbox sample_cli sample_process = (Inr sb, w) \<and> map_of (pc_files w) (sb_root sb) \<noteq> None) \<and>
   map_of (pc_files (snd (demo sample_cli sample_process))) = map_of demo_files"
proof
  obtain r w where f: "fresh_sandbox sample_cli sample_process = (r, w)" by (cases "fresh_sandbox sample_cli sample_process")
  moreover have "is_ok (fst (fresh_sandbox sample_cli sample_process))" by code_simp
  ultimately obtain sb where "r = Inr sb" by (auto simp: is_ok_iff)
  moreover from fresh_sandbox_cases[OF sample_hospitable f] this have "map_of (pc_files w) (sb_root sb) \<noteq> None"
    by (metis Inl_Inr_False Inr_inject option.distinct(1) tidy_def)
  ultimately show "\<exists>sb w. fresh_sandbox sample_cli sample_process = (Inr sb, w) \<and> map_of (pc_files w) (sb_root sb) \<noteq> None"
    using f by blast
  show "map_of (pc_files (snd (demo sample_cli sample_process))) = map_of demo_files"
    using demos_leave_no_trace[OF sample_hospitable] by (simp add: sample_process_def)
qed

theorem learning_demos_governed_witness:
  "\<exists>res w'. capability_learning_demo sample_cli ''reject'' False sample_learning = (res, w') \<and>
     capability_history sample_cli empty_registry (cs_registry (ln_capabilities w')) \<and> promoted (cs_registry (ln_capabilities w')) = []"
proof -
  obtain res w' where run: "capability_learning_demo sample_cli ''reject'' False sample_learning = (res, w')"
    by (cases "capability_learning_demo sample_cli ''reject'' False sample_learning")
  from learning_demos_governed[OF disjI2[OF refl] run] run show ?thesis by (auto simp: sample_learning_def empty_registry_def)
qed

end
