(* ===== verification/Evaluation.thy ===== *)
theory Evaluation
  imports Reflection Application DemoSafety
begin

text \<open>
  The drivers of \<open>runbook_application_eval.py\<close> and \<open>capability_application_eval.py\<close>: a fresh incident is evaluated
  with an empty registry, a version is researched, revised, reviewed and promoted, and the incident is evaluated again
  with it. Both files have the same dataset and summary code, which is written once here over the dataset's name, the
  evaluators and the citation's key. The LangSmith client is a parameter; so are clock, identifiers, environment and
  agents.
\<close>

section \<open>Dataset\<close>

definition RUNBOOK_DATASET :: string where "RUNBOOK_DATASET = ''incident-response-agent-runbook-application-v1''"
definition CAPABILITY_DATASET :: string where "CAPABILITY_DATASET = ''incident-response-agent-capability-application-v1''"

definition RUNBOOK_REFERENCE :: members where
  "RUNBOOK_REFERENCE =
     [(''expected_resource'', JStr (rf_resource RUNBOOK_REFERENCE_OUTPUT)),
      (''expected_trigger'', JStr (rf_trigger RUNBOOK_REFERENCE_OUTPUT)),
      (''required_evidence'', json_strs (rf_required RUNBOOK_REFERENCE_OUTPUT)),
      (''distractor_evidence'', json_strs (rf_distractors RUNBOOK_REFERENCE_OUTPUT)),
      (''required_diagnostics'', json_strs (rf_diagnostics RUNBOOK_REFERENCE_OUTPUT))]"

definition CAPABILITY_REFERENCE :: members where
  "CAPABILITY_REFERENCE = RUNBOOK_REFERENCE @ [(''expected_capability'', JStr expected_capability)]"

definition application_example :: "(string \<Rightarrow> string) \<Rightarrow> string \<Rightarrow> members \<Rightarrow> example" where
  "application_example uuid5 name reference =
     (uuid5 (name @ '':worker-memory-pressure''),
      [(''case_id'', JStr ''worker-memory-pressure''),
       (''alert'', JStr ''An owned disposable worker service has an unfamiliar recurring failure.'')], reference)"

definition check_example :: "string \<Rightarrow> example \<Rightarrow> example list \<Rightarrow> exn + example list" where
  "check_example word expected existing =
     (case expected of (i, inputs, outputs) \<Rightarrow>
        (case map_of (rev existing) i of
           None \<Rightarrow> Inr [expected]
         | Some (inputs', outputs') \<Rightarrow>
             if \<not> same_members inputs' inputs \<or> \<not> same_members outputs' outputs
             then Inl (ValueError (''LangSmith '' @ word @ ''-application dataset does not match the local version''))
             else Inr []))"

definition ensure_dataset :: "('w, 'm) evaluation_client_scheme \<Rightarrow> (string \<Rightarrow> string) \<Rightarrow> string \<Rightarrow> string \<Rightarrow> members \<Rightarrow> ('w, string) action" where
  "ensure_dataset client uuid5 word name reference =
     bindS (cl_has client name) (\<lambda>present.
     bindS (if present then returnS () else cl_create client name) (\<lambda>_.
     bindS (cl_list client name) (\<lambda>existing.
     bindS (readS (\<lambda>_. check_example word (application_example uuid5 name reference) existing)) (\<lambda>missing.
     bindS (if missing = [] then returnS () else cl_create_examples client name missing) (\<lambda>_.
     returnS name)))))"

definition local_application_dataset :: "(string \<Rightarrow> string) \<Rightarrow> string \<Rightarrow> members \<Rightarrow> example list" where
  "local_application_dataset uuid5 name reference =
     [(uuid5 (''local:'' @ name @ '':worker-memory-pressure''), [(''case_id'', JStr ''worker-memory-pressure'')], reference)]"

section \<open>Summary\<close>

record persisted_run =
  ps_start :: "datetime option"
  ps_end :: "datetime option"
  ps_tokens :: "int option"
  ps_trace_id :: string
  ps_cost :: json

record 'w application_client = "'w evaluation_client" +
  cl_read_run :: "string \<Rightarrow> ('w, persisted_run) action"
  cl_llm_runs :: "string \<Rightarrow> ('w, int option list) action"

record usage =
  us_latency_ms :: json
  us_total_tokens :: json
  us_total_cost :: json

definition json_int :: "int option \<Rightarrow> json" where
  "json_int v = (case v of None \<Rightarrow> JNull | Some i \<Rightarrow> JInt i)"

definition trace_usage :: "'w application_client \<Rightarrow> string \<Rightarrow> ('w, usage) action" where
  "trace_usage client run_id =
     bindS (cl_read_run client run_id) (\<lambda>persisted.
     let latency = (case (ps_end persisted, ps_start persisted) of (Some e, Some s) \<Rightarrow> Some (latency_ms e s) | _ \<Rightarrow> None) in
     bindS (case ps_tokens persisted of
              Some n \<Rightarrow> returnS (Some n)
            | None \<Rightarrow>
                bindS (cl_llm_runs client (ps_trace_id persisted)) (\<lambda>runs.
                let totals = List.map_filter id runs in
                returnS (if totals = [] then None else Some (sum_list totals)))) (\<lambda>tokens.
     returnS \<lparr>us_latency_ms = json_int latency, us_total_tokens = json_int tokens, us_total_cost = ps_cost persisted\<rparr>))"

text \<open>The usage of a case; a latency that is not known is the duration the target measured.\<close>

definition case_usage :: "'w application_client \<Rightarrow> bool \<Rightarrow> experiment_row \<Rightarrow> ('w, usage) action" where
  "case_usage client remote row =
     (let duration = or_null ''duration_ms'' (members_or_empty (er_outputs row)) in
      bindS (if remote then trace_usage client (er_run_id row)
             else returnS \<lparr>us_latency_ms = duration, us_total_tokens = er_tokens row, us_total_cost = er_cost row\<rparr>) (\<lambda>u.
      returnS (if us_latency_ms u = JNull then u\<lparr>us_latency_ms := duration\<rparr> else u)))"

text \<open>A score under a key that is no evaluator has no list to be appended to.\<close>

definition checked_scores :: "string list \<Rightarrow> experiment_row \<Rightarrow> exn + (string \<times> json) list" where
  "checked_scores keys row =
     (case find (\<lambda>(k, _). k \<notin> set keys) (row_scores keys row) of
        Some (k, _) \<Rightarrow> Inl (KeyError k) | None \<Rightarrow> Inr (row_scores keys row))"

definition application_case :: "string \<Rightarrow> experiment_row \<Rightarrow> (string \<times> json) list \<Rightarrow> usage \<Rightarrow> json" where
  "application_case citation_key row scores u =
     (let outputs = members_or_empty (er_outputs row) in
      JObj [(''case_id'', or_null ''case_id'' (members_or_empty (er_inputs row))), (''error'', json_str (er_error row)),
        (''diagnosis'', JObj [(''primary_resource'', or_null ''primary_resource'' outputs), (''trigger'', or_null ''trigger'' outputs)]),
        (''evidence_refs'', or_null ''evidence_refs'' outputs), (''tool_calls'', or_null ''tool_calls'' outputs),
        (citation_key, or_null citation_key outputs),
        (''usage'', JObj [(''latency_ms'', us_latency_ms u), (''total_tokens'', us_total_tokens u), (''total_cost'', us_total_cost u)]),
        (''scores'', JObj scores)])"

primrec application_cases ::
    "'w application_client \<Rightarrow> bool \<Rightarrow> string list \<Rightarrow> string \<Rightarrow> experiment_row list
       \<Rightarrow> ('w, ((string \<times> json) list \<times> json) list) action"
where
  "application_cases client remote keys citation_key [] = returnS []"
| "application_cases client remote keys citation_key (row # rows) =
     bindS (readS (\<lambda>_. checked_scores keys row)) (\<lambda>scores.
     bindS (case_usage client remote row) (\<lambda>u.
     bindS (application_cases client remote keys citation_key rows) (\<lambda>rest.
     returnS ((scores, application_case citation_key row scores u) # rest))))"

text \<open>\<open>_experiment_metadata\<close>: a missing name is None, and so is an identifier or address that cannot be read.\<close>

definition unless :: "(exn \<Rightarrow> bool) \<Rightarrow> exn + 'a option \<Rightarrow> exn + 'a option" where
  "unless caught r = (case r of Inl e \<Rightarrow> if caught e then Inr None else Inl e | Inr x \<Rightarrow> Inr x)"

definition is_value_error :: "exn \<Rightarrow> bool" where
  "is_value_error e \<longleftrightarrow> (case e of ValueError _ \<Rightarrow> True | ValidationError \<Rightarrow> True | _ \<Rightarrow> False)"

definition optional_name :: "exn + string \<Rightarrow> exn + string option" where
  "optional_name r = (case r of Inl e \<Rightarrow> Inl e | Inr s \<Rightarrow> Inr (Some s))"

definition experiment_metadata :: "experiment_results \<Rightarrow> exn + (string option \<times> string option \<times> string option)" where
  "experiment_metadata e =
     bindE (unless (\<lambda>x. x = AttributeError) (optional_name (ex_name e))) (\<lambda>name.
     bindE (unless (\<lambda>x. x = AttributeError \<or> is_value_error x) (optional_name (ex_id e))) (\<lambda>i.
     bindE (unless (\<lambda>x. x = AttributeError \<or> is_value_error x) (ex_url e)) (\<lambda>url.
     Inr (name, i, url))))"

record application_summary =
  as_metadata :: "string option \<times> string option \<times> string option"
  as_averages :: "(string \<times> rat) list"
  as_cases :: "json list"

definition application_averages :: "string list \<Rightarrow> (string \<times> json) list list \<Rightarrow> exn + (string \<times> rat) list" where
  "application_averages keys scores =
     (if scores = [] \<and> keys \<noteq> [] then Inl ZeroDivisionError
      else Inr (map (\<lambda>k. (k, to_double (float_sum (map (score_at k) scores) / of_nat (length scores)))) keys))"

definition summarize_application ::
    "'w application_client \<Rightarrow> bool \<Rightarrow> string list \<Rightarrow> string \<Rightarrow> experiment_results \<Rightarrow> ('w, application_summary) action" where
  "summarize_application client remote keys citation_key e =
     bindS (application_cases client remote keys citation_key (ex_rows e)) (\<lambda>cases.
     bindS (readS (\<lambda>_. experiment_metadata e)) (\<lambda>metadata.
     bindS (readS (\<lambda>_. application_averages keys (map fst cases))) (\<lambda>avs.
     returnS \<lparr>as_metadata = metadata, as_averages = avs, as_cases = map snd cases\<rparr>)))"

definition RUNBOOK_EVALUATORS :: "(string \<times> (members \<Rightarrow> rat)) list" where
  "RUNBOOK_EVALUATORS =
     [(''diagnosis_correct'', \<lambda>m. number_of (diagnosis_correct m RUNBOOK_REFERENCE_OUTPUT)),
      (''required_evidence_recall'', \<lambda>m. required_evidence_recall m RUNBOOK_REFERENCE_OUTPUT),
      (''distractor_avoidance'', \<lambda>m. number_of (distractor_avoidance m RUNBOOK_REFERENCE_OUTPUT)),
      (''required_diagnostic_coverage'', \<lambda>m. required_diagnostic_coverage m RUNBOOK_REFERENCE_OUTPUT),
      (''explicit_runbook_citation'', \<lambda>m. number_of (explicit_runbook_citation m))]"

definition CAPABILITY_EVALUATORS :: "(string \<times> (members \<Rightarrow> rat)) list" where
  "CAPABILITY_EVALUATORS =
     [(''diagnosis_correct'', \<lambda>m. number_of (diagnosis_correct m RUNBOOK_REFERENCE_OUTPUT)),
      (''required_evidence_recall'', \<lambda>m. required_evidence_recall m RUNBOOK_REFERENCE_OUTPUT),
      (''distractor_avoidance'', \<lambda>m. number_of (distractor_avoidance m RUNBOOK_REFERENCE_OUTPUT)),
      (''required_diagnostic_coverage'', \<lambda>m. required_diagnostic_coverage m RUNBOOK_REFERENCE_OUTPUT),
      (''capability_correct'', \<lambda>m. number_of (capability_correct m expected_capability)),
      (''explicit_capability_citation'', \<lambda>m. number_of (explicit_capability_citation m))]"

text \<open>The two instances.\<close>

definition ensure_runbook_dataset :: "('w, 'm) evaluation_client_scheme \<Rightarrow> (string \<Rightarrow> string) \<Rightarrow> ('w, string) action" where
  "ensure_runbook_dataset client uuid5 = ensure_dataset client uuid5 ''runbook'' RUNBOOK_DATASET RUNBOOK_REFERENCE"

definition local_runbook_dataset :: "(string \<Rightarrow> string) \<Rightarrow> example list" where
  "local_runbook_dataset uuid5 = local_application_dataset uuid5 RUNBOOK_DATASET RUNBOOK_REFERENCE"

definition summarize_runbooks :: "'w application_client \<Rightarrow> bool \<Rightarrow> experiment_results \<Rightarrow> ('w, application_summary) action" where
  "summarize_runbooks client remote = summarize_application client remote (map fst RUNBOOK_EVALUATORS) ''runbook_citation''"

definition ensure_capability_dataset :: "('w, 'm) evaluation_client_scheme \<Rightarrow> (string \<Rightarrow> string) \<Rightarrow> ('w, string) action" where
  "ensure_capability_dataset client uuid5 = ensure_dataset client uuid5 ''capability'' CAPABILITY_DATASET CAPABILITY_REFERENCE"

definition local_capability_dataset :: "(string \<Rightarrow> string) \<Rightarrow> example list" where
  "local_capability_dataset uuid5 = local_application_dataset uuid5 CAPABILITY_DATASET CAPABILITY_REFERENCE"

definition summarize_capabilities :: "'w application_client \<Rightarrow> bool \<Rightarrow> experiment_results \<Rightarrow> ('w, application_summary) action" where
  "summarize_capabilities client remote = summarize_application client remote (map fst CAPABILITY_EVALUATORS) ''capability_citation''"

section \<open>Targets\<close>

record 'w evaluation_env =
  el_client :: "'w application_client"
  el_uuid5 :: "string \<Rightarrow> string"
  el_uuid :: "'w \<Rightarrow> string \<times> 'w"
  el_now :: "'w \<Rightarrow> datetime \<times> 'w"
  el_elapsed_ms :: "'w \<Rightarrow> int \<times> 'w"
  el_environ :: environment
  el_runbook_agent :: "settings \<Rightarrow> string \<Rightarrow> runbook_proposal agent"
  el_aware_agent :: "settings \<Rightarrow> string \<Rightarrow> aware_diagnosis agent"
  el_capability_agent :: "settings \<Rightarrow> string \<Rightarrow> capability_proposal agent"
  el_capability_aware_agent :: "settings \<Rightarrow> string \<Rightarrow> capability_diagnosis agent"
  el_sha :: "string \<Rightarrow> string"
  el_repr :: "rat \<Rightarrow> string"

definition drawE :: "('w \<Rightarrow> 'a \<times> 'w) \<Rightarrow> ('w, 'a) action" where
  "drawE g w = (case g w of (y, w') \<Rightarrow> (Inr y, w'))"

text \<open>\<open>uuid4().hex\<close>.\<close>

definition uuid_hex :: "'w evaluation_env \<Rightarrow> ('w, string) action" where
  "uuid_hex el = bindS (drawE (el_uuid el)) (\<lambda>u. returnS (filter (\<lambda>c. c \<noteq> CHR ''-'') u))"

text \<open>\<open>max(timeout, 120.0)\<close> returns its first argument unless the second is greater.\<close>

definition longer_timeout :: "pyfloat \<Rightarrow> pyfloat" where
  "longer_timeout t = (case t of Finite x \<Rightarrow> Finite (max x 120) | NegInf \<Rightarrow> Finite 120 | _ \<Rightarrow> t)"

definition evaluation_settings :: "settings \<Rightarrow> settings" where
  "evaluation_settings st =
     st\<lparr>cf_model_timeout_seconds := longer_timeout (cf_model_timeout_seconds st),
        cf_model_max_retries := max (cf_model_max_retries st) 3\<rparr>"

definition evaluation_model :: "'w evaluation_env \<Rightarrow> settings \<Rightarrow> ('w, unit) action" where
  "evaluation_model el st = readS (\<lambda>_. live_investigation_model (evaluation_settings st) (el_environ el))"

text \<open>Every invocation has traces of its own; the duration is added to the answer.\<close>

definition timed :: "'w evaluation_env \<Rightarrow> exn + members \<Rightarrow> ('w, members) action" where
  "timed el answer =
     bindS (readS (\<lambda>_. answer)) (\<lambda>outputs.
     bindS (drawE (el_elapsed_ms el)) (\<lambda>ms. returnS (outputs @ [(''duration_ms'', JInt ms)])))"

definition runbook_target :: "'w evaluation_env \<Rightarrow> settings \<Rightarrow> runbooks \<Rightarrow> bool \<Rightarrow> members \<Rightarrow> ('w, members) action" where
  "runbook_target el st g require_runbook inputs =
     bindS (evaluation_model el st) (\<lambda>_.
     bindS (uuid_hex el) (\<lambda>hex.
     let thread = ''runbook-application-'' @ hex in
     timed el (bindE (fst (investigate_with_runbooks (el_sha el) (el_repr el) g worker_memory_pressure_lab
                (el_aware_agent el (evaluation_settings st) thread) thread require_runbook (([], ()), empty_knowledge)))
       (\<lambda>out. Inr (outcome_members out)))))"

definition lab_name :: "string \<Rightarrow> string" where "lab_name hex = ''lab-'' @ take 12 hex"

definition capability_target :: "'w evaluation_env \<Rightarrow> settings \<Rightarrow> capabilities \<Rightarrow> bool \<Rightarrow> members \<Rightarrow> ('w, members) action" where
  "capability_target el st g require_capability inputs =
     bindS (evaluation_model el st) (\<lambda>_.
     bindS (uuid_hex el) (\<lambda>hex.
     bindS (uuid_hex el) (\<lambda>lab_hex.
     let thread = ''capability-application-'' @ hex in
     timed el (bindE (fst (investigate_with_capabilities (el_sha el) (el_repr el) g worker_target
                (el_capability_aware_agent el (evaluation_settings st) thread) thread require_capability
                (([], new_worker_lab (lab_name lab_hex)), empty_knowledge)))
       (\<lambda>out. Inr (capability_members out))))))"

section \<open>Promotion\<close>

definition registryE :: "('g \<Rightarrow> (exn + 'a) \<times> 'g) \<Rightarrow> ('g \<times> 'w, 'a) action" where
  "registryE m = (\<lambda>(g, w). case m g of (r, g') \<Rightarrow> (r, (g', w)))"

definition worldE :: "('w, 'a) action \<Rightarrow> ('g \<times> 'w, 'a) action" where
  "worldE m = (\<lambda>(g, w). case m w of (r, w') \<Rightarrow> (r, (g, w')))"

text \<open>The proposal is submitted and replaced by the simulated reviewer's revision, then approved; both files do the same.\<close>

definition submit_and_revise ::
    "'w evaluation_env \<Rightarrow> ('p, 'e) registry_kind \<Rightarrow> ('p \<Rightarrow> exn + 'p) \<Rightarrow> string \<Rightarrow> 'p
       \<Rightarrow> (('p, 'e) registry \<times> 'w, ('p, 'e) candidate_row \<times> ('p, 'e) candidate_row) action"
where
  "submit_and_revise el k revised note proposal =
     bindS (worldE (drawE (el_now el))) (\<lambda>created.
     bindS (worldE (drawE (el_uuid el))) (\<lambda>i.
     bindS (registryE (submit k i proposal (isoformat created))) (\<lambda>original.
     bindS (readS (\<lambda>_. revised proposal)) (\<lambda>proposal'.
     bindS (worldE (drawE (el_now el))) (\<lambda>now.
     bindS (worldE (drawE (el_uuid el))) (\<lambda>fresh.
     bindS (registryE (revise k fresh (cd_id original) proposal' SIMULATED_REVIEWER (Some note) (isoformat now))) (\<lambda>revision.
     returnS (original, revision))))))))"

definition promote_revised ::
    "'w evaluation_env \<Rightarrow> ('p, 'e) registry_kind \<Rightarrow> ('p \<Rightarrow> exn + 'p) \<Rightarrow> ('p \<Rightarrow> 'e) \<Rightarrow> string \<Rightarrow> string \<Rightarrow> 'p
       \<Rightarrow> (('p, 'e) registry \<times> 'w, ('p, 'e) candidate_row \<times> ('p, 'e) candidate_row \<times> ('p, 'e) promoted_row) action"
where
  "promote_revised el k revised evaluate note word proposal =
     bindS (submit_and_revise el k revised note proposal) (\<lambda>(original, revision).
     bindS (worldE (drawE (el_now el))) (\<lambda>now.
     bindS (registryE (review k (cd_id revision) R_APPROVE SIMULATED_REVIEWER evaluate
              (Some ''Approve the reviewed revision for hidden evaluation.'') (isoformat now))) (\<lambda>reviewed.
     case reviewed of
       Reviewed _ \<Rightarrow> raiseS (ValueError (''reviewed '' @ word @ '' failed the promotion gate''))
     | Promoted r \<Rightarrow> returnS (original, revision, r))))"

section \<open>The evaluations\<close>

record 'e application_report =
  rp_dataset :: string
  rp_original :: string
  rp_revised :: string
  rp_id :: string
  rp_version :: nat
  rp_violation :: "bool option"
  rp_evaluation :: 'e
  rp_before :: application_summary
  rp_after :: application_summary
  rp_difference :: "(string \<times> rat) list"

definition application_report ::
    "string \<Rightarrow> bool option \<Rightarrow> ('p, 'e) candidate_row \<times> ('p, 'e) candidate_row \<times> ('p, 'e) promoted_row
       \<Rightarrow> application_summary \<Rightarrow> application_summary \<Rightarrow> 'e application_report"
where
  "application_report data violation = (\<lambda>(original, revision, r) earlier later.
     \<lparr>rp_dataset = data, rp_original = cd_id original, rp_revised = cd_id revision, rp_id = pr_id r, rp_version = pr_version r,
      rp_violation = violation, rp_evaluation = pr_evaluation r, rp_before = earlier, rp_after = later,
      rp_difference = averages_difference (as_averages later) (as_averages earlier)\<rparr>)"

definition evaluation_data ::
    "'w evaluation_env \<Rightarrow> bool \<Rightarrow> ('w application_client \<Rightarrow> (string \<Rightarrow> string) \<Rightarrow> ('w, string) action)
       \<Rightarrow> ((string \<Rightarrow> string) \<Rightarrow> example list) \<Rightarrow> ('w, dataset) action" where
  "evaluation_data el upload remote local_examples =
     (if upload then bindS (remote (el_client el) (el_uuid5 el)) (\<lambda>n. returnS (Remote n))
      else returnS (Local (local_examples (el_uuid5 el))))"

definition application_experiment ::
    "'w evaluation_env \<Rightarrow> (experiment_results \<Rightarrow> ('w, application_summary) action) \<Rightarrow> string \<Rightarrow> (members \<Rightarrow> ('w, members) action)
       \<Rightarrow> dataset \<Rightarrow> ('w, application_summary) action"
where
  "application_experiment el summarize name target data = bindS (cl_evaluate (el_client el) name target data 1) summarize"

text \<open>A registry over \<open>:memory:\<close>, with what it holds at the end.\<close>

definition local_registry :: "(('p, 'e) registry \<times> 'w, 'a) action \<Rightarrow> ('w, 'a \<times> ('p, 'e) registry) action" where
  "local_registry m w =
     (case m (empty_registry, w) of (Inl e, (g, w')) \<Rightarrow> (Inl e, w') | (Inr x, (g, w')) \<Rightarrow> (Inr (x, g), w'))"

definition promote_runbook ::
    "'w evaluation_env \<Rightarrow> settings
       \<Rightarrow> (runbooks \<times> 'w, (runbook_proposal, runbook_evaluation) candidate_row \<times> (runbook_proposal, runbook_evaluation) candidate_row \<times>
             (runbook_proposal, runbook_evaluation) promoted_row) action"
where
  "promote_runbook el st =
     bindS (worldE (evaluation_model el st)) (\<lambda>_.
     bindS (worldE (uuid_hex el)) (\<lambda>hex.
     let thread = ''runbook-promotion-'' @ hex in
     bindS (readS (\<lambda>_. fst (research_runbook worker_memory_pressure_lab (el_runbook_agent el (evaluation_settings st) thread) thread ([], ()))))
       (promote_revised el (runbook_kind (el_sha el) (el_repr el)) revised_runbook (evaluate_runbook RUNBOOK_PROMOTION_CASES)
         ''Remove generic symptoms and normal-state context from the reusable applicability contract.'' ''runbook'')))"

definition run_runbook_application_evaluation ::
    "'w evaluation_env \<Rightarrow> settings \<Rightarrow> bool \<Rightarrow> ('w, runbook_evaluation application_report) action" where
  "run_runbook_application_evaluation el st upload =
     bindS (evaluation_data el upload ensure_runbook_dataset local_runbook_dataset) (\<lambda>data.
     bindS (application_experiment el (summarize_runbooks (el_client el) upload) ''runbook-before-learning-v1''
              (runbook_target el st empty_registry False) data) (\<lambda>earlier.
     bindS (local_registry (promote_runbook el st)) (\<lambda>(p, g).
     bindS (application_experiment el (summarize_runbooks (el_client el) upload) ''runbook-after-learning-v1''
              (runbook_target el st g True) data) (\<lambda>later.
     returnS (application_report (if upload then RUNBOOK_DATASET else ''local-iterator'') None p earlier later)))))"

definition promote_capability_version ::
    "'w evaluation_env \<Rightarrow> settings
       \<Rightarrow> (capabilities \<times> 'w, bool \<times> (capability_proposal, capability_evaluation) candidate_row \<times>
             (capability_proposal, capability_evaluation) candidate_row \<times> capability_row) action"
where
  "promote_capability_version el st =
     bindS (worldE (evaluation_model el st)) (\<lambda>_.
     bindS (worldE (uuid_hex el)) (\<lambda>lab_hex.
     bindS (worldE (uuid_hex el)) (\<lambda>hex.
     let thread = ''capability-promotion-'' @ hex in
     bindS (readS (\<lambda>_. fst (research_capability_with_recovery worker_target (el_capability_agent el (evaluation_settings st) thread) thread
              ([], new_worker_lab (lab_name lab_hex))))) (\<lambda>(proposal, recovered).
     bindS (promote_revised el (capability_kind (el_sha el) (el_repr el)) revised_capability (evaluate_capability CAPABILITY_PROMOTION_CASES)
         ''Remove generic symptoms and normal-state context from the reusable capability prerequisites.'' ''capability'' proposal) (\<lambda>p.
     returnS (recovered, p))))))"

definition run_capability_application_evaluation ::
    "'w evaluation_env \<Rightarrow> settings \<Rightarrow> bool \<Rightarrow> ('w, capability_evaluation application_report) action" where
  "run_capability_application_evaluation el st upload =
     bindS (evaluation_data el upload ensure_capability_dataset local_capability_dataset) (\<lambda>data.
     bindS (application_experiment el (summarize_capabilities (el_client el) upload) ''capability-before-learning-v1''
              (capability_target el st empty_registry False) data) (\<lambda>earlier.
     bindS (local_registry (promote_capability_version el st)) (\<lambda>((recovered, p), g).
     bindS (application_experiment el (summarize_capabilities (el_client el) upload) ''capability-after-learning-v1''
              (capability_target el st g True) data) (\<lambda>later.
     returnS (application_report (if upload then CAPABILITY_DATASET else ''local-iterator'') (Some recovered) p earlier later)))))"

section \<open>What the second experiment runs with\<close>

definition onR :: "('g \<Rightarrow> 'g \<Rightarrow> bool) \<Rightarrow> 'g \<times> 'w \<Rightarrow> 'g \<times> 'w \<Rightarrow> bool" where
  "onR R s t = R (fst s) (fst t)"

lemma onR_moves:
  "reflp R \<Longrightarrow> reflp (onR R)" "transp R \<Longrightarrow> transp (onR R)" "reflp R \<Longrightarrow> keeps (onR R) (worldE m)"
  "(\<And>g. R g (snd (oper g))) \<Longrightarrow> keeps (onR R) (registryE oper)"
  unfolding onR_def keeps_def worldE_def registryE_def reflp_def transp_def
  by (blast, blast, simp split: prod.split, simp split: prod.split, metis snd_conv)

lemma registryE_Inr: "registryE m s = (Inr x, s') \<Longrightarrow> m (fst s) = (Inr x, fst s')"
  by (auto simp: registryE_def split: prod.splits)

lemma worldE_fst: "worldE m s = (x, s') \<Longrightarrow> fst s' = fst s"
  by (auto simp: worldE_def split: prod.splits)

lemma revise_promoted: "promoted (snd (revise k fresh i p actor note now g)) = promoted g"
  by (auto simp: revise_def reg_transaction_def revise_body_def settle_candidate_def bindE_Inr_iff split: sum.splits prod.splits if_splits
      dest: insert_candidate_promoted)

lemma review_promoted:
  assumes "review k i dec actor evaluate note now g = (Inr (Promoted r), g')"
  shows "promoted g' = promoted g @ [r]" "pr_version r = next_version (pr_id r) g"
  using assms
  by (auto simp: review_def reg_transaction_def review_body_def settle_candidate_def insert_promoted_def Let_def bindE_Inr_iff
      split: sum.splits if_splits)

lemma submit_and_revise_keeps:
  assumes "reflp R" and "transp R" and "\<And>i p now g. R g (snd (submit k i p now g))"
    and "\<And>fresh i p actor note now g. R g (snd (revise k fresh i p actor note now g))"
  shows "keeps (onR R) (submit_and_revise el k revised note p)"
  unfolding submit_and_revise_def
  by (intro keeps_bind[OF onR_moves(2)[OF assms(2)]] keeps_pure[OF onR_moves(1)[OF assms(1)]] onR_moves(3,4) assms)

lemma promote_revised_outcome:
  assumes "promote_revised el k revised evaluate note word p s = (Inr (original, revision, r), s')" and "promoted (fst s) = []"
  shows "registry_history k evaluate (fst s) (fst s')" "promoted (fst s') = [r]" "pr_version r = 1"
proof -
  obtain x t y t' z t'' where d: "submit_and_revise el k revised note p s = (Inr x, t)"
    and w: "worldE (drawE (el_now el)) t = (Inr y, t')"
    and z: "registryE (review k (cd_id (snd x)) R_APPROVE SIMULATED_REVIEWER evaluate
        (Some ''Approve the reviewed revision for hidden evaluation.'') (isoformat y)) t' = (Inr z, t'')"
    and f: "(case z of Reviewed _ \<Rightarrow> raiseS (ValueError (''reviewed '' @ word @ '' failed the promotion gate''))
        | Promoted q \<Rightarrow> returnS (fst x, snd x, q)) t'' = (Inr (original, revision, r), s')"
    using assms(1) unfolding promote_revised_def bindS_Inr_iff case_prod_unfold by blast
  from f have p: "z = Promoted r" "s' = t''" by (auto simp: returnS_def raiseS_def split: reviewed.splits)
  note a = registryE_Inr[OF z, unfolded p] and t = worldE_fst[OF w]
  have "keeps (onR (registry_history k evaluate)) (submit_and_revise el k revised note p)"
    "keeps (onR (\<lambda>g g'. promoted g' = promoted g)) (submit_and_revise el k revised note p)"
    by (rule submit_and_revise_keeps; auto simp: registry_history_def reflp_def transp_def submit_promoted revise_promoted
        intro: registry_step.intros)+
  with d have h: "registry_history k evaluate (fst s) (fst t)" and e: "promoted (fst t) = []"
    using assms(2) unfolding keeps_def onR_def by (metis snd_conv)+
  have "registry_step k evaluate (fst t) (fst s')" using registry_step.reviewed a t unfolding p by (metis snd_conv)
  then show "registry_history k evaluate (fst s) (fst s')" using h by (simp add: registry_history_def)
  show "promoted (fst s') = [r]" "pr_version r = 1" using review_promoted[OF a] e t unfolding p by (simp_all add: next_version_def)
qed

text \<open>Whatever a target answers, it cites this.\<close>

definition cites_only :: "string \<Rightarrow> string \<Rightarrow> citation \<Rightarrow> (members \<Rightarrow> ('w, members) action) \<Rightarrow> bool" where
  "cites_only key id_key c target \<longleftrightarrow>
     (\<forall>inputs w m w'. target inputs w = (Inr m, w') \<longrightarrow> json_get key m = Some (citation_json id_key c))"

lemma fresh_thread: "traced P thread []" "opened_for thread empty_knowledge = []"
  by (simp_all add: traced_def observations_for_def trace_run_of_def opened_for_def entries_def empty_knowledge_def)

lemma any_answers: "answers (\<lambda>_. True) target"
  by (simp add: answers_def)

lemma fst_Inr: "fst x = Inr out \<Longrightarrow> \<exists>tr w kn. x = (Inr out, ((tr, w), kn))"
  by (cases x) auto

lemma timed_Inr:
  assumes "timed el answer w = (Inr m, w')"
  obtains outputs ms where "answer = Inr outputs" "m = outputs @ [(''duration_ms'', JInt ms)]"
  using assms by (auto simp: timed_def bindS_Inr_iff readS_def returnS_def)

lemma cited_key:
  "json_get ''runbook_citation'' (outcome_members out @ rest) =
     Some (case ao_citation out of None \<Rightarrow> JNull | Some c \<Rightarrow> citation_json ''runbook_id'' c)"
  "json_get ''capability_citation'' (capability_members out' @ rest) =
     Some (case co_citation out' of None \<Rightarrow> JNull | Some c \<Rightarrow> citation_json ''capability_id'' c)"
  by (simp_all add: json_get_def outcome_members_def capability_members_def)

lemma runbook_target_cites:
  assumes "registry_history (runbook_kind (el_sha el) (el_repr el)) (evaluate_runbook RUNBOOK_PROMOTION_CASES) empty_registry g"
    and "promoted g = [r]"
  shows "cites_only ''runbook_citation'' ''runbook_id'' (citation_of r) (runbook_target el st g True)"
  unfolding cites_only_def
proof (intro allI impI)
  fix inputs w m w'
  assume "runbook_target el st g True inputs w = (Inr m, w')"
  then obtain ag thread v v' where "timed el (bindE (fst (investigate_with_runbooks (el_sha el) (el_repr el) g worker_memory_pressure_lab
      ag thread True (([], ()), empty_knowledge))) (\<lambda>out. Inr (outcome_members out))) v = (Inr m, v')"
    unfolding runbook_target_def bindS_Inr_iff Let_def by blast
  then obtain out ms where o: "fst (investigate_with_runbooks (el_sha el) (el_repr el) g worker_memory_pressure_lab
      ag thread True (([], ()), empty_knowledge)) = Inr out" "m = outcome_members out @ [(''duration_ms'', JInt ms)]"
    by (auto simp: bindE_Inr_iff elim!: timed_Inr)
  from fst_Inr[OF o(1)] obtain tr u kn where "investigate_with_runbooks (el_sha el) (el_repr el) g worker_memory_pressure_lab
      ag thread True (([], ()), empty_knowledge) = (Inr out, ((tr, u), kn))" by blast
  from learned_diagnosis_grounded[OF this assms(1) any_answers fresh_thread] assms(2)
  have "ao_citation out = Some (citation_of r)" by (auto split: option.splits)
  then show "json_get ''runbook_citation'' m = Some (citation_json ''runbook_id'' (citation_of r))" by (simp add: o(2) cited_key)
qed

lemma capability_target_cites:
  assumes "registry_history (capability_kind (el_sha el) (el_repr el)) (evaluate_capability CAPABILITY_PROMOTION_CASES) empty_registry g"
    and "promoted g = [r]"
  shows "cites_only ''capability_citation'' ''capability_id'' (citation_of r) (capability_target el st g True)"
  unfolding cites_only_def
proof (intro allI impI)
  fix inputs w m w'
  assume "capability_target el st g True inputs w = (Inr m, w')"
  then obtain ag thread lab v v' where "timed el (bindE (fst (investigate_with_capabilities (el_sha el) (el_repr el) g worker_target
      ag thread True (([], lab), empty_knowledge))) (\<lambda>out. Inr (capability_members out))) v = (Inr m, v')"
    unfolding capability_target_def bindS_Inr_iff Let_def by blast
  then obtain out ms where o: "fst (investigate_with_capabilities (el_sha el) (el_repr el) g worker_target
      ag thread True (([], lab), empty_knowledge)) = Inr out" "m = capability_members out @ [(''duration_ms'', JInt ms)]"
    by (auto simp: bindE_Inr_iff elim!: timed_Inr)
  from fst_Inr[OF o(1)] obtain tr lab' kn where "investigate_with_capabilities (el_sha el) (el_repr el) g worker_target
      ag thread True (([], lab), empty_knowledge) = (Inr out, ((tr, lab'), kn))" by blast
  from learned_capability_grounded[OF this assms(1) any_answers fresh_thread] assms(2)
  have "co_citation out = Some (citation_of r)" by (auto split: option.splits)
  then show "json_get ''capability_citation'' m = Some (citation_json ''capability_id'' (citation_of r))" by (simp add: o(2) cited_key)
qed

definition ran_with :: "'w evaluation_env \<Rightarrow> string \<Rightarrow> (members \<Rightarrow> ('w, members) action) \<Rightarrow> bool" where
  "ran_with el name target \<longleftrightarrow> (\<exists>data w e w'. cl_evaluate (el_client el) name target data 1 w = (Inr e, w'))"

lemma experiment_ran: "application_experiment el summarize name target data w = (Inr x, w') \<Longrightarrow> ran_with el name target"
  by (auto simp: application_experiment_def bindS_Inr_iff ran_with_def)

lemma report_fields [simp]:
  "rp_id (application_report data violation (original, revision, r) earlier later) = pr_id r"
  "rp_version (application_report data violation (original, revision, r) earlier later) = pr_version r"
  by (simp_all add: application_report_def)

lemma local_registry_Inr: "local_registry m w = (Inr (x, g), w') \<longleftrightarrow> m (empty_registry, w) = (Inr x, (g, w'))"
  by (auto simp: local_registry_def split: prod.splits sum.splits)

lemma runbook_evaluation_outcome:
  assumes "run_runbook_application_evaluation el st upload w = (Inr report, w')"
  shows "\<exists>g r. registry_history (runbook_kind (el_sha el) (el_repr el)) (evaluate_runbook RUNBOOK_PROMOTION_CASES) empty_registry g \<and>
    promoted g = [r] \<and> rp_id report = pr_id r \<and> rp_version report = 1 \<and>
    ran_with el ''runbook-after-learning-v1'' (runbook_target el st g True)"
proof -
  obtain data v p g v' later v'' where p: "promote_runbook el st (empty_registry, v) = (Inr p, (g, v'))"
    and e: "application_experiment el (summarize_runbooks (el_client el) upload) ''runbook-after-learning-v1''
      (runbook_target el st g True) data v' = (Inr later, v'')"
    and r: "rp_id report = pr_id (snd (snd p))" "rp_version report = pr_version (snd (snd p))"
    using assms unfolding run_runbook_application_evaluation_def
    by (fastforce simp: bindS_Inr_iff returnS_def local_registry_Inr)
  obtain original revision q where q: "p = (original, revision, q)" by (cases p)
  obtain proposal s where s: "fst s = empty_registry" and "promote_revised el (runbook_kind (el_sha el) (el_repr el)) revised_runbook
      (evaluate_runbook RUNBOOK_PROMOTION_CASES) ''Remove generic symptoms and normal-state context from the reusable applicability contract.''
      ''runbook'' proposal s = (Inr (original, revision, q), (g, v'))"
    using p unfolding promote_runbook_def bindS_Inr_iff Let_def q
    by (auto simp: readS_def dest!: worldE_fst)
  from promote_revised_outcome[OF this(2)] s r q experiment_ran[OF e] show ?thesis by (auto simp: empty_registry_def)
qed

lemma capability_evaluation_outcome:
  assumes "run_capability_application_evaluation el st upload w = (Inr report, w')"
  shows "\<exists>g r. registry_history (capability_kind (el_sha el) (el_repr el)) (evaluate_capability CAPABILITY_PROMOTION_CASES) empty_registry g \<and>
    promoted g = [r] \<and> rp_id report = pr_id r \<and> rp_version report = 1 \<and>
    ran_with el ''capability-after-learning-v1'' (capability_target el st g True)"
proof -
  obtain data v recovered p g v' later v'' where p: "promote_capability_version el st (empty_registry, v) = (Inr (recovered, p), (g, v'))"
    and e: "application_experiment el (summarize_capabilities (el_client el) upload) ''capability-after-learning-v1''
      (capability_target el st g True) data v' = (Inr later, v'')"
    and r: "rp_id report = pr_id (snd (snd p))" "rp_version report = pr_version (snd (snd p))"
    using assms unfolding run_capability_application_evaluation_def
    by (fastforce simp: bindS_Inr_iff returnS_def local_registry_Inr)
  obtain original revision q where q: "p = (original, revision, q)" by (cases p)
  obtain proposal s where s: "fst s = empty_registry" and "promote_revised el (capability_kind (el_sha el) (el_repr el)) revised_capability
      (evaluate_capability CAPABILITY_PROMOTION_CASES) ''Remove generic symptoms and normal-state context from the reusable capability prerequisites.''
      ''capability'' proposal s = (Inr (original, revision, q), (g, v'))"
    using p unfolding promote_capability_version_def bindS_Inr_iff Let_def q
    by (auto simp: readS_def bindS_Inr_iff returnS_def dest!: worldE_fst)
  from promote_revised_outcome[OF this(2)] s r q experiment_ran[OF e] show ?thesis by (auto simp: empty_registry_def)
qed

text \<open>C40: An evaluation that reports compared an empty registry with one that holds exactly the reported version: it is
  version 1, it was promoted through submission, revision, review and the gate, the second experiment ran with it, and
  no target of that experiment can answer without citing it by identifier, version and digest.\<close>

theorem evaluation_cites_promoted:
  "(run_runbook_application_evaluation el st upload w = (Inr rb_report, w') \<longrightarrow>
     (\<exists>g r. promoted g = [r] \<and> runbook_good (pr_proposal r) \<and> rp_id rb_report = pr_id r \<and> rp_version rb_report = 1 \<and>
        ran_with el ''runbook-after-learning-v1'' (runbook_target el st g True) \<and>
        cites_only ''runbook_citation'' ''runbook_id'' (citation_of r) (runbook_target el st g True))) \<and>
   (run_capability_application_evaluation el st upload w = (Inr cl_report, w'') \<longrightarrow>
     (\<exists>g r. promoted g = [r] \<and> capability_good (pr_proposal r) \<and> rp_id cl_report = pr_id r \<and> rp_version cl_report = 1 \<and>
        ran_with el ''capability-after-learning-v1'' (capability_target el st g True) \<and>
        cites_only ''capability_citation'' ''capability_id'' (citation_of r) (capability_target el st g True)))"
proof (intro conjI impI)
  assume "run_runbook_application_evaluation el st upload w = (Inr rb_report, w')"
  from runbook_evaluation_outcome[OF this] obtain g r
    where h: "registry_history (runbook_kind (el_sha el) (el_repr el)) (evaluate_runbook RUNBOOK_PROMOTION_CASES) empty_registry g"
      and p: "promoted g = [r]"
      and rest: "rp_id rb_report = pr_id r" "rp_version rb_report = 1" "ran_with el ''runbook-after-learning-v1'' (runbook_target el st g True)"
    by blast
  have "runbook_good (pr_proposal r)" using runbook_gate.promoted_good[OF h] p by simp
  then show "\<exists>g r. promoted g = [r] \<and> runbook_good (pr_proposal r) \<and> rp_id rb_report = pr_id r \<and> rp_version rb_report = 1 \<and>
      ran_with el ''runbook-after-learning-v1'' (runbook_target el st g True) \<and>
      cites_only ''runbook_citation'' ''runbook_id'' (citation_of r) (runbook_target el st g True)"
    using p rest runbook_target_cites[OF h p] by blast
next
  assume "run_capability_application_evaluation el st upload w = (Inr cl_report, w'')"
  from capability_evaluation_outcome[OF this] obtain g r
    where h: "registry_history (capability_kind (el_sha el) (el_repr el)) (evaluate_capability CAPABILITY_PROMOTION_CASES) empty_registry g"
      and p: "promoted g = [r]"
      and rest: "rp_id cl_report = pr_id r" "rp_version cl_report = 1" "ran_with el ''capability-after-learning-v1'' (capability_target el st g True)"
    by blast
  have "capability_good (pr_proposal r)" using capability_gate.promoted_good[OF h] p by simp
  then show "\<exists>g r. promoted g = [r] \<and> capability_good (pr_proposal r) \<and> rp_id cl_report = pr_id r \<and> rp_version cl_report = 1 \<and>
      ran_with el ''capability-after-learning-v1'' (capability_target el st g True) \<and>
      cites_only ''capability_citation'' ''capability_id'' (citation_of r) (capability_target el st g True)"
    using p rest capability_target_cites[OF h p] by blast
qed

section \<open>Witness\<close>

definition sample_experiment :: experiment_results where
  "sample_experiment = \<lparr>ex_name = Inl AttributeError, ex_id = Inl (ValueError []), ex_url = Inr None,
     ex_rows = [\<lparr>er_evaluations = [], er_outputs = None, er_error = Some ''e'', er_inputs = None, er_run_id = ''r'', er_tokens = JNull,
       er_cost = JNull\<rparr>]\<rparr>"

definition sample_client :: "nat application_client" where
  "sample_client = \<lparr>cl_has = (\<lambda>_. returnS False), cl_create = (\<lambda>_. returnS ()), cl_list = (\<lambda>_. returnS []),
     cl_create_examples = (\<lambda>_ _. returnS ()), cl_evaluate = (\<lambda>_ _ _ _. returnS sample_experiment),
     cl_read_run = (\<lambda>_. raiseS OSError), cl_llm_runs = (\<lambda>_. returnS [])\<rparr>"

definition invalid_capability :: capability_proposal where
  "invalid_capability = reviewer_corrected_capability_proposal\<lparr>cl_confidence := 2\<rparr>"

definition sample_evaluation :: "nat evaluation_env" where
  "sample_evaluation = \<lparr>el_client = sample_client, el_uuid5 = id, el_uuid = (\<lambda>n. (replicate n CHR ''1'', Suc n)),
     el_now = (\<lambda>n. (sample_time 5 0, n)), el_elapsed_ms = (\<lambda>n. (7, n)), el_environ = [(''OPENCODE_KEY'', ''k'')],
     el_runbook_agent = (\<lambda>st thread. Agent_raise RuntimeError), el_aware_agent = (\<lambda>st thread. Agent_raise RuntimeError),
     el_capability_agent = (\<lambda>st thread. Answer invalid_capability),
     el_capability_aware_agent = (\<lambda>st thread. Agent_raise RuntimeError), el_sha = sample_sha, el_repr = fraction_text\<rparr>"

lemma sample_summary: "\<exists>x. application_experiment sample_evaluation (summarize_capabilities sample_client False) name target data n = (Inr x, n)"
  by (simp add: application_experiment_def sample_evaluation_def sample_client_def bindS_def returnS_def summarize_capabilities_def summarize_application_def
      sample_experiment_def readS_def checked_scores_def row_scores_def CAPABILITY_EVALUATORS_def case_usage_def Let_def
      experiment_metadata_def unless_def optional_name_def is_value_error_def application_averages_def)

lemma sample_recovered:
  "fst (research_capability_with_recovery worker_target (el_capability_agent sample_evaluation st thread) thread s) =
     Inr (reviewer_corrected_capability_proposal, True)"
proof -
  have "check_capability invalid_capability = Inl ValidationError"
    by (simp add: check_capability_def valid_capability_def invalid_capability_def unit_interval_def)
  then show ?thesis
    by (simp add: research_capability_with_recovery_def sample_evaluation_def bindS_def returnS_def readS_def recover_research_def
        split: prod.split)
qed

lemma sample_revised: "revised_capability reviewer_corrected_capability_proposal = Inr reviewer_corrected_capability_proposal"
proof -
  let ?p = reviewer_corrected_capability_proposal
  have "pp_bounded_blast_radius (capability_policy_pass ?p)" by code_simp
  moreover have "?p\<lparr>cl_prerequisites := causal_signals (cl_prerequisites ?p), cl_categories := causal_categories (cl_categories ?p)\<rparr> = ?p"
    by (simp add: reviewer_corrected_capability_proposal_def causal_signals_def causal_categories_def non_causal_context_def)
  ultimately show ?thesis using reference_valid by (simp add: revised_capability_def check_capability_def)
qed

lemma sample_promoted_capability:
  "\<exists>p s. promote_revised sample_evaluation (capability_kind sample_sha fraction_text) revised_capability
     (evaluate_capability CAPABILITY_PROMOTION_CASES) note word reviewer_corrected_capability_proposal (empty_registry, n) = (Inr p, s)"
  if "length note \<le> 1000"
proof -
  let ?k = "capability_kind sample_sha fraction_text :: (capability_proposal, capability_evaluation) registry_kind"
  have passed: "rk_passed ?k (evaluate_capability CAPABILITY_PROMOTION_CASES reviewer_corrected_capability_proposal)"
    using reference_good by (simp add: capability_kind_def capability_passed_good)
  have ids: "replicate n CHR ''1'' \<noteq> CHR ''1'' # replicate n CHR ''1''" by (metis not_Cons_self2)
  have actor: "check_reviewer SIMULATED_REVIEWER (Some note) = Inr ()"
    "check_reviewer SIMULATED_REVIEWER (Some ''Approve the reviewed revision for hidden evaluation.'') = Inr ()"
    using that by (simp_all add: check_reviewer_def SIMULATED_REVIEWER_def)
  show ?thesis
    using ids ids[symmetric] that
    by (simp add: promote_revised_def submit_and_revise_def bindS_def returnS_def readS_def worldE_def registryE_def drawE_def
        sample_evaluation_def submit_def revise_def review_def reg_transaction_def insert_candidate_def empty_registry_def new_candidate_def
        revise_body_def review_body_def actor get_candidate_def settle_candidate_def pending_at_def settled_def sample_revised passed
        insert_promoted_def Let_def)
qed

theorem evaluation_cites_promoted_witness:
  "\<exists>report w' g. run_capability_application_evaluation sample_evaluation default_settings False 0 = (Inr report, w') \<and>
     rp_version report = 1 \<and> (\<exists>r. promoted g = [r] \<and> rp_id report = pr_id r \<and>
       cites_only ''capability_citation'' ''capability_id'' (citation_of r) (capability_target sample_evaluation default_settings g True))"
proof -
  let ?el = sample_evaluation and ?st = default_settings
  have model: "evaluation_model ?el ?st s = (Inr (), s)" for s
    by (simp add: evaluation_model_def readS_def live_investigation_model_def given_def evaluation_settings_def sample_evaluation_def
        default_settings_def)
  have hex: "\<exists>x. uuid_hex ?el s = (Inr x, Suc s)" for s
    by (simp add: uuid_hex_def bindS_def drawE_def returnS_def sample_evaluation_def)
  have el: "el_sha ?el = sample_sha" "el_repr ?el = fraction_text" "el_client ?el = sample_client" by (simp_all add: sample_evaluation_def)
  obtain x y where xy: "uuid_hex ?el 0 = (Inr x, Suc 0)" "uuid_hex ?el (Suc 0) = (Inr y, Suc (Suc 0))" using hex by blast
  obtain p g n where "promote_revised ?el (capability_kind sample_sha fraction_text) revised_capability
      (evaluate_capability CAPABILITY_PROMOTION_CASES)
      ''Remove generic symptoms and normal-state context from the reusable capability prerequisites.'' ''capability''
      reviewer_corrected_capability_proposal (empty_registry, Suc (Suc 0)) = (Inr p, (g, n))"
    using sample_promoted_capability by fastforce
  then have "promote_capability_version ?el ?st (empty_registry, 0) = (Inr (True, p), (g, n))"
    by (simp add: promote_capability_version_def bindS_def worldE_def model xy Let_def readS_def sample_recovered el returnS_def)
  then have v: "local_registry (promote_capability_version ?el ?st) 0 = (Inr ((True, p), g), n)" by (simp add: local_registry_def)
  let ?data = "Local (local_capability_dataset (el_uuid5 ?el))"
  obtain earlier where e: "application_experiment ?el (summarize_capabilities sample_client False)
      ''capability-before-learning-v1'' (capability_target ?el ?st empty_registry False) ?data 0 = (Inr earlier, 0)"
    using sample_summary by blast
  obtain later where l: "application_experiment ?el (summarize_capabilities sample_client False)
      ''capability-after-learning-v1'' (capability_target ?el ?st g True) ?data n = (Inr later, n)"
    using sample_summary by blast
  obtain report w' where "run_capability_application_evaluation ?el ?st False 0 = (Inr report, w')"
    by (simp add: run_capability_application_evaluation_def bindS_def evaluation_data_def returnS_def v e l el)
  moreover from this evaluation_cites_promoted[of ?el ?st False 0] show ?thesis by blast
qed

end
