(* ===== verification/App.thy ===== *)
theory App
  imports Config Service
begin

text \<open>
  \<open>app.py\<close>: the HTTP interface behind the access middleware and the background expiry. The route table is
  that of the source; how FastAPI pm a path with a template, reads the body of a request, and parses and
  validates it, are parameters. The application answers with the handler to run, a handler acts on the database
  and the world of the service. FastAPI's own pages (the schema and its viewers) and its redirect of a path
  that differs in a final slash run no handler and answer as unknown paths do.
\<close>

section \<open>Routes\<close>

datatype endpoint = Receive_event | Get_run string | Decide string | Execute string | Expire

text \<open>The decorators: method, template and handler; a handler without parameter ignores what was captured.\<close>

definition ROUTES :: "(string \<times> string \<times> (string \<Rightarrow> endpoint)) list" where
  "ROUTES =
     [(''POST'', ''/events'', \<lambda>_. Receive_event),
      (''GET'', ''/runs/{run_id}'', Get_run),
      (''POST'', ''/proposals/{proposal_id}/decision'', Decide),
      (''POST'', ''/proposals/{proposal_id}/execute'', Execute),
      (''POST'', ''/maintenance/expire'', \<lambda>_. Expire)]"

text \<open>The parameter \<open>pm\<close>: the value a template captures from a path, or \<open>None\<close>. The first route wins.\<close>

type_synonym path_matcher = "string \<Rightarrow> string \<Rightarrow> string option"

fun first_route ::
    "path_matcher \<Rightarrow> string \<Rightarrow> string \<Rightarrow> (string \<times> string \<times> (string \<Rightarrow> endpoint)) list \<Rightarrow> endpoint option"
where
  "first_route pm meth path [] = None"
| "first_route pm meth path ((m, template, handler) # rest) =
     (case pm template path of
        Some captured \<Rightarrow> if m = meth then Some (handler captured) else first_route pm meth path rest
      | None \<Rightarrow> first_route pm meth path rest)"

definition route :: "path_matcher \<Rightarrow> string \<Rightarrow> string \<Rightarrow> endpoint option" where
  "route pm meth path = first_route pm meth path ROUTES"

text \<open>
  What the framework documents: a template is compiled to the regular expression \<open>^...$\<close> and tried with
  \<open>re.match\<close>. A parameter is one or more characters other than the slash, and \<open>$\<close> also matches before a
  line feed that ends the path.
\<close>

definition NEWLINE :: string where "NEWLINE = [CHR 0x0A]"

definition segment :: "string \<Rightarrow> bool" where "segment s \<longleftrightarrow> s \<noteq> [] \<and> CHR ''/'' \<notin> set s"

definition template_front :: "string \<Rightarrow> string" where "template_front = takeWhile (\<lambda>c. c \<noteq> CHR ''{'')"

definition template_back :: "string \<Rightarrow> string" where "template_back t = tl (dropWhile (\<lambda>c. c \<noteq> CHR ''}'') t)"

definition fits :: "string \<Rightarrow> string \<Rightarrow> string \<Rightarrow> bool" where
  "fits template captured path \<longleftrightarrow>
     (if CHR ''{'' \<in> set template
      then segment captured \<and>
        path \<in> set [template_front template @ captured @ template_back template,
                    template_front template @ captured @ template_back template @ NEWLINE]
      else path \<in> set [template, template @ NEWLINE])"

definition matches_as_documented :: "path_matcher \<Rightarrow> bool" where
  "matches_as_documented pm \<longleftrightarrow>
     (\<forall>template path captured. pm template path = Some captured \<longrightarrow> fits template captured path)"

section \<open>Handlers\<close>

datatype answer_body = Run_body run_view | Expired_count nat | Detail string

datatype answer = Respond_with nat answer_body | Unhandled exn | Waits

text \<open>A \<open>ServiceError\<close> becomes its status code with its text; anything else is an unhandled error.\<close>

fun error_text :: "exn \<Rightarrow> string" where
  "error_text (ConflictError m) = m"
| "error_text (NotFoundError m) = m"
| "error_text (InvalidTransitionError m) = m"
| "error_text (ExpiredError m) = m"
| "error_text (ExecutionDisabledError m) = m"
| "error_text _ = []"

definition error_answer :: "exn \<Rightarrow> answer" where
  "error_answer e = (case service_status e of Some status \<Rightarrow> Respond_with status (Detail (error_text e)) | None \<Rightarrow> Unhandled e)"

type_synonym 'w handler = "db \<times> 'w \<Rightarrow> answer \<times> db \<times> 'w"

definition respond :: "nat \<Rightarrow> ('a \<Rightarrow> answer_body) \<Rightarrow> (db \<times> 'w, 'a) action \<Rightarrow> 'w handler" where
  "respond status body m s =
     (case m s of (Inl e, s') \<Rightarrow> (error_answer e, s') | (Inr x, s') \<Rightarrow> (Respond_with status (body x), s'))"

definition receive_event :: "'w service_env \<Rightarrow> string \<Rightarrow> event_request \<Rightarrow> 'w handler" where
  "receive_event env actor event = respond 202 Run_body (start_event env event actor)"

definition get_run_handler :: "string \<Rightarrow> 'w handler" where
  "get_run_handler run_id = respond 200 Run_body (get_runS run_id False)"

definition decide_handler :: "'w service_env \<Rightarrow> string \<Rightarrow> string \<Rightarrow> decision_request \<Rightarrow> 'w handler" where
  "decide_handler env actor proposal_id decision = respond 200 Run_body (decide env proposal_id decision actor)"

definition execute_handler :: "'w service_env \<Rightarrow> string \<Rightarrow> string \<Rightarrow> 'w handler" where
  "execute_handler env actor proposal_id = respond 200 Run_body (execute env proposal_id actor)"

definition expire_handler :: "'w service_env \<Rightarrow> string \<Rightarrow> 'w handler" where
  "expire_handler env actor = respond 200 Expired_count (expire_due_proposals env actor)"

section \<open>The application\<close>

record fastapi =
  fa_matches :: path_matcher
  fa_read :: "http_scope \<Rightarrow> string app_process"
  fa_event :: "http_scope \<Rightarrow> string \<Rightarrow> event_request option"
  fa_decision :: "http_scope \<Rightarrow> string \<Rightarrow> decision_request option"

primrec and_then :: "'a app_process \<Rightarrow> ('a \<Rightarrow> 'b app_process) \<Rightarrow> 'b app_process" where
  "and_then (Answer x) f = f x"
| "and_then (AppRaise e) f = AppRaise e"
| "and_then (Receive k) f = Receive (\<lambda>m. and_then (k m) f)"

definition no_handler :: "nat \<Rightarrow> string \<Rightarrow> 'w handler" where
  "no_handler status detail s = (Respond_with status (Detail detail), s)"

definition with_body ::
    "fastapi \<Rightarrow> http_scope \<Rightarrow> (http_scope \<Rightarrow> string \<Rightarrow> 'a option) \<Rightarrow> ('a \<Rightarrow> 'w handler) \<Rightarrow> 'w handler app_process" where
  "with_body fa sc parse h =
     and_then (fa_read fa sc) (\<lambda>body. Answer
       (case parse sc body of None \<Rightarrow> no_handler 422 ''Unprocessable Entity'' | Some x \<Rightarrow> h x))"

text \<open>No route: 405 when a template matches with another method.\<close>

definition unrouted :: "path_matcher \<Rightarrow> string \<Rightarrow> 'w handler" where
  "unrouted pm path =
     (if list_ex (\<lambda>(m, template, handler). pm template path \<noteq> None) ROUTES
      then no_handler 405 ''Method Not Allowed'' else no_handler 404 ''Not Found'')"

definition application :: "fastapi \<Rightarrow> 'w service_env \<Rightarrow> string option \<Rightarrow> http_scope \<Rightarrow> 'w handler app_process" where
  "application fa env actor sc =
     (case (actor, route (fa_matches fa) (case sc_method sc of None \<Rightarrow> ''GET'' | Some m \<Rightarrow> m) (scope_path sc)) of
        (Some a, Some Receive_event) \<Rightarrow> with_body fa sc (fa_event fa) (receive_event env a)
      | (Some a, Some (Get_run run_id)) \<Rightarrow> Answer (get_run_handler run_id)
      | (Some a, Some (Decide proposal_id)) \<Rightarrow> with_body fa sc (fa_decision fa) (decide_handler env a proposal_id)
      | (Some a, Some (Execute proposal_id)) \<Rightarrow> Answer (execute_handler env a proposal_id)
      | (Some a, Some Expire) \<Rightarrow> Answer (expire_handler env a)
      | _ \<Rightarrow> Answer (unrouted (fa_matches fa) (scope_path sc)))"

definition access_policy_for :: "settings \<Rightarrow> access_policy" where
  "access_policy_for s =
     \<lparr>ap_bearer_token = cf_bearer_token s, ap_loopback_only = is_loopback_host (cf_host s), ap_actor = ''bearer-token-user''\<rparr>"

definition serve :: "settings \<Rightarrow> fastapi \<Rightarrow> 'w service_env \<Rightarrow> http_scope \<Rightarrow> message list \<Rightarrow> 'w handler" where
  "serve st fa env sc ms s =
     (case fst (middleware (access_policy_for st) (application fa env) sc ms) of
        reply.Replied h \<Rightarrow> h s
      | reply.Status status detail \<Rightarrow> (Respond_with status (Detail detail), s)
      | reply.Raised e \<Rightarrow> (Unhandled e, s)
      | reply.Waiting \<Rightarrow> (Waits, s))"

definition create_app ::
    "environment \<Rightarrow> settings \<Rightarrow> fastapi \<Rightarrow> 'w service_env \<Rightarrow> exn + (http_scope \<Rightarrow> message list \<Rightarrow> 'w handler)" where
  "create_app environ st fa env = bindE (validate_settings environ st) (\<lambda>_. Inr (serve st fa env))"

section \<open>The background expiry\<close>

text \<open>
  A sweep is one transaction. SQLite may fail in it: another process may hold the database for longer than the
  busy timeout, or the disk may be full. Then the transaction is rolled back and the error, which is not a
  \<open>StoreConflict\<close>, leaves \<open>expire_due\<close> as it is. (A failing \<open>COMMIT\<close>, which the store does not roll back, is not
  modelled.)
\<close>

definition sweep :: "'w service_env \<Rightarrow> bool \<Rightarrow> (db \<times> 'w, nat) action" where
  "sweep env sqlite_fails =
     (if sqlite_fails then bindS (nowS env) (\<lambda>_. raiseS OperationalError)
      else expire_due_proposals env ''expiration-worker'')"

text \<open>
  A tick: what the requests of others did to the state since the last one, and whether SQLite fails in its sweep.
  An exception ends the task; the result is whether it still runs.
\<close>

type_synonym 'w tick = "(db \<times> 'w \<Rightarrow> db \<times> 'w) \<times> bool"

primrec expire_loop_ticks :: "'w service_env \<Rightarrow> 'w tick list \<Rightarrow> db \<times> 'w \<Rightarrow> bool \<times> db \<times> 'w" where
  "expire_loop_ticks env [] s = (True, s)"
| "expire_loop_ticks env (tick # rest) s =
     (case sweep env (snd tick) (fst tick s) of
        (Inl e, s') \<Rightarrow> (False, s')
      | (Inr n, s') \<Rightarrow> expire_loop_ticks env rest s')"

section \<open>Who may change what\<close>

text \<open>The paths the middleware takes for unprotected although a mutating route takes them.\<close>

definition unprotected_paths :: "string list" where
  "unprotected_paths = [''/events'' @ NEWLINE, ''/maintenance/expire'' @ NEWLINE]"

lemma first_route_Some:
  "first_route pm meth path rs = Some e \<Longrightarrow>
   \<exists>template handler captured. (meth, template, handler) \<in> set rs \<and> pm template path = Some captured \<and> e = handler captured"
  by (induction pm meth path rs rule: first_route.induct) (auto split: option.splits if_splits)

lemma fits_plain: "fits template captured path \<Longrightarrow> CHR ''{'' \<notin> set template \<Longrightarrow> path = template \<or> path = template @ NEWLINE"
  by (simp add: fits_def)

lemma fits_front: "fits template captured path \<Longrightarrow> CHR ''{'' \<in> set template \<Longrightarrow> prefix (template_front template) path"
  by (auto simp: fits_def)

lemma ROUTES_templates:
  assumes "(meth, template, handler) \<in> set ROUTES"
  shows "handler = Get_run \<or> meth = ''POST'' \<and>
    (CHR ''{'' \<notin> set template \<and> template \<in> {''/events'', ''/maintenance/expire''} \<or>
     CHR ''{'' \<in> set template \<and> template_front template = ''/proposals/'')"
proof -
  have "list_all (\<lambda>(meth, template, handler). meth = ''GET'' \<or> meth = ''POST'' \<and>
    (CHR ''{'' \<notin> set template \<and> (template = ''/events'' \<or> template = ''/maintenance/expire'') \<or>
     CHR ''{'' \<in> set template \<and> template_front template = ''/proposals/'')) ROUTES"
    by code_simp
  moreover have "meth = ''GET'' \<Longrightarrow> handler = Get_run" using assms by (auto simp: ROUTES_def)
  ultimately show ?thesis using assms by (auto simp: list_all_iff)
qed

lemma routed_mutation:
  assumes "matches_as_documented pm" and "route pm meth path = Some e" and "\<forall>i. e \<noteq> Get_run i"
  shows "meth = ''POST'' \<and> ((meth, path) \<in> set MUTATING_ENDPOINTS \<or> list_ex (\<lambda>x. prefix x path) MUTATING_PREFIXES \<or>
    path \<in> set unprotected_paths)"
proof -
  obtain template handler captured where r: "(meth, template, handler) \<in> set ROUTES" "e = handler captured"
    "fits template captured path"
    using first_route_Some[OF assms(2)[unfolded route_def]] assms(1) unfolding matches_as_documented_def by blast
  then have "handler \<noteq> Get_run" using assms(3) by blast
  with ROUTES_templates[OF r(1)] have meth: "meth = ''POST''"
    and t: "CHR ''{'' \<notin> set template \<and> template \<in> {''/events'', ''/maintenance/expire''} \<or>
      CHR ''{'' \<in> set template \<and> template_front template = ''/proposals/''" by blast+
  from t have "path \<in> {''/events'', ''/maintenance/expire''} \<or> path \<in> set unprotected_paths \<or> prefix ''/proposals/'' path"
    using fits_plain[OF r(3)] fits_front[OF r(3)] unfolding unprotected_paths_def by auto
  with meth show ?thesis unfolding MUTATING_ENDPOINTS_def MUTATING_PREFIXES_def by auto
qed

lemma upper_POST: "map upper_char ''POST'' = ''POST''"
  by (simp add: upper_char_def is_ascii_lower_def char_in_def code_def)

lemma routed_needs_authentication:
  assumes "matches_as_documented pm"
    and "route pm (case sc_method sc of None \<Rightarrow> ''GET'' | Some m \<Rightarrow> m) (scope_path sc) = Some e" and "\<forall>i. e \<noteq> Get_run i"
  shows "sc_method sc = Some ''POST'' \<and>
    (requires_authentication pol (scope_method sc) (scope_path sc) \<or> scope_path sc \<in> set unprotected_paths)"
proof -
  have m: "sc_method sc = Some ''POST''" using routed_mutation[OF assms] by (auto split: option.splits)
  then have "scope_method sc = ''POST''" using upper_POST by (simp add: scope_method_def)
  then show ?thesis using m routed_mutation[OF assms] by (auto simp: requires_authentication_def)
qed

text \<open>A handler of the application reads one run, does one operation of the service, or nothing.\<close>

inductive_set handlers :: "'w service_env \<Rightarrow> string \<Rightarrow> 'w handler set" for env actor where
  "no_handler status detail \<in> handlers env actor"
| "get_run_handler i \<in> handlers env actor"
| "receive_event env actor ev \<in> handlers env actor"
| "decide_handler env actor pid request \<in> handlers env actor"
| "execute_handler env actor pid \<in> handlers env actor"
| "expire_handler env actor \<in> handlers env actor"

lemma respond_state: "snd (respond status body m s) = snd (m s)"
  by (simp add: respond_def split: prod.splits sum.splits)

lemma handlers_step:
  assumes "h \<in> handlers env actor"
  shows "snd (h s) = s \<or> service_step env s (snd (h s))"
  using assms
  by (cases rule: handlers.cases)
    (simp_all add: no_handler_def get_run_handler_def receive_event_def decide_handler_def execute_handler_def
      expire_handler_def respond_state get_runS_def readS_def service_step.intros)

primrec outcomes :: "'r app_process \<Rightarrow> 'r set" where
  "outcomes (Answer x) = {x}"
| "outcomes (AppRaise e) = {}"
| "outcomes (Receive k) = (\<Union>m. outcomes (k m))"

lemma outcomes_and_then: "y \<in> outcomes (and_then p f) \<Longrightarrow> \<exists>x \<in> outcomes p. y \<in> outcomes (f x)"
proof (induction p)
  case (Receive k)
  then obtain m where "y \<in> outcomes (and_then (k m) f)" by auto
  then obtain x where "x \<in> outcomes (k m)" "y \<in> outcomes (f x)" using Receive.IH[OF rangeI] by blast
  then show ?case by auto
qed auto

lemma run_app_outcomes: "fst (run_app p ms) = reply.Replied x \<Longrightarrow> x \<in> outcomes p"
  by (induction p ms rule: run_app.induct) auto

lemma run_limited_outcomes: "fst (run_limited n p ms) = reply.Replied x \<Longrightarrow> x \<in> outcomes p"
  by (induction n p ms rule: run_limited.induct) (auto split: if_splits)

lemma with_body_answers:
  "h \<in> outcomes (with_body fa sc parse g) \<Longrightarrow> (\<exists>status detail. h = no_handler status detail) \<or> (\<exists>x. h = g x)"
  by (auto simp: with_body_def dest!: outcomes_and_then split: option.splits) blast+

lemma application_handlers:
  assumes "h \<in> outcomes (application fa env actor sc)"
  shows "(\<exists>status detail. h = no_handler status detail) \<or> (\<exists>a. actor = Some a \<and> h \<in> handlers env a \<and>
     (\<exists>e. route (fa_matches fa) (case sc_method sc of None \<Rightarrow> ''GET'' | Some m \<Rightarrow> m) (scope_path sc) = Some e \<and>
        ((\<forall>i. e \<noteq> Get_run i) \<or> (\<exists>i. h = get_run_handler i))))"
  using assms
  by (auto simp: application_def unrouted_def intro: handlers.intros dest!: with_body_answers
      split: option.splits endpoint.splits if_splits)

lemma middleware_answers:
  assumes "fst (middleware pol app sc ms) = reply.Replied h"
  shows "(sc_type sc \<noteq> ''http'' \<and> h \<in> outcomes (app None sc)) \<or>
    (\<exists>actor. authenticate pol sc = Proceed actor \<and> h \<in> outcomes (app (Some actor) sc))"
  using assms
  by (auto simp: middleware_def dest: run_app_outcomes run_limited_outcomes split: if_splits verdict.splits)

lemma replied_handler:
  assumes "matches_as_documented (fa_matches fa)"
    and "fst (middleware (access_policy_for st) (application fa env) sc ms) = reply.Replied h"
  shows "(\<exists>status detail. h = no_handler status detail) \<or>
    (\<exists>a. h \<in> handlers env a \<and> (bears_token (cf_bearer_token st) sc \<and> a = ''bearer-token-user'' \<or>
       is_loopback_host (cf_host st) \<and>
         ((\<exists>i. h = get_run_handler i) \<or> sc_method sc = Some ''POST'' \<and> scope_path sc \<in> set unprotected_paths)))"
  using middleware_answers[OF assms(2)]
proof
  assume "sc_type sc \<noteq> ''http'' \<and> h \<in> outcomes (application fa env None sc)"
  then show ?thesis using application_handlers by blast
next
  assume "\<exists>actor. authenticate (access_policy_for st) sc = Proceed actor \<and> h \<in> outcomes (application fa env (Some actor) sc)"
  then obtain actor where a: "authenticate (access_policy_for st) sc = Proceed actor" "h \<in> outcomes (application fa env (Some actor) sc)"
    by blast
  show ?thesis
  proof (cases "requires_authentication (access_policy_for st) (scope_method sc) (scope_path sc)")
    case True
    then show ?thesis
      using authenticate_Proceed[OF a(1)] application_handlers[OF a(2)] by (auto simp: access_policy_for_def)
  next
    case False
    then have "is_loopback_host (cf_host st)" by (simp add: requires_authentication_def access_policy_for_def)
    then show ?thesis
      using application_handlers[OF a(2)] routed_needs_authentication[OF assms(1), of sc] False by blast
  qed
qed

text \<open>C4: Over HTTP nothing changes and nothing leaves without authorisation, but for one gap. If a request changes
  the state, it does so by one operation of the service; and either it bore the configured bearer token, or
  the host is loopback and the request is a POST whose path is \<open>/events\<close> or \<open>/maintenance/expire\<close> followed by a
  line feed, which the framework routes and the middleware does not protect. On a host that is not loopback
  every request that changes the state or is answered with a run bore the token, without exception.\<close>

theorem http_authorised:
  assumes "matches_as_documented (fa_matches fa)"
    and "create_app environ st fa env = Inr app" and "app sc ms s = (ans, s')"
    and "s' \<noteq> s \<or> (\<not> is_loopback_host (cf_host st) \<and> (\<exists>status r. ans = Respond_with status (Run_body r)))"
  shows "(s' = s \<or> service_step env s s') \<and>
    (bears_token (cf_bearer_token st) sc \<or>
     is_loopback_host (cf_host st) \<and> sc_method sc = Some ''POST'' \<and> scope_path sc \<in> set unprotected_paths)"
proof -
  have app: "serve st fa env sc ms s = (ans, s')" using assms(2,3) by (auto simp: create_app_def bindE_Inr_iff)
  obtain h where h: "fst (middleware (access_policy_for st) (application fa env) sc ms) = reply.Replied h" "h s = (ans, s')"
    using app assms(4) by (auto simp: serve_def split: reply.splits)
  have get: "snd (get_run_handler i s) = s" for i by (simp add: get_run_handler_def respond_state get_runS_def readS_def)
  have no: "h \<noteq> no_handler status detail" for status detail using h(2) assms(4) by (auto simp: no_handler_def)
  from replied_handler[OF assms(1) h(1)] no obtain a where a: "h \<in> handlers env a"
    "bears_token (cf_bearer_token st) sc \<or> is_loopback_host (cf_host st) \<and>
      ((\<exists>i. h = get_run_handler i) \<or> sc_method sc = Some ''POST'' \<and> scope_path sc \<in> set unprotected_paths)" by blast
  have "s' = s \<or> service_step env s s'" using handlers_step[OF a(1), of s] h(2) by simp
  then show ?thesis using a(2) get h(2) assms(4) by (metis snd_conv)
qed

lemma steps_reachable: "(service_step env)\<^sup>*\<^sup>* s t \<Longrightarrow> reachable (fst s) \<Longrightarrow> reachable (fst t)"
proof (induction rule: rtranclp_induct)
  case (step t u)
  then show ?case using service_step_stores[OF step.hyps(2)] reachable_steps by (simp add: stores_def)
qed

text \<open>A sweep in which SQLite does not fail: no exception, and nothing due is left but on failed runs.\<close>

definition swept_clean :: "'w service_env \<Rightarrow> db \<times> 'w \<Rightarrow> db \<times> 'w \<Rightarrow> bool" where
  "swept_clean env t s' \<longleftrightarrow> s' = snd (expire_due_proposals env ''expiration-worker'' t) \<and>
     (\<forall>q \<in> set (proposals (fst s')). is_due (isoformat (fst (se_now env (snd t)))) q \<longrightarrow>
        (\<exists>r. find_run (p_run_id q) (fst t) = Some r \<and> r_state r = FAILED))"

lemma sweep_settles:
  assumes "reachable (fst t)"
  shows "\<exists>n s'. sweep env False t = (Inr n, s') \<and> swept_clean env t s' \<and> reachable (fst s')"
proof -
  obtain d w where t: "t = (d, w)" by (cases t)
  let ?now = "isoformat (fst (se_now env w))"
  obtain n d' where d': "expire_due ?now ''expiration-worker'' d = (Inr n, d')"
    "\<forall>q \<in> set (proposals d'). is_due ?now q \<longrightarrow> (\<exists>r. find_run (p_run_id q) d = Some r \<and> r_state r = FAILED)"
    using expire_due_settles[of d ?now "''expiration-worker''"] assms t by auto
  then have tick: "expire_due_proposals env ''expiration-worker'' (d, w) = (Inr n, (d', snd (se_now env w)))"
    by (cases "se_now env w") (simp add: expire_due_proposals_def nowS_def worldS_def storeS_def bindS_def catchS_def)
  have "reachable d'"
    using steps_reachable[OF r_into_rtranclp[of "service_step env"], OF service_step.swept[of env "(d, w)" "''expiration-worker''"]] assms t tick
    by simp
  with tick d'(2) show ?thesis by (simp add: sweep_def swept_clean_def t)
qed

lemma quiet_ticks:
  assumes "reachable (fst s)" and "\<forall>tick \<in> set ticks. \<not> snd tick \<and> (\<forall>t. (service_step env)\<^sup>*\<^sup>* t (fst tick t))"
  shows "\<exists>s'. expire_loop_ticks env ticks s = (True, s') \<and> reachable (fst s') \<and> (ticks \<noteq> [] \<longrightarrow> (\<exists>t. swept_clean env t s'))"
  using assms
proof (induction ticks arbitrary: s)
  case (Cons tick ticks)
  have "(service_step env)\<^sup>*\<^sup>* s (fst tick s)" using Cons.prems(2)[rule_format, OF list.set_intros(1)] by blast
  then have "reachable (fst (fst tick s))" using steps_reachable Cons.prems(1) by blast
  then obtain n s1 where s1: "sweep env False (fst tick s) = (Inr n, s1)" "swept_clean env (fst tick s) s1" "reachable (fst s1)"
    using sweep_settles by blast
  have "\<forall>tick \<in> set ticks. \<not> snd tick \<and> (\<forall>t. (service_step env)\<^sup>*\<^sup>* t (fst tick t))"
    using Cons.prems(2) by (meson list.set_intros(2))
  from Cons.IH[OF s1(3) this] obtain s' where s': "expire_loop_ticks env ticks s1 = (True, s')" "reachable (fst s')"
    "ticks \<noteq> [] \<longrightarrow> (\<exists>t. swept_clean env t s')" by blast
  have "expire_loop_ticks env (tick # ticks) s = (True, s')" using s1(1) s'(1) Cons.prems(2) by simp
  moreover have "\<exists>t. swept_clean env t s'"
  proof (cases "ticks = []")
    case True
    with s'(1) s1(2) show ?thesis by (metis expire_loop_ticks.simps(1) prod.inject)
  qed (use s'(3) in blast)
  ultimately show ?case using s'(2) by blast
qed simp

lemma ticks_append:
  "expire_loop_ticks env (xs @ ys) s =
     (case expire_loop_ticks env xs s of (True, s') \<Rightarrow> expire_loop_ticks env ys s' | (False, s') \<Rightarrow> (False, s'))"
  by (induction xs arbitrary: s) (auto split: prod.splits sum.splits)

text \<open>C29: Only SQLite ends the background expiry. Whatever operations of the service run between two ticks, the task
  is still there exactly when SQLite failed in none of its sweeps; then, right after the last tick, the only
  proposals left past their deadline are those of runs that have failed. The first failing sweep ends the task for
  good: it leaves the database as the requests had made it, and later ticks do nothing.\<close>

theorem expiry_ends_only_by_sqlite:
  assumes "reachable (fst s)" and "\<forall>tick \<in> set ticks. \<forall>t. (service_step env)\<^sup>*\<^sup>* t (fst tick t)"
  shows "\<exists>running s'. expire_loop_ticks env ticks s = (running, s') \<and> (running \<longleftrightarrow> (\<forall>tick \<in> set ticks. \<not> snd tick)) \<and>
    (running \<and> ticks \<noteq> [] \<longrightarrow> (\<exists>t. swept_clean env t s')) \<and>
    (\<not> running \<longrightarrow>
      (let quiet = takeWhile (\<lambda>tick. \<not> snd tick) ticks; before = snd (expire_loop_ticks env quiet s) in
        fst s' = fst (fst (ticks ! length quiet) before)) \<and>
      (\<forall>more. expire_loop_ticks env (ticks @ more) s = (False, s')))"
proof (cases "\<forall>tick \<in> set ticks. \<not> snd tick")
  case True
  with assms(2) have "\<forall>tick \<in> set ticks. \<not> snd tick \<and> (\<forall>t. (service_step env)\<^sup>*\<^sup>* t (fst tick t))" by blast
  from quiet_ticks[OF assms(1) this] obtain s' where "expire_loop_ticks env ticks s = (True, s')"
    "ticks \<noteq> [] \<longrightarrow> (\<exists>t. swept_clean env t s')" by blast
  with True show ?thesis by (intro exI[of _ True] exI[of _ s']) blast
next
  case False
  let ?quiet = "takeWhile (\<lambda>tick. \<not> snd tick) ticks"
  obtain failing rest where split: "ticks = ?quiet @ failing # rest" "snd failing"
    using False split_list_first_prop[of ticks snd] by (metis takeWhile_dropWhile_id dropWhile_eq_Nil_conv hd_dropWhile list.collapse)
  have "\<forall>tick \<in> set ?quiet. \<not> snd tick \<and> (\<forall>t. (service_step env)\<^sup>*\<^sup>* t (fst tick t))"
    using assms(2) by (auto dest: set_takeWhileD)
  then obtain s1 where s1: "expire_loop_ticks env ?quiet s = (True, s1)" using quiet_ticks[OF assms(1)] by blast
  obtain s' where s': "sweep env True (fst failing s1) = (Inl OperationalError, s')" "fst s' = fst (fst failing s1)"
    by (cases "fst failing s1"; cases "se_now env (snd (fst failing s1))")
      (simp add: sweep_def bindS_def nowS_def worldS_def raiseS_def)
  have loop: "expire_loop_ticks env (?quiet @ failing # more) s = (False, s')" for more
    using s1 s'(1) split(2) by (simp add: ticks_append)
  then have all: "expire_loop_ticks env (ticks @ more) s = (False, s')" for more
    using split(1) by (metis append.assoc append_Cons)
  have "ticks ! length ?quiet = failing" using split(1) by (metis nth_append_length)
  with all[of "[]"] all False s1 s'(2) show ?thesis by (auto simp: Let_def)
qed

section \<open>Witnesses\<close>

text \<open>A matcher in the manner of the documentation: a parameter takes all it can up to the next slash.\<close>

definition ends_with :: "string \<Rightarrow> string \<Rightarrow> bool" where "ends_with back s \<longleftrightarrow> s = back \<or> s = back @ NEWLINE"

definition documented_matcher :: path_matcher where
  "documented_matcher template path =
     (if CHR ''{'' \<in> set template
      then (let rest = drop (length (template_front template)) path;
                captured = takeWhile (\<lambda>c. c \<noteq> CHR ''/'') rest; after = dropWhile (\<lambda>c. c \<noteq> CHR ''/'') rest in
            if prefix (template_front template) path \<and> captured \<noteq> [] \<and> ends_with (template_back template) after
            then Some captured else None)
      else if ends_with template path then Some [] else None)"

lemma documented_matcher_documented: "matches_as_documented documented_matcher"
proof -
  have "fits template captured path" if m: "documented_matcher template path = Some captured" for template path captured
  proof (cases "CHR ''{'' \<in> set template")
    case True
    let ?front = "template_front template" and ?rest = "drop (length (template_front template)) path"
    from m True have c: "captured = takeWhile (\<lambda>c. c \<noteq> CHR ''/'') ?rest" "prefix ?front path" "captured \<noteq> []"
      "ends_with (template_back template) (dropWhile (\<lambda>c. c \<noteq> CHR ''/'') ?rest)"
      by (auto simp: documented_matcher_def Let_def split: if_splits)
    have "path = ?front @ captured @ dropWhile (\<lambda>c. c \<noteq> CHR ''/'') ?rest"
      using c(2) unfolding c(1) by (auto simp: prefix_def)
    moreover have "segment captured" using c(3) by (auto simp: segment_def c(1) dest: set_takeWhileD)
    ultimately show ?thesis using True c(4) by (auto simp: fits_def ends_with_def)
  next
    case False
    with m show ?thesis by (auto simp: documented_matcher_def fits_def ends_with_def split: if_splits)
  qed
  then show ?thesis by (simp add: matches_as_documented_def)
qed

definition sample_fastapi :: fastapi where
  "sample_fastapi = \<lparr>fa_matches = documented_matcher, fa_read = (\<lambda>sc. Receive (\<lambda>m. Answer [])),
     fa_event = (\<lambda>_ _. None), fa_decision = (\<lambda>_ _. None)\<rparr>"

definition expire_scope :: http_scope where
  "expire_scope = \<lparr>sc_type = ''http'', sc_method = Some ''POST'', sc_path = Some ''/maintenance/expire'',
     sc_headers = [(''authorization'', ''Bearer t'')]\<rparr>"

lemma expire_scope_passes:
  assumes "cf_bearer_token st = Some ''t''"
  shows "serve st sample_fastapi env expire_scope [] s = expire_handler env ''bearer-token-user'' s"
proof -
  have facts: "requires_authentication (access_policy_for st) (scope_method expire_scope) (scope_path expire_scope)"
    "header expire_scope ''authorization'' = Some ''Bearer t''" "partition_space ''Bearer t'' = (''Bearer'', '' '', ''t'')"
    "lower ''Bearer'' = ''bearer''" "compare_digest ''t'' ''t'' = Inr True" "scope_path expire_scope = ''/maintenance/expire''"
    "sc_type expire_scope = ''http''" "route (fa_matches sample_fastapi) ''POST'' ''/maintenance/expire'' = Some Expire" "sc_method expire_scope = Some ''POST''"
    by code_simp+
  have "ap_bearer_token (access_policy_for st) = Some ''t''" "ap_actor (access_policy_for st) = ''bearer-token-user''"
    by (simp_all add: access_policy_for_def assms)
  then have "authenticate (access_policy_for st) expire_scope = Proceed ''bearer-token-user''"
    using facts(1) by (simp add: authenticate_def facts(2-5))
  then show ?thesis by (simp add: serve_def middleware_def facts application_def)
qed

theorem http_authorised_witness:
  "\<exists>st app. create_app sample_environment st sample_fastapi sample_env = Inr app \<and>
     snd (app expire_scope [] (empty_db, 0)) \<noteq> (empty_db, 0) \<and> bears_token (cf_bearer_token st) expire_scope"
proof -
  obtain st where st: "cf_bearer_token st = Some ''t''" "validate_settings sample_environment st = Inr ()"
    using sample_settings by blast
  then have app: "create_app sample_environment st sample_fastapi sample_env = Inr (serve st sample_fastapi sample_env)"
    by (simp add: create_app_def)
  have "snd (snd (expire_due_proposals sample_env a (empty_db, 0))) = 1" for a
    by (simp add: expire_due_proposals_def nowS_def worldS_def storeS_def bindS_def catchS_def sample_env_def raiseS_def
        split: prod.splits sum.splits)
  then have changed: "snd (serve st sample_fastapi sample_env expire_scope [] (empty_db, 0)) \<noteq> (empty_db, 0)"
    by (auto simp: expire_scope_passes[OF st(1)] expire_handler_def respond_state prod_eq_iff)
  then obtain ans s' where s': "serve st sample_fastapi sample_env expire_scope [] (empty_db, 0) = (ans, s')" "s' \<noteq> (empty_db, 0)"
    by (metis prod.collapse)
  have "matches_as_documented (fa_matches sample_fastapi)" "scope_path expire_scope \<notin> set unprotected_paths"
    by (simp_all add: sample_fastapi_def documented_matcher_documented) code_simp
  then show ?thesis using http_authorised[OF _ app s'(1)] s'(2) app changed by blast
qed

text \<open>The gap: with a line feed at the end of the path the sweep runs on a loopback host for whoever asks.\<close>

definition newline_scope :: http_scope where
  "newline_scope = \<lparr>sc_type = ''http'', sc_method = Some ''POST'', sc_path = Some (''/maintenance/expire'' @ NEWLINE), sc_headers = []\<rparr>"

lemma newline_needs_no_token:
  assumes "is_loopback_host (cf_host st)"
  shows "serve st sample_fastapi env newline_scope [] s = expire_handler env ''loopback-read-only'' s"
proof -
  have facts: "\<not> requires_authentication \<lparr>ap_bearer_token = None, ap_loopback_only = True, ap_actor = []\<rparr> (scope_method newline_scope) (scope_path newline_scope)"
    "sc_type newline_scope = ''http''" "scope_path newline_scope \<noteq> ''/events''" "sc_method newline_scope = Some ''POST''"
    "route (fa_matches sample_fastapi) ''POST'' (scope_path newline_scope) = Some Expire" by code_simp+
  have "\<not> requires_authentication (access_policy_for st) (scope_method newline_scope) (scope_path newline_scope)"
    using facts(1) assms unfolding requires_authentication_def access_policy_for_def by simp
  then have "authenticate (access_policy_for st) newline_scope = Proceed ''loopback-read-only''"
    by (simp add: authenticate_def)
  then show ?thesis by (simp add: serve_def middleware_def facts application_def)
qed

definition sample_ticks :: "bool \<Rightarrow> nat tick list" where
  "sample_ticks sqlite_fails = [(\<lambda>t. t, False), (\<lambda>t. snd (expire_due_proposals sample_env ''operator'' t), sqlite_fails)]"

lemma sample_ticks_step: "\<forall>tick \<in> set (sample_ticks b). \<forall>t. (service_step sample_env)\<^sup>*\<^sup>* t (fst tick t)"
  unfolding sample_ticks_def by (auto intro: service_step.swept)

theorem expiry_ends_only_by_sqlite_witness:
  "(\<exists>s'. expire_loop_ticks sample_env (sample_ticks False) (service_approved, 0) = (True, s')) \<and>
   (\<exists>s'. expire_loop_ticks sample_env (sample_ticks True) (service_approved, 0) = (False, s') \<and>
      expire_loop_ticks sample_env (sample_ticks True @ sample_ticks False) (service_approved, 0) = (False, s'))"
proof -
  have r: "reachable (fst (service_approved, 0::nat))" using service_reachable(2) by simp
  note ends = expiry_ends_only_by_sqlite[OF r sample_ticks_step]
  have fails: "(\<forall>tick \<in> set (sample_ticks b). \<not> snd tick) \<longleftrightarrow> \<not> b" for b by (simp add: sample_ticks_def)
  obtain s1 where "expire_loop_ticks sample_env (sample_ticks False) (service_approved, 0) = (True, s1)"
    using ends[of False, unfolded fails] by (elim exE conjE) simp
  moreover obtain s2 where "expire_loop_ticks sample_env (sample_ticks True) (service_approved, 0) = (False, s2)"
    "expire_loop_ticks sample_env (sample_ticks True @ sample_ticks False) (service_approved, 0) = (False, s2)"
    using ends[of True, unfolded fails] by (elim exE conjE) simp
  ultimately show ?thesis by blast
qed

end
