(* ===== verification/Cli.thy ===== *)
theory Cli
  imports Evaluation App
begin

text \<open>
  The command line of \<open>cli.py\<close>: \<open>main\<close> over the machine the commands share. The arguments are those \<open>argparse\<close> hands
  over, so the choices of an option hold; \<open>uvicorn\<close>, the LangSmith client and the agents are parameters. The result of
  an evaluation or of \<open>init-db\<close>, which \<open>main\<close> prints as JSON, is the value returned.
\<close>

datatype command =
    Demo_command
  | Container_service_demo
  | Site_demo bool
  | Reflection_eval int evaluation_mode bool
  | Runbook_learning string string
  | Capability_learning string string bool
  | Runbook_application bool
  | Capability_application bool
  | Init_db "string option"
  | Serve "string option" int

datatype command_result =
    Finished
  | Reflection_report evaluation_report
  | Runbook_report "runbook_evaluation application_report"
  | Capability_report "capability_evaluation application_report"
  | Database_ready string int

text \<open>
  The machine: the container lab with the files of the host and the terminal, the databases by resolved path, and by
  the path given to a command the two registries.
\<close>

record 'x machine =
  mh_lab :: "'x terminal lab"
  mh_databases :: databases
  mh_runbooks :: "string \<Rightarrow> runbooks"
  mh_capabilities :: "string \<Rightarrow> capability_store"

record 'x main_env =
  me_cli :: "'x cli_env"
  me_platform :: "'x terminal platform"
  me_evaluation :: "'x terminal evaluation_env"
  me_direct :: "settings \<Rightarrow> environment \<Rightarrow> string \<Rightarrow> ('x terminal, members) action"
  me_reflective :: "settings \<Rightarrow> environment \<Rightarrow> string \<Rightarrow> ('x terminal, members) action"
  me_fastapi :: fastapi
  me_uvicorn :: "(http_scope \<Rightarrow> message list \<Rightarrow> 'x terminal lab handler) \<Rightarrow> string \<Rightarrow> int \<Rightarrow> (db \<times> 'x terminal lab, unit) action"

definition labM :: "('x terminal lab, 'a) action \<Rightarrow> ('x machine, 'a) action" where
  "labM m s = (case m (mh_lab s) of (r, l) \<Rightarrow> (r, s\<lparr>mh_lab := l\<rparr>))"

definition terminalM :: "('x terminal, 'a) action \<Rightarrow> ('x machine, 'a) action" where
  "terminalM m = labM (\<lambda>l. case m (lb_world l) of (r, t) \<Rightarrow> (r, l\<lparr>lb_world := t\<rparr>))"

definition processM :: "('x process, 'a) action \<Rightarrow> ('x machine, 'a) action" where
  "processM m = labM (\<lambda>l. case m \<lparr>pc_files = lb_files l, pc_terminal = lb_world l\<rparr> of
     (r, w) \<Rightarrow> (r, l\<lparr>lb_files := pc_files w, lb_world := pc_terminal w\<rparr>))"

definition hostM :: "(databases \<times> 'x terminal lab, 'a) action \<Rightarrow> ('x machine, 'a) action" where
  "hostM m s = (case m (mh_databases s, mh_lab s) of (r, (b, l)) \<Rightarrow> (r, s\<lparr>mh_databases := b, mh_lab := l\<rparr>))"

definition learningM :: "string \<Rightarrow> ('x learning, 'a) action \<Rightarrow> ('x machine, 'a) action" where
  "learningM path m s =
     (case m \<lparr>ln_runbooks = mh_runbooks s path, ln_capabilities = mh_capabilities s path, ln_terminal = lb_world (mh_lab s)\<rparr> of
        (r, w) \<Rightarrow> (r, s\<lparr>mh_runbooks := (mh_runbooks s)(path := ln_runbooks w),
          mh_capabilities := (mh_capabilities s)(path := ln_capabilities w), mh_lab := (mh_lab s)\<lparr>lb_world := ln_terminal w\<rparr>\<rparr>))"

definition environmentM :: "'x machine \<Rightarrow> environment" where "environmentM s = tm_environ (lb_world (mh_lab s))"

definition settingsM :: "'x main_env \<Rightarrow> ('x machine, settings) action" where
  "settingsM me = terminalM (environT (from_env (ce_dotenv (me_cli me))))"

text \<open>\<open>initialize_database\<close>: opening the store creates or migrates the tables; then the version is read and it is closed.\<close>

definition opened_version :: "codec \<Rightarrow> path option \<Rightarrow> databases \<Rightarrow> int" where
  "opened_version cd store b =
     tb_version (case store of None \<Rightarrow> migrated cd created_tables
       | Some q \<Rightarrow> (case b q of None \<Rightarrow> created_tables | Some t \<Rightarrow> t))"

definition initialize_database :: "'x main_env \<Rightarrow> string \<Rightarrow> ('x machine, command_result) action" where
  "initialize_database me path =
     bindS (hostM (lab_store (me_platform me) path)) (\<lambda>store.
     readS (\<lambda>s. Inr (Database_ready path (opened_version (platform_codec (me_platform me)) store (mh_databases s)))))"

text \<open>\<open>--host\<close> replaces the host of the settings, which are validated again, and is exported for the application.\<close>

definition serve_settings :: "string option \<Rightarrow> string option \<Rightarrow> (environment, settings) action" where
  "serve_settings dotenv host =
     bindS (from_env dotenv) (\<lambda>st.
     if \<not> given host then returnS st
     else let st' = st\<lparr>cf_host := the host\<rparr> in
       bindS (readS (\<lambda>environ. validate_settings environ st')) (\<lambda>_.
       bindS (set_variable (''HOST'', the host)) (\<lambda>_. returnS st')))"

text \<open>The settings to bind, and those the imported application reads again from the environment.\<close>

definition bound_and_served :: "string option \<Rightarrow> string option \<Rightarrow> (environment, settings \<times> settings) action" where
  "bound_and_served dotenv host =
     bindS (serve_settings dotenv host) (\<lambda>st.
     bindS (from_env dotenv) (\<lambda>app_st.
     bindS (readS (\<lambda>environ. validate_settings environ app_st)) (\<lambda>_. returnS (st, app_st))))"

text \<open>The server runs the application on the opened database; when it ends, the lifespan closes the service.\<close>

definition serve_command :: "'x main_env \<Rightarrow> string option \<Rightarrow> int \<Rightarrow> ('x machine, unit) action" where
  "serve_command me host port =
     bindS (terminalM (environT (bound_and_served (ce_dotenv (me_cli me)) host))) (\<lambda>(st, app_st).
     bindS (\<lambda>s. hostM (build_service (me_platform me) (environmentM s) app_st) s) (\<lambda>b.
     bindS (readS (\<lambda>s. create_app (environmentM s) app_st (me_fastapi me) (bt_env b))) (\<lambda>app.
     finallyS (hostM (on_store (platform_codec (me_platform me)) (bt_database b) (me_uvicorn me app (cf_host st) port)))
       (labM (bt_close b)))))"

definition evaluationM ::
    "'x main_env \<Rightarrow> ('x terminal evaluation_env \<Rightarrow> settings \<Rightarrow> bool \<Rightarrow> ('x terminal, 'r) action) \<Rightarrow> bool \<Rightarrow> ('x machine, 'r) action"
where
  "evaluationM me run no_upload =
     bindS (settingsM me) (\<lambda>st s. terminalM (run ((me_evaluation me)\<lparr>el_environ := environmentM s\<rparr>) st (\<not> no_upload)) s)"

fun main :: "'x main_env \<Rightarrow> command \<Rightarrow> ('x machine, command_result) action" where
  "main me Demo_command = bindS (processM (demo (me_cli me))) (\<lambda>_. returnS Finished)"
| "main me Container_service_demo =
     bindS (hostM (container_service_demo (me_cli me) (me_platform me))) (\<lambda>_. returnS Finished)"
| "main me (Site_demo causal) = bindS (processM (site_investigation_demo (me_cli me) causal)) (\<lambda>_. returnS Finished)"
| "main me (Reflection_eval repetitions mode no_upload) =
     (if repetitions < 1 \<or> 5 < repetitions then raiseS (SystemExit 2)
      else bindS (settingsM me) (\<lambda>st.
           bindS (\<lambda>s. let st' = evaluation_settings st in
                terminalM (run_langsmith_reflection_evaluation
                  (evaluation_client.truncate (el_client (me_evaluation me))) (el_uuid5 (me_evaluation me)) (\<not> no_upload) (nat repetitions) mode
                  (me_direct me st' (environmentM s)) (me_reflective me st' (environmentM s))) s) (\<lambda>report.
           returnS (Reflection_report report))))"
| "main me (Runbook_learning path dec) =
     bindS (learningM path (runbook_learning_demo (me_cli me) dec)) (\<lambda>_. returnS Finished)"
| "main me (Capability_learning path dec fail_verification) =
     bindS (learningM path (capability_learning_demo (me_cli me) dec fail_verification)) (\<lambda>_. returnS Finished)"
| "main me (Runbook_application no_upload) =
     bindS (evaluationM me run_runbook_application_evaluation no_upload) (\<lambda>report. returnS (Runbook_report report))"
| "main me (Capability_application no_upload) =
     bindS (evaluationM me run_capability_application_evaluation no_upload) (\<lambda>report. returnS (Capability_report report))"
| "main me (Init_db path) =
     bindS (if given path then returnS (the path) else bindS (settingsM me) (\<lambda>st. returnS (cf_database_path st)))
       (initialize_database me)"
| "main me (Serve host port) = bindS (serve_command me host port) (\<lambda>_. returnS Finished)"

section \<open>The host that is bound\<close>

lemma load_dotenv_again:
  assumes "load_local_dotenv dotenv env = (Inr (), env')" and "map_of env'' k = map_of env' k"
    and "load_local_dotenv dotenv env'' = (Inr (), env3)"
  shows "map_of env3 k = map_of env' k"
  using assms by (cases dotenv) (auto simp: load_local_dotenv_def returnS_def dest!: load_lines_first[where k = k] split: option.splits)

lemma from_env_fields:
  assumes "from_env dotenv env = (Inr st, env')"
  shows "load_local_dotenv dotenv env = (Inr (), env')" "cf_host st = getenv env' ''HOST'' (cf_host default_settings)"
    "cf_bearer_token st = nonempty_variable env' ''INCIDENT_AGENT_BEARER_TOKEN''" "validate_settings env' st = Inr ()"
  using assms by (auto simp: from_env_def bindS_Inr_iff readS_def returnS_def read_settings_def bindE_Inr_iff Let_def)

lemma update_other: "k \<noteq> k' \<Longrightarrow> map_of (AList.update k v env) k' = map_of env k'"
  by (simp add: update_conv')

text \<open>C38: What \<open>serve\<close> binds is what was checked: the server listens on the host whose settings the application it
  imports reads again and validates, the application's access policy is made for that very host and token, and a host
  that is not loopback has a bearer token, even when \<open>--host\<close> overrides an environment meant for loopback.\<close>

theorem serve_binds_checked_host:
  assumes "bound_and_served dotenv host env = (Inr (st, app_st), env')"
  shows "cf_host app_st = cf_host st \<and> (given host \<longrightarrow> cf_host st = the host) \<and>
    cf_bearer_token app_st = cf_bearer_token st \<and> validate_settings env' app_st = Inr () \<and>
    (\<not> is_loopback_host (cf_host st) \<longrightarrow> given (cf_bearer_token st)) \<and>
    ap_loopback_only (access_policy_for app_st) = is_loopback_host (cf_host st) \<and>
    ap_bearer_token (access_policy_for app_st) = cf_bearer_token st"
proof -
  from assms obtain env1 where s: "serve_settings dotenv host env = (Inr st, env1)" and a: "from_env dotenv env1 = (Inr app_st, env')"
    by (auto simp: bound_and_served_def bindS_Inr_iff readS_def returnS_def)
  from s obtain st0 env0 where f: "from_env dotenv env = (Inr st0, env0)"
    and h: "if given host then st = st0\<lparr>cf_host := the host\<rparr> \<and> env1 = AList.update ''HOST'' (the host) env0 else st = st0 \<and> env1 = env0"
    by (auto simp: serve_settings_def bindS_Inr_iff readS_def returnS_def set_variable_def Let_def split: if_splits)
  have token: "map_of env1 ''INCIDENT_AGENT_BEARER_TOKEN'' = map_of env0 ''INCIDENT_AGENT_BEARER_TOKEN''"
    using h by (auto simp: update_other split: if_splits)
  have "map_of env' ''INCIDENT_AGENT_BEARER_TOKEN'' = map_of env0 ''INCIDENT_AGENT_BEARER_TOKEN''"
    by (rule load_dotenv_again[OF from_env_fields(1)[OF f] token from_env_fields(1)[OF a]])
  then have t: "cf_bearer_token app_st = cf_bearer_token st0"
    unfolding from_env_fields(3)[OF a] from_env_fields(3)[OF f] by (simp add: nonempty_variable_def)
  have host: "cf_host app_st = cf_host st"
  proof (cases "given host")
    case True
    then have "map_of env1 ''HOST'' = Some (the host)" using h by (simp add: update_conv')
    then have "map_of env' ''HOST'' = Some (the host)"
      using from_env_fields(1)[OF a] by (cases dotenv) (auto simp: load_local_dotenv_def returnS_def dest!: load_lines_first[where k = "''HOST''"])
    then show ?thesis using True h from_env_fields(2)[OF a] by (simp add: getenv_def)
  next
    case False
    then have "map_of env' ''HOST'' = map_of env0 ''HOST''" using h load_dotenv_again[OF from_env_fields(1)[OF f] _ from_env_fields(1)[OF a]] by simp
    then show ?thesis using False h from_env_fields(2)[OF a] from_env_fields(2)[OF f] by (simp add: getenv_def)
  qed
  have "cf_bearer_token st = cf_bearer_token st0" using h by (auto split: if_splits)
  moreover have "given host \<longrightarrow> cf_host st = the host" using h by simp
  moreover have "\<not> is_loopback_host (cf_host app_st) \<longrightarrow> given (cf_bearer_token app_st)"
    using validated(1)[OF from_env_fields(4)[OF a]] by (auto simp: guarded_def)
  ultimately show ?thesis using t host from_env_fields(4)[OF a] by (simp add: access_policy_for_def)
qed

text \<open>A number of repetitions out of range ends the process with status 2, before anything is read or sent.\<close>

lemma repetitions_refused: "r \<notin> {1..5} \<Longrightarrow> main me (Reflection_eval r mode no_upload) s = (Inl (SystemExit 2), s)"
  by (auto simp: raiseS_def)

definition sample_served :: "string \<Rightarrow> environment" where
  "sample_served h = [(''HOST'', h), (''INCIDENT_AGENT_BEARER_TOKEN'', ''t'')]"

lemma sample_served_settings:
  "from_env None (sample_served h) = (Inr (default_settings\<lparr>cf_bearer_token := Some ''t'', cf_host := h\<rparr>), sample_served h)"
proof -
  let ?s = "default_settings\<lparr>cf_bearer_token := Some ''t'', cf_host := h\<rparr>"
  have name: "fullmatch IDENTIFIER ''incident-response-agent''" by code_simp
  have read: "read_settings (sample_served h) = Inr ?s"
    by (simp add: read_settings_def sample_served_def getenv_def strict_bool_def refuse_def float_variable_def
        int_variable_def nonempty_variable_def given_def default_settings_def lower_def lower_char_def
        is_ascii_upper_def char_in_def code_def)
  have "validate_settings (sample_served h) ?s = Inr ()"
    by (simp add: validate_ok checks_def given_def name default_settings_def)
  with read show ?thesis by (simp add: from_env_def load_local_dotenv_def bindS_def readS_def returnS_def)
qed

theorem serve_binds_checked_host_witness:
  "\<exists>st app_st env'. bound_and_served None (Some ''server'') (sample_served ''localhost'') = (Inr (st, app_st), env') \<and>
     cf_host app_st = ''server'' \<and> given (cf_bearer_token st)"
proof -
  have v: "validate_settings env st = Inr ()" if "from_env None env = (Inr st, env)" for env st using from_env_fields(4)[OF that] .
  have valid: "validate_settings (sample_served ''localhost'') (default_settings\<lparr>cf_bearer_token := Some ''t'', cf_host := ''server''\<rparr>) = Inr ()"
    using v[OF sample_served_settings[of "''server''"]] by (simp add: validate_ok checks_def default_settings_def)
  have up: "AList.update ''HOST'' ''server'' (sample_served ''localhost'') = sample_served ''server''" by (simp add: sample_served_def)
  have host: "\<not> is_loopback_host ''server''" by code_simp
  have null: "CHR 0x00 \<notin> set ''HOST'' \<union> set ''server''" by simp
  obtain st app_st env' where r: "bound_and_served None (Some ''server'') (sample_served ''localhost'') = (Inr (st, app_st), env')"
    using v[OF sample_served_settings[of "''server''"]] null valid
    by (simp add: bound_and_served_def serve_settings_def bindS_def readS_def returnS_def sample_served_settings given_def set_variable_def up Let_def)
  show ?thesis using serve_binds_checked_host[OF r] r host by (auto simp: given_def)
qed

end
