(* ===== verification/Spec2Isabelle.thy ===== *)
theory Spec2Isabelle
  imports Service Application Activation ContainerLab Reflection Workflow Factory Cli
begin

text \<open>
  A model of the incident response agent (\<open>src/incident_response_agent/\<close>) and what makes it correct.

  The program. An event is accepted over HTTP (\<open>app.py\<close> behind the middleware of \<open>security.py\<close>) or by a command of
  \<open>cli.py\<close>. \<open>IncidentService\<close> (\<open>service.py\<close>) stores a run (\<open>storage.py\<close>), collects evidence (\<open>telemetry.py\<close>, or an
  agent's investigation in \<open>site_investigation.py\<close>), has it assessed (\<open>model.py\<close>), and lets the policy (\<open>policy.py\<close>)
  turn the assessment into a remediation option. Option, revision, scenario and evidence kind are bound by a digest into
  a proposal, which a human approves, rejects or revises before its deadline. Only an approved, unexpired, unaltered
  proposal reaches an executor (\<open>executor.py\<close>, \<open>container_lab.py\<close>), which works on a disposable sandbox
  (\<open>sandbox.py\<close>), on one owned container or on one owned worker. Knowledge is learned beside this: an agent proposes
  runbooks and capability contracts (\<open>runbook_learning.py\<close>, \<open>capability_learning.py\<close>), a reviewer and a deterministic
  evaluator promote them, and later investigations cite them (\<open>runbook_application_eval.py\<close>,
  \<open>capability_application_eval.py\<close>). \<open>causal_workflow.py\<close> strings investigation, approval, execution and verification
  into a resumable graph; \<open>reflection_eval.py\<close> compares direct with reflective investigations; \<open>config.py\<close>,
  \<open>observability.py\<close> and \<open>factory.py\<close> read the settings and build the service from them.

  Effects. An action is a function from a state to a result (an exception of the datatype \<open>exn\<close>, or a value) and the
  state after it; an action that raises keeps what it changed before. The state of the service is the database and the
  world of its collaborators; a transaction of the store drops its changes when it raises. Every exception the code
  raises or catches is a constructor of \<open>exn\<close>, so each error path is a branch of the model.
\<close>

text \<open>
  Foundations.
  \<^item> \<open>Prelude\<close>: exceptions, results, actions, tables with the SQL reading of WHERE, Python's string operations.
  \<^item> \<open>Doubles\<close>, \<open>Numbers\<close>: binary floating point where it decides something; \<open>float(text)\<close>, \<open>int(text)\<close>.
  \<^item> \<open>Regex\<close>, \<open>Language\<close>: the backtracking matcher and \<open>sub\<close> of \<open>re\<close>; \<open>fullmatch\<close> decides the regular language.
  \<^item> \<open>Clock\<close>: aware UTC datetimes, \<open>isoformat\<close>, \<open>timedelta\<close>; \<open>Json\<close>: documents and the canonical text digests are
    taken of, which is injective on documents.
  \<^item> \<open>Network\<close>: addresses, URLs and \<open>is_loopback_host\<close>.

  Data, policy, input.
  \<^item> \<open>Schemas\<close>: \<open>schemas.py\<close>, a predicate and a checking constructor for each validated model.
  \<^item> \<open>Policy\<close>: \<open>policy.py\<close>, the table of actions, \<open>build_option\<close>, \<open>action_hash\<close>.
  \<^item> \<open>Security\<close>: redaction and the middleware of \<open>security.py\<close>.
  \<^item> \<open>Telemetry\<close>, \<open>Analyzer\<close>: \<open>telemetry.py\<close>, \<open>model.py\<close>, each with a locale for what the service relies on.
  \<^item> \<open>Config\<close>, \<open>Observability\<close>, \<open>Factory\<close>, \<open>App\<close>: the files of the same names.

  The store and the service.
  \<^item> \<open>Storage\<close>: the tables of \<open>storage.py\<close> as decoded rows and one definition per operation, its body first, then the
    transaction around it. \<open>StoreInvariant\<close>: the invariant and its preservation. \<open>StoreLifecycle\<close>: every operation on
    every branch, the step relation of the store and reachable databases (locale \<open>sound_body\<close>, interpreted on each
    body). \<open>StoreProperties\<close>: the properties of the proposal lifecycle.
  \<^item> \<open>Migration\<close>: the schema and the migration of older databases as the sequence of their statements, over rows that
    hold texts; \<open>read_as\<close> relates them to the decoded rows. \<open>Opening\<close>: \<open>SQLiteStore(path)\<close>, that is the directories,
    the database file and its schema, over a file system and the tables of each database file; decoding the tables
    for a session of the service and encoding them again.
  \<^item> \<open>Service\<close>: \<open>service.py\<close> over the store and its collaborators; it refines the step relation of the store.
  \<^item> \<open>Approvals\<close>: locales for relations between states that every service operation establishes, and the first
    instance, that only a decision to approve grants a proposal. \<open>Workflow\<close>, \<open>DemoSafety\<close> give further instances.

  Executors.
  \<^item> \<open>Sandbox\<close>: a file system with directories, files and symbolic links, and \<open>sandbox.py\<close> over it.
  \<^item> \<open>Executor\<close>: the disabled, the filesystem and the container adapter; locale \<open>remediation_executor\<close>.
    \<open>Activation\<close>: the worker adapter; \<open>ContainerLab\<close>: \<open>container_lab.py\<close> and the restart adapter.
  \<^item> \<open>Tidy\<close>: what happens in a runtime sandbox stays in it.

  Investigation and learning.
  \<^item> \<open>Investigation\<close>: \<open>site_investigation.py\<close>; \<open>Workflow\<close>: \<open>causal_workflow.py\<close>, its graph a labelled step relation
    in which a node that raised may run again; \<open>Reflection\<close>: \<open>reflection_eval.py\<close>.
  \<^item> \<open>Registry\<close>: the registry both learning files implement, over a record of what differs; \<open>Learning\<close>: what else
    they share; \<open>Runbook\<close>, \<open>Capability\<close>: the two files, interpreting the locale \<open>promotion_gate\<close>.
  \<^item> \<open>Knowledge\<close>, \<open>Application\<close>: citing promoted knowledge; \<open>Evaluation\<close>: the experiments before and after.

  The command line.
  \<^item> \<open>Demo\<close>, \<open>LearningDemo\<close>: the demonstrations; \<open>DemoSafety\<close>: what they may do; \<open>Cli\<close>: dispatch, \<open>init-db\<close>, \<open>serve\<close>.
\<close>

text \<open>
  What is shown.
  \<^item> Runs: none is lost, each moves along the lifecycle and ends; an event leaves a proposed or failed run whatever the
    collaborators do; the audit trail replays to the state; expiry never raises and is complete; a claim succeeds at
    most once and needs an approval of the very digest, before the deadline; the executor matters to a run only
    through the approved option. The time to live is enforced as real time although texts are compared, and a stored
    proposal reads back as it was drafted. The background expiry runs until SQLite fails in one of its sweeps, and that
    ends it.
  \<^item> Binding: equal digests mean equal content unless SHA-256 collides; altered proposals are refused.
  \<^item> Access: a changing request bore the token, but for a POST on loopback to \<open>/events\<close> or \<open>/maintenance/expire\<close> with a
    line feed appended, which the framework routes and the middleware does not protect (\<open>newline_needs_no_token\<close> runs
    one); a host that is not loopback answers nobody else; the factory opens the configured database only and installs
    an executor only when execution is enabled; settings that enable execution or a public host carry a token; \<open>serve\<close> binds the host the application validated; bodies are bounded.
  \<^item> Executors: the files outside the sandbox stay, clean-up removes exactly the rotated logs, a worker is lowered only
    under a promoted contract and verified or rolled back, a restart reported as success was verified.
  \<^item> Agents: a diagnosis cites only what its tools returned in its thread and an authorised action; reflection and the
    evaluations keep this; the workflow adds the sandboxes of its threads and else touches files only after an approval of
    their own proposal; a live analysis sends a bounded number of requests however it ends; the demonstrations
    execute nothing unless the operator typed \<open>approve\<close> and leave no files behind.
  \<^item> Knowledge: registries only grow, versions are numbered without gaps, a promoted version was reviewed and passes
    its evaluation; the second experiment of an evaluation cites exactly the promoted version.
  \<^item> Secrets: sanitised metadata is clean, HTTP spans do not tell requests of one route apart, an old database is sanitised
    and its open proposals retired, whatever statement the first attempt died after.

  Termination. The functions are total. Retries, polls and repetitions recurse as the loops do: the live analysis over
  its retries, the matcher over the rest of the text, the polling loops of \<open>container_lab.py\<close> over the time left to
  the deadline, of which each \<open>sleep\<close> takes at least its argument (a law of the clock parameter). Path lookup follows
  at most 40 symbolic links, as Linux does, and then finds nothing. An agent is a finite tree of tool calls
  followed by an answer or an exception: LangGraph ends it at its recursion limit.

  Parameters, with what is assumed of them. SHA-256 (nothing; collisions appear in the conclusion); \<open>float.__repr__\<close>
  (injective, no character that would end a JSON number); \<open>uuid4\<close> and the names of temporary directories (fresh where
  a property says so); the clock (monotonic where \<open>time.monotonic\<close> is used); \<open>json.loads\<close>; the HTTP transport of the
  model server; Starlette's matching of a path against a route template (the template's language, and
  that \<open>$\<close> also accepts a final line feed; \<open>documented_matcher\<close> is an instance), FastAPI's reading and validation of a
  body (numeric strings, which pydantic would convert, are refused by the readers of stored documents and model replies); the container engine; the search path; the agents of
  LangGraph and the models behind them; the LangSmith client; the operator's input; \<open>argparse\<close>; \<open>uvicorn\<close>.

  Characters are code points below 256. SQLite statements run one after the other, as the lock of the store and
  \<open>BEGIN IMMEDIATE\<close> order them, so threads appear as sequences of operations. SQLite itself fails in two places of the
  model: when a store is opened (\<open>Opening\<close>) and in a sweep of the background task (\<open>App\<close>). In every other operation a
  database that stays locked beyond the five seconds of the busy timeout, a full disk and a failing \<open>COMMIT\<close> are left
  out; statements that an operation "never raises" are about the store's own logic.

  Not modelled. OpenTelemetry's SDK and exporters with \<open>force_flush\<close>, \<open>shutdown\<close> and \<open>instrument_app\<close>; the prompts and
  the construction of agents, which only pass data to LangGraph; closing connections and their pragmas; the text of
  printed JSON, which is kept as phases; the spans the service opens (their content is that of \<open>Observability\<close>);
  \<open>studio.py\<close> and \<open>studio_causal.py\<close>, module-level wiring; \<open>audit.py\<close>, which only re-exports; the one call of
  \<open>clock.py\<close>.
\<close>

end
